(* ===== verification/Prelude.thy ===== *)
theory Prelude
  imports Main "HOL-Library.Word"
begin

text \<open>
  The prelude of the development: the theorem collections the component theories
  fill, the types every component shares (instants, tracker ids), and the generic
  facts about lists and folds that carry the replay proofs of the event-log readers.
\<close>

named_theorems go_str \<open>equations of the modelled string operations of the Go library\<close>
named_theorems replay \<open>equations of the event-log replays\<close>
named_theorems step_simps \<open>projections of the step constructors of the review reducer\<close>

text \<open>
  A Go \<open>time.Time\<close> is used by the modelled code as an instant only: compared, and
  moved by a duration. It is the number of nanoseconds since the Unix epoch, and
  \<open>zeroTime\<close> is Go's zero value, midnight of 1 January of year 1 (UTC).
  Tracker ids are Go \<open>int64\<close> values that the code compares and prints and never
  computes with, so they are integers; where one is parsed the range is checked.
\<close>

type_synonym time = int
type_synonym tid = int

definition zeroTime :: time where
  "zeroTime = - 62135596800 * 1000000000"

definition nanosPerSecond :: int where
  "nanosPerSecond = 1000000000"

section \<open>Lists\<close>

text \<open>The first element that satisfies a predicate: the shape of every lookup loop.\<close>

fun firstSuch :: "('a \<Rightarrow> bool) \<Rightarrow> 'a list \<Rightarrow> 'a option" where
  "firstSuch P [] = None"
| "firstSuch P (x # xs) = (if P x then Some x else firstSuch P xs)"

lemma firstSuch_Some:
  "firstSuch P xs = Some x \<Longrightarrow> x \<in> set xs \<and> P x"
  by (induction xs) (auto split: if_splits)

lemma firstSuch_None_iff: "firstSuch P xs = None \<longleftrightarrow> (\<forall>x\<in>set xs. \<not> P x)"
  by (induction xs) auto

lemma firstSuch_append:
  "firstSuch P (xs @ ys) = (case firstSuch P xs of None \<Rightarrow> firstSuch P ys | Some x \<Rightarrow> Some x)"
  by (induction xs) auto

lemma firstSuch_isSome_mem: "x \<in> set xs \<Longrightarrow> P x \<Longrightarrow> \<exists>y. firstSuch P xs = Some y"
  by (induction xs) auto

text \<open>The first defined result of a loop body that returns early.\<close>

fun firstSome :: "('a \<Rightarrow> 'b option) \<Rightarrow> 'a list \<Rightarrow> 'b option" where
  "firstSome f [] = None"
| "firstSome f (x # xs) = (case f x of None \<Rightarrow> firstSome f xs | Some y \<Rightarrow> Some y)"

lemma firstSome_Some: "firstSome f xs = Some y \<Longrightarrow> \<exists>x\<in>set xs. f x = Some y"
  by (induction xs) (auto split: option.splits)

lemma firstSome_None_iff: "firstSome f xs = None \<longleftrightarrow> (\<forall>x\<in>set xs. f x = None)"
  by (induction xs) (auto split: option.splits)

lemma firstSome_append:
  "firstSome f (xs @ ys) = (case firstSome f xs of None \<Rightarrow> firstSome f ys | Some y \<Rightarrow> Some y)"
  by (induction xs) (auto split: option.splits)

text \<open>
  An ordered log is split at the first entry with a given key; every fold over a log
  up to an entry is a fold over that prefix.
\<close>

lemma split_at_first:
  assumes "x \<in> set xs" and "P x"
  shows "\<exists>pre y post. xs = pre @ y # post \<and> P y \<and> (\<forall>z\<in>set pre. \<not> P z)"
  using assms by (metis split_list_first_prop)

lemma fold_invariant:
  assumes "I s" and "\<And>x s. x \<in> set xs \<Longrightarrow> I s \<Longrightarrow> I (f x s)"
  shows "I (fold f xs s)"
  using assms by (induction xs arbitrary: s) auto

lemma fold_skip:
  assumes "\<And>x s. x \<in> set xs \<Longrightarrow> f x s = s"
  shows "fold f xs s = s"
  using assms by (induction xs) auto

text \<open>
  Removal of repetitions that keeps the first occurrence, as a loop with a \<open>seen\<close> map
  does. (\<open>remdups\<close> of the library keeps the last one.)
\<close>

definition distinctFirst :: "'a list \<Rightarrow> 'a list" where
  "distinctFirst xs = rev (remdups (rev xs))"

lemma distinct_distinctFirst [simp]: "distinct (distinctFirst xs)"
  by (simp add: distinctFirst_def)

lemma set_distinctFirst [simp]: "set (distinctFirst xs) = set xs"
  by (simp add: distinctFirst_def)

lemma length_distinctFirst: "length (distinctFirst xs) = card (set xs)"
  by (metis distinct_card distinct_distinctFirst set_distinctFirst)

lemma distinctFirst_snoc:
  "distinctFirst (xs @ [x]) = (if x \<in> set xs then distinctFirst xs else distinctFirst xs @ [x])"
  by (simp add: distinctFirst_def)

lemma distinctFirst_Nil [simp]: "distinctFirst [] = []"
  by (simp add: distinctFirst_def)

end
