(* ===== verification/GoStrings.thy ===== *)
theory GoStrings
  imports Prelude
begin

text \<open>
  The operations of Go's \<open>strings\<close>, \<open>strconv\<close> and \<open>unicode/utf8\<close> packages that the
  modelled code calls. A Go string is a sequence of bytes and so is \<open>string\<close>.
  White space is Unicode's: a string is trimmed by stripping the UTF-8 encodings of
  the white-space code points, which are self-synchronizing, so that stripping bytes
  and stripping decoded runes agree.

  What differs between Go toolchains is the argument \<open>u\<close> of every definition that
  depends on it, so every theorem holds for each of them: \<open>foldOf u r\<close> names the case
  orbit of a non-ASCII rune \<open>r\<close> in the runtime's Unicode tables by one representative
  (an ASCII lower-case letter where the orbit has one), \<open>lowerOf u r\<close> is its lower-case
  mapping, and \<open>hostOf u h\<close> is the decoded host \<open>net/url\<close> reads from the host part \<open>h\<close>
  of an authority, \<open>None\<close> where it refuses it. ASCII runes are folded as the library
  does, whatever \<open>u\<close> is.
\<close>

section \<open>Bytes\<close>

definition byte :: "char \<Rightarrow> int" where
  "byte c = of_char c"

definition lineFeed :: char where "lineFeed = CHR 0x0A"

definition isDigit :: "char \<Rightarrow> bool" where
  "isDigit c \<longleftrightarrow> 48 \<le> byte c \<and> byte c \<le> 57"

definition isLowerAZ :: "char \<Rightarrow> bool" where
  "isLowerAZ c \<longleftrightarrow> 97 \<le> byte c \<and> byte c \<le> 122"

definition isUpperAZ :: "char \<Rightarrow> bool" where
  "isUpperAZ c \<longleftrightarrow> 65 \<le> byte c \<and> byte c \<le> 90"

section \<open>Prefixes, substrings, splitting\<close>

fun hasPrefix :: "string \<Rightarrow> string \<Rightarrow> bool" where
  "hasPrefix s [] = True"
| "hasPrefix [] (p # ps) = False"
| "hasPrefix (c # cs) (p # ps) = (if c = p then hasPrefix cs ps else False)"

definition cutPrefix :: "string \<Rightarrow> string \<Rightarrow> string option" where
  "cutPrefix s p = (if hasPrefix s p then Some (drop (length p) s) else None)"

text \<open>\<open>strings.Index\<close>: the first position of a substring.\<close>

fun strIndex :: "string \<Rightarrow> string \<Rightarrow> nat option" where
  "strIndex s p =
     (if hasPrefix s p then Some 0
      else (case s of [] \<Rightarrow> None | c # cs \<Rightarrow> map_option Suc (strIndex cs p)))"

declare strIndex.simps [simp del]

definition contains :: "string \<Rightarrow> string \<Rightarrow> bool" where
  "contains s p \<longleftrightarrow> strIndex s p \<noteq> None"

text \<open>\<open>strings.Split\<close> and \<open>strings.Cut\<close> on a one-byte separator.\<close>

fun splitOn :: "char \<Rightarrow> string \<Rightarrow> string list" where
  "splitOn d [] = [[]]"
| "splitOn d (c # cs) =
     (if c = d then [] # splitOn d cs
      else (case splitOn d cs of [] \<Rightarrow> [[c]] | w # ws \<Rightarrow> (c # w) # ws))"

fun cutOn :: "char \<Rightarrow> string \<Rightarrow> (string \<times> string) option" where
  "cutOn d [] = None"
| "cutOn d (c # cs) =
     (if c = d then Some ([], cs)
      else (case cutOn d cs of None \<Rightarrow> None | Some (a, b) \<Rightarrow> Some (c # a, b)))"

text \<open>\<open>strings.ReplaceAll\<close> with a non-empty pattern, left to right without overlap.\<close>

function replaceAll :: "string \<Rightarrow> string \<Rightarrow> string \<Rightarrow> string" where
  "replaceAll old new s =
     (case s of
        [] \<Rightarrow> []
      | c # cs \<Rightarrow>
          if old \<noteq> [] \<and> hasPrefix s old then new @ replaceAll old new (drop (length old) s)
          else c # replaceAll old new cs)"
  by pat_completeness auto
termination
  by (relation "measure (\<lambda>(old, new, s). length s)") auto

declare replaceAll.simps [simp del]

section \<open>White space\<close>

text \<open>
  The UTF-8 encodings of the code points \<open>unicode.IsSpace\<close> accepts: tab, line feed,
  vertical tab, form feed, carriage return, space, U+0085, U+00A0, U+1680,
  U+2000 to U+200A, U+2028, U+2029, U+202F, U+205F and U+3000.
\<close>

definition spaceEncodings :: "string list" where
  "spaceEncodings =
     [[CHR 0x20], [CHR 0x0A], [CHR 0x09], [CHR 0x0D], [CHR 0x0B], [CHR 0x0C],
      [CHR 0xC2, CHR 0x85], [CHR 0xC2, CHR 0xA0], [CHR 0xE1, CHR 0x9A, CHR 0x80],
      [CHR 0xE2, CHR 0x80, CHR 0x80], [CHR 0xE2, CHR 0x80, CHR 0x81],
      [CHR 0xE2, CHR 0x80, CHR 0x82], [CHR 0xE2, CHR 0x80, CHR 0x83],
      [CHR 0xE2, CHR 0x80, CHR 0x84], [CHR 0xE2, CHR 0x80, CHR 0x85],
      [CHR 0xE2, CHR 0x80, CHR 0x86], [CHR 0xE2, CHR 0x80, CHR 0x87],
      [CHR 0xE2, CHR 0x80, CHR 0x88], [CHR 0xE2, CHR 0x80, CHR 0x89],
      [CHR 0xE2, CHR 0x80, CHR 0x8A], [CHR 0xE2, CHR 0x80, CHR 0xA8],
      [CHR 0xE2, CHR 0x80, CHR 0xA9], [CHR 0xE2, CHR 0x80, CHR 0xAF],
      [CHR 0xE2, CHR 0x81, CHR 0x9F], [CHR 0xE3, CHR 0x80, CHR 0x80]]"

text \<open>The number of bytes of the white-space rune a string starts with, 0 for none.\<close>

definition spaceWidth :: "string \<Rightarrow> nat" where
  "spaceWidth s = (case firstSuch (hasPrefix s) spaceEncodings of None \<Rightarrow> 0 | Some e \<Rightarrow> length e)"

definition spaceWidthRev :: "string \<Rightarrow> nat" where
  "spaceWidthRev s =
     (case firstSuch (hasPrefix s) (map rev spaceEncodings) of None \<Rightarrow> 0 | Some e \<Rightarrow> length e)"

function stripBy :: "(string \<Rightarrow> nat) \<Rightarrow> string \<Rightarrow> string" where
  "stripBy w s = (if w s = 0 \<or> s = [] then s else stripBy w (drop (w s) s))"
  by pat_completeness auto
termination
  by (relation "measure (\<lambda>(w, s). length s)") auto

declare stripBy.simps [simp del]

definition trimSpace :: "string \<Rightarrow> string" where
  "trimSpace s = rev (stripBy spaceWidthRev (rev (stripBy spaceWidth s)))"

text \<open>\<open>strings.Fields\<close>: the maximal runs free of white space.\<close>

function fieldsAcc :: "string \<Rightarrow> string \<Rightarrow> string list" where
  "fieldsAcc acc s =
     (case s of
        [] \<Rightarrow> (if acc = [] then [] else [rev acc])
      | c # cs \<Rightarrow>
          if spaceWidth s = 0 then fieldsAcc (c # acc) cs
          else (if acc = [] then [] else [rev acc]) @ fieldsAcc [] (drop (spaceWidth s) s))"
  by pat_completeness auto
termination
  by (relation "measure (\<lambda>(acc, s). length s)") auto

declare fieldsAcc.simps [simp del]

definition strFields :: "string \<Rightarrow> string list" where
  "strFields s = fieldsAcc [] s"

section \<open>Numbers\<close>

definition digitChar :: "int \<Rightarrow> char" where
  "digitChar d = ''0123456789'' ! nat d"

function itoaNat :: "int \<Rightarrow> string" where
  "itoaNat n = (if n < 10 then [digitChar n] else itoaNat (n div 10) @ [digitChar (n mod 10)])"
  by pat_completeness auto
termination
  by (relation "measure nat") auto

declare itoaNat.simps [simp del]

text \<open>The verb \<open>%d\<close>, \<open>strconv.Itoa\<close> and \<open>fmt.Sprint\<close> of an integer.\<close>

definition itoa :: "int \<Rightarrow> string" where
  "itoa i = (if i < 0 then CHR ''-'' # itoaNat (- i) else itoaNat i)"

fun digitsAcc :: "int \<Rightarrow> string \<Rightarrow> int option" where
  "digitsAcc acc [] = Some acc"
| "digitsAcc acc (c # cs) =
     (if isDigit c then digitsAcc (10 * acc + (byte c - 48)) cs else None)"

text \<open>
  \<open>strconv.ParseInt(s, 10, 64)\<close> and, on a 64-bit platform, \<open>strconv.Atoi\<close>: an
  optional sign, at least one digit, and a value in the range of an \<open>int64\<close>.
\<close>

definition parseInt64 :: "string \<Rightarrow> int option" where
  "parseInt64 s =
     (case s of
        [] \<Rightarrow> None
      | c # cs \<Rightarrow>
          let neg = (c = CHR ''-'');
              ds = (if c = CHR ''+'' \<or> c = CHR ''-'' then cs else s)
          in if ds = [] then None
             else (case digitsAcc 0 ds of
                     None \<Rightarrow> None
                   | Some n \<Rightarrow>
                       if \<not> neg \<and> n \<ge> 9223372036854775808 then None
                       else if neg \<and> n > 9223372036854775808 then None
                       else Some (if neg then - n else n)))"

section \<open>Case folding\<close>

record runtime =
  foldOf :: "int \<Rightarrow> int"
  lowerOf :: "int \<Rightarrow> int"
  hostOf :: "string \<Rightarrow> string option"

definition isCont :: "int \<Rightarrow> bool" where
  "isCont b \<longleftrightarrow> 128 \<le> b \<and> b \<le> 191"

definition runeError :: int where
  "runeError = 65533"

text \<open>
  \<open>utf8.DecodeRuneInString\<close> on a non-empty string: the rune and its width; an invalid
  encoding (a stray continuation byte, an overlong form, a surrogate, a code point
  beyond U+10FFFF, a truncated sequence) is the error rune with width 1.
\<close>

definition decodeRune :: "int list \<Rightarrow> int \<times> nat" where
  "decodeRune bs =
     (case bs of
        [] \<Rightarrow> (runeError, 0)
      | b0 # r0 \<Rightarrow>
          if b0 < 128 then (b0, 1)
          else if 194 \<le> b0 \<and> b0 \<le> 223 then
            (case r0 of
               b1 # _ \<Rightarrow> if isCont b1 then ((b0 - 192) * 64 + (b1 - 128), 2) else (runeError, 1)
             | _ \<Rightarrow> (runeError, 1))
          else if 224 \<le> b0 \<and> b0 \<le> 239 then
            (case r0 of
               b1 # b2 # _ \<Rightarrow>
                 if isCont b1 \<and> isCont b2 \<and> (b0 = 224 \<longrightarrow> 160 \<le> b1) \<and> (b0 = 237 \<longrightarrow> b1 \<le> 159)
                 then ((b0 - 224) * 4096 + (b1 - 128) * 64 + (b2 - 128), 3) else (runeError, 1)
             | _ \<Rightarrow> (runeError, 1))
          else if 240 \<le> b0 \<and> b0 \<le> 244 then
            (case r0 of
               b1 # b2 # b3 # _ \<Rightarrow>
                 if isCont b1 \<and> isCont b2 \<and> isCont b3 \<and> (b0 = 240 \<longrightarrow> 144 \<le> b1) \<and> (b0 = 244 \<longrightarrow> b1 \<le> 143)
                 then ((b0 - 240) * 262144 + (b1 - 128) * 4096 + (b2 - 128) * 64 + (b3 - 128), 4)
                 else (runeError, 1)
             | _ \<Rightarrow> (runeError, 1))
          else (runeError, 1))"

function runesOf :: "int list \<Rightarrow> int list" where
  "runesOf bs =
     (case bs of
        [] \<Rightarrow> []
      | b # r \<Rightarrow> fst (decodeRune bs) # runesOf (drop (snd (decodeRune bs) - 1) r))"
  by pat_completeness auto
termination
  by (relation "measure length") auto

declare runesOf.simps [simp del]

definition runes :: "string \<Rightarrow> int list" where
  "runes s = runesOf (map byte s)"

definition asciiLower :: "int \<Rightarrow> int" where
  "asciiLower r = (if 65 \<le> r \<and> r \<le> 90 then r + 32 else r)"

definition foldRune :: "runtime \<Rightarrow> int \<Rightarrow> int" where
  "foldRune u r = (if r < 128 then asciiLower r else foldOf u r)"

text \<open>\<open>strings.EqualFold\<close>.\<close>

definition equalFold :: "runtime \<Rightarrow> string \<Rightarrow> string \<Rightarrow> bool" where
  "equalFold u a b \<longleftrightarrow> map (foldRune u) (runes a) = map (foldRune u) (runes b)"

text \<open>\<open>utf8.AppendRune\<close> and \<open>strings.ToLower\<close>.\<close>

definition encodeRune :: "int \<Rightarrow> string" where
  "encodeRune r = map char_of
     (if r < 128 then [r]
      else if r < 2048 then [192 + r div 64, 128 + r mod 64]
      else if r > 1114111 \<or> 55296 \<le> r \<and> r \<le> 57343 then [239, 191, 189]
      else if r < 65536 then [224 + r div 4096, 128 + r div 64 mod 64, 128 + r mod 64]
      else [240 + r div 262144, 128 + r div 4096 mod 64, 128 + r div 64 mod 64, 128 + r mod 64])"

definition toLower :: "runtime \<Rightarrow> string \<Rightarrow> string" where
  "toLower u s = concat (map (\<lambda>r. encodeRune (if r < 128 then asciiLower r else lowerOf u r)) (runes s))"

end
