(* ===== verification/GoStringFacts.thy ===== *)
theory GoStringFacts
  imports GoStrings
begin

text \<open>
  What the modelled string operations guarantee: where a substring is first found, what
  trimming and splitting do to plain text, that a printed number parses back, and how
  replacement unfolds.
\<close>

section \<open>Facts about prefixes and substrings\<close>

lemma hasPrefix_iff: "hasPrefix s p \<longleftrightarrow> (\<exists>t. s = p @ t)"
  by (induction s p rule: hasPrefix.induct) auto

lemma hasPrefix_append [simp]: "hasPrefix (p @ t) p"
  by (simp add: hasPrefix_iff)

lemma hasPrefix_nth: "hasPrefix s p \<Longrightarrow> i < length p \<Longrightarrow> i < length s \<and> s ! i = p ! i"
  by (auto simp: hasPrefix_iff nth_append)

lemma strIndex_unfold:
  "strIndex s p = (if hasPrefix s p then Some 0
     else case s of [] \<Rightarrow> None | c # cs \<Rightarrow> map_option Suc (strIndex cs p))"
  by (rule strIndex.simps)

lemma strIndex_Nil: "strIndex [] p = (if p = [] then Some 0 else None)"
  by (subst strIndex.simps) (cases p, auto)

lemma strIndex_Cons:
  "strIndex (c # cs) p = (if hasPrefix (c # cs) p then Some 0 else map_option Suc (strIndex cs p))"
  by (subst strIndex.simps) simp

lemma contains_iff: "contains s p \<longleftrightarrow> (\<exists>a b. s = a @ p @ b)"
proof (induction s)
  case Nil
  then show ?case by (simp add: contains_def strIndex_Nil)
next
  case (Cons c cs)
  show ?case
  proof
    assume "contains (c # cs) p"
    then have "hasPrefix (c # cs) p \<or> contains cs p"
      by (auto simp: contains_def strIndex_Cons split: if_splits)
    with Cons.IH show "\<exists>a b. c # cs = a @ p @ b"
      by (metis append_Cons append_Nil hasPrefix_iff)
  next
    assume "\<exists>a b. c # cs = a @ p @ b"
    then obtain a b where ab: "c # cs = a @ p @ b" by blast
    show "contains (c # cs) p"
    proof (cases a)
      case Nil
      with ab have "hasPrefix (c # cs) p" by (auto simp: hasPrefix_iff)
      then show ?thesis by (simp add: contains_def strIndex_Cons)
    next
      case (Cons d a')
      with ab have "contains cs p" using Cons.IH by auto
      then show ?thesis by (auto simp: contains_def strIndex_Cons)
    qed
  qed
qed

lemma contains_append: "contains a p \<Longrightarrow> contains (x @ a @ y) p"
  by (metis append.assoc contains_iff)

lemma contains_absent_char: "c \<in> set p \<Longrightarrow> c \<notin> set s \<Longrightarrow> \<not> contains s p"
  by (auto simp: contains_iff)

text \<open>The first occurrence, when no earlier position carries the pattern.\<close>

lemma strIndex_at:
  assumes "\<And>j. j < length a \<Longrightarrow> \<not> hasPrefix (drop j a @ p @ b) p"
  shows "strIndex (a @ p @ b) p = Some (length a)"
  using assms
proof (induction a)
  case Nil
  then show ?case by (subst strIndex.simps) simp
next
  case (Cons c a)
  have "\<not> hasPrefix ((c # a) @ p @ b) p" using Cons.prems [of 0] by simp
  moreover have "strIndex (a @ p @ b) p = Some (length a)"
    by (rule Cons.IH) (use Cons.prems [of "Suc _"] in simp)
  ultimately show ?case by (simp add: strIndex_Cons)
qed

text \<open>
  A pattern that ends in a byte occurring nowhere before is found where it starts.
\<close>

lemma strIndex_by_last:
  assumes "c \<notin> set a" and "c \<notin> set q"
  shows "strIndex (a @ (q @ [c]) @ b) (q @ [c]) = Some (length a)"
proof (rule strIndex_at)
  fix j assume j: "j < length a"
  show "\<not> hasPrefix (drop j a @ (q @ [c]) @ b) (q @ [c])"
  proof
    assume "hasPrefix (drop j a @ (q @ [c]) @ b) (q @ [c])"
    then have "(drop j a @ q @ [c] @ b) ! length q = c"
      using hasPrefix_nth [of _ "q @ [c]" "length q"] by simp
    moreover have "(drop j a @ q @ [c] @ b) ! length q \<in> set a \<union> set q"
    proof (cases "length q < length a - j")
      case True
      then have "a ! (j + length q) \<in> set a" by simp
      with True show ?thesis by (simp add: nth_append)
    next
      case False
      then have "length q + j - length a < length q" using j by linarith
      with False j show ?thesis by (simp add: nth_append)
    qed
    ultimately show False using assms by auto
  qed
qed

lemma cutOn_split: "d \<notin> set a \<Longrightarrow> cutOn d (a @ d # b) = Some (a, b)"
  by (induction a) auto

section \<open>Facts about white space\<close>

definition plainChar :: "char \<Rightarrow> bool" where
  "plainChar c \<longleftrightarrow> 33 \<le> byte c \<and> byte c \<le> 126"

lemma spaceEncodings_head: "e \<in> set spaceEncodings \<Longrightarrow> e \<noteq> [] \<and> \<not> plainChar (hd e) \<and> \<not> plainChar (last e)"
  by (auto simp: spaceEncodings_def plainChar_def byte_def)

lemma hasPrefix_hd: "hasPrefix (c # cs) e \<Longrightarrow> e \<noteq> [] \<and> \<not> plainChar (hd e) \<Longrightarrow> \<not> plainChar c"
  by (cases e) (auto split: if_splits)

lemma spaceWidth_plain: "plainChar c \<Longrightarrow> spaceWidth (c # cs) = 0"
proof -
  assume c: "plainChar c"
  have "firstSuch (hasPrefix (c # cs)) spaceEncodings = None"
    unfolding firstSuch_None_iff using spaceEncodings_head c hasPrefix_hd by blast
  then show ?thesis by (simp add: spaceWidth_def)
qed

lemma spaceWidth_space: "spaceWidth (CHR '' '' # cs) = 1"
  by (simp add: spaceWidth_def spaceEncodings_def)

lemma stripBy_suffix: "\<exists>a. s = a @ stripBy w s"
proof (induction w s rule: stripBy.induct)
  case (1 w s)
  show ?case
  proof (cases "w s = 0 \<or> s = []")
    case True
    then show ?thesis by (subst stripBy.simps) simp
  next
    case False
    with 1 obtain a where "drop (w s) s = a @ stripBy w (drop (w s) s)" by blast
    then have "s = (take (w s) s @ a) @ stripBy w (drop (w s) s)"
      by (metis append.assoc append_take_drop_id)
    with False show ?thesis by (subst stripBy.simps) (metis (full_types))
  qed
qed

lemma trimSpace_infix: "\<exists>a b. s = a @ trimSpace s @ b"
proof -
  obtain a where a: "s = a @ stripBy spaceWidth s" using stripBy_suffix by blast
  obtain b where "rev (stripBy spaceWidth s) = b @ stripBy spaceWidthRev (rev (stripBy spaceWidth s))"
    using stripBy_suffix by blast
  then have "stripBy spaceWidth s = trimSpace s @ rev b"
    unfolding trimSpace_def by (metis rev_append rev_rev_ident)
  with a show ?thesis by metis
qed

lemma fieldsAcc_Nil: "fieldsAcc acc [] = (if acc = [] then [] else [rev acc])"
  by (subst fieldsAcc.simps) simp

lemma fieldsAcc_plain: "list_all plainChar w \<Longrightarrow> fieldsAcc acc (w @ s) = fieldsAcc (rev w @ acc) s"
proof (induction w arbitrary: acc)
  case (Cons c w)
  then show ?case by (subst fieldsAcc.simps) (simp add: spaceWidth_plain)
qed simp

lemma fieldsAcc_space:
  "fieldsAcc acc (CHR '' '' # s) = (if acc = [] then [] else [rev acc]) @ fieldsAcc [] s"
  by (subst fieldsAcc.simps) (simp add: spaceWidth_space)

lemma fieldsAcc_words:
  assumes "\<forall>w\<in>set ws. w \<noteq> [] \<and> list_all plainChar w"
  shows "fieldsAcc [] (concat (map (\<lambda>w. w @ '' '') ws)) = ws"
  using assms
proof (induction ws)
  case (Cons w ws)
  then show ?case by (simp add: fieldsAcc_plain fieldsAcc_space)
qed (simp add: fieldsAcc_Nil)

section \<open>Facts about numbers\<close>

lemma digitChar_byte: "0 \<le> d \<Longrightarrow> d < 10 \<Longrightarrow> isDigit (digitChar d) \<and> byte (digitChar d) = 48 + d"
proof -
  assume "0 \<le> d" "d < 10"
  then have "d = 0 \<or> d = 1 \<or> d = 2 \<or> d = 3 \<or> d = 4 \<or> d = 5 \<or> d = 6 \<or> d = 7 \<or> d = 8 \<or> d = 9" by arith
  then show ?thesis by (elim disjE) (simp_all add: digitChar_def isDigit_def byte_def)
qed

lemma digitsAcc_append:
  "digitsAcc a (xs @ ys) = (case digitsAcc a xs of None \<Rightarrow> None | Some b \<Rightarrow> digitsAcc b ys)"
  by (induction a xs rule: digitsAcc.induct) auto

lemma digitsAcc_itoaNat: "0 \<le> n \<Longrightarrow> digitsAcc 0 (itoaNat n) = Some n"
proof (induction n rule: itoaNat.induct)
  case (1 n)
  show ?case
  proof (cases "n < 10")
    case True
    with 1 show ?thesis by (subst itoaNat.simps) (simp add: digitChar_byte)
  next
    case False
    with 1 have "digitsAcc 0 (itoaNat (n div 10)) = Some (n div 10)" by simp
    moreover have "digitChar (n mod 10) = digitChar (n mod 10) \<and> isDigit (digitChar (n mod 10))
      \<and> byte (digitChar (n mod 10)) = 48 + n mod 10" using digitChar_byte [of "n mod 10"] by simp
    ultimately show ?thesis using False
      by (subst itoaNat.simps) (simp add: digitsAcc_append)
  qed
qed

lemma itoaNat_digits: "0 \<le> n \<Longrightarrow> itoaNat n \<noteq> [] \<and> list_all isDigit (itoaNat n)"
proof (induction n rule: itoaNat.induct)
  case (1 n)
  then show ?case
    by (subst (1 2) itoaNat.simps) (auto simp: digitChar_byte)
qed

lemma isDigit_not_sign: "isDigit c \<Longrightarrow> c \<noteq> CHR ''+'' \<and> c \<noteq> CHR ''-''"
  by (auto simp: isDigit_def byte_def)

lemma parseInt64_itoa:
  assumes "0 \<le> n" and "n < 9223372036854775808"
  shows "parseInt64 (itoa n) = Some n"
proof -
  obtain c cs where c: "itoaNat n = c # cs" using itoaNat_digits [OF assms(1)] by (cases "itoaNat n") auto
  then have "isDigit c" using itoaNat_digits [OF assms(1)] by simp
  then have "c \<noteq> CHR ''+''" "c \<noteq> CHR ''-''" using isDigit_not_sign by auto
  with c assms digitsAcc_itoaNat [OF assms(1)] show ?thesis
    by (simp add: parseInt64_def itoa_def Let_def)
qed

lemma plainChar_digit: "isDigit c \<Longrightarrow> plainChar c"
  by (simp add: isDigit_def plainChar_def)


section \<open>Facts about replacement\<close>

lemma replaceAll_Nil [simp]: "replaceAll old new [] = []"
  by (subst replaceAll.simps) simp

lemma replaceAll_match:
  "old \<noteq> [] \<Longrightarrow> replaceAll old new (old @ s) = new @ replaceAll old new s"
  by (subst replaceAll.simps) (cases old, auto)

lemma replaceAll_other:
  "\<not> hasPrefix (c # cs) old \<Longrightarrow> replaceAll old new (c # cs) = c # replaceAll old new cs"
  by (subst replaceAll.simps) simp

section \<open>Trimming\<close>

lemma stripBy_done: "stripBy w s = [] \<or> w (stripBy w s) = 0"
proof (induction w s rule: stripBy.induct)
  case (1 w s)
  then show ?case by (subst (1 2) stripBy.simps) auto
qed

lemma stripBy_id: "s = [] \<or> w s = 0 \<Longrightarrow> stripBy w s = s"
  by (subst stripBy.simps) auto

lemma spaceWidth_prefix: "spaceWidth (t @ x) = 0 \<Longrightarrow> spaceWidth t = 0"
proof -
  have "\<forall>e\<in>set spaceEncodings. length e \<noteq> 0" using spaceEncodings_head by auto
  moreover have "hasPrefix t e \<Longrightarrow> hasPrefix (t @ x) e" for e by (auto simp: hasPrefix_iff)
  moreover assume "spaceWidth (t @ x) = 0"
  ultimately have "firstSuch (hasPrefix t) spaceEncodings = None"
    by (auto simp: spaceWidth_def firstSuch_None_iff dest!: firstSuch_Some split: option.splits)
  then show ?thesis by (simp add: spaceWidth_def)
qed

lemma trimSpace_idem [simp]: "trimSpace (trimSpace s) = trimSpace s"
proof -
  let ?r = "stripBy spaceWidth s"
  obtain b where "rev ?r = b @ stripBy spaceWidthRev (rev ?r)" using stripBy_suffix by blast
  then have r: "?r = trimSpace s @ rev b" unfolding trimSpace_def by (metis rev_append rev_rev_ident)
  have "?r = [] \<or> spaceWidth ?r = 0" by (rule stripBy_done)
  with r have "trimSpace s = [] \<or> spaceWidth (trimSpace s) = 0" using spaceWidth_prefix by auto
  then have l: "stripBy spaceWidth (trimSpace s) = trimSpace s" by (rule stripBy_id)
  have "rev (trimSpace s) = [] \<or> spaceWidthRev (rev (trimSpace s)) = 0"
    using stripBy_done [of spaceWidthRev "rev ?r"] by (simp add: trimSpace_def)
  then have "stripBy spaceWidthRev (rev (trimSpace s)) = rev (trimSpace s)" by (rule stripBy_id)
  with l show ?thesis by (subst trimSpace_def) simp
qed

text \<open>Splitting at a separator.\<close>

lemma splitOn_nonempty: "splitOn d s \<noteq> []"
  by (induction s) (auto split: list.splits)

lemma splitOn_line: "d \<notin> set l \<Longrightarrow> splitOn d (l @ d # s) = l # splitOn d s"
  by (induction l) auto

lemma splitOn_plain: "d \<notin> set l \<Longrightarrow> splitOn d l = [l]"
  by (induction l) auto

end
