(* ===== verification/RcGate.thy ===== *)
theory RcGate
  imports GoStringFacts
begin

text \<open>
  \<open>internal/reviewctl/gate.go\<close>: the rate discipline of the forge client. The gate's
  fields are a record; the mutex makes every method one atomic step, so a method is a
  function of the gate and of the clock reading it takes. Counts of seconds and of failures
  are 64-bit words, as in the code. A \<open>time.Duration\<close> is a number of nanoseconds, and the
  difference of two instants saturates at the range of an \<open>int64\<close>, as \<open>time.Time.Sub\<close> does.
  \<open>http.ParseTime\<close>, which reads the three date formats of HTTP, is the argument \<open>parseTime\<close>.
\<close>

unbundle bit_operations_syntax

section \<open>Constants\<close>

type_synonym duration = int

definition paceRequests :: int where "paceRequests = 40"
definition paceWindow :: duration where "paceWindow = 30 * nanosPerSecond"
definition sweepRequestBudget :: int where "sweepRequestBudget = 500"
definition minimumBackoff :: duration where "minimumBackoff = 60 * nanosPerSecond"

text \<open>The last second of the year 9999 and its last nanosecond.\<close>

definition latestBackoffUnix :: int where "latestBackoffUnix = 253402300799"
definition latestBackoff :: time where
  "latestBackoff = latestBackoffUnix * nanosPerSecond + (nanosPerSecond - 1)"

definition maxInt64 :: int where "maxInt64 = 9223372036854775807"

definition timeSub :: "time \<Rightarrow> time \<Rightarrow> duration" where
  "timeSub a b = max (- maxInt64 - 1) (min maxInt64 (a - b))"

definition unixOf :: "time \<Rightarrow> int" where "unixOf t = t div nanosPerSecond"
definition nanosOf :: "time \<Rightarrow> int" where "nanosOf t = t mod nanosPerSecond"

section \<open>Seconds fields\<close>

fun decimalLoop :: "64 word \<Rightarrow> string \<Rightarrow> 64 word option" where
  "decimalLoop out [] = Some out"
| "decimalLoop out (c # cs) =
     (if byte c < 48 \<or> byte c > 57 then None
      else let digit = word_of_int (byte c - 48)
           in if out > ((- 1) - digit) div 10 then Some (- 1)
              else decimalLoop (out * 10 + digit) cs)"

definition decimalSeconds :: "string \<Rightarrow> 64 word option" where
  "decimalSeconds v = (if v = [] then None else decimalLoop 0 v)"

definition maxDurationSeconds :: "64 word" where
  "maxDurationSeconds = word_of_int (maxInt64 div nanosPerSecond)"

definition addRetryAfter :: "time \<Rightarrow> 64 word \<Rightarrow> time" where
  "addRetryAfter now seconds =
     (if seconds \<le> maxDurationSeconds then
        (let until = now + uint seconds * nanosPerSecond
         in if until > latestBackoff then latestBackoff else until)
      else
        (let unix = unixOf now; latest = latestBackoffUnix
         in if seconds > word_of_int latest \<or> unix \<ge> latest
               \<or> (unix \<ge> 0 \<and> seconds > word_of_int (latest - unix))
            then latestBackoff
            else (unix + sint seconds) * nanosPerSecond + nanosOf now))"

definition secondaryBackoffUntil :: "time \<Rightarrow> 64 word \<Rightarrow> time" where
  "secondaryBackoffUntil now failures =
     (let seconds = word_of_int (minimumBackoff div nanosPerSecond)
      in if failures \<le> 1 then addRetryAfter now seconds
         else let shift = failures - 1
              in if shift \<ge> 64 \<or> seconds > drop_bit (unat shift) (- 1) then latestBackoff
                 else addRetryAfter now (push_bit (unat shift) seconds))"

section \<open>Response signals\<close>

text \<open>The three header fields the gate reads, as \<open>http.Header.Get\<close> returns them.\<close>

record RateHeader =
  hRetryAfter :: string
  hRemaining :: string
  hReset :: string

definition rateRemainingExhausted :: "RateHeader \<Rightarrow> bool" where
  "rateRemainingExhausted h =
     (let v = trimSpace (hRemaining h) in v \<noteq> [] \<and> parseInt64 v = Some 0)"

definition retryAfterUntil :: "(string \<Rightarrow> time option) \<Rightarrow> RateHeader \<Rightarrow> time \<Rightarrow> time option" where
  "retryAfterUntil parseTime h now =
     (let v = trimSpace (hRetryAfter h)
      in if v = [] then None
         else case decimalSeconds v of
           Some secs \<Rightarrow> Some (addRetryAfter now secs)
         | None \<Rightarrow> parseTime v)"

definition rateResetUntil :: "RateHeader \<Rightarrow> time option" where
  "rateResetUntil h =
     (case decimalSeconds (trimSpace (hReset h)) of
        None \<Rightarrow> None
      | Some epoch \<Rightarrow>
          if epoch = 0 then None
          else if epoch \<ge> word_of_int latestBackoffUnix then Some latestBackoff
          else Some (sint epoch * nanosPerSecond))"

definition responseNamesSecondaryLimit :: "runtime \<Rightarrow> string \<Rightarrow> bool" where
  "responseNamesSecondaryLimit u body =
     (let said = toLower u body
      in list_ex (contains said)
           [''secondary rate limit'', ''secondary-rate-limits'', ''abuse-rate-limits'', ''abuse detection''])"

section \<open>The gate\<close>

datatype requestClass =
    requestNone | requestCandidates | requestIssue | requestComments | requestEvents | requestPullRequest
  | requestReviews | requestDiff | requestPublishReview | requestUnassign | requestRemoveLabel
  | requestAddLabel | requestPostComment

record Gate =
  gWindowStart :: time
  gUsedInWindow :: int
  gBlockedUntil :: time
  gSweepUsed :: int
  gSweepBudget :: int
  gSecondaryFailures :: "requestClass \<Rightarrow> 64 word"

definition newGate :: Gate where
  "newGate = \<lparr>gWindowStart = zeroTime, gUsedInWindow = 0, gBlockedUntil = zeroTime, gSweepUsed = 0,
     gSweepBudget = sweepRequestBudget, gSecondaryFailures = (\<lambda>_. 0)\<rparr>"

definition beginSweep :: "Gate \<Rightarrow> Gate" where
  "beginSweep g = g\<lparr>gSweepUsed := 0\<rparr>"

definition sweepUsage :: "Gate \<Rightarrow> int \<times> int" where
  "sweepUsage g = (gSweepUsed g, gSweepBudget g)"

datatype gateError = ErrRateLimited time | ErrSweepBudget int | ErrContext

text \<open>One turn of the loop of \<open>acquire\<close> at a clock reading: refused, granted, or a wait.\<close>

datatype turn = Refused gateError | Granted Gate | Wait Gate duration

definition acquireTurn :: "Gate \<Rightarrow> time \<Rightarrow> turn" where
  "acquireTurn g now =
     (if now < gBlockedUntil g then Refused (ErrRateLimited (gBlockedUntil g))
      else if gSweepUsed g \<ge> gSweepBudget g then Refused (ErrSweepBudget (gSweepBudget g))
      else
        let g1 = (if timeSub now (gWindowStart g) \<ge> paceWindow
                  then g\<lparr>gWindowStart := now, gUsedInWindow := 0\<rparr> else g)
        in if gUsedInWindow g1 < paceRequests
           then Granted (g1\<lparr>gUsedInWindow := gUsedInWindow g1 + 1, gSweepUsed := gSweepUsed g1 + 1\<rparr>)
           else Wait g1 (timeSub (gWindowStart g1 + paceWindow) now))"

text \<open>
  The loop: each turn reads the clock; a wait sleeps, which the context may end. The world is
  the list of what the turns meet, a clock reading and whether the sleep that follows it ended
  normally. \<open>None\<close> is a loop still waiting when the list ends.
\<close>

fun acquire :: "Gate \<Rightarrow> (time \<times> bool) list \<Rightarrow> ((gateError + unit) \<times> Gate) option" where
  "acquire g [] = None"
| "acquire g ((now, slept) # ws) =
     (case acquireTurn g now of
        Refused e \<Rightarrow> Some (Inl e, g)
      | Granted g' \<Rightarrow> Some (Inr (), g')
      | Wait g' _ \<Rightarrow> if slept then acquire g' ws else Some (Inl ErrContext, g'))"

text \<open>The instant \<open>observe\<close> closes the gate until: the declared one, unless it is not in the future.\<close>

definition closeUntil :: "time \<Rightarrow> time option \<Rightarrow> time \<Rightarrow> time" where
  "closeUntil now declared fallback =
     (case declared of Some t \<Rightarrow> if t > now then t else fallback | None \<Rightarrow> fallback)"

definition gateObserve ::
  "runtime \<Rightarrow> (string \<Rightarrow> time option) \<Rightarrow> Gate \<Rightarrow> time \<Rightarrow> requestClass \<Rightarrow> int \<Rightarrow> RateHeader \<Rightarrow> string \<Rightarrow> bool \<times> Gate" where
  "gateObserve u parseTime g now class status h body =
     (let retryAfter = (trimSpace (hRetryAfter h) \<noteq> []);
          exhausted = rateRemainingExhausted h;
          secondaryNamed = responseNamesSecondaryLimit u body;
          secondaryLimited = (status = 429 \<or> (status = 403 \<and> (retryAfter \<or> secondaryNamed)));
          responseLimited = (status = 429 \<or> (status = 403 \<and> (retryAfter \<or> exhausted \<or> secondaryNamed)));
          declared = (case retryAfterUntil parseTime h now of
                        Some t \<Rightarrow> Some t
                      | None \<Rightarrow> if exhausted then rateResetUntil h else None)
      in if \<not> responseLimited \<and> \<not> exhausted then (False, g)
         else
           let failures = gSecondaryFailures g class;
               g1 = (if secondaryLimited \<and> failures < (- 1)
                     then g\<lparr>gSecondaryFailures := (gSecondaryFailures g)(class := failures + 1)\<rparr> else g);
               fallback = (if secondaryLimited then secondaryBackoffUntil now (gSecondaryFailures g1 class)
                           else now + minimumBackoff);
               until = closeUntil now declared fallback;
               g2 = (if until > gBlockedUntil g1 then g1\<lparr>gBlockedUntil := until\<rparr> else g1)
           in (responseLimited, g2))"

definition succeed :: "Gate \<Rightarrow> requestClass \<Rightarrow> Gate" where
  "succeed g class = g\<lparr>gSecondaryFailures := (gSecondaryFailures g)(class := 0)\<rparr>"

text \<open>A header without rate-limit fields, and an ASCII runtime.\<close>

definition noHeader :: RateHeader where "noHeader = \<lparr>hRetryAfter = [], hRemaining = [], hReset = []\<rparr>"

definition asciiRuntime :: runtime where
  "asciiRuntime = \<lparr>foldOf = id, lowerOf = id, hostOf = Some\<rparr>"

section \<open>Saturating arithmetic\<close>

lemma word_max: "uint (- 1 :: 64 word) = 2 ^ 64 - 1"
  by (simp add: unsigned_minus_1_eq_mask mask_eq_exp_minus_1)

lemma uint_const:
  "0 \<le> k \<Longrightarrow> k < 2 ^ 64 \<Longrightarrow> uint (word_of_int k :: 64 word) = k"
  by (simp add: uint_word_of_int)

lemma digit_word:
  assumes "isDigit c"
  shows "uint (word_of_int (byte c - 48) :: 64 word) = byte c - 48"
  using assms by (intro uint_const) (simp_all add: isDigit_def)

lemma decimal_guard:
  fixes out digit :: "64 word"
  assumes "uint digit \<le> 9"
  shows "out > ((- 1) - digit) div 10 \<longleftrightarrow> uint out * 10 + uint digit > 2 ^ 64 - 1"
proof -
  have d: "digit \<le> - 1" by simp
  then have "uint ((- 1) - digit) = (2 ^ 64 - 1) - uint digit"
    using word_max by (simp add: uint_minus_simple_alt)
  then have "uint (((- 1) - digit) div 10) = ((2 ^ 64 - 1) - uint digit) div 10"
    by (simp add: uint_div_distrib)
  then show ?thesis using assms by (simp add: word_less_def) linarith
qed

lemma digitsAcc_ge: "0 \<le> a \<Longrightarrow> digitsAcc a v = Some n \<Longrightarrow> a \<le> n"
proof (induction a v rule: digitsAcc.induct)
  case (2 acc c cs)
  then have "isDigit c" "digitsAcc (10 * acc + (byte c - 48)) cs = Some n" by (auto split: if_splits)
  moreover from this have "acc \<le> 10 * acc + (byte c - 48)" using 2(2) by (simp add: isDigit_def)
  ultimately show ?case using 2 by fastforce
qed simp

lemma decimalLoop_saturates:
  "digitsAcc (uint out) v = Some n \<Longrightarrow> \<exists>w. decimalLoop out v = Some w \<and> uint w = min n (2 ^ 64 - 1)"
proof (induction v arbitrary: out)
  case Nil
  have "uint out < 2 ^ 64" using uint_lt2p [of out] by simp
  with Nil show ?case by auto
next
  case (Cons c cs)
  then have c: "isDigit c" and r: "digitsAcc (10 * uint out + (byte c - 48)) cs = Some n" by (auto split: if_splits)
  let ?d = "word_of_int (byte c - 48) :: 64 word"
  have d: "uint ?d = byte c - 48" and d9: "uint ?d \<le> 9" using digit_word [OF c] c by (auto simp: isDigit_def)
  have nd: "\<not> (byte c < 48 \<or> byte c > 57)" using c by (simp add: isDigit_def)
  show ?case
  proof (cases "uint out * 10 + uint ?d > 2 ^ 64 - 1")
    case True
    have "10 * uint out + (byte c - 48) \<le> n" using digitsAcc_ge [OF _ r] c by (simp add: isDigit_def)
    with True d have "n > 2 ^ 64 - 1" by simp
    moreover have "decimalLoop out (c # cs) = Some (- 1)"
      using True nd decimal_guard [OF d9, of out] by (simp add: Let_def)
    ultimately show ?thesis using word_max by auto
  next
    case False
    then have "uint out * 10 + uint ?d < 2 ^ 64" "uint out * 10 < 2 ^ 64"
      using uint_ge_0 [of ?d] by linarith+
    then have "uint (out * 10 + ?d) = uint out * 10 + uint ?d"
      by (simp add: uint_word_ariths(1,3) del: of_int_diff)
    moreover have "decimalLoop out (c # cs) = decimalLoop (out * 10 + ?d) cs"
      using False nd decimal_guard [OF d9, of out] by (simp add: Let_def)
    ultimately show ?thesis using Cons.IH [of "out * 10 + ?d"] r d by (simp add: mult.commute)
  qed
qed


lemma addRetryAfter_exact:
  assumes "0 \<le> now"
  shows "addRetryAfter now s = min latestBackoff (now + uint s * nanosPerSecond)"
proof (cases "s \<le> maxDurationSeconds")
  case True
  then show ?thesis by (simp add: addRetryAfter_def Let_def)
next
  case False
  let ?n = nanosPerSecond and ?u = "unixOf now"
  have n: "now = ?u * ?n + nanosOf now" "0 \<le> nanosOf now" "nanosOf now < ?n" "0 \<le> ?u"
    using assms by (auto simp: unixOf_def nanosOf_def nanosPerSecond_def)
  have l: "latestBackoff = latestBackoffUnix * ?n + (?n - 1)" by (simp add: latestBackoff_def)
  have lu: "uint (word_of_int (latestBackoffUnix - ?u) :: 64 word) = latestBackoffUnix - ?u" if "?u < latestBackoffUnix"
    using that n(4) by (intro uint_const) (simp_all add: latestBackoffUnix_def)
  have pos: "0 < uint s"
    using False uint_const [of "maxInt64 div nanosPerSecond"]
    by (simp add: word_le_def maxDurationSeconds_def maxInt64_def nanosPerSecond_def)
  show ?thesis
  proof (cases "?u + uint s > latestBackoffUnix")
    case True
    then have "latestBackoff \<le> now + uint s * ?n"
      using n l by (simp add: nanosPerSecond_def)
    moreover have "s > word_of_int latestBackoffUnix \<or> ?u \<ge> latestBackoffUnix
               \<or> (?u \<ge> 0 \<and> s > word_of_int (latestBackoffUnix - ?u))"
      using True n(4) lu uint_const [of latestBackoffUnix]
      by (cases "?u < latestBackoffUnix") (auto simp: word_less_def latestBackoffUnix_def simp del: of_int_diff)
    ultimately show ?thesis using False by (simp add: addRetryAfter_def Let_def)
  next
    case small: False
    then have si: "sint s = uint s"
      using n(4) pos signed_take_bit_int_eq_self [of 63 "uint s"] by (simp add: sint_uint latestBackoffUnix_def)
    have "now + uint s * ?n \<le> latestBackoff" using small n l by (simp add: nanosPerSecond_def)
    moreover have "(?u + uint s) * ?n + nanosOf now = now + uint s * ?n"
      using n(1) by (simp add: algebra_simps)
    moreover have "\<not> s > word_of_int latestBackoffUnix" "\<not> ?u \<ge> latestBackoffUnix"
      "\<not> s > word_of_int (latestBackoffUnix - ?u)"
      using small n(4) pos lu uint_const [of latestBackoffUnix]
      by (auto simp: word_less_def latestBackoffUnix_def simp del: of_int_diff)
    ultimately show ?thesis using False si by (simp add: addRetryAfter_def Let_def)
  qed
qed

lemma secondary_exact:
  assumes "0 \<le> now" and "1 \<le> failures"
  shows "secondaryBackoffUntil now failures
    = min latestBackoff (now + 60 * 2 ^ (unat failures - 1) * nanosPerSecond)"
proof -
  let ?k = "unat failures - 1"
  have k: "unat (failures - 1) = ?k" using unat_sub [OF assms(2)] by simp
  have sec: "word_of_int (minimumBackoff div nanosPerSecond) = (60 :: 64 word)"
    by (simp add: minimumBackoff_def nanosPerSecond_def)
  have big: "latestBackoff \<le> now + 60 * 2 ^ ?k * nanosPerSecond" if "2 ^ 64 \<le> (60::int) * 2 ^ ?k"
    using that assms(1) by (simp add: latestBackoff_def latestBackoffUnix_def nanosPerSecond_def)
  show ?thesis
  proof (cases "failures \<le> 1")
    case True
    with assms(2) have "failures = 1" by simp
    then show ?thesis using addRetryAfter_exact [OF assms(1)] by (simp add: secondaryBackoffUntil_def sec)
  next
    case False
    have ge: "failures - 1 \<ge> 64 \<longleftrightarrow> 64 \<le> ?k" using k by (simp add: word_le_nat_alt)
    have db: "unat (drop_bit ?k (- 1 :: 64 word)) = (2 ^ 64 - 1) div 2 ^ ?k"
    proof -
      have "unat (drop_bit ?k (- 1 :: 64 word)) = drop_bit ?k (unat (- 1 :: 64 word))" by (rule unat_drop_bit_eq)
      also have "\<dots> = (2 ^ 64 - 1) div 2 ^ ?k"
        by (simp add: drop_bit_eq_div unsigned_minus_1_eq_mask mask_eq_exp_minus_1)
      finally show ?thesis .
    qed
    have gt: "(60 :: 64 word) > drop_bit ?k (- 1) \<longleftrightarrow> (60::nat) * 2 ^ ?k > 2 ^ 64 - 1"
      unfolding word_less_nat_alt db by (simp add: div_less_iff_less_mult)
    have nat64: "(60::nat) * 2 ^ ?k > 2 ^ 64 - 1 \<longleftrightarrow> 2 ^ 64 \<le> (60::int) * 2 ^ ?k"
    proof -
      have "(60::int) * 2 ^ ?k = int (60 * 2 ^ ?k)" by simp
      moreover have "(2::int) ^ 64 \<le> int x \<longleftrightarrow> 2 ^ 64 - 1 < x" for x :: nat by (simp; linarith)
      ultimately show ?thesis by metis
    qed
    show ?thesis
    proof (cases "2 ^ 64 \<le> (60::int) * 2 ^ ?k")
      case True
      with False big [OF True] ge k gt nat64 show ?thesis
        by (simp add: secondaryBackoffUntil_def sec Let_def)
    next
      case small: False
      have "?k < 64"
      proof (rule ccontr)
        assume "\<not> ?k < 64"
        then have "(2::int) ^ 64 \<le> 2 ^ ?k" by (intro power_increasing) auto
        with small show False by simp
      qed
      moreover have "uint (push_bit ?k (60 :: 64 word)) = 60 * 2 ^ ?k"
      proof -
        have "uint (push_bit ?k (60 :: 64 word)) = take_bit 64 (push_bit ?k (uint (60 :: 64 word)))"
          using unsigned_push_bit_eq [of ?k "60 :: 64 word"] by simp
        also have "push_bit ?k (uint (60 :: 64 word)) = 60 * 2 ^ ?k" by (simp add: push_bit_eq_mult)
        also have "take_bit 64 (60 * 2 ^ ?k :: int) = 60 * 2 ^ ?k"
          using small by (intro take_bit_int_eq_self) auto
        finally show ?thesis .
      qed
      ultimately show ?thesis
        using False ge k gt nat64 small addRetryAfter_exact [OF assms(1)]
        by (simp add: secondaryBackoffUntil_def sec Let_def)
    qed
  qed
qed

section \<open>The gate as a state machine\<close>

text \<open>
  One event of the gate's life: a turn of \<open>acquire\<close> at a clock reading, a response, a
  success, the start of a sweep. A run returns the gate and the instants at which a request
  was granted.
\<close>

datatype gateEvent =
    TurnAt time
  | ResponseAt time requestClass int RateHeader string
  | SuccessOf requestClass
  | SweepBegins

fun gateRun :: "runtime \<Rightarrow> (string \<Rightarrow> time option) \<Rightarrow> Gate \<Rightarrow> gateEvent list \<Rightarrow> time list \<times> Gate" where
  "gateRun u pt g [] = ([], g)"
| "gateRun u pt g (TurnAt now # es) =
     (case acquireTurn g now of
        Granted g' \<Rightarrow> (let (ts, g'') = gateRun u pt g' es in (now # ts, g''))
      | Wait g' _ \<Rightarrow> gateRun u pt g' es
      | Refused _ \<Rightarrow> gateRun u pt g es)"
| "gateRun u pt g (ResponseAt now class status h body # es) =
     gateRun u pt (snd (gateObserve u pt g now class status h body)) es"
| "gateRun u pt g (SuccessOf class # es) = gateRun u pt (succeed g class) es"
| "gateRun u pt g (SweepBegins # es) = gateRun u pt (beginSweep g) es"

fun turnTimes :: "gateEvent list \<Rightarrow> time list" where
  "turnTimes [] = []"
| "turnTimes (TurnAt now # es) = now # turnTimes es"
| "turnTimes (_ # es) = turnTimes es"

definition gateOK :: "Gate \<Rightarrow> bool" where
  "gateOK g \<longleftrightarrow> 0 \<le> gUsedInWindow g \<and> gUsedInWindow g \<le> paceRequests
     \<and> 0 \<le> gSweepUsed g \<and> gSweepUsed g \<le> gSweepBudget g"

lemma observe_fields [simp]:
  "gWindowStart (snd (gateObserve u pt g now class status h body)) = gWindowStart g"
  "gUsedInWindow (snd (gateObserve u pt g now class status h body)) = gUsedInWindow g"
  "gSweepUsed (snd (gateObserve u pt g now class status h body)) = gSweepUsed g"
  "gSweepBudget (snd (gateObserve u pt g now class status h body)) = gSweepBudget g"
  by (simp_all add: gateObserve_def Let_def)

lemma succeed_fields [simp]:
  "gWindowStart (succeed g class) = gWindowStart g" "gUsedInWindow (succeed g class) = gUsedInWindow g"
  "gSweepUsed (succeed g class) = gSweepUsed g" "gSweepBudget (succeed g class) = gSweepBudget g"
  "gBlockedUntil (succeed g class) = gBlockedUntil g"
  by (simp_all add: succeed_def)

lemma beginSweep_fields [simp]:
  "gWindowStart (beginSweep g) = gWindowStart g" "gUsedInWindow (beginSweep g) = gUsedInWindow g"
  "gSweepUsed (beginSweep g) = 0" "gSweepBudget (beginSweep g) = gSweepBudget g"
  "gBlockedUntil (beginSweep g) = gBlockedUntil g"
  by (simp_all add: beginSweep_def)

lemma window_open: "timeSub now ws \<ge> paceWindow \<longleftrightarrow> now - ws \<ge> paceWindow"
  by (auto simp: timeSub_def paceWindow_def nanosPerSecond_def maxInt64_def)

lemma acquireTurn_granted:
  assumes "acquireTurn g now = Granted g'"
  shows "gBlockedUntil g \<le> now" "gSweepUsed g < gSweepBudget g"
    "gSweepUsed g' = gSweepUsed g + 1" "gSweepBudget g' = gSweepBudget g" "gBlockedUntil g' = gBlockedUntil g"
    "if now - gWindowStart g \<ge> paceWindow then gWindowStart g' = now \<and> gUsedInWindow g' = 1
     else gWindowStart g' = gWindowStart g \<and> gUsedInWindow g' = gUsedInWindow g + 1 \<and> gUsedInWindow g < paceRequests"
  using assms by (auto simp: acquireTurn_def Let_def window_open paceRequests_def split: if_splits)

lemma acquireTurn_wait:
  assumes "acquireTurn g now = Wait g' d"
  shows "g' = g" "now - gWindowStart g < paceWindow" "d = timeSub (gWindowStart g + paceWindow) now"
  using assms by (auto simp: acquireTurn_def Let_def window_open paceRequests_def split: if_splits)

lemma gateOK_turn: "gateOK g \<Longrightarrow> acquireTurn g now = Granted g' \<Longrightarrow> gateOK g'"
  using acquireTurn_granted [of g now g'] by (auto simp: gateOK_def paceRequests_def split: if_splits)

lemma gateOK_run: "gateOK g \<Longrightarrow> gateRun u pt g es = (ts, g') \<Longrightarrow> gateOK g'"
proof (induction u pt g es arbitrary: ts rule: gateRun.induct)
  case (2 u pt g now es)
  then show ?case
    by (auto simp: gateOK_turn dest: acquireTurn_wait split: turn.splits prod.splits)
qed (auto simp: gateOK_def)

lemma pace_aux:
  assumes "gateRun u pt g es = (ts, g')" and "gateOK g"
    and "sorted (turnTimes es)" and "\<forall>t\<in>set (turnTimes es). lo \<le> t"
    and "\<forall>t\<in>set (turnTimes es). t < max (gWindowStart g + paceWindow) lo + int k * paceWindow"
  shows "int (length ts) \<le> paceRequests - gUsedInWindow g + paceRequests * int k"
  using assms
proof (induction u pt g es arbitrary: ts k lo rule: gateRun.induct)
  case (1 u pt g)
  then show ?case by (simp add: gateOK_def paceRequests_def)
next
  case (2 u pt g now es)
  show ?case
  proof (cases "acquireTurn g now")
    case (Refused e)
    with 2 show ?thesis by auto
  next
    case (Wait g1 d)
    with 2 acquireTurn_wait [OF Wait] show ?thesis by auto
  next
    case (Granted g1)
    then obtain ts1 where r: "gateRun u pt g1 es = (ts1, g')" and ts: "ts = now # ts1"
      using "2.prems"(1) Granted by (auto split: prod.splits)
    note G = acquireTurn_granted [OF Granted]
    have ok: "gateOK g1" using gateOK_turn "2.prems"(2) Granted by blast
    show ?thesis
    proof (cases "now - gWindowStart g \<ge> paceWindow")
      case False
      with G(6) "2.prems"(5) have "int (length ts1) \<le> paceRequests - gUsedInWindow g1 + paceRequests * int k"
        using "2.prems"(3,4) by (intro "2.IH"(2) [OF Granted r ok, of lo]) auto
      with False G(6) ts show ?thesis by simp
    next
      case True
      then have ge: "max (gWindowStart g + paceWindow) lo \<le> now" using "2.prems"(4) by auto
      have "now < max (gWindowStart g + paceWindow) lo + int k * paceWindow" using "2.prems"(5) by auto
      with ge have "k \<noteq> 0" by (cases k) auto
      then obtain j where j: "k = Suc j" by (cases k) auto
      have "int (length ts1) \<le> paceRequests - gUsedInWindow g1 + paceRequests * int j"
      proof (rule "2.IH"(2) [OF Granted r ok, of now])
        show "\<forall>t\<in>set (turnTimes es). t < max (gWindowStart g1 + paceWindow) now + int j * paceWindow"
          using "2.prems"(5) ge True G(6) j by (fastforce simp: paceWindow_def nanosPerSecond_def algebra_simps)
      qed (use "2.prems"(3) in auto)
      with True G(6) ts j "2.prems"(2) show ?thesis by (simp add: gateOK_def paceRequests_def)
    qed
  qed
qed (auto simp: gateOK_def)


lemma budget_aux:
  assumes "gateRun u pt g es = (ts, g')" and "gateOK g" and "SweepBegins \<notin> set es"
  shows "int (length ts) \<le> gSweepBudget g - gSweepUsed g"
  using assms
proof (induction u pt g es arbitrary: ts rule: gateRun.induct)
  case (2 u pt g now es)
  show ?case
  proof (cases "acquireTurn g now")
    case (Granted g1)
    then obtain ts1 where r: "gateRun u pt g1 es = (ts1, g')" and ts: "ts = now # ts1"
      using "2.prems"(1) by (auto split: prod.splits)
    have "int (length ts1) \<le> gSweepBudget g1 - gSweepUsed g1"
      using "2.IH"(2) [OF Granted r] gateOK_turn [OF "2.prems"(2) Granted] "2.prems"(3) by auto
    with ts acquireTurn_granted [OF Granted] show ?thesis by simp
  qed (use 2 acquireTurn_wait [of g now] in auto)
qed (auto simp: gateOK_def)

lemma observe_shape:
  assumes "gateObserve u pt g now class status h body = (limited, g')" and "limited \<or> rateRemainingExhausted h"
  shows "\<exists>g1 declared b f. gBlockedUntil g1 = gBlockedUntil g
    \<and> g' = (let until = closeUntil now declared (if b then secondaryBackoffUntil now f else now + minimumBackoff)
           in if until > gBlockedUntil g1 then g1\<lparr>gBlockedUntil := until\<rparr> else g1)"
proof -
  have shut: "status = 429 \<or> (status = 403 \<and> (trimSpace (hRetryAfter h) \<noteq> [] \<or> rateRemainingExhausted h
      \<or> responseNamesSecondaryLimit u body)) \<or> rateRemainingExhausted h"
    using assms by (auto simp: gateObserve_def Let_def split: if_splits)
  then have ns: "(\<not> (status = 429 \<or> (status = 403 \<and> (trimSpace (hRetryAfter h) \<noteq> [] \<or> rateRemainingExhausted h
      \<or> responseNamesSecondaryLimit u body))) \<and> \<not> rateRemainingExhausted h) = False" by blast
  let ?b = "status = 429 \<or> (status = 403 \<and> (trimSpace (hRetryAfter h) \<noteq> [] \<or> responseNamesSecondaryLimit u body))"
  let ?g1 = "if ?b \<and> gSecondaryFailures g class < (- 1)
    then g\<lparr>gSecondaryFailures := (gSecondaryFailures g)(class := gSecondaryFailures g class + 1)\<rparr> else g"
  have "g' = (let until = closeUntil now (case retryAfterUntil pt h now of
                        Some t \<Rightarrow> Some t | None \<Rightarrow> if rateRemainingExhausted h then rateResetUntil h else None)
           (if ?b then secondaryBackoffUntil now (gSecondaryFailures ?g1 class) else now + minimumBackoff)
           in if until > gBlockedUntil ?g1 then ?g1\<lparr>gBlockedUntil := until\<rparr> else ?g1)"
    using assms(1) unfolding gateObserve_def Let_def ns if_False by (simp only: prod.inject)
  moreover have "gBlockedUntil ?g1 = gBlockedUntil g" by simp
  ultimately show ?thesis by blast
qed

lemma observe_blocked:
  assumes "0 \<le> now" and "now < latestBackoff" and "gateObserve u pt g now class status h body = (limited, g')"
    and "limited \<or> rateRemainingExhausted h"
  shows "gBlockedUntil g' > now" "gBlockedUntil g' \<ge> gBlockedUntil g"
proof -
  have sec: "secondaryBackoffUntil now f > now" for f
  proof (cases "1 \<le> f")
    case True
    then show ?thesis using assms(1,2) secondary_exact [OF assms(1) True] by (simp add: nanosPerSecond_def)
  next
    case False
    then have "unat f = 0" by (simp add: word_le_nat_alt)
    then have "f = 0" by (simp add: unat_eq_zero)
    then show ?thesis
      using assms(1,2) addRetryAfter_exact [OF assms(1)]
      by (simp add: secondaryBackoffUntil_def minimumBackoff_def nanosPerSecond_def)
  qed
  have min: "now + minimumBackoff > now" by (simp add: minimumBackoff_def nanosPerSecond_def)
  have cu: "closeUntil now declared (if b then secondaryBackoffUntil now f else now + minimumBackoff) > now" for declared b f
    using sec min by (simp add: closeUntil_def split: option.split)
  obtain g1 until where u: "until > now" "gBlockedUntil g1 = gBlockedUntil g"
    "g' = (if until > gBlockedUntil g1 then g1\<lparr>gBlockedUntil := until\<rparr> else g1)"
    using observe_shape [OF assms(3,4)] cu by metis
  then show "gBlockedUntil g' > now" "gBlockedUntil g' \<ge> gBlockedUntil g" by auto
qed

section \<open>Properties\<close>

lemma gateOK_new: "gateOK newGate"
  by (simp add: gateOK_def newGate_def paceRequests_def sweepRequestBudget_def)

text \<open>A decimal seconds field of any length is read exactly or saturates at the largest
  64-bit value; it never wraps to a short wait.\<close>

theorem decimalSeconds_saturates:
  assumes "v \<noteq> []" and "digitsAcc 0 v = Some n"
  shows "\<exists>w. decimalSeconds v = Some w \<and> uint w = min n (2 ^ 64 - 1)"
  using decimalLoop_saturates [of 0 v n] assms by (simp add: decimalSeconds_def)

theorem decimalSeconds_saturates_witness:
  "\<exists>w. decimalSeconds ''18446744073709551616'' = Some w \<and> uint w = 2 ^ 64 - 1"
proof -
  have "digitsAcc 0 ''18446744073709551616'' = Some 18446744073709551616" by code_simp
  from decimalSeconds_saturates [OF _ this] show ?thesis by simp
qed

text \<open>A declared wait is never shortened by machine arithmetic: at any instant since the Unix
  epoch the gate stays closed for exactly the declared seconds, or until the last instant the
  process can print; and the wait after consecutive secondary-limit failures is one minute doubled
  per failure, with the same saturation.\<close>

theorem backoff_is_exact:
  assumes "0 \<le> now" and "1 \<le> failures"
  shows "addRetryAfter now s = min latestBackoff (now + uint s * nanosPerSecond)
    \<and> secondaryBackoffUntil now failures = min latestBackoff (now + 60 * 2 ^ (unat failures - 1) * nanosPerSecond)"
  using addRetryAfter_exact [OF assms(1)] secondary_exact [OF assms] by blast

theorem backoff_is_exact_witness:
  "secondaryBackoffUntil 5 3 = min latestBackoff (5 + 240 * nanosPerSecond)"
  using backoff_is_exact [of 5 3 0] by simp

text \<open>A response that reports a limit closes the gate: every later turn before the backoff
  ends is refused without a request, and a standing backoff is never shortened.\<close>

theorem limited_response_closes_gate:
  assumes "0 \<le> now" and "now < latestBackoff"
    and "gateObserve u pt g now class status h body = (limited, g')"
    and "limited \<or> rateRemainingExhausted h"
  shows "gBlockedUntil g' > now \<and> gBlockedUntil g' \<ge> gBlockedUntil g
    \<and> (\<forall>t. t < gBlockedUntil g' \<longrightarrow> acquireTurn g' t = Refused (ErrRateLimited (gBlockedUntil g')))"
  using observe_blocked [OF assms] by (simp add: acquireTurn_def)

theorem limited_response_closes_gate_witness:
  "gBlockedUntil (snd (gateObserve asciiRuntime (\<lambda>_. None) newGate 7 requestIssue 429 noHeader [])) > 7"
proof -
  obtain l g' where r: "gateObserve asciiRuntime (\<lambda>_. None) newGate 7 requestIssue 429 noHeader [] = (l, g')"
    by fastforce
  then have "l" by (auto simp: gateObserve_def Let_def)
  moreover have "(7::int) < latestBackoff" by (simp add: latestBackoff_def latestBackoffUnix_def nanosPerSecond_def)
  ultimately show ?thesis using limited_response_closes_gate [OF _ _ r] r by simp
qed

text \<open>C39. The pace of requests: whatever the events between them, turns with clock readings
  that never go back and lie within \<open>n\<close> windows of thirty seconds grant at most \<open>40 * (n + 1)\<close>
  requests. For an hour this is 4840.\<close>

theorem pace_is_bounded:
  assumes "gateOK g" and "gateRun u pt g es = (ts, g')" and "sorted (turnTimes es)"
    and "\<forall>t\<in>set (turnTimes es). a \<le> t \<and> t < a + int n * paceWindow"
  shows "int (length ts) \<le> paceRequests * (int n + 1)"
proof -
  have "int (length ts) \<le> paceRequests - gUsedInWindow g + paceRequests * int n"
    by (rule pace_aux [OF assms(2,1,3), of a]) (use assms(4) in \<open>auto intro: less_le_trans\<close>)
  then show ?thesis using assms(1) by (simp add: gateOK_def paceRequests_def)
qed

theorem pace_is_bounded_witness:
  "int (length (fst (gateRun asciiRuntime (\<lambda>_. None) newGate [TurnAt 1, TurnAt 2]))) \<le> paceRequests * (int 120 + 1)"
proof -
  obtain ts g' where r: "gateRun asciiRuntime (\<lambda>_. None) newGate [TurnAt 1, TurnAt 2] = (ts, g')" by fastforce
  have "\<forall>t\<in>set (turnTimes [TurnAt 1, TurnAt 2]). 0 \<le> t \<and> t < 0 + int 120 * paceWindow"
    by (simp add: paceWindow_def nanosPerSecond_def)
  from pace_is_bounded [OF gateOK_new r _ this] r show ?thesis by simp
qed

text \<open>One sweep never spends more requests than its budget: between two resets at most the
  remaining allowance is granted, and the counters stay within their bounds in every run.\<close>

theorem sweep_budget_bounds:
  assumes "gateOK g" and "gateRun u pt g es = (ts, g')"
  shows "gateOK g' \<and> (SweepBegins \<notin> set es \<longrightarrow> int (length ts) \<le> gSweepBudget g - gSweepUsed g)"
  using gateOK_run [OF assms] budget_aux [OF assms(2,1)] by blast

theorem sweep_budget_bounds_witness:
  "int (length (fst (gateRun asciiRuntime (\<lambda>_. None) newGate [TurnAt 1, TurnAt 2]))) \<le> 500"
proof -
  obtain ts g' where r: "gateRun asciiRuntime (\<lambda>_. None) newGate [TurnAt 1, TurnAt 2] = (ts, g')" by fastforce
  from sweep_budget_bounds [OF gateOK_new r] r show ?thesis by (simp add: newGate_def sweepRequestBudget_def)
qed

text \<open>The wait of \<open>acquire\<close> ends: when the sleep lasts as long as asked, the second turn
  grants the request or refuses it.\<close>

theorem acquire_waits_once:
  assumes "gateOK g" and "acquireTurn g now = Wait g1 d" and "now + d \<le> later"
    and "zeroTime \<le> gWindowStart g" and "gWindowStart g \<le> now"
  shows "\<exists>r. acquire g [(now, True), (later, slept)] = Some r"
proof -
  note w = acquireTurn_wait [OF assms(2)]
  have "later - gWindowStart g \<ge> paceWindow"
  proof -
    have "timeSub (gWindowStart g + paceWindow) now = gWindowStart g + paceWindow - now"
      using w(2) assms(5) by (auto simp: timeSub_def paceWindow_def nanosPerSecond_def maxInt64_def)
    with w(3) assms(3) show ?thesis by simp
  qed
  then have "acquireTurn g later \<noteq> Wait g2 d2" for g2 d2
    by (auto simp: acquireTurn_def Let_def window_open paceRequests_def)
  with assms(2) w(1) show ?thesis by (cases "acquireTurn g later") auto
qed

theorem acquire_waits_once_witness:
  "\<exists>r. acquire (newGate\<lparr>gUsedInWindow := 40, gWindowStart := 0\<rparr>) [(1, True), (paceWindow, True)] = Some r"
proof (rule acquire_waits_once)
  show "acquireTurn (newGate\<lparr>gUsedInWindow := 40, gWindowStart := 0\<rparr>) 1
      = Wait (newGate\<lparr>gUsedInWindow := 40, gWindowStart := 0\<rparr>) (paceWindow - 1)"
    by (simp add: acquireTurn_def newGate_def zeroTime_def sweepRequestBudget_def timeSub_def paceWindow_def
        nanosPerSecond_def maxInt64_def paceRequests_def)
qed (simp_all add: gateOK_def newGate_def paceRequests_def sweepRequestBudget_def zeroTime_def)

end
