(* ===== verification/RevConfig.thy ===== *)
theory RevConfig
  imports GoStringFacts
begin

text \<open>
  \<open>internal/review/review.go\<close>: the configuration of the review controller and its
  validation, the choice of a reviewer profile from the issue's labels, and the tracker
  and forge facts one reduction observes. An error the Go code returns is a value of
  an error datatype with one constructor per \<open>return\<close> and the arguments its message
  prints; \<open>None\<close> is Go's \<open>nil\<close> error.
\<close>

section \<open>Closed vocabularies\<close>

type_synonym Verdict = string
type_synonym Outcome = string

definition VerdictClean :: Verdict where "VerdictClean = ''clean''"
definition VerdictChangesRequested :: Verdict where
  "VerdictChangesRequested = ''changes_requested''"

definition OutcomeRevise :: Outcome where "OutcomeRevise = ''revise''"
definition OutcomeHumanReview :: Outcome where "OutcomeHumanReview = ''human-review''"
definition OutcomeRoundCap :: Outcome where "OutcomeRoundCap = ''round-cap''"
definition OutcomeNoProgress :: Outcome where "OutcomeNoProgress = ''no-progress''"

definition HumanReviewLabel :: string where "HumanReviewLabel = ''human-review''"
definition ReviewerProfileLabelPrefix :: string where
  "ReviewerProfileLabelPrefix = ''review-profile:''"
definition MaxReviewerProfiles :: nat where "MaxReviewerProfiles = 8"

definition EventAssigned :: string where "EventAssigned = ''assigned''"
definition EventUnassigned :: string where "EventUnassigned = ''unassigned''"
definition EventLabeled :: string where "EventLabeled = ''labeled''"
definition EventUnlabeled :: string where "EventUnlabeled = ''unlabeled''"

section \<open>Configuration and observations\<close>

record Config =
  cfgOwner :: string
  cfgRepo :: string
  cfgIssue :: int
  cfgPrincipal :: string
  cfgTrackerAuthor :: string
  cfgController :: string
  cfgAllowSharedTrackerController :: bool
  cfgRequiredLabels :: "string list"
  cfgQueueLabel :: string
  cfgAddHumanReviewLabel :: bool
  cfgRoundCap :: int
  cfgReviewerProfiles :: "string list"
  cfgDefaultReviewerProfile :: string

record Issue =
  issNumber :: int
  issClosed :: bool
  issLabels :: "string list"
  issAssignees :: "string list"

record Comment =
  cmID :: tid
  cmAuthor :: string
  cmBody :: string
  cmCreatedAt :: time

record Event =
  evID :: tid
  evType :: string
  evActor :: string
  evAssignee :: string
  evLabel :: string
  evCreatedAt :: time

record PullRequest =
  prNumber :: int
  prURL :: string
  prClosed :: bool
  prMerged :: bool
  prBranch :: string
  prHead :: string
  prBase :: string
  prBaseSHA :: string
  prBody :: string

record Review =
  rvID :: tid
  rvAuthor :: string
  rvBody :: string
  rvCommitID :: string
  rvState :: string
  rvSubmittedAt :: time

record Snapshot =
  snIssue :: Issue
  snComments :: "Comment list"
  snEvents :: "Event list"
  snReviews :: "Review list"
  snPR :: "PullRequest option"

section \<open>Comparisons\<close>

definition eqFold :: "runtime \<Rightarrow> string \<Rightarrow> string \<Rightarrow> bool" where
  "eqFold u a b = equalFold u (trimSpace a) (trimSpace b)"

definition hasLabel :: "runtime \<Rightarrow> string list \<Rightarrow> string \<Rightarrow> bool" where
  "hasLabel u labels want = list_ex (\<lambda>l. eqFold u l want) labels"

text \<open>The Go function returns the empty string when nothing is missing.\<close>

definition missingRequiredLabel :: "runtime \<Rightarrow> string list \<Rightarrow> string list \<Rightarrow> string" where
  "missingRequiredLabel u labels required =
     (case firstSuch (\<lambda>want. \<not> hasLabel u labels want) required of
        None \<Rightarrow> [] | Some want \<Rightarrow> want)"

definition Branch :: "Config \<Rightarrow> string" where
  "Branch c = ''ben/'' @ itoa (cfgIssue c)"

section \<open>Validation\<close>

datatype configError =
    CfgMissing "string list"
  | CfgNoRequiredLabels
  | CfgBlankLabel nat
  | CfgRepeatedLabel string
  | CfgIssueNotPositive int
  | CfgNoRound int
  | CfgDefaultWithoutProfiles string
  | CfgDefaultInvalid string
  | CfgTooManyProfiles nat
  | CfgProfileInvalid string
  | CfgProfileRepeated string
  | CfgDefaultNotInSet string
  | CfgQueueReserved string
  | CfgControllerIsPrincipal string
  | CfgControllerIsTracker string
  | CfgHumanLabelIsQueue
  | CfgQueueNotRequired string
  | CfgHumanLabelRequired
  | CfgProfileLabelRequired string

definition profileChar :: "char \<Rightarrow> bool" where
  "profileChar c \<longleftrightarrow> isLowerAZ c \<or> isDigit c \<or> c = CHR ''-''"

definition ValidReviewerProfile :: "string \<Rightarrow> bool" where
  "ValidReviewerProfile name =
     (if length name < 1 \<or> length name > 32 \<or> hd name = CHR ''-'' \<or> last name = CHR ''-'' then False
      else list_all profileChar name)"

definition hasReviewerProfilePrefix :: "runtime \<Rightarrow> string \<Rightarrow> bool" where
  "hasReviewerProfilePrefix u label =
     (let l = trimSpace label; n = length ReviewerProfileLabelPrefix
      in length l \<ge> n \<and> equalFold u (take n l) ReviewerProfileLabelPrefix)"

fun checkRequiredLabels :: "runtime \<Rightarrow> nat \<Rightarrow> string list \<Rightarrow> string list \<Rightarrow> configError option" where
  "checkRequiredLabels u i seen [] = None"
| "checkRequiredLabels u i seen (l # ls) =
     (let label = trimSpace l
      in if label = [] then Some (CfgBlankLabel i)
         else if hasLabel u seen label then Some (CfgRepeatedLabel label)
         else checkRequiredLabels u (Suc i) (seen @ [label]) ls)"

fun checkProfiles :: "runtime \<Rightarrow> string \<Rightarrow> string list \<Rightarrow> bool \<Rightarrow> string list \<Rightarrow> configError option" where
  "checkProfiles u dflt seen foundDefault [] =
     (if \<not> foundDefault then Some (CfgDefaultNotInSet dflt) else None)"
| "checkProfiles u dflt seen foundDefault (name # ns) =
     (if \<not> ValidReviewerProfile name then Some (CfgProfileInvalid name)
      else if hasLabel u seen name then Some (CfgProfileRepeated name)
      else checkProfiles u dflt (seen @ [name]) (foundDefault \<or> name = dflt) ns)"

definition validateReviewerProfiles :: "runtime \<Rightarrow> Config \<Rightarrow> configError option" where
  "validateReviewerProfiles u c =
     (if cfgReviewerProfiles c = [] then
        (if cfgDefaultReviewerProfile c \<noteq> []
         then Some (CfgDefaultWithoutProfiles (cfgDefaultReviewerProfile c)) else None)
      else if \<not> ValidReviewerProfile (cfgDefaultReviewerProfile c)
        then Some (CfgDefaultInvalid (cfgDefaultReviewerProfile c))
      else if length (cfgReviewerProfiles c) > MaxReviewerProfiles
        then Some (CfgTooManyProfiles (length (cfgReviewerProfiles c)))
      else checkProfiles u (cfgDefaultReviewerProfile c) [] False (cfgReviewerProfiles c))"

definition missingFields :: "Config \<Rightarrow> string list" where
  "missingFields c = map fst (filter (\<lambda>(n, v). trimSpace v = [])
     [(''owner'', cfgOwner c), (''repo'', cfgRepo c), (''principal'', cfgPrincipal c),
      (''tracker author'', cfgTrackerAuthor c), (''controller'', cfgController c),
      (''queue label'', cfgQueueLabel c)])"

text \<open>
  The checks after \<open>validateReviewerProfiles\<close> returned no error, from the reserved
  \<open>ben:\<close> namespace to the profile labels in the required set.
\<close>

definition validateIdentities :: "runtime \<Rightarrow> Config \<Rightarrow> configError option" where
  "validateIdentities u c =
     (let queueLabel = trimSpace (cfgQueueLabel c)
      in if length queueLabel \<ge> 4 \<and> equalFold u (take 4 queueLabel) ''ben:''
           then Some (CfgQueueReserved (cfgQueueLabel c))
         else if eqFold u (cfgController c) (cfgPrincipal c)
           then Some (CfgControllerIsPrincipal (cfgController c))
         else if eqFold u (cfgController c) (cfgTrackerAuthor c)
                \<and> \<not> cfgAllowSharedTrackerController c
           then Some (CfgControllerIsTracker (cfgController c))
         else if cfgAddHumanReviewLabel c \<and> eqFold u HumanReviewLabel (cfgQueueLabel c)
           then Some CfgHumanLabelIsQueue
         else if \<not> hasLabel u (cfgRequiredLabels c) (cfgQueueLabel c)
           then Some (CfgQueueNotRequired (cfgQueueLabel c))
         else if cfgAddHumanReviewLabel c \<and> hasLabel u (cfgRequiredLabels c) HumanReviewLabel
           then Some CfgHumanLabelRequired
         else map_option CfgProfileLabelRequired
                (firstSuch (hasReviewerProfilePrefix u) (cfgRequiredLabels c)))"

definition Validate :: "runtime \<Rightarrow> Config \<Rightarrow> configError option" where
  "Validate u c =
     (if missingFields c \<noteq> [] then Some (CfgMissing (missingFields c))
      else if cfgRequiredLabels c = [] then Some CfgNoRequiredLabels
      else case checkRequiredLabels u 0 [] (cfgRequiredLabels c) of
        Some e \<Rightarrow> Some e
      | None \<Rightarrow>
          if cfgIssue c \<le> 0 then Some (CfgIssueNotPositive (cfgIssue c))
          else if cfgRoundCap c < 1 then Some (CfgNoRound (cfgRoundCap c))
          else case validateReviewerProfiles u c of
            Some e \<Rightarrow> Some e
          | None \<Rightarrow> validateIdentities u c)"

section \<open>Reviewer profile selection\<close>

datatype profileError =
    ProfileUnknown string
  | ProfileNotSelectable
  | ProfileAmbiguous nat

fun selectLoop :: "runtime \<Rightarrow> Config \<Rightarrow> string \<Rightarrow> nat \<Rightarrow> string list \<Rightarrow> profileError + (string \<times> nat)" where
  "selectLoop u c selected n [] = Inr (selected, n)"
| "selectLoop u c selected n (label # ls) =
     (if \<not> hasReviewerProfilePrefix u label then selectLoop u c selected n ls
      else if cfgReviewerProfiles c = [] then selectLoop u c selected (Suc n) ls
      else
        let name = drop (length ReviewerProfileLabelPrefix) (trimSpace label)
        in case firstSuch (equalFold u name) (cfgReviewerProfiles c) of
             None \<Rightarrow> Inl (ProfileUnknown label)
           | Some canonical \<Rightarrow>
               if canonical = [] then Inl (ProfileUnknown label)
               else selectLoop u c canonical (Suc n) ls)"

definition SelectReviewerProfile :: "runtime \<Rightarrow> Config \<Rightarrow> string list \<Rightarrow> profileError + string" where
  "SelectReviewerProfile u c labels =
     (case selectLoop u c [] 0 labels of
        Inl e \<Rightarrow> Inl e
      | Inr (selected, n) \<Rightarrow>
          if cfgReviewerProfiles c = [] then
            (if n > 0 then Inl ProfileNotSelectable else Inr [])
          else if n > 1 then Inl (ProfileAmbiguous n)
          else if selected = [] then Inr (cfgDefaultReviewerProfile c)
          else Inr selected)"

section \<open>Case-insensitive comparison is an equivalence\<close>

text \<open>
  Every reader of logins and labels rests on a comparison that is an equivalence
  relation. The contract is stated once; \<open>strings.EqualFold\<close> and the trimming
  comparison of the review package both provide it.
\<close>

locale folding =
  fixes same :: "string \<Rightarrow> string \<Rightarrow> bool"
  assumes same_refl: "same a a"
    and same_sym: "same a b \<Longrightarrow> same b a"
    and same_trans: "same a b \<Longrightarrow> same b c \<Longrightarrow> same a c"
begin

lemma same_left_cong: "same a b \<Longrightarrow> same a c = same b c"
  using same_sym same_trans by blast

lemma same_right_cong: "same a b \<Longrightarrow> same c a = same c b"
  using same_sym same_trans by blast

lemma list_ex_same_cong: "same a b \<Longrightarrow> list_ex (\<lambda>l. same l a) ls = list_ex (\<lambda>l. same l b) ls"
  by (simp add: same_right_cong [of a b])

lemma member_list_ex: "a \<in> set ls \<Longrightarrow> list_ex (\<lambda>l. same l a) ls"
  using same_refl by (auto simp: list_ex_iff)

end

interpretation equal_fold: folding "equalFold u" for u
  by unfold_locales (auto simp: equalFold_def)

interpretation eq_fold: folding "eqFold u" for u
  by unfold_locales (auto simp: eqFold_def equalFold_def)

lemma hasLabel_member [intro]: "l \<in> set ls \<Longrightarrow> hasLabel u ls l"
  unfolding hasLabel_def by (rule eq_fold.member_list_ex)

lemma hasLabel_cong: "eqFold u a b \<Longrightarrow> hasLabel u ls a = hasLabel u ls b"
  unfolding hasLabel_def by (rule eq_fold.list_ex_same_cong)

lemma hasLabel_iff: "hasLabel u ls w \<longleftrightarrow> (\<exists>l\<in>set ls. eqFold u l w)"
  by (simp add: hasLabel_def list_ex_iff)

lemma hasLabel_append [simp]: "hasLabel u (xs @ ys) w \<longleftrightarrow> hasLabel u xs w \<or> hasLabel u ys w"
  by (auto simp: hasLabel_iff)

section \<open>What a validated configuration guarantees\<close>

lemma eqFold_trim [simp]: "eqFold u (trimSpace a) b = eqFold u a b" "eqFold u a (trimSpace b) = eqFold u a b"
  by (simp_all add: eqFold_def)

lemma hasLabel_trim [simp]: "hasLabel u ls (trimSpace l) = hasLabel u ls l"
  by (simp add: hasLabel_def)

lemma checkRequiredLabels_None:
  "checkRequiredLabels u i seen ls = None \<Longrightarrow>
   (\<forall>l\<in>set ls. trimSpace l \<noteq> [] \<and> \<not> hasLabel u seen l) \<and> sorted_wrt (\<lambda>a b. \<not> eqFold u a b) ls"
  by (induction u i seen ls rule: checkRequiredLabels.induct)
    (auto simp: Let_def hasLabel_iff split: if_splits)

lemma checkProfiles_None:
  "checkProfiles u d seen f ns = None \<Longrightarrow> (\<forall>n\<in>set ns. ValidReviewerProfile n) \<and> (f \<or> d \<in> set ns)"
  by (induction u d seen f ns rule: checkProfiles.induct) (auto split: if_splits)

lemma Validate_checks:
  assumes "Validate u cfg = None"
  shows "missingFields cfg = []" "cfgRequiredLabels cfg \<noteq> []"
    "checkRequiredLabels u 0 [] (cfgRequiredLabels cfg) = None" "0 < cfgIssue cfg" "1 \<le> cfgRoundCap cfg"
    "validateReviewerProfiles u cfg = None" "validateIdentities u cfg = None"
  using assms by (auto simp: Validate_def split: if_splits option.splits)

lemma Validate_identities:
  assumes "Validate u cfg = None"
  shows "\<not> eqFold u (cfgController cfg) (cfgPrincipal cfg)"
    "hasLabel u (cfgRequiredLabels cfg) (cfgQueueLabel cfg)"
    "cfgAddHumanReviewLabel cfg \<Longrightarrow> \<not> hasLabel u (cfgRequiredLabels cfg) HumanReviewLabel"
  using Validate_checks(7) [OF assms]
  by (auto simp: validateIdentities_def Let_def split: if_splits)

lemma missing_none_iff:
  assumes "\<forall>l\<in>set req. l \<noteq> []"
  shows "missingRequiredLabel u ls req = [] \<longleftrightarrow> (\<forall>l\<in>set req. hasLabel u ls l)"
  using assms by (auto simp: missingRequiredLabel_def firstSuch_None_iff dest!: firstSuch_Some split: option.split)

lemma Select_valid:
  assumes "Validate u cfg = None" and "SelectReviewerProfile u cfg ls = Inr p"
  shows "p = [] \<or> ValidReviewerProfile p"
proof -
  have loop: "selectLoop u cfg sel n ls = Inr (sel', n') \<Longrightarrow> sel' = sel \<or> sel' \<in> set (cfgReviewerProfiles cfg)" for sel n ls sel' n'
    by (induction u cfg sel n ls rule: selectLoop.induct)
      (auto simp: Let_def dest: firstSuch_Some split: if_splits option.splits)
  show ?thesis
  proof (cases "cfgReviewerProfiles cfg = []")
    case True
    with assms show ?thesis by (auto simp: SelectReviewerProfile_def split: sum.splits if_splits)
  next
    case False
    then have "checkProfiles u (cfgDefaultReviewerProfile cfg) [] False (cfgReviewerProfiles cfg) = None"
      using Validate_checks(6) [OF assms(1)] by (auto simp: validateReviewerProfiles_def split: if_splits)
    from checkProfiles_None [OF this] False assms(2) show ?thesis
      by (auto simp: SelectReviewerProfile_def dest!: loop split: sum.splits if_splits)
  qed
qed

end
