(* ===== verification/RevEpoch.thy ===== *)
theory RevEpoch
  imports RevConfig "HOL-Library.Product_Lexorder"
begin

text \<open>
  \<open>internal/review/epoch.go\<close>: the replays of the issue's ordered change log that date
  the principal's claim and the complete required-label approval, now and at the
  occurrence a milestone names. Each Go loop is a recursion over the log whose
  accumulators are the loop's variables; a pair \<open>(v, ok)\<close> is the Go result pair.
\<close>

definition SortEvents :: "Event list \<Rightarrow> Event list" where
  "SortEvents events = sort_key (\<lambda>e. (evCreatedAt e, evID e)) events"

section \<open>Claim epochs\<close>

text \<open>The body of the claim loops: what one event does to the standing claim epoch.\<close>

definition claimStep :: "runtime \<Rightarrow> string \<Rightarrow> Event \<Rightarrow> tid \<Rightarrow> tid" where
  "claimStep u login ev epoch =
     (if eqFold u (evAssignee ev) login then
        (if evType ev = EventAssigned then (if epoch = 0 then evID ev else epoch)
         else if evType ev = EventUnassigned then 0
         else epoch)
      else epoch)"

definition ClaimEpoch :: "runtime \<Rightarrow> Event list \<Rightarrow> string \<Rightarrow> tid" where
  "ClaimEpoch u events login = fold (claimStep u login) events 0"

fun claimAtLoop :: "runtime \<Rightarrow> string \<Rightarrow> tid \<Rightarrow> tid \<Rightarrow> tid \<Rightarrow> bool \<Rightarrow> Event list \<Rightarrow> tid \<times> bool" where
  "claimAtLoop u login occ epoch source found [] = (source, found \<and> source > 0)"
| "claimAtLoop u login occ epoch source found (ev # evs) =
     (let epoch' = claimStep u login ev epoch
      in if evID ev = occ then
           (if found then (0, False) else claimAtLoop u login occ epoch' epoch' True evs)
         else claimAtLoop u login occ epoch' source found evs)"

definition claimEpochAtOccurrence :: "runtime \<Rightarrow> Event list \<Rightarrow> string \<Rightarrow> tid \<Rightarrow> tid \<times> bool" where
  "claimEpochAtOccurrence u events login occ = claimAtLoop u login occ 0 0 False events"

definition publishedOccurrenceOnLog :: "runtime \<Rightarrow> Event list \<Rightarrow> tid \<Rightarrow> string \<Rightarrow> bool" where
  "publishedOccurrenceOnLog u events occ tracker =
     (case firstSuch (\<lambda>ev. evID ev = occ) events of
        None \<Rightarrow> False
      | Some ev \<Rightarrow> evType ev = EventUnlabeled \<and> eqFold u (evActor ev) tracker
          \<and> (eqFold u (evLabel ev) ''ben:claimed'' \<or> eqFold u (evLabel ev) ''ben:running''))"

fun unassignedAfterLoop :: "runtime \<Rightarrow> string \<Rightarrow> tid \<Rightarrow> bool \<Rightarrow> Event list \<Rightarrow> bool" where
  "unassignedAfterLoop u login claim afterClaim [] = False"
| "unassignedAfterLoop u login claim afterClaim (ev # evs) =
     (if \<not> afterClaim then
        unassignedAfterLoop u login claim
          (evID ev = claim \<and> evType ev = EventAssigned \<and> eqFold u (evAssignee ev) login) evs
      else if evType ev = EventUnassigned \<and> eqFold u (evAssignee ev) login then True
      else unassignedAfterLoop u login claim True evs)"

definition unassignedAfterClaim :: "runtime \<Rightarrow> Event list \<Rightarrow> string \<Rightarrow> tid \<Rightarrow> bool" where
  "unassignedAfterClaim u events login claim =
     unassignedAfterLoop u login claim False events"

section \<open>Approval epochs\<close>

fun requiredLabelFrom :: "runtime \<Rightarrow> nat \<Rightarrow> string list \<Rightarrow> string \<Rightarrow> nat option" where
  "requiredLabelFrom u i [] label = None"
| "requiredLabelFrom u i (want # ws) label =
     (if eqFold u want label then Some i else requiredLabelFrom u (Suc i) ws label)"

text \<open>The Go function returns -1 for no index; here that is \<open>None\<close>.\<close>

definition requiredLabel :: "runtime \<Rightarrow> string list \<Rightarrow> string \<Rightarrow> nat option" where
  "requiredLabel u required label = requiredLabelFrom u 0 required label"

fun completeLoop :: "tid \<Rightarrow> tid list \<Rightarrow> tid \<times> bool" where
  "completeLoop anchor [] = (anchor, True)"
| "completeLoop anchor (e # es) =
     (if e \<le> 0 then (0, False) else completeLoop (if e > anchor then e else anchor) es)"

definition completeApprovalEpoch :: "tid list \<Rightarrow> tid \<times> bool" where
  "completeApprovalEpoch epochs = (if epochs = [] then (0, False) else completeLoop 0 epochs)"

text \<open>What one event does to the standing applications of the required labels.\<close>

definition approvalStep :: "runtime \<Rightarrow> string list \<Rightarrow> Event \<Rightarrow> tid list \<Rightarrow> tid list" where
  "approvalStep u required ev epochs =
     (case requiredLabel u required (evLabel ev) of
        None \<Rightarrow> epochs
      | Some i \<Rightarrow>
          if evType ev = EventLabeled then epochs[i := evID ev]
          else if evType ev = EventUnlabeled then epochs[i := 0]
          else epochs)"

definition noEpochs :: "string list \<Rightarrow> tid list" where
  "noEpochs required = replicate (length required) 0"

fun approvalAtLoop ::
  "runtime \<Rightarrow> string list \<Rightarrow> tid \<Rightarrow> tid list \<Rightarrow> tid \<Rightarrow> bool \<Rightarrow> bool \<Rightarrow> Event list \<Rightarrow> tid \<times> bool" where
  "approvalAtLoop u required occ epochs source standing found [] = (source, found \<and> standing)"
| "approvalAtLoop u required occ epochs source standing found (ev # evs) =
     (let epochs' = approvalStep u required ev epochs
      in if evID ev = occ then
           (if found then (0, False)
            else (let (s, st) = completeApprovalEpoch epochs'
                  in approvalAtLoop u required occ epochs' s st True evs))
         else approvalAtLoop u required occ epochs' source standing found evs)"

definition approvalEpochAtOccurrence :: "runtime \<Rightarrow> Event list \<Rightarrow> string list \<Rightarrow> tid \<Rightarrow> tid \<times> bool" where
  "approvalEpochAtOccurrence u events required occ =
     approvalAtLoop u required occ (noEpochs required) 0 False False events"

definition labelStep :: "runtime \<Rightarrow> string \<Rightarrow> Event \<Rightarrow> tid \<times> bool \<Rightarrow> tid \<times> bool" where
  "labelStep u label ev st =
     (if eqFold u (evLabel ev) label then
        (if evType ev = EventLabeled then (evID ev, True)
         else if evType ev = EventUnlabeled then (0, False)
         else st)
      else st)"

fun labelAtLoop ::
  "runtime \<Rightarrow> string \<Rightarrow> tid \<Rightarrow> tid \<times> bool \<Rightarrow> tid \<times> bool \<Rightarrow> bool \<Rightarrow> Event list \<Rightarrow> tid \<times> bool" where
  "labelAtLoop u label occ st source found [] =
     (fst source, found \<and> snd source \<and> fst source > 0)"
| "labelAtLoop u label occ st source found (ev # evs) =
     (let st' = labelStep u label ev st
      in if evID ev = occ then
           (if found then (0, False) else labelAtLoop u label occ st' st' True evs)
         else labelAtLoop u label occ st' source found evs)"

definition labelEpochAtOccurrence :: "runtime \<Rightarrow> Event list \<Rightarrow> string \<Rightarrow> tid \<Rightarrow> tid \<times> bool" where
  "labelEpochAtOccurrence u events label occ = labelAtLoop u label occ (0, False) (0, False) False events"

text \<open>
  The result is \<open>(removed, newer, valid)\<close>. The loop updates the standing applications
  first, then turns \<open>after\<close> on at the epoch's own event.
\<close>

fun approvalChangesLoop ::
  "runtime \<Rightarrow> string list \<Rightarrow> tid \<Rightarrow> tid list \<Rightarrow> bool \<Rightarrow> bool \<Rightarrow> Event list \<Rightarrow> bool \<times> tid \<times> bool" where
  "approvalChangesLoop u required epoch epochs after removed [] = (removed, 0, True)"
| "approvalChangesLoop u required epoch epochs after removed (ev # evs) =
     (let epochs' = approvalStep u required ev epochs
      in if evID ev = epoch then approvalChangesLoop u required epoch epochs' True removed evs
         else if \<not> after \<or> requiredLabel u required (evLabel ev) = None
           then approvalChangesLoop u required epoch epochs' after removed evs
         else
           (let removed' = (removed \<or> evType ev = EventUnlabeled);
                (anchor, standing) = completeApprovalEpoch epochs'
            in if standing \<and> anchor \<noteq> epoch then (removed', anchor, True)
               else approvalChangesLoop u required epoch epochs' after removed' evs))"

definition approvalChangesAfterEpoch ::
  "runtime \<Rightarrow> Event list \<Rightarrow> string list \<Rightarrow> tid \<Rightarrow> bool \<times> tid \<times> bool" where
  "approvalChangesAfterEpoch u events required epoch =
     (let (source, ok) = approvalEpochAtOccurrence u events required epoch
      in if \<not> ok \<or> source \<noteq> epoch then (False, 0, False)
         else approvalChangesLoop u required epoch (noEpochs required) False False events)"

definition cycleStartAtOccurrence :: "runtime \<Rightarrow> Config \<Rightarrow> Event list \<Rightarrow> tid \<Rightarrow> time" where
  "cycleStartAtOccurrence u cfg events occ =
     (let (anchor, ok) = approvalEpochAtOccurrence u events (cfgRequiredLabels cfg) occ
      in if \<not> ok then zeroTime
         else (case firstSuch (\<lambda>ev. evID ev = anchor) events of
                 None \<Rightarrow> zeroTime | Some ev \<Rightarrow> evCreatedAt ev))"

section \<open>Readers of the log at an occurrence\<close>

text \<open>
  The three readers of the log at an occurrence share one contract: an occurrence that
  is not on the log, or is on it twice, has no answer; otherwise the answer is read off
  the replay of the log up to and including the occurrence. That later events never
  change the answer follows once, for all of them.
\<close>

locale occurrence_reader =
  fixes step :: "Event \<Rightarrow> 's \<Rightarrow> 's"
    and init :: 's
    and readout :: "'s \<Rightarrow> tid \<times> bool"
    and at :: "Event list \<Rightarrow> tid \<Rightarrow> tid \<times> bool"
  assumes at_absent: "occ \<notin> evID ` set evs \<Longrightarrow> at evs occ = (0, False)"
    and at_once: "occ \<notin> evID ` set (pre @ post) \<Longrightarrow> evID e = occ \<Longrightarrow>
      at (pre @ e # post) occ = readout (fold step (pre @ [e]) init)"
    and at_twice: "occ \<notin> evID ` set pre \<Longrightarrow> evID e = occ \<Longrightarrow> occ \<in> evID ` set post \<Longrightarrow>
      at (pre @ e # post) occ = (0, False)"
begin

lemma at_cases:
  obtains (absent) "occ \<notin> evID ` set evs" "at evs occ = (0, False)"
  | (once) pre e post where "evs = pre @ e # post" "evID e = occ"
      "occ \<notin> evID ` set (pre @ post)" "at evs occ = readout (fold step (pre @ [e]) init)"
  | (twice) pre e post where "evs = pre @ e # post" "evID e = occ"
      "occ \<notin> evID ` set pre" "occ \<in> evID ` set post" "at evs occ = (0, False)"
proof (cases "occ \<in> evID ` set evs")
  case False
  then show thesis using at_absent by (intro absent) auto
next
  case True
  then obtain x where "x \<in> set evs" and "evID x = occ" by auto
  then obtain pre e post where s: "evs = pre @ e # post" "evID e = occ"
    and p: "\<forall>z\<in>set pre. evID z \<noteq> occ"
    using split_at_first [of x evs "\<lambda>x. evID x = occ"] by auto
  then have np: "occ \<notin> evID ` set pre" by auto
  show thesis
  proof (cases "occ \<in> evID ` set post")
    case True
    with s np show thesis by (intro twice) (auto simp: at_twice)
  next
    case False
    with s np have "occ \<notin> evID ` set (pre @ post)" by auto
    with s show thesis by (intro once) (auto simp: at_once)
  qed
qed

lemma at_ok:
  assumes "snd (at evs occ)"
  obtains pre e post where "evs = pre @ e # post" "evID e = occ"
    "occ \<notin> evID ` set (pre @ post)" "at evs occ = readout (fold step (pre @ [e]) init)"
  by (rule at_cases [of occ evs]) (use assms that in auto)

lemma at_stable:
  assumes "occ \<in> evID ` set evs" and "occ \<notin> evID ` set later"
  shows "at (evs @ later) occ = at evs occ"
proof (rule at_cases [of occ evs])
  assume "occ \<notin> evID ` set evs"
  with assms show ?thesis by simp
next
  fix pre e post
  assume a: "evs = pre @ e # post" "evID e = occ" "occ \<notin> evID ` set (pre @ post)"
    "at evs occ = readout (fold step (pre @ [e]) init)"
  with assms(2) show ?thesis
    using at_once [of occ pre "post @ later" e] by auto
next
  fix pre e post
  assume a: "evs = pre @ e # post" "evID e = occ" "occ \<notin> evID ` set pre"
    "occ \<in> evID ` set post" "at evs occ = (0, False)"
  then show ?thesis
    using at_twice [of occ pre e "post @ later"] by auto
qed

end

lemma claimAtLoop_found:
  "claimAtLoop u p occ epoch source True evs =
     (if occ \<in> evID ` set evs then (0, False) else (source, source > 0))"
  by (induction evs arbitrary: epoch) (auto simp: Let_def)

lemma claimAtLoop_skip:
  "occ \<notin> evID ` set pre \<Longrightarrow>
   claimAtLoop u p occ epoch source found (pre @ evs) =
   claimAtLoop u p occ (fold (claimStep u p) pre epoch) source found evs"
  by (induction pre arbitrary: epoch) (auto simp: Let_def)

lemma claimAtLoop_absent:
  "occ \<notin> evID ` set pre \<Longrightarrow>
   claimAtLoop u p occ epoch source found pre = (source, found \<and> source > 0)"
  using claimAtLoop_skip [of occ pre u p epoch source found "[]"] by simp

interpretation claim_at: occurrence_reader "claimStep u p" 0 "\<lambda>e. (e, e > 0)"
    "\<lambda>evs occ. claimEpochAtOccurrence u evs p occ" for u p
  by unfold_locales
    (auto simp: claimEpochAtOccurrence_def claimAtLoop_skip claimAtLoop_absent claimAtLoop_found Let_def image_Un)

lemma approvalAtLoop_found:
  "approvalAtLoop u req occ epochs source standing True evs =
     (if occ \<in> evID ` set evs then (0, False) else (source, standing))"
  by (induction evs arbitrary: epochs) (auto simp: Let_def)

lemma approvalAtLoop_skip:
  "occ \<notin> evID ` set pre \<Longrightarrow>
   approvalAtLoop u req occ epochs source standing found (pre @ evs) =
   approvalAtLoop u req occ (fold (approvalStep u req) pre epochs) source standing found evs"
  by (induction pre arbitrary: epochs) (auto simp: Let_def)

lemma approvalAtLoop_absent:
  "occ \<notin> evID ` set pre \<Longrightarrow>
   approvalAtLoop u req occ epochs source standing found pre = (source, found \<and> standing)"
  using approvalAtLoop_skip [of occ pre u req epochs source standing found "[]"] by simp

interpretation approval_at: occurrence_reader "approvalStep u req" "noEpochs req"
    completeApprovalEpoch "\<lambda>evs occ. approvalEpochAtOccurrence u evs req occ" for u req
  by unfold_locales
    (auto simp: approvalEpochAtOccurrence_def approvalAtLoop_skip approvalAtLoop_absent
       approvalAtLoop_found Let_def image_Un split: prod.splits)

lemma labelAtLoop_found:
  "labelAtLoop u l occ st source True evs =
     (if occ \<in> evID ` set evs then (0, False) else (fst source, snd source \<and> fst source > 0))"
  by (induction evs arbitrary: st) (auto simp: Let_def)

lemma labelAtLoop_skip:
  "occ \<notin> evID ` set pre \<Longrightarrow>
   labelAtLoop u l occ st source found (pre @ evs) =
   labelAtLoop u l occ (fold (labelStep u l) pre st) source found evs"
  by (induction pre arbitrary: st) (auto simp: Let_def)

lemma labelAtLoop_absent:
  "occ \<notin> evID ` set pre \<Longrightarrow>
   labelAtLoop u l occ st source found pre = (fst source, found \<and> snd source \<and> fst source > 0)"
  using labelAtLoop_skip [of occ pre u l st source found "[]"] by simp

interpretation label_at: occurrence_reader "labelStep u l" "(0, False)"
    "\<lambda>st. (fst st, snd st \<and> fst st > 0)" "\<lambda>evs occ. labelEpochAtOccurrence u evs l occ" for u l
  by unfold_locales
    (auto simp: labelEpochAtOccurrence_def labelAtLoop_skip labelAtLoop_absent
       labelAtLoop_found Let_def image_Un)

section \<open>What the replays compute\<close>

definition assigns :: "runtime \<Rightarrow> string \<Rightarrow> Event \<Rightarrow> bool" where
  "assigns u p ev \<longleftrightarrow> evType ev = EventAssigned \<and> eqFold u (evAssignee ev) p"

definition unassigns :: "runtime \<Rightarrow> string \<Rightarrow> Event \<Rightarrow> bool" where
  "unassigns u p ev \<longleftrightarrow> evType ev = EventUnassigned \<and> eqFold u (evAssignee ev) p"

lemma event_types_distinct [simp]:
  "EventAssigned \<noteq> EventUnassigned" "EventUnassigned \<noteq> EventAssigned"
  "EventLabeled \<noteq> EventUnlabeled" "EventUnlabeled \<noteq> EventLabeled"
  by (simp_all add: EventAssigned_def EventUnassigned_def EventLabeled_def EventUnlabeled_def)

lemma claimStep_unassigns: "unassigns u p ev \<Longrightarrow> claimStep u p ev c = 0"
  by (simp add: unassigns_def claimStep_def)

lemma claimStep_assigns: "assigns u p ev \<Longrightarrow> claimStep u p ev c = (if c = 0 then evID ev else c)"
  by (simp add: assigns_def claimStep_def)

lemma claimStep_other: "\<not> assigns u p ev \<Longrightarrow> \<not> unassigns u p ev \<Longrightarrow> claimStep u p ev c = c"
  by (auto simp: assigns_def unassigns_def claimStep_def)

text \<open>
  The standing streak: \<open>e\<close> is the first assignment of \<open>p\<close> after the last time \<open>p\<close> was
  unassigned, and nothing unassigned \<open>p\<close> after it.
\<close>

definition streakStart :: "runtime \<Rightarrow> string \<Rightarrow> Event list \<Rightarrow> Event \<Rightarrow> bool" where
  "streakStart u p evs e \<longleftrightarrow>
     (\<exists>old gap post. evs = old @ gap @ e # post \<and> assigns u p e
        \<and> (\<forall>x\<in>set (gap @ post). \<not> unassigns u p x) \<and> (\<forall>x\<in>set gap. \<not> assigns u p x)
        \<and> (old = [] \<or> unassigns u p (last old)))"

lemma claim_fold_no_unassign:
  "c \<noteq> 0 \<Longrightarrow> \<forall>x\<in>set evs. \<not> unassigns u p x \<Longrightarrow> fold (claimStep u p) evs c = c"
proof (induction evs)
  case (Cons x xs)
  then have "claimStep u p x c = c"
    by (cases "assigns u p x") (simp_all add: claimStep_assigns claimStep_other)
  with Cons show ?case by simp
qed simp

lemma claim_fold_no_assign:
  "\<forall>x\<in>set evs. \<not> assigns u p x \<Longrightarrow> fold (claimStep u p) evs 0 = 0"
proof (induction evs)
  case (Cons x xs)
  then have "claimStep u p x 0 = 0"
    by (cases "unassigns u p x") (simp_all add: claimStep_unassigns claimStep_other)
  with Cons show ?case by simp
qed simp

lemma ClaimEpoch_snoc: "ClaimEpoch u (evs @ [e]) p = claimStep u p e (ClaimEpoch u evs p)"
  by (simp add: ClaimEpoch_def)

lemma ClaimEpoch_streak:
  assumes "streakStart u p evs e" and "evID e \<noteq> 0"
  shows "ClaimEpoch u evs p = evID e"
proof -
  from assms obtain old gap post where evs: "evs = old @ gap @ e # post" and e: "assigns u p e"
    and nu: "\<forall>x\<in>set (gap @ post). \<not> unassigns u p x" and na: "\<forall>x\<in>set gap. \<not> assigns u p x"
    and old: "old = [] \<or> unassigns u p (last old)" unfolding streakStart_def by blast
  have "fold (claimStep u p) old 0 = 0"
    using old by (cases old rule: rev_cases) (simp_all add: claimStep_unassigns)
  then have "fold (claimStep u p) (old @ gap) 0 = 0" using claim_fold_no_assign [OF na] by simp
  with e assms(2) nu show ?thesis
    by (simp add: ClaimEpoch_def evs claimStep_assigns claim_fold_no_unassign)
qed


lemma split_last_unassign:
  "\<exists>old gap. evs = old @ gap \<and> (\<forall>x\<in>set gap. \<not> unassigns u p x) \<and> (old = [] \<or> unassigns u p (last old))"
proof (induction evs rule: rev_induct)
  case (snoc x xs)
  then obtain old gap where s: "xs = old @ gap" "\<forall>x\<in>set gap. \<not> unassigns u p x"
    "old = [] \<or> unassigns u p (last old)" by blast
  show ?case
  proof (cases "unassigns u p x")
    case True
    then show ?thesis by (intro exI [of _ "xs @ [x]"] exI [of _ "[]"]) simp
  next
    case False
    with s show ?thesis by (intro exI [of _ old] exI [of _ "gap @ [x]"]) auto
  qed
qed simp

lemma ClaimEpoch_nonzero_streak:
  assumes "ClaimEpoch u evs p \<noteq> 0" and ids: "\<forall>e\<in>set evs. evID e \<noteq> 0"
  shows "\<exists>e. streakStart u p evs e \<and> evID e = ClaimEpoch u evs p"
proof -
  obtain old gap where evs: "evs = old @ gap" and nu: "\<forall>x\<in>set gap. \<not> unassigns u p x"
    and old: "old = [] \<or> unassigns u p (last old)" using split_last_unassign by blast
  have "fold (claimStep u p) old 0 = 0"
    using old by (cases old rule: rev_cases) (simp_all add: claimStep_unassigns)
  with assms(1) evs have "\<exists>x\<in>set gap. assigns u p x"
    using claim_fold_no_assign [of gap u p] by (auto simp: ClaimEpoch_def)
  then obtain pre e post where gap: "gap = pre @ e # post" "assigns u p e"
    "\<forall>z\<in>set pre. \<not> assigns u p z" using split_at_first by metis
  with nu old have st: "streakStart u p evs e" unfolding streakStart_def evs
    by (intro exI [of _ old] exI [of _ pre] exI [of _ post]) auto
  moreover have "evID e \<noteq> 0" using ids evs gap by simp
  ultimately show ?thesis using ClaimEpoch_streak by metis
qed

text \<open>Standing applications of labels, and the anchor of the complete set.\<close>

lemma completeLoop_spec:
  "0 \<le> a \<Longrightarrow> completeLoop a es = (if \<forall>e\<in>set es. e > 0 then (fold max es a, True) else (0, False))"
  by (induction es arbitrary: a) (auto simp: max_def)

lemma completeApprovalEpoch_iff:
  "completeApprovalEpoch es = (a, True) \<longleftrightarrow> es \<noteq> [] \<and> (\<forall>e\<in>set es. e > 0) \<and> a = Max (set es)"
proof (cases "es = []")
  case False
  then obtain e es' where es: "es = e # es'" by (cases es) auto
  have "fold max es 0 = Max (insert 0 (set es))"
    by (metis List.finite_set Max.set_eq_fold list.set(2))
  moreover have "\<forall>e\<in>set es. e > 0 \<Longrightarrow> Max (insert 0 (set es)) = Max (set es)"
    using es by (subst Max_insert) (auto simp: max_def not_le)
  ultimately show ?thesis using False
    by (auto simp: completeApprovalEpoch_def completeLoop_spec)
qed (simp add: completeApprovalEpoch_def)

lemma completeApprovalEpoch_not_standing:
  "\<not> snd (completeApprovalEpoch es) \<Longrightarrow> completeApprovalEpoch es = (0, False)"
  by (auto simp: completeApprovalEpoch_def completeLoop_spec split: if_splits)

lemma completeApprovalEpoch_pos: "completeApprovalEpoch es = (a, True) \<Longrightarrow> a > 0"
  by (auto simp: completeApprovalEpoch_iff)

text \<open>The required labels, no two of which name the same label.\<close>

definition labelsDistinct :: "runtime \<Rightarrow> string list \<Rightarrow> bool" where
  "labelsDistinct u req \<longleftrightarrow>
     (\<forall>i j. i < length req \<longrightarrow> j < length req \<longrightarrow> eqFold u (req ! i) (req ! j) \<longrightarrow> i = j)"

definition standingSince :: "runtime \<Rightarrow> string \<Rightarrow> Event list \<Rightarrow> tid" where
  "standingSince u label evs = fst (fold (labelStep u label) evs (0, False))"

lemma requiredLabelFrom_Some:
  "requiredLabelFrom u k req l = Some i \<Longrightarrow>
   k \<le> i \<and> i < k + length req \<and> eqFold u (req ! (i - k)) l"
proof (induction u k req l rule: requiredLabelFrom.induct)
  case (2 u k want ws label)
  then show ?case by (auto split: if_splits simp: nth_Cons')
qed simp

lemma requiredLabelFrom_None:
  "requiredLabelFrom u k req l = None \<longleftrightarrow> (\<forall>w\<in>set req. \<not> eqFold u w l)"
  by (induction u k req l rule: requiredLabelFrom.induct) auto

lemma requiredLabel_Some: "requiredLabel u req l = Some i \<Longrightarrow> i < length req \<and> eqFold u (req ! i) l"
  using requiredLabelFrom_Some [of u 0 req l i] by (simp add: requiredLabel_def)

lemma requiredLabel_None: "requiredLabel u req l = None \<longleftrightarrow> \<not> hasLabel u req l"
  by (simp add: requiredLabel_def requiredLabelFrom_None hasLabel_iff)

lemma requiredLabel_distinct:
  assumes "labelsDistinct u req" and "i < length req"
  shows "requiredLabel u req l = Some i \<longleftrightarrow> eqFold u (req ! i) l"
proof
  assume "eqFold u (req ! i) l"
  with assms(2) have "requiredLabel u req l \<noteq> None"
    by (auto simp: requiredLabel_None hasLabel_iff)
  then obtain j where j: "requiredLabel u req l = Some j" by auto
  then have "j < length req" "eqFold u (req ! j) l" using requiredLabel_Some by auto
  with \<open>eqFold u (req ! i) l\<close> have "eqFold u (req ! i) (req ! j)"
    using eq_fold.same_sym eq_fold.same_trans by blast
  with assms \<open>j < length req\<close> j show "requiredLabel u req l = Some i"
    unfolding labelsDistinct_def by blast
qed (simp add: requiredLabel_Some)

lemma length_noEpochs [simp]: "length (noEpochs req) = length req"
  by (simp add: noEpochs_def)

lemma length_approvalStep [simp]: "length (approvalStep u req ev es) = length es"
  by (simp add: approvalStep_def split: option.split)

lemma length_approval_fold [simp]: "length (fold (approvalStep u req) evs es) = length es"
  by (induction evs arbitrary: es) auto

lemma approval_fold_nth:
  assumes "labelsDistinct u req" and "i < length req"
  shows "fold (approvalStep u req) evs (noEpochs req) ! i = standingSince u (req ! i) evs"
proof (induction evs rule: rev_induct)
  case Nil
  then show ?case using assms by (simp add: noEpochs_def standingSince_def)
next
  case (snoc e evs)
  let ?es = "fold (approvalStep u req) evs (noEpochs req)"
  have "approvalStep u req e ?es ! i = fst (labelStep u (req ! i) e (fold (labelStep u (req ! i)) evs (0, False)))"
  proof (cases "eqFold u (evLabel e) (req ! i)")
    case True
    then have "requiredLabel u req (evLabel e) = Some i"
      using requiredLabel_distinct [OF assms] eq_fold.same_sym by blast
    with True snoc assms(2) show ?thesis
      by (simp add: approvalStep_def [of u req e] labelStep_def [of u "req ! i" e] standingSince_def)
  next
    case False
    then have "requiredLabel u req (evLabel e) \<noteq> Some i"
      using requiredLabel_distinct [OF assms] eq_fold.same_sym by blast
    with False snoc show ?thesis
      by (auto simp: approvalStep_def [of u req e] labelStep_def [of u "req ! i" e]
            standingSince_def split: option.split)
  qed
  then show ?case by (simp add: standingSince_def)
qed

lemma approval_fold_eq:
  "labelsDistinct u req \<Longrightarrow>
   fold (approvalStep u req) evs (noEpochs req) = map (\<lambda>l. standingSince u l evs) req"
  by (rule nth_equalityI) (auto simp: approval_fold_nth)


text \<open>The standing complete approval after a whole log.\<close>

definition standingApproval :: "runtime \<Rightarrow> string list \<Rightarrow> Event list \<Rightarrow> tid \<times> bool" where
  "standingApproval u req evs = completeApprovalEpoch (fold (approvalStep u req) evs (noEpochs req))"

lemma standingApproval_iff:
  assumes "labelsDistinct u req"
  shows "standingApproval u req evs = (a, True) \<longleftrightarrow>
    req \<noteq> [] \<and> (\<forall>l\<in>set req. standingSince u l evs > 0) \<and> a = Max ((\<lambda>l. standingSince u l evs) ` set req)"
  by (simp add: standingApproval_def approval_fold_eq [OF assms] completeApprovalEpoch_iff)

lemma approvalStep_irrelevant:
  "requiredLabel u req (evLabel e) = None \<Longrightarrow> approvalStep u req e es = es"
  by (simp add: approvalStep_def)

lemma approvalStep_keeps_positive:
  assumes "\<forall>x\<in>set es. x > 0" and "evID e > 0" and "evType e \<noteq> EventUnlabeled"
  shows "\<forall>x\<in>set (approvalStep u req e es). x > 0"
  using assms by (auto simp: approvalStep_def dest: set_update_subset_insert [THEN subsetD] split: option.split)

lemma approvalStep_standing:
  assumes "completeApprovalEpoch es = (a, True)" and "evID e > 0" and "evType e \<noteq> EventUnlabeled"
  shows "snd (completeApprovalEpoch (approvalStep u req e es))"
proof -
  have "es \<noteq> []" and "\<forall>x\<in>set es. x > 0" using assms(1) by (auto simp: completeApprovalEpoch_iff)
  then have "approvalStep u req e es \<noteq> []" and "\<forall>x\<in>set (approvalStep u req e es). x > 0"
    using approvalStep_keeps_positive [OF _ assms(2,3)] length_approvalStep [of u req e es]
    by (auto simp flip: length_greater_0_conv simp del: length_approvalStep)
  then have "completeApprovalEpoch (approvalStep u req e es) = (Max (set (approvalStep u req e es)), True)"
    by (simp add: completeApprovalEpoch_iff)
  then show ?thesis by simp
qed

lemma approvalChangesLoop_removed_mono:
  "approvalChangesLoop u req epoch es after True evs = (r, n, v) \<Longrightarrow> r"
  by (induction u req epoch es after True evs rule: approvalChangesLoop.induct)
    (auto simp: Let_def split: if_splits prod.splits)

lemma approvalChangesLoop_intact:
  assumes "approvalChangesLoop u req epoch es True removed evs = (False, 0, True)"
    and "completeApprovalEpoch es = (epoch, True)"
    and "\<forall>e\<in>set evs. evID e > 0 \<and> evID e \<noteq> epoch"
  shows "completeApprovalEpoch (fold (approvalStep u req) evs es) = (epoch, True)
    \<and> \<not> (\<exists>e\<in>set evs. evType e = EventUnlabeled \<and> hasLabel u req (evLabel e))"
  using assms
proof (induction evs arbitrary: es removed)
  case (Cons e evs)
  let ?es = "approvalStep u req e es"
  show ?case
  proof (cases "requiredLabel u req (evLabel e) = None")
    case True
    with Cons show ?thesis by (auto simp: approvalStep_irrelevant requiredLabel_None)
  next
    case False
    have nu: "evType e \<noteq> EventUnlabeled"
    proof
      assume "evType e = EventUnlabeled"
      with Cons.prems False show False
        using approvalChangesLoop_removed_mono [of u req epoch ?es True evs False 0 True]
        by (auto simp: Let_def split: if_splits prod.splits)
    qed
    then have st: "snd (completeApprovalEpoch ?es)"
      using approvalStep_standing Cons.prems by simp
    then obtain a where a: "completeApprovalEpoch ?es = (a, True)" by (metis prod.collapse)
    then have "a = epoch"
      using Cons.prems False completeApprovalEpoch_pos [OF a]
      by (auto simp: Let_def split: if_splits)
    with a nu False Cons show ?thesis by (auto simp: Let_def)
  qed
qed simp

lemma approvalChangesLoop_skip:
  "epoch \<notin> evID ` set pre \<Longrightarrow>
   approvalChangesLoop u req epoch es False removed (pre @ evs) =
   approvalChangesLoop u req epoch (fold (approvalStep u req) pre es) False removed evs"
  by (induction pre arbitrary: es) (auto simp: Let_def)

lemma approvalChanges_intact:
  assumes ok: "approvalChangesAfterEpoch u evs req epoch = (False, 0, True)"
    and ids: "\<forall>e\<in>set evs. evID e > 0"
  shows "standingApproval u req evs = (epoch, True)"
proof -
  have at: "approvalEpochAtOccurrence u evs req epoch = (epoch, True)"
    using ok by (auto simp: approvalChangesAfterEpoch_def split: prod.splits if_splits)
  then obtain pre e post where s: "evs = pre @ e # post" "evID e = epoch"
    "epoch \<notin> evID ` set (pre @ post)"
    and r: "completeApprovalEpoch (fold (approvalStep u req) (pre @ [e]) (noEpochs req)) = (epoch, True)"
    by (metis approval_at.at_ok snd_conv)
  have "approvalChangesLoop u req epoch (fold (approvalStep u req) (pre @ [e]) (noEpochs req))
      True False post = (False, 0, True)"
    using ok at s by (simp add: approvalChangesAfterEpoch_def approvalChangesLoop_skip image_Un)
  moreover have "\<forall>x\<in>set post. evID x \<noteq> epoch" using s(3) by auto
  then have "\<forall>x\<in>set post. evID x > 0 \<and> evID x \<noteq> epoch" using s(1) ids by auto
  ultimately show ?thesis
    using approvalChangesLoop_intact [OF _ r] s by (simp add: standingApproval_def)
qed


lemma Validate_labels:
  assumes "Validate u cfg = None"
  shows "labelsDistinct u (cfgRequiredLabels cfg)" and "l \<in> set (cfgRequiredLabels cfg) \<Longrightarrow> l \<noteq> []"
proof -
  have s: "sorted_wrt (\<lambda>a b. \<not> eqFold u a b) (cfgRequiredLabels cfg)"
    and b: "\<forall>l\<in>set (cfgRequiredLabels cfg). trimSpace l \<noteq> []"
    using checkRequiredLabels_None [OF Validate_checks(3) [OF assms]] by auto
  then show "labelsDistinct u (cfgRequiredLabels cfg)"
    unfolding labelsDistinct_def sorted_wrt_iff_nth_less by (metis eq_fold.same_sym linorder_neqE_nat)
  show "l \<in> set (cfgRequiredLabels cfg) \<Longrightarrow> l \<noteq> []"
    using b by (auto simp: trimSpace_def stripBy_id)
qed

section \<open>Properties\<close>

lemma approvalAt_replay:
  assumes "evs = pre @ e # post" and "evID e = occ" and "occ \<notin> evID ` set (pre @ post)"
  shows "approvalEpochAtOccurrence u evs req occ = standingApproval u req (pre @ [e])"
  using approval_at.at_once [of occ pre post e u req] assms by (simp add: standingApproval_def)

text \<open>A three-event log for the witnesses: approval, claim, publication.\<close>

definition logRuntime :: runtime where
  "logRuntime = \<lparr>foldOf = id, lowerOf = id, hostOf = Some\<rparr>"

definition logApproved :: Event where
  "logApproved = \<lparr>evID = 1, evType = EventLabeled, evActor = ''h'', evAssignee = [], evLabel = ''q'', evCreatedAt = 1\<rparr>"

definition logClaimed :: Event where
  "logClaimed = \<lparr>evID = 2, evType = EventAssigned, evActor = ''ben'', evAssignee = ''ben'', evLabel = [], evCreatedAt = 2\<rparr>"

definition logPublished :: Event where
  "logPublished = \<lparr>evID = 3, evType = EventUnlabeled, evActor = ''t'', evAssignee = [], evLabel = ''ben:running'', evCreatedAt = 3\<rparr>"

text \<open>The claim epoch is the id of the assignment that began the principal's current
  standing streak (the first assignment after the last unassignment), and is zero exactly
  when the principal has no standing assignment.\<close>

theorem ClaimEpoch_is_streak_start:
  assumes "\<forall>e\<in>set evs. evID e \<noteq> 0" and "c \<noteq> 0"
  shows "ClaimEpoch u evs p = c \<longleftrightarrow> (\<exists>e. streakStart u p evs e \<and> evID e = c)"
  using ClaimEpoch_nonzero_streak [OF _ assms(1)] ClaimEpoch_streak assms(2) by metis

theorem ClaimEpoch_is_streak_start_witness:
  "ClaimEpoch logRuntime [logApproved, logClaimed, logPublished] ''ben'' = 2
   \<and> (\<exists>e. streakStart logRuntime ''ben'' [logApproved, logClaimed, logPublished] e \<and> evID e = 2)"
proof -
  have "ClaimEpoch logRuntime [logApproved, logClaimed, logPublished] ''ben'' = 2" by code_simp
  then show ?thesis
    using ClaimEpoch_is_streak_start [of "[logApproved, logClaimed, logPublished]" 2 logRuntime "''ben''"]
    by (simp add: logApproved_def logClaimed_def logPublished_def)
qed

text \<open>The workspace-cycle anchor at an occurrence that is on the log once: it is
  reported as standing exactly when every required label stood after the log up to and
  including the occurrence, and then it is the greatest of their standing applications.\<close>

theorem approvalEpochAtOccurrence_is_anchor:
  assumes "labelsDistinct u req"
    and "evs = pre @ e # post" and "evID e = occ" and "occ \<notin> evID ` set (pre @ post)"
  shows "approvalEpochAtOccurrence u evs req occ = (a, True) \<longleftrightarrow>
    req \<noteq> [] \<and> (\<forall>l\<in>set req. standingSince u l (pre @ [e]) > 0)
    \<and> a = Max ((\<lambda>l. standingSince u l (pre @ [e])) ` set req)"
  using approvalAt_replay [OF assms(2-4)] standingApproval_iff [OF assms(1)] by simp

theorem approvalEpochAtOccurrence_is_anchor_witness:
  "approvalEpochAtOccurrence logRuntime [logApproved, logClaimed, logPublished] [''q''] 3 = (1, True)
   \<and> 0 < standingSince logRuntime ''q'' [logApproved, logClaimed, logPublished]"
proof -
  have "approvalEpochAtOccurrence logRuntime [logApproved, logClaimed, logPublished] [''q''] 3 = (1, True)" by code_simp
  then show ?thesis
    using approvalEpochAtOccurrence_is_anchor [of logRuntime "[''q'']" "[logApproved, logClaimed, logPublished]"
        "[logApproved, logClaimed]" logPublished "[]" 3 1]
    by (simp add: labelsDistinct_def logApproved_def logClaimed_def logPublished_def)
qed

text \<open>The facts an occurrence is judged by are immutable: whatever is appended to the
  change log afterwards, the source claim, the source approval and the queue label's
  application at an occurrence already on the log stay what they were.\<close>

theorem occurrence_facts_immutable:
  assumes "occ \<in> evID ` set evs" and "occ \<notin> evID ` set later"
  shows "claimEpochAtOccurrence u (evs @ later) p occ = claimEpochAtOccurrence u evs p occ
    \<and> approvalEpochAtOccurrence u (evs @ later) req occ = approvalEpochAtOccurrence u evs req occ
    \<and> labelEpochAtOccurrence u (evs @ later) l occ = labelEpochAtOccurrence u evs l occ"
  using assms by (intro conjI claim_at.at_stable approval_at.at_stable label_at.at_stable)

theorem occurrence_facts_immutable_witness:
  "approvalEpochAtOccurrence logRuntime ([logApproved, logClaimed] @ [logPublished]) [''q''] 2
   = approvalEpochAtOccurrence logRuntime [logApproved, logClaimed] [''q''] 2"
  using occurrence_facts_immutable [of 2 "[logApproved, logClaimed]" "[logPublished]" logRuntime "''ben''" "[''q'']" "''q''"]
  by (simp add: logApproved_def logClaimed_def logPublished_def)

text \<open>The fence the reducer puts before a review and before a route: when no change is
  reported after an approval epoch, that epoch is the anchor of the complete
  required-label set standing at the end of the log.\<close>

theorem unchanged_approval_stands:
  assumes "approvalChangesAfterEpoch u evs req epoch = (False, 0, True)"
    and "\<forall>e\<in>set evs. evID e > 0"
  shows "standingApproval u req evs = (epoch, True)"
  using approvalChanges_intact [OF assms] .

theorem unchanged_approval_stands_witness:
  "standingApproval logRuntime [''q''] [logApproved, logClaimed, logPublished] = (1, True)"
proof (rule unchanged_approval_stands)
  show "approvalChangesAfterEpoch logRuntime [logApproved, logClaimed, logPublished] [''q''] 1 = (False, 0, True)"
    by code_simp
qed (simp add: logApproved_def logClaimed_def logPublished_def)

end
