(* ===== verification/RevMarker.thy ===== *)
theory RevMarker
  imports RevConfig GoStringFacts
begin

text \<open>
  \<open>internal/review/marker.go\<close>, \<open>blocked.go\<close> and the bodies of \<open>verdict.go\<close>: the durable
  vocabulary of the review controller. A marker is an HTML comment with key=value
  fields; the four kinds are printed and parsed, and the bodies that carry them wrap
  model-authored text the controller neutralizes first.
\<close>

section \<open>Vocabulary\<close>

definition markerReview :: string where "markerReview = ''ben:review''"
definition markerRoute :: string where "markerRoute = ''ben:route''"
definition markerRouteIntent :: string where "markerRouteIntent = ''ben:route-intent''"
definition markerReviewBlocked :: string where "markerReviewBlocked = ''ben:review-blocked''"
definition markerMilestone :: string where "markerMilestone = ''ben:milestone''"

datatype malformed =
    Unterminated string
  | NotKeyValue string string
  | RepeatsKey string string
  | NoField string
  | NotEventID string string
  | NotFullSHA string string
  | InvalidProfile string
  | VerdictOutside string
  | OutcomeOutside string
  | NotReasonToken string

datatype markerError =
    ErrNoMarker
  | ErrAmbiguousMarker string
  | ErrMalformedMarker malformed

record ReviewMarker =
  rmOccurrence :: tid
  rmClaim :: tid
  rmApproval :: tid
  rmHead :: string
  rmBase :: string
  rmVerdict :: Verdict
  rmReviewerProfile :: string

record RouteMarker =
  rtOccurrence :: tid
  rtClaim :: tid
  rtHead :: string
  rtOutcome :: Outcome

record RouteIntentMarker =
  riOccurrence :: tid
  riClaim :: tid
  riApproval :: tid
  riHead :: string
  riOutcome :: Outcome

record ReviewBlockedMarker =
  rbOccurrence :: tid
  rbClaim :: tid
  rbApproval :: tid
  rbHead :: string
  rbReason :: string

section \<open>Printing\<close>

text \<open>\<open>fmt.Sprintf("<!-- %s k=v ... -->")\<close> with the fields in the order of the code.\<close>

definition printField :: "string \<times> string \<Rightarrow> string" where
  "printField kv = fst kv @ ''='' @ snd kv"

definition printMarker :: "string \<Rightarrow> (string \<times> string) list \<Rightarrow> string" where
  "printMarker name kvs =
     ''<!-- '' @ name @ concat (map (\<lambda>kv. '' '' @ printField kv) kvs) @ '' -->''"

definition reviewFields :: "ReviewMarker \<Rightarrow> (string \<times> string) list" where
  "reviewFields m =
     [(''occurrence'', itoa (rmOccurrence m)), (''claim'', itoa (rmClaim m)),
      (''approval'', itoa (rmApproval m)), (''head'', rmHead m), (''base'', rmBase m),
      (''verdict'', rmVerdict m)]
     @ (if rmReviewerProfile m \<noteq> [] then [(''profile'', rmReviewerProfile m)] else [])"

definition ReviewMarker_String :: "ReviewMarker \<Rightarrow> string" where
  "ReviewMarker_String m = printMarker markerReview (reviewFields m)"

definition routeFields :: "RouteMarker \<Rightarrow> (string \<times> string) list" where
  "routeFields m =
     [(''occurrence'', itoa (rtOccurrence m)), (''claim'', itoa (rtClaim m)),
      (''head'', rtHead m), (''outcome'', rtOutcome m)]"

definition RouteMarker_String :: "RouteMarker \<Rightarrow> string" where
  "RouteMarker_String m = printMarker markerRoute (routeFields m)"

definition intentFields :: "RouteIntentMarker \<Rightarrow> (string \<times> string) list" where
  "intentFields m =
     [(''occurrence'', itoa (riOccurrence m)), (''claim'', itoa (riClaim m)),
      (''approval'', itoa (riApproval m)), (''head'', riHead m), (''outcome'', riOutcome m)]"

definition RouteIntentMarker_String :: "RouteIntentMarker \<Rightarrow> string" where
  "RouteIntentMarker_String m = printMarker markerRouteIntent (intentFields m)"

definition blockedFields :: "ReviewBlockedMarker \<Rightarrow> (string \<times> string) list" where
  "blockedFields m =
     [(''occurrence'', itoa (rbOccurrence m)), (''claim'', itoa (rbClaim m)),
      (''approval'', itoa (rbApproval m)), (''head'', rbHead m), (''reason'', rbReason m)]"

definition ReviewBlockedMarker_String :: "ReviewBlockedMarker \<Rightarrow> string" where
  "ReviewBlockedMarker_String m = printMarker markerReviewBlocked (blockedFields m)"

section \<open>Parsing\<close>

fun parseTokens :: "string \<Rightarrow> (string \<rightharpoonup> string) \<Rightarrow> string list \<Rightarrow> markerError + (string \<rightharpoonup> string)" where
  "parseTokens name f [] = Inr f"
| "parseTokens name f (tok # toks) =
     (case cutOn CHR ''='' tok of
        None \<Rightarrow> Inl (ErrMalformedMarker (NotKeyValue name tok))
      | Some (k, v) \<Rightarrow>
          if f k \<noteq> None then Inl (ErrMalformedMarker (RepeatsKey name k))
          else parseTokens name (f(k \<mapsto> v)) toks)"

definition parseMarker :: "string \<Rightarrow> string \<Rightarrow> markerError + (string \<rightharpoonup> string)" where
  "parseMarker body name =
     (let opener = ''<!-- '' @ name @ '' ''
      in case strIndex body opener of
           None \<Rightarrow> Inl ErrNoMarker
         | Some idx \<Rightarrow>
             let rest = drop (idx + length opener) body
             in if contains rest opener then Inl (ErrAmbiguousMarker name)
                else (case strIndex rest ''-->'' of
                        None \<Rightarrow> Inl (ErrMalformedMarker (Unterminated name))
                      | Some stop \<Rightarrow> parseTokens name Map.empty (strFields (take stop rest))))"

definition fieldID :: "(string \<rightharpoonup> string) \<Rightarrow> string \<Rightarrow> markerError + tid" where
  "fieldID f key =
     (case f key of
        None \<Rightarrow> Inl (ErrMalformedMarker (NoField key))
      | Some raw \<Rightarrow>
          (case parseInt64 raw of
             None \<Rightarrow> Inl (ErrMalformedMarker (NotEventID key raw))
           | Some v \<Rightarrow> if v \<le> 0 then Inl (ErrMalformedMarker (NotEventID key raw)) else Inr v))"

definition hexChar :: "char \<Rightarrow> bool" where
  "hexChar c \<longleftrightarrow> isDigit c \<or> (97 \<le> byte c \<and> byte c \<le> 102)"

definition isFullSHA :: "string \<Rightarrow> bool" where
  "isFullSHA s \<longleftrightarrow> length s = 40 \<and> list_all hexChar s"

text \<open>A Go map read of an absent key is the empty string.\<close>

definition fieldOr :: "(string \<rightharpoonup> string) \<Rightarrow> string \<Rightarrow> string" where
  "fieldOr f key = (case f key of None \<Rightarrow> [] | Some v \<Rightarrow> v)"

definition fieldSHA :: "(string \<rightharpoonup> string) \<Rightarrow> string \<Rightarrow> markerError + string" where
  "fieldSHA f key =
     (let raw = fieldOr f key
      in if isFullSHA raw then Inr raw else Inl (ErrMalformedMarker (NotFullSHA key raw)))"

text \<open>The early return on an error.\<close>

fun andThen :: "'e + 'a \<Rightarrow> ('a \<Rightarrow> 'e + 'b) \<Rightarrow> 'e + 'b" where
  "andThen (Inl e) f = Inl e"
| "andThen (Inr a) f = f a"

definition ParseReviewMarker :: "string \<Rightarrow> markerError + ReviewMarker" where
  "ParseReviewMarker body =
     andThen (parseMarker body markerReview) (\<lambda>f.
     andThen (fieldID f ''occurrence'') (\<lambda>occ.
     andThen (fieldID f ''claim'') (\<lambda>claim.
     andThen (if f ''approval'' = None then Inr 0 else fieldID f ''approval'') (\<lambda>approval.
     andThen (fieldSHA f ''head'') (\<lambda>head.
     andThen (fieldSHA f ''base'') (\<lambda>base.
     andThen (case f ''profile'' of
                None \<Rightarrow> Inr []
              | Some profile \<Rightarrow>
                  if ValidReviewerProfile profile then Inr profile
                  else Inl (ErrMalformedMarker (InvalidProfile profile))) (\<lambda>profile.
     let v = fieldOr f ''verdict''
     in if v = VerdictClean \<or> v = VerdictChangesRequested
        then Inr \<lparr>rmOccurrence = occ, rmClaim = claim, rmApproval = approval, rmHead = head,
                  rmBase = base, rmVerdict = v, rmReviewerProfile = profile\<rparr>
        else Inl (ErrMalformedMarker (VerdictOutside v)))))))))"

definition ParseRouteMarker :: "string \<Rightarrow> markerError + RouteMarker" where
  "ParseRouteMarker body =
     andThen (parseMarker body markerRoute) (\<lambda>f.
     andThen (fieldID f ''occurrence'') (\<lambda>occ.
     andThen (fieldID f ''claim'') (\<lambda>claim.
     andThen (fieldSHA f ''head'') (\<lambda>head.
     let out = fieldOr f ''outcome''
     in if out \<in> set [OutcomeRevise, OutcomeHumanReview, OutcomeRoundCap, OutcomeNoProgress]
        then Inr \<lparr>rtOccurrence = occ, rtClaim = claim, rtHead = head, rtOutcome = out\<rparr>
        else Inl (ErrMalformedMarker (OutcomeOutside out))))))"

definition ParseRouteIntentMarker :: "string \<Rightarrow> markerError + RouteIntentMarker" where
  "ParseRouteIntentMarker body =
     andThen (parseMarker body markerRouteIntent) (\<lambda>f.
     andThen (fieldID f ''occurrence'') (\<lambda>occ.
     andThen (fieldID f ''claim'') (\<lambda>claim.
     andThen (fieldID f ''approval'') (\<lambda>approval.
     andThen (fieldSHA f ''head'') (\<lambda>head.
     let out = fieldOr f ''outcome''
     in if out \<in> set [OutcomeHumanReview, OutcomeRoundCap, OutcomeNoProgress]
        then Inr \<lparr>riOccurrence = occ, riClaim = claim, riApproval = approval, riHead = head, riOutcome = out\<rparr>
        else Inl (ErrMalformedMarker (OutcomeOutside out)))))))"

text \<open>\<open>internal/review/blocked.go\<close>: the statement that a reviewer could not be started.\<close>

definition reasonChar :: "char \<Rightarrow> bool" where
  "reasonChar c \<longleftrightarrow> isLowerAZ c \<or> isDigit c \<or> c = CHR ''_'' \<or> c = CHR ''-''"

definition ValidBlockReason :: "string \<Rightarrow> bool" where
  "ValidBlockReason reason = (if reason = [] \<or> length reason > 64 then False else list_all reasonChar reason)"

definition ParseReviewBlockedMarker :: "string \<Rightarrow> markerError + ReviewBlockedMarker" where
  "ParseReviewBlockedMarker body =
     andThen (parseMarker body markerReviewBlocked) (\<lambda>f.
     andThen (fieldID f ''occurrence'') (\<lambda>occ.
     andThen (fieldID f ''claim'') (\<lambda>claim.
     andThen (fieldID f ''approval'') (\<lambda>approval.
     andThen (fieldSHA f ''head'') (\<lambda>head.
     let r = fieldOr f ''reason''
     in if \<not> ValidBlockReason r then Inl (ErrMalformedMarker (NotReasonToken r))
        else Inr \<lparr>rbOccurrence = occ, rbClaim = claim, rbApproval = approval, rbHead = head, rbReason = r\<rparr>)))))"

definition PublishedOccurrence :: "string \<Rightarrow> markerError + tid" where
  "PublishedOccurrence body =
     andThen (parseMarker body markerMilestone) (\<lambda>f.
     if fieldOr f ''kind'' \<noteq> ''published'' then Inl ErrNoMarker else fieldID f ''occurrence'')"

section \<open>Bodies\<close>

definition SanitizeFindings :: "string \<Rightarrow> string" where
  "SanitizeFindings s = replaceAll ''<!--'' ''< !--'' s"

definition maxFindings :: nat where "maxFindings = 60000"

definition nl :: string where "nl = [CHR 0x0A]"
definition bt :: string where "bt = [CHR 0x60]"

definition reviewHeader :: string where
  "reviewHeader = ''**Automated review** '' @ [CHR 0xE2, CHR 0x80, CHR 0x94]
     @ '' advisory only. This is a '' @ bt @ ''COMMENT'' @ bt
     @ '' review by BEN'' @ [CHR 0x27] @ ''s review controller; it is not an approval, and a human code owner''
     @ [CHR 0x27] @ ''s review is still required.'' @ nl @ nl"

text \<open>The findings as published: neutralized, trimmed, bounded, never empty.\<close>

definition publishedFindings :: "string \<Rightarrow> string" where
  "publishedFindings findings =
     (let f = trimSpace (SanitizeFindings findings);
          f' = (if length f > maxFindings then take maxFindings f @ nl @ nl @ ''_(truncated)_'' else f)
      in if f' = [] then ''_The reviewer returned no findings._'' else f')"

definition ReviewBody :: "ReviewMarker \<Rightarrow> string \<Rightarrow> string" where
  "ReviewBody m findings =
     reviewHeader
     @ ''- verdict: '' @ bt @ rmVerdict m @ bt @ nl
     @ ''- head: '' @ bt @ rmHead m @ bt @ nl
     @ (if rmReviewerProfile m \<noteq> [] then ''- reviewer profile: '' @ bt @ rmReviewerProfile m @ bt @ nl else [])
     @ nl @ publishedFindings findings @ nl @ nl @ ReviewMarker_String m @ nl"

definition RouteBody :: "RouteMarker \<Rightarrow> string \<Rightarrow> string" where
  "RouteBody m why =
     ''**Review controller** routed occurrence '' @ bt @ itoa (rtOccurrence m) @ bt @ '' to ''
     @ bt @ rtOutcome m @ bt @ ''.'' @ nl @ nl
     @ ''- head: '' @ bt @ rtHead m @ bt @ nl
     @ ''- reason: '' @ trimSpace (SanitizeFindings why) @ nl @ nl @ RouteMarker_String m @ nl"

definition RouteIntentBody :: "RouteIntentMarker \<Rightarrow> string \<Rightarrow> string" where
  "RouteIntentBody m why =
     ''**Review controller** prepared terminal route '' @ bt @ riOutcome m @ bt @ '' for occurrence ''
     @ bt @ itoa (riOccurrence m) @ bt @ ''.'' @ nl @ nl
     @ ''- head: '' @ bt @ riHead m @ bt @ nl
     @ ''- approval event: '' @ bt @ itoa (riApproval m) @ bt @ nl
     @ ''- reason: '' @ trimSpace (SanitizeFindings why) @ nl @ nl @ RouteIntentMarker_String m @ nl"

definition ReviewBlockedBody :: "ReviewBlockedMarker \<Rightarrow> string \<Rightarrow> string" where
  "ReviewBlockedBody m detail =
     ''**Review controller** could not start the independent review of head '' @ bt @ rbHead m @ bt @ ''.'' @ nl @ nl
     @ ''The execution substrate refused to admit the reviewer run ('' @ bt @ rbReason m @ bt
     @ ''), so no review was produced and none will be until the request or the substrate'' @ [CHR 0x27]
     @ ''s limits change. ''
     @ ''This is not a verdict on the change: the pull request still needs a human code owner'' @ [CHR 0x27]
     @ ''s review, and BEN'' @ [CHR 0x27] @ ''s assignment and the approval label are untouched.'' @ nl @ nl
     @ (let d = trimSpace (SanitizeFindings detail) in if d \<noteq> [] then ''- detail: '' @ d @ nl else [])
     @ ''- occurrence: '' @ bt @ itoa (rbOccurrence m) @ bt @ nl @ nl
     @ ReviewBlockedMarker_String m @ nl"

definition blockedMatches :: "runtime \<Rightarrow> Config \<Rightarrow> tid \<Rightarrow> string \<Rightarrow> Comment \<Rightarrow> ReviewBlockedMarker option" where
  "blockedMatches u cfg occurrence head c =
     (if \<not> eqFold u (cmAuthor c) (cfgController cfg) then None
      else (case ParseReviewBlockedMarker (cmBody c) of
              Inl _ \<Rightarrow> None
            | Inr m \<Rightarrow> if rbOccurrence m \<noteq> occurrence \<or> rbHead m \<noteq> head then None else Some m))"

definition BlockedReviewFor :: "runtime \<Rightarrow> Config \<Rightarrow> Comment list \<Rightarrow> tid \<Rightarrow> string \<Rightarrow> ReviewBlockedMarker option" where
  "BlockedReviewFor u cfg comments occurrence head =
     firstSome (blockedMatches u cfg occurrence head) comments"

section \<open>Neutralized text carries no comment opener\<close>

definition noOpener :: "string \<Rightarrow> bool" where
  "noOpener s \<longleftrightarrow> \<not> contains s ''<!--''"

lemma noOpener_infix: "noOpener (a @ s @ b) \<Longrightarrow> noOpener s"
  unfolding noOpener_def using contains_append by blast

lemma noOpener_trim: "noOpener s \<Longrightarrow> noOpener (trimSpace s)"
  using trimSpace_infix [of s] noOpener_infix by metis

lemma noOpener_take: "noOpener s \<Longrightarrow> noOpener (take n s)"
  by (metis append_Nil append_take_drop_id noOpener_infix)

lemma noOpener_Cons: "noOpener (c # s) \<longleftrightarrow> \<not> hasPrefix (c # s) ''<!--'' \<and> noOpener s"
  by (auto simp: noOpener_def contains_def strIndex_Cons)

lemma noOpener_Nil [simp]: "noOpener []"
  by (simp add: noOpener_def contains_def strIndex_Nil)

text \<open>A byte that is not part of an opener separates two clean strings.\<close>

lemma noOpener_sep:
  assumes "c \<notin> set ''<!-''" and "noOpener a" and "noOpener b"
  shows "noOpener (a @ c # b)"
  using assms
proof (induction a)
  case Nil
  then show ?case by (simp add: noOpener_Cons)
next
  case (Cons x a)
  have "\<not> hasPrefix (x # a @ c # b) ''<!--''"
  proof
    assume p: "hasPrefix (x # a @ c # b) ''<!--''"
    have "\<not> hasPrefix (x # a) ''<!--''" using Cons.prems(2) by (simp add: noOpener_Cons)
    with p Cons.prems(1) show False
      by (cases a; cases "tl a"; cases "tl (tl a)") (auto split: if_splits)
  qed
  with Cons show ?case by (simp add: noOpener_Cons)
qed

lemma noOpener_plain: "CHR ''<'' \<notin> set a \<Longrightarrow> noOpener b \<Longrightarrow> noOpener (a @ b)"
  by (induction a) (auto simp: noOpener_Cons)

lemma noOpener_no_lt: "CHR ''<'' \<notin> set a \<Longrightarrow> noOpener a"
  using noOpener_plain [of a "[]"] by simp

lemma Sanitize_match: "SanitizeFindings (''<!--'' @ s) = ''< !--'' @ SanitizeFindings s"
  unfolding SanitizeFindings_def by (rule replaceAll_match) simp

lemma Sanitize_other:
  "\<not> hasPrefix (c # cs) ''<!--'' \<Longrightarrow> SanitizeFindings (c # cs) = c # SanitizeFindings cs"
  unfolding SanitizeFindings_def by (rule replaceAll_other)

lemma Sanitize_Nil [simp]: "SanitizeFindings [] = []"
  by (simp add: SanitizeFindings_def)

lemma Sanitize_head:
  "hasPrefix (SanitizeFindings s) (c # p) \<Longrightarrow> c \<noteq> CHR ''<'' \<Longrightarrow>
   \<exists>s'. s = c # s' \<and> hasPrefix (SanitizeFindings s') p"
proof (cases s)
  case (Cons d cs)
  assume p: "hasPrefix (SanitizeFindings s) (c # p)" and c: "c \<noteq> CHR ''<''"
  show ?thesis
  proof (cases "hasPrefix (d # cs) ''<!--''")
    case True
    then obtain t where "s = ''<!--'' @ t" using Cons by (auto simp: hasPrefix_iff)
    with p c show ?thesis by (simp add: Sanitize_match del: append.simps) (simp split: if_splits)
  next
    case False
    with p Cons show ?thesis by (auto simp: Sanitize_other split: if_splits)
  qed
qed simp

lemma noOpener_Sanitize: "noOpener (SanitizeFindings s)"
proof (induction s rule: length_induct)
  case (1 s)
  show ?case
  proof (cases s)
    case (Cons c cs)
    show ?thesis
    proof (cases "hasPrefix (c # cs) ''<!--''")
      case True
      then obtain t where t: "s = ''<!--'' @ t" using Cons by (auto simp: hasPrefix_iff)
      with 1 have "noOpener (SanitizeFindings t)" by simp
      then have "noOpener ((''<'' @ CHR '' '' # ''!--'') @ SanitizeFindings t)"
        by (simp add: noOpener_Cons)
      with t show ?thesis by (simp add: Sanitize_match del: append.simps) simp
    next
      case False
      have "\<not> hasPrefix (c # SanitizeFindings cs) ''<!--''"
      proof
        assume "hasPrefix (c # SanitizeFindings cs) ''<!--''"
        then have c: "c = CHR ''<''" and "hasPrefix (SanitizeFindings cs) ''!--''"
          by (auto split: if_splits)
        then obtain s1 where s1: "cs = CHR ''!'' # s1" "hasPrefix (SanitizeFindings s1) ''--''"
          using Sanitize_head [of cs "CHR ''!''" "''--''"] by auto
        then obtain s2 where s2: "s1 = CHR ''-'' # s2" "hasPrefix (SanitizeFindings s2) ''-''"
          using Sanitize_head [of s1 "CHR ''-''" "''-''"] by auto
        then obtain s3 where "s2 = CHR ''-'' # s3"
          using Sanitize_head [of s2 "CHR ''-''" "[]"] by auto
        with c s1 s2 False show False by simp
      qed
      with 1 Cons False show ?thesis by (simp add: Sanitize_other noOpener_Cons)
    qed
  qed simp
qed


section \<open>Markers print and parse\<close>

text \<open>
  Everything a controller artifact carries before its marker: no comment opener, and a
  line break at the end.
\<close>

definition framed :: "string \<Rightarrow> bool" where
  "framed pre \<longleftrightarrow> noOpener pre \<and> (pre = [] \<or> last pre = CHR 0x0A)"

text \<open>Field lists a marker can carry: plain tokens, distinct keys.\<close>

definition fieldChar :: "char \<Rightarrow> bool" where
  "fieldChar c \<longleftrightarrow> plainChar c \<and> c \<noteq> CHR ''<'' \<and> c \<noteq> CHR ''>''"

definition isField :: "string \<Rightarrow> bool" where
  "isField s \<longleftrightarrow> list_all fieldChar s"

definition wellFormedFields :: "(string \<times> string) list \<Rightarrow> bool" where
  "wellFormedFields kvs \<longleftrightarrow> kvs \<noteq> [] \<and> distinct (map fst kvs)
     \<and> (\<forall>(k, v)\<in>set kvs. isField k \<and> CHR ''='' \<notin> set k \<and> isField v)"

lemma framed_no_prefix:
  assumes "framed d" and "d \<noteq> []"
  shows "\<not> hasPrefix (d @ r) (''<!--'' @ q)"
proof
  assume "hasPrefix (d @ r) (''<!--'' @ q)"
  then have "hasPrefix (d @ r) ''<!--''" by (auto simp: hasPrefix_iff)
  moreover have "\<not> hasPrefix d ''<!--''"
    using assms(1) unfolding framed_def noOpener_def contains_def
    by (subst (asm) strIndex.simps) auto
  ultimately show False using assms
    by (cases d; cases "tl d"; cases "tl (tl d)"; cases "tl (tl (tl d))")
      (auto simp: framed_def split: if_splits)
qed

lemma framed_drop: "framed pre \<Longrightarrow> framed (drop j pre)"
  using noOpener_infix [of "take j pre" "drop j pre" "[]"]
  by (cases "j < length pre") (auto simp: framed_def)

lemma opener_at_frame:
  "framed pre \<Longrightarrow> strIndex (pre @ (''<!--'' @ q) @ b) (''<!--'' @ q) = Some (length pre)"
  by (rule strIndex_at) (simp add: framed_no_prefix framed_drop del: append.simps)

lemma framed_contains:
  "framed pre \<Longrightarrow> contains (pre @ r) (''<!--'' @ q) = contains r (''<!--'' @ q)"
proof (induction pre)
  case (Cons c pre)
  have "\<not> hasPrefix (c # pre @ r) (''<!--'' @ q)"
    using framed_no_prefix [OF Cons.prems, of r q] by simp
  moreover have "framed pre" using framed_drop [OF Cons.prems, of 1] by simp
  ultimately show ?case using Cons.IH by (auto simp: contains_def strIndex_Cons)
qed simp

lemma parseTokens_fields:
  assumes "distinct (map fst kvs)" and "\<forall>kv\<in>set kvs. CHR ''='' \<notin> set (fst kv)"
    and "\<forall>kv\<in>set kvs. f (fst kv) = None"
  shows "parseTokens name f (map printField kvs) = Inr (f ++ map_of kvs)"
  using assms
proof (induction kvs arbitrary: f)
  case (Cons kv kvs)
  obtain k v where kv: "kv = (k, v)" by force
  have "cutOn CHR ''='' (printField kv) = Some (k, v)"
    using Cons.prems(2) kv by (simp add: printField_def cutOn_split)
  moreover have "parseTokens name (f(k \<mapsto> v)) (map printField kvs) = Inr (f(k \<mapsto> v) ++ map_of kvs)"
    by (rule Cons.IH) (use Cons.prems kv in auto)
  moreover have "f(k \<mapsto> v) ++ map_of kvs = f ++ map_of (kv # kvs)"
    using Cons.prems(1) kv by (simp add: map_add_upd_left dom_map_of_conv_image_fst)
  moreover have "parseTokens name f (map printField (kv # kvs)) =
      parseTokens name (f(k \<mapsto> v)) (map printField kvs)"
    using calculation(1) Cons.prems(3) kv by simp
  ultimately show ?case by (simp only:)
qed simp

lemma drop_frame: "drop (length a + length b) (a @ b @ c) = c"
  by simp

lemma concat_shift:
  "concat (map (\<lambda>kv. CHR '' '' # printField kv) kvs) @ CHR '' '' # r =
   CHR '' '' # concat (map (\<lambda>kv. printField kv @ '' '') kvs) @ r"
  by (induction kvs) auto

lemma tokens_field:
  assumes "wellFormedFields kvs"
  shows "\<forall>w\<in>set (map printField kvs). w \<noteq> [] \<and> isField w"
proof -
  have "\<forall>kv\<in>set kvs. isField (fst kv) \<and> isField (snd kv)"
    using assms by (auto simp: wellFormedFields_def)
  then show ?thesis by (auto simp: isField_def printField_def fieldChar_def plainChar_def byte_def)
qed

lemma tokens_no_angle:
  assumes "wellFormedFields kvs"
  shows "CHR ''<'' \<notin> set (concat (map (\<lambda>kv. printField kv @ '' '') kvs))
    \<and> CHR ''>'' \<notin> set (concat (map (\<lambda>kv. printField kv @ '' '') kvs))"
  using tokens_field [OF assms] by (auto simp: isField_def fieldChar_def list_all_iff)

lemma parseMarker_print:
  assumes pre: "framed pre" and name: "isField name"
    and wf: "wellFormedFields kvs"
  shows "parseMarker (pre @ printMarker name kvs @ nl) name = Inr (map_of kvs)"
proof -
  let ?ws = "map printField kvs"
  let ?opener = "''<!--'' @ '' '' @ name @ '' ''"
  let ?toks = "concat (map (\<lambda>kv. printField kv @ '' '') kvs)"
  have kvs: "\<forall>kv\<in>set kvs. isField (fst kv) \<and> CHR ''='' \<notin> set (fst kv) \<and> isField (snd kv)"
    using wf by (auto simp: wellFormedFields_def)
  have plain: "\<forall>w\<in>set ?ws. w \<noteq> [] \<and> list_all plainChar w"
    using tokens_field [OF wf] by (auto simp: isField_def fieldChar_def list_all_iff)
  have nolt: "CHR ''<'' \<notin> set ?toks" and nogt: "CHR ''>'' \<notin> set ?toks"
    using tokens_no_angle [OF wf] by simp_all
  have body: "pre @ printMarker name kvs @ nl = pre @ (''<!--'' @ '' '' @ name @ '' '') @ (?toks @ ''-->'' @ nl)"
    by (simp add: printMarker_def concat_shift)
  have idx: "strIndex (pre @ printMarker name kvs @ nl) (''<!-- '' @ name @ '' '') = Some (length pre)"
    unfolding body using opener_at_frame [OF pre, of "'' '' @ name @ '' ''" "?toks @ ''-->'' @ nl"] by simp
  have body': "pre @ printMarker name kvs @ nl =
      pre @ (''<!-- '' @ name @ '' '') @ (?toks @ (''--'' @ ''>'') @ nl)"
    unfolding body by simp
  have rest: "drop (length pre + length (''<!-- '' @ name @ '' '')) (pre @ printMarker name kvs @ nl)
      = ?toks @ (''--'' @ ''>'') @ nl"
    by (simp only: body' drop_frame)
  have once: "\<not> contains (?toks @ (''--'' @ ''>'') @ nl) (''<!-- '' @ name @ '' '')"
    by (rule contains_absent_char [of "CHR ''<''"]) (use nolt in \<open>auto simp: nl_def\<close>)
  have stop: "strIndex (?toks @ (''--'' @ ''>'') @ nl) (''--'' @ ''>'') = Some (length ?toks)"
    by (rule strIndex_by_last [OF nogt]) simp
  have toks: "strFields (take (length ?toks) (?toks @ (''--'' @ ''>'') @ nl)) = ?ws"
    using fieldsAcc_words [OF plain] by (simp add: strFields_def comp_def)
  have "parseTokens name Map.empty ?ws = Inr (map_of kvs)"
    using parseTokens_fields [of kvs Map.empty name] wf kvs by (simp add: wellFormedFields_def)
  then show ?thesis
    using idx rest once stop toks by (simp add: parseMarker_def Let_def)
qed

text \<open>
  The contract between the writers and the readers of the controller's artifacts: a
  well-formed marker, framed by whatever the controller wrote before it, is read back
  exactly. The four marker kinds provide it; that printing is injective and that a bare
  marker round-trips follow for each of them.
\<close>

locale marker_codec =
  fixes render :: "'m \<Rightarrow> string"
    and parse :: "string \<Rightarrow> markerError + 'm"
    and valid :: "'m \<Rightarrow> bool"
  assumes parse_framed: "valid m \<Longrightarrow> framed pre \<Longrightarrow> parse (pre @ render m @ nl) = Inr m"
begin

lemma parse_bare: "valid m \<Longrightarrow> parse (render m @ nl) = Inr m"
  using parse_framed [of m "[]"] by (simp add: framed_def)

lemma render_inj: "valid m \<Longrightarrow> valid m' \<Longrightarrow> render m = render m' \<Longrightarrow> m = m'"
  using parse_bare by (metis sum.inject(2))

end

definition validID :: "tid \<Rightarrow> bool" where
  "validID i \<longleftrightarrow> 0 < i \<and> i < 9223372036854775808"

definition validReview :: "ReviewMarker \<Rightarrow> bool" where
  "validReview m \<longleftrightarrow> validID (rmOccurrence m) \<and> validID (rmClaim m) \<and> validID (rmApproval m)
     \<and> isFullSHA (rmHead m) \<and> isFullSHA (rmBase m)
     \<and> (rmVerdict m = VerdictClean \<or> rmVerdict m = VerdictChangesRequested)
     \<and> (rmReviewerProfile m = [] \<or> ValidReviewerProfile (rmReviewerProfile m))"

definition validRoute :: "RouteMarker \<Rightarrow> bool" where
  "validRoute m \<longleftrightarrow> validID (rtOccurrence m) \<and> validID (rtClaim m) \<and> isFullSHA (rtHead m)
     \<and> rtOutcome m \<in> {OutcomeRevise, OutcomeHumanReview, OutcomeRoundCap, OutcomeNoProgress}"

definition validIntent :: "RouteIntentMarker \<Rightarrow> bool" where
  "validIntent m \<longleftrightarrow> validID (riOccurrence m) \<and> validID (riClaim m) \<and> validID (riApproval m)
     \<and> isFullSHA (riHead m) \<and> riOutcome m \<in> {OutcomeHumanReview, OutcomeRoundCap, OutcomeNoProgress}"

definition validBlocked :: "ReviewBlockedMarker \<Rightarrow> bool" where
  "validBlocked m \<longleftrightarrow> validID (rbOccurrence m) \<and> validID (rbClaim m) \<and> validID (rbApproval m)
     \<and> isFullSHA (rbHead m) \<and> ValidBlockReason (rbReason m)"

lemma fieldChar_digit: "isDigit c \<Longrightarrow> fieldChar c"
  by (auto simp: isDigit_def fieldChar_def plainChar_def byte_def)

lemma fieldChar_lower: "isLowerAZ c \<Longrightarrow> fieldChar c"
  by (auto simp: isLowerAZ_def fieldChar_def plainChar_def byte_def)

lemma fieldChar_hex: "hexChar c \<Longrightarrow> fieldChar c"
  by (auto simp: hexChar_def isDigit_def fieldChar_def plainChar_def byte_def)

lemma fields_itoa: "0 \<le> n \<Longrightarrow> isField (itoa n)"
  using itoaNat_digits [of n] by (auto simp: isField_def itoa_def list_all_iff fieldChar_digit)

lemma fields_sha: "isFullSHA s \<Longrightarrow> isField s"
  by (auto simp: isField_def isFullSHA_def list_all_iff fieldChar_hex)

lemma fieldChar_profile: "profileChar c \<Longrightarrow> fieldChar c"
  by (auto simp: profileChar_def fieldChar_lower fieldChar_digit)
    (simp add: fieldChar_def plainChar_def byte_def)

lemma fieldChar_reason: "reasonChar c \<Longrightarrow> fieldChar c"
  by (auto simp: reasonChar_def fieldChar_lower fieldChar_digit)
    (simp_all add: fieldChar_def plainChar_def byte_def)

lemma fields_profile: "ValidReviewerProfile s \<Longrightarrow> isField s"
  by (auto simp: isField_def ValidReviewerProfile_def list_all_iff fieldChar_profile split: if_splits)

lemma fields_reason: "ValidBlockReason s \<Longrightarrow> isField s"
  by (auto simp: isField_def ValidBlockReason_def list_all_iff fieldChar_reason split: if_splits)

lemma fields_verdict:
  "isField VerdictClean" "isField VerdictChangesRequested"
  by (simp_all add: isField_def VerdictClean_def VerdictChangesRequested_def fieldChar_def plainChar_def byte_def)

lemma fields_outcome:
  "isField OutcomeRevise" "isField OutcomeHumanReview"
  "isField OutcomeRoundCap" "isField OutcomeNoProgress"
  by (simp_all add: isField_def OutcomeRevise_def OutcomeHumanReview_def OutcomeRoundCap_def OutcomeNoProgress_def
      fieldChar_def plainChar_def byte_def)

lemma fields_names:
  "isField markerReview" "isField markerRoute"
  "isField markerRouteIntent" "isField markerReviewBlocked"
  by (simp_all add: isField_def markerReview_def markerRoute_def markerRouteIntent_def markerReviewBlocked_def
      fieldChar_def plainChar_def byte_def)

lemma fields_keys:
  "isField ''occurrence''" "isField ''claim''" "isField ''approval''"
  "isField ''head''" "isField ''base''" "isField ''verdict''"
  "isField ''profile''" "isField ''outcome''" "isField ''reason''"
  by (simp_all add: isField_def fieldChar_def plainChar_def byte_def)

lemmas field_facts = fields_itoa fields_sha fields_profile fields_reason fields_verdict fields_outcome
  fields_names fields_keys

lemma fieldID_map: "validID n \<Longrightarrow> f key = Some (itoa n) \<Longrightarrow> fieldID f key = Inr n"
  by (simp add: fieldID_def validID_def parseInt64_itoa)

lemma fieldSHA_map: "isFullSHA s \<Longrightarrow> f key = Some s \<Longrightarrow> fieldSHA f key = Inr s"
  by (simp add: fieldSHA_def fieldOr_def)

lemma reviewFields_wf: "validReview m \<Longrightarrow> wellFormedFields (reviewFields m)"
  by (auto simp: wellFormedFields_def reviewFields_def validReview_def validID_def field_facts)

lemma routeFields_wf: "validRoute m \<Longrightarrow> wellFormedFields (routeFields m)"
  by (auto simp: wellFormedFields_def routeFields_def validRoute_def validID_def field_facts)

lemma intentFields_wf: "validIntent m \<Longrightarrow> wellFormedFields (intentFields m)"
  by (auto simp: wellFormedFields_def intentFields_def validIntent_def validID_def field_facts)

lemma blockedFields_wf: "validBlocked m \<Longrightarrow> wellFormedFields (blockedFields m)"
  by (auto simp: wellFormedFields_def blockedFields_def validBlocked_def validID_def field_facts)

lemma ParseReviewMarker_framed:
  assumes "validReview m" and "framed pre"
  shows "ParseReviewMarker (pre @ ReviewMarker_String m @ nl) = Inr m"
proof -
  have p: "parseMarker (pre @ ReviewMarker_String m @ nl) markerReview = Inr (map_of (reviewFields m))"
    unfolding ReviewMarker_String_def
    by (rule parseMarker_print [OF assms(2) fields_names(1) reviewFields_wf [OF assms(1)]])
  have "fieldOr (map_of (reviewFields m)) ''verdict'' = rmVerdict m"
    by (simp add: reviewFields_def fieldOr_def)
  with assms(1) p show ?thesis
    by (cases "rmReviewerProfile m = []")
      (auto simp: ParseReviewMarker_def validReview_def fieldID_map fieldSHA_map Let_def reviewFields_def)
qed

lemma ParseRouteMarker_framed:
  assumes "validRoute m" and "framed pre"
  shows "ParseRouteMarker (pre @ RouteMarker_String m @ nl) = Inr m"
proof -
  have p: "parseMarker (pre @ RouteMarker_String m @ nl) markerRoute = Inr (map_of (routeFields m))"
    unfolding RouteMarker_String_def
    by (rule parseMarker_print [OF assms(2) fields_names(2) routeFields_wf [OF assms(1)]])
  have "fieldOr (map_of (routeFields m)) ''outcome'' = rtOutcome m"
    by (simp add: routeFields_def fieldOr_def)
  with assms(1) p show ?thesis
    by (auto simp: ParseRouteMarker_def validRoute_def fieldID_map fieldSHA_map Let_def routeFields_def)
qed

lemma ParseRouteIntentMarker_framed:
  assumes "validIntent m" and "framed pre"
  shows "ParseRouteIntentMarker (pre @ RouteIntentMarker_String m @ nl) = Inr m"
proof -
  have p: "parseMarker (pre @ RouteIntentMarker_String m @ nl) markerRouteIntent = Inr (map_of (intentFields m))"
    unfolding RouteIntentMarker_String_def
    by (rule parseMarker_print [OF assms(2) fields_names(3) intentFields_wf [OF assms(1)]])
  have "fieldOr (map_of (intentFields m)) ''outcome'' = riOutcome m"
    by (simp add: intentFields_def fieldOr_def)
  with assms(1) p show ?thesis
    by (auto simp: ParseRouteIntentMarker_def validIntent_def fieldID_map fieldSHA_map Let_def intentFields_def)
qed

lemma ParseReviewBlockedMarker_framed:
  assumes "validBlocked m" and "framed pre"
  shows "ParseReviewBlockedMarker (pre @ ReviewBlockedMarker_String m @ nl) = Inr m"
proof -
  have p: "parseMarker (pre @ ReviewBlockedMarker_String m @ nl) markerReviewBlocked = Inr (map_of (blockedFields m))"
    unfolding ReviewBlockedMarker_String_def
    by (rule parseMarker_print [OF assms(2) fields_names(4) blockedFields_wf [OF assms(1)]])
  have "fieldOr (map_of (blockedFields m)) ''reason'' = rbReason m"
    by (simp add: blockedFields_def fieldOr_def)
  with assms(1) p show ?thesis
    by (auto simp: ParseReviewBlockedMarker_def validBlocked_def fieldID_map fieldSHA_map Let_def blockedFields_def)
qed

interpretation review_codec: marker_codec ReviewMarker_String ParseReviewMarker validReview
  by unfold_locales (rule ParseReviewMarker_framed)

interpretation route_codec: marker_codec RouteMarker_String ParseRouteMarker validRoute
  by unfold_locales (rule ParseRouteMarker_framed)

interpretation intent_codec: marker_codec RouteIntentMarker_String ParseRouteIntentMarker validIntent
  by unfold_locales (rule ParseRouteIntentMarker_framed)

interpretation blocked_codec: marker_codec ReviewBlockedMarker_String ParseReviewBlockedMarker validBlocked
  by unfold_locales (rule ParseReviewBlockedMarker_framed)

section \<open>What frames a marker\<close>

lemma framed_nl: "noOpener a \<Longrightarrow> framed (a @ nl @ nl)"
  using noOpener_sep [of "CHR 0x0A" a "[CHR 0x0A]"]
  by (simp add: framed_def nl_def noOpener_Cons)

lemma no_lt_field: "isField s \<Longrightarrow> CHR ''<'' \<notin> set s"
  by (auto simp: isField_def list_all_iff fieldChar_def)

lemma no_lt_consts: "CHR ''<'' \<notin> set nl" "CHR ''<'' \<notin> set bt" "CHR ''<'' \<notin> set reviewHeader"
  by (simp_all add: nl_def bt_def reviewHeader_def)

lemma noOpener_published: "noOpener (publishedFindings findings)"
proof -
  let ?f = "trimSpace (SanitizeFindings findings)"
  have f: "noOpener ?f" by (rule noOpener_trim [OF noOpener_Sanitize])
  have "noOpener (take maxFindings ?f @ CHR 0x0A # (CHR 0x0A # ''_(truncated)_''))"
    by (rule noOpener_sep) (auto simp: noOpener_take [OF f] intro!: noOpener_no_lt)
  with f show ?thesis
    by (simp add: publishedFindings_def Let_def nl_def noOpener_no_lt)
qed

lemma ReviewBody_frame:
  assumes "validReview m"
  shows "\<exists>pre. framed pre \<and> ReviewBody m findings = pre @ ReviewMarker_String m @ nl"
proof -
  let ?a = "reviewHeader @ ''- verdict: '' @ bt @ rmVerdict m @ bt @ nl @ ''- head: '' @ bt @ rmHead m @ bt @ nl
     @ (if rmReviewerProfile m \<noteq> [] then ''- reviewer profile: '' @ bt @ rmReviewerProfile m @ bt @ nl else []) @ nl"
  have "CHR ''<'' \<notin> set (rmVerdict m)" "CHR ''<'' \<notin> set (rmHead m)" "CHR ''<'' \<notin> set (rmReviewerProfile m)"
    using assms by (auto simp: validReview_def no_lt_field field_facts)
  then have "CHR ''<'' \<notin> set ?a" by (simp add: no_lt_consts)
  then have "framed ((?a @ publishedFindings findings) @ nl @ nl)"
    by (intro framed_nl noOpener_plain noOpener_published)
  then show ?thesis by (intro exI conjI) (assumption, simp add: ReviewBody_def)
qed

lemma RouteBody_frame:
  assumes "validRoute m"
  shows "\<exists>pre. framed pre \<and> RouteBody m why = pre @ RouteMarker_String m @ nl"
proof -
  let ?a = "''**Review controller** routed occurrence '' @ bt @ itoa (rtOccurrence m) @ bt @ '' to ''
     @ bt @ rtOutcome m @ bt @ ''.'' @ nl @ nl @ ''- head: '' @ bt @ rtHead m @ bt @ nl @ ''- reason: ''"
  have "CHR ''<'' \<notin> set (itoa (rtOccurrence m))" "CHR ''<'' \<notin> set (rtHead m)" "CHR ''<'' \<notin> set (rtOutcome m)"
    using assms by (auto simp: validRoute_def validID_def no_lt_field field_facts)
  then have "CHR ''<'' \<notin> set ?a" by (simp add: no_lt_consts)
  then have "framed ((?a @ trimSpace (SanitizeFindings why)) @ nl @ nl)"
    by (intro framed_nl noOpener_plain noOpener_trim noOpener_Sanitize)
  then show ?thesis by (intro exI conjI) (assumption, simp add: RouteBody_def)
qed

lemma RouteIntentBody_frame:
  assumes "validIntent m"
  shows "\<exists>pre. framed pre \<and> RouteIntentBody m why = pre @ RouteIntentMarker_String m @ nl"
proof -
  let ?a = "''**Review controller** prepared terminal route '' @ bt @ riOutcome m @ bt @ '' for occurrence ''
     @ bt @ itoa (riOccurrence m) @ bt @ ''.'' @ nl @ nl @ ''- head: '' @ bt @ riHead m @ bt @ nl
     @ ''- approval event: '' @ bt @ itoa (riApproval m) @ bt @ nl @ ''- reason: ''"
  have "CHR ''<'' \<notin> set (itoa (riOccurrence m))" "CHR ''<'' \<notin> set (itoa (riApproval m))"
    "CHR ''<'' \<notin> set (riHead m)" "CHR ''<'' \<notin> set (riOutcome m)"
    using assms by (auto simp: validIntent_def validID_def no_lt_field field_facts)
  then have "CHR ''<'' \<notin> set ?a" by (simp add: no_lt_consts)
  then have "framed ((?a @ trimSpace (SanitizeFindings why)) @ nl @ nl)"
    by (intro framed_nl noOpener_plain noOpener_trim noOpener_Sanitize)
  then show ?thesis by (intro exI conjI) (assumption, simp add: RouteIntentBody_def)
qed


lemma if_prefix: "P (x @ y) \<Longrightarrow> P y \<Longrightarrow> P ((if c then x else []) @ y)"
  by simp

lemma ReviewBlockedBody_frame:
  assumes "validBlocked m"
  shows "\<exists>pre. framed pre \<and> ReviewBlockedBody m detail = pre @ ReviewBlockedMarker_String m @ nl"
proof -
  let ?a = "''**Review controller** could not start the independent review of head '' @ bt @ rbHead m @ bt @ ''.'' @ nl @ nl
     @ ''The execution substrate refused to admit the reviewer run ('' @ bt @ rbReason m @ bt
     @ ''), so no review was produced and none will be until the request or the substrate'' @ [CHR 0x27]
     @ ''s limits change. ''
     @ ''This is not a verdict on the change: the pull request still needs a human code owner'' @ [CHR 0x27]
     @ ''s review, and BEN'' @ [CHR 0x27] @ ''s assignment and the approval label are untouched.'' @ nl @ nl"
  let ?d = "trimSpace (SanitizeFindings detail)"
  let ?o = "''- occurrence: '' @ bt @ itoa (rbOccurrence m) @ bt"
  have n: "CHR ''<'' \<notin> set (itoa (rbOccurrence m))" "CHR ''<'' \<notin> set (rbHead m)" "CHR ''<'' \<notin> set (rbReason m)"
    using assms by (auto simp: validBlocked_def validID_def no_lt_field field_facts)
  then have a: "CHR ''<'' \<notin> set ?a" and o: "noOpener ?o"
    by (simp_all add: no_lt_consts noOpener_no_lt)
  have "noOpener (?d @ CHR 0x0A # ?o)"
    by (intro noOpener_sep noOpener_trim noOpener_Sanitize o) simp
  then have "noOpener (''- detail: '' @ ?d @ nl @ ?o)"
    using noOpener_plain [of "''- detail: ''" "?d @ nl @ ?o"] by (simp add: nl_def)
  then have "noOpener ((''- detail: '' @ ?d @ nl) @ ?o)" by simp
  from framed_nl [OF noOpener_plain [OF a if_prefix [where P = noOpener, OF this o]]]
  have "framed ((?a @ (if ?d \<noteq> [] then ''- detail: '' @ ?d @ nl else []) @ ?o) @ nl @ nl)" .
  then show ?thesis by (intro exI conjI) (assumption, simp add: ReviewBlockedBody_def Let_def)
qed

text \<open>A marker of one kind is not seen by a reader of another.\<close>

lemma parseMarker_other_kind:
  assumes "framed pre" and "isField name" and "wellFormedFields kvs"
    and other: "\<And>x. \<not> hasPrefix (name @ '' '' @ x) (other @ '' '')"
  shows "parseMarker (pre @ printMarker name kvs @ nl) other = Inl ErrNoMarker"
proof -
  let ?opener = "''<!--'' @ '' '' @ other @ '' ''"
  let ?toks = "concat (map (\<lambda>kv. printField kv @ '' '') kvs)"
  let ?r = "'' '' @ name @ '' '' @ ?toks @ ''-->'' @ nl"
  have m: "printMarker name kvs @ nl = ''<!--'' @ ?r"
    by (simp add: printMarker_def concat_shift)
  have "CHR ''<'' \<notin> set ?toks" using tokens_no_angle [OF assms(3)] by simp
  then have lt: "CHR ''<'' \<notin> set (''!--'' @ ?r)"
    using no_lt_field [OF assms(2)] by (auto simp: nl_def)
  have "\<not> contains (''!--'' @ ?r) ?opener"
    by (rule contains_absent_char [OF _ lt]) simp
  moreover have "\<not> hasPrefix (CHR ''<'' # ''!--'' @ ?r) ?opener"
    using other [of "?toks @ ''-->'' @ nl"] by simp
  ultimately have "\<not> contains (printMarker name kvs @ nl) ?opener"
    unfolding m by (simp add: contains_def strIndex_Cons)
  then have "\<not> contains (pre @ printMarker name kvs @ nl) ?opener"
    using framed_contains [OF assms(1)] by simp
  then show ?thesis by (simp add: parseMarker_def contains_def Let_def)
qed

lemma kinds_differ:
  "\<not> hasPrefix (markerRoute @ '' '' @ x) (markerRouteIntent @ '' '')"
  "\<not> hasPrefix (markerRouteIntent @ '' '' @ x) (markerRoute @ '' '')"
  "\<not> hasPrefix (markerReview @ '' '' @ x) (markerReviewBlocked @ '' '')"
  "\<not> hasPrefix (markerReviewBlocked @ '' '' @ x) (markerReview @ '' '')"
  "\<not> hasPrefix (markerReviewBlocked @ '' '' @ x) (markerRoute @ '' '')"
  "\<not> hasPrefix (markerReviewBlocked @ '' '' @ x) (markerRouteIntent @ '' '')"
  by (simp_all add: markerRoute_def markerRouteIntent_def markerReview_def markerReviewBlocked_def)

lemma parseInt64_range: "parseInt64 s = Some n \<Longrightarrow> n < 9223372036854775808"
proof -
  assume p: "parseInt64 s = Some n"
  have nn: "0 \<le> a \<Longrightarrow> digitsAcc a ds = Some k \<Longrightarrow> 0 \<le> k" for a ds k
    by (induction a ds rule: digitsAcc.induct) (auto simp: isDigit_def split: if_splits)
  from p show ?thesis
    by (auto simp: parseInt64_def Let_def dest!: nn [of 0, simplified] split: list.splits option.splits if_splits)
qed

lemma fieldID_valid: "fieldID f k = Inr n \<Longrightarrow> validID n"
  by (auto simp: fieldID_def validID_def dest: parseInt64_range split: option.splits if_splits)

lemma fieldSHA_valid: "fieldSHA f k = Inr s \<Longrightarrow> isFullSHA s"
  by (auto simp: fieldSHA_def Let_def split: if_splits)

lemma andThen_Inr: "andThen x f = Inr y \<longleftrightarrow> (\<exists>a. x = Inr a \<and> f a = Inr y)"
  by (cases x) auto

lemma ParseRouteMarker_valid: "ParseRouteMarker body = Inr m \<Longrightarrow> validRoute m"
  by (auto simp: ParseRouteMarker_def validRoute_def andThen_Inr Let_def
      dest: fieldID_valid fieldSHA_valid split: if_splits)

lemma ParseRouteIntentMarker_valid: "ParseRouteIntentMarker body = Inr m \<Longrightarrow> validIntent m"
  by (auto simp: ParseRouteIntentMarker_def validIntent_def andThen_Inr Let_def
      dest: fieldID_valid fieldSHA_valid split: if_splits)

lemma ParseReviewBlockedMarker_valid: "ParseReviewBlockedMarker body = Inr m \<Longrightarrow> validBlocked m"
  by (auto simp: ParseReviewBlockedMarker_def validBlocked_def andThen_Inr Let_def
      dest: fieldID_valid fieldSHA_valid split: if_splits)

lemma approval_field:
  "(if f k = None then Inr 0 else fieldID f k) = Inr a \<Longrightarrow> a = 0 \<or> validID a"
  using fieldID_valid by (auto split: if_splits)

lemma profile_field:
  "(case f k of None \<Rightarrow> Inr [] | Some p \<Rightarrow> if ValidReviewerProfile p then Inr p else Inl (e p)) = Inr q \<Longrightarrow>
   q = [] \<or> ValidReviewerProfile q"
  by (auto split: option.splits if_splits)

lemma closed_field: "(if c then Inr r else Inl e) = Inr m \<Longrightarrow> c \<and> m = r"
  by (auto split: if_splits)

text \<open>A review marker that parses is well formed, but for an approval that the legacy shape omits.\<close>

definition parsedReview :: "ReviewMarker \<Rightarrow> bool" where
  "parsedReview m \<longleftrightarrow> validID (rmOccurrence m) \<and> validID (rmClaim m)
     \<and> (rmApproval m = 0 \<or> validID (rmApproval m)) \<and> isFullSHA (rmHead m) \<and> isFullSHA (rmBase m)
     \<and> (rmVerdict m = VerdictClean \<or> rmVerdict m = VerdictChangesRequested)
     \<and> (rmReviewerProfile m = [] \<or> ValidReviewerProfile (rmReviewerProfile m))"

lemma ParseReviewMarker_valid:
  assumes "ParseReviewMarker body = Inr m"
  shows "parsedReview m"
proof -
  from assms obtain f occ claim approval head base profile where
    fs: "fieldID f ''occurrence'' = Inr occ" "fieldID f ''claim'' = Inr claim"
    "(if f ''approval'' = None then Inr 0 else fieldID f ''approval'') = Inr approval"
    "fieldSHA f ''head'' = Inr head" "fieldSHA f ''base'' = Inr base"
    "(case f ''profile'' of None \<Rightarrow> Inr [] | Some p \<Rightarrow>
        if ValidReviewerProfile p then Inr p else Inl (ErrMalformedMarker (InvalidProfile p))) = Inr profile"
    and fin: "(let v = fieldOr f ''verdict'' in if v = VerdictClean \<or> v = VerdictChangesRequested
        then Inr \<lparr>rmOccurrence = occ, rmClaim = claim, rmApproval = approval, rmHead = head,
                  rmBase = base, rmVerdict = v, rmReviewerProfile = profile\<rparr>
        else Inl (ErrMalformedMarker (VerdictOutside v))) = Inr m"
    unfolding ParseReviewMarker_def andThen_Inr by blast
  show ?thesis
    using closed_field [OF fin [unfolded Let_def]] fieldID_valid [OF fs(1)] fieldID_valid [OF fs(2)]
      approval_field [of f "''approval''" approval] fs(3) fieldSHA_valid [OF fs(4)] fieldSHA_valid [OF fs(5)] 
      profile_field [of "\<lambda>p. ErrMalformedMarker (InvalidProfile p)" f "''profile''" profile] fs(6)
    unfolding parsedReview_def by auto
qed

lemma Sanitize_clean: "noOpener s \<Longrightarrow> SanitizeFindings s = s"
  by (induction s) (auto simp: noOpener_Cons Sanitize_other)

lemma RouteIntentBody_no_route:
  assumes "validIntent i"
  shows "ParseRouteMarker (RouteIntentBody i why) = Inl ErrNoMarker"
proof -
  obtain q where q: "framed q" "RouteIntentBody i why = q @ RouteIntentMarker_String i @ nl"
    using RouteIntentBody_frame [OF assms] by blast
  have "parseMarker (RouteIntentBody i why) markerRoute = Inl ErrNoMarker"
    unfolding q(2) RouteIntentMarker_String_def
    by (rule parseMarker_other_kind [OF q(1) fields_names(3) intentFields_wf [OF assms] kinds_differ(2)])
  then show ?thesis by (simp add: ParseRouteMarker_def)
qed

lemma RouteIntentBody_parse:
  assumes "validIntent i"
  shows "ParseRouteIntentMarker (RouteIntentBody i why) = Inr i"
  using RouteIntentBody_frame [OF assms, of why] intent_codec.parse_framed [OF assms] by auto

section \<open>Properties\<close>

text \<open>Markers for the witnesses.\<close>

definition someSHA :: string where "someSHA = replicate 40 CHR ''a''"

definition someReview :: ReviewMarker where
  "someReview = \<lparr>rmOccurrence = 3, rmClaim = 2, rmApproval = 1, rmHead = someSHA, rmBase = someSHA,
     rmVerdict = VerdictClean, rmReviewerProfile = ''deep''\<rparr>"

definition someRoute :: RouteMarker where
  "someRoute = \<lparr>rtOccurrence = 3, rtClaim = 2, rtHead = someSHA, rtOutcome = OutcomeRevise\<rparr>"

definition someIntent :: RouteIntentMarker where
  "someIntent = \<lparr>riOccurrence = 3, riClaim = 2, riApproval = 1, riHead = someSHA, riOutcome = OutcomeRoundCap\<rparr>"

definition someBlocked :: ReviewBlockedMarker where
  "someBlocked = \<lparr>rbOccurrence = 3, rbClaim = 2, rbApproval = 1, rbHead = someSHA, rbReason = ''quota''\<rparr>"

lemma some_valid: "validReview someReview" "validRoute someRoute" "validIntent someIntent" "validBlocked someBlocked"
  by code_simp+

text \<open>Neutralized text never contains a comment opener, and text without one is
  published unchanged.\<close>

theorem SanitizeFindings_neutralizes:
  "\<not> contains (SanitizeFindings s) ''<!--'' \<and> (\<not> contains s ''<!--'' \<longrightarrow> SanitizeFindings s = s)"
  using noOpener_Sanitize [of s] Sanitize_clean [of s] by (simp add: noOpener_def)

theorem SanitizeFindings_neutralizes_witness:
  "SanitizeFindings ''a < b'' = ''a < b''"
proof -
  have "\<not> contains ''a < b'' ''<!--''" by code_simp
  then show ?thesis using SanitizeFindings_neutralizes [of "''a < b''"] by blast
qed

text \<open>C36. Whatever text the reviewer model wrote as its findings, the review the controller
  publishes is read back as exactly the marker the controller wrote: the findings can
  neither replace the marker nor make it ambiguous.\<close>

theorem ReviewBody_marker_unforgeable:
  assumes "validReview m"
  shows "ParseReviewMarker (ReviewBody m findings) = Inr m"
proof -
  obtain pre where "framed pre" "ReviewBody m findings = pre @ ReviewMarker_String m @ nl"
    using ReviewBody_frame [OF assms] by blast
  then show ?thesis using review_codec.parse_framed [OF assms] by simp
qed

theorem ReviewBody_marker_unforgeable_witness:
  "ParseReviewMarker (ReviewBody someReview (ReviewMarker_String someReview)) = Inr someReview"
  by (rule ReviewBody_marker_unforgeable [OF some_valid(1)])

text \<open>C37. A posted route, terminal intent or blocked statement is read back exactly as
  written, whatever reason text it carries.\<close>

theorem artifact_bodies_read_back:
  assumes "validRoute r" and "validIntent i" and "validBlocked b"
  shows "ParseRouteMarker (RouteBody r why) = Inr r
    \<and> ParseRouteIntentMarker (RouteIntentBody i why) = Inr i
    \<and> ParseReviewBlockedMarker (ReviewBlockedBody b why) = Inr b"
  using RouteBody_frame [OF assms(1), of why] RouteIntentBody_frame [OF assms(2), of why]
    ReviewBlockedBody_frame [OF assms(3), of why] route_codec.parse_framed [OF assms(1)]
    intent_codec.parse_framed [OF assms(2)] blocked_codec.parse_framed [OF assms(3)]
  by metis

theorem artifact_bodies_read_back_witness:
  "ParseRouteMarker (RouteBody someRoute ''<!-- ben:route '') = Inr someRoute"
  using artifact_bodies_read_back [OF some_valid(2-4)] by blast

text \<open>The marker kinds do not shadow each other although one name is a prefix of
  another: a route is not an intent, an intent is not a completed route, and a blocked
  statement is neither of them and no review.\<close>

theorem marker_kinds_disjoint:
  assumes "validRoute r" and "validIntent i" and "validBlocked b"
  shows "ParseRouteIntentMarker (RouteBody r why) = Inl ErrNoMarker
    \<and> ParseRouteMarker (RouteIntentBody i why) = Inl ErrNoMarker
    \<and> ParseReviewMarker (ReviewBlockedBody b why) = Inl ErrNoMarker
    \<and> ParseRouteMarker (ReviewBlockedBody b why) = Inl ErrNoMarker"
proof -
  obtain p where p: "framed p" "RouteBody r why = p @ RouteMarker_String r @ nl"
    using RouteBody_frame [OF assms(1)] by blast
  obtain t where t: "framed t" "ReviewBlockedBody b why = t @ ReviewBlockedMarker_String b @ nl"
    using ReviewBlockedBody_frame [OF assms(3)] by blast
  have "parseMarker (RouteBody r why) markerRouteIntent = Inl ErrNoMarker"
    unfolding p(2) RouteMarker_String_def
    by (rule parseMarker_other_kind [OF p(1) fields_names(2) routeFields_wf [OF assms(1)] kinds_differ(1)])
  moreover have "parseMarker (ReviewBlockedBody b why) markerReview = Inl ErrNoMarker"
    unfolding t(2) ReviewBlockedMarker_String_def
    by (rule parseMarker_other_kind [OF t(1) fields_names(4) blockedFields_wf [OF assms(3)] kinds_differ(4)])
  moreover have "parseMarker (ReviewBlockedBody b why) markerRoute = Inl ErrNoMarker"
    unfolding t(2) ReviewBlockedMarker_String_def
    by (rule parseMarker_other_kind [OF t(1) fields_names(4) blockedFields_wf [OF assms(3)] kinds_differ(5)])
  ultimately show ?thesis
    using RouteIntentBody_no_route [OF assms(2)]
    by (simp add: ParseRouteIntentMarker_def ParseRouteMarker_def ParseReviewMarker_def)
qed

theorem marker_kinds_disjoint_witness:
  "ParseRouteIntentMarker (RouteBody someRoute []) = Inl ErrNoMarker
   \<and> ParseRouteMarker (RouteIntentBody someIntent []) = Inl ErrNoMarker"
  using marker_kinds_disjoint [OF some_valid(2-4)] by blast

end
