(* ===== verification/RevMilestone.thy ===== *)
theory RevMilestone
  imports RevMarker
begin

text \<open>
  \<open>internal/review/milestone.go\<close>: the published milestones that trigger a round, the
  pull-request link they carry, and the subject validation every routing decision sits
  behind. The part of \<open>net/url.Parse\<close> the code uses and the regular expression of the
  closing keywords are modelled with their matching order.
\<close>

section \<open>Pull-request URLs\<close>

record URL =
  urlScheme :: string
  urlHost :: string
  urlHasUser :: bool
  urlOpaque :: string
  urlRawQuery :: string
  urlForceQuery :: bool
  urlFragment :: string
  urlPath :: string
  urlRawPath :: string

definition isAlpha :: "char \<Rightarrow> bool" where
  "isAlpha c \<longleftrightarrow> isLowerAZ c \<or> isUpperAZ c"

definition isCTL :: "char \<Rightarrow> bool" where
  "isCTL c \<longleftrightarrow> byte c < 32 \<or> byte c = 127"

text \<open>\<open>getScheme\<close>: \<open>None\<close> for a missing scheme before the colon.\<close>

fun getSchemeFrom :: "string \<Rightarrow> string \<Rightarrow> (string \<times> string) option option" where
  "getSchemeFrom acc [] = Some None"
| "getSchemeFrom acc (c # cs) =
     (if isAlpha c then getSchemeFrom (acc @ [c]) cs
      else if isDigit c \<or> c = CHR ''+'' \<or> c = CHR ''-'' \<or> c = CHR ''.'' then
        (if acc = [] then Some None else getSchemeFrom (acc @ [c]) cs)
      else if c = CHR '':'' then (if acc = [] then None else Some (Some (acc, cs)))
      else Some None)"

definition hexVal :: "char \<Rightarrow> int option" where
  "hexVal c = (if isDigit c then Some (byte c - 48)
     else if 97 \<le> byte c \<and> byte c \<le> 102 then Some (byte c - 87)
     else if 65 \<le> byte c \<and> byte c \<le> 70 then Some (byte c - 55) else None)"

text \<open>\<open>unescape\<close> in the path mode.\<close>

fun unescapePath :: "string \<Rightarrow> string option" where
  "unescapePath [] = Some []"
| "unescapePath (c # cs) =
     (if c = CHR ''%'' then
        (case cs of
           a # b # rest \<Rightarrow>
             (case (hexVal a, hexVal b) of
                (Some x, Some y) \<Rightarrow> map_option ((#) (char_of (16 * x + y))) (unescapePath rest)
              | _ \<Rightarrow> None)
         | _ \<Rightarrow> None)
      else map_option ((#) c) (unescapePath cs))"

definition hexDigit :: "int \<Rightarrow> char" where
  "hexDigit d = ''0123456789ABCDEF'' ! nat d"

text \<open>\<open>escape\<close> in the path mode: which bytes the default encoding leaves alone.\<close>

definition pathPlain :: "char \<Rightarrow> bool" where
  "pathPlain c \<longleftrightarrow> isAlpha c \<or> isDigit c \<or> c \<in> set ''-_.~$&+,/:;=@''"

definition escapePath :: "string \<Rightarrow> string" where
  "escapePath s = concat (map (\<lambda>c. if pathPlain c then [c]
     else [CHR ''%'', hexDigit (byte c div 16), hexDigit (byte c mod 16)]) s)"

definition emptyURL :: URL where
  "emptyURL = \<lparr>urlScheme = [], urlHost = [], urlHasUser = False, urlOpaque = [], urlRawQuery = [],
     urlForceQuery = False, urlFragment = [], urlPath = [], urlRawPath = []\<rparr>"

definition cutQuery :: "string \<Rightarrow> string \<times> string \<times> bool" where
  "cutQuery rest =
     (if rest \<noteq> [] \<and> last rest = CHR ''?'' \<and> length (filter (\<lambda>c. c = CHR ''?'') rest) = 1
      then (butlast rest, [], True)
      else (case cutOn CHR ''?'' rest of None \<Rightarrow> (rest, [], False) | Some (a, q) \<Rightarrow> (a, q, False)))"

text \<open>
  \<open>url.Parse\<close> of a string whose scheme is not empty; a relative reference, which the code
  refuses for its empty scheme, is \<open>emptyURL\<close>. A fragment is kept undecoded: it decodes to
  the empty string only when it is empty. An authority with a user part is refused by the
  code, so only its presence is kept.
\<close>

definition urlParse :: "runtime \<Rightarrow> string \<Rightarrow> URL option" where
  "urlParse u raw =
     (let (body, frag) = (case cutOn CHR ''#'' raw of None \<Rightarrow> (raw, []) | Some p \<Rightarrow> p)
      in if list_ex isCTL body then None
         else case getSchemeFrom [] body of
           None \<Rightarrow> None
         | Some None \<Rightarrow> Some emptyURL
         | Some (Some (scheme, rest0)) \<Rightarrow>
             let (rest, query, force) = cutQuery rest0;
                 base = emptyURL\<lparr>urlScheme := toLower u scheme, urlRawQuery := query,
                                 urlForceQuery := force, urlFragment := frag\<rparr>;
                 withPath = (\<lambda>b p. case unescapePath p of
                               None \<Rightarrow> None
                             | Some path \<Rightarrow> Some (b\<lparr>urlPath := path,
                                 urlRawPath := (if escapePath path = p then [] else p)\<rparr>))
             in if \<not> hasPrefix rest ''/'' then Some (base\<lparr>urlOpaque := rest\<rparr>)
                else if hasPrefix rest ''//'' then
                  (let auth = takeWhile (\<lambda>c. c \<noteq> CHR ''/'') (drop 2 rest);
                       path = dropWhile (\<lambda>c. c \<noteq> CHR ''/'') (drop 2 rest);
                       hasUser = list_ex (\<lambda>c. c = CHR ''@'') auth;
                       host = rev (takeWhile (\<lambda>c. c \<noteq> CHR ''@'') (rev auth))
                   in case hostOf u host of
                        None \<Rightarrow> None
                      | Some h \<Rightarrow> withPath (base\<lparr>urlHost := h, urlHasUser := hasUser\<rparr>) path)
                else withPath base rest)"

datatype prURLError = NotPullRequestURL string | NoPullRequestNumber string

definition nameChar :: "char \<Rightarrow> bool" where
  "nameChar c \<longleftrightarrow> isAlpha c \<or> isDigit c \<or> c = CHR ''.'' \<or> c = CHR ''_'' \<or> c = CHR ''-''"

definition ParsePRURL :: "runtime \<Rightarrow> string \<Rightarrow> prURLError + (string \<times> string \<times> int)" where
  "ParsePRURL u raw =
     (case urlParse u (trimSpace raw) of
        None \<Rightarrow> Inl (NotPullRequestURL raw)
      | Some l \<Rightarrow>
          if urlScheme l \<noteq> ''https'' \<or> urlHost l = [] \<or> urlHasUser l \<or> urlOpaque l \<noteq> []
             \<or> urlRawQuery l \<noteq> [] \<or> urlForceQuery l \<or> urlFragment l \<noteq> [] \<or> urlRawPath l \<noteq> []
          then Inl (NotPullRequestURL raw)
          else (case splitOn CHR ''/'' (urlPath l) of
                  [p0, p1, p2, p3, p4] \<Rightarrow>
                    if p0 \<noteq> [] \<or> p3 \<noteq> ''pull'' \<or> p1 = [] \<or> \<not> list_all nameChar p1
                       \<or> p2 = [] \<or> \<not> list_all nameChar p2
                    then Inl (NotPullRequestURL raw)
                    else (case parseInt64 p4 of
                            None \<Rightarrow> Inl (NoPullRequestNumber raw)
                          | Some n \<Rightarrow> if n \<le> 0 then Inl (NoPullRequestNumber raw) else Inr (p1, p2, n))
                | _ \<Rightarrow> Inl (NotPullRequestURL raw)))"

section \<open>Closing keywords\<close>

text \<open>
  The regular expression is matched with the leftmost-first order of the library: the
  candidates of each piece are listed in the order a backtracking matcher tries them, and
  the first complete candidate is the match. Under the flag \<open>(?i)\<close> a letter also matches
  its case variants, which for \<open>s\<close> include U+017F and for the class \<open>[A-Za-z]\<close> U+017F and
  U+212A; \<open>\\b\<close> and \<open>\\s\<close> are ASCII.
\<close>

definition isWord :: "char \<Rightarrow> bool" where
  "isWord c \<longleftrightarrow> isAlpha c \<or> isDigit c \<or> c = CHR ''_''"

definition longS :: string where "longS = [CHR 0xC5, CHR 0xBF]"
definition kelvin :: string where "kelvin = [CHR 0xE2, CHR 0x84, CHR 0xAA]"

text \<open>The width of the case-insensitive match of one lower-case letter, 0 for none.\<close>

definition letterWidth :: "char \<Rightarrow> string \<Rightarrow> nat" where
  "letterWidth l s =
     (case s of
        [] \<Rightarrow> 0
      | c # _ \<Rightarrow> if asciiLower (byte c) = byte l then 1
                 else if l = CHR ''s'' \<and> hasPrefix s longS then 2 else 0)"

fun matchLetters :: "string \<Rightarrow> string \<Rightarrow> string option" where
  "matchLetters [] s = Some s"
| "matchLetters (l # ls) s =
     (if letterWidth l s = 0 then None else matchLetters ls (drop (letterWidth l s) s))"

definition nameWidth :: "string \<Rightarrow> nat" where
  "nameWidth s =
     (case s of
        [] \<Rightarrow> 0
      | c # _ \<Rightarrow> if nameChar c then 1
                 else if hasPrefix s longS then 2 else if hasPrefix s kelvin then 3 else 0)"

definition spaceClassWidth :: "string \<Rightarrow> nat" where
  "spaceClassWidth s =
     (case s of [] \<Rightarrow> 0
      | c # _ \<Rightarrow> if c \<in> set [CHR 0x09, CHR 0x0A, CHR 0x0C, CHR 0x0D, CHR 0x20] then 1 else 0)"

definition digitWidth :: "string \<Rightarrow> nat" where
  "digitWidth s = (case s of [] \<Rightarrow> 0 | c # _ \<Rightarrow> if isDigit c then 1 else 0)"

text \<open>The matches of a repeated class, longest first, as (matched, rest).\<close>

function plusMatches :: "(string \<Rightarrow> nat) \<Rightarrow> string \<Rightarrow> string \<Rightarrow> (string \<times> string) list" where
  "plusMatches w acc s =
     (if w s = 0 \<or> s = [] then []
      else plusMatches w (acc @ take (w s) s) (drop (w s) s)
           @ [(acc @ take (w s) s, drop (w s) s)])"
  by pat_completeness auto
termination
  by (relation "measure (\<lambda>(w, acc, s). length s)") auto

declare plusMatches.simps [simp del]

definition optList :: "'a option \<Rightarrow> 'a list" where
  "optList x = (case x of None \<Rightarrow> [] | Some a \<Rightarrow> [a])"

text \<open>\<open>close[sd]?|fix(?:e[sd])?|resolve[sd]?\<close>, each with its optional suffix tried first.\<close>

definition keywordRests :: "string \<Rightarrow> string list" where
  "keywordRests s = List.maps (\<lambda>kw. optList (matchLetters kw s))
     [''closes'', ''closed'', ''close'', ''fixes'', ''fixed'', ''fix'', ''resolves'', ''resolved'', ''resolve'']"

definition repoMatches :: "string \<Rightarrow> ((string \<times> string) \<times> string) list" where
  "repoMatches s =
     List.maps (\<lambda>(owner, r1).
       case r1 of
         c # r2 \<Rightarrow> if c = CHR ''/'' then map (\<lambda>(repo, r3). ((owner, repo), r3)) (plusMatches nameWidth [] r2) else []
       | [] \<Rightarrow> []) (plusMatches nameWidth [] s)
     @ [(([], []), s)]"

definition numberMatches :: "string \<Rightarrow> (string \<times> string) list" where
  "numberMatches s =
     (case s of
        c # r \<Rightarrow> if c = CHR ''#'' then
           filter (\<lambda>(n, rest). rest = [] \<or> \<not> isWord (hd rest)) (plusMatches digitWidth [] r) else []
      | [] \<Rightarrow> [])"

definition closingMatches :: "string \<Rightarrow> ((string \<times> string \<times> string) \<times> string) list" where
  "closingMatches s =
     List.maps (\<lambda>r1.
       List.maps (\<lambda>(_, r2).
         List.maps (\<lambda>((owner, repo), r3).
           map (\<lambda>(n, r4). ((owner, repo, n), r4)) (numberMatches r3))
         (repoMatches r2))
       (plusMatches spaceClassWidth [] r1))
     (keywordRests s)"

lemma plusMatches_suffix:
  "(m, r) \<in> set (plusMatches w acc s) \<Longrightarrow> length r < length s"
proof (induction w acc s rule: plusMatches.induct)
  case (1 w acc s)
  then show ?case
    by (subst (asm) (2) plusMatches.simps) (auto split: if_splits)
qed

lemma matchLetters_suffix: "matchLetters ls s = Some r \<Longrightarrow> length r \<le> length s"
  by (induction ls s rule: matchLetters.induct) (auto split: if_splits)

lemma keywordRests_suffix: "r \<in> set (keywordRests s) \<Longrightarrow> length r \<le> length s"
  by (auto simp: keywordRests_def optList_def dest!: sym [of "Some _"] matchLetters_suffix
      split: option.splits simp del: matchLetters.simps)

lemma repoMatches_suffix: "(x, r) \<in> set (repoMatches s) \<Longrightarrow> length r \<le> length s"
  by (fastforce simp: repoMatches_def dest!: plusMatches_suffix split: list.splits if_splits)

lemma numberMatches_suffix: "(n, r) \<in> set (numberMatches s) \<Longrightarrow> length r < length s"
  by (fastforce simp: numberMatches_def dest!: plusMatches_suffix split: list.splits if_splits)

lemma closingMatches_suffix: "(m, r) \<in> set (closingMatches s) \<Longrightarrow> length r < length s"
  by (fastforce simp: closingMatches_def
      dest!: plusMatches_suffix keywordRests_suffix repoMatches_suffix numberMatches_suffix)

lemma closingMatches_first: "closingMatches s = (m, r) # ms \<Longrightarrow> length r < length s"
  by (rule closingMatches_suffix [of m r]) simp

text \<open>
  \<open>FindAllStringSubmatch\<close>: the byte before the current position decides the leading \<open>\\b\<close>
  (the matched text starts with a letter), and the search resumes after each match.
\<close>

function findClosing :: "char option \<Rightarrow> string \<Rightarrow> (string \<times> string \<times> string) list" where
  "findClosing prev s =
     (case s of
        [] \<Rightarrow> []
      | c # cs \<Rightarrow>
          (case (if (case prev of None \<Rightarrow> True | Some p \<Rightarrow> \<not> isWord p) then closingMatches s else []) of
             [] \<Rightarrow> findClosing (Some c) cs
           | (m, r) # _ \<Rightarrow> m # findClosing (Some CHR ''0'') r))"
  by pat_completeness auto
termination
  by (relation "measure (\<lambda>(prev, s). length s)") (auto dest!: closingMatches_first split: if_splits)

declare findClosing.simps [simp del]

fun closingLoop :: "runtime \<Rightarrow> Config \<Rightarrow> int list \<Rightarrow> bool \<Rightarrow> (string \<times> string \<times> string) list \<Rightarrow> int list \<times> bool" where
  "closingLoop u cfg issues foreign [] = (issues, foreign)"
| "closingLoop u cfg issues foreign ((owner, repo, num) # ms) =
     (if owner \<noteq> [] \<and> \<not> (eqFold u owner (cfgOwner cfg) \<and> eqFold u repo (cfgRepo cfg))
      then closingLoop u cfg issues True ms
      else (case parseInt64 num of
              None \<Rightarrow> closingLoop u cfg issues foreign ms
            | Some n \<Rightarrow> if n \<in> set issues then closingLoop u cfg issues foreign ms
                        else closingLoop u cfg (issues @ [n]) foreign ms))"

definition closingIssues :: "runtime \<Rightarrow> Config \<Rightarrow> string \<Rightarrow> int list \<times> bool" where
  "closingIssues u cfg body = closingLoop u cfg [] False (findClosing None body)"

section \<open>Milestones\<close>

record Trigger =
  trOccurrence :: tid
  trPRURL :: string
  trAt :: time
  trCommentID :: tid

definition prLinkField :: string where "prLinkField = ''- pull request: ''"

fun prLinkLines :: "string list \<Rightarrow> string option" where
  "prLinkLines [] = None"
| "prLinkLines (line # ls) =
     (case cutPrefix (trimSpace line) prLinkField of
        None \<Rightarrow> prLinkLines ls
      | Some rest \<Rightarrow> if trimSpace rest \<noteq> [] then Some (trimSpace rest) else prLinkLines ls)"

definition publishedPRLink :: "string \<Rightarrow> string option" where
  "publishedPRLink body = prLinkLines (splitOn CHR 0x0A body)"

fun milestoneLoop :: "runtime \<Rightarrow> Config \<Rightarrow> Trigger list \<Rightarrow> Comment list \<Rightarrow> Trigger list" where
  "milestoneLoop u cfg out [] = out"
| "milestoneLoop u cfg out (c # cs) =
     (if \<not> eqFold u (cmAuthor c) (cfgTrackerAuthor cfg) then milestoneLoop u cfg out cs
      else case PublishedOccurrence (cmBody c) of
        Inl _ \<Rightarrow> milestoneLoop u cfg out cs
      | Inr occ \<Rightarrow>
          (case publishedPRLink (cmBody c) of
             None \<Rightarrow> milestoneLoop u cfg out cs
           | Some link \<Rightarrow>
               if occ \<in> trOccurrence ` set out then milestoneLoop u cfg out cs
               else milestoneLoop u cfg
                 (out @ [\<lparr>trOccurrence = occ, trPRURL = link, trAt = cmCreatedAt c, trCommentID = cmID c\<rparr>]) cs))"

definition publishedMilestones :: "runtime \<Rightarrow> Config \<Rightarrow> Comment list \<Rightarrow> Trigger list" where
  "publishedMilestones u cfg comments = sort_key trOccurrence (milestoneLoop u cfg [] comments)"

definition LatestPublished :: "runtime \<Rightarrow> Config \<Rightarrow> Comment list \<Rightarrow> Trigger option" where
  "LatestPublished u cfg comments =
     (let all = publishedMilestones u cfg comments in if all = [] then None else Some (last all))"

section \<open>Subject validation\<close>

datatype subjectError =
    PRUnreadable string
  | LinkUnusable prURLError
  | LinkElsewhere string string
  | LinkNumber int int
  | NoCanonicalURL int prURLError
  | URLOutside int string
  | LinkNotExact string string
  | PRNotOpen int
  | PRBranch int string string
  | BranchIssue string int
  | HeadNotSHA int string
  | NoBaseRef int
  | BaseNotSHA int string
  | AlsoForeign int int
  | OnlyForeign int int
  | ClosesNothing int int
  | ClosesMany int nat
  | ClosesOther int int int

definition branchIssue :: "string \<Rightarrow> int option" where
  "branchIssue branch =
     (case cutPrefix branch ''ben/'' of
        None \<Rightarrow> None
      | Some rest \<Rightarrow> (case parseInt64 rest of None \<Rightarrow> None | Some n \<Rightarrow> if n \<le> 0 then None else Some n))"

definition validateClosing :: "runtime \<Rightarrow> Config \<Rightarrow> PullRequest \<Rightarrow> subjectError option" where
  "validateClosing u cfg pr =
     (let (issues, foreign) = closingIssues u cfg (prBody pr)
      in if foreign \<and> issues \<noteq> [] then Some (AlsoForeign (prNumber pr) (cfgIssue cfg))
         else if foreign then Some (OnlyForeign (prNumber pr) (cfgIssue cfg))
         else case issues of
           [] \<Rightarrow> Some (ClosesNothing (prNumber pr) (cfgIssue cfg))
         | [n] \<Rightarrow> if n \<noteq> cfgIssue cfg then Some (ClosesOther (prNumber pr) n (cfgIssue cfg)) else None
         | _ \<Rightarrow> Some (ClosesMany (prNumber pr) (length issues)))"

definition validatePR :: "runtime \<Rightarrow> Config \<Rightarrow> PullRequest \<Rightarrow> subjectError option" where
  "validatePR u cfg pr =
     (if prClosed pr \<or> prMerged pr then Some (PRNotOpen (prNumber pr))
      else if prBranch pr \<noteq> Branch cfg then Some (PRBranch (prNumber pr) (prBranch pr) (Branch cfg))
      else if branchIssue (prBranch pr) \<noteq> Some (cfgIssue cfg)
        then Some (BranchIssue (prBranch pr) (cfgIssue cfg))
      else if \<not> isFullSHA (prHead pr) then Some (HeadNotSHA (prNumber pr) (prHead pr))
      else if trimSpace (prBase pr) = [] then Some (NoBaseRef (prNumber pr))
      else if \<not> isFullSHA (prBaseSHA pr) then Some (BaseNotSHA (prNumber pr) (prBaseSHA pr))
      else validateClosing u cfg pr)"

definition validateSubject :: "runtime \<Rightarrow> Config \<Rightarrow> Trigger \<Rightarrow> PullRequest option \<Rightarrow> subjectError option" where
  "validateSubject u cfg t opr =
     (case opr of
        None \<Rightarrow> Some (PRUnreadable (trPRURL t))
      | Some pr \<Rightarrow>
          (case ParsePRURL u (trPRURL t) of
             Inl e \<Rightarrow> Some (LinkUnusable e)
           | Inr (owner, repo, number) \<Rightarrow>
               if \<not> eqFold u owner (cfgOwner cfg) \<or> \<not> eqFold u repo (cfgRepo cfg)
                 then Some (LinkElsewhere owner repo)
               else if number \<noteq> prNumber pr then Some (LinkNumber number (prNumber pr))
               else (case ParsePRURL u (prURL pr) of
                       Inl e \<Rightarrow> Some (NoCanonicalURL (prNumber pr) e)
                     | Inr (apiOwner, apiRepo, apiNumber) \<Rightarrow>
                         if \<not> eqFold u apiOwner (cfgOwner cfg) \<or> \<not> eqFold u apiRepo (cfgRepo cfg)
                            \<or> apiNumber \<noteq> prNumber pr
                           then Some (URLOutside (prNumber pr) (prURL pr))
                         else if trimSpace (trPRURL t) \<noteq> trimSpace (prURL pr)
                           then Some (LinkNotExact (trPRURL t) (prURL pr))
                         else validatePR u cfg pr)))"

end
