(* ===== verification/RevReduce.thy ===== *)
theory RevReduce
  imports RevEpoch RevMilestone
begin

text \<open>
  \<open>internal/review/reduce.go\<close>: the per-issue reducer of the review controller, one
  observation in, one step out. Every definition follows one function of the file in its
  order of checks. The explanation a step carries is kept as a value of the datatype
  \<open>why\<close>, one constructor per message with the arguments it prints, and a note for each
  suffix the code appends.
\<close>

section \<open>Steps\<close>

datatype StepKind = StepNothing | StepReview | StepUnassign | StepRevoke | StepRecordIntent | StepRecordRoute

definition ReviewStateCommented :: string where "ReviewStateCommented = ''COMMENTED''"

datatype whyNote =
    NoteRemovalComplete
  | NotePreserving tid
  | NoteWithdrawn
  | NoteLabelGone
  | NoteTerminalLanded
  | NoteHandedBack
  | NoteHandingTo string
  | NoteProfile string

datatype why =
    WhyNone
  | WhyInvalidConfig configError
  | WhyProfile int profileError
  | WhyClosed int
  | WhyNoMilestone string
  | WhyNotOnLog tid int
  | WhyAlreadyRouted tid Outcome
  | WhyNoClaim tid string
  | WhyInvalidSubject tid subjectError
  | WhyNoApproval tid
  | WhyOtherProfile tid string string
  | WhyContested tid tid tid tid tid
  | WhyBaseMoved string string tid string
  | WhyHeadReviewed string
  | WhyCapReached nat
  | WhyFreshHead tid string nat int
  | WhyConflictingIntents tid
  | WhyIntentNotOnLog tid
  | WhyIntentClaim tid tid tid
  | WhyIntentApproval tid tid tid
  | WhyIntentAnchor tid tid
  | WhyResumeIntent Outcome string
  | WhyAlreadyRemoved
  | WhyLabelMissing string int
  | WhyNoStandingClaim string
  | WhyStaleClaim tid tid tid
  | WhyUndatable tid
  | WhyNotAnchor tid tid
  | WhyReplaced tid tid tid
  | WhyWithdrawn tid tid
  | WhyClean string
  | WhyCapStill nat
  | WhyChanges string
  | WhyLabelWithdrawn string
  | WhyReviewContested tid tid tid
  | WhyAwaitConverge tid tid
  | WhyHeadMoved string string
  | WhyStaleBase string string
  | WhyHandedBack
  | WhyEpochMoved tid tid
  | WhyAssigneeLag tid string
  | WhySharedClaim int nat
  | WhyStopNoApproval tid
  | WhyAnd why whyNote

record Step =
  stKind :: StepKind
  stWhy :: why
  stPR :: PullRequest
  stOccurrence :: tid
  stClaim :: tid
  stHead :: string
  stApproval :: tid
  stReviewerProfile :: string
  stOutcome :: Outcome
  stPrincipal :: string
  stRemoveLabel :: string
  stAddLabel :: string

definition zeroPR :: PullRequest where
  "zeroPR = \<lparr>prNumber = 0, prURL = [], prClosed = False, prMerged = False, prBranch = [],
     prHead = [], prBase = [], prBaseSHA = [], prBody = []\<rparr>"

definition zeroStep :: Step where
  "zeroStep = \<lparr>stKind = StepNothing, stWhy = WhyNone, stPR = zeroPR, stOccurrence = 0, stClaim = 0,
     stHead = [], stApproval = 0, stReviewerProfile = [], stOutcome = [], stPrincipal = [],
     stRemoveLabel = [], stAddLabel = []\<rparr>"

definition nothing :: "why \<Rightarrow> Step" where
  "nothing w = zeroStep\<lparr>stKind := StepNothing, stWhy := w\<rparr>"

definition shortSHA :: "string \<Rightarrow> string" where
  "shortSHA sha = (if length sha > 12 then take 12 sha else sha)"

definition observedPR :: "Snapshot \<Rightarrow> PullRequest" where
  "observedPR s = (case snPR s of None \<Rightarrow> zeroPR | Some pr \<Rightarrow> pr)"

definition record_route :: "PullRequest \<Rightarrow> tid \<Rightarrow> tid \<Rightarrow> string \<Rightarrow> Outcome \<Rightarrow> why \<Rightarrow> Step" where
  "record_route pr occ claim head out w =
     zeroStep\<lparr>stKind := StepRecordRoute, stWhy := w, stPR := pr, stOccurrence := occ, stClaim := claim,
       stHead := head, stOutcome := out\<rparr>"

section \<open>Controller reviews\<close>

record published =
  pbReview :: Review
  pbMarker :: ReviewMarker
  pbZero :: bool

definition zeroReview :: Review where
  "zeroReview = \<lparr>rvID = 0, rvAuthor = [], rvBody = [], rvCommitID = [], rvState = [], rvSubmittedAt = zeroTime\<rparr>"

definition zeroMarker :: ReviewMarker where
  "zeroMarker = \<lparr>rmOccurrence = 0, rmClaim = 0, rmApproval = 0, rmHead = [], rmBase = [], rmVerdict = [],
     rmReviewerProfile = []\<rparr>"

definition unreviewed :: "tid \<Rightarrow> published" where
  "unreviewed sourceClaim =
     \<lparr>pbReview = zeroReview, pbMarker = zeroMarker\<lparr>rmClaim := sourceClaim\<rparr>, pbZero = True\<rparr>"

definition headOf :: "published \<Rightarrow> PullRequest \<Rightarrow> string \<times> tid" where
  "headOf p pr = (if pbZero p then (prHead pr, rmClaim (pbMarker p)) else (rmHead (pbMarker p), rmClaim (pbMarker p)))"

text \<open>The loop body of \<open>controllerReviews\<close>: one review, trusted or skipped.\<close>

definition trustReview :: "runtime \<Rightarrow> Config \<Rightarrow> Event list \<Rightarrow> time \<Rightarrow> Review \<Rightarrow> published option" where
  "trustReview u cfg events from r =
     (if \<not> eqFold u (rvAuthor r) (cfgController cfg) \<or> rvState r \<noteq> ReviewStateCommented then None
      else if rvSubmittedAt r < from then None
      else case ParseReviewMarker (rvBody r) of
        Inl _ \<Rightarrow> None
      | Inr m \<Rightarrow>
          if rmHead m \<noteq> rvCommitID r then None
          else if rmApproval m = 0 then
            (let a = fst (approvalEpochAtOccurrence u events (cfgRequiredLabels cfg) (rmOccurrence m))
             in if a = 0 then None
                else Some \<lparr>pbReview = r, pbMarker = m\<lparr>rmApproval := a\<rparr>, pbZero = False\<rparr>)
          else Some \<lparr>pbReview = r, pbMarker = m, pbZero = False\<rparr>)"

definition controllerReviews :: "runtime \<Rightarrow> Config \<Rightarrow> Event list \<Rightarrow> Review list \<Rightarrow> time \<Rightarrow> published list" where
  "controllerReviews u cfg events all from = List.map_filter (trustReview u cfg events from) all"

definition since :: "published list \<Rightarrow> time \<Rightarrow> published list" where
  "since reviews from = filter (\<lambda>p. \<not> rvSubmittedAt (pbReview p) < from) reviews"

definition forApproval :: "published list \<Rightarrow> tid \<Rightarrow> published list" where
  "forApproval reviews approval = filter (\<lambda>p. rmApproval (pbMarker p) = approval) reviews"

definition through :: "published list \<Rightarrow> time \<Rightarrow> published list" where
  "through reviews to = filter (\<lambda>p. \<not> rvSubmittedAt (pbReview p) > to) reviews"

definition reviewFor :: "published list \<Rightarrow> tid \<Rightarrow> tid \<Rightarrow> tid \<Rightarrow> string \<Rightarrow> string \<Rightarrow> published option" where
  "reviewFor reviews occ claim approval head base =
     firstSuch (\<lambda>p. rmOccurrence (pbMarker p) = occ \<and> rmClaim (pbMarker p) = claim
       \<and> rmApproval (pbMarker p) = approval \<and> rmHead (pbMarker p) = head \<and> rmBase (pbMarker p) = base) reviews"

definition reviewForHead :: "published list \<Rightarrow> tid \<Rightarrow> tid \<Rightarrow> tid \<Rightarrow> string \<Rightarrow> published option" where
  "reviewForHead reviews occ claim approval head =
     firstSuch (\<lambda>p. rmOccurrence (pbMarker p) = occ \<and> rmClaim (pbMarker p) = claim
       \<and> rmApproval (pbMarker p) = approval \<and> rmHead (pbMarker p) = head) reviews"

fun latestLoop :: "tid \<Rightarrow> tid \<Rightarrow> tid \<Rightarrow> time \<Rightarrow> published option \<Rightarrow> published list \<Rightarrow> published option" where
  "latestLoop occ claim approval to latest [] = latest"
| "latestLoop occ claim approval to latest (p # ps) =
     (if rmOccurrence (pbMarker p) \<noteq> occ \<or> rmClaim (pbMarker p) \<noteq> claim
         \<or> rmApproval (pbMarker p) \<noteq> approval \<or> rvSubmittedAt (pbReview p) > to
      then latestLoop occ claim approval to latest ps
      else case latest of
        None \<Rightarrow> latestLoop occ claim approval to (Some p) ps
      | Some l \<Rightarrow>
          if rvSubmittedAt (pbReview p) > rvSubmittedAt (pbReview l)
             \<or> (rvSubmittedAt (pbReview p) = rvSubmittedAt (pbReview l) \<and> rvID (pbReview p) > rvID (pbReview l))
          then latestLoop occ claim approval to (Some p) ps
          else latestLoop occ claim approval to latest ps)"

definition latestReviewForOccurrenceThrough ::
  "published list \<Rightarrow> tid \<Rightarrow> tid \<Rightarrow> tid \<Rightarrow> time \<Rightarrow> published option" where
  "latestReviewForOccurrenceThrough reviews occ claim approval to =
     latestLoop occ claim approval to None reviews"

definition mismatchedReviewForOccurrence :: "published list \<Rightarrow> tid \<Rightarrow> tid \<Rightarrow> tid \<Rightarrow> published option" where
  "mismatchedReviewForOccurrence reviews occ claim approval =
     firstSuch (\<lambda>p. rmOccurrence (pbMarker p) = occ
       \<and> (rmClaim (pbMarker p) \<noteq> claim \<or> rmApproval (pbMarker p) \<noteq> approval)) reviews"

definition routeOf :: "runtime \<Rightarrow> Config \<Rightarrow> tid \<Rightarrow> Comment \<Rightarrow> RouteMarker option" where
  "routeOf u cfg occ c =
     (if \<not> eqFold u (cmAuthor c) (cfgController cfg) then None
      else case ParseRouteMarker (cmBody c) of
        Inl _ \<Rightarrow> None
      | Inr m \<Rightarrow> if rtOccurrence m \<noteq> occ then None else Some m)"

definition routeFor :: "runtime \<Rightarrow> Config \<Rightarrow> Comment list \<Rightarrow> tid \<Rightarrow> RouteMarker option" where
  "routeFor u cfg comments occ = firstSome (routeOf u cfg occ) comments"

definition routeExists :: "runtime \<Rightarrow> Config \<Rightarrow> Comment list \<Rightarrow> tid \<Rightarrow> bool" where
  "routeExists u cfg comments occ \<longleftrightarrow> routeFor u cfg comments occ \<noteq> None"

definition distinctHeads :: "published list \<Rightarrow> string list" where
  "distinctHeads reviews = distinctFirst (map (\<lambda>p. rmHead (pbMarker p)) reviews)"

definition containsHead :: "string list \<Rightarrow> string \<Rightarrow> bool" where
  "containsHead heads head = list_ex (\<lambda>h. h = head) heads"

definition containsLogin :: "runtime \<Rightarrow> string list \<Rightarrow> string \<Rightarrow> bool" where
  "containsLogin u logins want = list_ex (\<lambda>l. eqFold u l want) logins"

section \<open>Decisions\<close>

type_synonym decision = "Outcome \<times> why"

definition outcomeFor :: "Config \<Rightarrow> published list \<Rightarrow> ReviewMarker \<Rightarrow> decision" where
  "outcomeFor cfg reviews cur =
     (if rmVerdict cur = VerdictClean then (OutcomeHumanReview, WhyClean (shortSHA (rmHead cur)))
      else let n = length (distinctHeads reviews)
           in if int n \<ge> cfgRoundCap cfg then (OutcomeRoundCap, WhyCapStill n)
              else (OutcomeRevise, WhyChanges (shortSHA (rmHead cur))))"

definition addLabelOf :: "Config \<Rightarrow> string" where
  "addLabelOf cfg = (if cfgAddHumanReviewLabel cfg then HumanReviewLabel else [])"

definition stop :: "runtime \<Rightarrow> Config \<Rightarrow> Snapshot \<Rightarrow> Event list \<Rightarrow> PullRequest \<Rightarrow> Trigger \<Rightarrow> published \<Rightarrow> decision \<Rightarrow> Step" where
  "stop u cfg s events pr t cur d =
     (let (head, claim) = headOf cur pr;
          (approval, ok) = approvalEpochAtOccurrence u events (cfgRequiredLabels cfg) (trOccurrence t)
      in if \<not> ok then nothing (WhyStopNoApproval (trOccurrence t))
         else if \<not> pbZero cur \<and> rmApproval (pbMarker cur) \<noteq> approval
           then nothing (WhyReviewContested (trOccurrence t) (rmApproval (pbMarker cur)) approval)
         else if pbZero cur then
           zeroStep\<lparr>stKind := StepRecordIntent, stWhy := snd d, stPR := pr, stOccurrence := trOccurrence t,
             stClaim := claim, stHead := head, stApproval := approval, stOutcome := fst d\<rparr>
         else
           (let (removed, newer, valid) = approvalChangesAfterEpoch u events (cfgRequiredLabels cfg) approval
            in if \<not> valid then nothing (WhyNotAnchor (trOccurrence t) approval)
               else if newer \<noteq> 0
                 then record_route pr (trOccurrence t) claim head (fst d) (WhyAnd (snd d) (NotePreserving newer))
               else if removed
                 then record_route pr (trOccurrence t) claim head (fst d) (WhyAnd (snd d) NoteWithdrawn)
               else if hasLabel u (issLabels (snIssue s)) (cfgQueueLabel cfg) then
                 zeroStep\<lparr>stKind := StepRevoke, stWhy := snd d, stPR := pr, stOccurrence := trOccurrence t,
                   stClaim := claim, stHead := head, stOutcome := fst d,
                   stRemoveLabel := cfgQueueLabel cfg, stAddLabel := addLabelOf cfg\<rparr>
               else record_route pr (trOccurrence t) claim head (fst d) (WhyAnd (snd d) NoteLabelGone)))"

definition route :: "runtime \<Rightarrow> Config \<Rightarrow> Snapshot \<Rightarrow> Event list \<Rightarrow> PullRequest \<Rightarrow> Trigger \<Rightarrow> published \<Rightarrow> decision \<Rightarrow> Step" where
  "route u cfg s events pr t cur d =
     (if fst d \<noteq> OutcomeRevise then stop u cfg s events pr t cur d
      else
        let m = pbMarker cur;
            handedBack = unassignedAfterClaim u events (cfgPrincipal cfg) (rmClaim m);
            missing = missingRequiredLabel u (issLabels (snIssue s)) (cfgRequiredLabels cfg);
            (approval, ok) = approvalEpochAtOccurrence u events (cfgRequiredLabels cfg) (trOccurrence t);
            (removed, newer, valid) = approvalChangesAfterEpoch u events (cfgRequiredLabels cfg) approval;
            epoch = ClaimEpoch u events (cfgPrincipal cfg);
            assignees = issAssignees (snIssue s)
        in if missing \<noteq> [] \<and> \<not> handedBack
             then stop u cfg s events pr t cur (OutcomeHumanReview, WhyLabelWithdrawn missing)
           else if \<not> ok \<or> approval \<noteq> rmApproval m
             then nothing (WhyReviewContested (trOccurrence t) (rmApproval m) approval)
           else if \<not> valid then nothing (WhyNotAnchor (trOccurrence t) approval)
           else if newer \<noteq> 0
             then record_route pr (trOccurrence t) (rmClaim m) (rmHead m) (fst d) (WhyAnd (snd d) (NotePreserving newer))
           else if removed then nothing (WhyAwaitConverge (trOccurrence t) approval)
           else if prHead pr \<noteq> rmHead m then nothing (WhyHeadMoved (shortSHA (rmHead m)) (shortSHA (prHead pr)))
           else if prBaseSHA pr \<noteq> rmBase m then nothing (WhyStaleBase (shortSHA (rmBase m)) (shortSHA (prBaseSHA pr)))
           else if epoch \<noteq> rmClaim m then
             (if handedBack
              then record_route pr (trOccurrence t) (rmClaim m) (rmHead m) OutcomeRevise WhyHandedBack
              else stop u cfg s events pr t cur (OutcomeHumanReview, WhyEpochMoved (rmClaim m) epoch))
           else if \<not> containsLogin u assignees (cfgPrincipal cfg)
             then nothing (WhyAssigneeLag epoch (cfgPrincipal cfg))
           else if length assignees \<noteq> 1
             then stop u cfg s events pr t cur (OutcomeHumanReview, WhySharedClaim (cfgIssue cfg) (length assignees))
           else zeroStep\<lparr>stKind := StepUnassign, stWhy := WhyAnd (snd d) (NoteHandingTo (cfgPrincipal cfg)),
                  stPR := pr, stOccurrence := trOccurrence t, stClaim := rmClaim m, stHead := rmHead m,
                  stPrincipal := cfgPrincipal cfg\<rparr>)"

definition beginReview :: "runtime \<Rightarrow> Config \<Rightarrow> Snapshot \<Rightarrow> Event list \<Rightarrow> PullRequest \<Rightarrow> Trigger \<Rightarrow> tid \<Rightarrow> why \<Rightarrow> Step" where
  "beginReview u cfg s events pr t sourceClaim w =
     (let missing = missingRequiredLabel u (issLabels (snIssue s)) (cfgRequiredLabels cfg);
          epoch = ClaimEpoch u events (cfgPrincipal cfg);
          (approval, ok) = approvalEpochAtOccurrence u events (cfgRequiredLabels cfg) (trOccurrence t);
          (removed, newer, valid) = approvalChangesAfterEpoch u events (cfgRequiredLabels cfg) approval
      in if missing \<noteq> [] then nothing (WhyLabelMissing missing (cfgIssue cfg))
         else if epoch = 0 then nothing (WhyNoStandingClaim (cfgPrincipal cfg))
         else if epoch \<noteq> sourceClaim then nothing (WhyStaleClaim (trOccurrence t) sourceClaim epoch)
         else if \<not> ok then nothing (WhyUndatable (trOccurrence t))
         else if \<not> valid then nothing (WhyNotAnchor (trOccurrence t) approval)
         else if newer \<noteq> 0 then nothing (WhyReplaced (trOccurrence t) approval newer)
         else if removed then nothing (WhyWithdrawn (trOccurrence t) approval)
         else case SelectReviewerProfile u cfg (issLabels (snIssue s)) of
           Inl e \<Rightarrow> nothing (WhyProfile (cfgIssue cfg) e)
         | Inr profile \<Rightarrow>
             zeroStep\<lparr>stKind := StepReview,
               stWhy := (if profile \<noteq> [] then WhyAnd w (NoteProfile profile) else w),
               stPR := pr, stOccurrence := trOccurrence t, stClaim := sourceClaim, stApproval := approval,
               stHead := prHead pr, stReviewerProfile := profile\<rparr>)"

section \<open>Recovery of interrupted routes\<close>

text \<open>
  The comment loop of \<open>resumeTerminalIntent\<close>: the first intent of each unrouted
  occurrence, and the occurrences whose intents disagree.
\<close>

fun intentLoop ::
  "runtime \<Rightarrow> Config \<Rightarrow> Comment list \<Rightarrow> RouteIntentMarker list \<Rightarrow> tid list \<Rightarrow> Comment list
   \<Rightarrow> RouteIntentMarker list \<times> tid list" where
  "intentLoop u cfg all ordered conflicted [] = (ordered, conflicted)"
| "intentLoop u cfg all ordered conflicted (c # cs) =
     (if \<not> eqFold u (cmAuthor c) (cfgController cfg) then intentLoop u cfg all ordered conflicted cs
      else case ParseRouteIntentMarker (cmBody c) of
        Inl _ \<Rightarrow> intentLoop u cfg all ordered conflicted cs
      | Inr m \<Rightarrow>
          if routeExists u cfg all (riOccurrence m) then intentLoop u cfg all ordered conflicted cs
          else (case firstSuch (\<lambda>i. riOccurrence i = riOccurrence m) ordered of
                  Some prior \<Rightarrow>
                    intentLoop u cfg all ordered
                      (if prior \<noteq> m then riOccurrence m # conflicted else conflicted) cs
                | None \<Rightarrow> intentLoop u cfg all (ordered @ [m]) conflicted cs))"

text \<open>What is owed for the oldest unrouted intent.\<close>

definition resumeIntent :: "runtime \<Rightarrow> Config \<Rightarrow> Snapshot \<Rightarrow> Event list \<Rightarrow> RouteIntentMarker \<Rightarrow> Step" where
  "resumeIntent u cfg s events m =
     (let occ = riOccurrence m;
          (claim, claimOK) = claimEpochAtOccurrence u events (cfgPrincipal cfg) occ;
          (source, sourceOK) = approvalEpochAtOccurrence u events (cfgRequiredLabels cfg) occ;
          (queue, legacy) = labelEpochAtOccurrence u events (cfgQueueLabel cfg) occ;
          (removed, newer, valid) = approvalChangesAfterEpoch u events (cfgRequiredLabels cfg) source;
          w = WhyResumeIntent (riOutcome m) (shortSHA (riHead m))
      in if \<not> publishedOccurrenceOnLog u events occ (cfgTrackerAuthor cfg) then nothing (WhyIntentNotOnLog occ)
         else if \<not> claimOK \<or> claim \<noteq> riClaim m then nothing (WhyIntentClaim occ (riClaim m) claim)
         else if \<not> sourceOK then nothing (WhyIntentApproval occ (riApproval m) source)
         else if riApproval m \<noteq> source \<and> (\<not> legacy \<or> riApproval m \<noteq> queue)
           then nothing (WhyIntentApproval occ (riApproval m) source)
         else if \<not> valid then nothing (WhyIntentAnchor occ source)
         else if \<not> hasLabel u (issLabels (snIssue s)) (cfgQueueLabel cfg)
           then record_route (observedPR s) occ (riClaim m) (riHead m) (riOutcome m) (WhyAnd w NoteRemovalComplete)
         else if newer \<noteq> 0
           then record_route (observedPR s) occ (riClaim m) (riHead m) (riOutcome m) (WhyAnd w (NotePreserving newer))
         else if removed
           then record_route (observedPR s) occ (riClaim m) (riHead m) (riOutcome m) (WhyAnd w NoteWithdrawn)
         else zeroStep\<lparr>stKind := StepRevoke, stWhy := w, stPR := observedPR s, stOccurrence := occ,
                stClaim := riClaim m, stHead := riHead m, stOutcome := riOutcome m,
                stRemoveLabel := cfgQueueLabel cfg, stAddLabel := addLabelOf cfg\<rparr>)"

definition resumeTerminalIntent :: "runtime \<Rightarrow> Config \<Rightarrow> Snapshot \<Rightarrow> Event list \<Rightarrow> Step option" where
  "resumeTerminalIntent u cfg s events =
     (let (ordered, conflicted) = intentLoop u cfg (snComments s) [] [] (snComments s)
      in case sort_key riOccurrence ordered of
           [] \<Rightarrow> None
         | m # _ \<Rightarrow>
             if riOccurrence m \<in> set conflicted then Some (nothing (WhyConflictingIntents (riOccurrence m)))
             else Some (resumeIntent u cfg s events m))"

record completedRoute =
  crTrigger :: Trigger
  crClaim :: tid
  crHead :: string
  crOutcome :: Outcome
  crWhy :: why

definition publishedPositions :: "runtime \<Rightarrow> Config \<Rightarrow> Trigger list \<Rightarrow> Event list \<Rightarrow> (tid \<rightharpoonup> nat)" where
  "publishedPositions u cfg triggers events =
     fold (\<lambda>(i, ev) out.
       if evID ev \<notin> trOccurrence ` set triggers \<or> evType ev \<noteq> EventUnlabeled
          \<or> \<not> eqFold u (evActor ev) (cfgTrackerAuthor cfg)
          \<or> \<not> (eqFold u (evLabel ev) ''ben:claimed'' \<or> eqFold u (evLabel ev) ''ben:running'')
       then out else out(evID ev \<mapsto> i)) (enumerate 0 events) Map.empty"

fun beforeLoop :: "(tid \<rightharpoonup> nat) \<Rightarrow> time \<Rightarrow> nat \<Rightarrow> (Trigger \<times> nat) option \<Rightarrow> Trigger list \<Rightarrow> (Trigger \<times> nat) option" where
  "beforeLoop positions at mutation latest [] = latest"
| "beforeLoop positions at mutation latest (t # ts) =
     (case positions (trOccurrence t) of
        None \<Rightarrow> beforeLoop positions at mutation latest ts
      | Some pos \<Rightarrow>
          if pos \<ge> mutation \<or> trAt t > at then beforeLoop positions at mutation latest ts
          else if (case latest of None \<Rightarrow> True | Some (_, lp) \<Rightarrow> pos > lp)
            then beforeLoop positions at mutation (Some (t, pos)) ts
          else beforeLoop positions at mutation latest ts)"

definition publicationBeforeMutation :: "Trigger list \<Rightarrow> (tid \<rightharpoonup> nat) \<Rightarrow> Event list \<Rightarrow> nat \<Rightarrow> Trigger option" where
  "publicationBeforeMutation triggers positions events mutation =
     (if mutation \<ge> length events then None
      else map_option fst (beforeLoop positions (evCreatedAt (events ! mutation)) mutation None triggers))"

definition isStopEvent :: "runtime \<Rightarrow> Config \<Rightarrow> Event \<Rightarrow> bool" where
  "isStopEvent u cfg ev \<longleftrightarrow> evType ev = EventUnlabeled \<and> eqFold u (evActor ev) (cfgController cfg)
     \<and> eqFold u (evLabel ev) (cfgQueueLabel cfg)"

definition isHandoffEvent :: "runtime \<Rightarrow> Config \<Rightarrow> Event \<Rightarrow> bool" where
  "isHandoffEvent u cfg ev \<longleftrightarrow> evType ev = EventUnassigned \<and> eqFold u (evAssignee ev) (cfgPrincipal cfg)"

text \<open>The inner loop body of \<open>completedUnroutedRoute\<close>: what event \<open>i\<close> completes for a trigger.\<close>

definition completedAt ::
  "runtime \<Rightarrow> Config \<Rightarrow> Trigger list \<Rightarrow> (tid \<rightharpoonup> nat) \<Rightarrow> Event list \<Rightarrow> published list \<Rightarrow> Trigger \<Rightarrow> tid \<Rightarrow> tid
   \<Rightarrow> nat \<times> Event \<Rightarrow> completedRoute option" where
  "completedAt u cfg triggers positions events reviews trigger claim approval iev =
     (let (i, ev) = iev
      in if \<not> isStopEvent u cfg ev \<and> \<not> isHandoffEvent u cfg ev then None
         else case publicationBeforeMutation triggers positions events i of
           None \<Rightarrow> None
         | Some owner \<Rightarrow>
             if trOccurrence owner \<noteq> trOccurrence trigger then None
             else case latestReviewForOccurrenceThrough reviews (trOccurrence trigger) claim approval (evCreatedAt ev) of
               None \<Rightarrow> None
             | Some prior \<Rightarrow>
                 let cycle = through (forApproval
                       (since reviews (cycleStartAtOccurrence u cfg events (trOccurrence trigger))) approval) (evCreatedAt ev);
                     d = outcomeFor cfg cycle (pbMarker prior)
                 in if isStopEvent u cfg ev then
                      (let d' = (if fst d = OutcomeRevise then (OutcomeHumanReview, WhyAlreadyRemoved) else d)
                       in Some \<lparr>crTrigger = trigger, crClaim = claim, crHead = rmHead (pbMarker prior),
                            crOutcome = fst d', crWhy = WhyAnd (snd d') NoteTerminalLanded\<rparr>)
                    else if rmVerdict (pbMarker prior) = VerdictChangesRequested then
                      (if fst d \<noteq> OutcomeRevise then None
                       else Some \<lparr>crTrigger = trigger, crClaim = claim, crHead = rmHead (pbMarker prior),
                            crOutcome = OutcomeRevise, crWhy = WhyAnd (snd d) NoteHandedBack\<rparr>)
                    else None)"

definition completedFor ::
  "runtime \<Rightarrow> Config \<Rightarrow> Comment list \<Rightarrow> Trigger list \<Rightarrow> Event list \<Rightarrow> published list \<Rightarrow> Trigger \<Rightarrow> completedRoute option" where
  "completedFor u cfg comments triggers events reviews trigger =
     (let positions = publishedPositions u cfg triggers events;
          occ = trOccurrence trigger;
          (claim, claimOK) = claimEpochAtOccurrence u events (cfgPrincipal cfg) occ;
          (approval, approvalOK) = approvalEpochAtOccurrence u events (cfgRequiredLabels cfg) occ
      in if routeFor u cfg comments occ \<noteq> None \<or> positions occ = None \<or> \<not> claimOK \<or> \<not> approvalOK then None
         else firstSome (completedAt u cfg triggers positions events reviews trigger claim approval)
                (enumerate 0 events))"

definition completedUnroutedRoute ::
  "runtime \<Rightarrow> Config \<Rightarrow> Comment list \<Rightarrow> Trigger list \<Rightarrow> Event list \<Rightarrow> published list \<Rightarrow> completedRoute option" where
  "completedUnroutedRoute u cfg comments triggers events reviews =
     firstSome (completedFor u cfg comments triggers events reviews) triggers"

section \<open>The reducer\<close>

text \<open>
  The part of \<open>Reduce\<close> after the newest delivery's subject, source claim and source
  approval are established.
\<close>

definition reduceDelivery ::
  "runtime \<Rightarrow> Config \<Rightarrow> Snapshot \<Rightarrow> Event list \<Rightarrow> published list \<Rightarrow> string \<Rightarrow> Trigger \<Rightarrow> PullRequest \<Rightarrow> tid \<Rightarrow> tid \<Rightarrow> Step" where
  "reduceDelivery u cfg s events all selectedProfile trigger pr sourceClaim sourceApproval =
     (let occ = trOccurrence trigger;
          reviews = forApproval (since all (cycleStartAtOccurrence u cfg events occ)) sourceApproval;
          heads = distinctHeads reviews
      in case reviewFor all occ sourceClaim sourceApproval (prHead pr) (prBaseSHA pr) of
           Some cur \<Rightarrow>
             if rmReviewerProfile (pbMarker cur) \<noteq> [] \<and> rmReviewerProfile (pbMarker cur) \<noteq> selectedProfile
             then nothing (WhyOtherProfile occ (rmReviewerProfile (pbMarker cur)) selectedProfile)
             else route u cfg s events pr trigger cur (outcomeFor cfg reviews (pbMarker cur))
         | None \<Rightarrow>
             (case mismatchedReviewForOccurrence all occ sourceClaim sourceApproval of
                Some cur \<Rightarrow>
                  stop u cfg s events pr trigger (unreviewed sourceClaim)
                    (OutcomeHumanReview, WhyContested occ sourceClaim sourceApproval
                       (rmClaim (pbMarker cur)) (rmApproval (pbMarker cur)))
              | None \<Rightarrow>
                  (case reviewForHead all occ sourceClaim sourceApproval (prHead pr) of
                     Some prior \<Rightarrow>
                       beginReview u cfg s events pr trigger sourceClaim
                         (WhyBaseMoved (shortSHA (rmBase (pbMarker prior))) (shortSHA (prBaseSHA pr)) occ (shortSHA (prHead pr)))
                   | None \<Rightarrow>
                       if containsHead heads (prHead pr) then
                         route u cfg s events pr trigger (unreviewed sourceClaim)
                           (OutcomeNoProgress, WhyHeadReviewed (shortSHA (prHead pr)))
                       else if int (length heads) \<ge> cfgRoundCap cfg then
                         route u cfg s events pr trigger (unreviewed sourceClaim)
                           (OutcomeRoundCap, WhyCapReached (length heads))
                       else beginReview u cfg s events pr trigger sourceClaim
                         (WhyFreshHead occ (shortSHA (prHead pr)) (length heads + 1) (cfgRoundCap cfg)))))"

text \<open>The newest delivery: the checks of \<open>Reduce\<close> from the closure of the issue on.\<close>

definition reduceLatest ::
  "runtime \<Rightarrow> Config \<Rightarrow> Snapshot \<Rightarrow> Event list \<Rightarrow> published list \<Rightarrow> string \<Rightarrow> Trigger list \<Rightarrow> Step" where
  "reduceLatest u cfg s events all selectedProfile triggers =
     (if issClosed (snIssue s) then nothing (WhyClosed (cfgIssue cfg))
      else if triggers = [] then nothing (WhyNoMilestone (cfgTrackerAuthor cfg))
      else
        let trigger = last triggers; occ = trOccurrence trigger;
            (sourceClaim, claimOK) = claimEpochAtOccurrence u events (cfgPrincipal cfg) occ;
            (sourceApproval, approvalOK) = approvalEpochAtOccurrence u events (cfgRequiredLabels cfg) occ
        in if \<not> publishedOccurrenceOnLog u events occ (cfgTrackerAuthor cfg)
             then nothing (WhyNotOnLog occ (cfgIssue cfg))
           else case routeFor u cfg (snComments s) occ of
             Some routed \<Rightarrow> nothing (WhyAlreadyRouted occ (rtOutcome routed))
           | None \<Rightarrow>
               if \<not> claimOK then nothing (WhyNoClaim occ (cfgPrincipal cfg))
               else case validateSubject u cfg trigger (snPR s) of
                 Some e \<Rightarrow> nothing (WhyInvalidSubject occ e)
               | None \<Rightarrow>
                   if \<not> approvalOK then nothing (WhyNoApproval occ)
                   else reduceDelivery u cfg s events all selectedProfile trigger (observedPR s)
                          sourceClaim sourceApproval)"

definition Reduce :: "runtime \<Rightarrow> Config \<Rightarrow> Snapshot \<Rightarrow> Step" where
  "Reduce u cfg s =
     (case Validate u cfg of
        Some e \<Rightarrow> nothing (WhyInvalidConfig e)
      | None \<Rightarrow>
          (case SelectReviewerProfile u cfg (issLabels (snIssue s)) of
             Inl e \<Rightarrow> nothing (WhyProfile (cfgIssue cfg) e)
           | Inr selectedProfile \<Rightarrow>
               let triggers = publishedMilestones u cfg (snComments s);
                   events = SortEvents (snEvents s);
                   all = controllerReviews u cfg events (snReviews s) zeroTime
               in case resumeTerminalIntent u cfg s events of
                    Some step \<Rightarrow> step
                  | None \<Rightarrow>
                      (case completedUnroutedRoute u cfg (snComments s) triggers events all of
                         Some done \<Rightarrow>
                           record_route (observedPR s) (trOccurrence (crTrigger done)) (crClaim done)
                             (crHead done) (crOutcome done) (crWhy done)
                       | None \<Rightarrow> reduceLatest u cfg s events all selectedProfile triggers)))"

end
