(* ===== verification/RevReduceFacts.thy ===== *)
theory RevReduceFacts
  imports RevReduce
begin

text \<open>
  The reducer of \<open>internal/review/reduce.go\<close>, analysed: the elimination rules \<open>Reduce_rule\<close> and
  \<open>reduceDelivery_rule\<close> that say where a step comes from, the permission model every step
  obeys, the inversion of the two steps that keep automation running (a review and the
  hand-back of the principal's claim) into the gates that authorize them, and the
  effect of the controller's own artifacts (a recorded route, a pending intent, a published review)
  on the next reduction.
\<close>


section \<open>Step shapes\<close>

lemma step_projections [step_simps]:
  "stKind (nothing w) = StepNothing" "stPrincipal (nothing w) = []" "stRemoveLabel (nothing w) = []"
  "stAddLabel (nothing w) = []" "stOccurrence (nothing w) = 0"
  "stKind (record_route pr occ claim head out w) = StepRecordRoute"
  "stPrincipal (record_route pr occ claim head out w) = []"
  "stRemoveLabel (record_route pr occ claim head out w) = []"
  "stAddLabel (record_route pr occ claim head out w) = []"
  "stOccurrence (record_route pr occ claim head out w) = occ"
  "stClaim (record_route pr occ claim head out w) = claim"
  "stHead (record_route pr occ claim head out w) = head"
  "stOutcome (record_route pr occ claim head out w) = out"
  "stPrincipal zeroStep = []" "stRemoveLabel zeroStep = []" "stAddLabel zeroStep = []" "stOutcome zeroStep = []"
  by (simp_all add: nothing_def record_route_def zeroStep_def)

lemma beginReview_kind: "stKind (beginReview u cfg s evs pr t c w) \<in> {StepNothing, StepReview}"
  by (simp add: beginReview_def Let_def step_simps split: prod.split sum.split)

lemma stop_kind:
  "stKind (stop u cfg s evs pr t cur d) \<in> {StepNothing, StepRecordIntent, StepRecordRoute, StepRevoke}"
  by (simp add: stop_def Let_def step_simps split: prod.split)

lemma guard_kind [step_simps]:
  "k \<noteq> StepNothing \<Longrightarrow> stKind (if b then nothing w else x) = k \<longleftrightarrow> \<not> b \<and> stKind x = k"
  by (simp add: step_simps)

lemma beginReview_review:
  assumes "stKind (beginReview u cfg s evs pr t c w) = StepReview"
  shows "\<exists>a profile. missingRequiredLabel u (issLabels (snIssue s)) (cfgRequiredLabels cfg) = []
    \<and> ClaimEpoch u evs (cfgPrincipal cfg) = c \<and> c \<noteq> 0
    \<and> approvalEpochAtOccurrence u evs (cfgRequiredLabels cfg) (trOccurrence t) = (a, True)
    \<and> approvalChangesAfterEpoch u evs (cfgRequiredLabels cfg) a = (False, 0, True)
    \<and> SelectReviewerProfile u cfg (issLabels (snIssue s)) = Inr profile
    \<and> beginReview u cfg s evs pr t c w = zeroStep\<lparr>stKind := StepReview,
        stWhy := (if profile \<noteq> [] then WhyAnd w (NoteProfile profile) else w),
        stPR := pr, stOccurrence := trOccurrence t, stClaim := c, stApproval := a,
        stHead := prHead pr, stReviewerProfile := profile\<rparr>"
proof -
  obtain a ok where a: "approvalEpochAtOccurrence u evs (cfgRequiredLabels cfg) (trOccurrence t) = (a, ok)"
    by fastforce
  obtain r n v where r: "approvalChangesAfterEpoch u evs (cfgRequiredLabels cfg) a = (r, n, v)"
    by (metis prod_cases3)
  note eq = beginReview_def Let_def a r prod.case
  have g: "missingRequiredLabel u (issLabels (snIssue s)) (cfgRequiredLabels cfg) = []"
    "ClaimEpoch u evs (cfgPrincipal cfg) \<noteq> 0" "ClaimEpoch u evs (cfgPrincipal cfg) = c" "ok" "v" "n = 0" "\<not> r"
    using assms unfolding eq
    by (simp_all only: guard_kind StepKind.distinct not_not not_False_eq_True) (elim conjE, simp)
  then obtain profile where p: "SelectReviewerProfile u cfg (issLabels (snIssue s)) = Inr profile"
    using assms unfolding eq by (cases "SelectReviewerProfile u cfg (issLabels (snIssue s))") (simp_all add: step_simps)
  have "beginReview u cfg s evs pr t c w = zeroStep\<lparr>stKind := StepReview,
        stWhy := (if profile \<noteq> [] then WhyAnd w (NoteProfile profile) else w),
        stPR := pr, stOccurrence := trOccurrence t, stClaim := c, stApproval := a,
        stHead := prHead pr, stReviewerProfile := profile\<rparr>"
    unfolding eq using g p by simp
  with g a r p show ?thesis by auto
qed

lemma route_unassign:
  fixes u cfg s evs pr t cur d
  defines "m \<equiv> pbMarker cur"
  assumes "stKind (route u cfg s evs pr t cur d) = StepUnassign"
  shows "fst d = OutcomeRevise \<and> approvalEpochAtOccurrence u evs (cfgRequiredLabels cfg) (trOccurrence t) = (rmApproval m, True)
    \<and> approvalChangesAfterEpoch u evs (cfgRequiredLabels cfg) (rmApproval m) = (False, 0, True)
    \<and> prHead pr = rmHead m \<and> prBaseSHA pr = rmBase m
    \<and> ClaimEpoch u evs (cfgPrincipal cfg) = rmClaim m
    \<and> (missingRequiredLabel u (issLabels (snIssue s)) (cfgRequiredLabels cfg) = []
       \<or> unassignedAfterClaim u evs (cfgPrincipal cfg) (rmClaim m))
    \<and> containsLogin u (issAssignees (snIssue s)) (cfgPrincipal cfg) \<and> length (issAssignees (snIssue s)) = 1
    \<and> route u cfg s evs pr t cur d = zeroStep\<lparr>stKind := StepUnassign,
          stWhy := WhyAnd (snd d) (NoteHandingTo (cfgPrincipal cfg)), stPR := pr, stOccurrence := trOccurrence t,
          stClaim := rmClaim m, stHead := rmHead m, stPrincipal := cfgPrincipal cfg\<rparr>"
proof -
  have ns: "stKind (if b then stop u cfg s evs pr t cur d' else x) = StepUnassign \<longleftrightarrow> \<not> b \<and> stKind x = StepUnassign" for d' b x
    using stop_kind [of u cfg s evs pr t cur d'] by auto
  have nr: "stKind (if b then record_route pr' oc c h ou w else x) = StepUnassign \<longleftrightarrow> \<not> b \<and> stKind x = StepUnassign" for pr' oc c h ou w b x
    by (simp add: step_simps)
  have ni: "stKind (if b then (if b' then record_route pr' oc c h ou w else stop u cfg s evs pr t cur d') else x) = StepUnassign
    \<longleftrightarrow> \<not> b \<and> stKind x = StepUnassign" for pr' oc c h ou w b x b' d'
    using stop_kind [of u cfg s evs pr t cur d'] by (auto simp add: step_simps)
  obtain a ok where a: "approvalEpochAtOccurrence u evs (cfgRequiredLabels cfg) (trOccurrence t) = (a, ok)"
    by fastforce
  obtain r n v where r: "approvalChangesAfterEpoch u evs (cfgRequiredLabels cfg) a = (r, n, v)"
    by (metis prod_cases3)
  note eq = route_def Let_def a r prod.case
  have d: "fst d = OutcomeRevise" using assms(2) unfolding eq by (simp only: ns not_not)
  have g: "missingRequiredLabel u (issLabels (snIssue s)) (cfgRequiredLabels cfg) = []
       \<or> unassignedAfterClaim u evs (cfgPrincipal cfg) (rmClaim m)"
    "ok" "a = rmApproval m" "v" "n = 0" "\<not> r" "prHead pr = rmHead m" "prBaseSHA pr = rmBase m"
    "ClaimEpoch u evs (cfgPrincipal cfg) = rmClaim m"
    "containsLogin u (issAssignees (snIssue s)) (cfgPrincipal cfg)" "length (issAssignees (snIssue s)) = 1"
    using assms(2) unfolding eq m_def
    by (simp_all only: guard_kind ns nr ni StepKind.distinct not_not not_False_eq_True de_Morgan_disj de_Morgan_conj simp_thms)
  have "route u cfg s evs pr t cur d = zeroStep\<lparr>stKind := StepUnassign,
          stWhy := WhyAnd (snd d) (NoteHandingTo (cfgPrincipal cfg)), stPR := pr, stOccurrence := trOccurrence t,
          stClaim := rmClaim m, stHead := rmHead m, stPrincipal := cfgPrincipal cfg\<rparr>"
    unfolding eq using g d unfolding m_def by (simp cong: if_cong) blast
  with g d a r show ?thesis by auto
qed


section \<open>Where a step comes from\<close>

definition intentOn :: "runtime \<Rightarrow> Config \<Rightarrow> Snapshot \<Rightarrow> RouteIntentMarker \<Rightarrow> bool" where
  "intentOn u cfg s m \<longleftrightarrow> routeFor u cfg (snComments s) (riOccurrence m) = None
     \<and> (\<exists>c\<in>set (snComments s). eqFold u (cmAuthor c) (cfgController cfg) \<and> ParseRouteIntentMarker (cmBody c) = Inr m)"

definition deliveryOn :: "runtime \<Rightarrow> Config \<Rightarrow> Snapshot \<Rightarrow> Trigger \<Rightarrow> PullRequest \<Rightarrow> tid \<Rightarrow> tid \<Rightarrow> bool" where
  "deliveryOn u cfg s t pr claim approval \<longleftrightarrow>
     (let events = SortEvents (snEvents s); occ = trOccurrence t
      in \<not> issClosed (snIssue s) \<and> LatestPublished u cfg (snComments s) = Some t
       \<and> publishedOccurrenceOnLog u events occ (cfgTrackerAuthor cfg)
       \<and> routeFor u cfg (snComments s) occ = None
       \<and> claimEpochAtOccurrence u events (cfgPrincipal cfg) occ = (claim, True)
       \<and> snPR s = Some pr \<and> validateSubject u cfg t (Some pr) = None
       \<and> approvalEpochAtOccurrence u events (cfgRequiredLabels cfg) occ = (approval, True))"

lemma intentLoop_sound:
  assumes "intentLoop u cfg all ordered conf cs = (ordered', conf')" and "m \<in> set ordered'"
  shows "m \<in> set ordered \<or> (\<not> routeExists u cfg all (riOccurrence m)
    \<and> (\<exists>c\<in>set cs. eqFold u (cmAuthor c) (cfgController cfg) \<and> ParseRouteIntentMarker (cmBody c) = Inr m))"
  using assms
  by (induction u cfg all ordered conf cs rule: intentLoop.induct)
    (fastforce split: if_splits sum.splits option.splits)+

lemma resumeTerminalIntent_cases:
  assumes "resumeTerminalIntent u cfg s evs = Some step"
  obtains (conflict) w where "step = nothing w"
  | (intent) m where "intentOn u cfg s m" "step = resumeIntent u cfg s evs m"
proof -
  obtain ord conf where l: "intentLoop u cfg (snComments s) [] [] (snComments s) = (ord, conf)" by fastforce
  with assms obtain m ms where m: "sort_key riOccurrence ord = m # ms"
    by (auto simp: resumeTerminalIntent_def split: list.splits)
  then have "m \<in> set ord" by (metis list.set_intros(1) set_sort)
  with l have "intentOn u cfg s m"
    using intentLoop_sound [of u cfg "snComments s" "[]" "[]" "snComments s" ord conf m]
    by (auto simp: intentOn_def routeExists_def)
  with assms l m show thesis
    by (auto simp: resumeTerminalIntent_def split: if_splits intro: conflict intent)
qed

lemma completedFor_unrouted:
  "completedFor u cfg cs ts evs rs t = Some d \<Longrightarrow>
   routeFor u cfg cs (trOccurrence (crTrigger d)) = None \<and> crTrigger d = t"
  by (auto simp: completedFor_def completedAt_def Let_def dest!: firstSome_Some split: prod.splits if_splits option.splits)

lemma reduceLatest_rule:
  assumes idle: "\<And>w. P (nothing w)"
    and delivery: "\<And>t pr claim approval. deliveryOn u cfg s t pr claim approval \<Longrightarrow>
      P (reduceDelivery u cfg s (SortEvents (snEvents s)) trusted profile t pr claim approval)"
  shows "P (reduceLatest u cfg s (SortEvents (snEvents s)) trusted profile (publishedMilestones u cfg (snComments s)))"
proof -
  let ?evs = "SortEvents (snEvents s)" and ?ts = "publishedMilestones u cfg (snComments s)"
  let ?occ = "trOccurrence (last ?ts)"
  obtain c cok where c: "claimEpochAtOccurrence u ?evs (cfgPrincipal cfg) ?occ = (c, cok)" by fastforce
  obtain a aok where a: "approvalEpochAtOccurrence u ?evs (cfgRequiredLabels cfg) ?occ = (a, aok)" by fastforce
  show ?thesis
  proof (cases "\<exists>pr. deliveryOn u cfg s (last ?ts) pr c a")
    case True
    then obtain pr where d: "deliveryOn u cfg s (last ?ts) pr c a" by blast
    then have "reduceLatest u cfg s ?evs trusted profile ?ts = reduceDelivery u cfg s ?evs trusted profile (last ?ts) pr c a"
      using c a by (auto simp: reduceLatest_def deliveryOn_def LatestPublished_def observedPR_def Let_def split: if_splits)
    with delivery [OF d] show ?thesis by simp
  next
    case False
    then show ?thesis
      using c a by (cases "snPR s"; simp add: idle reduceLatest_def deliveryOn_def LatestPublished_def Let_def
          validateSubject_def [of _ _ _ None] split: option.split; auto)
  qed
qed

lemma Reduce_rule [case_names idle intent completed delivery]:
  fixes u cfg s
  defines "events \<equiv> SortEvents (snEvents s)"
  defines "trusted \<equiv> controllerReviews u cfg events (snReviews s) zeroTime"
  assumes idle: "\<And>w. P (nothing w)"
    and intent: "\<And>m profile. Validate u cfg = None \<Longrightarrow> SelectReviewerProfile u cfg (issLabels (snIssue s)) = Inr profile \<Longrightarrow>
      intentOn u cfg s m \<Longrightarrow> P (resumeIntent u cfg s events m)"
    and completed: "\<And>d profile. Validate u cfg = None \<Longrightarrow> SelectReviewerProfile u cfg (issLabels (snIssue s)) = Inr profile \<Longrightarrow>
      completedUnroutedRoute u cfg (snComments s) (publishedMilestones u cfg (snComments s)) events trusted = Some d \<Longrightarrow>
      routeFor u cfg (snComments s) (trOccurrence (crTrigger d)) = None \<Longrightarrow>
      P (record_route (observedPR s) (trOccurrence (crTrigger d)) (crClaim d) (crHead d) (crOutcome d) (crWhy d))"
    and delivery: "\<And>t pr claim approval profile. Validate u cfg = None \<Longrightarrow>
      SelectReviewerProfile u cfg (issLabels (snIssue s)) = Inr profile \<Longrightarrow>
      deliveryOn u cfg s t pr claim approval \<Longrightarrow>
      P (reduceDelivery u cfg s events trusted profile t pr claim approval)"
  shows "P (Reduce u cfg s)"
proof (cases "Validate u cfg")
  case None
  note V = None
  show ?thesis
  proof (cases "SelectReviewerProfile u cfg (issLabels (snIssue s))")
    case (Inr profile)
    note S = Inr
    show ?thesis
    proof (cases "resumeTerminalIntent u cfg s events")
      case (Some step)
      have "P step" by (rule resumeTerminalIntent_cases [OF Some]) (auto simp: idle intro: intent [OF V S])
      with V S Some show ?thesis by (simp add: Reduce_def events_def Let_def)
    next
      case None
      note R = None
      show ?thesis
      proof (cases "completedUnroutedRoute u cfg (snComments s) (publishedMilestones u cfg (snComments s)) events trusted")
        case (Some d)
        then have "routeFor u cfg (snComments s) (trOccurrence (crTrigger d)) = None"
          by (auto simp: completedUnroutedRoute_def dest!: firstSome_Some completedFor_unrouted)
        with V S R Some completed [OF V S Some] show ?thesis
          by (simp add: Reduce_def events_def trusted_def Let_def)
      next
        case None
        have "P (reduceLatest u cfg s events trusted profile (publishedMilestones u cfg (snComments s)))"
          unfolding events_def
          by (rule reduceLatest_rule) (use idle delivery [OF V S] in \<open>auto simp: events_def\<close>)
        with V S R None show ?thesis by (simp add: Reduce_def events_def trusted_def Let_def)
      qed
    qed
  qed (simp add: V Reduce_def idle)
qed (simp add: Reduce_def idle)


lemma reduceDelivery_rule [case_names idle reviewed contested base_moved spent fresh]:
  fixes u cfg s events trusted t pr claim approval profile
  defines "occ \<equiv> trOccurrence t"
  defines "round \<equiv> forApproval (since trusted (cycleStartAtOccurrence u cfg events occ)) approval"
  assumes idle: "\<And>w. P (nothing w)"
    and reviewed: "\<And>cur. reviewFor trusted occ claim approval (prHead pr) (prBaseSHA pr) = Some cur \<Longrightarrow>
      rmReviewerProfile (pbMarker cur) \<in> {[], profile} \<Longrightarrow>
      P (route u cfg s events pr t cur (outcomeFor cfg round (pbMarker cur)))"
    and contested: "\<And>w. P (stop u cfg s events pr t (unreviewed claim) (OutcomeHumanReview, w))"
    and base_moved: "\<And>prior w. reviewFor trusted occ claim approval (prHead pr) (prBaseSHA pr) = None \<Longrightarrow>
      mismatchedReviewForOccurrence trusted occ claim approval = None \<Longrightarrow>
      reviewForHead trusted occ claim approval (prHead pr) = Some prior \<Longrightarrow>
      P (beginReview u cfg s events pr t claim w)"
    and spent: "\<And>out w. out \<in> {OutcomeNoProgress, OutcomeRoundCap} \<Longrightarrow>
      P (stop u cfg s events pr t (unreviewed claim) (out, w))"
    and fresh: "\<And>w. reviewFor trusted occ claim approval (prHead pr) (prBaseSHA pr) = None \<Longrightarrow>
      mismatchedReviewForOccurrence trusted occ claim approval = None \<Longrightarrow>
      reviewForHead trusted occ claim approval (prHead pr) = None \<Longrightarrow>
      prHead pr \<notin> set (distinctHeads round) \<Longrightarrow> int (length (distinctHeads round)) < cfgRoundCap cfg \<Longrightarrow>
      P (beginReview u cfg s events pr t claim w)"
  shows "P (reduceDelivery u cfg s events trusted profile t pr claim approval)"
proof -
  have st: "route u cfg s events pr t cur (out, w) = stop u cfg s events pr t cur (out, w)"
    if "out \<in> {OutcomeNoProgress, OutcomeRoundCap}" for cur out w
    using that by (auto simp: route_def OutcomeNoProgress_def OutcomeRoundCap_def OutcomeRevise_def)
  have ch: "containsHead hs h \<longleftrightarrow> h \<in> set hs" for hs h
    by (auto simp: containsHead_def list_ex_iff)
  note eq = reduceDelivery_def Let_def occ_def [symmetric] round_def [symmetric]
  show ?thesis
  proof (cases "reviewFor trusted occ claim approval (prHead pr) (prBaseSHA pr)")
    case (Some cur)
    then show ?thesis unfolding eq using reviewed by (auto simp: idle)
  next
    case None
    note R = None
    show ?thesis
    proof (cases "mismatchedReviewForOccurrence trusted occ claim approval")
      case (Some cur)
      with R show ?thesis unfolding eq using contested by simp
    next
      case None
      with R show ?thesis unfolding eq
        by (cases "reviewForHead trusted occ claim approval (prHead pr)")
          (simp_all add: ch st spent base_moved fresh)
    qed
  qed
qed


section \<open>What a step may do\<close>

text \<open>
  The permission model of the controller: it unassigns the principal only, when the
  principal is the sole assignee; it removes the queue label only, and adds at most the
  informational label. Every other kind of step names no login and no label.
\<close>

definition permitted :: "runtime \<Rightarrow> Config \<Rightarrow> Snapshot \<Rightarrow> Step \<Rightarrow> bool" where
  "permitted u cfg s step \<longleftrightarrow>
     (if stKind step = StepUnassign
      then stPrincipal step = cfgPrincipal cfg
           \<and> (\<exists>a. issAssignees (snIssue s) = [a] \<and> eqFold u a (cfgPrincipal cfg))
      else stPrincipal step = [])
   \<and> (if stKind step = StepRevoke
      then stRemoveLabel step = cfgQueueLabel cfg \<and> hasLabel u (issLabels (snIssue s)) (cfgQueueLabel cfg)
           \<and> stAddLabel step = addLabelOf cfg
      else stRemoveLabel step = [] \<and> stAddLabel step = [])"

lemma permitted_idle [simp]: "permitted u cfg s (nothing w)"
  by (simp add: permitted_def step_simps)

lemma permitted_record [simp]: "permitted u cfg s (record_route pr occ c h out w)"
  by (simp add: permitted_def step_simps)

lemma permitted_beginReview: "permitted u cfg s (beginReview u cfg s evs pr t c w)"
  by (simp add: beginReview_def Let_def split: prod.split sum.split)
    (simp add: permitted_def step_simps)

lemma permitted_stop: "permitted u cfg s (stop u cfg s evs pr t cur d)"
proof -
  have i: "permitted u cfg s (zeroStep\<lparr>stKind := StepRecordIntent, stWhy := w, stPR := pr, stOccurrence := k,
             stClaim := c, stHead := h, stApproval := a, stOutcome := out\<rparr>)" for w k c h a out
    by (simp add: permitted_def step_simps)
  have r: "hasLabel u (issLabels (snIssue s)) (cfgQueueLabel cfg) \<Longrightarrow>
       permitted u cfg s (zeroStep\<lparr>stKind := StepRevoke, stWhy := w, stPR := pr, stOccurrence := k,
         stClaim := c, stHead := h, stOutcome := out, stRemoveLabel := cfgQueueLabel cfg, stAddLabel := addLabelOf cfg\<rparr>)" for w k c h out
    by (simp add: permitted_def step_simps)
  show ?thesis by (simp add: stop_def Let_def i r split: prod.split)
qed

lemma permitted_route: "permitted u cfg s (route u cfg s evs pr t cur d)"
proof -
  have r: "containsLogin u (issAssignees (snIssue s)) (cfgPrincipal cfg) \<Longrightarrow> length (issAssignees (snIssue s)) = Suc 0 \<Longrightarrow>
      permitted u cfg s (zeroStep\<lparr>stKind := StepUnassign, stWhy := w, stPR := pr, stOccurrence := k,
         stClaim := c, stHead := h, stPrincipal := cfgPrincipal cfg\<rparr>)" for w k c h
    by (auto simp add: permitted_def step_simps containsLogin_def length_Suc_conv)
  show ?thesis by (simp add: route_def Let_def r permitted_stop split: prod.split)
qed

lemma permitted_resume: "permitted u cfg s (resumeIntent u cfg s evs m)"
proof -
  have r: "hasLabel u (issLabels (snIssue s)) (cfgQueueLabel cfg) \<Longrightarrow>
       permitted u cfg s (zeroStep\<lparr>stKind := StepRevoke, stWhy := w, stPR := pr, stOccurrence := k,
         stClaim := c, stHead := h, stOutcome := out, stRemoveLabel := cfgQueueLabel cfg, stAddLabel := addLabelOf cfg\<rparr>)" for w pr k c h out
    by (simp add: permitted_def step_simps)
  show ?thesis by (simp add: resumeIntent_def Let_def r split: prod.split)
qed

lemma permitted_Reduce: "permitted u cfg s (Reduce u cfg s)"
proof (rule Reduce_rule)
  fix t pr claim approval profile
  show "permitted u cfg s (reduceDelivery u cfg s (SortEvents (snEvents s))
      (controllerReviews u cfg (SortEvents (snEvents s)) (snReviews s) zeroTime) profile t pr claim approval)"
    by (rule reduceDelivery_rule) (simp_all add: permitted_route permitted_stop permitted_beginReview)
qed (simp_all add: permitted_resume)


lemma other_kinds [step_simps]:
  "stKind (stop u cfg s evs pr t cur d) \<noteq> StepReview" "stKind (stop u cfg s evs pr t cur d) \<noteq> StepUnassign"
  "stKind (beginReview u cfg s evs pr t c w) \<noteq> StepUnassign" "stKind (beginReview u cfg s evs pr t c w) \<noteq> StepRevoke"
  "stKind (beginReview u cfg s evs pr t c w) \<noteq> StepRecordIntent"
  using stop_kind [of u cfg s evs pr t cur d] beginReview_kind [of u cfg s evs pr t c w] by auto

lemma route_kind [step_simps]: "stKind (route u cfg s evs pr t cur d) \<noteq> StepReview"
  by (simp add: route_def Let_def step_simps split: prod.split)

lemma resumeIntent_kind [step_simps]:
  "stKind (resumeIntent u cfg s evs m) \<noteq> StepReview" "stKind (resumeIntent u cfg s evs m) \<noteq> StepUnassign"
  "stKind (resumeIntent u cfg s evs m) \<noteq> StepRecordIntent"
  by (simp_all add: resumeIntent_def Let_def step_simps split: prod.split)

text \<open>The trusted reviews of the round an occurrence belongs to.\<close>

definition trustedReviews :: "runtime \<Rightarrow> Config \<Rightarrow> Snapshot \<Rightarrow> published list" where
  "trustedReviews u cfg s = controllerReviews u cfg (SortEvents (snEvents s)) (snReviews s) zeroTime"

definition roundHeads :: "runtime \<Rightarrow> Config \<Rightarrow> Snapshot \<Rightarrow> tid \<Rightarrow> tid \<Rightarrow> string list" where
  "roundHeads u cfg s occ approval =
     distinctHeads (forApproval (since (trustedReviews u cfg s)
       (cycleStartAtOccurrence u cfg (SortEvents (snEvents s)) occ)) approval)"

definition reviewStepOf :: "Trigger \<Rightarrow> PullRequest \<Rightarrow> tid \<Rightarrow> tid \<Rightarrow> string \<Rightarrow> why \<Rightarrow> Step" where
  "reviewStepOf t pr claim approval profile w = zeroStep\<lparr>stKind := StepReview,
     stWhy := (if profile \<noteq> [] then WhyAnd w (NoteProfile profile) else w),
     stPR := pr, stOccurrence := trOccurrence t, stClaim := claim, stApproval := approval,
     stHead := prHead pr, stReviewerProfile := profile\<rparr>"

text \<open>The conditions under which a delivery is reviewed.\<close>

definition reviewGate :: "runtime \<Rightarrow> Config \<Rightarrow> Snapshot \<Rightarrow> Trigger \<Rightarrow> PullRequest \<Rightarrow> tid \<Rightarrow> tid \<Rightarrow> string \<Rightarrow> bool" where
  "reviewGate u cfg s t pr claim approval profile \<longleftrightarrow>
     (let events = SortEvents (snEvents s); occ = trOccurrence t; trusted = trustedReviews u cfg s;
          heads = roundHeads u cfg s occ approval
      in Validate u cfg = None \<and> SelectReviewerProfile u cfg (issLabels (snIssue s)) = Inr profile
       \<and> deliveryOn u cfg s t pr claim approval
       \<and> missingRequiredLabel u (issLabels (snIssue s)) (cfgRequiredLabels cfg) = []
       \<and> ClaimEpoch u events (cfgPrincipal cfg) = claim
       \<and> approvalChangesAfterEpoch u events (cfgRequiredLabels cfg) approval = (False, 0, True)
       \<and> reviewFor trusted occ claim approval (prHead pr) (prBaseSHA pr) = None
       \<and> mismatchedReviewForOccurrence trusted occ claim approval = None
       \<and> (reviewForHead trusted occ claim approval (prHead pr) \<noteq> None
          \<or> prHead pr \<notin> set heads \<and> int (length heads) < cfgRoundCap cfg))"

text \<open>The conditions under which the principal's claim is handed back.\<close>

definition handbackGate ::
  "runtime \<Rightarrow> Config \<Rightarrow> Snapshot \<Rightarrow> Trigger \<Rightarrow> PullRequest \<Rightarrow> tid \<Rightarrow> tid \<Rightarrow> string \<Rightarrow> published \<Rightarrow> bool" where
  "handbackGate u cfg s t pr claim approval profile cur \<longleftrightarrow>
     (let events = SortEvents (snEvents s); occ = trOccurrence t; trusted = trustedReviews u cfg s
      in Validate u cfg = None \<and> SelectReviewerProfile u cfg (issLabels (snIssue s)) = Inr profile
       \<and> deliveryOn u cfg s t pr claim approval
       \<and> reviewFor trusted occ claim approval (prHead pr) (prBaseSHA pr) = Some cur
       \<and> rmReviewerProfile (pbMarker cur) \<in> {[], profile}
       \<and> rmVerdict (pbMarker cur) \<noteq> VerdictClean
       \<and> int (length (roundHeads u cfg s occ approval)) < cfgRoundCap cfg
       \<and> ClaimEpoch u events (cfgPrincipal cfg) = claim
       \<and> approvalChangesAfterEpoch u events (cfgRequiredLabels cfg) approval = (False, 0, True)
       \<and> (missingRequiredLabel u (issLabels (snIssue s)) (cfgRequiredLabels cfg) = []
          \<or> unassignedAfterClaim u events (cfgPrincipal cfg) claim)
       \<and> (\<exists>a. issAssignees (snIssue s) = [a] \<and> eqFold u a (cfgPrincipal cfg)))"

lemma deliveryOn_approval:
  "deliveryOn u cfg s t pr c a \<Longrightarrow>
   approvalEpochAtOccurrence u (SortEvents (snEvents s)) (cfgRequiredLabels cfg) (trOccurrence t) = (a, True)"
  by (simp add: deliveryOn_def Let_def)

lemma Reduce_review:
  assumes "stKind (Reduce u cfg s) = StepReview"
  obtains t pr claim approval profile w where "reviewGate u cfg s t pr claim approval profile"
    "Reduce u cfg s = reviewStepOf t pr claim approval profile w"
proof -
  let ?evs = "SortEvents (snEvents s)"
  let ?E = "\<lambda>step. \<exists>t pr claim approval profile w.
    reviewGate u cfg s t pr claim approval profile \<and> step = reviewStepOf t pr claim approval profile w"
  let ?Q = "\<lambda>step. stKind step = StepReview \<longrightarrow> ?E step"
  have "?Q (Reduce u cfg s)"
  proof (rule Reduce_rule)
    fix t pr claim approval profile
    assume V: "Validate u cfg = None" and S: "SelectReviewerProfile u cfg (issLabels (snIssue s)) = Inr profile"
      and D: "deliveryOn u cfg s t pr claim approval"
    have b: "?Q (beginReview u cfg s ?evs pr t claim w0)"
      if c: "reviewFor (trustedReviews u cfg s) (trOccurrence t) claim approval (prHead pr) (prBaseSHA pr) = None"
        "mismatchedReviewForOccurrence (trustedReviews u cfg s) (trOccurrence t) claim approval = None"
        "reviewForHead (trustedReviews u cfg s) (trOccurrence t) claim approval (prHead pr) \<noteq> None
          \<or> prHead pr \<notin> set (roundHeads u cfg s (trOccurrence t) approval)
            \<and> int (length (roundHeads u cfg s (trOccurrence t) approval)) < cfgRoundCap cfg" for w0
    proof
      assume "stKind (beginReview u cfg s ?evs pr t claim w0) = StepReview"
      from beginReview_review [OF this] obtain w where "reviewGate u cfg s t pr claim approval profile"
        "beginReview u cfg s ?evs pr t claim w0 = reviewStepOf t pr claim approval profile w"
        using c V S D deliveryOn_approval [OF D] by (auto simp: reviewGate_def Let_def reviewStepOf_def)
      then show "?E (beginReview u cfg s ?evs pr t claim w0)" by blast
    qed
    show "?Q (reduceDelivery u cfg s ?evs (controllerReviews u cfg ?evs (snReviews s) zeroTime) profile t pr claim approval)"
      by (rule reduceDelivery_rule [where P = ?Q], unfold trustedReviews_def [symmetric] roundHeads_def [symmetric])
        ((rule b; simp; fail) | simp add: step_simps)+
  qed (simp_all add: step_simps)
  with assms show thesis using that by metis
qed

lemma outcomeFor_revise:
  "fst (outcomeFor cfg reviews m) = OutcomeRevise \<longleftrightarrow>
   rmVerdict m \<noteq> VerdictClean \<and> int (length (distinctHeads reviews)) < cfgRoundCap cfg"
  by (auto simp: outcomeFor_def Let_def OutcomeRevise_def OutcomeHumanReview_def OutcomeRoundCap_def)

lemma reviewFor_Some:
  assumes "reviewFor rs occ claim approval head base = Some cur"
  shows "cur \<in> set rs" "rmOccurrence (pbMarker cur) = occ" "rmClaim (pbMarker cur) = claim"
    "rmApproval (pbMarker cur) = approval" "rmHead (pbMarker cur) = head" "rmBase (pbMarker cur) = base"
  using assms by (auto simp: reviewFor_def dest!: firstSuch_Some)

lemma Reduce_unassign:
  assumes "stKind (Reduce u cfg s) = StepUnassign"
  obtains t pr claim approval profile cur w where "handbackGate u cfg s t pr claim approval profile cur"
    "Reduce u cfg s = zeroStep\<lparr>stKind := StepUnassign, stWhy := w, stPR := pr, stOccurrence := trOccurrence t,
       stClaim := claim, stHead := prHead pr, stPrincipal := cfgPrincipal cfg\<rparr>"
proof -
  let ?evs = "SortEvents (snEvents s)"
  let ?step = "\<lambda>t pr claim w. zeroStep\<lparr>stKind := StepUnassign, stWhy := w, stPR := pr, stOccurrence := trOccurrence t,
       stClaim := claim, stHead := prHead pr, stPrincipal := cfgPrincipal cfg\<rparr>"
  let ?E = "\<lambda>step. \<exists>t pr claim approval profile cur w.
    handbackGate u cfg s t pr claim approval profile cur \<and> step = ?step t pr claim w"
  let ?Q = "\<lambda>step. stKind step = StepUnassign \<longrightarrow> ?E step"
  have "?Q (Reduce u cfg s)"
  proof (rule Reduce_rule)
    fix t pr claim approval profile
    assume V: "Validate u cfg = None" and S: "SelectReviewerProfile u cfg (issLabels (snIssue s)) = Inr profile"
      and D: "deliveryOn u cfg s t pr claim approval"
    show "?Q (reduceDelivery u cfg s ?evs (controllerReviews u cfg ?evs (snReviews s) zeroTime) profile t pr claim approval)"
    proof (rule reduceDelivery_rule [where P = ?Q], unfold trustedReviews_def [symmetric])
      fix cur :: published
      let ?round = "forApproval (since (trustedReviews u cfg s) (cycleStartAtOccurrence u cfg ?evs (trOccurrence t))) approval"
      let ?d = "outcomeFor cfg ?round (pbMarker cur)"
      assume R: "reviewFor (trustedReviews u cfg s) (trOccurrence t) claim approval (prHead pr) (prBaseSHA pr) = Some cur"
        and p: "rmReviewerProfile (pbMarker cur) \<in> {[], profile}"
      show "?Q (route u cfg s ?evs pr t cur ?d)"
      proof
        assume k: "stKind (route u cfg s ?evs pr t cur ?d) = StepUnassign"
        note f = route_unassign [OF k] and m = reviewFor_Some [OF R]
        have "handbackGate u cfg s t pr claim approval profile cur"
          using f m V S D R p outcomeFor_revise [of cfg ?round "pbMarker cur"] length_Suc_conv [of "issAssignees (snIssue s)" 0]
          by (auto simp: handbackGate_def Let_def roundHeads_def containsLogin_def)
        moreover have "\<exists>w. route u cfg s ?evs pr t cur ?d = ?step t pr claim w" using f m by auto
        ultimately show "?E (route u cfg s ?evs pr t cur ?d)" by blast
      qed
    qed (simp_all add: step_simps)
  qed (simp_all add: step_simps)
  with assms show thesis using that by metis
qed

section \<open>No occurrence is driven twice\<close>

definition unrouted :: "runtime \<Rightarrow> Config \<Rightarrow> Snapshot \<Rightarrow> Step \<Rightarrow> bool" where
  "unrouted u cfg s step \<longleftrightarrow>
     (stKind step = StepNothing \<or> routeFor u cfg (snComments s) (stOccurrence step) = None)"

lemma unrouted_idle [simp]: "unrouted u cfg s (nothing w)"
  by (simp add: unrouted_def step_simps)

lemma unrouted_record [simp]:
  "unrouted u cfg s (record_route pr occ c h out w) \<longleftrightarrow> routeFor u cfg (snComments s) occ = None"
  by (simp add: unrouted_def step_simps)

lemma unrouted_Reduce: "unrouted u cfg s (Reduce u cfg s)"
proof (rule Reduce_rule)
  fix t pr claim approval profile
  let ?evs = "SortEvents (snEvents s)"
  assume D: "deliveryOn u cfg s t pr claim approval"
  then have r: "routeFor u cfg (snComments s) (trOccurrence t) = None" by (simp add: deliveryOn_def Let_def)
  have z: "unrouted u cfg s (zeroStep\<lparr>stKind := k, stWhy := w, stPR := pr, stOccurrence := trOccurrence t,
      stClaim := c, stHead := h, stApproval := a, stOutcome := out\<rparr>)"
    "unrouted u cfg s (zeroStep\<lparr>stKind := k, stWhy := w, stPR := pr, stOccurrence := trOccurrence t,
      stClaim := c, stHead := h, stOutcome := out, stRemoveLabel := rl, stAddLabel := al\<rparr>)"
    "unrouted u cfg s (zeroStep\<lparr>stKind := k, stWhy := w, stPR := pr, stOccurrence := trOccurrence t,
      stClaim := c, stHead := h, stPrincipal := p\<rparr>)"
    "unrouted u cfg s (zeroStep\<lparr>stKind := k, stWhy := w, stPR := pr, stOccurrence := trOccurrence t,
      stClaim := c, stApproval := a, stHead := h, stReviewerProfile := p\<rparr>)" for k w c h a out rl al p
    using r by (simp_all add: unrouted_def)
  have st: "unrouted u cfg s (stop u cfg s ?evs pr t cur d)" for cur d
    by (simp add: stop_def Let_def z r split: prod.split)
  have ro: "unrouted u cfg s (route u cfg s ?evs pr t cur d)" for cur d
    by (simp add: route_def Let_def st z r split: prod.split)
  have be: "unrouted u cfg s (beginReview u cfg s ?evs pr t claim w)" for w
    by (simp add: beginReview_def Let_def z r split: prod.split sum.split)
  show "unrouted u cfg s (reduceDelivery u cfg s ?evs
      (controllerReviews u cfg ?evs (snReviews s) zeroTime) profile t pr claim approval)"
    by (rule reduceDelivery_rule) (simp_all add: st ro be)
next
  fix m
  assume "intentOn u cfg s m"
  then have "routeFor u cfg (snComments s) (riOccurrence m) = None" by (simp add: intentOn_def)
  then show "unrouted u cfg s (resumeIntent u cfg s (SortEvents (snEvents s)) m)"
    by (simp add: resumeIntent_def Let_def unrouted_def step_simps split: prod.split)
qed simp_all

lemma routeFor_present:
  assumes "c \<in> set cs" and "eqFold u (cmAuthor c) (cfgController cfg)" and "ParseRouteMarker (cmBody c) = Inr m"
  shows "routeFor u cfg cs (rtOccurrence m) \<noteq> None"
  using assms unfolding routeFor_def firstSome_None_iff by (fastforce simp: routeOf_def)

section \<open>A pending terminal intent\<close>

lemma intentLoop_grows: "intentLoop u cfg all ordered conf cs = (ordered', conf') \<Longrightarrow> ordered \<noteq> [] \<Longrightarrow> ordered' \<noteq> []"
  by (induction u cfg all ordered conf cs rule: intentLoop.induct) (auto split: if_splits sum.splits option.splits)

lemma intentLoop_complete:
  assumes "intentLoop u cfg all ordered conf cs = (ordered', conf')"
    and "c \<in> set cs" and "eqFold u (cmAuthor c) (cfgController cfg)" and "ParseRouteIntentMarker (cmBody c) = Inr m"
    and "\<not> routeExists u cfg all (riOccurrence m)"
  shows "ordered' \<noteq> []"
  using assms
proof (induction u cfg all ordered conf cs rule: intentLoop.induct)
  case (2 u cfg all ordered conf d cs)
  show ?case
  proof (cases "c = d")
    case True
    with 2 show ?thesis
      by (auto dest: intentLoop_grows firstSuch_Some split: option.splits)
  next
    case False
    with 2 show ?thesis by (auto split: if_splits sum.splits option.splits)
  qed
qed simp

lemma resumeTerminalIntent_present:
  assumes "intentOn u cfg s m"
  shows "\<exists>step. resumeTerminalIntent u cfg s evs = Some step"
proof -
  obtain ord conf where l: "intentLoop u cfg (snComments s) [] [] (snComments s) = (ord, conf)" by fastforce
  from assms have "ord \<noteq> []"
    using intentLoop_complete [OF l] by (auto simp: intentOn_def routeExists_def)
  then have "sort_key riOccurrence ord \<noteq> []" by (metis length_sort length_0_conv)
  with l show ?thesis by (auto simp: resumeTerminalIntent_def split: list.split)
qed

lemma pending_intent_kind:
  assumes "intentOn u cfg s m"
  shows "stKind (Reduce u cfg s) \<in> {StepNothing, StepRecordRoute, StepRevoke}"
proof -
  obtain step where st: "resumeTerminalIntent u cfg s (SortEvents (snEvents s)) = Some step"
    using resumeTerminalIntent_present [OF assms] by blast
  have "stKind (resumeIntent u cfg s evs m) \<in> {StepNothing, StepRecordRoute, StepRevoke}" for evs m
    by (simp add: resumeIntent_def Let_def step_simps split: prod.split)
  with st have "stKind step \<in> {StepNothing, StepRecordRoute, StepRevoke}"
    by (cases rule: resumeTerminalIntent_cases [OF st]) (auto simp: step_simps)
  with st show ?thesis
    by (simp add: Reduce_def Let_def step_simps split: option.split sum.split)
qed

section \<open>A published review settles its delivery\<close>

text \<open>What the driver publishes for a review step: the marker and the review the forge shows.\<close>

definition markerOf :: "Step \<Rightarrow> Verdict \<Rightarrow> ReviewMarker" where
  "markerOf step v = \<lparr>rmOccurrence = stOccurrence step, rmClaim = stClaim step, rmApproval = stApproval step,
     rmHead = stHead step, rmBase = prBaseSHA (stPR step), rmVerdict = v, rmReviewerProfile = stReviewerProfile step\<rparr>"

definition publishedAs :: "runtime \<Rightarrow> Config \<Rightarrow> Step \<Rightarrow> Verdict \<Rightarrow> string \<Rightarrow> Review \<Rightarrow> bool" where
  "publishedAs u cfg step v findings r \<longleftrightarrow> eqFold u (rvAuthor r) (cfgController cfg)
     \<and> rvState r = ReviewStateCommented \<and> rvCommitID r = stHead step \<and> \<not> rvSubmittedAt r < zeroTime
     \<and> rvBody r = ReviewBody (markerOf step v) findings"

text \<open>Event ids are positive \<open>int64\<close> values.\<close>

definition idsValid :: "Event list \<Rightarrow> bool" where
  "idsValid evs \<longleftrightarrow> (\<forall>e\<in>set evs. validID (evID e))"

lemma idsValid_sort [simp]: "idsValid (SortEvents evs) = idsValid evs"
  by (simp add: idsValid_def SortEvents_def)

lemma claim_fold_id: "fold (claimStep u p) evs c \<in> insert c (insert 0 (evID ` set evs))"
proof (induction evs arbitrary: c)
  case (Cons e evs)
  then show ?case using Cons [of "claimStep u p e c"] by (auto simp: claimStep_def split: if_splits)
qed simp

lemma approval_fold_ids: "set (fold (approvalStep u req) evs es) \<subseteq> insert 0 (set es \<union> evID ` set evs)"
proof (induction evs arbitrary: es)
  case (Cons e evs)
  have "set (approvalStep u req e es) \<subseteq> insert 0 (insert (evID e) (set es))"
    by (auto simp: approvalStep_def dest: set_update_subset_insert [THEN subsetD] split: option.splits if_splits)
  then show ?case using Cons [of "approvalStep u req e es"] by auto
qed auto

lemma claimAt_valid:
  assumes "claimEpochAtOccurrence u evs p occ = (c, True)" and "idsValid evs"
  shows "validID c"
proof -
  obtain pre e post where "evs = pre @ e # post" "(c, True) = (\<lambda>x. (x, x > 0)) (fold (claimStep u p) (pre @ [e]) 0)"
    using claim_at.at_ok [of u evs p occ] assms(1) by (metis snd_conv)
  then show ?thesis using claim_fold_id [of u p "pre @ [e]" 0] assms(2) by (auto simp: idsValid_def)
qed

lemma approvalAt_valid:
  assumes "approvalEpochAtOccurrence u evs req occ = (a, True)" and "idsValid evs"
  shows "validID a"
proof -
  obtain pre e post where s: "evs = pre @ e # post"
    and "completeApprovalEpoch (fold (approvalStep u req) (pre @ [e]) (noEpochs req)) = (a, True)"
    using approval_at.at_ok [of u evs req occ] assms(1) by (metis snd_conv)
  then have m: "a \<in> set (fold (approvalStep u req) (pre @ [e]) (noEpochs req))" and "a > 0"
    by (auto simp only: completeApprovalEpoch_iff intro: Max_in)
  with approval_fold_ids [of u req "pre @ [e]" "noEpochs req"] have "a \<in> evID ` set evs"
    using s by (auto simp: noEpochs_def)
  with assms(2) show ?thesis by (auto simp: idsValid_def)
qed

lemma milestoneLoop_sound:
  "t \<in> set (milestoneLoop u cfg out cs) \<Longrightarrow> t \<in> set out \<or>
   (\<exists>c\<in>set cs. eqFold u (cmAuthor c) (cfgTrackerAuthor cfg) \<and> PublishedOccurrence (cmBody c) = Inr (trOccurrence t)
      \<and> publishedPRLink (cmBody c) = Some (trPRURL t) \<and> trAt t = cmCreatedAt c \<and> trCommentID t = cmID c)"
  by (induction u cfg out cs rule: milestoneLoop.induct) (fastforce split: if_splits sum.splits option.splits)+

lemma LatestPublished_sound:
  assumes "LatestPublished u cfg cs = Some t"
  shows "\<exists>c\<in>set cs. eqFold u (cmAuthor c) (cfgTrackerAuthor cfg) \<and> PublishedOccurrence (cmBody c) = Inr (trOccurrence t)
      \<and> publishedPRLink (cmBody c) = Some (trPRURL t) \<and> trAt t = cmCreatedAt c \<and> trCommentID t = cmID c"
proof -
  have "t \<in> set (milestoneLoop u cfg [] cs)"
    using assms last_in_set [of "publishedMilestones u cfg cs"]
    by (auto simp: LatestPublished_def Let_def publishedMilestones_def split: if_splits)
  from milestoneLoop_sound [OF this] show ?thesis by simp
qed

lemma PublishedOccurrence_valid: "PublishedOccurrence body = Inr occ \<Longrightarrow> validID occ"
  by (auto simp: PublishedOccurrence_def andThen_Inr dest: fieldID_valid split: if_splits)

lemma validatePR_ok:
  assumes "validatePR u cfg pr = None"
  shows "\<not> prClosed pr" "\<not> prMerged pr" "prBranch pr = Branch cfg" "isFullSHA (prHead pr)" "isFullSHA (prBaseSHA pr)"
    "closingIssues u cfg (prBody pr) = ([cfgIssue cfg], False)" "trimSpace (prBase pr) \<noteq> []"
proof -
  show "\<not> prClosed pr" "\<not> prMerged pr" "prBranch pr = Branch cfg" "isFullSHA (prHead pr)"
    "isFullSHA (prBaseSHA pr)" "trimSpace (prBase pr) \<noteq> []"
    using assms by (auto simp: validatePR_def split: if_splits)
  have "validateClosing u cfg pr = None" using assms by (auto simp: validatePR_def split: if_splits)
  then show "closingIssues u cfg (prBody pr) = ([cfgIssue cfg], False)"
    by (auto simp: validateClosing_def split: prod.splits if_splits list.splits)
qed

lemma validateSubject_ok:
  assumes "validateSubject u cfg t (Some pr) = None"
  shows "validatePR u cfg pr = None" "trimSpace (trPRURL t) = trimSpace (prURL pr)"
    "\<exists>owner repo. ParsePRURL u (trPRURL t) = Inr (owner, repo, prNumber pr)
       \<and> eqFold u owner (cfgOwner cfg) \<and> eqFold u repo (cfgRepo cfg)"
  using assms by (auto simp: validateSubject_def split: sum.splits prod.splits if_splits)

lemma reviewStepOf_fields [step_simps]:
  "stKind (reviewStepOf t pr c a p w) = StepReview" "stOccurrence (reviewStepOf t pr c a p w) = trOccurrence t"
  "stClaim (reviewStepOf t pr c a p w) = c" "stApproval (reviewStepOf t pr c a p w) = a"
  "stHead (reviewStepOf t pr c a p w) = prHead pr" "stPR (reviewStepOf t pr c a p w) = pr"
  "stReviewerProfile (reviewStepOf t pr c a p w) = p"
  by (simp_all add: reviewStepOf_def)

lemma reviewGate_marker_valid:
  assumes g: "reviewGate u cfg s t pr c a p" and "idsValid (snEvents s)"
    and v: "v = VerdictClean \<or> v = VerdictChangesRequested"
  shows "validReview (markerOf (reviewStepOf t pr c a p w) v)"
proof -
  have D: "deliveryOn u cfg s t pr c a" using g by (simp add: reviewGate_def Let_def)
  then have "validID (trOccurrence t)"
    using LatestPublished_sound PublishedOccurrence_valid by (fastforce simp: deliveryOn_def Let_def)
  moreover have "validID c" "validID a"
    using D assms(2) claimAt_valid [of u "SortEvents (snEvents s)"] approvalAt_valid [of u "SortEvents (snEvents s)"]
    by (auto simp: deliveryOn_def Let_def)
  moreover have "validatePR u cfg pr = None" using D validateSubject_ok by (auto simp: deliveryOn_def Let_def)
  note validatePR_ok [OF this]
  moreover have "p = [] \<or> ValidReviewerProfile p"
    using g Select_valid by (auto simp: reviewGate_def Let_def)
  ultimately show ?thesis using v by (auto simp: validReview_def markerOf_def step_simps)
qed

lemma deliveryOn_reviews [simp]: "deliveryOn u cfg (s\<lparr>snReviews := rs\<rparr>) t pr c a = deliveryOn u cfg s t pr c a"
  by (simp add: deliveryOn_def)

lemma deliveryOn_unique:
  "deliveryOn u cfg s t pr c a \<Longrightarrow> deliveryOn u cfg s t' pr' c' a' \<Longrightarrow> t = t' \<and> pr = pr' \<and> c = c' \<and> a = a'"
  by (auto simp: deliveryOn_def Let_def)

lemma trustedReviews_append:
  "trustedReviews u cfg (s\<lparr>snReviews := snReviews s @ [r]\<rparr>) =
   trustedReviews u cfg s @ (case trustReview u cfg (SortEvents (snEvents s)) zeroTime r of None \<Rightarrow> [] | Some p \<Rightarrow> [p])"
  by (simp add: trustedReviews_def controllerReviews_def List.map_filter_def split: option.split)

lemma trustReview_published:
  assumes "publishedAs u cfg step v findings r" and "validReview (markerOf step v)"
  shows "trustReview u cfg evs zeroTime r = Some \<lparr>pbReview = r, pbMarker = markerOf step v, pbZero = False\<rparr>"
proof -
  obtain pre where "framed pre" "ReviewBody (markerOf step v) findings = pre @ ReviewMarker_String (markerOf step v) @ nl"
    using ReviewBody_frame [OF assms(2)] by blast
  then have "ParseReviewMarker (rvBody r) = Inr (markerOf step v)"
    using review_codec.parse_framed [OF assms(2)] assms(1) by (simp add: publishedAs_def)
  moreover have "rmHead (markerOf step v) = stHead step" "rmApproval (markerOf step v) \<noteq> 0"
    using assms(2) by (simp_all add: markerOf_def validReview_def validID_def)
  ultimately show ?thesis using assms(1) by (simp add: trustReview_def publishedAs_def)
qed

lemma roundHeads_append:
  assumes "trustReview u cfg (SortEvents (snEvents s)) zeroTime r = Some p"
  shows "set (roundHeads u cfg (s\<lparr>snReviews := snReviews s @ [r]\<rparr>) occ a)
    \<subseteq> insert (rmHead (pbMarker p)) (set (roundHeads u cfg s occ a))"
proof -
  have "trustedReviews u cfg (s\<lparr>snReviews := snReviews s @ [r]\<rparr>) = trustedReviews u cfg s @ [p]"
    using assms by (simp add: trustedReviews_append)
  then show ?thesis by (auto simp: roundHeads_def distinctHeads_def forApproval_def since_def)
qed

lemma length_roundHeads: "length (roundHeads u cfg s occ a) = card (set (roundHeads u cfg s occ a))"
  by (simp add: roundHeads_def distinctHeads_def length_distinctFirst)

lemma base_moved_head:
  assumes "reviewForHead (trustedReviews u cfg s) occ c a head \<noteq> None"
    and "\<forall>p\<in>set (trustedReviews u cfg s). rmApproval (pbMarker p) = a \<longrightarrow>
      cycleStartAtOccurrence u cfg (SortEvents (snEvents s)) occ \<le> rvSubmittedAt (pbReview p)"
  shows "head \<in> set (roundHeads u cfg s occ a)"
proof -
  obtain p where "p \<in> set (trustedReviews u cfg s)" "rmApproval (pbMarker p) = a" "rmHead (pbMarker p) = head"
    using assms(1) by (auto simp: reviewForHead_def dest!: firstSuch_Some)
  with assms(2) show ?thesis
    by (force simp: roundHeads_def distinctHeads_def forApproval_def since_def)
qed

lemma round_cap_step:
  assumes g: "reviewGate u cfg s t pr c a p"
    and r: "trustReview u cfg (SortEvents (snEvents s)) zeroTime r = Some q" "rmHead (pbMarker q) = prHead pr"
    and cap: "int (length (roundHeads u cfg s (trOccurrence t) a)) \<le> cfgRoundCap cfg"
    and timely: "\<forall>p\<in>set (trustedReviews u cfg s). rmApproval (pbMarker p) = a \<longrightarrow>
      cycleStartAtOccurrence u cfg (SortEvents (snEvents s)) (trOccurrence t) \<le> rvSubmittedAt (pbReview p)"
  shows "int (length (roundHeads u cfg (s\<lparr>snReviews := snReviews s @ [r]\<rparr>) (trOccurrence t) a)) \<le> cfgRoundCap cfg"
proof -
  let ?h = "set (roundHeads u cfg s (trOccurrence t) a)"
  have sub: "card (set (roundHeads u cfg (s\<lparr>snReviews := snReviews s @ [r]\<rparr>) (trOccurrence t) a))
      \<le> card (insert (prHead pr) ?h)"
    using roundHeads_append [OF r(1)] r(2) by (intro card_mono) auto
  have "prHead pr \<in> ?h \<or> int (card ?h) < cfgRoundCap cfg"
    using g base_moved_head [OF _ timely, of c "prHead pr"]
    by (auto simp: reviewGate_def Let_def length_roundHeads)
  then have "int (card (insert (prHead pr) ?h)) \<le> cfgRoundCap cfg"
    using cap by (auto simp: length_roundHeads insert_absorb card_insert_if)
  with sub show ?thesis by (simp add: length_roundHeads)
qed

lemma trusted_sound:
  assumes "p \<in> set (trustedReviews u cfg s)"
  shows "\<exists>r\<in>set (snReviews s). pbReview p = r \<and> eqFold u (rvAuthor r) (cfgController cfg)
    \<and> rvState r = ReviewStateCommented \<and> rvCommitID r = rmHead (pbMarker p)
    \<and> (\<exists>a. ParseReviewMarker (rvBody r) = Inr ((pbMarker p)\<lparr>rmApproval := a\<rparr>))"
proof -
  obtain r where r: "r \<in> set (snReviews s)" "trustReview u cfg (SortEvents (snEvents s)) zeroTime r = Some p"
    using assms by (auto simp: trustedReviews_def controllerReviews_def List.map_filter_def)
  have same: "\<exists>a. x = x\<lparr>rmApproval := a\<rparr>" for x :: ReviewMarker
    by (rule exI [of _ "rmApproval x"]) simp
  from r obtain m where m: "ParseReviewMarker (rvBody r) = Inr m" "\<exists>a. m = (pbMarker p)\<lparr>rmApproval := a\<rparr>"
    "rmHead m = rvCommitID r" "rmHead (pbMarker p) = rmHead m" "pbReview p = r"
    by (auto simp: same trustReview_def Let_def split: if_splits sum.splits)
  with r show ?thesis by (auto simp: trustReview_def split: if_splits)
qed

lemma trusted_verdict:
  assumes "p \<in> set (trustedReviews u cfg s)"
  shows "rmVerdict (pbMarker p) = VerdictClean \<or> rmVerdict (pbMarker p) = VerdictChangesRequested"
  using trusted_sound [OF assms] ParseReviewMarker_valid by (fastforce simp: parsedReview_def)

end
