(* ===== verification/RevTerminal.thy ===== *)
theory RevTerminal
  imports RevReduceFacts
begin

text \<open>
  The terminal path of the review reducer: a stop decided without a review is first recorded
  as an intent, and the recorded intent is then resumed. Shown here: the workspace-cycle anchor
  is its own anchor on an ordered log, where an intent step comes from, and what the reducer
  answers once the intent is on the issue.
\<close>

section \<open>A terminal decision runs to its end\<close>

definition logOrdered :: "Event list \<Rightarrow> bool" where
  "logOrdered evs \<longleftrightarrow> sorted_wrt (<) (map evID evs)"

lemma label_fold_value:
  "fst (fold (labelStep u l) q st) = fst st \<or> fst (fold (labelStep u l) q st) \<in> insert 0 (evID ` set q)"
proof (induction q arbitrary: st)
  case (Cons e q)
  have "fst (labelStep u l e st) \<in> {fst st, 0, evID e}" by (simp add: labelStep_def)
  then show ?case using Cons [of "labelStep u l e st"] by auto
qed simp

lemma anchor_is_self_anchored:
  assumes d: "labelsDistinct u req" and o: "logOrdered evs"
    and a: "approvalEpochAtOccurrence u evs req occ = (a, True)"
  shows "approvalEpochAtOccurrence u evs req a = (a, True)"
proof -
  obtain pre e post where s: "evs = pre @ e # post" "evID e = occ" "occ \<notin> evID ` set (pre @ post)"
    and r: "approvalEpochAtOccurrence u evs req occ = completeApprovalEpoch (fold (approvalStep u req) (pre @ [e]) (noEpochs req))"
    using approval_at.at_ok [of u evs req occ] a by (metis snd_conv)
  then have st: "standingApproval u req (pre @ [e]) = (a, True)" using a by (simp add: standingApproval_def)
  then have ne: "req \<noteq> []" and pos: "\<forall>l\<in>set req. standingSince u l (pre @ [e]) > 0"
    and mx: "a = Max ((\<lambda>l. standingSince u l (pre @ [e])) ` set req)"
    using standingApproval_iff [OF d] by auto
  from ne mx have "a \<in> (\<lambda>l. standingSince u l (pre @ [e])) ` set req" by (auto intro: Max_in)
  then obtain l where l: "l \<in> set req" "a = standingSince u l (pre @ [e])" by blast
  with pos have "a \<in> evID ` set (pre @ [e])"
    using label_fold_value [of u l "pre @ [e]" "(0, False)"] by (auto simp: standingSince_def)
  then obtain p x q where pq: "pre @ [e] = p @ x # q" "evID x = a" by (metis imageE split_list)
  have ev: "evs = p @ x # (q @ post)" using s(1) pq(1) by (metis Cons_eq_appendI append.assoc append_Nil)
  have gt: "\<forall>z\<in>set q. a < evID z" and un: "a \<notin> evID ` set (p @ q @ post)"
    using o pq(2) unfolding ev logOrdered_def by (force simp: sorted_wrt_append)+
  have "standingSince u l (p @ [x]) = standingSince u l (pre @ [e])" if "l \<in> set req" for l
  proof -
    have "standingSince u l (pre @ [e]) \<le> a" using that mx by simp
    then have "standingSince u l (pre @ [e]) \<notin> insert 0 (evID ` set q)" using pos that gt by force
    then show ?thesis
      using label_fold_value [of u l q "fold (labelStep u l) (p @ [x]) (0, False)"]
      by (simp add: standingSince_def pq(1))
  qed
  then have "standingApproval u req (p @ [x]) = (a, True)"
    using ne pos mx by (simp add: standingApproval_iff [OF d])
  then show ?thesis using approvalAt_replay [of evs p x "q @ post" a u req] ev pq(2) un by simp
qed

lemma approvalChangesLoop_valid: "\<exists>r n. approvalChangesLoop u req epoch es after removed evs = (r, n, True)"
  by (induction u req epoch es after removed evs rule: approvalChangesLoop.induct)
    (auto simp: Let_def split: prod.splits)

lemma approvalChanges_valid:
  "approvalEpochAtOccurrence u evs req a = (a, True) \<Longrightarrow> \<exists>r n. approvalChangesAfterEpoch u evs req a = (r, n, True)"
  using approvalChangesLoop_valid by (simp add: approvalChangesAfterEpoch_def)

lemma stop_intent:
  assumes "stKind (stop u cfg s evs pr t cur d) = StepRecordIntent"
  shows "pbZero cur \<and> (\<exists>a. approvalEpochAtOccurrence u evs (cfgRequiredLabels cfg) (trOccurrence t) = (a, True)
    \<and> stop u cfg s evs pr t cur d = zeroStep\<lparr>stKind := StepRecordIntent, stWhy := snd d, stPR := pr,
        stOccurrence := trOccurrence t, stClaim := rmClaim (pbMarker cur), stHead := prHead pr, stApproval := a, stOutcome := fst d\<rparr>)"
  using assms by (auto simp: stop_def Let_def headOf_def step_simps split: prod.splits if_splits)

lemma stop_reviewed_no_intent [step_simps]: "\<not> pbZero cur \<Longrightarrow> stKind (stop u cfg s evs pr t cur d) \<noteq> StepRecordIntent"
  using stop_intent by blast

lemma route_reviewed_no_intent [step_simps]:
  "\<not> pbZero cur \<Longrightarrow> stKind (route u cfg s evs pr t cur d) \<noteq> StepRecordIntent"
  by (simp add: route_def Let_def step_simps split: prod.split)

lemma trusted_not_zero: "p \<in> set (trustedReviews u cfg s) \<Longrightarrow> \<not> pbZero p"
  by (auto simp: trustedReviews_def controllerReviews_def List.map_filter_def trustReview_def Let_def split: if_splits sum.splits)

definition intentStepOf :: "Trigger \<Rightarrow> PullRequest \<Rightarrow> tid \<Rightarrow> tid \<Rightarrow> Outcome \<Rightarrow> why \<Rightarrow> Step" where
  "intentStepOf t pr claim approval out w = zeroStep\<lparr>stKind := StepRecordIntent, stWhy := w, stPR := pr,
     stOccurrence := trOccurrence t, stClaim := claim, stHead := prHead pr, stApproval := approval, stOutcome := out\<rparr>"

lemma Reduce_intent:
  assumes "stKind (Reduce u cfg s) = StepRecordIntent"
  obtains t pr claim approval out w where "Validate u cfg = None" "deliveryOn u cfg s t pr claim approval"
    "out \<in> {OutcomeHumanReview, OutcomeNoProgress, OutcomeRoundCap}"
    "Reduce u cfg s = intentStepOf t pr claim approval out w"
proof -
  let ?evs = "SortEvents (snEvents s)"
  let ?E = "\<lambda>step. \<exists>t pr claim approval out w. Validate u cfg = None \<and> deliveryOn u cfg s t pr claim approval
    \<and> out \<in> {OutcomeHumanReview, OutcomeNoProgress, OutcomeRoundCap} \<and> step = intentStepOf t pr claim approval out w"
  let ?Q = "\<lambda>step. stKind step = StepRecordIntent \<longrightarrow> ?E step"
  have "?Q (Reduce u cfg s)"
  proof (rule Reduce_rule)
    fix t pr claim approval profile
    assume V: "Validate u cfg = None" and D: "deliveryOn u cfg s t pr claim approval"
    have st: "?Q (stop u cfg s ?evs pr t (unreviewed claim) (out, w))"
      if o: "out \<in> {OutcomeHumanReview, OutcomeNoProgress, OutcomeRoundCap}" for out w
    proof
      assume "stKind (stop u cfg s ?evs pr t (unreviewed claim) (out, w)) = StepRecordIntent"
      from stop_intent [OF this] have "stop u cfg s ?evs pr t (unreviewed claim) (out, w) = intentStepOf t pr claim approval out w"
        using deliveryOn_approval [OF D] by (auto simp: intentStepOf_def unreviewed_def)
      with V D o show "?E (stop u cfg s ?evs pr t (unreviewed claim) (out, w))" by blast
    qed
    show "?Q (reduceDelivery u cfg s ?evs (controllerReviews u cfg ?evs (snReviews s) zeroTime) profile t pr claim approval)"
    proof (rule reduceDelivery_rule [where P = ?Q], unfold trustedReviews_def [symmetric])
      fix cur :: published
      assume "reviewFor (trustedReviews u cfg s) (trOccurrence t) claim approval (prHead pr) (prBaseSHA pr) = Some cur"
      then have "\<not> pbZero cur" using reviewFor_Some(1) trusted_not_zero by blast
      then show "?Q (route u cfg s ?evs pr t cur d)" for d by (simp add: step_simps)
    qed ((rule st; blast) | simp add: step_simps)+
  qed (simp_all add: step_simps)
  with assms show thesis using that by metis
qed

text \<open>The comment the driver posts for a terminal intent.\<close>

definition intentOf :: "Step \<Rightarrow> RouteIntentMarker" where
  "intentOf step = \<lparr>riOccurrence = stOccurrence step, riClaim = stClaim step, riApproval = stApproval step,
     riHead = stHead step, riOutcome = stOutcome step\<rparr>"

lemma intentOf_valid:
  assumes "deliveryOn u cfg s t pr c a" and "idsValid (snEvents s)"
    and "out \<in> {OutcomeHumanReview, OutcomeNoProgress, OutcomeRoundCap}"
  shows "validIntent (intentOf (intentStepOf t pr c a out w))"
proof -
  have "validID (trOccurrence t)"
    using assms(1) LatestPublished_sound PublishedOccurrence_valid by (fastforce simp: deliveryOn_def Let_def)
  moreover have "validID c" "validID a"
    using assms(1,2) claimAt_valid [of u "SortEvents (snEvents s)"] approvalAt_valid [of u "SortEvents (snEvents s)"]
    by (auto simp: deliveryOn_def Let_def)
  moreover have "validatePR u cfg pr = None" using assms(1) validateSubject_ok by (auto simp: deliveryOn_def Let_def)
  note validatePR_ok(4) [OF this]
  ultimately show ?thesis using assms(3) by (auto simp: validIntent_def intentOf_def intentStepOf_def)
qed

lemma intentLoop_append:
  "intentLoop u cfg all ord conf (xs @ ys) =
   (let (ord', conf') = intentLoop u cfg all ord conf xs in intentLoop u cfg all ord' conf' ys)"
  by (induction u cfg all ord conf xs rule: intentLoop.induct) (auto split: sum.split option.split)

lemma intentLoop_idle:
  "\<forall>c\<in>set cs. \<forall>m. eqFold u (cmAuthor c) (cfgController cfg) \<longrightarrow> ParseRouteIntentMarker (cmBody c) = Inr m \<longrightarrow>
     routeExists u cfg all (riOccurrence m) \<Longrightarrow>
   intentLoop u cfg all ord conf cs = (ord, conf)"
  by (induction u cfg all ord conf cs rule: intentLoop.induct) (auto split: sum.split)

lemma routeFor_append:
  "ParseRouteMarker (cmBody c) = Inl e \<Longrightarrow> routeFor u cfg (cs @ [c]) occ = routeFor u cfg cs occ"
  by (simp add: routeFor_def firstSome_append routeOf_def split: option.split)

lemma resume_single:
  assumes none: "\<And>m. \<not> intentOn u cfg s m"
    and c: "eqFold u (cmAuthor c) (cfgController cfg)" "cmBody c = RouteIntentBody i why" "validIntent i"
    and unrouted: "routeFor u cfg (snComments s) (riOccurrence i) = None"
  shows "resumeTerminalIntent u cfg (s\<lparr>snComments := snComments s @ [c]\<rparr>) evs
    = Some (resumeIntent u cfg (s\<lparr>snComments := snComments s @ [c]\<rparr>) evs i)"
proof -
  let ?cs = "snComments s @ [c]"
  have r: "routeFor u cfg ?cs occ = routeFor u cfg (snComments s) occ" for occ
    using c RouteIntentBody_no_route by (simp add: routeFor_append)
  have "\<forall>d\<in>set (snComments s). \<forall>m. eqFold u (cmAuthor d) (cfgController cfg) \<longrightarrow>
      ParseRouteIntentMarker (cmBody d) = Inr m \<longrightarrow> routeExists u cfg ?cs (riOccurrence m)"
    using none by (force simp: intentOn_def routeExists_def r)
  from intentLoop_idle [OF this] have "intentLoop u cfg ?cs [] [] ?cs = ([i], [])"
    using c unrouted by (simp add: intentLoop_append RouteIntentBody_parse routeExists_def r)
  then show ?thesis by (simp add: resumeTerminalIntent_def)
qed

lemma resumeIntent_progress:
  assumes D: "deliveryOn u cfg s t pr c a" and V: "labelsDistinct u (cfgRequiredLabels cfg)"
    and o: "logOrdered (SortEvents (snEvents s))"
    and m: "riOccurrence m = trOccurrence t" "riClaim m = c" "riApproval m = a"
    and s': "snIssue s' = snIssue s" "snEvents s' = snEvents s"
  shows "(let step = resumeIntent u cfg s' (SortEvents (snEvents s)) m in
     stKind step = (if hasLabel u (issLabels (snIssue s)) (cfgQueueLabel cfg)
         \<and> approvalChangesAfterEpoch u (SortEvents (snEvents s)) (cfgRequiredLabels cfg) a = (False, 0, True)
       then StepRevoke else StepRecordRoute)
     \<and> (stOccurrence step, stClaim step, stHead step, stOutcome step) = (riOccurrence m, riClaim m, riHead m, riOutcome m))"
proof -
  let ?evs = "SortEvents (snEvents s)"
  have A: "approvalEpochAtOccurrence u ?evs (cfgRequiredLabels cfg) (trOccurrence t) = (a, True)"
    "claimEpochAtOccurrence u ?evs (cfgPrincipal cfg) (trOccurrence t) = (c, True)"
    "publishedOccurrenceOnLog u ?evs (trOccurrence t) (cfgTrackerAuthor cfg)"
    using D by (simp_all add: deliveryOn_def Let_def)
  obtain r n where ch: "approvalChangesAfterEpoch u ?evs (cfgRequiredLabels cfg) a = (r, n, True)"
    using approvalChanges_valid [OF anchor_is_self_anchored [OF V o A(1)]] by blast
  show ?thesis
    by (simp add: resumeIntent_def Let_def m A ch s' step_simps split: prod.split)
qed

end
