(* ===== verification/RcDriver.thy ===== *)
theory RcDriver
  imports RevTerminal
begin

text \<open>
  \<open>internal/reviewctl/driver.go\<close> and the diff bound of \<open>reviewer.go\<close>: the loop that observes the
  forge, reduces, and executes the step. The interfaces \<open>Forge\<close> and \<open>Reviewer\<close> are records of
  operations on a world \<open>'w\<close>; every operation returns its result and the world after it, so an
  execution is a sequence of operations in the order the code makes them. The context and the
  log are left out: they decide nothing. \<open>explain\<close> renders the explanation of a step, a value of
  the datatype \<open>why\<close>, as the text the code formats; every theorem holds for any rendering.
\<close>

section \<open>Interfaces\<close>

text \<open>
  What the code distinguishes of a forge error: a 404 (\<open>isNotFound\<close>), the two refusals of the
  gate that stop a sweep, and every other failure.
\<close>

datatype forgeError = FNotFound | FRateLimited | FSweepBudget | FOther string

record Report =
  rpVerdict :: Verdict
  rpFindings :: string

text \<open>\<open>reviewrun.Subject\<close>: the bounded review subject.\<close>

record Subject =
  sbRepository :: string
  sbIssue :: string
  sbCycle :: tid
  sbOccurrence :: tid
  sbClaim :: tid
  sbPR :: int
  sbTargetBranch :: string
  sbBase :: string
  sbHead :: string
  sbDiff :: string
  sbReviewerProfile :: string

text \<open>
  A reviewer error is a refusal to start (\<open>ErrRunRefused\<close>, with the reason and the detail of a
  \<open>RefusedError\<close>, both empty for a bare one) or any other unusable verdict.
\<close>

datatype reviewError = RunRefused string string | NoVerdict

record 'w Forge =
  fIssue :: "int \<Rightarrow> 'w \<Rightarrow> (forgeError + Issue) \<times> 'w"
  fComments :: "int \<Rightarrow> 'w \<Rightarrow> (forgeError + Comment list) \<times> 'w"
  fEvents :: "int \<Rightarrow> 'w \<Rightarrow> (forgeError + Event list) \<times> 'w"
  fPullRequest :: "int \<Rightarrow> 'w \<Rightarrow> (forgeError + PullRequest) \<times> 'w"
  fReviews :: "int \<Rightarrow> 'w \<Rightarrow> (forgeError + Review list) \<times> 'w"
  fDiff :: "string \<Rightarrow> string \<Rightarrow> 'w \<Rightarrow> (forgeError + string) \<times> 'w"
  fPublishReview :: "int \<Rightarrow> string \<Rightarrow> string \<Rightarrow> 'w \<Rightarrow> (forgeError + unit) \<times> 'w"
  fUnassign :: "int \<Rightarrow> string \<Rightarrow> 'w \<Rightarrow> (forgeError + unit) \<times> 'w"
  fRemoveLabel :: "int \<Rightarrow> string \<Rightarrow> 'w \<Rightarrow> (forgeError + unit) \<times> 'w"
  fAddLabel :: "int \<Rightarrow> string \<Rightarrow> 'w \<Rightarrow> (forgeError + unit) \<times> 'w"
  fPostComment :: "int \<Rightarrow> string \<Rightarrow> 'w \<Rightarrow> (forgeError + unit) \<times> 'w"
  rReview :: "Subject \<Rightarrow> 'w \<Rightarrow> (reviewError + Report) \<times> 'w"
  rRetire :: "Subject \<Rightarrow> 'w \<Rightarrow> 'w"

record 'w Driver =
  dCfg :: Config
  dForge :: "'w Forge"
  dRepository :: string
  dMaxDiffBytes :: int
  dDryRun :: bool

text \<open>How one step ended: applied, the clean stop \<open>errStop\<close>, or an error.\<close>

datatype runError =
    ForgeFailed forgeError
  | NoCompleteBase int
  | MarkerUnreadable markerError
  | UnknownStep
  | Unsettled

datatype applied = Applied | Stopped | Failed runError

definition maxSteps :: nat where "maxSteps = 6"

section \<open>Observing\<close>

text \<open>The rest of \<open>observe\<close> after the comments gave a usable link: the pull request and its reviews.\<close>

definition observePR :: "'w Driver \<Rightarrow> int \<Rightarrow> Snapshot \<Rightarrow> 'w \<Rightarrow> (forgeError + Snapshot) \<times> 'w" where
  "observePR d number snap w =
     (case fPullRequest (dForge d) number w of
        (Inl e, w1) \<Rightarrow> if e = FNotFound then (Inr snap, w1) else (Inl e, w1)
      | (Inr pr, w1) \<Rightarrow>
          (case fReviews (dForge d) number w1 of
             (Inl e, w2) \<Rightarrow> (Inl e, w2)
           | (Inr reviews, w2) \<Rightarrow> (Inr (snap\<lparr>snPR := Some pr, snReviews := reviews\<rparr>), w2)))"

definition observe :: "runtime \<Rightarrow> 'w Driver \<Rightarrow> 'w \<Rightarrow> (forgeError + Snapshot) \<times> 'w" where
  "observe u d w =
     (let n = cfgIssue (dCfg d)
      in case fIssue (dForge d) n w of
           (Inl e, w1) \<Rightarrow> (Inl e, w1)
         | (Inr issue, w1) \<Rightarrow>
             (case fComments (dForge d) n w1 of
                (Inl e, w2) \<Rightarrow> (Inl e, w2)
              | (Inr comments, w2) \<Rightarrow>
                  (case fEvents (dForge d) n w2 of
                     (Inl e, w3) \<Rightarrow> (Inl e, w3)
                   | (Inr events, w3) \<Rightarrow>
                       (let snap = \<lparr>snIssue = issue, snComments = comments, snEvents = events, snReviews = [], snPR = None\<rparr>
                        in case LatestPublished u (dCfg d) comments of
                             None \<Rightarrow> (Inr snap, w3)
                           | Some trigger \<Rightarrow>
                               (case ParsePRURL u (trPRURL trigger) of
                                  Inl _ \<Rightarrow> (Inr snap, w3)
                                | Inr (owner, repo, number) \<Rightarrow>
                                    if \<not> equalFold u owner (cfgOwner (dCfg d)) \<or> \<not> equalFold u repo (cfgRepo (dCfg d))
                                    then (Inr snap, w3) else observePR d number snap w3)))))"

section \<open>Reviewing\<close>

definition diffTruncationNotice :: string where
  "diffTruncationNotice = nl @ nl
     @ ''*** truncated: this diff exceeds the controller'' @ [CHR 0x27] @ ''s limit and is not complete ***'' @ nl"

definition BoundDiff :: "string \<Rightarrow> int \<Rightarrow> string" where
  "BoundDiff diff maxBytes =
     (if int (length diff) \<le> maxBytes then diff else take (nat maxBytes) diff @ diffTruncationNotice)"

definition subject :: "'w Driver \<Rightarrow> Step \<Rightarrow> string \<Rightarrow> Subject" where
  "subject d step diff =
     \<lparr>sbRepository = dRepository d, sbIssue = itoa (cfgIssue (dCfg d)), sbCycle = stApproval step,
      sbOccurrence = stOccurrence step, sbClaim = stClaim step, sbPR = prNumber (stPR step),
      sbTargetBranch = prBase (stPR step), sbBase = prBaseSHA (stPR step), sbHead = stHead step,
      sbDiff = diff, sbReviewerProfile = stReviewerProfile step\<rparr>"

definition sameReviewSubject :: "Step \<Rightarrow> Step \<Rightarrow> bool" where
  "sameReviewSubject confirm step \<longleftrightarrow>
     stKind confirm = StepReview \<and> stOccurrence confirm = stOccurrence step \<and> stClaim confirm = stClaim step
   \<and> stApproval confirm = stApproval step \<and> stHead confirm = stHead step
   \<and> prBase (stPR confirm) = prBase (stPR step) \<and> prBaseSHA (stPR confirm) = prBaseSHA (stPR step)
   \<and> stReviewerProfile confirm = stReviewerProfile step"

definition blockedOf :: "Step \<Rightarrow> string \<Rightarrow> ReviewBlockedMarker" where
  "blockedOf step reason = \<lparr>rbOccurrence = stOccurrence step, rbClaim = stClaim step, rbApproval = stApproval step,
     rbHead = stHead step, rbReason = reason\<rparr>"

definition surfaceRefusal ::
  "runtime \<Rightarrow> 'w Driver \<Rightarrow> Snapshot \<Rightarrow> Step \<Rightarrow> string \<Rightarrow> string \<Rightarrow> 'w \<Rightarrow> applied \<times> 'w" where
  "surfaceRefusal u d snap step reason detail w =
     (let m = blockedOf step reason
      in if reason = [] \<or> \<not> ValidBlockReason reason then (Stopped, w)
         else if (case BlockedReviewFor u (dCfg d) (snComments snap) (rbOccurrence m) (rbHead m) of
                    Some existing \<Rightarrow> rbReason existing = rbReason m | None \<Rightarrow> False) then (Stopped, w)
         else case ParseReviewBlockedMarker (ReviewBlockedMarker_String m) of
           Inl e \<Rightarrow> (Failed (MarkerUnreadable e), w)
         | Inr _ \<Rightarrow>
             (case fPostComment (dForge d) (cfgIssue (dCfg d)) (ReviewBlockedBody m detail) w of
                (Inl e, w1) \<Rightarrow> (Failed (ForgeFailed e), w1)
              | (Inr _, w1) \<Rightarrow> (Stopped, w1)))"

text \<open>The second half of \<open>performReview\<close>: confirm, publish, retire.\<close>

definition publishConfirmed :: "runtime \<Rightarrow> 'w Driver \<Rightarrow> Step \<Rightarrow> Subject \<Rightarrow> Report \<Rightarrow> 'w \<Rightarrow> applied \<times> 'w" where
  "publishConfirmed u d step sub report w =
     (case observe u d w of
        (Inl e, w1) \<Rightarrow> (Failed (ForgeFailed e), w1)
      | (Inr after, w1) \<Rightarrow>
          if \<not> sameReviewSubject (Reduce u (dCfg d) after) step then (Applied, w1)
          else
            (case fPublishReview (dForge d) (prNumber (stPR step)) (stHead step)
                    (ReviewBody (markerOf step (rpVerdict report)) (rpFindings report)) w1 of
               (Inl e, w2) \<Rightarrow> (Failed (ForgeFailed e), w2)
             | (Inr _, w2) \<Rightarrow> (Applied, rRetire (dForge d) sub w2)))"

definition performReview :: "runtime \<Rightarrow> 'w Driver \<Rightarrow> Snapshot \<Rightarrow> Step \<Rightarrow> 'w \<Rightarrow> applied \<times> 'w" where
  "performReview u d snap step w =
     (if prBase (stPR step) = [] \<or> prBaseSHA (stPR step) = [] then (Failed (NoCompleteBase (prNumber (stPR step))), w)
      else case fDiff (dForge d) (prBaseSHA (stPR step)) (stHead step) w of
        (Inl e, w1) \<Rightarrow> (Failed (ForgeFailed e), w1)
      | (Inr diff, w1) \<Rightarrow>
          (let sub = subject d step (BoundDiff diff (dMaxDiffBytes d))
           in case rReview (dForge d) sub w1 of
                (Inl (RunRefused reason detail), w2) \<Rightarrow> surfaceRefusal u d snap step reason detail w2
              | (Inl NoVerdict, w2) \<Rightarrow> (Stopped, w2)
              | (Inr report, w2) \<Rightarrow> publishConfirmed u d step sub report w2))"

section \<open>Executing\<close>

definition routeMarkerOf :: "Step \<Rightarrow> RouteMarker" where
  "routeMarkerOf step = \<lparr>rtOccurrence = stOccurrence step, rtClaim = stClaim step, rtHead = stHead step, rtOutcome = stOutcome step\<rparr>"

text \<open>A forge write as the outcome of a step.\<close>

definition wrote :: "(forgeError + unit) \<times> 'w \<Rightarrow> applied \<times> 'w" where
  "wrote r = (case r of (Inl e, w) \<Rightarrow> (Failed (ForgeFailed e), w) | (Inr _, w) \<Rightarrow> (Applied, w))"

definition applyStep :: "runtime \<Rightarrow> (why \<Rightarrow> string) \<Rightarrow> 'w Driver \<Rightarrow> Snapshot \<Rightarrow> Step \<Rightarrow> 'w \<Rightarrow> applied \<times> 'w" where
  "applyStep u explain d snap step w =
     (let f = dForge d; n = cfgIssue (dCfg d)
      in case stKind step of
           StepReview \<Rightarrow> performReview u d snap step w
         | StepUnassign \<Rightarrow> wrote (fUnassign f n (stPrincipal step) w)
         | StepRevoke \<Rightarrow>
             (case fRemoveLabel f n (stRemoveLabel step) w of
                (r, w1) \<Rightarrow>
                  (case r of
                     Inl e \<Rightarrow> if e \<noteq> FNotFound then (Failed (ForgeFailed e), w1)
                              else if stAddLabel step \<noteq> [] then wrote (fAddLabel f n (stAddLabel step) w1)
                              else (Applied, w1)
                   | Inr _ \<Rightarrow> if stAddLabel step \<noteq> [] then wrote (fAddLabel f n (stAddLabel step) w1)
                              else (Applied, w1)))
         | StepRecordIntent \<Rightarrow>
             (case ParseRouteIntentMarker (RouteIntentMarker_String (intentOf step)) of
                Inl e \<Rightarrow> (Failed (MarkerUnreadable e), w)
              | Inr _ \<Rightarrow> wrote (fPostComment f n (RouteIntentBody (intentOf step) (explain (stWhy step))) w))
         | StepRecordRoute \<Rightarrow>
             (case ParseRouteMarker (RouteMarker_String (routeMarkerOf step)) of
                Inl e \<Rightarrow> (Failed (MarkerUnreadable e), w)
              | Inr _ \<Rightarrow> wrote (fPostComment f n (RouteBody (routeMarkerOf step) (explain (stWhy step))) w))
         | StepNothing \<Rightarrow> (Failed UnknownStep, w))"

definition sameStep :: "Step \<Rightarrow> Step \<Rightarrow> bool" where
  "sameStep a b \<longleftrightarrow> stKind a = stKind b \<and> stOccurrence a = stOccurrence b \<and> stHead a = stHead b
     \<and> prBase (stPR a) = prBase (stPR b) \<and> prBaseSHA (stPR a) = prBaseSHA (stPR b)
     \<and> stOutcome a = stOutcome b \<and> stReviewerProfile a = stReviewerProfile b"

text \<open>
  The loop of \<open>Run\<close>: the first argument counts the iterations left, \<open>prev\<close> is the step applied in
  the iteration before (none in the first). \<open>None\<close> is Go's nil error.
\<close>

fun runLoop ::
  "nat \<Rightarrow> runtime \<Rightarrow> (why \<Rightarrow> string) \<Rightarrow> 'w Driver \<Rightarrow> Step option \<Rightarrow> 'w \<Rightarrow> runError option \<times> 'w" where
  "runLoop 0 u explain d prev w = (Some Unsettled, w)"
| "runLoop (Suc k) u explain d prev w =
     (case observe u d w of
        (Inl e, w1) \<Rightarrow> (Some (ForgeFailed e), w1)
      | (Inr snap, w1) \<Rightarrow>
          (let step = Reduce u (dCfg d) snap
           in if stKind step = StepNothing then (None, w1)
              else if dDryRun d then (None, w1)
              else if (case prev of None \<Rightarrow> False | Some l \<Rightarrow> sameStep step l) then (None, w1)
              else (case applyStep u explain d snap step w1 of
                      (Stopped, w2) \<Rightarrow> (None, w2)
                    | (Failed e, w2) \<Rightarrow> (Some e, w2)
                    | (Applied, w2) \<Rightarrow> runLoop k u explain d (Some step) w2)))"

definition driverRun :: "runtime \<Rightarrow> (why \<Rightarrow> string) \<Rightarrow> 'w Driver \<Rightarrow> 'w \<Rightarrow> runError option \<times> 'w" where
  "driverRun u explain d w = runLoop maxSteps u explain d None w"

section \<open>What a run may write\<close>

text \<open>
  A run is judged by what it preserves. The reads, the reviewer and its retirement keep the
  judgement; a write keeps it under the authority the reducer gave: the kind of step it answered
  to an observation of the forge, and the arguments that step fixes.
\<close>

locale authorized_writes =
  fixes u :: runtime and d :: "'w Driver" and P :: "'w \<Rightarrow> bool"
  assumes read_issue: "P w \<Longrightarrow> P (snd (fIssue (dForge d) n w))"
    and read_comments: "P w \<Longrightarrow> P (snd (fComments (dForge d) n w))"
    and read_events: "P w \<Longrightarrow> P (snd (fEvents (dForge d) n w))"
    and read_pr: "P w \<Longrightarrow> P (snd (fPullRequest (dForge d) n w))"
    and read_reviews: "P w \<Longrightarrow> P (snd (fReviews (dForge d) n w))"
    and read_diff: "P w \<Longrightarrow> P (snd (fDiff (dForge d) b h w))"
    and reviewer: "P w \<Longrightarrow> P (snd (rReview (dForge d) sub w))"
    and retire: "P w \<Longrightarrow> P (rRetire (dForge d) sub w)"
    and unassign: "P w \<Longrightarrow> observe u d w0 = (Inr snap, w) \<Longrightarrow>
      stKind (Reduce u (dCfg d) snap) = StepUnassign \<Longrightarrow>
      P (snd (fUnassign (dForge d) (cfgIssue (dCfg d)) (cfgPrincipal (dCfg d)) w))"
    and remove_label: "P w \<Longrightarrow> observe u d w0 = (Inr snap, w) \<Longrightarrow>
      stKind (Reduce u (dCfg d) snap) = StepRevoke \<Longrightarrow>
      P (snd (fRemoveLabel (dForge d) (cfgIssue (dCfg d)) (cfgQueueLabel (dCfg d)) w))"
    and add_label: "P w \<Longrightarrow> stKind (Reduce u (dCfg d) snap) = StepRevoke \<Longrightarrow> cfgAddHumanReviewLabel (dCfg d) \<Longrightarrow>
      P (snd (fAddLabel (dForge d) (cfgIssue (dCfg d)) HumanReviewLabel w))"
    and post_route: "P w \<Longrightarrow> observe u d w0 = (Inr snap, w) \<Longrightarrow>
      stKind (Reduce u (dCfg d) snap) = StepRecordRoute \<Longrightarrow> ParseRouteMarker (RouteMarker_String (routeMarkerOf (Reduce u (dCfg d) snap))) = Inr m \<Longrightarrow>
      P (snd (fPostComment (dForge d) (cfgIssue (dCfg d)) (RouteBody (routeMarkerOf (Reduce u (dCfg d) snap)) x) w))"
    and post_intent: "P w \<Longrightarrow> observe u d w0 = (Inr snap, w) \<Longrightarrow>
      stKind (Reduce u (dCfg d) snap) = StepRecordIntent \<Longrightarrow> ParseRouteIntentMarker (RouteIntentMarker_String (intentOf (Reduce u (dCfg d) snap))) = Inr i \<Longrightarrow>
      P (snd (fPostComment (dForge d) (cfgIssue (dCfg d)) (RouteIntentBody (intentOf (Reduce u (dCfg d) snap)) x) w))"
    and post_blocked: "P w \<Longrightarrow> stKind (Reduce u (dCfg d) snap) = StepReview \<Longrightarrow>
      ParseReviewBlockedMarker (ReviewBlockedMarker_String (blockedOf (Reduce u (dCfg d) snap) reason)) = Inr k \<Longrightarrow>
      P (snd (fPostComment (dForge d) (cfgIssue (dCfg d)) (ReviewBlockedBody (blockedOf (Reduce u (dCfg d) snap) reason) x) w))"
    and publish: "P w \<Longrightarrow> observe u d w0 = (Inr after, w) \<Longrightarrow> stKind step = StepReview \<Longrightarrow>
      sameReviewSubject (Reduce u (dCfg d) after) step \<Longrightarrow>
      P (snd (fPublishReview (dForge d) (prNumber (stPR step)) (stHead step) (ReviewBody (markerOf step v) x) w))"
begin

lemma observePR_keeps: "P w \<Longrightarrow> P (snd (observePR d n snap w))"
  using read_pr [of w n] read_reviews by (auto simp: observePR_def split: prod.splits sum.splits) (metis snd_conv)+

lemma observe_keeps: "P w \<Longrightarrow> P (snd (observe u d w))"
proof -
  assume P: "P w"
  let ?n = "cfgIssue (dCfg d)"
  obtain r1 w1 where 1: "fIssue (dForge d) ?n w = (r1, w1)" by fastforce
  obtain r2 w2 where 2: "fComments (dForge d) ?n w1 = (r2, w2)" by fastforce
  obtain r3 w3 where 3: "fEvents (dForge d) ?n w2 = (r3, w3)" by fastforce
  have k: "P w1" "P w2" "P w3"
    using P read_issue [of w ?n] read_comments [of w1 ?n] read_events [of w2 ?n] 1 2 3 by auto
  show ?thesis
    using k observePR_keeps [OF k(3)] by (auto simp: observe_def Let_def 1 2 3 split: sum.split option.split)
qed

lemma wrote_keeps: "P (snd r) \<Longrightarrow> P (snd (wrote r))"
  by (cases r) (simp add: wrote_def split: sum.split)

lemma surface_keeps:
  assumes "P w" and "stKind (Reduce u (dCfg d) snap) = StepReview"
  shows "P (snd (surfaceRefusal u d s (Reduce u (dCfg d) snap) reason detail w))"
proof -
  let ?m = "blockedOf (Reduce u (dCfg d) snap) reason"
  obtain r w1 where p: "fPostComment (dForge d) (cfgIssue (dCfg d)) (ReviewBlockedBody ?m detail) w = (r, w1)" by fastforce
  have "P w1" if "ParseReviewBlockedMarker (ReviewBlockedMarker_String ?m) = Inr k" for k
    using post_blocked [OF assms that, of detail] p by simp
  with assms(1) show ?thesis by (auto simp: surfaceRefusal_def Let_def p split: sum.split option.split)
qed

lemma publish_keeps:
  assumes "P w" and "stKind step = StepReview"
  shows "P (snd (publishConfirmed u d step sub report w))"
proof -
  obtain r w1 where o: "observe u d w = (r, w1)" by fastforce
  have P1: "P w1" using observe_keeps [OF assms(1)] o by simp
  let ?pub = "fPublishReview (dForge d) (prNumber (stPR step)) (stHead step) (ReviewBody (markerOf step (rpVerdict report)) (rpFindings report)) w1"
  obtain r2 w2 where p: "?pub = (r2, w2)" by fastforce
  have "P w2" if "r = Inr after" "sameReviewSubject (Reduce u (dCfg d) after) step" for after
    using publish [OF P1 _ assms(2) that(2), of w "rpVerdict report" "rpFindings report"] o that(1) p by simp
  with P1 show ?thesis by (auto simp: publishConfirmed_def o p retire split: sum.split)
qed

lemma perform_keeps:
  assumes "P w" and "stKind (Reduce u (dCfg d) snap) = StepReview"
  shows "P (snd (performReview u d snap (Reduce u (dCfg d) snap) w))"
proof -
  let ?s = "Reduce u (dCfg d) snap"
  obtain r1 w1 where 1: "fDiff (dForge d) (prBaseSHA (stPR ?s)) (stHead ?s) w = (r1, w1)" by fastforce
  have P1: "P w1" using read_diff [OF assms(1)] 1 by (metis snd_conv)
  show ?thesis
  proof (cases r1)
    case (Inr diff)
    let ?sub = "subject d ?s (BoundDiff diff (dMaxDiffBytes d))"
    obtain r2 w2 where 2: "rReview (dForge d) ?sub w1 = (r2, w2)" by fastforce
    have P2: "P w2" using reviewer [OF P1, of ?sub] 2 by simp
    show ?thesis
      using assms(1) P2 surface_keeps [OF P2 assms(2)] publish_keeps [OF P2 assms(2)]
      by (simp add: performReview_def 1 2 Inr Let_def split: sum.split reviewError.split)
  qed (use assms(1) P1 1 in \<open>simp add: performReview_def\<close>)
qed

lemma revoke_keeps:
  assumes "P w" and "observe u d w0 = (Inr snap, w)" and "stKind (Reduce u (dCfg d) snap) = StepRevoke"
  shows "P (snd (applyStep u explain d snap (Reduce u (dCfg d) snap) w))"
proof -
  let ?s = "Reduce u (dCfg d) snap" and ?n = "cfgIssue (dCfg d)"
  have s: "stRemoveLabel ?s = cfgQueueLabel (dCfg d)" "stAddLabel ?s = addLabelOf (dCfg d)"
    using permitted_Reduce [of u "dCfg d" snap] assms(3) by (auto simp: permitted_def)
  obtain r w1 where 1: "fRemoveLabel (dForge d) ?n (cfgQueueLabel (dCfg d)) w = (r, w1)" by fastforce
  have P1: "P w1" using remove_label [OF assms] 1 by simp
  have "P (snd (wrote (fAddLabel (dForge d) ?n (addLabelOf (dCfg d)) w1)))" if "addLabelOf (dCfg d) \<noteq> []"
    using add_label [OF P1 assms(3)] that by (auto intro!: wrote_keeps simp: addLabelOf_def split: if_splits)
  with P1 show ?thesis by (simp add: applyStep_def assms(3) s 1 Let_def split: sum.split)
qed

lemma apply_keeps:
  assumes "P w" and "observe u d w0 = (Inr snap, w)"
  shows "P (snd (applyStep u explain d snap (Reduce u (dCfg d) snap) w))"
proof (cases "stKind (Reduce u (dCfg d) snap)")
  case StepNothing
  then show ?thesis using assms by (simp add: applyStep_def)
next
  case StepReview
  then show ?thesis using perform_keeps [OF assms(1)] by (simp add: applyStep_def Let_def)
next
  case StepUnassign
  then have "stPrincipal (Reduce u (dCfg d) snap) = cfgPrincipal (dCfg d)"
    using permitted_Reduce [of u "dCfg d" snap] by (simp add: permitted_def)
  with StepUnassign unassign [OF assms] show ?thesis by (simp add: applyStep_def Let_def wrote_keeps)
next
  case StepRevoke
  then show ?thesis by (rule revoke_keeps [OF assms])
next
  case StepRecordIntent
  then show ?thesis using assms post_intent [OF assms]
    by (auto simp: applyStep_def Let_def intro!: wrote_keeps split: sum.split)
next
  case StepRecordRoute
  then show ?thesis using assms post_route [OF assms]
    by (auto simp: applyStep_def Let_def intro!: wrote_keeps split: sum.split)
qed

lemma runLoop_keeps: "P w \<Longrightarrow> P (snd (runLoop k u explain d prev w))"
proof (induction k arbitrary: prev w)
  case (Suc k)
  obtain r w1 where o: "observe u d w = (r, w1)" by fastforce
  have P1: "P w1" using observe_keeps [OF Suc.prems] o by simp
  show ?case
  proof (cases r)
    case (Inr snap)
    obtain a w2 where a: "applyStep u explain d snap (Reduce u (dCfg d) snap) w1 = (a, w2)" by fastforce
    have "P w2" using apply_keeps [OF P1, of w snap explain] o a Inr by simp
    with P1 Suc.IH show ?thesis by (simp add: o Inr a Let_def split: applied.split)
  qed (use P1 o in simp)
qed simp

end

section \<open>The trace of writes\<close>

datatype Action =
    ActPublish int string string
  | ActUnassign int string
  | ActRemoveLabel int string
  | ActAddLabel int string
  | ActComment int string

definition quietly :: "('w \<Rightarrow> 'r \<times> 'w) \<Rightarrow> 'w \<times> Action list \<Rightarrow> 'r \<times> ('w \<times> Action list)" where
  "quietly f wt = (case f (fst wt) of (r, w) \<Rightarrow> (r, (w, snd wt)))"

definition logged :: "Action \<Rightarrow> ('w \<Rightarrow> 'r \<times> 'w) \<Rightarrow> 'w \<times> Action list \<Rightarrow> 'r \<times> ('w \<times> Action list)" where
  "logged a f wt = (case f (fst wt) of (r, w) \<Rightarrow> (r, (w, snd wt @ [a])))"

text \<open>The forge with every attempted write appended to a trace.\<close>

definition traced :: "'w Forge \<Rightarrow> ('w \<times> Action list) Forge" where
  "traced f = \<lparr>fIssue = (\<lambda>n. quietly (fIssue f n)), fComments = (\<lambda>n. quietly (fComments f n)),
     fEvents = (\<lambda>n. quietly (fEvents f n)), fPullRequest = (\<lambda>n. quietly (fPullRequest f n)),
     fReviews = (\<lambda>n. quietly (fReviews f n)), fDiff = (\<lambda>b h. quietly (fDiff f b h)),
     fPublishReview = (\<lambda>n h b. logged (ActPublish n h b) (fPublishReview f n h b)),
     fUnassign = (\<lambda>n l. logged (ActUnassign n l) (fUnassign f n l)),
     fRemoveLabel = (\<lambda>n l. logged (ActRemoveLabel n l) (fRemoveLabel f n l)),
     fAddLabel = (\<lambda>n l. logged (ActAddLabel n l) (fAddLabel f n l)),
     fPostComment = (\<lambda>n b. logged (ActComment n b) (fPostComment f n b)),
     rReview = (\<lambda>sub. quietly (rReview f sub)), rRetire = (\<lambda>sub wt. (rRetire f sub (fst wt), snd wt))\<rparr>"

definition tracedDriver :: "'w Driver \<Rightarrow> ('w \<times> Action list) Driver" where
  "tracedDriver d = \<lparr>dCfg = dCfg d, dForge = traced (dForge d), dRepository = dRepository d,
     dMaxDiffBytes = dMaxDiffBytes d, dDryRun = dDryRun d\<rparr>"

fun permittedAction :: "runtime \<Rightarrow> Config \<Rightarrow> Action \<Rightarrow> bool" where
  "permittedAction u cfg (ActUnassign n l) \<longleftrightarrow> n = cfgIssue cfg \<and> l = cfgPrincipal cfg"
| "permittedAction u cfg (ActRemoveLabel n l) \<longleftrightarrow> n = cfgIssue cfg \<and> l = cfgQueueLabel cfg"
| "permittedAction u cfg (ActAddLabel n l) \<longleftrightarrow> n = cfgIssue cfg \<and> l = HumanReviewLabel
     \<and> \<not> hasLabel u (cfgRequiredLabels cfg) l"
| "permittedAction u cfg (ActComment n b) \<longleftrightarrow> n = cfgIssue cfg
     \<and> ((\<exists>m x m'. b = RouteBody m x \<and> ParseRouteMarker (RouteMarker_String m) = Inr m')
       \<or> (\<exists>m x m'. b = RouteIntentBody m x \<and> ParseRouteIntentMarker (RouteIntentMarker_String m) = Inr m')
       \<or> (\<exists>m x m'. b = ReviewBlockedBody m x \<and> ParseReviewBlockedMarker (ReviewBlockedMarker_String m) = Inr m'))"
| "permittedAction u cfg (ActPublish n h b) \<longleftrightarrow> isFullSHA h \<and> (\<exists>m x. b = ReviewBody m x \<and> rmHead m = h)"

lemma traced_ops:
  "fIssue (traced f) n (w, tr) = (case fIssue f n w of (r, w') \<Rightarrow> (r, (w', tr)))"
  "fComments (traced f) n (w, tr) = (case fComments f n w of (r, w') \<Rightarrow> (r, (w', tr)))"
  "fEvents (traced f) n (w, tr) = (case fEvents f n w of (r, w') \<Rightarrow> (r, (w', tr)))"
  "fPullRequest (traced f) n (w, tr) = (case fPullRequest f n w of (r, w') \<Rightarrow> (r, (w', tr)))"
  "fReviews (traced f) n (w, tr) = (case fReviews f n w of (r, w') \<Rightarrow> (r, (w', tr)))"
  "fDiff (traced f) b h (w, tr) = (case fDiff f b h w of (r, w') \<Rightarrow> (r, (w', tr)))"
  "rReview (traced f) sub (w, tr) = (case rReview f sub w of (r, w') \<Rightarrow> (r, (w', tr)))"
  "rRetire (traced f) sub (w, tr) = (rRetire f sub w, tr)"
  "fPublishReview (traced f) n h b (w, tr) = (case fPublishReview f n h b w of (r, w') \<Rightarrow> (r, (w', tr @ [ActPublish n h b])))"
  "fUnassign (traced f) n l (w, tr) = (case fUnassign f n l w of (r, w') \<Rightarrow> (r, (w', tr @ [ActUnassign n l])))"
  "fRemoveLabel (traced f) n l (w, tr) = (case fRemoveLabel f n l w of (r, w') \<Rightarrow> (r, (w', tr @ [ActRemoveLabel n l])))"
  "fAddLabel (traced f) n l (w, tr) = (case fAddLabel f n l w of (r, w') \<Rightarrow> (r, (w', tr @ [ActAddLabel n l])))"
  "fPostComment (traced f) n b (w, tr) = (case fPostComment f n b w of (r, w') \<Rightarrow> (r, (w', tr @ [ActComment n b])))"
  by (simp_all add: traced_def quietly_def logged_def)

lemma traced_trace [simp]:
  "snd (snd (fIssue (traced f) n wt)) = snd wt" "snd (snd (fComments (traced f) n wt)) = snd wt"
  "snd (snd (fEvents (traced f) n wt)) = snd wt" "snd (snd (fPullRequest (traced f) n wt)) = snd wt"
  "snd (snd (fReviews (traced f) n wt)) = snd wt" "snd (snd (fDiff (traced f) b h wt)) = snd wt"
  "snd (snd (rReview (traced f) sub wt)) = snd wt" "snd (rRetire (traced f) sub wt) = snd wt"
  "snd (snd (fPublishReview (traced f) n h b wt)) = snd wt @ [ActPublish n h b]"
  "snd (snd (fUnassign (traced f) n l wt)) = snd wt @ [ActUnassign n l]"
  "snd (snd (fRemoveLabel (traced f) n l wt)) = snd wt @ [ActRemoveLabel n l]"
  "snd (snd (fAddLabel (traced f) n l wt)) = snd wt @ [ActAddLabel n l]"
  "snd (snd (fPostComment (traced f) n b wt)) = snd wt @ [ActComment n b]"
  by (simp_all add: traced_def quietly_def logged_def split: prod.split)

lemma Reduce_validated: "stKind (Reduce u cfg s) \<noteq> StepNothing \<Longrightarrow> Validate u cfg = None"
  by (auto simp: Reduce_def step_simps split: option.splits)

lemma sameReviewSubject_head:
  assumes "sameReviewSubject (Reduce u cfg after) step"
  shows "isFullSHA (stHead step)"
proof -
  have "stKind (Reduce u cfg after) = StepReview" and h: "stHead step = stHead (Reduce u cfg after)"
    using assms by (auto simp: sameReviewSubject_def)
  then obtain t pr c a p w where g: "reviewGate u cfg after t pr c a p" and st: "Reduce u cfg after = reviewStepOf t pr c a p w"
    by (metis Reduce_review)
  have "validatePR u cfg pr = None"
    using g validateSubject_ok by (auto simp: reviewGate_def deliveryOn_def Let_def)
  then show ?thesis using validatePR_ok(4) h st by (simp add: step_simps)
qed

lemma fields_of_tracedDriver [simp]:
  "dCfg (tracedDriver d) = dCfg d" "dForge (tracedDriver d) = traced (dForge d)" "dDryRun (tracedDriver d) = dDryRun d"
  "dRepository (tracedDriver d) = dRepository d" "dMaxDiffBytes (tracedDriver d) = dMaxDiffBytes d"
  by (simp_all add: tracedDriver_def)

interpretation traced_writes: authorized_writes u "tracedDriver d"
    "\<lambda>wt. list_all (permittedAction u (dCfg d)) (snd wt)" for u and d :: "'w Driver"
proof unfold_locales
  fix wt :: "'w \<times> Action list" and snap
  assume P: "list_all (permittedAction u (dCfg d)) (snd wt)"
    and "stKind (Reduce u (dCfg (tracedDriver d)) snap) = StepRevoke" and "cfgAddHumanReviewLabel (dCfg (tracedDriver d))"
  then have "\<not> hasLabel u (cfgRequiredLabels (dCfg d)) HumanReviewLabel"
    using Validate_identities(3) [OF Reduce_validated [of u "dCfg d" snap]] by simp
  with P show "list_all (permittedAction u (dCfg d))
      (snd (snd (fAddLabel (dForge (tracedDriver d)) (cfgIssue (dCfg (tracedDriver d))) HumanReviewLabel wt)))"
    by simp
next
  fix wt :: "'w \<times> Action list" and w0 after step v x
  assume "list_all (permittedAction u (dCfg d)) (snd wt)"
    and "sameReviewSubject (Reduce u (dCfg (tracedDriver d)) after) step"
  then show "list_all (permittedAction u (dCfg d)) (snd (snd (fPublishReview (dForge (tracedDriver d)) (prNumber (stPR step))
      (stHead step) (ReviewBody (markerOf step v) x) wt)))"
    using sameReviewSubject_head [of u "dCfg d" after step]
    by (auto simp: markerOf_def intro!: exI [of _ "markerOf step v"])
qed auto

text \<open>Tracing does not change a run.\<close>

definition untrace :: "'r \<times> ('w \<times> Action list) \<Rightarrow> 'r \<times> 'w" where
  "untrace x = (fst x, fst (snd x))"

lemma untrace_pair [simp]: "untrace (r, (w, tr)) = (r, w)"
  by (simp add: untrace_def)

lemma observe_traced: "untrace (observe u (tracedDriver d) (w, tr)) = observe u d w \<and> snd (snd (observe u (tracedDriver d) (w, tr))) = tr"
  by (simp add: observe_def observePR_def Let_def traced_ops split: prod.split sum.split option.split)

lemma wrote_traced: "untrace x = y \<Longrightarrow> untrace (wrote x) = wrote y"
  by (cases x) (auto simp: wrote_def untrace_def split: sum.splits)

lemma observe_tracedE:
  assumes "observe u d w = (r, w1)"
  shows "observe u (tracedDriver d) (w, tr) = (r, (w1, tr))"
  using observe_traced [of u d w tr] assms by (auto simp: untrace_def prod_eq_iff)

lemma publish_traced:
  "untrace (publishConfirmed u (tracedDriver d) step sub report (w, tr)) = publishConfirmed u d step sub report w"
proof -
  obtain r w1 where o: "observe u d w = (r, w1)" by fastforce
  show ?thesis
    by (simp add: publishConfirmed_def o observe_tracedE [OF o] traced_ops split: sum.split prod.split)
qed

lemma surface_traced:
  "untrace (surfaceRefusal u (tracedDriver d) s step reason detail (w, tr)) = surfaceRefusal u d s step reason detail w"
  by (simp add: surfaceRefusal_def Let_def traced_ops split: sum.split prod.split option.split)

lemma subject_traced: "subject (tracedDriver d) = subject d"
  by (simp add: subject_def fun_eq_iff)

lemma perform_traced:
  "untrace (performReview u (tracedDriver d) s step (w, tr)) = performReview u d s step w"
  by (simp add: performReview_def Let_def traced_ops subject_traced surface_traced publish_traced
      split: sum.split prod.split reviewError.split)

lemma apply_traced:
  "untrace (applyStep u explain (tracedDriver d) s step (w, tr)) = applyStep u explain d s step w"
  by (cases "stKind step")
    (auto simp: applyStep_def Let_def traced_ops perform_traced intro!: wrote_traced split: sum.split prod.split)

lemma run_traced:
  "untrace (runLoop k u explain (tracedDriver d) prev (w, tr)) = runLoop k u explain d prev w"
proof (induction k arbitrary: prev w tr)
  case (Suc k)
  obtain r w1 where o: "observe u d w = (r, w1)" by fastforce
  show ?case
  proof (cases r)
    case (Inr snap)
    obtain a w2 where a: "applyStep u explain d snap (Reduce u (dCfg d) snap) w1 = (a, w2)" by fastforce
    then obtain tr2 where "applyStep u explain (tracedDriver d) snap (Reduce u (dCfg d) snap) (w1, tr) = (a, (w2, tr2))"
      using apply_traced [of u explain d snap "Reduce u (dCfg d) snap" w1 tr] by (auto simp: untrace_def prod_eq_iff)
    with Suc show ?thesis
      by (simp add: o observe_tracedE [OF o] a Inr Let_def split: applied.split)
  qed (simp add: o observe_tracedE [OF o])
qed simp

text \<open>How many writes a run attempts.\<close>

lemma apply_writes: "length (snd (snd (applyStep u explain (tracedDriver d) s step (w, tr)))) \<le> length tr + 2"
proof -
  have wr: "snd (snd (wrote x)) = snd (snd x)" for x :: "(forgeError + unit) \<times> ('a \<times> Action list)"
    by (cases x) (auto simp: wrote_def split: sum.splits)
  have pu: "length (snd (snd (publishConfirmed u (tracedDriver d) step sub report (w', tr')))) \<le> length tr' + 1" for sub report w' tr'
  proof -
    obtain r w1 where o: "observe u d w' = (r, w1)" by fastforce
    show ?thesis
      by (auto simp: publishConfirmed_def observe_tracedE [OF o] traced_ops split: sum.split prod.split)
  qed
  have su: "length (snd (snd (surfaceRefusal u (tracedDriver d) s step reason detail (w', tr')))) \<le> length tr' + 1" for reason detail w' tr'
    by (auto simp: surfaceRefusal_def Let_def traced_ops split: sum.split prod.split option.split)
  have "length (snd (snd (performReview u (tracedDriver d) s step (w, tr)))) \<le> length tr + 1"
    using pu su by (auto simp: performReview_def Let_def traced_ops split: sum.split prod.split reviewError.split)
  then show ?thesis
    by (cases "stKind step") (auto simp: applyStep_def Let_def traced_ops wr split: sum.split prod.split)
qed

lemma run_writes: "length (snd (snd (runLoop k u explain (tracedDriver d) prev (w, tr)))) \<le> length tr + 2 * k"
proof (induction k arbitrary: prev w tr)
  case (Suc k)
  obtain r w1 where o: "observe u d w = (r, w1)" by fastforce
  show ?case
  proof (cases r)
    case (Inr snap)
    obtain a w2 tr2 where a: "applyStep u explain (tracedDriver d) snap (Reduce u (dCfg d) snap) (w1, tr) = (a, (w2, tr2))"
      by (metis prod_cases3)
    then have "length tr2 \<le> length tr + 2"
      using apply_writes [of u explain d snap "Reduce u (dCfg d) snap" w1 tr] by simp
    with Suc [of "Some (Reduce u (dCfg d) snap)" w2 tr2] show ?thesis
      by (auto simp: observe_tracedE [OF o] a Inr Let_def split: applied.split)
  qed (simp add: observe_tracedE [OF o])
qed simp

lemma dry_run_quiet: "dDryRun d \<Longrightarrow> snd (snd (runLoop k u explain (tracedDriver d) prev (w, tr))) = tr"
proof (cases k)
  case (Suc j)
  obtain r w1 where o: "observe u d w = (r, w1)" by fastforce
  assume "dDryRun d"
  then show ?thesis by (cases r) (simp_all add: Suc observe_tracedE [OF o] Let_def)
qed simp

end
