(* ===== verification/RcController.thy ===== *)
theory RcController
  imports RcDriver
begin

text \<open>
  \<open>internal/reviewctl/controller.go\<close>: the construction of a controller and the sweep over the
  candidates the forge names. The mutex makes a sweep one atomic operation on the controller's
  state (the pending candidates and the issue owed a full-budget retry). The world \<open>'w\<close> is the
  driver's; \<open>cancelled\<close> reads the context after a reconciliation.
\<close>

section \<open>Construction\<close>

text \<open>
  The options whose checks and defaults \<open>New\<close> decides; \<open>None\<close> is Go's nil for the forge client
  and the reviewer.
\<close>

record 'w Options =
  opPolicy :: Config
  opForge :: "'w Forge option"
  opRepository :: string
  opMaxDiffBytes :: int
  opDryRun :: bool

datatype newError = NewNoForge | NewInvalid configError | NewNegativeDiff

definition DefaultMaxDiffBytes :: int where "DefaultMaxDiffBytes = 400000"

record 'w Controller =
  coPolicy :: Config
  coForge :: "'w Forge"
  coRepository :: string
  coMaxDiffBytes :: int
  coDryRun :: bool

definition newController :: "runtime \<Rightarrow> 'w Options \<Rightarrow> newError + 'w Controller" where
  "newController u opts =
     (case opForge opts of
        None \<Rightarrow> Inl NewNoForge
      | Some f \<Rightarrow>
          (let policy = opPolicy opts;
               probe = (if cfgIssue policy = 0 then policy\<lparr>cfgIssue := 1\<rparr> else policy);
               repository = (if opRepository opts = [] then cfgOwner policy @ ''/'' @ cfgRepo policy else opRepository opts);
               maxDiff = (if opMaxDiffBytes opts = 0 then DefaultMaxDiffBytes else opMaxDiffBytes opts)
           in case Validate u probe of
                Some e \<Rightarrow> Inl (NewInvalid e)
              | None \<Rightarrow>
                  if maxDiff < 0 then Inl NewNegativeDiff
                  else Inr \<lparr>coPolicy = policy, coForge = f, coRepository = repository, coMaxDiffBytes = maxDiff,
                            coDryRun = opDryRun opts\<rparr>))"

section \<open>Reconciling one issue\<close>

datatype sweepError =
    NotAnIssue int
  | RunFailed runError

definition driverFor :: "'w Controller \<Rightarrow> int \<Rightarrow> 'w Driver" where
  "driverFor c issue = \<lparr>dCfg = (coPolicy c)\<lparr>cfgIssue := issue\<rparr>, dForge = coForge c, dRepository = coRepository c,
     dMaxDiffBytes = coMaxDiffBytes c, dDryRun = coDryRun c\<rparr>"

definition Reconcile :: "runtime \<Rightarrow> (why \<Rightarrow> string) \<Rightarrow> 'w Controller \<Rightarrow> int \<Rightarrow> 'w \<Rightarrow> sweepError option \<times> 'w" where
  "Reconcile u explain c issue w =
     (if issue \<le> 0 then (Some (NotAnIssue issue), w)
      else case driverRun u explain (driverFor c issue) w of
        (None, w1) \<Rightarrow> (None, w1)
      | (Some e, w1) \<Rightarrow> (Some (RunFailed e), w1))"

definition isRateLimited :: "sweepError \<Rightarrow> bool" where
  "isRateLimited e \<longleftrightarrow> e = RunFailed (ForgeFailed FRateLimited)"

definition isSweepBudget :: "sweepError \<Rightarrow> bool" where
  "isSweepBudget e \<longleftrightarrow> e = RunFailed (ForgeFailed FSweepBudget)"

section \<open>The sweep\<close>

record SweepState =
  swPending :: "int list"
  swRetryBudgetAt :: int

fun appendLoop :: "int list \<Rightarrow> int list \<Rightarrow> int list" where
  "appendLoop pending [] = pending"
| "appendLoop pending (n # ns) =
     (if n > 0 \<and> n \<notin> set pending then appendLoop (pending @ [n]) ns else appendLoop pending ns)"

definition appendPending :: "int list \<Rightarrow> int list \<Rightarrow> int list" where
  "appendPending pending discovered = appendLoop pending discovered"

datatype sweepResult =
    SweepDone
  | SweepFailures "(int \<times> sweepError) list"
  | SweepStopped int sweepError
  | SweepCancelled
  | SweepDiscovery forgeError

text \<open>
  The loop over the pending candidates; \<open>reconcile\<close> is \<open>Reconcile\<close> of the controller, and the
  third component of the result lists the issues reconciled, in order.
\<close>

fun sweepLoop ::
  "(int \<Rightarrow> 'w \<Rightarrow> sweepError option \<times> 'w) \<Rightarrow> ('w \<Rightarrow> bool) \<Rightarrow> bool \<Rightarrow> int \<Rightarrow> (int \<times> sweepError) list \<Rightarrow> int list \<Rightarrow> 'w
   \<Rightarrow> sweepResult \<times> SweepState \<times> int list \<times> 'w" where
  "sweepLoop reconcile cancelled dedicated retryAt failures [] w =
     ((if failures = [] then SweepDone else SweepFailures failures),
      \<lparr>swPending = [], swRetryBudgetAt = 0\<rparr>, [], w)"
| "sweepLoop reconcile cancelled dedicated retryAt failures (n # rest) w =
     (case reconcile n w of
        (r, w1) \<Rightarrow>
          (case r of
             Some e \<Rightarrow>
               if isRateLimited e \<or> isSweepBudget e then
                 (if isSweepBudget e then
                    (if dedicated \<and> n = retryAt
                     then (SweepStopped n e, \<lparr>swPending = (if rest \<noteq> [] then rest @ [n] else [n]), swRetryBudgetAt = 0\<rparr>, [n], w1)
                     else (SweepStopped n e, \<lparr>swPending = n # rest, swRetryBudgetAt = n\<rparr>, [n], w1))
                  else (SweepStopped n e, \<lparr>swPending = n # rest, swRetryBudgetAt = retryAt\<rparr>, [n], w1))
               else if cancelled w1 then (SweepCancelled, \<lparr>swPending = n # rest, swRetryBudgetAt = retryAt\<rparr>, [n], w1)
               else (case sweepLoop reconcile cancelled (if n = retryAt then False else dedicated)
                            (if n = retryAt then 0 else retryAt) (failures @ [(n, e)]) rest w1 of
                       (res, st, vis, w2) \<Rightarrow> (res, st, n # vis, w2))
           | None \<Rightarrow>
               if cancelled w1 then (SweepCancelled, \<lparr>swPending = n # rest, swRetryBudgetAt = retryAt\<rparr>, [n], w1)
               else (case sweepLoop reconcile cancelled (if n = retryAt then False else dedicated)
                            (if n = retryAt then 0 else retryAt) failures rest w1 of
                       (res, st, vis, w2) \<Rightarrow> (res, st, n # vis, w2))))"

text \<open>
  \<open>Sweep\<close>. The forge's candidate discovery returns the issues found and an error, or none; the
  local budget reset is a function on the world.
\<close>

definition Sweep ::
  "(int \<Rightarrow> 'w \<Rightarrow> sweepError option \<times> 'w) \<Rightarrow> ('w \<Rightarrow> bool) \<Rightarrow> ('w \<Rightarrow> (int list \<times> forgeError option) \<times> 'w) \<Rightarrow> ('w \<Rightarrow> 'w)
   \<Rightarrow> SweepState \<Rightarrow> 'w \<Rightarrow> sweepResult \<times> SweepState \<times> int list \<times> 'w" where
  "Sweep reconcile cancelled candidates resetBudget st w =
     (if swRetryBudgetAt st \<noteq> 0 then
        sweepLoop reconcile cancelled True (swRetryBudgetAt st) [] (swPending st) (resetBudget w)
      else
        (case candidates w of
           ((targets, err), w1) \<Rightarrow>
             (let pending = appendPending (swPending st) targets
              in case err of
                   Some e \<Rightarrow>
                     (SweepDiscovery e,
                      \<lparr>swPending = pending,
                       swRetryBudgetAt = (if e = FSweepBudget \<and> pending \<noteq> [] then hd pending else swRetryBudgetAt st)\<rparr>,
                      [], w1)
                 | None \<Rightarrow> sweepLoop reconcile cancelled False (swRetryBudgetAt st) [] pending w1)))"

section \<open>Nothing is lost\<close>

lemma appendLoop_set: "set (appendLoop p ns) = set p \<union> {n \<in> set ns. n > 0}"
  by (induction p ns rule: appendLoop.induct) auto

lemma appendLoop_distinct: "distinct p \<Longrightarrow> distinct (appendLoop p ns)"
  by (induction p ns rule: appendLoop.induct) auto

lemma appendLoop_prefix: "\<exists>q. appendLoop p ns = p @ q"
  by (induction p ns rule: appendLoop.induct) auto

text \<open>
  What a pass over the pending list leaves: every candidate was visited or is still pending, the
  visited ones are a prefix, and a stopped pass keeps the interrupted candidate.
\<close>

lemma sweepLoop_accounts:
  assumes "sweepLoop reconcile cancelled ded rt fs pending w = (res, st, vis, w')"
  shows "\<exists>rest. pending = vis @ rest
    \<and> (if res = SweepDone \<or> (\<exists>f. res = SweepFailures f) then rest = [] \<and> swPending st = []
       else vis \<noteq> [] \<and> (swPending st = last vis # rest \<or> swPending st = rest @ [last vis]))"
  using assms
proof (induction reconcile cancelled ded rt fs pending w arbitrary: vis res st w' rule: sweepLoop.induct)
  case (2 reconcile cancelled ded rt fs n rest w)
  obtain r w1 where r: "reconcile n w = (r, w1)" by fastforce
  obtain res1 st1 vis1 w2 where rec: "sweepLoop reconcile cancelled (if n = rt then False else ded)
      (if n = rt then 0 else rt) (case r of Some e \<Rightarrow> fs @ [(n, e)] | None \<Rightarrow> fs) rest w1 = (res1, st1, vis1, w2)"
    by (metis prod_cases4)
  have step: "\<exists>rest'. n # rest = (n # vis1) @ rest'
    \<and> (if res1 = SweepDone \<or> (\<exists>f. res1 = SweepFailures f) then rest' = [] \<and> swPending st1 = []
       else n # vis1 \<noteq> [] \<and> (swPending st1 = last (n # vis1) # rest' \<or> swPending st1 = rest' @ [last (n # vis1)]))"
    if goon: "\<not> cancelled w1" "\<not> (\<exists>e. r = Some e \<and> (isRateLimited e \<or> isSweepBudget e))"
  proof -
    have "\<exists>rest'. rest = vis1 @ rest'
      \<and> (if res1 = SweepDone \<or> (\<exists>f. res1 = SweepFailures f) then rest' = [] \<and> swPending st1 = []
         else vis1 \<noteq> [] \<and> (swPending st1 = last vis1 # rest' \<or> swPending st1 = rest' @ [last vis1]))"
    proof (cases r)
      case None
      show ?thesis by (rule "2.IH"(1) [OF r [symmetric] None goon(1)]) (use rec None in simp)
    next
      case (Some e)
      show ?thesis by (rule "2.IH"(2) [OF r [symmetric] Some _ goon(1)]) (use rec Some goon in simp_all)
    qed
    then show ?thesis by (auto split: if_splits)
  qed
  show ?case
  proof (cases "cancelled w1 \<or> (\<exists>e. r = Some e \<and> (isRateLimited e \<or> isSweepBudget e))")
    case True
    have "vis = [n] \<and> res \<noteq> SweepDone \<and> (\<forall>f. res \<noteq> SweepFailures f)
      \<and> (swPending st = n # rest \<or> swPending st = rest @ [n])"
    proof (cases r)
      case None
      with True "2.prems" show ?thesis by (auto simp: r)
    next
      case (Some e)
      show ?thesis
      proof (cases "isRateLimited e \<or> isSweepBudget e")
        case True
        with "2.prems" Some show ?thesis by (auto simp: r split: if_splits)
      next
        case False
        with True Some have "cancelled w1" by simp
        with False "2.prems" Some show ?thesis by (auto simp: r)
      qed
    qed
    then show ?thesis by auto
  next
    case False
    with "2.prems" r rec have "res = res1" "st = st1" "vis = n # vis1"
      by (cases r; simp)+
    with step False show ?thesis by blast
  qed
qed simp

lemma sweepLoop_set:
  assumes "sweepLoop reconcile cancelled ded rt fs pending w = (res, st, vis, w')"
  shows "set pending = set vis \<union> set (swPending st)
    \<and> (case res of SweepDone \<Rightarrow> swPending st = [] | SweepFailures f \<Rightarrow> swPending st = []
        | SweepDiscovery e \<Rightarrow> vis = [] | _ \<Rightarrow> vis \<noteq> [] \<and> last vis \<in> set (swPending st))"
proof -
  have "res \<noteq> SweepDiscovery e" for e
    using assms
    by (induction reconcile cancelled ded rt fs pending w arbitrary: vis res st w' rule: sweepLoop.induct)
      (fastforce split: if_splits prod.splits option.splits)+
  with sweepLoop_accounts [OF assms] last_in_set [of vis] show ?thesis
    by (auto split: sweepResult.splits if_splits)
qed

lemma Validate_any_issue:
  assumes "Validate u c = None" and "0 < issue"
  shows "Validate u (c\<lparr>cfgIssue := issue\<rparr>) = None"
proof -
  have "validateReviewerProfiles u (c\<lparr>cfgIssue := issue\<rparr>) = validateReviewerProfiles u c"
    "validateIdentities u (c\<lparr>cfgIssue := issue\<rparr>) = validateIdentities u c"
    "missingFields (c\<lparr>cfgIssue := issue\<rparr>) = missingFields c"
    by (simp_all add: validateReviewerProfiles_def validateIdentities_def missingFields_def Let_def cong: if_cong)
  then show ?thesis using Validate_checks [OF assms(1)] assms(2) by (simp add: Validate_def)
qed

section \<open>Properties\<close>

text \<open>A sweep loses no candidate: every issue that was pending or was discovered is visited in
  this sweep or still pending after it, nothing else becomes pending, a sweep that ran to the end
  leaves none, and one that stopped or was cancelled keeps the issue it was interrupted at.\<close>

theorem sweep_loses_no_candidate:
  "case Sweep reconcile cancelled candidates resetBudget st w of (res, st', vis, w') \<Rightarrow>
     set (swPending st) \<union> (if swRetryBudgetAt st \<noteq> 0 then {} else {n \<in> set (fst (fst (candidates w))). n > 0})
       = set vis \<union> set (swPending st')
   \<and> (case res of SweepDone \<Rightarrow> swPending st' = [] | SweepFailures f \<Rightarrow> swPending st' = []
        | SweepDiscovery e \<Rightarrow> vis = [] | _ \<Rightarrow> vis \<noteq> [] \<and> last vis \<in> set (swPending st'))"
proof (cases "swRetryBudgetAt st \<noteq> 0")
  case True
  obtain res st' vis w' where r: "sweepLoop reconcile cancelled True (swRetryBudgetAt st) [] (swPending st) (resetBudget w) = (res, st', vis, w')"
    by (metis prod_cases4)
  from sweepLoop_set [OF r] True r show ?thesis by (simp add: Sweep_def)
next
  case False
  obtain targets err w1 where c: "candidates w = ((targets, err), w1)" by (metis prod.collapse)
  let ?p = "appendPending (swPending st) targets"
  have p: "set ?p = set (swPending st) \<union> {n \<in> set targets. n > 0}" by (simp add: appendPending_def appendLoop_set)
  obtain res st' vis w' where r: "sweepLoop reconcile cancelled False (swRetryBudgetAt st) [] ?p w1 = (res, st', vis, w')"
    by (metis prod_cases4)
  show ?thesis using sweepLoop_set [OF r] False c r p by (cases err) (simp_all add: Sweep_def Let_def)
qed

text \<open>An issue whose observation exhausts a whole dedicated budget cannot starve its peers: it
  moves behind every other pending issue, and the next sweep discovers again.\<close>

theorem budget_exhaustion_rotates:
  assumes "swRetryBudgetAt st = n" and "n \<noteq> 0" and "swPending st = n # m # rest"
    and "reconcile n (resetBudget w) = (Some e, w1)" and "isSweepBudget e"
  shows "Sweep reconcile cancelled candidates resetBudget st w
    = (SweepStopped n e, \<lparr>swPending = m # rest @ [n], swRetryBudgetAt = 0\<rparr>, [n], w1)"
  using assms by (simp add: Sweep_def isRateLimited_def isSweepBudget_def)

theorem budget_exhaustion_rotates_witness:
  "Sweep (\<lambda>n w. (Some (RunFailed (ForgeFailed FSweepBudget)), w)) (\<lambda>_. False) (\<lambda>w. (([], None), w)) id
     \<lparr>swPending = [4, 5, 6], swRetryBudgetAt = 4\<rparr> ()
   = (SweepStopped 4 (RunFailed (ForgeFailed FSweepBudget)), \<lparr>swPending = [5, 6, 4], swRetryBudgetAt = 0\<rparr>, [4], ())"
  using budget_exhaustion_rotates [of "\<lparr>swPending = [4, 5, 6], swRetryBudgetAt = 4\<rparr>" 4 5 "[6]"
      "\<lambda>n w. (Some (RunFailed (ForgeFailed FSweepBudget)), w)" id "()" "RunFailed (ForgeFailed FSweepBudget)" "()"
      "\<lambda>_. False" "\<lambda>w. (([], None), w)"]
  by (simp add: isSweepBudget_def)

end
