(* ===== verification/RevSafety.thy ===== *)
theory RevSafety
  imports RevTerminal
begin

text \<open>
  The safety and progress properties of the review controller's reducer. The demonstration
  world at the beginning is one issue with one delivered milestone; the witnesses apply the
  properties to it.
\<close>

section \<open>A demonstration world\<close>

definition demoRuntime :: runtime where
  "demoRuntime = \<lparr>foldOf = id, lowerOf = id, hostOf = Some\<rparr>"

definition demoConfig :: Config where
  "demoConfig = \<lparr>cfgOwner = ''o'', cfgRepo = ''r'', cfgIssue = 7, cfgPrincipal = ''ben'', cfgTrackerAuthor = ''tr'',
     cfgController = ''ctl'', cfgAllowSharedTrackerController = False, cfgRequiredLabels = [''q''], cfgQueueLabel = ''q'',
     cfgAddHumanReviewLabel = True, cfgRoundCap = 2, cfgReviewerProfiles = [], cfgDefaultReviewerProfile = []\<rparr>"

definition demoHead :: string where "demoHead = replicate 40 CHR ''a''"
definition demoBase :: string where "demoBase = replicate 40 CHR ''b''"

definition demoPR :: PullRequest where
  "demoPR = \<lparr>prNumber = 9, prURL = ''https://h/o/r/pull/9'', prClosed = False, prMerged = False, prBranch = ''ben/7'',
     prHead = demoHead, prBase = ''main'', prBaseSHA = demoBase, prBody = ''fix #7''\<rparr>"

definition demoSnapshot :: Snapshot where
  "demoSnapshot = \<lparr>snIssue = \<lparr>issNumber = 7, issClosed = False, issLabels = [''q''], issAssignees = [''ben'']\<rparr>,
     snComments = [\<lparr>cmID = 1, cmAuthor = ''tr'',
       cmBody = ''<!-- ben:milestone kind=published occurrence=3 -->'' @ nl @ ''- pull request: https://h/o/r/pull/9'', cmCreatedAt = 4\<rparr>],
     snEvents = [\<lparr>evID = 1, evType = EventLabeled, evActor = ''h'', evAssignee = [], evLabel = ''q'', evCreatedAt = 1\<rparr>,
       \<lparr>evID = 2, evType = EventAssigned, evActor = ''ben'', evAssignee = ''ben'', evLabel = [], evCreatedAt = 2\<rparr>,
       \<lparr>evID = 3, evType = EventUnlabeled, evActor = ''tr'', evAssignee = [], evLabel = ''ben:running'', evCreatedAt = 3\<rparr>],
     snReviews = [], snPR = Some demoPR\<rparr>"

definition demoReview :: Review where
  "demoReview = \<lparr>rvID = 11, rvAuthor = ''ctl'',
     rvBody = ReviewMarker_String \<lparr>rmOccurrence = 3, rmClaim = 2, rmApproval = 1, rmHead = demoHead, rmBase = demoBase,
       rmVerdict = VerdictChangesRequested, rmReviewerProfile = []\<rparr>,
     rvCommitID = demoHead, rvState = ReviewStateCommented, rvSubmittedAt = 5\<rparr>"

definition demoReviewed :: Snapshot where
  "demoReviewed = demoSnapshot\<lparr>snReviews := [demoReview]\<rparr>"

definition demoRoute :: RouteMarker where
  "demoRoute = \<lparr>rtOccurrence = 1, rtClaim = 2, rtHead = demoHead, rtOutcome = OutcomeRevise\<rparr>"

definition demoRouteComment :: Comment where
  "demoRouteComment = \<lparr>cmID = 2, cmAuthor = ''ctl'', cmBody = RouteBody demoRoute [], cmCreatedAt = 4\<rparr>"

definition demoRouted :: Snapshot where
  "demoRouted = demoSnapshot\<lparr>snComments := snComments demoSnapshot @ [demoRouteComment]\<rparr>"

definition demoIntent :: RouteIntentMarker where
  "demoIntent = \<lparr>riOccurrence = 3, riClaim = 2, riApproval = 1, riHead = demoHead, riOutcome = OutcomeNoProgress\<rparr>"

definition demoIntentComment :: Comment where
  "demoIntentComment = \<lparr>cmID = 2, cmAuthor = ''ctl'', cmBody = RouteIntentBody demoIntent [], cmCreatedAt = 4\<rparr>"

definition demoPending :: Snapshot where
  "demoPending = demoSnapshot\<lparr>snComments := snComments demoSnapshot @ [demoIntentComment]\<rparr>"

text \<open>The same head was already reviewed in this cycle for another occurrence.\<close>

definition demoStuck :: Snapshot where
  "demoStuck = demoSnapshot\<lparr>snReviews := [demoReview\<lparr>rvBody := ReviewMarker_String
     \<lparr>rmOccurrence = 2, rmClaim = 2, rmApproval = 1, rmHead = demoHead, rmBase = demoBase,
      rmVerdict = VerdictChangesRequested, rmReviewerProfile = []\<rparr>\<rparr>]\<rparr>"

definition demoStuckComment :: Comment where
  "demoStuckComment = \<lparr>cmID = 2, cmAuthor = ''ctl'',
     cmBody = RouteIntentBody (intentOf (Reduce demoRuntime demoConfig demoStuck)) [], cmCreatedAt = 4\<rparr>"

definition demoUnassigned :: Event where
  "demoUnassigned = \<lparr>evID = 9, evType = EventUnassigned, evActor = ''ctl'', evAssignee = ''ben'', evLabel = [], evCreatedAt = 9\<rparr>"

definition demoPosted :: Review where
  "demoPosted = demoReview\<lparr>rvBody := ReviewBody (markerOf (Reduce demoRuntime demoConfig demoSnapshot) VerdictClean) []\<rparr>"

lemma demo_review: "stKind (Reduce demoRuntime demoConfig demoSnapshot) = StepReview" by code_simp

lemma demo_routed: "stKind (Reduce demoRuntime demoConfig demoRouted) = StepReview" by code_simp

lemma demo_stuck: "stKind (Reduce demoRuntime demoConfig demoStuck) = StepRecordIntent" by code_simp

lemma demo_ids: "idsValid (snEvents demoSnapshot)" by code_simp

lemma demo_head: "stHead (Reduce demoRuntime demoConfig demoSnapshot) = demoHead" by code_simp

lemma demo_published:
  "publishedAs demoRuntime demoConfig (Reduce demoRuntime demoConfig demoSnapshot) VerdictClean [] demoPosted"
proof -
  have "eqFold demoRuntime (rvAuthor demoReview) (cfgController demoConfig)" by code_simp
  then show ?thesis
    by (simp add: publishedAs_def demo_head demoPosted_def)
      (simp add: demoReview_def zeroTime_def)
qed

lemma demo_unassign: "stKind (Reduce demoRuntime demoConfig demoReviewed) = StepUnassign" by code_simp

section \<open>Authority\<close>

text \<open>C1. The permission model: whatever the observation, a step unassigns at most the configured
  principal, and only when the principal is the sole assignee; it removes at most the queue label,
  only while that label stands, and adds at most the informational label, which is never one of the
  required labels; no other kind of step names a login or a label.\<close>

theorem Reduce_permissions:
  "let step = Reduce u cfg s in
   (if stKind step = StepUnassign
      then stPrincipal step = cfgPrincipal cfg
           \<and> (\<exists>a. issAssignees (snIssue s) = [a] \<and> eqFold u a (cfgPrincipal cfg))
      else stPrincipal step = [])
   \<and> (if stKind step = StepRevoke
      then stRemoveLabel step = cfgQueueLabel cfg \<and> hasLabel u (issLabels (snIssue s)) (cfgQueueLabel cfg)
           \<and> stAddLabel step \<in> {[], HumanReviewLabel} \<and> (if stAddLabel step = [] then True else \<not> hasLabel u (cfgRequiredLabels cfg) (stAddLabel step))
      else stRemoveLabel step = [] \<and> stAddLabel step = [])"
proof -
  have "\<not> hasLabel u (cfgRequiredLabels cfg) HumanReviewLabel"
    if "stKind (Reduce u cfg s) = StepRevoke" "addLabelOf cfg \<noteq> []"
    using that Validate_identities(3) by (auto simp: Reduce_def step_simps addLabelOf_def split: option.splits if_splits)
  then show ?thesis
    using permitted_Reduce [of u cfg s] by (auto simp: permitted_def Let_def addLabelOf_def split: if_splits)
qed



text \<open>The principal's claim is handed back only on a trusted controller review that requests
  changes on exactly the delivered occurrence, claim, head and base, attached by the forge to that
  head, while that claim is still current, the approval of the delivery still stands and the round
  cap is not reached.\<close>

theorem Reduce_handback_authorized:
  fixes u cfg s
  defines "step \<equiv> Reduce u cfg s" and "events \<equiv> SortEvents (snEvents s)"
  assumes "stKind step = StepUnassign" and "\<forall>e\<in>set (snEvents s). 0 < evID e"
  shows "\<exists>t pr r m. LatestPublished u cfg (snComments s) = Some t \<and> snPR s = Some pr
    \<and> validateSubject u cfg t (Some pr) = None \<and> routeFor u cfg (snComments s) (trOccurrence t) = None
    \<and> (stOccurrence step, stPR step, stHead step) = (trOccurrence t, pr, prHead pr)
    \<and> r \<in> set (snReviews s) \<and> eqFold u (rvAuthor r) (cfgController cfg) \<and> rvState r = ReviewStateCommented
    \<and> ParseReviewMarker (rvBody r) = Inr m \<and> rvCommitID r = prHead pr
    \<and> (rmOccurrence m, rmClaim m, rmHead m, rmBase m, rmVerdict m)
        = (trOccurrence t, stClaim step, prHead pr, prBaseSHA pr, VerdictChangesRequested)
    \<and> claimEpochAtOccurrence u events (cfgPrincipal cfg) (trOccurrence t) = (stClaim step, True)
    \<and> ClaimEpoch u events (cfgPrincipal cfg) = stClaim step
    \<and> (\<exists>a. approvalEpochAtOccurrence u events (cfgRequiredLabels cfg) (trOccurrence t) = (a, True)
         \<and> standingApproval u (cfgRequiredLabels cfg) events = (a, True)
         \<and> int (length (roundHeads u cfg s (trOccurrence t) a)) < cfgRoundCap cfg)"
proof -
  obtain t pr c a p cur w where g: "handbackGate u cfg s t pr c a p cur"
    and st: "step = zeroStep\<lparr>stKind := StepUnassign, stWhy := w, stPR := pr, stOccurrence := trOccurrence t,
       stClaim := c, stHead := prHead pr, stPrincipal := cfgPrincipal cfg\<rparr>"
    using Reduce_unassign assms(3) unfolding step_def by metis
  have "\<forall>e\<in>set events. 0 < evID e" using assms(4) by (simp add: events_def SortEvents_def)
  then have sa: "standingApproval u (cfgRequiredLabels cfg) events = (a, True)"
    using g approvalChanges_intact by (auto simp: handbackGate_def Let_def events_def)
  have R: "reviewFor (trustedReviews u cfg s) (trOccurrence t) c a (prHead pr) (prBaseSHA pr) = Some cur"
    using g by (simp add: handbackGate_def Let_def)
  note m = reviewFor_Some [OF R]
  have "rmVerdict (pbMarker cur) = VerdictChangesRequested"
    using trusted_verdict [OF m(1)] g by (auto simp: handbackGate_def Let_def)
  then show ?thesis
    using trusted_sound [OF m(1)] m g sa
    unfolding st handbackGate_def deliveryOn_def events_def Let_def by fastforce
qed

theorem Reduce_handback_authorized_witness:
  "stKind (Reduce demoRuntime demoConfig demoReviewed) = StepUnassign
   \<and> ClaimEpoch demoRuntime (SortEvents (snEvents demoReviewed)) ''ben'' = stClaim (Reduce demoRuntime demoConfig demoReviewed)"
proof -
  have "\<forall>e\<in>set (snEvents demoReviewed). 0 < evID e" by (simp add: demoReviewed_def demoSnapshot_def)
  from Reduce_handback_authorized [OF demo_unassign this] demo_unassign show ?thesis
    by (auto simp: demoConfig_def)
qed

section \<open>Crash safety\<close>

text \<open>C25. An occurrence for which the controller has posted a route, whatever its reason text, is
  never driven again: no later reduction proposes a step for it.\<close>

theorem routed_occurrence_never_redriven:
  assumes "c \<in> set (snComments s)" and "eqFold u (cmAuthor c) (cfgController cfg)"
    and "cmBody c = RouteBody m why" and "validRoute m"
    and "stKind (Reduce u cfg s) \<noteq> StepNothing"
  shows "stOccurrence (Reduce u cfg s) \<noteq> rtOccurrence m"
proof -
  obtain pre where "framed pre" "RouteBody m why = pre @ RouteMarker_String m @ nl"
    using RouteBody_frame [OF assms(4)] by blast
  then have "ParseRouteMarker (cmBody c) = Inr m" using assms(3) route_codec.parse_framed [OF assms(4)] by simp
  then have "routeFor u cfg (snComments s) (rtOccurrence m) \<noteq> None"
    by (rule routeFor_present [OF assms(1,2)])
  with unrouted_Reduce [of u cfg s] assms(5) show ?thesis by (auto simp: unrouted_def)
qed

theorem routed_occurrence_never_redriven_witness:
  "stKind (Reduce demoRuntime demoConfig demoRouted) = StepReview
   \<and> stOccurrence (Reduce demoRuntime demoConfig demoRouted) \<noteq> rtOccurrence demoRoute"
proof -
  have "demoRouteComment \<in> set (snComments demoRouted)" by (simp add: demoRouted_def)
  moreover have "eqFold demoRuntime (cmAuthor demoRouteComment) (cfgController demoConfig)" by code_simp
  moreover have "cmBody demoRouteComment = RouteBody demoRoute []" by (simp add: demoRouteComment_def)
  moreover have "validRoute demoRoute" by code_simp
  ultimately show ?thesis
    using routed_occurrence_never_redriven [of demoRouteComment demoRouted demoRuntime demoConfig demoRoute "[]"] demo_routed
    by simp
qed

text \<open>A terminal intent that is on the issue and has no route yet comes before everything else:
  until it is routed no review is started, no claim is handed back and no second intent is posted.\<close>

theorem pending_intent_dominates:
  assumes "c \<in> set (snComments s)" and "eqFold u (cmAuthor c) (cfgController cfg)"
    and "cmBody c = RouteIntentBody m why" and "validIntent m"
    and "routeFor u cfg (snComments s) (riOccurrence m) = None"
  shows "stKind (Reduce u cfg s) \<in> {StepNothing, StepRecordRoute, StepRevoke}"
proof -
  obtain pre where "framed pre" "RouteIntentBody m why = pre @ RouteIntentMarker_String m @ nl"
    using RouteIntentBody_frame [OF assms(4)] by blast
  then have "ParseRouteIntentMarker (cmBody c) = Inr m" using assms(3) intent_codec.parse_framed [OF assms(4)] by simp
  with assms have "intentOn u cfg s m" by (auto simp: intentOn_def)
  then show ?thesis by (rule pending_intent_kind)
qed

theorem pending_intent_dominates_witness:
  "stKind (Reduce demoRuntime demoConfig demoPending) \<in> {StepNothing, StepRecordRoute, StepRevoke}"
proof -
  have "demoIntentComment \<in> set (snComments demoPending)" by (simp add: demoPending_def)
  moreover have "eqFold demoRuntime (cmAuthor demoIntentComment) (cfgController demoConfig)" by code_simp
  moreover have "cmBody demoIntentComment = RouteIntentBody demoIntent []" by (simp add: demoIntentComment_def)
  moreover have "validIntent demoIntent" by code_simp
  moreover have "routeFor demoRuntime demoConfig (snComments demoPending) (riOccurrence demoIntent) = None" by code_simp
  ultimately show ?thesis by (rule pending_intent_dominates)
qed

text \<open>After the review of a review step is published, with any findings, no reduction of the
  same world asks for a review again.\<close>

theorem published_review_settles:
  assumes "stKind (Reduce u cfg s) = StepReview" and "idsValid (snEvents s)"
    and "v = VerdictClean \<or> v = VerdictChangesRequested"
    and "publishedAs u cfg (Reduce u cfg s) v findings r"
  shows "stKind (Reduce u cfg (s\<lparr>snReviews := snReviews s @ [r]\<rparr>)) \<noteq> StepReview"
proof
  let ?s = "s\<lparr>snReviews := snReviews s @ [r]\<rparr>"
  obtain t pr c a p w where g: "reviewGate u cfg s t pr c a p" and st: "Reduce u cfg s = reviewStepOf t pr c a p w"
    by (rule Reduce_review [OF assms(1)])
  let ?m = "markerOf (reviewStepOf t pr c a p w) v"
  have "validReview ?m" by (rule reviewGate_marker_valid [OF g assms(2,3)])
  with assms(4) st have tr: "\<lparr>pbReview = r, pbMarker = ?m, pbZero = False\<rparr> \<in> set (trustedReviews u cfg ?s)"
    by (simp add: trustedReviews_append trustReview_published)
  assume "stKind (Reduce u cfg ?s) = StepReview"
  then obtain t' pr' c' a' p' where g': "reviewGate u cfg ?s t' pr' c' a' p'"
    by (rule Reduce_review)
  then have "t' = t \<and> pr' = pr \<and> c' = c \<and> a' = a"
    using g deliveryOn_unique [of u cfg s] by (auto simp: reviewGate_def Let_def)
  with g' tr show False
    by (auto simp: reviewGate_def Let_def reviewFor_def firstSuch_None_iff markerOf_def step_simps)
qed

theorem published_review_settles_witness:
  "stKind (Reduce demoRuntime demoConfig demoSnapshot) = StepReview
   \<and> stKind (Reduce demoRuntime demoConfig (demoSnapshot\<lparr>snReviews := snReviews demoSnapshot @ [demoPosted]\<rparr>)) \<noteq> StepReview"
  using published_review_settles [OF demo_review demo_ids _ demo_published] demo_review by simp

text \<open>C26. The round cap is an invariant of publishing reviews: a review step whose review is
  published leaves at most \<open>RoundCap\<close> distinct reviewed heads in the approval cycle, provided the
  trusted reviews of the cycle were submitted after the cycle began.\<close>

theorem round_cap_holds:
  fixes u cfg s
  defines "step \<equiv> Reduce u cfg s"
  assumes "stKind step = StepReview" and "idsValid (snEvents s)"
    and "v = VerdictClean \<or> v = VerdictChangesRequested" and "publishedAs u cfg step v findings r"
    and "int (length (roundHeads u cfg s (stOccurrence step) (stApproval step))) \<le> cfgRoundCap cfg"
    and "\<forall>p\<in>set (trustedReviews u cfg s). rmApproval (pbMarker p) = stApproval step \<longrightarrow>
      cycleStartAtOccurrence u cfg (SortEvents (snEvents s)) (stOccurrence step) \<le> rvSubmittedAt (pbReview p)"
  shows "int (length (roundHeads u cfg (s\<lparr>snReviews := snReviews s @ [r]\<rparr>) (stOccurrence step) (stApproval step)))
    \<le> cfgRoundCap cfg"
proof -
  obtain t pr c a p w where g: "reviewGate u cfg s t pr c a p" and st: "step = reviewStepOf t pr c a p w"
    using Reduce_review assms(2) unfolding step_def by metis
  have "validReview (markerOf step v)" unfolding st by (rule reviewGate_marker_valid [OF g assms(3,4)])
  note tr = trustReview_published [OF assms(5) this]
  show ?thesis
    using round_cap_step [OF g tr] assms(6,7) unfolding st by (simp add: step_simps markerOf_def)
qed

theorem round_cap_holds_witness:
  "int (length (roundHeads demoRuntime demoConfig (demoSnapshot\<lparr>snReviews := snReviews demoSnapshot @ [demoPosted]\<rparr>)
     (stOccurrence (Reduce demoRuntime demoConfig demoSnapshot)) (stApproval (Reduce demoRuntime demoConfig demoSnapshot))))
   \<le> cfgRoundCap demoConfig"
proof (rule round_cap_holds [OF demo_review demo_ids _ demo_published])
  have "trustedReviews demoRuntime demoConfig demoSnapshot = []"
    by (simp add: trustedReviews_def controllerReviews_def demoSnapshot_def List.map_filter_def)
  then show "int (length (roundHeads demoRuntime demoConfig demoSnapshot (stOccurrence (Reduce demoRuntime demoConfig demoSnapshot))
      (stApproval (Reduce demoRuntime demoConfig demoSnapshot)))) \<le> cfgRoundCap demoConfig"
    and "\<forall>p\<in>set (trustedReviews demoRuntime demoConfig demoSnapshot).
      rmApproval (pbMarker p) = stApproval (Reduce demoRuntime demoConfig demoSnapshot) \<longrightarrow>
      cycleStartAtOccurrence demoRuntime demoConfig (SortEvents (snEvents demoSnapshot))
        (stOccurrence (Reduce demoRuntime demoConfig demoSnapshot)) \<le> rvSubmittedAt (pbReview p)"
    by (simp_all add: roundHeads_def distinctHeads_def forApproval_def since_def demoConfig_def)
qed simp

text \<open>Once the log ends with the principal's unassignment, no reduction hands the claim back
  again, whatever the assignee list still shows.\<close>

theorem handback_not_repeated:
  assumes "SortEvents (snEvents s) = evs @ [e]" and "evType e = EventUnassigned"
    and "eqFold u (evAssignee e) (cfgPrincipal cfg)"
  shows "stKind (Reduce u cfg s) \<noteq> StepUnassign"
proof
  assume "stKind (Reduce u cfg s) = StepUnassign"
  then obtain t pr c a p cur where g: "handbackGate u cfg s t pr c a p cur" by (rule Reduce_unassign)
  have "ClaimEpoch u (SortEvents (snEvents s)) (cfgPrincipal cfg) = 0"
    using assms by (simp add: ClaimEpoch_def claimStep_def EventAssigned_def EventUnassigned_def)
  moreover have "c > 0"
  proof -
    have "claimEpochAtOccurrence u (SortEvents (snEvents s)) (cfgPrincipal cfg) (trOccurrence t) = (c, True)"
      using g by (simp add: handbackGate_def deliveryOn_def Let_def)
    then show ?thesis using claim_at.at_ok by (metis fst_conv snd_conv)
  qed
  ultimately show False using g by (simp add: handbackGate_def Let_def)
qed

theorem handback_not_repeated_witness:
  "stKind (Reduce demoRuntime demoConfig (demoReviewed\<lparr>snEvents := snEvents demoSnapshot @ [demoUnassigned]\<rparr>)) \<noteq> StepUnassign"
proof (rule handback_not_repeated)
  show "SortEvents (snEvents (demoReviewed\<lparr>snEvents := snEvents demoSnapshot @ [demoUnassigned]\<rparr>))
    = snEvents demoSnapshot @ [demoUnassigned]" by code_simp
  show "evType demoUnassigned = EventUnassigned" by code_simp
  show "eqFold demoRuntime (evAssignee demoUnassigned) (cfgPrincipal demoConfig)" by code_simp
qed

text \<open>A terminal decision runs on: when the intent of an intent step is posted, the next
  reduction either revokes the queue label (when it stands and the approval is unchanged) or records
  the route, for the same occurrence, claim, head and outcome; it never stops with nothing.\<close>

theorem terminal_intent_progresses:
  fixes u cfg s c
  defines "step \<equiv> Reduce u cfg s" and "s' \<equiv> s\<lparr>snComments := snComments s @ [c]\<rparr>"
  assumes "stKind step = StepRecordIntent" and "idsValid (snEvents s)" and "logOrdered (SortEvents (snEvents s))"
    and "eqFold u (cmAuthor c) (cfgController cfg)" and "cmBody c = RouteIntentBody (intentOf step) why"
  shows "stKind (Reduce u cfg s') =
      (if hasLabel u (issLabels (snIssue s)) (cfgQueueLabel cfg)
         \<and> approvalChangesAfterEpoch u (SortEvents (snEvents s)) (cfgRequiredLabels cfg) (stApproval step) = (False, 0, True)
       then StepRevoke else StepRecordRoute)
    \<and> (stOccurrence (Reduce u cfg s'), stClaim (Reduce u cfg s'), stHead (Reduce u cfg s'), stOutcome (Reduce u cfg s'))
      = (stOccurrence step, stClaim step, stHead step, stOutcome step)"
proof -
  obtain t pr cl a out w where V: "Validate u cfg = None" and D: "deliveryOn u cfg s t pr cl a"
    and out: "out \<in> {OutcomeHumanReview, OutcomeNoProgress, OutcomeRoundCap}"
    and st: "step = intentStepOf t pr cl a out w"
    using Reduce_intent assms(3) unfolding step_def by metis
  have none: "\<not> intentOn u cfg s m" for m
    using pending_intent_kind [of u cfg s m] assms(3) by (auto simp: step_def)
  have i: "validIntent (intentOf step)" unfolding st by (rule intentOf_valid [OF D assms(4) out])
  have "routeFor u cfg (snComments s) (riOccurrence (intentOf step)) = None"
    using D by (simp add: st deliveryOn_def Let_def intentOf_def intentStepOf_def)
  note res = resume_single [OF none assms(6,7) i this]
  obtain profile where S: "SelectReviewerProfile u cfg (issLabels (snIssue s)) = Inr profile"
    using assms(3) V by (auto simp: step_def Reduce_def step_simps split: sum.splits)
  have "Reduce u cfg s' = resumeIntent u cfg s' (SortEvents (snEvents s)) (intentOf step)"
    using V S res by (simp add: Reduce_def s'_def Let_def)
  then show ?thesis
    using resumeIntent_progress [OF D Validate_labels(1) [OF V] assms(5), of "intentOf step" s']
    by (simp add: Let_def s'_def st intentOf_def intentStepOf_def)
qed

theorem terminal_intent_progresses_witness:
  "stKind (Reduce demoRuntime demoConfig demoStuck) = StepRecordIntent
   \<and> stOccurrence (Reduce demoRuntime demoConfig (demoStuck\<lparr>snComments := snComments demoStuck @ [demoStuckComment]\<rparr>))
     = stOccurrence (Reduce demoRuntime demoConfig demoStuck)"
proof -
  have "idsValid (snEvents demoStuck)" and "logOrdered (SortEvents (snEvents demoStuck))" by code_simp+
  moreover have "eqFold demoRuntime (cmAuthor demoStuckComment) (cfgController demoConfig)" by code_simp
  moreover have "cmBody demoStuckComment = RouteIntentBody (intentOf (Reduce demoRuntime demoConfig demoStuck)) []"
    by (simp add: demoStuckComment_def)
  ultimately show ?thesis using terminal_intent_progresses [OF demo_stuck] demo_stuck by simp
qed

end
