(* ===== verification/RcSafety.thy ===== *)
theory RcSafety
  imports RcController RevSafety
begin

text \<open>
  The review controller's driver and construction: what a run may write, that a lagging read never
  repeats a write, and that a constructed controller is configured. The witness runs the driver over a forge that always shows the demonstration world.
\<close>

definition demoForge :: "unit Forge" where
  "demoForge = \<lparr>fIssue = (\<lambda>n w. (Inr (snIssue demoSnapshot), w)), fComments = (\<lambda>n w. (Inr (snComments demoSnapshot), w)),
     fEvents = (\<lambda>n w. (Inr (snEvents demoSnapshot), w)), fPullRequest = (\<lambda>n w. (Inr demoPR, w)),
     fReviews = (\<lambda>n w. (Inr [], w)), fDiff = (\<lambda>b h w. (Inr [], w)), fPublishReview = (\<lambda>n h b w. (Inr (), w)),
     fUnassign = (\<lambda>n l w. (Inr (), w)), fRemoveLabel = (\<lambda>n l w. (Inr (), w)), fAddLabel = (\<lambda>n l w. (Inr (), w)),
     fPostComment = (\<lambda>n b w. (Inr (), w)), rReview = (\<lambda>sub w. (Inr \<lparr>rpVerdict = VerdictClean, rpFindings = []\<rparr>, w)),
     rRetire = (\<lambda>sub w. w)\<rparr>"

definition demoDriver :: "unit Driver" where
  "demoDriver = \<lparr>dCfg = demoConfig, dForge = demoForge, dRepository = ''o/r'', dMaxDiffBytes = 400000, dDryRun = False\<rparr>"

definition demoOptions :: "unit Options" where
  "demoOptions = \<lparr>opPolicy = demoConfig, opForge = Some demoForge, opRepository = [], opMaxDiffBytes = 0, opDryRun = False\<rparr>"

lemma demo_observe: "observe demoRuntime demoDriver w = (Inr demoSnapshot, ())"
  by (cases w) code_simp

text \<open>C7. A run of the driver, whatever the forge and the reviewer answer, attempts only these
  writes: unassign the principal from this issue, remove the queue label from it, add the
  informational label (never one of the required labels), post a comment whose marker was proved
  to read back, and publish a review on a full commit id whose marker names that commit. A dry run
  attempts none, any run at most twelve, and recording the writes does not change the run.\<close>

theorem driver_writes_permitted:
  "let run = driverRun u explain (tracedDriver d) (w, []); writes = snd (snd run)
   in list_all (permittedAction u (dCfg d)) writes
    \<and> (if dDryRun d then writes = [] else length writes \<le> 12)
    \<and> (fst run, fst (snd run)) = driverRun u explain d w"
  using traced_writes.runLoop_keeps [of u d "(w, [])" maxSteps explain None]
    run_writes [of maxSteps u explain d None w "[]"] dry_run_quiet [of d maxSteps u explain None w "[]"]
    run_traced [of maxSteps u explain d None w "[]"]
  by (simp add: driverRun_def Let_def maxSteps_def untrace_def)

text \<open>A read that lags behind a write never repeats it: when every observation of the issue
  returns the same snapshot, a run applies the step at most once and then ends without an error.\<close>

theorem stale_read_not_repeated:
  assumes "\<forall>w. fst (observe u d w) = Inr snap" and "\<not> dDryRun d"
    and "stKind (Reduce u (dCfg d) snap) \<noteq> StepNothing"
    and "applyStep u explain d snap (Reduce u (dCfg d) snap) (snd (observe u d w)) = (Applied, w2)"
  shows "driverRun u explain d w = (None, snd (observe u d w2))"
proof -
  obtain w1 where 1: "observe u d w = (Inr snap, w1)" using assms(1) by (metis prod.collapse)
  obtain w3 where 3: "observe u d w2 = (Inr snap, w3)" using assms(1) by (metis prod.collapse)
  have "sameStep (Reduce u (dCfg d) snap) (Reduce u (dCfg d) snap)" by (simp add: sameStep_def)
  then show ?thesis
    using assms(2-4) by (simp add: driverRun_def maxSteps_def numeral_eq_Suc 1 3 Let_def)
qed


theorem stale_read_not_repeated_witness:
  "driverRun demoRuntime (\<lambda>_. []) demoDriver () = (None, ())"
proof -
  have o: "\<forall>w. fst (observe demoRuntime demoDriver w) = Inr demoSnapshot" by (simp add: demo_observe)
  have k: "stKind (Reduce demoRuntime (dCfg demoDriver) demoSnapshot) \<noteq> StepNothing"
    using demo_review by (simp add: demoDriver_def)
  have "applyStep demoRuntime (\<lambda>_. []) demoDriver demoSnapshot (Reduce demoRuntime (dCfg demoDriver) demoSnapshot)
      (snd (observe demoRuntime demoDriver ())) = (Applied, ())"
  proof -
    have b: "prBase (stPR (Reduce demoRuntime demoConfig demoSnapshot)) \<noteq> []
        \<and> prBaseSHA (stPR (Reduce demoRuntime demoConfig demoSnapshot)) \<noteq> []" by code_simp
    have f: "dCfg demoDriver = demoConfig" "dForge demoDriver = demoForge" by (simp_all add: demoDriver_def)
    show ?thesis
      using b demo_review
      by (simp add: applyStep_def performReview_def publishConfirmed_def sameReviewSubject_def demo_observe f demoForge_def Let_def)
  qed
  from stale_read_not_repeated [OF o _ k this] show ?thesis by (simp add: demoDriver_def)
qed

text \<open>A controller that was constructed is configured for every issue: its policy validates
  with each positive issue number, and its diff bound is not negative, so no reconciliation of a
  sweep meets a misconfiguration.\<close>

theorem constructed_policy_is_valid:
  assumes "newController u opts = Inr c" and "0 < issue"
  shows "Validate u (dCfg (driverFor c issue)) = None \<and> 0 \<le> dMaxDiffBytes (driverFor c issue)"
proof -
  let ?probe = "if cfgIssue (opPolicy opts) = 0 then (opPolicy opts)\<lparr>cfgIssue := 1\<rparr> else opPolicy opts"
  have "Validate u ?probe = None" "coPolicy c = opPolicy opts" "0 \<le> coMaxDiffBytes c"
    using assms(1) by (auto simp: newController_def Let_def DefaultMaxDiffBytes_def split: option.splits if_splits)
  then show ?thesis
    using Validate_any_issue [of u ?probe issue] assms(2) by (auto simp: driverFor_def split: if_splits)
qed

theorem constructed_policy_is_valid_witness:
  "case newController demoRuntime demoOptions of
     Inl e \<Rightarrow> False
   | Inr c \<Rightarrow> Validate demoRuntime (dCfg (driverFor c 12)) = None"
proof -
  obtain c where "newController demoRuntime demoOptions = Inr c"
  proof -
    have "Validate demoRuntime demoConfig = None" by code_simp
    then show ?thesis
      by (intro that) (simp add: newController_def demoOptions_def Let_def DefaultMaxDiffBytes_def demoConfig_def)
  qed
  with constructed_policy_is_valid [OF this, of 12] show ?thesis by simp
qed

end
