(* ===== verification/CoreTypes.thy ===== *)
theory CoreTypes
  imports GoStringFacts Complex_Main
begin

text \<open>
  The values of \<open>internal/core/core.go\<close> that the orchestrator and the verifier exchange:
  the normalized change log, state labels, milestones, the content-approval read, the
  durable claim base, the run marker and the publish facts. Go string types stay
  strings, because the code compares them with arbitrary values; Go integer enums are
  datatypes with one more constructor for the values outside the named set, which the
  \<open>default\<close> branches of the code handle.
\<close>

section \<open>ASCII names\<close>

text \<open>The daemon's own names are ASCII, where runes are bytes and folding is lower case.\<close>

definition ascii :: "string \<Rightarrow> bool" where
  "ascii s \<longleftrightarrow> list_all (\<lambda>c. byte c < 128) s"

lemma runesOf_ascii: "\<forall>b\<in>set bs. b < 128 \<Longrightarrow> runesOf bs = bs"
  by (induction bs) (subst runesOf.simps, simp add: decodeRune_def)+

lemma runes_ascii: "ascii s \<Longrightarrow> runes s = map byte s"
  unfolding runes_def by (rule runesOf_ascii) (auto simp: ascii_def list_all_iff)

lemma foldRune_ascii: "ascii s \<Longrightarrow> map (foldRune u) (map byte s) = map (\<lambda>c. asciiLower (byte c)) s"
  by (auto simp: ascii_def list_all_iff foldRune_def)

lemma equalFold_ascii:
  "ascii a \<Longrightarrow> ascii b \<Longrightarrow>
   equalFold u a b = (map (\<lambda>c. asciiLower (byte c)) a = map (\<lambda>c. asciiLower (byte c)) b)"
  by (simp add: equalFold_def runes_ascii foldRune_ascii del: map_map)

lemma toLower_ascii: "ascii s \<Longrightarrow> toLower u s = map (\<lambda>c. char_of (asciiLower (byte c))) s"
proof -
  assume a: "ascii s"
  have "concat (map (\<lambda>r. encodeRune (if r < 128 then asciiLower r else lowerOf u r)) (map byte s))
      = map (\<lambda>c. char_of (asciiLower (byte c))) s"
    using a by (induction s) (auto simp: ascii_def encodeRune_def asciiLower_def)
  then show ?thesis by (simp add: toLower_def runes_ascii [OF a])
qed

section \<open>The change log\<close>

type_synonym ClaimEventKind = string

definition ClaimEventAssigned :: ClaimEventKind where "ClaimEventAssigned = ''assigned''"
definition ClaimEventUnassigned :: ClaimEventKind where "ClaimEventUnassigned = ''unassigned''"
definition ClaimEventLabeled :: ClaimEventKind where "ClaimEventLabeled = ''labeled''"
definition ClaimEventUnlabeled :: ClaimEventKind where "ClaimEventUnlabeled = ''unlabeled''"
definition ClaimEventClosed :: ClaimEventKind where "ClaimEventClosed = ''closed''"
definition ClaimEventReopened :: ClaimEventKind where "ClaimEventReopened = ''reopened''"

lemmas claimEventKinds =
  ClaimEventAssigned_def ClaimEventUnassigned_def ClaimEventLabeled_def
  ClaimEventUnlabeled_def ClaimEventClosed_def ClaimEventReopened_def

lemma claimEventKinds_distinct [simp]:
  "ClaimEventLabeled \<noteq> ClaimEventUnlabeled" "ClaimEventUnlabeled \<noteq> ClaimEventLabeled"
  "ClaimEventAssigned \<noteq> ClaimEventUnassigned" "ClaimEventUnassigned \<noteq> ClaimEventAssigned"
  "ClaimEventLabeled \<noteq> ClaimEventAssigned" "ClaimEventAssigned \<noteq> ClaimEventLabeled"
  "ClaimEventClosed \<noteq> ClaimEventAssigned" "ClaimEventAssigned \<noteq> ClaimEventClosed"
  "ClaimEventClosed \<noteq> ClaimEventUnassigned" "ClaimEventUnassigned \<noteq> ClaimEventClosed"
  by (simp_all add: claimEventKinds)

record ClaimEvent =
  ceKind :: ClaimEventKind
  ceActor :: string
  ceSubject :: string
  ceAt :: time
  ceID :: tid

definition zeroClaimEvent :: ClaimEvent where
  "zeroClaimEvent = \<lparr>ceKind = [], ceActor = [], ceSubject = [], ceAt = zeroTime, ceID = 0\<rparr>"

section \<open>State labels and milestones\<close>

type_synonym StateLabel = string

definition StateLabelNone :: StateLabel where "StateLabelNone = []"
definition StateLabelClaimed :: StateLabel where "StateLabelClaimed = ''claimed''"
definition StateLabelRunning :: StateLabel where "StateLabelRunning = ''running''"
definition StateLabelNeedsReview :: StateLabel where "StateLabelNeedsReview = ''needs-review''"
definition StateLabelFailed :: StateLabel where "StateLabelFailed = ''failed''"

lemmas stateLabels =
  StateLabelNone_def StateLabelClaimed_def StateLabelRunning_def StateLabelNeedsReview_def
  StateLabelFailed_def

type_synonym Milestone = string

definition MilestoneClaimed :: Milestone where "MilestoneClaimed = ''claimed''"
definition MilestonePublished :: Milestone where "MilestonePublished = ''published''"
definition MilestoneFailed :: Milestone where "MilestoneFailed = ''failed''"
definition MilestoneNeedsReview :: Milestone where "MilestoneNeedsReview = ''needs-review''"

lemmas milestones =
  MilestoneClaimed_def MilestonePublished_def MilestoneFailed_def MilestoneNeedsReview_def

section \<open>Issues\<close>

record Blocker =
  bkIdentifier :: string
  bkState :: string
  bkOpen :: bool

record coreIssue =
  ciIdentifier :: string
  ciTitle :: string
  ciBody :: string
  ciLabels :: "string list"
  ciState :: string
  ciAssignees :: "string list"
  ciBlockers :: "Blocker list"
  ciURL :: string
  ciCreatedAt :: time
  ciUpdatedAt :: time
  ciRevision :: string
  ciDispatchable :: bool

section \<open>Content approval\<close>

record IssueContent =
  icTitle :: string
  icBody :: string

datatype ContentEditStatus =
  ContentEditUnknown | ContentEditNever | ContentEditAt | ContentEditOther int

record ContentEdit =
  editStatus :: ContentEditStatus
  editAt :: time

record ContentApproval =
  caContent :: IssueContent
  caEdit :: ContentEdit

definition zeroContentApproval :: ContentApproval where
  "zeroContentApproval =
     \<lparr>caContent = \<lparr>icTitle = [], icBody = []\<rparr>,
      caEdit = \<lparr>editStatus = ContentEditUnknown, editAt = zeroTime\<rparr>\<rparr>"

section \<open>Workspace facts\<close>

datatype ClaimBaseState =
  ClaimBaseUnknown | ClaimBaseAbsent | ClaimBasePending | ClaimBasePinned | ClaimBaseOther int

record ClaimBase =
  cbState :: ClaimBaseState
  cbEpoch :: tid
  cbBaseSHA :: string
  cbTargetBranch :: string
  cbOutgoingEpoch :: tid
  cbOutgoingBaseSHA :: string
  cbOutgoingTargetBranch :: string

text \<open>The evidence of an identified marker is never read by the modelled code.\<close>

datatype RunMarkerState =
  RunMarkerUnreadable | RunMarkerAbsent | RunMarkerIdentified | RunMarkerUnknownLaunch
  | RunMarkerOther int

record Workspace =
  wsPath :: string
  wsSharedGitDir :: string
  wsPrivateDir :: string
  wsKey :: string
  wsBranch :: string
  wsClaimEpoch :: tid
  wsBaseSHA :: string
  wsTargetBranch :: string
  wsPriorWork :: bool
  wsCreatedNow :: bool

definition zeroWorkspace :: Workspace where
  "zeroWorkspace = \<lparr>wsPath = [], wsSharedGitDir = [], wsPrivateDir = [], wsKey = [], wsBranch = [],
     wsClaimEpoch = 0, wsBaseSHA = [], wsTargetBranch = [], wsPriorWork = False,
     wsCreatedNow = False\<rparr>"

record PublishFacts =
  pfHead :: string
  pfRemoteHead :: string
  pfRemoteProbed :: bool
  pfDescendsBase :: bool
  pfRemoteHasHead :: bool

definition advancedPastBase :: "string \<Rightarrow> bool \<Rightarrow> string \<Rightarrow> bool" where
  "advancedPastBase head descendsBase baseSHA \<longleftrightarrow> head \<noteq> [] \<and> head \<noteq> baseSHA \<and> descendsBase"

definition AdvancedPastBase :: "PublishFacts \<Rightarrow> string \<Rightarrow> bool" where
  "AdvancedPastBase f baseSHA = advancedPastBase (pfHead f) (pfDescendsBase f) baseSHA"

record PR =
  prqNumber :: int
  prqURL :: string
  prqState :: string
  prqBranch :: string
  prqBaseBranch :: string

section \<open>Remote runs\<close>

record RemoteClaimRef =
  rcrIssue :: string
  rcrKey :: string
  rcrEpoch :: tid

definition claimRefComplete :: "RemoteClaimRef \<Rightarrow> bool" where
  "claimRefComplete r \<longleftrightarrow> rcrIssue r \<noteq> [] \<and> rcrKey r \<noteq> [] \<and> rcrEpoch r > 0"

record RemoteRunRef =
  rrrClaim :: RemoteClaimRef
  rrrRun :: string
  rrrVerification :: string

definition runRefComplete :: "RemoteRunRef \<Rightarrow> bool" where
  "runRefComplete r \<longleftrightarrow> claimRefComplete (rrrClaim r) \<and> rrrRun r \<noteq> [] \<and> rrrVerification r \<noteq> []"

record RemoteClaim =
  rclRef :: RemoteClaimRef
  rclBranch :: string
  rclBaseSHA :: string
  rclTargetBranch :: string
  rclRepository :: string
  rclRecordedAt :: time

record RemotePublishFacts =
  rpfRun :: RemoteRunRef
  rpfRepository :: string
  rpfBranch :: string
  rpfBaseSHA :: string
  rpfRemoteHead :: string
  rpfFetched :: bool
  rpfDescendsBase :: bool
  rpfObservedAt :: time

definition zeroRemoteFacts :: RemotePublishFacts where
  "zeroRemoteFacts =
     \<lparr>rpfRun = \<lparr>rrrClaim = \<lparr>rcrIssue = [], rcrKey = [], rcrEpoch = 0\<rparr>, rrrRun = [],
                rrrVerification = []\<rparr>,
      rpfRepository = [], rpfBranch = [], rpfBaseSHA = [], rpfRemoteHead = [], rpfFetched = False,
      rpfDescendsBase = False, rpfObservedAt = zeroTime\<rparr>"

datatype RemoteIssueLinkStatus =
  RemoteIssueLinkUnknown | RemoteIssueLinkStated | RemoteIssueLinkOther int

record RemotePR =
  rmNumber :: int
  rmURL :: string
  rmState :: string
  rmRepository :: string
  rmHeadRepository :: string
  rmHeadBranch :: string
  rmHeadSHA :: string
  rmBaseBranch :: string
  rmLinkStatus :: RemoteIssueLinkStatus
  rmLinkedIssues :: "string list"

record RemotePRQuery =
  rqIssue :: coreIssue
  rqRepository :: string
  rqBranch :: string

section \<open>Failure reasons\<close>

text \<open>\<open>FailureReason\<close>: the closed taxonomy of what ends a run.\<close>

definition FailureCrashed :: string where "FailureCrashed = ''crashed''"
definition FailureStalled :: string where "FailureStalled = ''stalled''"
definition FailureTimeout :: string where "FailureTimeout = ''timeout''"
definition FailureRateLimited :: string where "FailureRateLimited = ''rate_limited''"
definition FailureLaunchError :: string where "FailureLaunchError = ''launch_error''"
definition FailureKilled :: string where "FailureKilled = ''killed''"
definition FailureBudgetExceeded :: string where "FailureBudgetExceeded = ''budget_exceeded''"
definition FailureCredential :: string where "FailureCredential = ''credential''"

definition Retryable :: "string \<Rightarrow> bool" where
  "Retryable reason \<longleftrightarrow>
     reason \<in> {FailureCrashed, FailureStalled, FailureTimeout, FailureRateLimited, FailureCredential}"

end
