(* ===== verification/OrchState.thy ===== *)
theory OrchState
  imports CoreTypes
begin

text \<open>
  \<open>internal/orchestrator/state.go\<close> and the pure part of \<open>transitionCaused\<close> in
  \<open>orchestrator.go\<close>: the closed map of state transitions, the kill edge, the projection
  of a state onto its tracker label, and what a run can do from dispatch to its end.
\<close>

section \<open>States\<close>

type_synonym State = string

definition StateQueued :: State where "StateQueued = ''queued''"
definition StateClaimed :: State where "StateClaimed = ''claimed''"
definition StatePreparing :: State where "StatePreparing = ''preparing''"
definition StateRunning :: State where "StateRunning = ''running''"
definition StateVerifying :: State where "StateVerifying = ''verifying''"
definition StateBackoff :: State where "StateBackoff = ''backoff''"
definition StateDone :: State where "StateDone = ''done''"
definition StateNeedsReview :: State where "StateNeedsReview = ''needs-review''"
definition StateFailed :: State where "StateFailed = ''failed''"

lemmas states =
  StateQueued_def StateClaimed_def StatePreparing_def StateRunning_def StateVerifying_def
  StateBackoff_def StateDone_def StateNeedsReview_def StateFailed_def

definition nonTerminalStates :: "State list" where
  "nonTerminalStates =
     [StateQueued, StateClaimed, StatePreparing, StateRunning, StateVerifying, StateBackoff,
      StateNeedsReview]"

definition NonTerminal :: "State \<Rightarrow> bool" where
  "NonTerminal s \<longleftrightarrow> s \<in> set nonTerminalStates"

section \<open>The transition map\<close>

definition legalTransitions :: "((State \<times> State) \<times> string) list" where
  "legalTransitions =
     [((StateQueued, StateClaimed), ''selected by dispatch; claim verified by read-back''),
      ((StateClaimed, StatePreparing), ''claim verified''),
      ((StatePreparing, StateRunning), ''worktree ready, before_run passed, agent started''),
      ((StatePreparing, StateBackoff), ''retryable prep or hook failure, attempts remain''),
      ((StatePreparing, StateFailed), ''non-retryable prep failure or attempts exhausted''),
      ((StateRunning, StateVerifying), ''runner reported succeeded''),
      ((StateRunning, StateBackoff), ''retryable failure, attempts remain''),
      ((StateRunning, StateFailed), ''non-retryable failure or attempts exhausted''),
      ((StateRunning, StateNeedsReview), ''budget exceeded''),
      ((StateVerifying, StateDone), ''publish evidence complete''),
      ((StateVerifying, StatePreparing),
         ''clean exit without publish evidence; continuation re-dispatch''),
      ((StateVerifying, StateNeedsReview),
         ''evidence contradicts the claim, or max_turns exhausted''),
      ((StateBackoff, StatePreparing), ''backoff fired; issue active and routable; slot free''),
      ((StateBackoff, StateBackoff), ''backoff fired; no free slot; requeued''),
      ((StateNeedsReview, StateBackoff), ''human removed the state label; re-queued''),
      ((StateQueued, StateNeedsReview),
         ''content changed after the approving label; parked for reapproval''),
      ((StateBackoff, StateNeedsReview),
         ''content changed after the approving label; parked for reapproval''),
      ((StatePreparing, StateNeedsReview),
         ''unknown or permanent credential failure preparing the workspace or minting the publish credential'')]"

definition Allowed :: "State \<Rightarrow> State \<Rightarrow> bool" where
  "Allowed from to =
     (if to = StateFailed \<and> NonTerminal from then True
      else map_of legalTransitions (from, to) \<noteq> None)"

definition stateLabel :: "State \<Rightarrow> StateLabel" where
  "stateLabel s =
     (if s \<in> {StateClaimed, StatePreparing, StateVerifying, StateBackoff} then StateLabelClaimed
      else if s = StateRunning then StateLabelRunning
      else if s = StateNeedsReview then StateLabelNeedsReview
      else if s = StateFailed then StateLabelFailed
      else StateLabelNone)"

definition labelName :: "StateLabel \<Rightarrow> string" where
  "labelName l = (if l = StateLabelNone then ''no state label'' else ''ben:'' @ l)"

section \<open>Edges\<close>

lemma NonTerminal_iff:
  "NonTerminal s \<longleftrightarrow>
     s = StateQueued \<or> s = StateClaimed \<or> s = StatePreparing \<or> s = StateRunning
     \<or> s = StateVerifying \<or> s = StateBackoff \<or> s = StateNeedsReview"
  by (simp add: NonTerminal_def nonTerminalStates_def)

lemma legal_sources: "(fst \<circ> fst) ` set legalTransitions = set nonTerminalStates"
  by (simp add: legalTransitions_def nonTerminalStates_def) blast

lemma legal_source: "map_of legalTransitions (s, t) \<noteq> None \<Longrightarrow> NonTerminal s"
  unfolding NonTerminal_def legal_sources [symmetric] by (force dest: map_of_SomeD)

lemma Allowed_source: "Allowed s t \<Longrightarrow> NonTerminal s"
  using legal_source by (auto simp: Allowed_def split: if_splits)

lemma states_distinct [simp]:
  "StateDone \<noteq> StateFailed" "StateVerifying \<noteq> StateFailed" "StateRunning \<noteq> StateFailed"
  "StatePreparing \<noteq> StateFailed" "StateQueued \<noteq> StateFailed" "StateQueued \<noteq> StateDone"
  "StateQueued \<noteq> StateVerifying" "StateQueued \<noteq> StateRunning" "StateVerifying \<noteq> StateDone"
  "StateRunning \<noteq> StateVerifying" "StatePreparing \<noteq> StateRunning"
  by (simp_all add: states)

lemma terminal_no_edge: "\<not> Allowed StateDone t" "\<not> Allowed StateFailed t"
  using Allowed_source [of StateDone t] Allowed_source [of StateFailed t]
  by (auto simp: NonTerminal_iff states)

text \<open>The three states of an attempt have one way in each.\<close>

lemma Allowed_into_attempt:
  "Allowed s StateDone \<longleftrightarrow> s = StateVerifying"
  "Allowed s StateVerifying \<longleftrightarrow> s = StateRunning"
  "Allowed s StateRunning \<longleftrightarrow> s = StatePreparing"
  by (simp_all add: Allowed_def legalTransitions_def states)

lemma Allowed_edges:
  "Allowed StateQueued StateClaimed" "Allowed StateClaimed StatePreparing"
  "Allowed StatePreparing StateRunning" "Allowed StateRunning StateVerifying"
  "Allowed StateVerifying StateDone" "Allowed StateBackoff StatePreparing"
  "Allowed StateNeedsReview StateBackoff"
  by (simp_all add: Allowed_def legalTransitions_def states)

section \<open>Runs\<close>

text \<open>The states a record passes through, in order, from its dispatch.\<close>

inductive legalPath :: "State list \<Rightarrow> bool" where
  dispatched: "legalPath [StateQueued]"
| moved: "legalPath p \<Longrightarrow> Allowed (last p) t \<Longrightarrow> legalPath (p @ [t])"

lemma legalPath_nonempty: "legalPath p \<Longrightarrow> p \<noteq> []"
  by (induction rule: legalPath.induct) auto

lemma legalPath_snoc:
  assumes "legalPath (p @ [t])" and "t \<noteq> StateQueued"
  shows "legalPath p \<and> Allowed (last p) t"
  using assms(1)
proof (cases rule: legalPath.cases)
  case dispatched
  then show ?thesis using assms(2) by simp
next
  case (moved q s)
  then show ?thesis by simp
qed

lemma legalPath_before:
  assumes "legalPath (p @ [t])" and "t \<noteq> StateQueued" and "\<And>s'. Allowed s' t \<longleftrightarrow> s' = s"
  shows "\<exists>q. p = q @ [s] \<and> legalPath (q @ [s])"
  using legalPath_snoc [OF assms(1,2)] assms(3) legalPath_nonempty
  by (metis append_butlast_last_id)

text \<open>
  A run is recorded as done only at the end of a full attempt: whatever a record went
  through since its dispatch, if the closed transition map let it reach \<open>done\<close>, the last
  three states before it are \<open>preparing\<close>, \<open>running\<close> and \<open>verifying\<close>, in that order and
  with nothing between them.
\<close>

theorem done_follows_verified_attempt:
  assumes "legalPath path" and "last path = StateDone"
  shows "\<exists>before. path = before @ [StatePreparing, StateRunning, StateVerifying, StateDone]"
proof -
  obtain p3 where path: "path = p3 @ [StateDone]"
    using assms legalPath_nonempty by (metis append_butlast_last_id)
  obtain p2 where v: "p3 = p2 @ [StateVerifying]" "legalPath (p2 @ [StateVerifying])"
    using legalPath_before [OF assms(1) [unfolded path] _ Allowed_into_attempt(1)]
      states_distinct by metis
  obtain p1 where r: "p2 = p1 @ [StateRunning]" "legalPath (p1 @ [StateRunning])"
    using legalPath_before [OF v(2) _ Allowed_into_attempt(2)] states_distinct by metis
  obtain p0 where "p1 = p0 @ [StatePreparing]"
    using legalPath_before [OF r(2) _ Allowed_into_attempt(3)] states_distinct by metis
  then show ?thesis using path v(1) r(1) by auto
qed

theorem done_follows_verified_attempt_witness:
  "\<exists>before. [StateQueued, StateClaimed, StatePreparing, StateRunning, StateVerifying, StateDone]
     = before @ [StatePreparing, StateRunning, StateVerifying, StateDone]"
proof -
  have "legalPath ((((([StateQueued] @ [StateClaimed]) @ [StatePreparing]) @ [StateRunning])
          @ [StateVerifying]) @ [StateDone])"
    by (intro legalPath.intros) (simp_all add: Allowed_edges)
  then have "legalPath
      [StateQueued, StateClaimed, StatePreparing, StateRunning, StateVerifying, StateDone]"
    by simp
  then show ?thesis by (rule done_follows_verified_attempt) simp
qed

text \<open>
  C38. The map is closed and has no trap: a value of the string type \<open>State\<close> has a legal
  edge exactly when it is one of the seven non-terminal states, those can all be killed and
  can all still reach \<open>done\<close>, and every other string (the two terminal states, a misspelt
  or unknown one) can do neither.
\<close>

theorem state_machine_closed:
  "NonTerminal s = (\<exists>t. Allowed s t) \<and> NonTerminal s = Allowed s StateFailed
   \<and> NonTerminal s = (s \<noteq> StateDone \<and> Allowed\<^sup>*\<^sup>* s StateDone)"
proof -
  have kill: "NonTerminal s = Allowed s StateFailed"
    using Allowed_source [of s StateFailed] unfolding Allowed_def by metis
  have run: "Allowed\<^sup>*\<^sup>* StatePreparing StateDone"
    by (meson Allowed_edges converse_rtranclp_into_rtranclp r_into_rtranclp)
  then have tail: "Allowed\<^sup>*\<^sup>* StateBackoff StateDone" "Allowed\<^sup>*\<^sup>* StateClaimed StateDone"
    "Allowed\<^sup>*\<^sup>* StateRunning StateDone" "Allowed\<^sup>*\<^sup>* StateVerifying StateDone"
    by (meson Allowed_edges converse_rtranclp_into_rtranclp r_into_rtranclp)+
  then have "Allowed\<^sup>*\<^sup>* StateNeedsReview StateDone" "Allowed\<^sup>*\<^sup>* StateQueued StateDone"
    by (meson Allowed_edges converse_rtranclp_into_rtranclp)+
  then have "NonTerminal s \<Longrightarrow> Allowed\<^sup>*\<^sup>* s StateDone"
    using run tail unfolding NonTerminal_iff by auto
  moreover have "NonTerminal s \<Longrightarrow> s \<noteq> StateDone"
    using terminal_no_edge(1) kill by auto
  moreover have "NonTerminal s" if "s \<noteq> StateDone" "Allowed\<^sup>*\<^sup>* s StateDone"
    using that by (metis Allowed_source converse_rtranclpE)
  ultimately show ?thesis using kill Allowed_source by blast
qed

end
