(* ===== verification/OrchRecord.thy ===== *)
theory OrchRecord
  imports OrchState
begin

text \<open>
  \<open>internal/orchestrator/record.go\<close>, \<open>owed.go\<close> and the parts of \<open>orchestrator.go\<close> and
  \<open>retry.go\<close> that work on one record: its exits, its run budgets, its correlation id, the
  transition operation, and the queue of writes the record owes. A queued closure is
  represented by the call it makes when it runs.
\<close>

section \<open>The record\<close>

datatype effectTarget = effectTracker | effectLocal

text \<open>
  What a queued closure calls: \<open>SetStateLabels\<close> is the label projection, and
  \<open>PlainCall\<close> names any other provider or tracker call.
\<close>

datatype effectCall = SetStateLabels StateLabel | PlainCall string

record owedEffect =
  oeWhat :: string
  oeTarget :: effectTarget
  oeProjection :: bool
  oeDo :: effectCall

text \<open>The fields of \<open>Record\<close> that the modelled operations read or write.\<close>

record Record =
  rIssue :: coreIssue
  rState :: State
  rApprovedAt :: time
  rAttempt :: int
  rTurns :: int
  rAttemptBase :: int
  rCostUSD :: rat
  rWorkspacePath :: string
  rStopping :: bool
  rStopReason :: string
  rGone :: bool
  rClaimLost :: bool
  rOwedWriteFailed :: bool
  rPending :: int
  rFinish :: "(bool \<times> string) option"
  rSuspended :: bool
  rReleasing :: bool
  rOwed :: "owedEffect list"
  rOwedInFlight :: bool
  rDisposalOwed :: bool
  rClaimBaseAbandonOwed :: bool
  rRanThisAttempt :: bool
  rAfterRunFired :: bool
  rConvertInFlight :: bool
  rGeneration :: int
  rInstance :: string
  rToken :: int
  rUpdatedAt :: time

section \<open>Exits, pin and budgets\<close>

definition orderedExit :: "Record \<Rightarrow> bool" where
  "orderedExit r \<longleftrightarrow> rReleasing r \<or> rStopping r \<or> rFinish r \<noteq> None \<or> rGone r \<or> rClaimLost r"

definition exiting :: "Record \<Rightarrow> bool" where
  "exiting r \<longleftrightarrow> orderedExit r \<or> rSuspended r"

definition markGone :: "Record \<Rightarrow> Record" where
  "markGone r = r\<lparr>rGone := True\<rparr>"

definition markClaimLost :: "Record \<Rightarrow> Record" where
  "markClaimLost r = r\<lparr>rClaimLost := True\<rparr>"

definition hasWorkspace :: "Record \<Rightarrow> bool" where
  "hasWorkspace r \<longleftrightarrow> rWorkspacePath r \<noteq> []"

definition adoptRouting :: "Record \<Rightarrow> coreIssue \<Rightarrow> Record" where
  "adoptRouting r fresh =
     r\<lparr>rIssue := (rIssue r)\<lparr>
        ciState := ciState fresh,
        ciLabels := ciLabels fresh,
        ciAssignees := ciAssignees fresh,
        ciBlockers := ciBlockers fresh,
        ciURL := ciURL fresh,
        ciUpdatedAt := ciUpdatedAt fresh,
        ciRevision := ciRevision fresh,
        ciDispatchable := ciDispatchable fresh\<rparr>\<rparr>"

definition restoreBudgets :: "Record \<Rightarrow> Record" where
  "restoreBudgets r = r\<lparr>rTurns := 0, rCostUSD := 0, rAttemptBase := rAttempt r\<rparr>"

text \<open>\<open>max_turns\<close> and \<open>max_attempts\<close> of the configuration in force are arguments.\<close>

definition continuable :: "int \<Rightarrow> Record \<Rightarrow> bool" where
  "continuable maxTurns r \<longleftrightarrow> rTurns r < maxTurns"

definition attemptsRemain :: "int \<Rightarrow> Record \<Rightarrow> bool" where
  "attemptsRemain maxAttempts r \<longleftrightarrow> rAttempt r - rAttemptBase r < maxAttempts"

section \<open>Run ids\<close>

definition runIDRune :: "int \<Rightarrow> bool" where
  "runIDRune r \<longleftrightarrow> 97 \<le> r \<and> r \<le> 122 \<or> 65 \<le> r \<and> r \<le> 90 \<or> 48 \<le> r \<and> r \<le> 57 \<or> r = 45 \<or> r = 95"

definition sanitizeRunID :: "string \<Rightarrow> string" where
  "sanitizeRunID s = concat (map (\<lambda>r. if runIDRune r then encodeRune r else ''-'') (runes s))"

definition runID :: "Record \<Rightarrow> string" where
  "runID r =
     (if rInstance r = [] then
        sanitizeRunID (ciIdentifier (rIssue r)) @ ''-'' @ itoa (rToken r) @ ''.''
          @ itoa (rGeneration r)
      else
        sanitizeRunID (ciIdentifier (rIssue r)) @ ''-'' @ rInstance r @ ''-'' @ itoa (rToken r)
          @ ''.'' @ itoa (rGeneration r))"

section \<open>The owed queue\<close>

definition effectClaimLabel :: string where
  "effectClaimLabel = ''project ben:claimed''"
definition effectAbandonClaimBase :: string where
  "effectAbandonClaimBase = ''abandon pending claim base''"
definition effectRelease :: string where
  "effectRelease = ''release claim''"
definition effectForget :: string where
  "effectForget = ''forget the gone issue''"

text \<open>
  What \<open>driveOwed\<close> asks of the loop around the record: whether an ended workspace cycle of
  the issue still owes its disposal (\<open>endedCycleOwed\<close>), and whether the serial effect queue
  takes the work (\<open>enqueue\<close>).
\<close>

record loopEnv =
  leCycleOwed :: "string \<Rightarrow> bool"
  leAccepts :: "owedEffect \<Rightarrow> bool"

definition isExit :: "string \<Rightarrow> bool" where
  "isExit what \<longleftrightarrow> what = effectRelease \<or> what = effectForget"

definition driveOwed :: "loopEnv \<Rightarrow> Record \<Rightarrow> Record" where
  "driveOwed e r =
     (if rOwedInFlight r \<or> rOwed r = [] then r
      else let eff = hd (rOwed r) in
        if isExit (oeWhat eff) \<and> leCycleOwed e (ciIdentifier (rIssue r)) then r
        else r\<lparr>rOwedInFlight := leAccepts e eff\<rparr>)"

definition oweEffect :: "loopEnv \<Rightarrow> Record \<Rightarrow> owedEffect \<Rightarrow> Record" where
  "oweEffect e r eff = driveOwed e (r\<lparr>rOwed := rOwed r @ [eff]\<rparr>)"

definition owe :: "loopEnv \<Rightarrow> Record \<Rightarrow> string \<Rightarrow> effectTarget \<Rightarrow> string \<Rightarrow> Record" where
  "owe e r what target call =
     oweEffect e r \<lparr>oeWhat = what, oeTarget = target, oeProjection = False, oeDo = PlainCall call\<rparr>"

definition oweProjection :: "loopEnv \<Rightarrow> Record \<Rightarrow> string \<Rightarrow> StateLabel \<Rightarrow> Record" where
  "oweProjection e r what want =
     oweEffect e r \<lparr>oeWhat = what, oeTarget = effectTracker, oeProjection = True,
                    oeDo = SetStateLabels want\<rparr>"

text \<open>
  The calls \<open>afterEffect\<close> makes for a landed effect: \<open>onClaimProjected\<close>, which moves a
  claimed record to \<open>preparing\<close> and touches nothing of the queue, or \<open>forget\<close>, which drops
  the record from the loop's set.
\<close>

datatype afterCall = NoCall | CallClaimProjected | CallForget

definition afterEffect :: "string \<Rightarrow> afterCall" where
  "afterEffect what =
     (if what = effectClaimLabel then CallClaimProjected
      else if what = effectRelease then CallForget
      else if what = effectForget then CallForget
      else NoCall)"

text \<open>
  \<open>onEffectDone\<close> for the signal of effect \<open>what\<close>; \<open>failed\<close> says that the signal carries an
  error. The final \<open>driveHold\<close> starts a read for a \<open>done\<close> record and is no queue operation.
\<close>

definition onEffectDone :: "loopEnv \<Rightarrow> Record \<Rightarrow> string \<Rightarrow> bool \<Rightarrow> Record \<times> afterCall" where
  "onEffectDone e r0 what failed =
     (let r = r0\<lparr>rOwedInFlight := False\<rparr> in
      if failed then
        if rGone r \<and> rOwed r \<noteq> [] \<and> oeTarget (hd (rOwed r)) = effectTracker then
          (driveOwed e (r\<lparr>rOwed := tl (rOwed r), rOwedWriteFailed := False\<rparr>), NoCall)
        else if rOwed r \<noteq> [] \<and> oeTarget (hd (rOwed r)) = effectTracker then
          (r\<lparr>rOwedWriteFailed := True\<rparr>, NoCall)
        else (r, NoCall)
      else
        (let r1 = (if rOwed r \<noteq> [] then r\<lparr>rOwed := tl (rOwed r)\<rparr> else r);
             r2 = r1\<lparr>rOwedWriteFailed := False\<rparr>
         in (driveOwed e r2, afterEffect what)))"

definition owesAnything :: "Record \<Rightarrow> bool" where
  "owesAnything r \<longleftrightarrow> rOwed r \<noteq> []"

definition owesBeforeExit :: "Record \<Rightarrow> bool" where
  "owesBeforeExit r \<longleftrightarrow> rOwed r \<noteq> [] \<and> \<not> isExit (oeWhat (hd (rOwed r)))"

definition owesForget :: "Record \<Rightarrow> bool" where
  "owesForget r \<longleftrightarrow> list_ex (\<lambda>eff. oeWhat eff = effectForget) (rOwed r)"

definition owesProjection :: "Record \<Rightarrow> bool" where
  "owesProjection r \<longleftrightarrow> list_ex oeProjection (rOwed r)"

section \<open>Exits that owe effects\<close>

definition abandonPendingClaimBase :: "loopEnv \<Rightarrow> Record \<Rightarrow> Record" where
  "abandonPendingClaimBase e r =
     (if rClaimBaseAbandonOwed r then r
      else owe e (r\<lparr>rClaimBaseAbandonOwed := True\<rparr>) effectAbandonClaimBase effectLocal
             ''AbandonPendingClaimBase'')"

definition release :: "loopEnv \<Rightarrow> Record \<Rightarrow> string \<Rightarrow> Record" where
  "release e r why =
     (if rReleasing r then r
      else owe e (abandonPendingClaimBase e (r\<lparr>rReleasing := True, rStopReason := why\<rparr>))
             effectRelease effectTracker ''Release'')"

text \<open>\<open>hooked\<close> says that the workspace provider has an after-run hook.\<close>

definition attemptEnded :: "loopEnv \<Rightarrow> bool \<Rightarrow> Record \<Rightarrow> Record" where
  "attemptEnded e hooked r =
     (if \<not> rRanThisAttempt r \<or> rAfterRunFired r then r
      else let r1 = r\<lparr>rAfterRunFired := True\<rparr> in
        if \<not> hooked \<or> \<not> hasWorkspace r1 then r1
        else owe e r1 ''after_run hook'' effectLocal ''AfterRun'')"

definition oweDisposal :: "loopEnv \<Rightarrow> Record \<Rightarrow> string \<Rightarrow> Record" where
  "oweDisposal e r completion =
     (if \<not> hasWorkspace r \<or> rDisposalOwed r then r
      else owe e (r\<lparr>rDisposalOwed := True\<rparr>) ''dispose workspace'' effectLocal completion)"

definition comment :: "loopEnv \<Rightarrow> Record \<Rightarrow> Milestone \<Rightarrow> Record" where
  "comment e r milestone = owe e r (''comment '' @ milestone) effectTracker ''Comment''"

definition readyToConvert :: "bool \<Rightarrow> Record \<Rightarrow> bool" where
  "readyToConvert tracked r \<longleftrightarrow>
     rState r = StateDone \<and> tracked
     \<and> \<not> exiting r \<and> \<not> owesAnything r \<and> rPending r = 0 \<and> \<not> rConvertInFlight r"

section \<open>Transitions\<close>

record TransitionEntry =
  teTS :: time
  teIssue :: string
  teFrom :: State
  teTo :: State
  teActor :: string
  teReason :: string
  teRunID :: string
  teFailure :: string

datatype transitionError = IllegalTransitionError string State State

text \<open>
  \<open>transitionCaused\<close> at clock reading \<open>now\<close>: the record, the entry appended to the
  transition log, and the error of an edge outside the map. \<open>publish\<close> only copies the
  record for \<open>ben status\<close>.
\<close>

definition transitionCaused ::
  "loopEnv \<Rightarrow> time \<Rightarrow> string \<Rightarrow> Record \<Rightarrow> State \<Rightarrow> string \<Rightarrow> string
   \<Rightarrow> transitionError + (Record \<times> TransitionEntry)" where
  "transitionCaused e now daemon r to reason cause =
     (let from = rState r in
      if \<not> Allowed from to then Inl (IllegalTransitionError (ciIdentifier (rIssue r)) from to)
      else
        (let r1 = r\<lparr>rState := to, rUpdatedAt := now\<rparr>;
             entry = \<lparr>teTS = now, teIssue = ciIdentifier (rIssue r), teFrom = from, teTo = to,
                      teActor = daemon, teReason = reason, teRunID = runID r1,
                      teFailure = cause\<rparr>;
             want = stateLabel to
         in if want \<noteq> stateLabel from then
              (let what = (if from = StateQueued \<and> to = StateClaimed then effectClaimLabel
                           else ''project '' @ labelName want)
               in Inr (oweProjection e r1 what want, entry))
            else Inr (r1, entry)))"

section \<open>A record's life\<close>

text \<open>
  The operations on one record, in any order the loop may call them. \<open>OpDone\<close> is the signal
  of the effect in flight, which the serial queue sends once it ran. The run keeps, beside
  the record, the transition log and the effects that left the queue, each with whether it
  landed.
\<close>

datatype recordOp =
    OpTransition loopEnv time string State string string
  | OpOwe loopEnv string effectTarget string
  | OpTick loopEnv
  | OpDone loopEnv bool
  | OpGone
  | OpClaimLost
  | OpRelease loopEnv string
  | OpAttemptEnded loopEnv bool
  | OpDispose loopEnv string
  | OpAdopt coreIssue
  | OpRestore

record recordRun =
  rrRecord :: Record
  rrRetired :: "(owedEffect \<times> bool) list"
  rrLog :: "TransitionEntry list"

definition finishEffect :: "loopEnv \<Rightarrow> bool \<Rightarrow> recordRun \<Rightarrow> recordRun" where
  "finishEffect e failed s =
     (let r = rrRecord s in
      if \<not> rOwedInFlight r then s
      else let eff = hd (rOwed r);
               r' = fst (onEffectDone e r (oeWhat eff) failed)
        in if failed then
             (if rOwed r' = rOwed r then s\<lparr>rrRecord := r'\<rparr>
              else s\<lparr>rrRecord := r', rrRetired := rrRetired s @ [(eff, False)]\<rparr>)
           else s\<lparr>rrRecord := r', rrRetired := rrRetired s @ [(eff, True)]\<rparr>)"

fun recordStep :: "recordOp \<Rightarrow> recordRun \<Rightarrow> recordRun" where
  "recordStep (OpTransition e now daemon to reason cause) s =
     (case transitionCaused e now daemon (rrRecord s) to reason cause of
        Inl err \<Rightarrow> s
      | Inr (r, entry) \<Rightarrow> s\<lparr>rrRecord := r, rrLog := rrLog s @ [entry]\<rparr>)"
| "recordStep (OpOwe e what target call) s = s\<lparr>rrRecord := owe e (rrRecord s) what target call\<rparr>"
| "recordStep (OpTick e) s = s\<lparr>rrRecord := driveOwed e (rrRecord s)\<rparr>"
| "recordStep (OpDone e failed) s = finishEffect e failed s"
| "recordStep OpGone s = s\<lparr>rrRecord := markGone (rrRecord s)\<rparr>"
| "recordStep OpClaimLost s = s\<lparr>rrRecord := markClaimLost (rrRecord s)\<rparr>"
| "recordStep (OpRelease e why) s = s\<lparr>rrRecord := release e (rrRecord s) why\<rparr>"
| "recordStep (OpAttemptEnded e hooked) s = s\<lparr>rrRecord := attemptEnded e hooked (rrRecord s)\<rparr>"
| "recordStep (OpDispose e c) s = s\<lparr>rrRecord := oweDisposal e (rrRecord s) c\<rparr>"
| "recordStep (OpAdopt fresh) s = s\<lparr>rrRecord := adoptRouting (rrRecord s) fresh\<rparr>"
| "recordStep OpRestore s = s\<lparr>rrRecord := restoreBudgets (rrRecord s)\<rparr>"

definition recordLife :: "recordOp list \<Rightarrow> recordRun \<Rightarrow> recordRun" where
  "recordLife ops s = fold recordStep ops s"

text \<open>A record as dispatch creates it: queued, owing nothing, not known to be gone.\<close>

definition dispatchedRun :: "Record \<Rightarrow> recordRun" where
  "dispatchedRun r =
     \<lparr>rrRecord = r\<lparr>rState := StateQueued, rOwed := [], rOwedInFlight := False, rGone := False\<rparr>,
      rrRetired = [], rrLog = []\<rparr>"

text \<open>Everything the record ever owed, in the order it was owed.\<close>

definition owedHistory :: "recordRun \<Rightarrow> owedEffect list" where
  "owedHistory s = map fst (rrRetired s) @ rOwed (rrRecord s)"

fun projectedLabel :: "owedEffect \<Rightarrow> StateLabel list" where
  "projectedLabel eff = (case oeDo eff of SetStateLabels l \<Rightarrow> [l] | PlainCall c \<Rightarrow> [])"

definition labelsOf :: "owedEffect list \<Rightarrow> StateLabel list" where
  "labelsOf es = concat (map projectedLabel es)"

text \<open>The state label the tracker shows: the last label write that landed.\<close>

definition trackerLabel :: "recordRun \<Rightarrow> StateLabel" where
  "trackerLabel s = last (StateLabelNone # labelsOf (map fst (filter snd (rrRetired s))))"

section \<open>What the operations keep\<close>

lemma driveOwed_keeps [simp]:
  "rOwed (driveOwed e r) = rOwed r" "rState (driveOwed e r) = rState r"
  "rGone (driveOwed e r) = rGone r" "rIssue (driveOwed e r) = rIssue r"
  "rApprovedAt (driveOwed e r) = rApprovedAt r" "rReleasing (driveOwed e r) = rReleasing r"
  by (simp_all add: driveOwed_def Let_def)

lemma driveOwed_flight:
  "rOwedInFlight r \<longrightarrow> rOwed r \<noteq> [] \<Longrightarrow> rOwedInFlight (driveOwed e r) \<longrightarrow> rOwed r \<noteq> []"
  by (auto simp: driveOwed_def Let_def split: if_splits)

lemma oweEffect_keeps [simp]:
  "rOwed (oweEffect e r eff) = rOwed r @ [eff]" "rState (oweEffect e r eff) = rState r"
  "rGone (oweEffect e r eff) = rGone r" "rIssue (oweEffect e r eff) = rIssue r"
  "rApprovedAt (oweEffect e r eff) = rApprovedAt r"
  by (simp_all add: oweEffect_def)

text \<open>
  What one operation may do to the queue: append plain effects without moving the state,
  or, for a transition, move along a legal edge and append the projection of a changed
  label.
\<close>

definition plainEffect :: "owedEffect \<Rightarrow> bool" where
  "plainEffect eff \<longleftrightarrow> \<not> oeProjection eff \<and> projectedLabel eff = []"

definition quietStep :: "Record \<Rightarrow> Record \<Rightarrow> bool" where
  "quietStep r r' \<longleftrightarrow> rState r' = rState r \<and> (rGone r \<longrightarrow> rGone r')
     \<and> (\<exists>new. rOwed r' = rOwed r @ new \<and> list_all plainEffect new)"

lemma quietStep_refl [simp]:
  "quietStep r r" "quietStep r (driveOwed e r)" "quietStep r (markGone r)"
  "quietStep r (markClaimLost r)" "quietStep r (adoptRouting r fresh)"
  "quietStep r (restoreBudgets r)"
  by (simp_all add: quietStep_def markGone_def markClaimLost_def adoptRouting_def
      restoreBudgets_def)

lemma quietStep_trans: "quietStep a b \<Longrightarrow> quietStep b c \<Longrightarrow> quietStep a c"
  unfolding quietStep_def by (auto simp: list_all_iff)

lemma quietStep_owe [simp]: "quietStep r (owe e r what target call)"
  by (simp add: quietStep_def owe_def plainEffect_def)

lemma quietStep_owe_from:
  "quietStep r r' \<Longrightarrow> quietStep r (owe e r' what target call)"
  using quietStep_trans quietStep_owe by blast

lemma quietStep_fields [simp]:
  "quietStep r (r'\<lparr>rClaimBaseAbandonOwed := b\<rparr>) = quietStep r r'"
  "quietStep r (r'\<lparr>rReleasing := b\<rparr>) = quietStep r r'"
  "quietStep r (r'\<lparr>rStopReason := t\<rparr>) = quietStep r r'"
  "quietStep r (r'\<lparr>rAfterRunFired := b\<rparr>) = quietStep r r'"
  "quietStep r (r'\<lparr>rDisposalOwed := b\<rparr>) = quietStep r r'"
  by (simp_all add: quietStep_def)

lemma quietStep_abandon: "quietStep r r' \<Longrightarrow> quietStep r (abandonPendingClaimBase e r')"
  by (simp add: abandonPendingClaimBase_def quietStep_owe_from)

lemma quietStep_exits [simp]:
  "quietStep r (release e r why)" "quietStep r (attemptEnded e hooked r)"
  "quietStep r (oweDisposal e r c)"
  by (simp_all add: release_def attemptEnded_def oweDisposal_def Let_def quietStep_owe_from
      quietStep_abandon)

section \<open>The invariant of a record's life\<close>

definition flightOk :: "Record \<Rightarrow> bool" where
  "flightOk r \<longleftrightarrow> (rOwedInFlight r \<longrightarrow> rOwed r \<noteq> [])"

lemma flightOk_drive [simp]: "flightOk r \<Longrightarrow> flightOk (driveOwed e r)"
  using driveOwed_flight by (auto simp: flightOk_def)

lemma flightOk_idle [simp]: "flightOk (driveOwed e (r\<lparr>rOwedInFlight := False\<rparr>))"
  by (rule flightOk_drive) (simp add: flightOk_def)

lemma flightOk_owe [simp]: "flightOk (oweEffect e r eff)" "flightOk (owe e r w t c)"
  by (simp_all add: flightOk_def owe_def)

lemma flightOk_fields [simp]:
  "flightOk (r\<lparr>rAfterRunFired := b\<rparr>) = flightOk r"
  "flightOk (r\<lparr>rState := st, rUpdatedAt := now\<rparr>) = flightOk r"
  "flightOk (markGone r) = flightOk r" "flightOk (markClaimLost r) = flightOk r"
  "flightOk (adoptRouting r fresh) = flightOk r" "flightOk (restoreBudgets r) = flightOk r"
  by (simp_all add: flightOk_def markGone_def markClaimLost_def adoptRouting_def
      restoreBudgets_def)

lemma flightOk_exits [simp]:
  "flightOk r \<Longrightarrow> flightOk (release e r why)"
  "flightOk r \<Longrightarrow> flightOk (attemptEnded e hooked r)"
  "flightOk r \<Longrightarrow> flightOk (oweDisposal e r c)"
  by (simp_all add: release_def attemptEnded_def oweDisposal_def Let_def)

definition lifeInv :: "recordRun \<Rightarrow> bool" where
  "lifeInv s \<longleftrightarrow> flightOk (rrRecord s)
     \<and> (\<forall>(eff, landed) \<in> set (rrRetired s).
          landed \<or> oeTarget eff = effectTracker \<and> rGone (rrRecord s))
     \<and> (\<forall>eff \<in> set (owedHistory s). oeProjection eff \<longleftrightarrow> projectedLabel eff \<noteq> [])
     \<and> last (StateLabelNone # labelsOf (owedHistory s)) = stateLabel (rState (rrRecord s))"

lemma labelsOf_append [simp]: "labelsOf (a @ b) = labelsOf a @ labelsOf b"
  by (simp add: labelsOf_def)

lemma labelsOf_plain: "list_all plainEffect es \<Longrightarrow> labelsOf es = []"
  by (induction es) (simp_all add: labelsOf_def plainEffect_def)

lemma lifeInv_quiet:
  assumes inv: "lifeInv s" and q: "quietStep (rrRecord s) r" and f: "flightOk r"
  shows "lifeInv (s\<lparr>rrRecord := r\<rparr>)
    \<and> (\<exists>new. owedHistory (s\<lparr>rrRecord := r\<rparr>) = owedHistory s @ new)"
proof -
  from q obtain new where n: "rOwed r = rOwed (rrRecord s) @ new" "list_all plainEffect new"
    and st: "rState r = rState (rrRecord s)" "rGone (rrRecord s) \<longrightarrow> rGone r"
    by (auto simp: quietStep_def)
  have h: "owedHistory (s\<lparr>rrRecord := r\<rparr>) = owedHistory s @ new"
    by (simp add: owedHistory_def n)
  moreover have "\<forall>eff\<in>set new. oeProjection eff \<longleftrightarrow> projectedLabel eff \<noteq> []"
    using n(2) by (auto simp: list_all_iff plainEffect_def)
  ultimately show ?thesis
    using inv f st unfolding lifeInv_def h by (auto simp: labelsOf_plain [OF n(2)])
qed

lemma lifeInv_retire:
  assumes inv: "lifeInv s" and q: "rOwed (rrRecord s) = eff # rOwed r" and f: "flightOk r"
    and st: "rState r = rState (rrRecord s)" "rGone r = rGone (rrRecord s)"
    and ok: "landed \<or> oeTarget eff = effectTracker \<and> rGone (rrRecord s)"
  shows "lifeInv (s\<lparr>rrRecord := r, rrRetired := rrRetired s @ [(eff, landed)]\<rparr>)
    \<and> owedHistory (s\<lparr>rrRecord := r, rrRetired := rrRetired s @ [(eff, landed)]\<rparr>) = owedHistory s"
    (is "lifeInv ?s \<and> _")
proof -
  have h: "owedHistory ?s = owedHistory s"
    by (simp add: owedHistory_def q)
  moreover have "\<forall>(eff, landed) \<in> set (rrRetired ?s).
      landed \<or> oeTarget eff = effectTracker \<and> rGone (rrRecord ?s)"
    using inv ok st by (auto simp: lifeInv_def)
  ultimately show ?thesis
    using inv f st unfolding lifeInv_def h by simp
qed

lemma flightOk_next: "flightOk (driveOwed e (r\<lparr>rOwedInFlight := False, rOwed := q, rOwedWriteFailed := b\<rparr>))"
  by (rule flightOk_drive) (simp add: flightOk_def)

lemma lifeInv_finish:
  assumes inv: "lifeInv s"
  shows "lifeInv (finishEffect e failed s) \<and> owedHistory (finishEffect e failed s) = owedHistory s"
proof (cases "rOwedInFlight (rrRecord s)")
  case False
  then show ?thesis using inv by (simp add: finishEffect_def Let_def)
next
  case True
  let ?r = "rrRecord s"
  let ?next = "driveOwed e (?r\<lparr>rOwedInFlight := False, rOwed := tl (rOwed ?r), rOwedWriteFailed := False\<rparr>)"
  obtain eff rest where q: "rOwed ?r = eff # rest"
    using inv True by (auto simp: lifeInv_def flightOk_def neq_Nil_conv)
  have retire: "landed \<or> oeTarget eff = effectTracker \<and> rGone ?r \<Longrightarrow>
      lifeInv (s\<lparr>rrRecord := ?next, rrRetired := rrRetired s @ [(eff, landed)]\<rparr>)
      \<and> owedHistory (s\<lparr>rrRecord := ?next, rrRetired := rrRetired s @ [(eff, landed)]\<rparr>)
          = owedHistory s" for landed
    by (rule lifeInv_retire [OF inv]) (simp_all add: q flightOk_next)
  have stay: "lifeInv (s\<lparr>rrRecord := ?r\<lparr>rOwedInFlight := False, rOwedWriteFailed := b\<rparr>\<rparr>)
      \<and> owedHistory (s\<lparr>rrRecord := ?r\<lparr>rOwedInFlight := False, rOwedWriteFailed := b\<rparr>\<rparr>)
          = owedHistory s" for b
    using inv by (simp add: lifeInv_def owedHistory_def flightOk_def)
  have stay': "?r\<lparr>rOwedInFlight := False\<rparr>
      = ?r\<lparr>rOwedInFlight := False, rOwedWriteFailed := rOwedWriteFailed ?r\<rparr>"
    by simp
  show ?thesis
  proof (cases failed)
    case False
    then show ?thesis
      using True retire [of True] by (simp add: finishEffect_def Let_def onEffectDone_def q)
  next
    case failed: True
    show ?thesis
    proof (cases "oeTarget eff = effectTracker \<and> rGone ?r")
      case True
      then show ?thesis
        using \<open>rOwedInFlight ?r\<close> failed retire [of False]
        by (simp add: finishEffect_def Let_def onEffectDone_def q)
    next
      case False
      then show ?thesis
        using \<open>rOwedInFlight ?r\<close> failed stay [of True] stay [of "rOwedWriteFailed ?r"] stay'
        by (auto simp: finishEffect_def Let_def onEffectDone_def q)
    qed
  qed
qed

lemma lifeInv_transition:
  assumes inv: "lifeInv s" and t: "transitionCaused e now daemon (rrRecord s) to reason cause = Inr (r, entry)"
  shows "lifeInv (s\<lparr>rrRecord := r, rrLog := l\<rparr>)
    \<and> (\<exists>new. owedHistory (s\<lparr>rrRecord := r, rrLog := l\<rparr>) = owedHistory s @ new)"
proof (cases "stateLabel to = stateLabel (rState (rrRecord s))")
  case True
  then have "r = (rrRecord s)\<lparr>rState := to, rUpdatedAt := now\<rparr>"
    using t by (auto simp: transitionCaused_def Let_def split: if_splits)
  then show ?thesis using inv True by (simp add: lifeInv_def owedHistory_def)
next
  case False
  then obtain what where r: "r = oweProjection e ((rrRecord s)\<lparr>rState := to, rUpdatedAt := now\<rparr>)
      what (stateLabel to)"
    using t by (auto simp: transitionCaused_def Let_def split: if_splits)
  then show ?thesis
    using inv by (auto simp: lifeInv_def owedHistory_def oweProjection_def labelsOf_def)
qed

lemma lifeInv_step:
  assumes inv: "lifeInv s"
  shows "lifeInv (recordStep op s) \<and> (\<exists>new. owedHistory (recordStep op s) = owedHistory s @ new)"
proof (cases op)
  case (OpTransition e now daemon to reason cause)
  then show ?thesis
    using inv lifeInv_transition [OF inv]
    by (cases "transitionCaused e now daemon (rrRecord s) to reason cause") auto
next
  case (OpDone e failed)
  then show ?thesis using lifeInv_finish [OF inv] by simp
qed (use inv in \<open>auto intro!: lifeInv_quiet [OF inv] simp: lifeInv_def [of s]\<close>)

lemma lifeInv_life:
  assumes "lifeInv s"
  shows "lifeInv (recordLife ops s) \<and> (\<exists>new. owedHistory (recordLife ops s) = owedHistory s @ new)"
  using assms
proof (induction ops arbitrary: s)
  case Nil
  then show ?case by (simp add: recordLife_def)
next
  case (Cons op ops)
  show ?case
    using Cons.IH [of "recordStep op s"] lifeInv_step [OF Cons.prems, of op]
    by (auto simp: recordLife_def)
qed

lemma lifeInv_dispatched: "lifeInv (dispatchedRun r)"
  by (simp add: lifeInv_def dispatchedRun_def owedHistory_def labelsOf_def flightOk_def
      stateLabel_def states)

lemma recordLife_append: "recordLife (a @ b) s = recordLife b (recordLife a s)"
  by (simp add: recordLife_def)

section \<open>Properties\<close>

text \<open>
  C22. No owed write is lost or overtaken: whatever operations the loop performs on a record,
  everything the record owed at some point is still, at any later point, either retired or
  queued, in the order it was owed; and an effect leaves the queue only because it landed,
  or because it was a tracker write and the issue is known to be gone (a local effect such
  as a disposal or a hook is never discarded).
\<close>

theorem owed_effects_never_lost:
  "(\<exists>new. owedHistory (recordLife (earlier @ later) (dispatchedRun r))
        = owedHistory (recordLife earlier (dispatchedRun r)) @ new)
   \<and> list_all (\<lambda>(eff, landed). landed \<or> oeTarget eff = effectTracker
        \<and> rGone (rrRecord (recordLife (earlier @ later) (dispatchedRun r))))
       (rrRetired (recordLife (earlier @ later) (dispatchedRun r)))"
  using lifeInv_life [OF lifeInv_dispatched] lifeInv_life
  unfolding recordLife_append list_all_iff lifeInv_def by blast

text \<open>
  C21. The tracker shows the state the record is in: after any operations on a dispatched
  record, if no label projection is owed any more and the issue is not known to be gone, the
  last state label that landed on the tracker is the label of the record's current state.
  This is what recovery after a restart reads back.
\<close>

theorem tracker_label_matches_state:
  assumes "\<not> owesProjection (rrRecord (recordLife ops (dispatchedRun r)))"
    and "\<not> rGone (rrRecord (recordLife ops (dispatchedRun r)))"
  shows "trackerLabel (recordLife ops (dispatchedRun r))
    = stateLabel (rState (rrRecord (recordLife ops (dispatchedRun r))))"
proof -
  let ?s = "recordLife ops (dispatchedRun r)"
  have inv: "lifeInv ?s" using lifeInv_life [OF lifeInv_dispatched] by blast
  then have landed: "filter snd (rrRetired ?s) = rrRetired ?s"
    using assms(2) by (auto simp: lifeInv_def filter_id_conv)
  have "\<forall>eff\<in>set (rOwed (rrRecord ?s)). projectedLabel eff = []"
    using inv assms(1) by (auto simp: lifeInv_def owedHistory_def owesProjection_def list_ex_iff)
  then have "labelsOf (rOwed (rrRecord ?s)) = []"
    by (simp add: labelsOf_def)
  then show ?thesis using inv landed by (simp add: lifeInv_def owedHistory_def trackerLabel_def)
qed

definition demoIssue :: coreIssue where
  "demoIssue = \<lparr>ciIdentifier = ''41'', ciTitle = ''Title'', ciBody = ''Body'', ciLabels = [''ben''],
     ciState = ''open'', ciAssignees = [''bot''], ciBlockers = [], ciURL = [], ciCreatedAt = 0,
     ciUpdatedAt = 0, ciRevision = ''r1'', ciDispatchable = True\<rparr>"

definition demoRecord :: Record where
  "demoRecord = \<lparr>rIssue = demoIssue, rState = StateQueued, rApprovedAt = 0, rAttempt = 1,
     rTurns = 0, rAttemptBase = 0, rCostUSD = 0, rWorkspacePath = [], rStopping = False,
     rStopReason = [], rGone = False, rClaimLost = False, rOwedWriteFailed = False, rPending = 0,
     rFinish = None, rSuspended = False, rReleasing = False, rOwed = [], rOwedInFlight = False,
     rDisposalOwed = False, rClaimBaseAbandonOwed = False, rRanThisAttempt = False,
     rAfterRunFired = False, rConvertInFlight = False, rGeneration = 2, rInstance = ''d1'',
     rToken = 7, rUpdatedAt = 0\<rparr>"

definition demoLoop :: loopEnv where
  "demoLoop = \<lparr>leCycleOwed = (\<lambda>i. False), leAccepts = (\<lambda>eff. True)\<rparr>"

definition demoClaim :: "recordOp list" where
  "demoClaim = [OpTransition demoLoop 5 ''daemon'' StateClaimed ''selected'' [], OpDone demoLoop True,
     OpTick demoLoop, OpDone demoLoop False]"

lemmas demoClaim_run =
  demoClaim_def recordLife_def dispatchedRun_def demoRecord_def demoIssue_def demoLoop_def
  transitionCaused_def Allowed_def legalTransitions_def states stateLabel_def stateLabels
  NonTerminal_def nonTerminalStates_def oweProjection_def oweEffect_def driveOwed_def
  finishEffect_def onEffectDone_def isExit_def effectRelease_def effectForget_def
  effectClaimLabel_def labelName_def Let_def owesProjection_def trackerLabel_def labelsOf_def

theorem tracker_label_matches_state_witness:
  "trackerLabel (recordLife demoClaim (dispatchedRun demoRecord)) = StateLabelClaimed"
proof -
  let ?s = "recordLife demoClaim (dispatchedRun demoRecord)"
  have "\<not> owesProjection (rrRecord ?s)" by (simp add: demoClaim_run)
  moreover have "\<not> rGone (rrRecord ?s)" by (simp add: demoClaim_run)
  ultimately have "trackerLabel ?s = stateLabel (rState (rrRecord ?s))"
    by (rule tracker_label_matches_state)
  moreover have "rState (rrRecord ?s) = StateClaimed" by (simp add: demoClaim_run)
  ultimately show ?thesis by (simp add: stateLabel_def)
qed

lemma itoa_digits: "0 \<le> n \<Longrightarrow> list_all isDigit (itoa n)"
  using itoaNat_digits by (simp add: itoa_def)

lemma itoa_inj: "0 \<le> m \<Longrightarrow> 0 \<le> n \<Longrightarrow> itoa m = itoa n \<Longrightarrow> m = n"
  using digitsAcc_itoaNat by (metis itoa_def not_less option.inject)

lemma last_sep_unique:
  assumes "a @ c # b = a' @ c # b'" and "c \<notin> set b" and "c \<notin> set b'"
  shows "a = a' \<and> b = b'"
proof -
  have "takeWhile (\<lambda>x. x \<noteq> c) (rev (a @ c # b)) = rev b"
    "takeWhile (\<lambda>x. x \<noteq> c) (rev (a' @ c # b')) = rev b'"
    using assms(2,3) by (auto simp: takeWhile_append)
  then have "b = b'" using assms(1) by simp
  then show ?thesis using assms(1) by simp
qed

text \<open>
  A run id names one attempt: two records with the same run id have the same token and
  the same generation, whatever their issues and daemon instances are called, so within a
  process, where tokens are unique to a record, they are the same attempt of the same record.
\<close>

theorem runID_identifies_attempt:
  assumes "runID r = runID r'"
    and "0 \<le> rToken r" "0 \<le> rGeneration r" "0 \<le> rToken r'" "0 \<le> rGeneration r'"
  shows "rToken r = rToken r' \<and> rGeneration r = rGeneration r'"
proof -
  define num where "num x = itoa (rToken x) @ CHR ''.'' # itoa (rGeneration x)" for x :: Record
  have plain: "CHR ''-'' \<notin> set (itoa n)" "CHR ''.'' \<notin> set (itoa n)" if "0 \<le> n" for n
    using itoa_digits [OF that] by (auto simp: list_all_iff isDigit_def byte_def)
  have id: "\<exists>a. runID x = a @ CHR ''-'' # num x" for x
    by (simp add: runID_def num_def)
  obtain a a' where "a @ CHR ''-'' # num r = a' @ CHR ''-'' # num r'"
    using id [of r] id [of r'] assms(1) by metis
  moreover have "CHR ''-'' \<notin> set (num r)" "CHR ''-'' \<notin> set (num r')"
    using assms(2-5) plain by (auto simp: num_def)
  ultimately have "num r = num r'" using last_sep_unique by metis
  then have "itoa (rToken r) = itoa (rToken r') \<and> itoa (rGeneration r) = itoa (rGeneration r')"
    unfolding num_def using last_sep_unique plain assms(3,5) by metis
  then show ?thesis using itoa_inj assms(2-5) by metis
qed

theorem runID_identifies_attempt_witness:
  "runID demoRecord = runID (demoRecord\<lparr>rState := StateRunning\<rparr>)
   \<and> rToken demoRecord = rToken (demoRecord\<lparr>rState := StateRunning\<rparr>)
   \<and> rGeneration demoRecord = rGeneration (demoRecord\<lparr>rState := StateRunning\<rparr>)"
  using runID_identifies_attempt [of demoRecord "demoRecord\<lparr>rState := StateRunning\<rparr>"]
  by (simp add: runID_def demoRecord_def)

end
