(* ===== verification/LogReplay.thy ===== *)
theory LogReplay
  imports Prelude
begin

text \<open>
  The contract of a last-writer replay: an event log is folded into a value, and each entry
  either overwrites the value or leaves it alone. The readers of standing labels and of the
  claim cycle are of this kind; what they compute is stated here once: the value written by
  the last entry that writes, and nothing that happened before it.
\<close>

locale last_writer =
  fixes writes :: "'e \<Rightarrow> bool"
    and written :: "'e \<Rightarrow> 's"
    and step :: "'e \<Rightarrow> 's \<Rightarrow> 's"
  assumes step_writes: "writes e \<Longrightarrow> step e s = written e"
    and step_skips: "\<not> writes e \<Longrightarrow> step e s = s"
begin

lemma replay_quiet: "\<forall>e\<in>set es. \<not> writes e \<Longrightarrow> fold step es s = s"
  by (induction es arbitrary: s) (simp_all add: step_skips)

lemma replay_last:
  "writes e \<Longrightarrow> \<forall>x\<in>set post. \<not> writes x \<Longrightarrow> fold step (pre @ e # post) s = written e"
  by (simp add: step_writes replay_quiet)

lemma replay_cases:
  obtains (quiet) "\<forall>e\<in>set es. \<not> writes e" "fold step es s = s"
  | (wrote) pre e post where "es = pre @ e # post" "writes e" "\<forall>x\<in>set post. \<not> writes x"
      "fold step es s = written e"
proof (cases "\<exists>e\<in>set es. writes e")
  case False
  then show thesis using quiet replay_quiet by blast
next
  case True
  then obtain pre e post where "es = pre @ e # post" "writes e" "\<forall>x\<in>set post. \<not> writes x"
    by (metis split_list_last_prop)
  then show thesis using wrote replay_last by blast
qed

lemma replay_only_writers: "fold step (filter writes es) s = fold step es s"
  by (induction es arbitrary: s) (simp_all add: step_skips)

end

end
