(* ===== verification/OrchApproval.thy ===== *)
theory OrchApproval
  imports OrchRecord RevEpoch LogReplay
begin

text \<open>
  \<open>internal/orchestrator/approval.go\<close> and the claim-cycle readers of \<open>held.go\<close>: which
  label application approved an issue, whether its content moved since, which assignment
  established the claim, and the pin of the approved content on the record
  (\<open>record.go\<close>, \<open>pin\<close>). The last section relates these readers of the change log to those
  of the review controller.
\<close>

section \<open>Replays of the change log\<close>

definition labeledStep :: "runtime \<Rightarrow> string \<Rightarrow> ClaimEvent \<Rightarrow> ClaimEvent \<times> bool \<Rightarrow> ClaimEvent \<times> bool" where
  "labeledStep u label ev st =
     (if \<not> equalFold u (ceSubject ev) label then st
      else if ceKind ev = ClaimEventLabeled then (ev, True)
      else if ceKind ev = ClaimEventUnlabeled then (zeroClaimEvent, False)
      else st)"

definition standingLabeledEvent :: "runtime \<Rightarrow> ClaimEvent list \<Rightarrow> string \<Rightarrow> ClaimEvent \<times> bool" where
  "standingLabeledEvent u history label =
     fold (labeledStep u label) history (zeroClaimEvent, False)"

definition standingLabeledAt :: "runtime \<Rightarrow> ClaimEvent list \<Rightarrow> string \<Rightarrow> time \<times> bool" where
  "standingLabeledAt u history label =
     (let (event, ok) = standingLabeledEvent u history label in (ceAt event, ok))"

definition labeledIDStep :: "runtime \<Rightarrow> string \<Rightarrow> ClaimEvent \<Rightarrow> tid \<times> bool \<Rightarrow> tid \<times> bool" where
  "labeledIDStep u label ev st =
     (if \<not> equalFold u (ceSubject ev) label then st
      else if ceKind ev = ClaimEventLabeled then (ceID ev, True)
      else if ceKind ev = ClaimEventUnlabeled then (0, False)
      else st)"

definition standingLabeledID :: "runtime \<Rightarrow> ClaimEvent list \<Rightarrow> string \<Rightarrow> tid \<times> bool" where
  "standingLabeledID u history label =
     (let (id, applied) = fold (labeledIDStep u label) history (0, False)
      in if \<not> applied \<or> id \<le> 0 then (0, False) else (id, True))"

definition anchorStep :: "runtime \<Rightarrow> string \<Rightarrow> ClaimEvent \<Rightarrow> tid \<Rightarrow> tid" where
  "anchorStep u login ev anchor =
     (if \<not> equalFold u (ceSubject ev) login then anchor
      else if ceKind ev = ClaimEventAssigned then ceID ev
      else if ceKind ev = ClaimEventUnassigned then 0
      else anchor)"

definition claimCycleAnchor :: "runtime \<Rightarrow> ClaimEvent list \<Rightarrow> string \<Rightarrow> tid" where
  "claimCycleAnchor u events login = fold (anchorStep u login) events 0"

definition closedInCycle :: "ClaimEvent list \<Rightarrow> tid \<Rightarrow> bool" where
  "closedInCycle events anchor =
     (if anchor \<le> 0 then False
      else list_ex (\<lambda>ev. ceKind ev = ClaimEventClosed \<and> ceID ev \<ge> anchor) events)"

definition containsFold :: "runtime \<Rightarrow> string list \<Rightarrow> string \<Rightarrow> bool" where
  "containsFold u haystack needle = list_ex (\<lambda>h. equalFold u h needle) haystack"

definition hasRequiredLabels :: "runtime \<Rightarrow> string list \<Rightarrow> coreIssue \<Rightarrow> bool" where
  "hasRequiredLabels u requiredLabels issue =
     list_all (\<lambda>want. containsFold u (ciLabels issue) want) requiredLabels"

section \<open>The approving instant and the approval cycle\<close>

fun instantLoop :: "runtime \<Rightarrow> ClaimEvent list \<Rightarrow> time \<Rightarrow> string list \<Rightarrow> time \<times> bool" where
  "instantLoop u history latest [] = (latest, True)"
| "instantLoop u history latest (want # wants) =
     (let (labeledAt, ok) = standingLabeledAt u history want in
      if \<not> ok then (zeroTime, False)
      else instantLoop u history (if labeledAt > latest then labeledAt else latest) wants)"

definition approvingInstant :: "runtime \<Rightarrow> ClaimEvent list \<Rightarrow> string list \<Rightarrow> time \<times> bool" where
  "approvingInstant u history requiredLabels =
     (if requiredLabels = [] then (zeroTime, False)
      else instantLoop u history zeroTime requiredLabels)"

fun standingLoop :: "runtime \<Rightarrow> ClaimEvent list \<Rightarrow> tid \<Rightarrow> string list \<Rightarrow> tid" where
  "standingLoop u history anchor [] = anchor"
| "standingLoop u history anchor (want # wants) =
     (let (id, ok) = standingLabeledID u history want in
      if \<not> ok then 0
      else standingLoop u history (if id > anchor then id else anchor) wants)"

definition StandingApproval :: "runtime \<Rightarrow> ClaimEvent list \<Rightarrow> string list \<Rightarrow> tid" where
  "StandingApproval u history requiredLabels =
     (if requiredLabels = [] then 0 else standingLoop u history 0 requiredLabels)"

fun cycleAnchorLoop :: "runtime \<Rightarrow> ClaimEvent list \<Rightarrow> tid \<Rightarrow> string list \<Rightarrow> tid \<times> bool" where
  "cycleAnchorLoop u history anchor [] = (anchor, True)"
| "cycleAnchorLoop u history anchor (want # wants) =
     (let (event, ok) = standingLabeledEvent u history want in
      if \<not> ok \<or> ceID event \<le> 0 then (0, False)
      else cycleAnchorLoop u history (if ceID event > anchor then ceID event else anchor) wants)"

definition approvalCycleAnchor :: "runtime \<Rightarrow> ClaimEvent list \<Rightarrow> string list \<Rightarrow> tid \<times> bool" where
  "approvalCycleAnchor u history requiredLabels =
     (if requiredLabels = [] then (0, False) else cycleAnchorLoop u history 0 requiredLabels)"

section \<open>The content check\<close>

datatype approvalError =
    ErrApprovalInstantUnknown
  | ErrContentEditUnknown
  | ErrContentDrift time time
  | ErrContentUnorderable time

record approvedContent =
  acContent :: IssueContent
  acAt :: time

text \<open>\<open>Time.Truncate(time.Second)\<close>: rounds down to a whole second since year 1.\<close>

definition truncateSecond :: "time \<Rightarrow> time" where
  "truncateSecond t = t - (t - zeroTime) mod nanosPerSecond"

definition checkApproval ::
  "runtime \<Rightarrow> ClaimEvent list \<Rightarrow> string list \<Rightarrow> ContentApproval
   \<Rightarrow> approvalError + approvedContent" where
  "checkApproval u history requiredLabels read =
     (let (approvedAt, ok) = approvingInstant u history requiredLabels in
      if \<not> ok then Inl ErrApprovalInstantUnknown
      else let admit = \<lparr>acContent = caContent read, acAt = approvedAt\<rparr> in
        case editStatus (caEdit read) of
          ContentEditNever \<Rightarrow> Inr admit
        | ContentEditAt \<Rightarrow>
            (let editedAt = truncateSecond (editAt (caEdit read));
                 approvedSec = truncateSecond approvedAt
             in if editedAt > approvedSec then Inl (ErrContentDrift editedAt approvedSec)
                else if editedAt = approvedSec then Inl (ErrContentUnorderable approvedSec)
                else Inr admit)
        | _ \<Rightarrow> Inl ErrContentEditUnknown)"

text \<open>
  \<open>readApproval\<close>: a tracker without the content capability (\<open>None\<close>) answers with the zero
  value, which is no error and which the check refuses.
\<close>

definition readApproval :: "(coreIssue \<Rightarrow> 'e + ContentApproval) option \<Rightarrow> coreIssue \<Rightarrow> 'e + ContentApproval" where
  "readApproval src issue =
     (case src of None \<Rightarrow> Inr zeroContentApproval | Some f \<Rightarrow> f issue)"

definition pin :: "Record \<Rightarrow> approvedContent \<Rightarrow> Record" where
  "pin r a =
     r\<lparr>rIssue := (rIssue r)\<lparr>ciTitle := icTitle (acContent a), ciBody := icBody (acContent a)\<rparr>,
       rApprovedAt := acAt a\<rparr>"

section \<open>What the replays find\<close>

definition writesLabel :: "runtime \<Rightarrow> string \<Rightarrow> ClaimEvent \<Rightarrow> bool" where
  "writesLabel u label ev \<longleftrightarrow> equalFold u (ceSubject ev) label
     \<and> (ceKind ev = ClaimEventLabeled \<or> ceKind ev = ClaimEventUnlabeled)"

definition writesClaim :: "runtime \<Rightarrow> string \<Rightarrow> ClaimEvent \<Rightarrow> bool" where
  "writesClaim u login ev \<longleftrightarrow> equalFold u (ceSubject ev) login
     \<and> (ceKind ev = ClaimEventAssigned \<or> ceKind ev = ClaimEventUnassigned)"

interpretation labeled_event: last_writer "writesLabel u label"
    "\<lambda>ev. if ceKind ev = ClaimEventLabeled then (ev, True) else (zeroClaimEvent, False)"
    "labeledStep u label" for u label
  by unfold_locales (auto simp: writesLabel_def labeledStep_def)

interpretation labeled_id: last_writer "writesLabel u label"
    "\<lambda>ev. if ceKind ev = ClaimEventLabeled then (ceID ev, True) else (0, False)"
    "labeledIDStep u label" for u label
  by unfold_locales (auto simp: writesLabel_def labeledIDStep_def)

interpretation claim_anchor: last_writer "writesClaim u login"
    "\<lambda>ev. if ceKind ev = ClaimEventAssigned then ceID ev else 0" "anchorStep u login" for u login
  by unfold_locales (auto simp: writesClaim_def anchorStep_def)

text \<open>The application of a label that stands at the end of a log.\<close>

definition standsBy :: "runtime \<Rightarrow> ClaimEvent list \<Rightarrow> string \<Rightarrow> ClaimEvent \<Rightarrow> bool" where
  "standsBy u history label ev \<longleftrightarrow>
     (\<exists>pre post. history = pre @ ev # post \<and> equalFold u (ceSubject ev) label
        \<and> ceKind ev = ClaimEventLabeled \<and> (\<forall>x\<in>set post. \<not> writesLabel u label x))"

lemma standingLabeledEvent_iff:
  "standingLabeledEvent u history label = (ev, True) \<longleftrightarrow> standsBy u history label ev"
proof
  assume s: "standingLabeledEvent u history label = (ev, True)"
  show "standsBy u history label ev"
    by (rule labeled_event.replay_cases
        [of history u label "(zeroClaimEvent, False)", folded standingLabeledEvent_def])
      (use s in \<open>auto simp: standsBy_def writesLabel_def split: if_splits\<close>)
next
  assume "standsBy u history label ev"
  then obtain pre post where "history = pre @ ev # post" "writesLabel u label ev"
    "ceKind ev = ClaimEventLabeled" "\<forall>x\<in>set post. \<not> writesLabel u label x"
    by (auto simp: standsBy_def writesLabel_def)
  then show "standingLabeledEvent u history label = (ev, True)"
    using labeled_event.replay_last [of u label ev post pre "(zeroClaimEvent, False)"]
    by (simp add: standingLabeledEvent_def)
qed

lemma standingLabeledEvent_no: "\<not> snd (standingLabeledEvent u history label) \<longleftrightarrow>
    standingLabeledEvent u history label = (zeroClaimEvent, False)"
  by (rule labeled_event.replay_cases
      [of history u label "(zeroClaimEvent, False)", folded standingLabeledEvent_def])
    (auto split: if_splits)

lemma labeledIDStep_event:
  "labeledIDStep u label ev (ceID (fst st), snd st)
     = (ceID (fst (labeledStep u label ev st)), snd (labeledStep u label ev st))"
  by (simp add: labeledIDStep_def labeledStep_def zeroClaimEvent_def)

lemma labeledID_fold:
  "fold (labeledIDStep u label) history (ceID (fst st), snd st)
     = (ceID (fst (fold (labeledStep u label) history st)),
        snd (fold (labeledStep u label) history st))"
  by (induction history arbitrary: st) (simp_all only: fold_simps labeledIDStep_event)

lemma standingLabeledID_event:
  "standingLabeledID u history label =
     (let (event, ok) = standingLabeledEvent u history label
      in if \<not> ok \<or> ceID event \<le> 0 then (0, False) else (ceID event, True))"
  using labeledID_fold [of u label history "(zeroClaimEvent, False)"]
  by (simp add: standingLabeledID_def standingLabeledEvent_def zeroClaimEvent_def case_prod_beta)

text \<open>
  The id of the standing application of a label, zero when it is not applied. Both
  spellings of the approval anchor read it for every required label.
\<close>

definition standingID :: "runtime \<Rightarrow> ClaimEvent list \<Rightarrow> string \<Rightarrow> tid" where
  "standingID u history label = ceID (fst (standingLabeledEvent u history label))"

lemma standingID_not_applied: "\<not> snd (standingLabeledEvent u history label) \<Longrightarrow> standingID u history label = 0"
  by (drule iffD1 [OF standingLabeledEvent_no]) (simp add: standingID_def zeroClaimEvent_def)

lemma standingID_pos:
  "0 < standingID u history label \<longleftrightarrow> (\<exists>ev. standsBy u history label ev \<and> ceID ev > 0)"
proof (cases "snd (standingLabeledEvent u history label)")
  case True
  then have "standsBy u history label ev \<longleftrightarrow> ev = fst (standingLabeledEvent u history label)" for ev
    unfolding standingLabeledEvent_iff [symmetric] by (auto simp: prod_eq_iff)
  then show ?thesis by (simp add: standingID_def)
next
  case False
  then have "\<not> standsBy u history label ev" for ev
    unfolding standingLabeledEvent_iff [symmetric] by auto
  then show ?thesis using standingID_not_applied [OF False] by simp
qed

lemma standsBy_ID: "standsBy u history label ev \<Longrightarrow> standingID u history label = ceID ev"
  by (simp add: standingID_def flip: standingLabeledEvent_iff)

lemma cycleAnchorLoop_complete:
  "cycleAnchorLoop u history anchor wants = completeLoop anchor (map (standingID u history) wants)"
proof (induction wants arbitrary: anchor)
  case (Cons l wants)
  have "(\<not> snd (standingLabeledEvent u history l) \<or> standingID u history l \<le> 0)
      = (standingID u history l \<le> 0)"
    using standingID_not_applied by auto
  then show ?case
    using Cons.IH by (simp add: case_prod_beta Let_def standingID_def [symmetric])
qed simp

lemma standingLoop_complete:
  "standingLoop u history anchor wants =
     (case completeLoop anchor (map (standingID u history) wants) of (a, ok) \<Rightarrow> if ok then a else 0)"
proof (induction wants arbitrary: anchor)
  case (Cons l wants)
  have "standingLabeledID u history l = (if standingID u history l \<le> 0 then (0, False)
      else (standingID u history l, True))"
    using standingID_not_applied [of u history l]
    by (auto simp: standingLabeledID_event case_prod_beta Let_def standingID_def)
  then show ?case using Cons.IH by simp
qed simp

lemma approvalCycleAnchor_complete:
  "approvalCycleAnchor u history req = completeApprovalEpoch (map (standingID u history) req)"
  by (simp add: approvalCycleAnchor_def completeApprovalEpoch_def cycleAnchorLoop_complete)

lemma StandingApproval_complete:
  "StandingApproval u history req =
     (case completeApprovalEpoch (map (standingID u history) req) of (a, ok) \<Rightarrow> if ok then a else 0)"
  by (simp add: StandingApproval_def completeApprovalEpoch_def standingLoop_complete)

lemma instantLoop_iff:
  "instantLoop u history latest wants = (t, True) \<longleftrightarrow>
     (\<forall>l\<in>set wants. snd (standingLabeledEvent u history l))
     \<and> t = fold max (map (\<lambda>l. ceAt (fst (standingLabeledEvent u history l))) wants) latest"
proof (induction wants arbitrary: latest)
  case (Cons l wants)
  have "(if b > latest then b else latest) = max b latest" for b :: time by (simp add: max_def)
  then show ?case
    using Cons.IH by (simp add: standingLabeledAt_def case_prod_beta Let_def)
qed auto

lemma fold_max_Max: "fold max ts t0 = Max (insert t0 (set ts))" for t0 :: int
  by (metis Max.set_eq_fold list.simps(15))

section \<open>The approved content\<close>

lemma approvingInstant_iff:
  "approvingInstant u history req = (t, True) \<longleftrightarrow>
     req \<noteq> [] \<and> (\<forall>l\<in>set req. snd (standingLabeledEvent u history l))
     \<and> t = Max (insert zeroTime ((\<lambda>l. ceAt (fst (standingLabeledEvent u history l))) ` set req))"
  by (cases "req = []")
    (simp_all add: approvingInstant_def instantLoop_iff fold_max_Max image_image)

lemma standsBy_fst:
  "snd (standingLabeledEvent u history l) \<Longrightarrow> standsBy u history l (fst (standingLabeledEvent u history l))"
  unfolding standingLabeledEvent_iff [symmetric] by (simp add: prod_eq_iff)

lemma standsBy_mem: "standsBy u history l ev \<Longrightarrow> ev \<in> set history"
  by (auto simp: standsBy_def)

lemma checkApproval_Inr:
  "checkApproval u history req read = Inr a \<longleftrightarrow>
     approvingInstant u history req = (acAt a, True) \<and> acContent a = caContent read
     \<and> (editStatus (caEdit read) = ContentEditNever
        \<or> editStatus (caEdit read) = ContentEditAt
          \<and> truncateSecond (editAt (caEdit read)) < truncateSecond (acAt a))"
  by (cases "approvingInstant u history req"; cases "editStatus (caEdit read)"; cases a)
    (auto simp: checkApproval_def Let_def)

lemma truncateSecond_less: "truncateSecond a < truncateSecond b \<Longrightarrow> a < b"
proof (rule ccontr)
  assume less: "truncateSecond a < truncateSecond b" and "\<not> a < b"
  then have "(b - zeroTime) div nanosPerSecond \<le> (a - zeroTime) div nanosPerSecond"
    by (intro zdiv_mono1) (simp_all add: nanosPerSecond_def)
  moreover have "truncateSecond t = zeroTime + nanosPerSecond * ((t - zeroTime) div nanosPerSecond)" for t
    by (simp add: truncateSecond_def minus_mod_eq_mult_div [symmetric])
  ultimately show False using less by (simp add: nanosPerSecond_def)
qed

text \<open>
  C11. Content reaches a dispatch only if a labeler approved it as it reads: when the check
  admits content, it is the content of the same read that dated the last edit; every
  required label stands, the approving instant is that of the last of the standing
  applications; and the content was never edited, or last edited in a strictly earlier second
  (so at a strictly earlier instant) than the approving one.
\<close>

theorem admitted_content_was_approved:
  assumes "checkApproval u history labels read = Inr a" and "\<forall>ev\<in>set history. zeroTime \<le> ceAt ev"
  shows "acContent a = caContent read \<and> labels \<noteq> []
    \<and> (\<forall>l\<in>set labels. \<exists>ev. standsBy u history l ev \<and> ceAt ev \<le> acAt a)
    \<and> (\<exists>l\<in>set labels. \<exists>ev. standsBy u history l ev \<and> ceAt ev = acAt a)
    \<and> (editStatus (caEdit read) = ContentEditNever
       \<or> editStatus (caEdit read) = ContentEditAt \<and> editAt (caEdit read) < acAt a
         \<and> truncateSecond (editAt (caEdit read)) < truncateSecond (acAt a))"
proof -
  let ?at = "\<lambda>l. ceAt (fst (standingLabeledEvent u history l))"
  from assms(1) have c: "acContent a = caContent read"
    and i: "labels \<noteq> []" "\<forall>l\<in>set labels. snd (standingLabeledEvent u history l)"
      "acAt a = Max (insert zeroTime (?at ` set labels))"
    and e: "editStatus (caEdit read) = ContentEditNever
       \<or> editStatus (caEdit read) = ContentEditAt
         \<and> truncateSecond (editAt (caEdit read)) < truncateSecond (acAt a)"
    unfolding checkApproval_Inr approvingInstant_iff by blast+
  have "?at ` set labels \<noteq> {}" using i(1) by simp
  moreover have "\<forall>x\<in>?at ` set labels. zeroTime \<le> x"
    using i(2) assms(2) standsBy_fst standsBy_mem by blast
  ultimately have "acAt a = Max (?at ` set labels)"
    unfolding i(3) by (metis List.finite_set Max_in Max_insert finite_imageI max.absorb2)
  then have "acAt a \<in> ?at ` set labels" using \<open>?at ` set labels \<noteq> {}\<close> by simp
  then have last: "\<exists>l\<in>set labels. \<exists>ev. standsBy u history l ev \<and> ceAt ev = acAt a"
    using i(2) standsBy_fst by fastforce
  have "\<forall>l\<in>set labels. ?at l \<le> acAt a" unfolding i(3) by simp
  then have all: "\<forall>l\<in>set labels. \<exists>ev. standsBy u history l ev \<and> ceAt ev \<le> acAt a"
    using i(2) standsBy_fst by meson
  show ?thesis using c i(1) e truncateSecond_less all last by blast
qed

definition demoLog :: "ClaimEvent list" where
  "demoLog =
     [\<lparr>ceKind = ClaimEventLabeled, ceActor = ''alice'', ceSubject = ''ben'', ceAt = 7000000000, ceID = 11\<rparr>,
      \<lparr>ceKind = ClaimEventAssigned, ceActor = ''bot'', ceSubject = ''bot'', ceAt = 9000000000, ceID = 12\<rparr>]"

definition demoRead :: ContentApproval where
  "demoRead = \<lparr>caContent = \<lparr>icTitle = ''Title'', icBody = ''Body''\<rparr>,
     caEdit = \<lparr>editStatus = ContentEditAt, editAt = 6999999999\<rparr>\<rparr>"

lemmas demoLog_run =
  demoLog_def claimEventKinds equalFold_def runes_def runesOf.simps decodeRune_def byte_def
  foldRune_def asciiLower_def logRuntime_def

theorem admitted_content_was_approved_witness:
  "\<exists>a. checkApproval logRuntime demoLog [''ben''] demoRead = Inr a \<and> editAt (caEdit demoRead) < acAt a"
proof -
  let ?a = "\<lparr>acContent = caContent demoRead, acAt = 7000000000\<rparr>"
  have "approvingInstant logRuntime demoLog [''ben''] = (7000000000, True)"
    by (simp add: approvingInstant_def standingLabeledAt_def standingLabeledEvent_def
        labeledStep_def zeroTime_def demoLog_run)
  then have c: "checkApproval logRuntime demoLog [''ben''] demoRead = Inr ?a"
    by (simp add: checkApproval_def demoRead_def truncateSecond_def zeroTime_def nanosPerSecond_def)
  have "\<forall>ev\<in>set demoLog. zeroTime \<le> ceAt ev" by (simp add: demoLog_def zeroTime_def)
  from admitted_content_was_approved [OF c this]
  have "editAt (caEdit demoRead) < acAt ?a" by (simp add: demoRead_def)
  then show ?thesis using c by blast
qed

definition pinnedContent :: "Record \<Rightarrow> string \<times> string \<times> time" where
  "pinnedContent r = (ciTitle (rIssue r), ciBody (rIssue r), rApprovedAt r)"

lemma pinnedContent_owe [simp]:
  "pinnedContent (driveOwed e r) = pinnedContent r"
  "pinnedContent (owe e r what target call) = pinnedContent r"
  "pinnedContent (oweProjection e r what want) = pinnedContent r"
  by (simp_all add: pinnedContent_def owe_def oweProjection_def)

lemma pinnedContent_fields [simp]:
  "pinnedContent (r\<lparr>rClaimBaseAbandonOwed := b\<rparr>) = pinnedContent r"
  "pinnedContent (r\<lparr>rReleasing := b, rStopReason := t\<rparr>) = pinnedContent r"
  "pinnedContent (r\<lparr>rAfterRunFired := b\<rparr>) = pinnedContent r"
  "pinnedContent (r\<lparr>rDisposalOwed := b\<rparr>) = pinnedContent r"
  "pinnedContent (r\<lparr>rState := st, rUpdatedAt := now\<rparr>) = pinnedContent r"
  "pinnedContent (markGone r) = pinnedContent r" "pinnedContent (markClaimLost r) = pinnedContent r"
  "pinnedContent (adoptRouting r fresh) = pinnedContent r"
  "pinnedContent (restoreBudgets r) = pinnedContent r"
  "pinnedContent (r\<lparr>rOwedInFlight := b\<rparr>) = pinnedContent r"
  "pinnedContent (r\<lparr>rOwedWriteFailed := b\<rparr>) = pinnedContent r"
  "pinnedContent (r\<lparr>rOwed := q\<rparr>) = pinnedContent r"
  by (simp_all add: pinnedContent_def markGone_def markClaimLost_def adoptRouting_def
      restoreBudgets_def)

lemma pinnedContent_exits [simp]:
  "pinnedContent (release e r why) = pinnedContent r"
  "pinnedContent (attemptEnded e hooked r) = pinnedContent r"
  "pinnedContent (oweDisposal e r c) = pinnedContent r"
  "pinnedContent (fst (onEffectDone e r what failed)) = pinnedContent r"
  by (simp_all add: release_def abandonPendingClaimBase_def attemptEnded_def oweDisposal_def
      onEffectDone_def Let_def)

lemma pinnedContent_step: "pinnedContent (rrRecord (recordStep op s)) = pinnedContent (rrRecord s)"
  by (cases op) (auto simp: finishEffect_def transitionCaused_def Let_def split: sum.split)

text \<open>
  Whatever refreshes, transitions, failures and exits a record goes through, the title and
  body it renders into prompts and the instant they were approved at stay exactly as the last
  \<open>pin\<close> left them; the reconciliation of fresh tracker facts replaces routing fields only.
\<close>

theorem pinned_content_survives:
  "pinnedContent (rrRecord (recordLife ops (s\<lparr>rrRecord := pin r a\<rparr>)))
     = (icTitle (acContent a), icBody (acContent a), acAt a)"
proof -
  have "pinnedContent (rrRecord (recordLife ops s')) = pinnedContent (rrRecord s')" for s'
    by (induction ops arbitrary: s') (simp_all add: recordLife_def pinnedContent_step)
  then show ?thesis by (simp add: pinnedContent_def pin_def)
qed

section \<open>Which approval stands\<close>

text \<open>
  The two spellings of the approval anchor agree on every log and every set of required
  labels: the exported \<open>StandingApproval\<close>, which names the workspace cycle to dispose, is the
  anchor of \<open>approvalCycleAnchor\<close> when the set is completely applied and zero otherwise.
\<close>

theorem approval_anchors_agree:
  "StandingApproval u history labels =
     (case approvalCycleAnchor u history labels of (a, ok) \<Rightarrow> if ok then a else 0)
   \<and> snd (approvalCycleAnchor u history labels) = (0 < StandingApproval u history labels)"
proof (cases "completeApprovalEpoch (map (standingID u history) labels)")
  case (Pair a ok)
  then show ?thesis
    using completeApprovalEpoch_pos [of "map (standingID u history) labels" a]
    by (cases ok) (simp_all add: StandingApproval_complete approvalCycleAnchor_complete)
qed

lemma StandingApproval_iff:
  assumes "0 < a"
  shows "StandingApproval u history labels = a \<longleftrightarrow>
    labels \<noteq> [] \<and> (\<forall>l\<in>set labels. 0 < standingID u history l) \<and> a = Max (standingID u history ` set labels)"
proof (cases "completeApprovalEpoch (map (standingID u history) labels)")
  case (Pair b ok)
  then show ?thesis
    using completeApprovalEpoch_iff [of "map (standingID u history) labels" a]
      completeApprovalEpoch_iff [of "map (standingID u history) labels" b] assms
    by (cases ok) (auto simp: StandingApproval_complete)
qed

lemma standingID_snoc:
  "standingID u (history @ [ev]) l =
     (if writesLabel u l ev then (if ceKind ev = ClaimEventLabeled then ceID ev else 0)
      else standingID u history l)"
  by (simp add: standingID_def standingLabeledEvent_def labeled_event.step_writes
      labeled_event.step_skips zeroClaimEvent_def)

lemma StandingApproval_incomplete:
  "l \<in> set labels \<Longrightarrow> standingID u history l \<le> 0 \<Longrightarrow> StandingApproval u history labels = 0"
proof -
  assume "l \<in> set labels" "standingID u history l \<le> 0"
  then have "\<not> (\<forall>e\<in>set (map (standingID u history) labels). e > 0)" by force
  then have "completeApprovalEpoch (map (standingID u history) labels) \<noteq> (a, True)" for a
    unfolding completeApprovalEpoch_iff by blast
  then have "snd (completeApprovalEpoch (map (standingID u history) labels)) = False"
    by (cases "completeApprovalEpoch (map (standingID u history) labels)") simp
  then show ?thesis by (simp add: StandingApproval_complete case_prod_beta)
qed

text \<open>
  Removing a required label withdraws the approval and re-applying it is a new one, even
  within one second: after the removal no approval stands, and after the re-application the
  anchor is the id of the re-applying event, which differs from the old anchor.
\<close>

theorem reapplied_label_is_new_approval:
  assumes "StandingApproval u history labels = a" and "0 < a" and "l \<in> set labels"
    and "ceKind off = ClaimEventUnlabeled" "equalFold u (ceSubject off) l"
    and "ceKind on = ClaimEventLabeled" "ceSubject on = ceSubject off" "a < ceID on"
  shows "StandingApproval u (history @ [off]) labels = 0
    \<and> StandingApproval u (history @ [off, on]) labels = ceID on"
proof -
  have old: "labels \<noteq> []" "\<forall>x\<in>set labels. 0 < standingID u history x \<and> standingID u history x \<le> a"
    using assms(1) StandingApproval_iff [OF assms(2)] by auto
  have off: "standingID u (history @ [off]) x = (if equalFold u (ceSubject off) x then 0 else standingID u history x)" for x
    using assms(4) by (simp add: standingID_snoc writesLabel_def)
  then have on: "standingID u ((history @ [off]) @ [on]) x
      = (if equalFold u (ceSubject off) x then ceID on else standingID u history x)" for x
    unfolding standingID_snoc [of u "history @ [off]"] using assms(6,7) by (simp add: writesLabel_def)
  have "0 < ceID on" using assms(2,8) by simp
  moreover have "\<forall>x\<in>set labels. 0 < standingID u ((history @ [off]) @ [on]) x"
    using old(2) on calculation by simp
  moreover have "Max (standingID u ((history @ [off]) @ [on]) ` set labels) = ceID on"
  proof (rule Max_eqI)
    show "ceID on \<in> standingID u ((history @ [off]) @ [on]) ` set labels"
      by (rule image_eqI [OF _ assms(3)]) (use on [of l] assms(5) in simp)
  qed (use old(2) on assms(8) in \<open>auto split: if_splits\<close>)
  ultimately have "StandingApproval u ((history @ [off]) @ [on]) labels = ceID on"
    using StandingApproval_iff old(1) by metis
  moreover have "StandingApproval u (history @ [off]) labels = 0"
    using StandingApproval_incomplete [OF assms(3)] off [of l] assms(5) by simp
  ultimately show ?thesis by simp
qed

definition demoOff :: ClaimEvent where
  "demoOff = \<lparr>ceKind = ClaimEventUnlabeled, ceActor = ''alice'', ceSubject = ''Ben'', ceAt = 9000000000, ceID = 13\<rparr>"
definition demoOn :: ClaimEvent where
  "demoOn = \<lparr>ceKind = ClaimEventLabeled, ceActor = ''alice'', ceSubject = ''Ben'', ceAt = 9000000000, ceID = 14\<rparr>"

theorem reapplied_label_is_new_approval_witness:
  "StandingApproval logRuntime (demoLog @ [demoOff]) [''ben''] = 0
   \<and> StandingApproval logRuntime (demoLog @ [demoOff, demoOn]) [''ben''] = 14"
proof -
  have "StandingApproval logRuntime demoLog [''ben''] = 11"
    by (simp add: StandingApproval_def standingLabeledID_def labeledIDStep_def demoLog_run)
  moreover have "equalFold logRuntime (ceSubject demoOff) ''ben''"
    by (simp add: demoOff_def demoLog_run)
  ultimately show ?thesis
    using reapplied_label_is_new_approval [of logRuntime demoLog "[''ben'']" 11 "''ben''" demoOff demoOn]
    by (simp add: demoOff_def demoOn_def)
qed

section \<open>Agreement with the review controller\<close>

text \<open>
  The review controller reads the same tracker log in its own event type: the subject of an
  entry is the label of a label event and the assignee of an assignment event.
\<close>

definition reviewEvent :: "ClaimEvent \<Rightarrow> Event" where
  "reviewEvent ev =
     \<lparr>evID = ceID ev, evType = ceKind ev, evActor = ceActor ev,
      evAssignee = (if ceKind ev = ClaimEventAssigned \<or> ceKind ev = ClaimEventUnassigned
                    then ceSubject ev else []),
      evLabel = (if ceKind ev = ClaimEventLabeled \<or> ceKind ev = ClaimEventUnlabeled
                 then ceSubject ev else []),
      evCreatedAt = ceAt ev\<rparr>"

text \<open>The tracker's names have no surrounding white space, which the controller trims.\<close>

definition trimmedNames :: "ClaimEvent list \<Rightarrow> bool" where
  "trimmedNames evs \<longleftrightarrow> list_all (\<lambda>ev. trimSpace (ceSubject ev) = ceSubject ev) evs"

lemma reviewEvent_kinds [simp]:
  "(ClaimEventLabeled = EventLabeled) = True" "(ClaimEventUnlabeled = EventUnlabeled) = True"
  "(ClaimEventAssigned = EventAssigned) = True" "(ClaimEventUnassigned = EventUnassigned) = True"
  by (simp_all add: claimEventKinds EventLabeled_def EventUnlabeled_def EventAssigned_def
      EventUnassigned_def)

lemma labelStep_review:
  assumes "trimSpace (ceSubject ev) = ceSubject ev" and "trimSpace l = l"
  shows "labelStep u l (reviewEvent ev) st = labeledIDStep u l ev st"
proof -
  have k: "EventLabeled = ClaimEventLabeled" "EventUnlabeled = ClaimEventUnlabeled"
    by (simp_all add: claimEventKinds EventLabeled_def EventUnlabeled_def)
  show ?thesis
    using assms by (auto simp: labelStep_def labeledIDStep_def reviewEvent_def eqFold_def k)
qed

lemma standingSince_review:
  assumes "trimmedNames evs" and "trimSpace l = l"
  shows "standingSince u l (map reviewEvent evs) = standingID u evs l"
proof -
  have "fold (labelStep u l) (map reviewEvent evs) st = fold (labeledIDStep u l) evs st" for st
    using assms(1)
    by (induction evs arbitrary: st) (simp_all add: trimmedNames_def labelStep_review assms(2))
  then show ?thesis
    using labeledID_fold [of u l evs "(zeroClaimEvent, False)"]
    by (simp add: standingSince_def standingID_def standingLabeledEvent_def zeroClaimEvent_def)
qed

text \<open>
  C35. The daemon and the review controller name the same approval: on a log with trimmed names
  and distinct required labels, the workspace-cycle anchor the controller computes for an
  occurrence is the anchor the daemon computes from the log up to that occurrence, so a
  review is bound to the sandbox cycle the daemon ran in.
\<close>

theorem review_and_daemon_name_one_approval:
  assumes "labelsDistinct u labels" and "\<forall>l\<in>set labels. trimSpace l = l"
    and "trimmedNames (pre @ ev # post)" and "ceID ev \<notin> ceID ` set (pre @ post)"
  shows "approvalEpochAtOccurrence u (map reviewEvent (pre @ ev # post)) labels (ceID ev)
    = approvalCycleAnchor u (pre @ [ev]) labels"
proof -
  have id: "evID (reviewEvent x) = ceID x" for x by (simp add: reviewEvent_def)
  have "evID (reviewEvent ev) \<notin> evID ` set (map reviewEvent pre @ map reviewEvent post)"
    using assms(4) by (auto simp: id image_image)
  then have "approvalEpochAtOccurrence u (map reviewEvent (pre @ ev # post)) labels (ceID ev)
      = completeApprovalEpoch (fold (approvalStep u labels) (map reviewEvent (pre @ [ev])) (noEpochs labels))"
    using approval_at.at_once [of "ceID ev" "map reviewEvent pre" "map reviewEvent post" "reviewEvent ev"]
    by (simp add: id)
  also have "\<dots> = completeApprovalEpoch
      (map (\<lambda>l. standingSince u l (map reviewEvent (pre @ [ev]))) labels)"
    by (simp only: approval_fold_eq [OF assms(1)])
  also have "\<dots> = completeApprovalEpoch (map (standingID u (pre @ [ev])) labels)"
  proof -
    have "trimmedNames (pre @ [ev])" using assms(3) by (simp add: trimmedNames_def)
    then have "\<forall>l\<in>set labels. standingSince u l (map reviewEvent (pre @ [ev])) = standingID u (pre @ [ev]) l"
      using standingSince_review assms(2) by blast
    then show ?thesis by (metis (mono_tags, lifting) map_cong)
  qed
  finally show ?thesis by (simp add: approvalCycleAnchor_complete)
qed

theorem review_and_daemon_name_one_approval_witness:
  "approvalEpochAtOccurrence logRuntime (map reviewEvent demoLog) [''ben''] 12
     = approvalCycleAnchor logRuntime demoLog [''ben'']"
proof -
  have d: "demoLog = [hd demoLog] @ (demoLog ! 1) # []" by (simp add: demoLog_def)
  have "labelsDistinct logRuntime [''ben'']" by (simp add: labelsDistinct_def)
  moreover have "\<forall>l\<in>set [''ben'']. trimSpace l = l" by code_simp
  moreover have "trimmedNames ([hd demoLog] @ (demoLog ! 1) # [])" by code_simp
  moreover have "ceID (demoLog ! 1) \<notin> ceID ` set ([hd demoLog] @ [])" by (simp add: demoLog_def)
  ultimately show ?thesis
    using review_and_daemon_name_one_approval
      [of logRuntime "[''ben'']" "[hd demoLog]" "demoLog ! 1" "[]"] d
    by (simp add: demoLog_def)
qed

end
