(* ===== verification/Verify.thy ===== *)
theory Verify
  imports CoreTypes
begin

text \<open>
  \<open>internal/verify\<close>: the publish-evidence check of a finished run, for a run the daemon hosted
  (\<open>verify.go\<close>) and for a remote one (\<open>remote.go\<close>), and the choice between them
  (\<open>select.go\<close>). The git, claim and forge seams are function arguments, asked at most once
  each; an error of a seam is a value of the type \<open>'e\<close>.
\<close>

section \<open>Verdicts\<close>

datatype evidence =
  VerdictUnknown | VerdictPublished | VerdictIncomplete | VerdictContradicted | VerdictOther int

record Result =
  resVerdict :: evidence
  resPRURL :: string
  resDetail :: string

datatype 'e verifyError =
    ErrTargetBranchMissing
  | ErrGitEvidence 'e
  | ErrRemoteUnprobed
  | ErrFindPR 'e
  | ErrPRNotOpen int string
  | ErrPRBranchMismatch int string
  | ErrPRTargetMissing int

definition contradicted :: "string \<Rightarrow> Result" where
  "contradicted detail = \<lparr>resVerdict = VerdictContradicted, resPRURL = [], resDetail = detail\<rparr>"

definition incomplete :: "string \<Rightarrow> Result" where
  "incomplete detail = \<lparr>resVerdict = VerdictIncomplete, resPRURL = [], resDetail = detail\<rparr>"

definition short :: "string \<Rightarrow> string" where
  "short sha = (if length sha \<le> 12 then sha else take 12 sha)"

section \<open>The check of a hosted run\<close>

record 'e Checker =
  ckPublishFacts :: "Workspace \<Rightarrow> 'e + PublishFacts"
  ckFindPR :: "coreIssue \<Rightarrow> string \<Rightarrow> 'e + PR option"

text \<open>Leg 3 of the check: the open pull request on the branch.\<close>

definition verifyPR :: "Workspace \<Rightarrow> 'e + PR option \<Rightarrow> 'e verifyError + Result" where
  "verifyPR ws found =
     (case found of
        Inl e \<Rightarrow> Inl (ErrFindPR e)
      | Inr None \<Rightarrow> Inr (incomplete (''branch '' @ wsBranch ws
          @ '' is pushed to origin but has no open pull request''))
      | Inr (Some pr) \<Rightarrow>
          if prqState pr \<noteq> ''open'' then Inl (ErrPRNotOpen (prqNumber pr) (prqState pr))
          else if prqBranch pr \<noteq> wsBranch ws then Inl (ErrPRBranchMismatch (prqNumber pr) (prqBranch pr))
          else if prqBaseBranch pr = [] then Inl (ErrPRTargetMissing (prqNumber pr))
          else if prqBaseBranch pr \<noteq> wsTargetBranch ws then
            Inr (contradicted (''pull request #'' @ itoa (prqNumber pr) @ '' targets ''
              @ prqBaseBranch pr @ '', not '' @ wsTargetBranch ws))
          else Inr \<lparr>resVerdict = VerdictPublished, resPRURL = prqURL pr, resDetail = []\<rparr>)"

definition Verify :: "'e Checker \<Rightarrow> coreIssue \<Rightarrow> Workspace \<Rightarrow> 'e verifyError + Result" where
  "Verify c issue ws =
     (if wsTargetBranch ws = [] then Inl ErrTargetBranchMissing
      else case ckPublishFacts c ws of
        Inl e \<Rightarrow> Inl (ErrGitEvidence e)
      | Inr facts \<Rightarrow>
          if pfHead facts = [] then
            Inr (contradicted (''branch '' @ wsBranch ws @ '' does not exist: the run left no commits''))
          else if pfHead facts = wsBaseSHA ws then
            Inr (contradicted (''branch '' @ wsBranch ws @ '' is still at its claim-time base ''
              @ short (wsBaseSHA ws) @ '': the run added no commits''))
          else if \<not> pfDescendsBase facts then
            Inr (contradicted (''branch '' @ wsBranch ws @ '' at '' @ short (pfHead facts)
              @ '' does not descend from its claim-time base '' @ short (wsBaseSHA ws)
              @ '': history was rewritten''))
          else if \<not> pfRemoteProbed facts then Inl ErrRemoteUnprobed
          else if pfRemoteHead facts = [] then
            Inr (incomplete (''branch '' @ wsBranch ws @ '' has commits at '' @ short (pfHead facts)
              @ '' but is not on origin''))
          else if \<not> pfRemoteHasHead facts then
            Inr (incomplete (''origin's '' @ wsBranch ws @ '' is at '' @ short (pfRemoteHead facts)
              @ '' and does not carry the local head '' @ short (pfHead facts)
              @ '': the push was partial''))
          else verifyPR ws (ckFindPR c issue (wsBranch ws)))"

section \<open>The check of a remote run\<close>

datatype 'e remoteError =
    ErrRunIncomplete
  | ErrClaimOfOtherIssue
  | ErrReadingClaim 'e
  | ErrRemoteFactsUnbound
  | ErrRemoteRepositoryMismatch string
  | ErrRemoteBranchUnexpected string
  | ErrRemoteClaimUnpinned
  | ErrNoTargetBranch
  | ErrReadingFacts 'e
  | ErrRemoteMirrorStale
  | ErrReadingPR 'e
  | ErrRemotePRContract int

record RemoteResult =
  rrVerdict :: evidence
  rrPRURL :: string
  rrDetail :: string
  rrFacts :: RemotePublishFacts

definition resultOfRemote :: "RemoteResult \<Rightarrow> Result" where
  "resultOfRemote r = \<lparr>resVerdict = rrVerdict r, resPRURL = rrPRURL r, resDetail = rrDetail r\<rparr>"

record 'e RemoteChecker =
  rkClaim :: "RemoteClaimRef \<Rightarrow> 'e + RemoteClaim"
  rkFacts :: "RemoteRunRef \<Rightarrow> 'e + RemotePublishFacts"
  rkPR :: "RemotePRQuery \<Rightarrow> 'e + RemotePR option"
  rkRepository :: string

definition remoteBranch :: "string \<Rightarrow> string" where
  "remoteBranch key = ''ben/'' @ key"

definition contradictedRemote :: "RemotePublishFacts \<Rightarrow> string \<Rightarrow> RemoteResult" where
  "contradictedRemote facts detail =
     \<lparr>rrVerdict = VerdictContradicted, rrPRURL = [], rrDetail = detail, rrFacts = facts\<rparr>"

definition incompleteRemote :: "RemotePublishFacts \<Rightarrow> string \<Rightarrow> RemoteResult" where
  "incompleteRemote facts detail =
     \<lparr>rrVerdict = VerdictIncomplete, rrPRURL = [], rrDetail = detail, rrFacts = facts\<rparr>"

text \<open>The admission checks return the first refusal, or nothing.\<close>

definition admitClaim :: "string \<Rightarrow> RemoteClaim \<Rightarrow> RemoteClaimRef \<Rightarrow> string \<Rightarrow> 'e remoteError option" where
  "admitClaim repository claim ref branch =
     (if rclRef claim \<noteq> ref then Some ErrRemoteFactsUnbound
      else if rclRepository claim \<noteq> repository then Some (ErrRemoteRepositoryMismatch (rclRepository claim))
      else if rclBranch claim \<noteq> branch then Some (ErrRemoteBranchUnexpected (rclBranch claim))
      else if rclBaseSHA claim = [] then Some ErrRemoteClaimUnpinned
      else if rclTargetBranch claim = [] then Some ErrNoTargetBranch
      else None)"

definition admit ::
  "string \<Rightarrow> RemotePublishFacts \<Rightarrow> RemoteRunRef \<Rightarrow> string \<Rightarrow> RemoteClaim \<Rightarrow> 'e remoteError option" where
  "admit repository facts run branch claim =
     (if rpfRun facts \<noteq> run then Some ErrRemoteFactsUnbound
      else if rpfRepository facts \<noteq> repository then Some (ErrRemoteRepositoryMismatch (rpfRepository facts))
      else if rpfBranch facts \<noteq> branch then Some (ErrRemoteBranchUnexpected (rpfBranch facts))
      else if rpfBaseSHA facts = [] then Some ErrRemoteClaimUnpinned
      else if rpfBaseSHA facts \<noteq> rclBaseSHA claim then Some ErrRemoteFactsUnbound
      else if \<not> rpfFetched facts then Some ErrRemoteMirrorStale
      else None)"

definition admitPR :: "string \<Rightarrow> RemotePR \<Rightarrow> string \<Rightarrow> 'e remoteError option" where
  "admitPR repository pr branch =
     (if rmNumber pr \<le> 0 \<or> rmURL pr = [] \<or> rmHeadRepository pr = [] \<or> rmHeadSHA pr = []
         \<or> rmBaseBranch pr = [] then Some (ErrRemotePRContract (rmNumber pr))
      else if rmState pr \<noteq> ''open'' then Some (ErrRemotePRContract (rmNumber pr))
      else if rmHeadBranch pr \<noteq> branch then Some (ErrRemotePRContract (rmNumber pr))
      else if rmRepository pr \<noteq> repository then Some (ErrRemotePRContract (rmNumber pr))
      else if rmLinkStatus pr \<noteq> RemoteIssueLinkStated then Some (ErrRemotePRContract (rmNumber pr))
      else if list_ex (\<lambda>i. i = []) (rmLinkedIssues pr) then Some (ErrRemotePRContract (rmNumber pr))
      else None)"

text \<open>The format verb \<open>%v\<close> on a slice of strings.\<close>

fun joinSpace :: "string list \<Rightarrow> string" where
  "joinSpace [] = []"
| "joinSpace [x] = x"
| "joinSpace (x # xs) = x @ '' '' @ joinSpace xs"

definition showStrings :: "string list \<Rightarrow> string" where
  "showStrings xs = ''['' @ joinSpace xs @ '']''"

definition joins ::
  "string \<Rightarrow> RemotePR \<Rightarrow> RemotePublishFacts \<Rightarrow> coreIssue \<Rightarrow> string \<Rightarrow> string \<Rightarrow> RemoteResult option" where
  "joins repository pr facts issue branch targetBranch =
     (if rmHeadRepository pr \<noteq> repository then
        Some (contradictedRemote facts (''pull request #'' @ itoa (rmNumber pr) @ '' publishes ''
          @ branch @ '' from '' @ rmHeadRepository pr @ '', not from '' @ repository))
      else if rmBaseBranch pr \<noteq> targetBranch then
        Some (contradictedRemote facts (''pull request #'' @ itoa (rmNumber pr) @ '' targets ''
          @ rmBaseBranch pr @ '', not '' @ targetBranch))
      else if rmHeadSHA pr \<noteq> rpfRemoteHead facts then
        Some (contradictedRemote facts (''pull request #'' @ itoa (rmNumber pr) @ '' proposes ''
          @ short (rmHeadSHA pr) @ '' and '' @ branch @ '' is at '' @ short (rpfRemoteHead facts)
          @ '': the forge and '' @ rpfRepository facts @ '' disagree''))
      else if \<not> list_ex (\<lambda>i. i = ciIdentifier issue) (rmLinkedIssues pr) then
        Some (contradictedRemote facts (''pull request #'' @ itoa (rmNumber pr) @ '' closes ''
          @ showStrings (rmLinkedIssues pr) @ '', not issue '' @ ciIdentifier issue))
      else None)"

definition remotePRLeg ::
  "'e RemoteChecker \<Rightarrow> coreIssue \<Rightarrow> string \<Rightarrow> RemoteClaim \<Rightarrow> RemotePublishFacts
   \<Rightarrow> 'e remoteError + RemoteResult" where
  "remotePRLeg c issue branch claim facts =
     (case rkPR c \<lparr>rqIssue = issue, rqRepository = rkRepository c, rqBranch = branch\<rparr> of
        Inl e \<Rightarrow> Inl (ErrReadingPR e)
      | Inr None \<Rightarrow> Inr (incompleteRemote facts (''branch '' @ branch @ '' is on '' @ rpfRepository facts
          @ '' at '' @ short (rpfRemoteHead facts) @ '' but has no open pull request''))
      | Inr (Some pr) \<Rightarrow>
          (case admitPR (rkRepository c) pr branch of
             Some err \<Rightarrow> Inl err
           | None \<Rightarrow>
               (case joins (rkRepository c) pr facts issue branch (rclTargetBranch claim) of
                  Some verdict \<Rightarrow> Inr verdict
                | None \<Rightarrow> Inr \<lparr>rrVerdict = VerdictPublished, rrPRURL = rmURL pr, rrDetail = [],
                               rrFacts = facts\<rparr>)))"

definition remoteLegs ::
  "'e RemoteChecker \<Rightarrow> coreIssue \<Rightarrow> string \<Rightarrow> RemoteClaim \<Rightarrow> RemotePublishFacts
   \<Rightarrow> 'e remoteError + RemoteResult" where
  "remoteLegs c issue branch claim facts =
     (if rpfRemoteHead facts = [] then
        Inr (contradictedRemote facts (''branch '' @ branch @ '' is not on '' @ rpfRepository facts
          @ '': the run published nothing''))
      else if rpfRemoteHead facts = rpfBaseSHA facts then
        Inr (contradictedRemote facts (''branch '' @ branch @ '' is still at its claim-time base ''
          @ short (rpfBaseSHA facts) @ '': the run added no commits''))
      else if \<not> rpfDescendsBase facts then
        Inr (contradictedRemote facts (''branch '' @ branch @ '' on '' @ rpfRepository facts
          @ '' is at '' @ short (rpfRemoteHead facts)
          @ '', which does not descend from the claim-time base '' @ short (rpfBaseSHA facts)
          @ '': history was rewritten''))
      else remotePRLeg c issue branch claim facts)"

definition VerifyRemote ::
  "'e RemoteChecker \<Rightarrow> coreIssue \<Rightarrow> RemoteRunRef \<Rightarrow> 'e remoteError + RemoteResult" where
  "VerifyRemote c issue run =
     (if \<not> runRefComplete run then Inl ErrRunIncomplete
      else if ciIdentifier issue \<noteq> rcrIssue (rrrClaim run) then Inl ErrClaimOfOtherIssue
      else let branch = remoteBranch (rcrKey (rrrClaim run)) in
        case rkClaim c (rrrClaim run) of
          Inl e \<Rightarrow> Inl (ErrReadingClaim e)
        | Inr claim \<Rightarrow>
            (case admitClaim (rkRepository c) claim (rrrClaim run) branch of
               Some err \<Rightarrow> Inl err
             | None \<Rightarrow>
                 (case rkFacts c run of
                    Inl e \<Rightarrow> Inl (ErrReadingFacts e)
                  | Inr facts \<Rightarrow>
                      (case admit (rkRepository c) facts run branch claim of
                         Some err \<Rightarrow> Inl err
                       | None \<Rightarrow> remoteLegs c issue branch claim facts))))"

section \<open>Choosing the verifier\<close>

record Attempt =
  atIssue :: coreIssue
  atWorkspace :: Workspace
  atRemote :: "RemoteRunRef option"

datatype selectError =
  ErrAttemptUnnamed | ErrNoLocalVerifier | ErrAmbiguousSubstrate | ErrNoRemoteVerifier

datatype 'e Publication =
    localPublication "'e Checker" coreIssue Workspace
  | remotePublication "'e RemoteChecker" coreIssue RemoteRunRef

definition SelectPublication ::
  "'e Checker option \<Rightarrow> 'e RemoteChecker option \<Rightarrow> Attempt \<Rightarrow> selectError + 'e Publication" where
  "SelectPublication local remote a =
     (if ciIdentifier (atIssue a) = [] then Inl ErrAttemptUnnamed
      else case atRemote a of
        None \<Rightarrow>
          (case local of
             None \<Rightarrow> Inl ErrNoLocalVerifier
           | Some checker \<Rightarrow> Inr (localPublication checker (atIssue a) (atWorkspace a)))
      | Some run \<Rightarrow>
          if atWorkspace a \<noteq> zeroWorkspace then Inl ErrAmbiguousSubstrate
          else (case remote of
                  None \<Rightarrow> Inl ErrNoRemoteVerifier
                | Some checker \<Rightarrow> Inr (remotePublication checker (atIssue a) run)))"

datatype 'e publicationError = LocalError "'e verifyError" | RemoteError "'e remoteError"

fun publicationVerify :: "'e Publication \<Rightarrow> 'e publicationError + (Result \<times> RemotePublishFacts)" where
  "publicationVerify (localPublication c issue ws) =
     (case Verify c issue ws of
        Inl e \<Rightarrow> Inl (LocalError e)
      | Inr r \<Rightarrow> Inr (r, zeroRemoteFacts))"
| "publicationVerify (remotePublication c issue run) =
     (case VerifyRemote c issue run of
        Inl e \<Rightarrow> Inl (RemoteError e)
      | Inr r \<Rightarrow> Inr (resultOfRemote r, rrFacts r))"

section \<open>What the checks establish\<close>

lemma verdict_constructors [simp]:
  "resVerdict (contradicted d) = VerdictContradicted" "resVerdict (incomplete d) = VerdictIncomplete"
  "resDetail (contradicted d) = d" "resDetail (incomplete d) = d"
  "rrVerdict (contradictedRemote f d) = VerdictContradicted"
  "rrVerdict (incompleteRemote f d) = VerdictIncomplete"
  "rrDetail (contradictedRemote f d) = d" "rrDetail (incompleteRemote f d) = d"
  "rrFacts (contradictedRemote f d) = f" "rrFacts (incompleteRemote f d) = f"
  by (simp_all add: contradicted_def incomplete_def contradictedRemote_def incompleteRemote_def)

lemma verifyPR_published:
  "verifyPR ws found = Inr r \<and> resVerdict r = VerdictPublished \<longleftrightarrow>
     (\<exists>pr. found = Inr (Some pr) \<and> prqState pr = ''open'' \<and> prqBranch pr = wsBranch ws
        \<and> prqBaseBranch pr \<noteq> [] \<and> prqBaseBranch pr = wsTargetBranch ws
        \<and> r = \<lparr>resVerdict = VerdictPublished, resPRURL = prqURL pr, resDetail = []\<rparr>)"
  by (cases r) (auto simp: verifyPR_def contradicted_def incomplete_def split: sum.splits option.splits)

lemma admitClaim_None:
  "admitClaim repository claim ref branch = None \<longleftrightarrow>
     rclRef claim = ref \<and> rclRepository claim = repository \<and> rclBranch claim = branch
     \<and> rclBaseSHA claim \<noteq> [] \<and> rclTargetBranch claim \<noteq> []"
  by (simp add: admitClaim_def)

lemma admit_None:
  "admit repository facts run branch claim = None \<longleftrightarrow>
     rpfRun facts = run \<and> rpfRepository facts = repository \<and> rpfBranch facts = branch
     \<and> rpfBaseSHA facts \<noteq> [] \<and> rpfBaseSHA facts = rclBaseSHA claim \<and> rpfFetched facts"
  by (simp add: admit_def)

definition answersQuery :: "string \<Rightarrow> RemotePR \<Rightarrow> string \<Rightarrow> bool" where
  "answersQuery repository pr branch \<longleftrightarrow>
     rmNumber pr > 0 \<and> rmURL pr \<noteq> [] \<and> rmHeadRepository pr \<noteq> [] \<and> rmHeadSHA pr \<noteq> []
     \<and> rmBaseBranch pr \<noteq> [] \<and> rmState pr = ''open'' \<and> rmHeadBranch pr = branch
     \<and> rmRepository pr = repository \<and> rmLinkStatus pr = RemoteIssueLinkStated
     \<and> [] \<notin> set (rmLinkedIssues pr)"

lemma admitPR_None: "admitPR repository pr branch = None \<longleftrightarrow> answersQuery repository pr branch"
  by (auto simp: admitPR_def answersQuery_def list_ex_iff)

lemma joins_None:
  "joins repository pr facts issue branch target = None \<longleftrightarrow>
     rmHeadRepository pr = repository \<and> rmBaseBranch pr = target
     \<and> rmHeadSHA pr = rpfRemoteHead facts \<and> ciIdentifier issue \<in> set (rmLinkedIssues pr)"
  by (auto simp: joins_def list_ex_iff)

lemma joins_Some:
  "joins repository pr facts issue branch target = Some v \<Longrightarrow>
   rrVerdict v = VerdictContradicted \<and> rrFacts v = facts \<and> rrDetail v \<noteq> []"
  by (auto simp: joins_def split: if_splits)

lemma remotePRLeg_published:
  "remotePRLeg c issue branch claim facts = Inr r \<and> rrVerdict r = VerdictPublished \<longleftrightarrow>
     (\<exists>pr. rkPR c \<lparr>rqIssue = issue, rqRepository = rkRepository c, rqBranch = branch\<rparr> = Inr (Some pr)
        \<and> answersQuery (rkRepository c) pr branch \<and> rmHeadRepository pr = rkRepository c
        \<and> rmBaseBranch pr = rclTargetBranch claim \<and> rmHeadSHA pr = rpfRemoteHead facts
        \<and> ciIdentifier issue \<in> set (rmLinkedIssues pr)
        \<and> r = \<lparr>rrVerdict = VerdictPublished, rrPRURL = rmURL pr, rrDetail = [], rrFacts = facts\<rparr>)"
proof (cases "rkPR c \<lparr>rqIssue = issue, rqRepository = rkRepository c, rqBranch = branch\<rparr>")
  case (Inr found)
  show ?thesis
  proof (cases found)
    case (Some pr)
    note leg = remotePRLeg_def [of c issue branch claim facts, unfolded Inr Some sum.case option.case]
    show ?thesis
      using joins_Some [of "rkRepository c" pr facts issue branch "rclTargetBranch claim" r]
        joins_None [of "rkRepository c" pr facts issue branch "rclTargetBranch claim"]
      unfolding leg Inr Some admitPR_None [symmetric, where 'a = 'a] sum.inject option.inject
      by (auto split: option.split)
  qed (auto simp: remotePRLeg_def Inr)
qed (simp add: remotePRLeg_def)

lemma remoteLegs_published:
  "remoteLegs c issue branch claim facts = Inr r \<and> rrVerdict r = VerdictPublished \<longleftrightarrow>
     advancedPastBase (rpfRemoteHead facts) (rpfDescendsBase facts) (rpfBaseSHA facts)
     \<and> remotePRLeg c issue branch claim facts = Inr r \<and> rrVerdict r = VerdictPublished"
  by (auto simp: remoteLegs_def advancedPastBase_def)

lemma VerifyRemote_Inr:
  "VerifyRemote c issue run = Inr r \<longleftrightarrow>
     (\<exists>claim facts. runRefComplete run \<and> ciIdentifier issue = rcrIssue (rrrClaim run)
        \<and> rkClaim c (rrrClaim run) = Inr claim
        \<and> admitClaim (rkRepository c) claim (rrrClaim run) (remoteBranch (rcrKey (rrrClaim run)))
            = (None :: 'e remoteError option)
        \<and> rkFacts c run = Inr facts
        \<and> admit (rkRepository c) facts run (remoteBranch (rcrKey (rrrClaim run))) claim
            = (None :: 'e remoteError option)
        \<and> remoteLegs c issue (remoteBranch (rcrKey (rrrClaim run))) claim facts = Inr r)"
  for c :: "'e RemoteChecker"
  by (auto simp: VerifyRemote_def Let_def split: sum.splits option.splits)

text \<open>
  C9. A hosted run is judged published exactly on complete evidence: the workspace names its
  target branch; the local branch exists, moved off the claim-time base and descends from it;
  origin was asked and carries that head; and the tracker returned an open pull request on this
  branch into this target, whose link is the reported one. Anything less is another verdict or
  an error.
\<close>

theorem published_iff_all_legs_hold:
  "Verify c issue ws = Inr r \<and> resVerdict r = VerdictPublished \<longleftrightarrow>
     (\<exists>facts pr. ckPublishFacts c ws = Inr facts \<and> AdvancedPastBase facts (wsBaseSHA ws)
        \<and> pfRemoteProbed facts \<and> pfRemoteHead facts \<noteq> [] \<and> pfRemoteHasHead facts
        \<and> ckFindPR c issue (wsBranch ws) = Inr (Some pr) \<and> prqState pr = ''open''
        \<and> prqBranch pr = wsBranch ws \<and> prqBaseBranch pr = wsTargetBranch ws
        \<and> wsTargetBranch ws \<noteq> []
        \<and> r = \<lparr>resVerdict = VerdictPublished, resPRURL = prqURL pr, resDetail = []\<rparr>)"
proof (cases "ckPublishFacts c ws")
  case (Inr facts)
  show ?thesis
  proof (cases "wsTargetBranch ws \<noteq> [] \<and> AdvancedPastBase facts (wsBaseSHA ws) \<and> pfRemoteProbed facts
      \<and> pfRemoteHead facts \<noteq> [] \<and> pfRemoteHasHead facts")
    case True
    then have "Verify c issue ws = verifyPR ws (ckFindPR c issue (wsBranch ws))"
      by (simp add: Verify_def Inr AdvancedPastBase_def advancedPastBase_def)
    then show ?thesis
      unfolding verifyPR_published [of ws "ckFindPR c issue (wsBranch ws)" r, symmetric]
      using True Inr verifyPR_published [of ws "ckFindPR c issue (wsBranch ws)" r] by auto
  next
    case False
    then have "Verify c issue ws = Inr r \<Longrightarrow> resVerdict r \<noteq> VerdictPublished"
      by (auto simp: Verify_def Inr AdvancedPastBase_def advancedPastBase_def split: if_splits)
    then show ?thesis using False Inr by auto
  qed
qed (simp add: Verify_def)

text \<open>
  C10. A remote run is judged published exactly when the evidence the daemon read itself joins
  up: a complete run reference of this issue's claim; a claim record and fresh git facts bound
  to that very claim, run and verification, of this repository, branch and pinned base; a remote
  head that moved off the base and descends from it; and an open pull request from this
  repository's branch, at that head, into the claim's target, that states it closes this issue.
\<close>

theorem remote_published_iff_evidence_joins:
  "VerifyRemote c issue run = Inr r \<and> rrVerdict r = VerdictPublished \<longleftrightarrow>
     (\<exists>claim facts pr. let branch = remoteBranch (rcrKey (rrrClaim run)) in
        runRefComplete run \<and> ciIdentifier issue = rcrIssue (rrrClaim run)
        \<and> rkClaim c (rrrClaim run) = Inr claim \<and> rclRef claim = rrrClaim run
        \<and> rclRepository claim = rkRepository c \<and> rclBranch claim = branch
        \<and> rclTargetBranch claim \<noteq> []
        \<and> rkFacts c run = Inr facts \<and> rpfRun facts = run \<and> rpfRepository facts = rkRepository c
        \<and> rpfBranch facts = branch \<and> rpfBaseSHA facts \<noteq> []
        \<and> rpfBaseSHA facts = rclBaseSHA claim \<and> rpfFetched facts
        \<and> advancedPastBase (rpfRemoteHead facts) (rpfDescendsBase facts) (rpfBaseSHA facts)
        \<and> rkPR c \<lparr>rqIssue = issue, rqRepository = rkRepository c, rqBranch = branch\<rparr> = Inr (Some pr)
        \<and> answersQuery (rkRepository c) pr branch \<and> rmHeadRepository pr = rkRepository c
        \<and> rmBaseBranch pr = rclTargetBranch claim \<and> rmHeadSHA pr = rpfRemoteHead facts
        \<and> ciIdentifier issue \<in> set (rmLinkedIssues pr)
        \<and> r = \<lparr>rrVerdict = VerdictPublished, rrPRURL = rmURL pr, rrDetail = [], rrFacts = facts\<rparr>)"
  (is "_ \<longleftrightarrow> (\<exists>claim facts pr. ?E claim facts pr)")
proof -
  let ?b = "remoteBranch (rcrKey (rrrClaim run))"
  have legs: "remoteLegs c issue ?b claim facts = Inr r \<and> rrVerdict r = VerdictPublished \<longleftrightarrow>
      (\<exists>pr. advancedPastBase (rpfRemoteHead facts) (rpfDescendsBase facts) (rpfBaseSHA facts)
        \<and> rkPR c \<lparr>rqIssue = issue, rqRepository = rkRepository c, rqBranch = ?b\<rparr> = Inr (Some pr)
        \<and> answersQuery (rkRepository c) pr ?b \<and> rmHeadRepository pr = rkRepository c
        \<and> rmBaseBranch pr = rclTargetBranch claim \<and> rmHeadSHA pr = rpfRemoteHead facts
        \<and> ciIdentifier issue \<in> set (rmLinkedIssues pr)
        \<and> r = \<lparr>rrVerdict = VerdictPublished, rrPRURL = rmURL pr, rrDetail = [], rrFacts = facts\<rparr>)"
    for claim facts
    unfolding remoteLegs_published remotePRLeg_published by blast
  show ?thesis
  proof
    assume "VerifyRemote c issue run = Inr r \<and> rrVerdict r = VerdictPublished"
    then show "\<exists>claim facts pr. ?E claim facts pr"
      unfolding VerifyRemote_Inr admitClaim_None admit_None Let_def using legs by metis
  next
    assume "\<exists>claim facts pr. ?E claim facts pr"
    then show "VerifyRemote c issue run = Inr r \<and> rrVerdict r = VerdictPublished"
      unfolding VerifyRemote_Inr admitClaim_None admit_None Let_def using legs by metis
  qed
qed

lemma Verify_verdict:
  "Verify c issue ws = Inr r \<Longrightarrow>
   resVerdict r \<in> {VerdictPublished, VerdictIncomplete, VerdictContradicted}
   \<and> (resVerdict r = VerdictPublished) = (resDetail r = [])"
  by (auto simp: Verify_def verifyPR_def split: sum.splits option.splits if_splits)

lemma remoteLegs_verdict:
  assumes "remoteLegs c issue branch claim facts = Inr r"
  shows "rrVerdict r \<in> {VerdictPublished, VerdictIncomplete, VerdictContradicted}
   \<and> (rrVerdict r = VerdictPublished) = (rrDetail r = []) \<and> rrFacts r = facts"
proof (cases "remoteLegs c issue branch claim facts = remotePRLeg c issue branch claim facts")
  case True
  then show ?thesis
    using assms by (auto simp: remotePRLeg_def dest!: joins_Some split: sum.splits option.splits)
next
  case False
  then show ?thesis using assms by (auto simp: remoteLegs_def split: if_splits)
qed

text \<open>
  Whoever judges an attempt, the answer is a verdict of the closed set or an error: a result
  is never the zero verdict, and it carries an explanation exactly when it is not a publication.
  An attempt that names a remote run is never judged by the check of hosted runs nor the other
  way round, and the facts returned with a remote verdict are bound to exactly the run asked
  about.
\<close>

theorem attempt_is_judged_by_its_own_verifier:
  "case SelectPublication local remote a of
     Inl e \<Rightarrow> True
   | Inr p \<Rightarrow>
       (case atRemote a of
          None \<Rightarrow> (\<exists>c. local = Some c \<and> p = localPublication c (atIssue a) (atWorkspace a))
        | Some run \<Rightarrow> (\<exists>c. remote = Some c \<and> p = remotePublication c (atIssue a) run)
            \<and> atWorkspace a = zeroWorkspace)
       \<and> (case publicationVerify p of
            Inl e \<Rightarrow> True
          | Inr (res, facts) \<Rightarrow>
              resVerdict res \<in> {VerdictPublished, VerdictIncomplete, VerdictContradicted}
              \<and> (resVerdict res = VerdictPublished) = (resDetail res = [])
              \<and> (case atRemote a of None \<Rightarrow> facts = zeroRemoteFacts | Some run \<Rightarrow> rpfRun facts = run))"
proof -
  have l: "case publicationVerify (localPublication c i ws) of Inl e \<Rightarrow> True | Inr (res, facts) \<Rightarrow>
      resVerdict res \<in> {VerdictPublished, VerdictIncomplete, VerdictContradicted}
      \<and> (resVerdict res = VerdictPublished) = (resDetail res = []) \<and> facts = zeroRemoteFacts"
    for c :: "'a Checker" and i ws
    using Verify_verdict [of c i ws] by (auto split: sum.split)
  have r: "case publicationVerify (remotePublication c i run) of Inl e \<Rightarrow> True | Inr (res, facts) \<Rightarrow>
      resVerdict res \<in> {VerdictPublished, VerdictIncomplete, VerdictContradicted}
      \<and> (resVerdict res = VerdictPublished) = (resDetail res = []) \<and> rpfRun facts = run"
    for c :: "'a RemoteChecker" and i run
  proof (cases "VerifyRemote c i run")
    case (Inr res)
    then obtain claim facts where "rpfRun facts = run" "remoteLegs c i (remoteBranch (rcrKey (rrrClaim run))) claim facts = Inr res"
      unfolding VerifyRemote_Inr admit_None by blast
    then show ?thesis using remoteLegs_verdict Inr by (fastforce simp: resultOfRemote_def)
  qed simp
  show ?thesis
  proof (cases "atRemote a")
    case None
    show ?thesis
      unfolding SelectPublication_def None option.case
      by (cases local) (simp_all add: l del: publicationVerify.simps)
  next
    case (Some run)
    show ?thesis
      unfolding SelectPublication_def Some option.case
      by (cases remote) (simp_all add: r del: publicationVerify.simps)
  qed
qed

end
