(* ===== verification/OrchRecover.thy ===== *)
theory OrchRecover
  imports OrchApproval Verify
begin

text \<open>
  \<open>internal/orchestrator/recover_classify.go\<close> with the claim-base predicates of
  \<open>pipeline.go\<close>: what a restarted daemon decides about a claim it finds, from the current
  issue, the change log, the publish evidence, the claim base and the run marker.
\<close>

section \<open>Inputs and verdicts\<close>

record recoveryCandidate =
  rcIssue :: coreIssue
  rcActive :: bool
  rcInPartition :: bool

datatype recoveryMarkerState =
    recoveryMarkerUnresolved | recoveryMarkerFree | recoveryMarkerPossiblyLive
  | recoveryMarkerUnknownLaunch | recoveryMarkerOther int

datatype recoveryAction =
    recoveryActionUnknown | recoveryActionBlocked | recoveryActionWait | recoveryActionApprove
  | recoveryActionBackoff | recoveryActionPark | recoveryActionHold | recoveryActionReleaseKeep
  | recoveryActionReleaseDispose | recoveryActionGone

record recoveryVerdict =
  rvAction :: recoveryAction
  rvProject :: bool
  rvStateLabel :: StateLabel
  rvMilestone :: Milestone
  rvAttemptFloor :: int
  rvCycleAnchor :: tid
  rvOperatorErr :: bool
  rvEpochFault :: bool
  rvDetail :: string

text \<open>A verdict literal with the named fields set and the others zero.\<close>

definition actionOnly :: "recoveryAction \<Rightarrow> tid \<Rightarrow> recoveryVerdict" where
  "actionOnly action anchor =
     \<lparr>rvAction = action, rvProject = False, rvStateLabel = StateLabelNone, rvMilestone = [],
      rvAttemptFloor = 0, rvCycleAnchor = anchor, rvOperatorErr = False, rvEpochFault = False,
      rvDetail = []\<rparr>"

definition parkRecovery :: "tid \<Rightarrow> bool \<Rightarrow> recoveryVerdict" where
  "parkRecovery anchor operatorErr =
     (actionOnly recoveryActionPark anchor)\<lparr>rvProject := True, rvStateLabel := StateLabelNeedsReview,
        rvMilestone := MilestoneNeedsReview, rvOperatorErr := operatorErr\<rparr>"

definition backoffRecovery :: "tid \<Rightarrow> recoveryVerdict" where
  "backoffRecovery anchor =
     (actionOnly recoveryActionBackoff anchor)\<lparr>rvProject := True, rvStateLabel := StateLabelClaimed,
        rvMilestone := MilestoneClaimed, rvAttemptFloor := 2\<rparr>"

definition holdRecovery :: "tid \<Rightarrow> recoveryVerdict" where
  "holdRecovery anchor =
     (actionOnly recoveryActionHold anchor)\<lparr>rvProject := True, rvStateLabel := StateLabelNone,
        rvMilestone := MilestonePublished\<rparr>"

definition epochFaultRecovery :: "tid \<Rightarrow> string \<Rightarrow> recoveryVerdict" where
  "epochFaultRecovery anchor detail =
     (parkRecovery anchor True)\<lparr>rvEpochFault := True, rvDetail := detail\<rparr>"

definition failedRecovery :: "tid \<Rightarrow> recoveryVerdict" where
  "failedRecovery anchor =
     (actionOnly recoveryActionReleaseKeep anchor)\<lparr>rvProject := True,
        rvStateLabel := StateLabelFailed, rvMilestone := MilestoneFailed\<rparr>"

definition approveRecovery :: "tid \<Rightarrow> recoveryVerdict" where
  "approveRecovery anchor = (actionOnly recoveryActionApprove anchor)\<lparr>rvAttemptFloor := 1\<rparr>"

section \<open>State labels on the log\<close>

definition isRecoveryStateLabel :: "runtime \<Rightarrow> string \<Rightarrow> bool" where
  "isRecoveryStateLabel u subject = hasPrefix (toLower u subject) ''ben:''"

definition recoveryStateLabel :: "runtime \<Rightarrow> string \<Rightarrow> StateLabel \<times> bool" where
  "recoveryStateLabel u subject =
     (case firstSuch (\<lambda>label. equalFold u subject (''ben:'' @ label))
             [StateLabelClaimed, StateLabelRunning, StateLabelNeedsReview, StateLabelFailed] of
        Some label \<Rightarrow> (label, True)
      | None \<Rightarrow> (StateLabelNone, False))"

record recoveryProjection =
  pjStanding :: bool
  pjEffective :: StateLabel
  pjEffectiveKnown :: bool
  pjSawLabeled :: bool
  pjLastWasRemoval :: bool
  pjLastRemoved :: StateLabel
  pjLastRemovedKnown :: bool

record standingRecoveryLabel =
  srKey :: string
  srLabel :: StateLabel
  srKnown :: bool
  srOrder :: int

definition zeroProjection :: recoveryProjection where
  "zeroProjection = \<lparr>pjStanding = False, pjEffective = StateLabelNone, pjEffectiveKnown = False,
     pjSawLabeled = False, pjLastWasRemoval = False, pjLastRemoved = StateLabelNone,
     pjLastRemovedKnown = False\<rparr>"

text \<open>
  The map of standing labels is an association list with one entry per key; the order of the
  entries does not matter, because the scan at the end takes the one labeled last.
\<close>

fun projectionLoop ::
  "runtime \<Rightarrow> tid \<Rightarrow> int \<Rightarrow> standingRecoveryLabel list \<Rightarrow> recoveryProjection \<Rightarrow> ClaimEvent list
   \<Rightarrow> standingRecoveryLabel list \<times> recoveryProjection" where
  "projectionLoop u anchor order standing out [] = (standing, out)"
| "projectionLoop u anchor order standing out (event # events) =
     (if ceID event < anchor \<or> \<not> isRecoveryStateLabel u (ceSubject event) then
        projectionLoop u anchor (order + 1) standing out events
      else let key = toLower u (ceSubject event);
               (label, known) = recoveryStateLabel u (ceSubject event);
               others = filter (\<lambda>s. srKey s \<noteq> key) standing
        in if ceKind event = ClaimEventLabeled then
             projectionLoop u anchor (order + 1)
               (others @ [\<lparr>srKey = key, srLabel = label, srKnown = known, srOrder = order\<rparr>])
               (out\<lparr>pjSawLabeled := True, pjLastWasRemoval := False\<rparr>) events
           else if ceKind event = ClaimEventUnlabeled then
             projectionLoop u anchor (order + 1) others
               (out\<lparr>pjLastWasRemoval := True, pjLastRemoved := label, pjLastRemovedKnown := known\<rparr>)
               events
           else projectionLoop u anchor (order + 1) standing out events)"

fun latestLabel ::
  "int \<Rightarrow> recoveryProjection \<Rightarrow> standingRecoveryLabel list \<Rightarrow> recoveryProjection" where
  "latestLabel latest out [] = out"
| "latestLabel latest out (s # ss) =
     (if srOrder s \<le> latest then latestLabel latest out ss
      else latestLabel (srOrder s)
             (out\<lparr>pjStanding := True, pjEffective := srLabel s, pjEffectiveKnown := srKnown s\<rparr>) ss)"

definition replayRecoveryProjection :: "runtime \<Rightarrow> ClaimEvent list \<Rightarrow> tid \<Rightarrow> recoveryProjection" where
  "replayRecoveryProjection u events anchor =
     (let (standing, out) = projectionLoop u anchor 0 [] zeroProjection events
      in latestLabel (-1) out standing)"

section \<open>Arbitration between assignees\<close>

definition solePrincipal :: "runtime \<Rightarrow> string list \<Rightarrow> string \<Rightarrow> bool" where
  "solePrincipal u assignees who =
     (let logins = remdups (map (toLower u) assignees)
      in if length logins \<noteq> 1 then False else toLower u who \<in> set logins)"

datatype recoveryArbitration =
    recoveryArbitrationUnknown | recoveryArbitrationOurs | recoveryArbitrationOther
  | recoveryArbitrationUnorderable

record recoveryAssignment =
  raAt :: time
  raID :: tid

definition raBefore :: "recoveryAssignment \<Rightarrow> recoveryAssignment \<Rightarrow> bool" where
  "raBefore a b = (if raAt a \<noteq> raAt b then raAt a < raAt b else raID a < raID b)"

definition sameOrder :: "recoveryAssignment \<Rightarrow> recoveryAssignment \<Rightarrow> bool" where
  "sameOrder a b \<longleftrightarrow> raAt a = raAt b \<and> raID a = raID b"

text \<open>The two maps of the replay: who holds an assignment since when, and who was seen.\<close>

definition holdStep ::
  "runtime \<Rightarrow> ClaimEvent \<Rightarrow> (string \<Rightarrow> recoveryAssignment option) \<times> (string \<Rightarrow> bool)
   \<Rightarrow> (string \<Rightarrow> recoveryAssignment option) \<times> (string \<Rightarrow> bool)" where
  "holdStep u event st =
     (let (held, seen) = st; login = toLower u (ceSubject event) in
      if login = [] then st
      else if ceKind event = ClaimEventAssigned then
        ((if held login = None then held(login \<mapsto> \<lparr>raAt = ceAt event, raID = ceID event\<rparr>) else held),
         seen(login := True))
      else if ceKind event = ClaimEventUnassigned then (held(login := None), seen(login := True))
      else st)"

definition replayHeld ::
  "runtime \<Rightarrow> ClaimEvent list \<Rightarrow> (string \<Rightarrow> recoveryAssignment option) \<times> (string \<Rightarrow> bool)" where
  "replayHeld u events = fold (holdStep u) events (Map.empty, \<lambda>login. False)"

text \<open>The contenders among the assignees; \<open>None\<close> is the early unorderable return.\<close>

fun contendersLoop ::
  "runtime \<Rightarrow> (string \<Rightarrow> recoveryAssignment option) \<Rightarrow> (string \<Rightarrow> bool) \<Rightarrow> string list
   \<Rightarrow> (string \<times> recoveryAssignment) list \<Rightarrow> string list
   \<Rightarrow> (string \<times> recoveryAssignment) list option" where
  "contendersLoop u held seen current acc [] = Some acc"
| "contendersLoop u held seen current acc (assignee # assignees) =
     (let login = toLower u assignee in
      if login \<in> set current then contendersLoop u held seen current acc assignees
      else case held login of
        None \<Rightarrow> if seen login then contendersLoop u held seen (login # current) acc assignees else None
      | Some assigned \<Rightarrow>
          contendersLoop u held seen (login # current) (acc @ [(login, assigned)]) assignees)"

fun bestLoop :: "recoveryAssignment \<Rightarrow> (string \<times> recoveryAssignment) list \<Rightarrow> recoveryAssignment" where
  "bestLoop best [] = best"
| "bestLoop best (c # cs) = bestLoop (if raBefore (snd c) best then snd c else best) cs"

fun winnerLoop ::
  "recoveryAssignment \<Rightarrow> string \<Rightarrow> (string \<times> recoveryAssignment) list \<Rightarrow> string option" where
  "winnerLoop best winner [] = Some winner"
| "winnerLoop best winner (c # cs) =
     (if \<not> sameOrder (snd c) best then winnerLoop best winner cs
      else if winner \<noteq> [] \<and> fst c \<noteq> winner then None
      else winnerLoop best (fst c) cs)"

definition arbitrationWinner :: "runtime \<Rightarrow> ClaimEvent list \<Rightarrow> string list \<Rightarrow> string option" where
  "arbitrationWinner u events assignees =
     (let (held, seen) = replayHeld u events in
      case contendersLoop u held seen [] [] assignees of
        None \<Rightarrow> None
      | Some [] \<Rightarrow> None
      | Some (c # cs) \<Rightarrow> winnerLoop (bestLoop (snd c) cs) [] (c # cs))"

definition arbitrateRecovery ::
  "runtime \<Rightarrow> ClaimEvent list \<Rightarrow> string list \<Rightarrow> string \<Rightarrow> recoveryArbitration" where
  "arbitrateRecovery u events assignees who =
     (case arbitrationWinner u events assignees of
        None \<Rightarrow> recoveryArbitrationUnorderable
      | Some winner \<Rightarrow>
          if equalFold u winner who then recoveryArbitrationOurs else recoveryArbitrationOther)"

section \<open>Classification\<close>

definition classifyActiveRecoveryProjection :: "tid \<Rightarrow> evidence \<Rightarrow> recoveryVerdict" where
  "classifyActiveRecoveryProjection anchor evidence =
     (case evidence of
        VerdictPublished \<Rightarrow> holdRecovery anchor
      | VerdictIncomplete \<Rightarrow> backoffRecovery anchor
      | VerdictContradicted \<Rightarrow> backoffRecovery anchor
      | _ \<Rightarrow> actionOnly recoveryActionBlocked anchor)"

definition classifyRemovedProjection :: "recoveryProjection \<Rightarrow> tid \<Rightarrow> evidence \<Rightarrow> recoveryVerdict" where
  "classifyRemovedProjection projection anchor evidence =
     (if pjLastRemoved projection = StateLabelNeedsReview then backoffRecovery anchor
      else if pjLastRemoved projection = StateLabelFailed then
        actionOnly recoveryActionReleaseKeep anchor
      else if pjLastRemoved projection = StateLabelClaimed
           \<or> pjLastRemoved projection = StateLabelRunning then
        (case evidence of
           VerdictPublished \<Rightarrow> holdRecovery anchor
         | VerdictIncomplete \<Rightarrow> parkRecovery anchor False
         | VerdictContradicted \<Rightarrow> parkRecovery anchor False
         | _ \<Rightarrow> actionOnly recoveryActionBlocked anchor)
      else parkRecovery anchor True)"

definition classifyProjection :: "recoveryProjection \<Rightarrow> tid \<Rightarrow> evidence \<Rightarrow> recoveryVerdict" where
  "classifyProjection projection anchor evidence =
     (if pjStanding projection then
        if \<not> pjEffectiveKnown projection then parkRecovery anchor True
        else if pjEffective projection = StateLabelFailed then failedRecovery anchor
        else if pjEffective projection = StateLabelNeedsReview then parkRecovery anchor False
        else if pjEffective projection = StateLabelClaimed
             \<or> pjEffective projection = StateLabelRunning then
          classifyActiveRecoveryProjection anchor evidence
        else parkRecovery anchor True
      else if \<not> pjSawLabeled projection then approveRecovery anchor
      else if \<not> pjLastWasRemoval projection \<or> \<not> pjLastRemovedKnown projection then
        parkRecovery anchor True
      else classifyRemovedProjection projection anchor evidence)"

definition classifyRecoveryFacts ::
  "runtime \<Rightarrow> recoveryCandidate \<Rightarrow> ClaimEvent list \<Rightarrow> evidence \<Rightarrow> string \<Rightarrow> recoveryVerdict" where
  "classifyRecoveryFacts u candidate events evidence who =
     (let anchor = claimCycleAnchor u events who;
          rest = (if anchor = 0 then parkRecovery 0 True
                  else if \<not> rcInPartition candidate then actionOnly recoveryActionReleaseKeep anchor
                  else classifyProjection (replayRecoveryProjection u events anchor) anchor evidence)
      in if \<not> rcActive candidate \<or> closedInCycle events anchor then
           actionOnly recoveryActionReleaseDispose anchor
         else if \<not> solePrincipal u (ciAssignees (rcIssue candidate)) who then
           (case arbitrateRecovery u events (ciAssignees (rcIssue candidate)) who of
              recoveryArbitrationOurs \<Rightarrow> rest
            | recoveryArbitrationOther \<Rightarrow> actionOnly recoveryActionReleaseKeep anchor
            | recoveryArbitrationUnorderable \<Rightarrow> parkRecovery anchor True
            | _ \<Rightarrow> actionOnly recoveryActionBlocked anchor)
         else rest)"

definition classifyRecoveryTrackerGates ::
  "runtime \<Rightarrow> recoveryCandidate \<Rightarrow> ClaimEvent list \<Rightarrow> string \<Rightarrow> recoveryVerdict \<times> bool \<times> tid" where
  "classifyRecoveryTrackerGates u candidate events who =
     (let anchor = claimCycleAnchor u events who;
          rest = (if anchor = 0 then (parkRecovery 0 True, True, 0)
                  else if \<not> rcInPartition candidate then
                    (actionOnly recoveryActionReleaseKeep anchor, True, anchor)
                  else (actionOnly recoveryActionUnknown 0, False, anchor))
      in if \<not> rcActive candidate \<or> closedInCycle events anchor then
           (actionOnly recoveryActionReleaseDispose anchor, True, anchor)
         else if \<not> solePrincipal u (ciAssignees (rcIssue candidate)) who then
           (case arbitrateRecovery u events (ciAssignees (rcIssue candidate)) who of
              recoveryArbitrationOurs \<Rightarrow> rest
            | recoveryArbitrationOther \<Rightarrow> (actionOnly recoveryActionReleaseKeep anchor, True, anchor)
            | recoveryArbitrationUnorderable \<Rightarrow> (parkRecovery anchor True, True, anchor)
            | _ \<Rightarrow> (actionOnly recoveryActionBlocked anchor, True, anchor))
         else rest)"


section \<open>The claim base\<close>

definition claimBasePinsEpoch :: "ClaimBase \<Rightarrow> tid \<Rightarrow> bool" where
  "claimBasePinsEpoch state epoch \<longleftrightarrow>
     epoch > 0 \<and> cbState state = ClaimBasePinned \<and> cbEpoch state = epoch
     \<and> cbBaseSHA state \<noteq> [] \<and> cbTargetBranch state \<noteq> []"

definition claimBaseAllowsPrepare :: "ClaimBase \<Rightarrow> tid \<Rightarrow> bool \<Rightarrow> bool" where
  "claimBaseAllowsPrepare state epoch readErr =
     (if readErr \<or> epoch \<le> 0 \<or> cbEpoch state \<noteq> epoch then False
      else cbState state = ClaimBasePending \<or> claimBasePinsEpoch state epoch)"

definition claimBaseAuthorizesWorkspace :: "ClaimBase \<Rightarrow> Workspace \<Rightarrow> bool" where
  "claimBaseAuthorizesWorkspace state ws \<longleftrightarrow>
     wsClaimEpoch ws > 0 \<and> wsBaseSHA ws \<noteq> [] \<and> wsTargetBranch ws \<noteq> []
     \<and> claimBasePinsEpoch state (wsClaimEpoch ws)
     \<and> cbBaseSHA state = wsBaseSHA ws \<and> cbTargetBranch state = wsTargetBranch ws"

definition legacyClaimBaseCanUpgrade :: "ClaimBase \<Rightarrow> tid \<Rightarrow> bool" where
  "legacyClaimBaseCanUpgrade state epoch \<longleftrightarrow>
     epoch > 0 \<and> cbState state = ClaimBasePinned \<and> cbEpoch state > 0
     \<and> cbEpoch state \<noteq> epoch \<and> cbBaseSHA state \<noteq> [] \<and> cbTargetBranch state = []"

fun runningLoop :: "runtime \<Rightarrow> tid \<Rightarrow> bool \<Rightarrow> ClaimEvent list \<Rightarrow> bool" where
  "runningLoop u anchor anchored [] = False"
| "runningLoop u anchor anchored (event # events) =
     (if \<not> anchored then
        runningLoop u anchor (ceKind event = ClaimEventAssigned \<and> ceID event = anchor) events
      else if ceKind event \<noteq> ClaimEventLabeled then runningLoop u anchor anchored events
      else let (label, known) = recoveryStateLabel u (ceSubject event) in
        if known \<and> label = StateLabelRunning then True else runningLoop u anchor anchored events)"

definition currentCycleRunningEvidence :: "runtime \<Rightarrow> ClaimEvent list \<Rightarrow> tid \<Rightarrow> bool" where
  "currentCycleRunningEvidence u events anchor =
     (if anchor \<le> 0 then False else runningLoop u anchor False events)"

text \<open>\<open>readErr\<close> and \<open>markerErr\<close> say that the reads returned an error.\<close>

definition classifyRecoveryClaimBase ::
  "tid \<Rightarrow> ClaimBase \<Rightarrow> bool \<Rightarrow> RunMarkerState \<Rightarrow> bool \<Rightarrow> bool \<Rightarrow> recoveryVerdict \<times> bool" where
  "classifyRecoveryClaimBase anchor state readErr marker markerErr runningEvidence =
     (if readErr then (epochFaultRecovery anchor ''claim-base state is unreadable'', True)
      else if claimBasePinsEpoch state anchor then (actionOnly recoveryActionUnknown 0, False)
      else if cbState state = ClaimBasePending \<and> cbEpoch state = anchor then
        if runningEvidence then
          (epochFaultRecovery anchor ''pending claim epoch has current-cycle running evidence'', True)
        else if markerErr then (actionOnly recoveryActionBlocked anchor, True)
        else (case marker of
                RunMarkerAbsent \<Rightarrow> (approveRecovery anchor, True)
              | RunMarkerIdentified \<Rightarrow>
                  (epochFaultRecovery anchor ''pending claim epoch has a run-marker entry'', True)
              | RunMarkerUnknownLaunch \<Rightarrow>
                  (epochFaultRecovery anchor ''pending claim epoch has a run-marker entry'', True)
              | _ \<Rightarrow> (actionOnly recoveryActionBlocked anchor, True))
      else (epochFaultRecovery anchor
              ''claim-base state is absent, malformed, or belongs to another epoch'', True))"

section \<open>Gates and authority\<close>

named_theorems recovery_verdicts \<open>the actions and anchors of the verdict literals\<close>

lemma verdict_actions [simp, recovery_verdicts]:
  "rvAction (actionOnly a n) = a" "rvAction (parkRecovery n e) = recoveryActionPark"
  "rvAction (backoffRecovery n) = recoveryActionBackoff" "rvAction (holdRecovery n) = recoveryActionHold"
  "rvAction (failedRecovery n) = recoveryActionReleaseKeep"
  "rvAction (approveRecovery n) = recoveryActionApprove"
  "rvAction (epochFaultRecovery n d) = recoveryActionPark"
  by (simp_all add: actionOnly_def parkRecovery_def backoffRecovery_def holdRecovery_def
      failedRecovery_def approveRecovery_def epochFaultRecovery_def)

lemma verdict_projects [simp, recovery_verdicts]:
  "\<not> rvProject (actionOnly a n)" "\<not> rvProject (approveRecovery n)"
  by (simp_all add: actionOnly_def approveRecovery_def)

lemma Facts_by_gates:
  "classifyRecoveryFacts u candidate events evidence who =
     (case classifyRecoveryTrackerGates u candidate events who of (v, resolved, anchor) \<Rightarrow>
        if resolved then v
        else classifyProjection (replayRecoveryProjection u events anchor) anchor evidence)"
  by (simp add: classifyRecoveryFacts_def classifyRecoveryTrackerGates_def Let_def
      split: recoveryArbitration.split)

text \<open>What an unresolved gate has established: the claim is ours, active and in the partition.\<close>

definition claimStands :: "runtime \<Rightarrow> recoveryCandidate \<Rightarrow> ClaimEvent list \<Rightarrow> string \<Rightarrow> bool" where
  "claimStands u candidate events who \<longleftrightarrow>
     rcActive candidate \<and> rcInPartition candidate \<and> claimCycleAnchor u events who \<noteq> 0
     \<and> \<not> closedInCycle events (claimCycleAnchor u events who)
     \<and> (solePrincipal u (ciAssignees (rcIssue candidate)) who
        \<or> arbitrateRecovery u events (ciAssignees (rcIssue candidate)) who = recoveryArbitrationOurs)"

lemma Gates_unresolved:
  "classifyRecoveryTrackerGates u candidate events who = (v, False, anchor) \<Longrightarrow>
   claimStands u candidate events who \<and> anchor = claimCycleAnchor u events who"
  by (auto simp: classifyRecoveryTrackerGates_def claimStands_def Let_def
      split: if_splits recoveryArbitration.splits)



text \<open>
  The gates recovery runs before it touches provider state and the classifier that repeats
  them always give the same answer: when the gates resolve a claim, the classifier returns
  exactly that verdict for any evidence; when they do not, the claim is active, in the
  workflow's partition, established in the log and ours, the reported anchor is the claim's,
  and the classifier's verdict is the projection table's at that anchor.
\<close>

theorem tracker_gates_agree:
  "case classifyRecoveryTrackerGates u candidate events who of (v, resolved, anchor) \<Rightarrow>
     if resolved then classifyRecoveryFacts u candidate events evidence who = v
     else claimStands u candidate events who \<and> anchor = claimCycleAnchor u events who
        \<and> classifyRecoveryFacts u candidate events evidence who
          = classifyProjection (replayRecoveryProjection u events anchor) anchor evidence"
  using Gates_unresolved [of u candidate events who]
  by (cases "classifyRecoveryTrackerGates u candidate events who") (simp add: Facts_by_gates)


text \<open>
  Before publish evidence is even asked for, the durable claim base must pin this very
  claim: recovery continues to the projection table only when the base was read, is pinned for
  the claim's epoch and names base commit and target; it returns to the approval check only for
  a pending base of this epoch with no sign that a run was launched; and everything else parks
  with an epoch fault or stays blocked.
\<close>

theorem claim_base_guards_recovery:
  "case classifyRecoveryClaimBase anchor state readErr marker markerErr runningEvidence of (v, resolved) \<Rightarrow>
     (\<not> resolved) = (readErr = False \<and> claimBasePinsEpoch state anchor)
   \<and> (rvAction v = recoveryActionApprove) = (readErr = False \<and> cbState state = ClaimBasePending
        \<and> cbEpoch state = anchor \<and> runningEvidence = False \<and> markerErr = False
        \<and> marker = RunMarkerAbsent)
   \<and> (if resolved then rvAction v \<in> {recoveryActionApprove, recoveryActionBlocked}
        \<or> rvAction v = recoveryActionPark \<and> rvEpochFault v \<and> rvOperatorErr v else True)"
  by (auto simp: classifyRecoveryClaimBase_def claimBasePinsEpoch_def epochFaultRecovery_def
      parkRecovery_def actionOnly_def approveRecovery_def split: RunMarkerState.split)

end
