(* ===== verification/OrchRecoverFacts.thy ===== *)
theory OrchRecoverFacts
  imports OrchRecover
begin

text \<open>
  What the two replays of the recovery classifier compute: the arbitration between several
  assignees, and the projection of the state labels of the claim cycle.
\<close>

section \<open>Arbitration\<close>

definition heldBy :: "runtime \<Rightarrow> ClaimEvent list \<Rightarrow> string \<Rightarrow> recoveryAssignment option" where
  "heldBy u events = fst (replayHeld u events)"

definition seenOn :: "runtime \<Rightarrow> ClaimEvent list \<Rightarrow> string \<Rightarrow> bool" where
  "seenOn u events = snd (replayHeld u events)"

lemma holdStep_nonempty:
  "fst st [] = None \<Longrightarrow> fst (holdStep u ev st) [] = None"
  by (auto simp: holdStep_def Let_def split: prod.splits)

lemma heldBy_nonempty: "heldBy u events l = Some a \<Longrightarrow> l \<noteq> []"
proof -
  have "fst (fold (holdStep u) events st) [] = None" if "fst st [] = None" for st
    using that holdStep_nonempty by (induction events arbitrary: st) auto
  from this [of "(Map.empty, \<lambda>login. False)"] have "heldBy u events [] = None"
    by (simp add: heldBy_def replayHeld_def)
  then show "heldBy u events l = Some a \<Longrightarrow> l \<noteq> []" by auto
qed

lemma raBefore_trans: "raBefore a b \<Longrightarrow> raBefore b c \<Longrightarrow> raBefore a c"
  by (auto simp: raBefore_def split: if_splits)

lemma sameOrder_iff: "sameOrder a b \<longleftrightarrow> a = b"
  by (cases a; cases b) (auto simp: sameOrder_def)

lemma raBefore_total: "\<not> raBefore a b \<Longrightarrow> \<not> raBefore b a \<Longrightarrow> a = b"
  by (cases a; cases b) (auto simp: raBefore_def split: if_splits)

lemma contenders_None:
  "contendersLoop u held seen current acc as = None \<longleftrightarrow>
     (\<exists>l\<in>toLower u ` set as. l \<notin> set current \<and> (held l = None \<and> \<not> seen l))"
proof (induction as arbitrary: current acc)
  case (Cons x as)
  define bad where "bad l \<longleftrightarrow> held l = None \<and> \<not> seen l" for l
  let ?x = "toLower u x"
  show ?case
  proof (cases "?x \<in> set current \<or> bad ?x")
    case True
    then show ?thesis using Cons.IH by (auto simp: Let_def bad_def)
  next
    case False
    then have "\<exists>acc'. contendersLoop u held seen current acc (x # as)
        = contendersLoop u held seen (?x # current) acc' as"
      by (cases "held ?x") (auto simp: Let_def bad_def)
    then obtain acc' where step: "contendersLoop u held seen current acc (x # as)
        = contendersLoop u held seen (?x # current) acc' as"
      by blast
    have "l \<notin> set (?x # current) \<and> bad l \<longleftrightarrow> l \<notin> set current \<and> bad l" for l
      using False by auto
    then show ?thesis
      unfolding step Cons.IH bad_def [symmetric] using False by simp
  qed
qed simp

lemma contenders_Some:
  "contendersLoop u held seen current acc as = Some cs \<Longrightarrow>
   set cs = set acc \<union> {(l, a). l \<in> toLower u ` set as \<and> l \<notin> set current \<and> held l = Some a}"
proof (induction as arbitrary: current acc)
  case (Cons x as)
  show ?case
  proof (cases "toLower u x \<in> set current")
    case True
    then show ?thesis using Cons.IH [of current acc] Cons.prems by (auto simp: Let_def)
  next
    case new: False
    show ?thesis
    proof (cases "held (toLower u x)")
      case None
      then have "contendersLoop u held seen (toLower u x # current) acc as = Some cs"
        using Cons.prems new by (simp add: Let_def split: if_splits)
      then show ?thesis using Cons.IH None by fastforce
    next
      case (Some a)
      then have "contendersLoop u held seen (toLower u x # current) (acc @ [(toLower u x, a)]) as = Some cs"
        using Cons.prems new by (simp add: Let_def)
      then show ?thesis using Cons.IH Some new by fastforce
    qed
  qed
qed simp

lemma bestLoop_least:
  "bestLoop b cs \<in> insert b (snd ` set cs) \<and> (\<forall>x\<in>insert b (snd ` set cs). \<not> raBefore x (bestLoop b cs))"
proof (induction cs arbitrary: b)
  case Nil
  then show ?case by (simp add: raBefore_def)
next
  case (Cons c cs)
  let ?b = "if raBefore (snd c) b then snd c else b"
  have low: "\<not> raBefore b r \<and> \<not> raBefore (snd c) r" if "\<not> raBefore ?b r" for r
    using that raBefore_trans [of "snd c" b r] raBefore_trans [of b "snd c" r]
      raBefore_total [of "snd c" b] by (cases "raBefore (snd c) b") auto
  have step: "bestLoop b (c # cs) = bestLoop ?b cs" by simp
  have "bestLoop ?b cs \<in> insert b (snd ` set (c # cs))"
    using conjunct1 [OF Cons.IH [of ?b]] by (auto split: if_splits)
  moreover have "\<not> raBefore x (bestLoop ?b cs)" if "x \<in> insert b (snd ` set (c # cs))" for x
    using that conjunct2 [OF Cons.IH [of ?b]] low [of "bestLoop ?b cs"] by auto
  ultimately show ?case unfolding step by blast
qed

lemma winnerLoop_iff:
  assumes "\<forall>c\<in>set cs. fst c \<noteq> []"
  shows "winnerLoop best w0 cs = Some w \<longleftrightarrow>
    (let E = {l. (l, best) \<in> set cs} in
     if w0 = [] then E = {} \<and> w = [] \<or> E = {w} else E \<subseteq> {w0} \<and> w = w0)"
  using assms
proof (induction cs arbitrary: w0)
  case Nil
  then show ?case by auto
next
  case (Cons c cs)
  obtain l a where c: "c = (l, a)" by force
  have l: "l \<noteq> []" using Cons.prems c by simp
  show ?case
  proof (cases "a = best")
    case False
    then have "{m. (m, best) \<in> set (c # cs)} = {m. (m, best) \<in> set cs}" using c by auto
    then show ?thesis using Cons False c by (simp add: sameOrder_iff)
  next
    case True
    then have E: "{m. (m, best) \<in> set (c # cs)} = insert l {m. (m, best) \<in> set cs}" using c by auto
    show ?thesis
      unfolding E using Cons True c l by (auto simp: sameOrder_iff Let_def)
  qed
qed

lemma arbitrationWinner_iff:
  "arbitrationWinner u events as = Some w \<longleftrightarrow>
     (\<forall>l\<in>toLower u ` set as. heldBy u events l \<noteq> None \<or> seenOn u events l)
     \<and> (\<exists>a. w \<in> toLower u ` set as \<and> heldBy u events w = Some a
          \<and> (\<forall>l\<in>toLower u ` set as. \<forall>b. heldBy u events l = Some b \<longrightarrow> l = w \<or> raBefore a b))"
    (is "?L \<longleftrightarrow> ?all \<and> ?win")
proof (cases "contendersLoop u (heldBy u events) (seenOn u events) [] [] as")
  case None
  then have "\<not> ?all" unfolding contenders_None by auto
  then show ?thesis using None by (simp add: arbitrationWinner_def heldBy_def seenOn_def case_prod_beta)
next
  case (Some cs)
  have all: ?all using contenders_None [of u "heldBy u events" "seenOn u events" "[]" "[]" as] Some by auto
  have set: "set cs = {(l, a). l \<in> toLower u ` set as \<and> heldBy u events l = Some a}"
    using contenders_Some [OF Some] by simp
  have ne: "\<forall>c\<in>set cs. fst c \<noteq> []"
    using set heldBy_nonempty [of u events "[]"] by fastforce
  show ?thesis
  proof (cases cs)
    case Nil
    then have "\<not> ?L"
      using Some by (simp add: arbitrationWinner_def heldBy_def seenOn_def case_prod_beta)
    moreover have "\<not> ?win" using set Nil by auto
    ultimately show ?thesis by blast
  next
    case (Cons c cs')
    let ?best = "bestLoop (snd c) cs'"
    have L: "?L \<longleftrightarrow> winnerLoop ?best [] cs = Some w"
      using Some Cons by (simp add: arbitrationWinner_def heldBy_def seenOn_def case_prod_beta)
    have best: "?best \<in> snd ` set cs" "\<forall>x\<in>snd ` set cs. \<not> raBefore x ?best"
      using bestLoop_least [of "snd c" cs'] Cons by auto
    then obtain m where m: "(m, ?best) \<in> set cs" by auto
    have "?L \<longleftrightarrow> {l. (l, ?best) \<in> set cs} = {w}"
      unfolding L winnerLoop_iff [OF ne] Let_def using m by auto
    also have "\<dots> \<longleftrightarrow> ?win"
    proof
      assume w: "{l. (l, ?best) \<in> set cs} = {w}"
      then have "(w, ?best) \<in> set cs" by auto
      moreover have "raBefore ?best b" if "(l, b) \<in> set cs" "l \<noteq> w" for l b
      proof (rule ccontr)
        assume "\<not> raBefore ?best b"
        moreover have "\<not> raBefore b ?best" using best(2) that(1) by force
        ultimately have "b = ?best" using raBefore_total by blast
        then have "l \<in> {l. (l, ?best) \<in> set cs}" using that(1) by simp
        then show False unfolding w using that(2) by simp
      qed
      ultimately have "w \<in> toLower u ` set as \<and> heldBy u events w = Some ?best
          \<and> (\<forall>l\<in>toLower u ` set as. \<forall>b. heldBy u events l = Some b \<longrightarrow> l = w \<or> raBefore ?best b)"
        unfolding set by auto
      then show ?win by (rule exI)
    next
      assume ?win
      then obtain a where a: "(w, a) \<in> set cs" "\<forall>l b. (l, b) \<in> set cs \<longrightarrow> l = w \<or> raBefore a b"
        using set by blast
      have "\<not> raBefore a ?best" using best(2) a(1) by (metis image_eqI snd_conv)
      then have "m = w" using a(2) m by blast
      moreover have "l = w" if "(l, ?best) \<in> set cs" for l
        using that a(2) \<open>\<not> raBefore a ?best\<close> by blast
      ultimately show "{l. (l, ?best) \<in> set cs} = {w}" using m by auto
    qed
    finally show ?thesis using all by blast
  qed
qed

text \<open>
  C27. When several parties are assigned at a restart, at most one daemon keeps the claim. The
  one that does holds an assignment on the log that is strictly earlier, by time and then by
  event id, than every other assignee's standing assignment; and any other daemon that reads
  the same log, whatever the order, case and repetitions of the assignees it sees, keeps the
  claim only if it acts for the same login.
\<close>

theorem one_daemon_keeps_the_claim:
  assumes "arbitrateRecovery u events assignees who = recoveryArbitrationOurs"
  shows "(\<exists>login a. login \<in> toLower u ` set assignees \<and> equalFold u login who
      \<and> heldBy u events login = Some a
      \<and> (\<forall>other\<in>toLower u ` set assignees. other \<noteq> login \<longrightarrow>
           (case heldBy u events other of None \<Rightarrow> seenOn u events other | Some b \<Rightarrow> raBefore a b)))
    \<and> (\<forall>assignees' who'. toLower u ` set assignees' = toLower u ` set assignees
        \<and> arbitrateRecovery u events assignees' who' = recoveryArbitrationOurs
        \<longrightarrow> equalFold u who who')"
proof -
  obtain w where w: "arbitrationWinner u events assignees = Some w" "equalFold u w who"
    using assms by (auto simp: arbitrateRecovery_def split: option.splits if_splits)
  then obtain a where all: "\<forall>l\<in>toLower u ` set assignees. heldBy u events l \<noteq> None \<or> seenOn u events l"
    and a: "w \<in> toLower u ` set assignees" "heldBy u events w = Some a"
      "\<forall>l\<in>toLower u ` set assignees. \<forall>b. heldBy u events l = Some b \<longrightarrow> l = w \<or> raBefore a b"
    unfolding arbitrationWinner_iff by blast
  have "case heldBy u events other of None \<Rightarrow> seenOn u events other | Some b \<Rightarrow> raBefore a b"
    if "other \<in> toLower u ` set assignees" "other \<noteq> w" for other
    using that all a(3) by (cases "heldBy u events other") auto
  moreover have "equalFold u who who'"
    if "toLower u ` set as' = toLower u ` set assignees"
      "arbitrateRecovery u events as' who' = recoveryArbitrationOurs" for as' who'
  proof -
    have "arbitrationWinner u events as' = Some w"
      using w(1) unfolding arbitrationWinner_iff that(1) by blast
    then have "equalFold u w who'"
      using that(2) by (simp add: arbitrateRecovery_def split: if_splits)
    then show ?thesis using w(2) equal_fold.same_sym equal_fold.same_trans by blast
  qed
  ultimately show ?thesis using a(1,2) w(2) by blast
qed

definition demoRace :: "ClaimEvent list" where
  "demoRace =
     [\<lparr>ceKind = ClaimEventAssigned, ceActor = ''bot'', ceSubject = ''Bot'', ceAt = 5, ceID = 21\<rparr>,
      \<lparr>ceKind = ClaimEventAssigned, ceActor = ''two'', ceSubject = ''two'', ceAt = 5, ceID = 22\<rparr>]"

theorem one_daemon_keeps_the_claim_witness:
  "arbitrateRecovery logRuntime demoRace [''two'', ''bot''] ''BOT'' = recoveryArbitrationOurs
   \<and> arbitrateRecovery logRuntime demoRace [''bot'', ''two''] ''two'' \<noteq> recoveryArbitrationOurs"
proof -
  have ours: "arbitrateRecovery logRuntime demoRace [''two'', ''bot''] ''BOT'' = recoveryArbitrationOurs"
    by code_simp
  have "\<not> equalFold logRuntime ''BOT'' ''two''" by code_simp
  moreover have "toLower logRuntime ` set [''bot'', ''two''] = toLower logRuntime ` set [''two'', ''bot'']"
    by auto
  ultimately show ?thesis
    using one_daemon_keeps_the_claim [OF ours] ours by blast
qed

section \<open>The projection of the state labels\<close>

lemma projectionLoop_append:
  "projectionLoop u anchor order standing out (xs @ ys) =
     (case projectionLoop u anchor order standing out xs of (st, out') \<Rightarrow>
        projectionLoop u anchor (order + int (length xs)) st out' ys)"
  by (induction xs arbitrary: order standing out)
    (simp_all add: Let_def case_prod_beta algebra_simps)

lemma projectionLoop_Cons:
  "\<exists>standing' out'. projectionLoop u anchor order standing out (e # events)
       = projectionLoop u anchor (order + 1) standing' out' events
     \<and> (\<forall>s\<in>set standing'. s \<in> set standing \<or> srOrder s = order)"
  by (cases "recoveryStateLabel u (ceSubject e)")
    (auto simp: Let_def intro!: exI)

lemma projectionLoop_orders:
  "\<forall>s\<in>set standing. srOrder s < order \<Longrightarrow>
   \<forall>s\<in>set (fst (projectionLoop u anchor order standing out events)). srOrder s < order + int (length events)"
proof (induction events arbitrary: order standing out)
  case (Cons e events)
  obtain standing' out' where step: "projectionLoop u anchor order standing out (e # events)
      = projectionLoop u anchor (order + 1) standing' out' events"
    and st: "\<forall>s\<in>set standing'. s \<in> set standing \<or> srOrder s = order"
    using projectionLoop_Cons by blast
  have "\<forall>s\<in>set standing'. srOrder s < order + 1" using st Cons.prems by force
  from Cons.IH [OF this, of out'] show ?case unfolding step by (simp add: algebra_simps)
qed simp

text \<open>An entry of the standing labels that was labeled after all others.\<close>

definition newest :: "standingRecoveryLabel \<Rightarrow> standingRecoveryLabel list \<Rightarrow> bool" where
  "newest s standing \<longleftrightarrow> s \<in> set standing \<and> (\<forall>t\<in>set standing. t = s \<or> srOrder t < srOrder s)"

lemma latestLabel_newest:
  "newest s standing \<Longrightarrow> latest < srOrder s \<Longrightarrow>
   (let p = latestLabel latest out standing
    in pjStanding p \<and> pjEffective p = srLabel s \<and> pjEffectiveKnown p = srKnown s)"
proof (induction standing arbitrary: latest out)
  case (Cons t standing)
  show ?case
  proof (cases "t = s")
    case True
    have "\<forall>x\<in>set standing. srOrder x \<le> srOrder s" using Cons.prems(1) by (auto simp: newest_def)
    then have "latestLabel (srOrder s) p standing = p" for p
      by (induction standing) auto
    then show ?thesis using Cons.prems(2) True by simp
  next
    case False
    then have "newest s standing" "srOrder t < srOrder s" using Cons.prems(1) by (auto simp: newest_def)
    then show ?thesis using Cons.IH Cons.prems(2) by (simp add: Let_def)
  qed
qed (simp add: newest_def)

text \<open>Entries of the cycle that neither label anything nor remove the given key.\<close>

definition quietFor :: "runtime \<Rightarrow> tid \<Rightarrow> string \<Rightarrow> ClaimEvent \<Rightarrow> bool" where
  "quietFor u anchor key e \<longleftrightarrow> ceID e < anchor \<or> \<not> isRecoveryStateLabel u (ceSubject e)
     \<or> ceKind e \<noteq> ClaimEventLabeled
       \<and> (ceKind e = ClaimEventUnlabeled \<longrightarrow> toLower u (ceSubject e) \<noteq> key)"

lemma projectionLoop_quiet:
  "\<forall>e\<in>set events. quietFor u anchor (srKey s) e \<Longrightarrow> newest s standing \<Longrightarrow>
   newest s (fst (projectionLoop u anchor order standing out events))"
proof (induction events arbitrary: order standing out)
  case (Cons e events)
  have q: "quietFor u anchor (srKey s) e" and rest: "\<forall>e\<in>set events. quietFor u anchor (srKey s) e"
    using Cons.prems(1) by auto
  have "newest s (filter (\<lambda>t. srKey t \<noteq> key) standing)" if "srKey s \<noteq> key" for key
    using Cons.prems(2) that by (auto simp: newest_def)
  then show ?case
    using q Cons.IH [OF rest] Cons.prems(2)
    by (auto simp: quietFor_def Let_def case_prod_beta)
qed simp

definition projectedLabels :: "StateLabel list" where
  "projectedLabels = [StateLabelClaimed, StateLabelRunning, StateLabelNeedsReview, StateLabelFailed]"

definition foldKey :: "string \<Rightarrow> int list" where
  "foldKey s = map (\<lambda>c. asciiLower (byte c)) s"

lemma projectedLabels_facts:
  "list_all (\<lambda>l. ascii (''ben:'' @ l)) projectedLabels"
  "distinct (map (\<lambda>l. foldKey (''ben:'' @ l)) projectedLabels)"
  "list_all (\<lambda>l. hasPrefix (map (\<lambda>c. char_of (asciiLower (byte c))) (''ben:'' @ l)) ''ben:'') projectedLabels"
  by code_simp+

lemma firstSuch_cong: "(\<And>x. x \<in> set xs \<Longrightarrow> P x = Q x) \<Longrightarrow> firstSuch P xs = firstSuch Q xs"
  by (induction xs) auto

lemma firstSuch_distinct:
  "distinct (map f xs) \<Longrightarrow> x \<in> set xs \<Longrightarrow> firstSuch (\<lambda>y. f x = f y) xs = Some x"
  by (induction xs) (auto simp: rev_image_eqI)

lemma ascii_labels:
  assumes "l \<in> set projectedLabels"
  shows "recoveryStateLabel u (''ben:'' @ l) = (l, True) \<and> isRecoveryStateLabel u (''ben:'' @ l)"
proof -
  have asc: "ascii (''ben:'' @ m)" if "m \<in> set projectedLabels" for m
    using that projectedLabels_facts(1) by (simp add: list_all_iff)
  have "firstSuch (\<lambda>m. equalFold u (''ben:'' @ l) (''ben:'' @ m)) projectedLabels
      = firstSuch (\<lambda>m. foldKey (''ben:'' @ l) = foldKey (''ben:'' @ m)) projectedLabels"
    using asc equalFold_ascii [OF asc [OF assms] asc]
    by (intro firstSuch_cong) (simp_all add: foldKey_def)
  also have "\<dots> = Some l" by (rule firstSuch_distinct [OF projectedLabels_facts(2) assms])
  finally have "recoveryStateLabel u (''ben:'' @ l) = (l, True)"
    unfolding recoveryStateLabel_def projectedLabels_def [symmetric] by (simp only: option.case)
  moreover have "isRecoveryStateLabel u (''ben:'' @ l)"
    unfolding isRecoveryStateLabel_def toLower_ascii [OF asc [OF assms]]
    using projectedLabels_facts(3) assms unfolding list_all_iff by blast
  ultimately show ?thesis by blast
qed

text \<open>
  Recovery reads the record's state label back from the log: if the last state label that
  was put on in the claim cycle is the one a state projects, and it was not taken off again,
  then whatever other labels were left standing by an interrupted projection, and whatever else
  is on the log, the effective label recovery classifies by is the label of that state.
\<close>

theorem recovery_reads_label_back:
  assumes "events = pre @ ev # post" and "ceKind ev = ClaimEventLabeled" and "anchor \<le> ceID ev"
    and "ceSubject ev = labelName (stateLabel st)" and "stateLabel st \<noteq> StateLabelNone"
    and "\<forall>e\<in>set post. quietFor u anchor (toLower u (ceSubject ev)) e"
  shows "let p = replayRecoveryProjection u events anchor
    in pjStanding p \<and> pjEffectiveKnown p \<and> pjEffective p = stateLabel st"
proof -
  have l: "stateLabel st \<in> set projectedLabels"
    using assms(5) by (auto simp: stateLabel_def projectedLabels_def)
  have subj: "recoveryStateLabel u (ceSubject ev) = (stateLabel st, True)" "isRecoveryStateLabel u (ceSubject ev)"
    using ascii_labels [OF l, of u] assms(4,5) by (auto simp: labelName_def)
  obtain old out where pre: "projectionLoop u anchor 0 [] zeroProjection pre = (old, out)" by force
  have orders: "\<forall>s\<in>set old. srOrder s < int (length pre)"
    using projectionLoop_orders [of "[]" 0 u anchor zeroProjection pre] pre by simp
  define s where "s = \<lparr>srKey = toLower u (ceSubject ev), srLabel = stateLabel st, srKnown = True,
      srOrder = int (length pre)\<rparr>"
  let ?st = "filter (\<lambda>t. srKey t \<noteq> toLower u (ceSubject ev)) old @ [s]"
  let ?out = "out\<lparr>pjSawLabeled := True, pjLastWasRemoval := False\<rparr>"
  have loop: "projectionLoop u anchor 0 [] zeroProjection events
      = projectionLoop u anchor (int (length pre) + 1) ?st ?out post"
    unfolding assms(1) projectionLoop_append pre using assms(2,3) subj
    by (simp add: s_def Let_def)
  have "newest s ?st" using orders by (auto simp: newest_def s_def)
  moreover have "\<forall>e\<in>set post. quietFor u anchor (srKey s) e" using assms(6) by (simp add: s_def)
  ultimately have "newest s (fst (projectionLoop u anchor 0 [] zeroProjection events))"
    unfolding loop by (rule projectionLoop_quiet [rotated])
  then show ?thesis
    using latestLabel_newest [of s _ "-1"]
    by (simp add: replayRecoveryProjection_def case_prod_beta Let_def s_def)
qed

definition demoLabels :: "ClaimEvent list" where
  "demoLabels =
     [\<lparr>ceKind = ClaimEventAssigned, ceActor = ''bot'', ceSubject = ''bot'', ceAt = 5, ceID = 21\<rparr>,
      \<lparr>ceKind = ClaimEventLabeled, ceActor = ''bot'', ceSubject = ''ben:claimed'', ceAt = 6, ceID = 22\<rparr>,
      \<lparr>ceKind = ClaimEventLabeled, ceActor = ''bot'', ceSubject = ''ben:running'', ceAt = 7, ceID = 23\<rparr>]"

theorem recovery_reads_label_back_witness:
  "pjEffective (replayRecoveryProjection logRuntime demoLabels 21) = StateLabelRunning"
proof -
  have split: "demoLabels = take 2 demoLabels @ (demoLabels ! 2) # []" by (simp add: demoLabels_def)
  show ?thesis
    using recovery_reads_label_back [OF split, of 21 StateRunning logRuntime]
    by (simp add: demoLabels_def labelName_def stateLabel_def states stateLabels Let_def)
qed

section \<open>Two readings of the claim cycle\<close>

text \<open>
  The evidence reader starts the cycle at the position of the establishing assignment, the
  projection replay (like \<open>closedInCycle\<close>) at its event id. On a log that is ordered by time and
  then by id, but whose ids do not grow with time, they disagree: here \<open>ben:running\<close> was
  labeled a second after the assignment under a smaller id, and the replay does not see it.
\<close>

definition reorderedLog :: "ClaimEvent list" where
  "reorderedLog =
     [\<lparr>ceKind = ClaimEventAssigned, ceActor = ''bot'', ceSubject = ''bot'', ceAt = 5, ceID = 30\<rparr>,
      \<lparr>ceKind = ClaimEventLabeled, ceActor = ''bot'', ceSubject = ''ben:running'', ceAt = 6, ceID = 25\<rparr>]"

lemma cycle_readers_disagree:
  "sorted (map (\<lambda>e. (ceAt e, ceID e)) reorderedLog)
   \<and> claimCycleAnchor logRuntime reorderedLog ''bot'' = 30
   \<and> currentCycleRunningEvidence logRuntime reorderedLog 30
   \<and> \<not> pjSawLabeled (replayRecoveryProjection logRuntime reorderedLog 30)"
  by (intro conjI) code_simp+

end
