(* ===== verification/OrchLog.thy ===== *)
theory OrchLog
  imports OrchRecord
begin

text \<open>
  \<open>internal/orchestrator/translog.go\<close>: the in-memory transition log and its readers, and what
  the log of one record's life says about it. The queue behind the log is in
  \<open>DurableQueue\<close>, the file behind the queue in \<open>StateJsonl\<close>.
\<close>

section \<open>The transition log\<close>

definition Entries :: "TransitionEntry list \<Rightarrow> TransitionEntry list" where
  "Entries l = l"

definition For :: "TransitionEntry list \<Rightarrow> string \<Rightarrow> TransitionEntry list" where
  "For l identifier = filter (\<lambda>e. teIssue e = identifier) l"

fun pathLoop :: "nat \<Rightarrow> TransitionEntry list \<Rightarrow> State list" where
  "pathLoop i [] = []"
| "pathLoop i (e # es) = (if i = 0 then [teFrom e] else []) @ [teTo e] @ pathLoop (i + 1) es"

definition Path :: "TransitionEntry list \<Rightarrow> string \<Rightarrow> State list" where
  "Path l identifier = pathLoop 0 (For l identifier)"

record RunFailure =
  rfAt :: time
  rfReason :: string
  rfDetail :: string

definition LastFailure :: "TransitionEntry list \<Rightarrow> string \<Rightarrow> RunFailure option" where
  "LastFailure l identifier =
     (case firstSuch (\<lambda>e. teIssue e = identifier \<and> teTo e = StateFailed \<and> teFailure e \<noteq> []) (rev l) of
        None \<Rightarrow> None
      | Some e \<Rightarrow> Some \<lparr>rfAt = teTS e, rfReason = teFailure e, rfDetail = teReason e\<rparr>)"

section \<open>A record's log is a legal path\<close>

lemma path_log:
  "pathLoop (Suc i) es = map teTo es"
  by (induction es arbitrary: i) simp_all

text \<open>
  The log entries of a record's life: all of its issue, the first from \<open>queued\<close>, the last into
  the state the record is in, and each along a legal edge from where the one before ended.
\<close>

definition logInv :: "recordRun \<Rightarrow> bool" where
  "logInv s \<longleftrightarrow> legalPath (StateQueued # map teTo (rrLog s))
     \<and> last (StateQueued # map teTo (rrLog s)) = rState (rrRecord s)
     \<and> list_all (\<lambda>e. teIssue e = ciIdentifier (rIssue (rrRecord s))) (rrLog s)
     \<and> (rrLog s \<noteq> [] \<longrightarrow> teFrom (hd (rrLog s)) = StateQueued)"

lemma identifier_keeps [simp]:
  "ciIdentifier (rIssue (owe e r w t c)) = ciIdentifier (rIssue r)"
  "ciIdentifier (rIssue (oweProjection e r what want)) = ciIdentifier (rIssue r)"
  "ciIdentifier (rIssue (adoptRouting r fresh)) = ciIdentifier (rIssue r)"
  "ciIdentifier (rIssue (markGone r)) = ciIdentifier (rIssue r)"
  "ciIdentifier (rIssue (markClaimLost r)) = ciIdentifier (rIssue r)"
  "ciIdentifier (rIssue (restoreBudgets r)) = ciIdentifier (rIssue r)"
  by (simp_all add: owe_def oweProjection_def adoptRouting_def markGone_def markClaimLost_def
      restoreBudgets_def)

lemma identifier_exits [simp]:
  "ciIdentifier (rIssue (release e r why)) = ciIdentifier (rIssue r)"
  "ciIdentifier (rIssue (attemptEnded e hooked r)) = ciIdentifier (rIssue r)"
  "ciIdentifier (rIssue (oweDisposal e r c)) = ciIdentifier (rIssue r)"
  "ciIdentifier (rIssue (fst (onEffectDone e r what failed))) = ciIdentifier (rIssue r)"
  by (simp_all add: release_def abandonPendingClaimBase_def attemptEnded_def oweDisposal_def
      onEffectDone_def Let_def)

lemma logInv_quiet:
  "logInv s \<Longrightarrow> rState r = rState (rrRecord s) \<Longrightarrow>
   ciIdentifier (rIssue r) = ciIdentifier (rIssue (rrRecord s)) \<Longrightarrow> logInv (s\<lparr>rrRecord := r\<rparr>)"
  by (simp add: logInv_def)

lemma transitionCaused_moves:
  assumes "Allowed (rState r) to"
  shows "\<exists>r' entry. transitionCaused e now daemon r to reason cause = Inr (r', entry)
     \<and> rState r' = to \<and> ciIdentifier (rIssue r') = ciIdentifier (rIssue r)
     \<and> teTo entry = to \<and> teFrom entry = rState r \<and> teIssue entry = ciIdentifier (rIssue r)"
  using assms
  by (cases "stateLabel to = stateLabel (rState r)")
    (simp_all add: transitionCaused_def Let_def oweProjection_def owe_def)

lemma logInv_step:
  assumes inv: "logInv s"
  shows "logInv (recordStep op s)"
proof (cases op)
  case (OpTransition e now daemon to reason cause)
  show ?thesis
  proof (cases "Allowed (rState (rrRecord s)) to")
    case False
    then show ?thesis using inv OpTransition by (simp add: transitionCaused_def Let_def)
  next
    case True
    obtain r entry where t: "transitionCaused e now daemon (rrRecord s) to reason cause = Inr (r, entry)"
      and r: "rState r = to" "ciIdentifier (rIssue r) = ciIdentifier (rIssue (rrRecord s))"
      and en: "teTo entry = to" "teFrom entry = rState (rrRecord s)"
        "teIssue entry = ciIdentifier (rIssue (rrRecord s))"
      using transitionCaused_moves [OF True] by blast
    have "legalPath ((StateQueued # map teTo (rrLog s)) @ [to])"
      using inv True by (intro legalPath.moved) (simp_all add: logInv_def)
    then show ?thesis
      using inv OpTransition t r en by (cases "rrLog s") (auto simp: logInv_def list_all_iff)
  qed
next
  case (OpDone e failed)
  have "rState (fst (onEffectDone e r w f)) = rState r" for r w f
    by (simp add: onEffectDone_def Let_def)
  then show ?thesis
    using inv OpDone by (auto simp: finishEffect_def Let_def logInv_def split: if_splits)
qed (use inv quietStep_refl quietStep_owe quietStep_exits in
  \<open>auto intro!: logInv_quiet simp: quietStep_def\<close>)

text \<open>
  The transition log tells a record's whole story: after any operations on a dispatched
  record, the states the log reports for its issue form a path that the transition map allows,
  from \<open>queued\<close> to the state the record is in now.
\<close>

theorem log_is_legal_path:
  "let s = recordLife ops (dispatchedRun r); path = Path (rrLog s) (ciIdentifier (rIssue r))
   in if rrLog s = [] then rState (rrRecord s) = StateQueued
      else legalPath path \<and> last path = rState (rrRecord s)"
proof -
  have "logInv (recordLife ops s) \<and> ciIdentifier (rIssue (rrRecord (recordLife ops s)))
      = ciIdentifier (rIssue (rrRecord s))" if "logInv s" for s
    using that
  proof (induction ops arbitrary: s)
    case (Cons op ops)
    have "ciIdentifier (rIssue (rrRecord (recordStep op s))) = ciIdentifier (rIssue (rrRecord s))"
      by (cases op) (auto simp: finishEffect_def transitionCaused_def Let_def split: sum.split)
    then show ?case using Cons.IH [of "recordStep op s"] logInv_step [OF Cons.prems]
      by (simp add: recordLife_def)
  qed (simp add: recordLife_def)
  moreover have "logInv (dispatchedRun r)"
    by (simp add: logInv_def dispatchedRun_def legalPath.dispatched)
  ultimately have inv: "logInv (recordLife ops (dispatchedRun r))"
    and id: "ciIdentifier (rIssue (rrRecord (recordLife ops (dispatchedRun r)))) = ciIdentifier (rIssue r)"
    by (auto simp: dispatchedRun_def)
  let ?l = "rrLog (recordLife ops (dispatchedRun r))"
  have "For ?l (ciIdentifier (rIssue r)) = ?l"
    using inv id by (auto simp: For_def logInv_def list_all_iff filter_id_conv)
  then have "?l \<noteq> [] \<Longrightarrow> Path ?l (ciIdentifier (rIssue r)) = StateQueued # map teTo ?l"
    using inv path_log [of 0] by (cases ?l) (auto simp: Path_def logInv_def)
  then show ?thesis using inv by (auto simp: Let_def logInv_def)
qed

end
