(* ===== verification/DurableQueue.thy ===== *)
theory DurableQueue
  imports Prelude
begin

text \<open>
  \<open>internal/orchestrator/durable.go\<close>: the serial, retrying, order-preserving writer behind
  every append-only log of the loop. The lock, the wake channel and the log lines are left
  out; everything a call can read or change of the queue itself is here. The sink, the
  clock, the context and the other goroutines are one outside state.
\<close>

section \<open>The queue\<close>

definition retryDelay :: int where "retryDelay = 100 * 1000000"
definition backlogWarn :: int where "backlogWarn = 256"
definition failureLogInterval :: int where "failureLogInterval = 30 * nanosPerSecond"

record 'a durableQueue =
  dqAttached :: bool
  dqPending :: "'a list"
  dqFailingSince :: time
  dqLastReported :: time
  dqWarnedAt :: int

text \<open>The queue before and after \<open>attach\<close>; a nil sink leaves it inert.\<close>

definition emptyQueue :: "'a durableQueue" where
  "emptyQueue = \<lparr>dqAttached = False, dqPending = [], dqFailingSince = zeroTime,
                 dqLastReported = zeroTime, dqWarnedAt = 0\<rparr>"

definition attach :: "bool \<Rightarrow> 'a durableQueue \<Rightarrow> 'a durableQueue" where
  "attach hasSink q = (if \<not> hasSink then q else q\<lparr>dqAttached := True\<rparr>)"

text \<open>\<open>enqueue\<close>; the second component says that the backlog is reported.\<close>

definition enqueue :: "'a \<Rightarrow> 'a durableQueue \<Rightarrow> 'a durableQueue \<times> bool" where
  "enqueue e q =
     (if \<not> dqAttached q then (q, False)
      else
        (let q1 = q\<lparr>dqPending := dqPending q @ [e]\<rparr>;
             depth = int (length (dqPending q1))
         in if depth \<ge> backlogWarn \<and> depth \<ge> dqWarnedAt q1 * 2
            then (q1\<lparr>dqWarnedAt := depth\<rparr>, True)
            else (q1, False)))"

text \<open>\<open>reportFailure\<close>; the second component says that the failure is logged.\<close>

definition reportFailure :: "time \<Rightarrow> 'a durableQueue \<Rightarrow> 'a durableQueue \<times> bool" where
  "reportFailure now q =
     (let say = dqFailingSince q = zeroTime \<or> now - dqLastReported q \<ge> failureLogInterval;
          q1 = (if dqFailingSince q = zeroTime then q\<lparr>dqFailingSince := now\<rparr> else q)
      in ((if say then q1\<lparr>dqLastReported := now\<rparr> else q1), say))"

section \<open>Draining\<close>

text \<open>
  What runs outside the queue, as one state \<open>'w\<close>: \<open>ctx.Err()\<close>, the sink, the wall clock of
  \<open>reportFailure\<close>, the wait for the retry delay and the wait for a wake, which say whether the
  context ended first. \<open>deArrived\<close> are the entries other goroutines enqueued during the call
  that led to the state.
\<close>

datatype sinkResult = SinkOk | SinkUnwritable | SinkFailed

record ('a, 'w) drainEnv =
  deDone :: "'w \<Rightarrow> bool"
  deSink :: "'w \<Rightarrow> 'a \<Rightarrow> sinkResult \<times> 'w"
  deArrived :: "'w \<Rightarrow> 'a list"
  deNow :: "'w \<Rightarrow> time"
  deRetry :: "'w \<Rightarrow> bool \<times> 'w"
  deWake :: "'w \<Rightarrow> bool \<times> 'w"

definition arriveAll :: "'a list \<Rightarrow> 'a durableQueue \<Rightarrow> 'a durableQueue" where
  "arriveAll es q = fold (\<lambda>e q. fst (enqueue e q)) es q"

text \<open>
  What a loop of the writer leaves: the queue, the outside, the entries that left the queue in
  order, each with whether the sink acknowledged it, and the entries that arrived meanwhile.
\<close>

record ('a, 'w) drained =
  drQueue :: "'a durableQueue"
  drOutside :: 'w
  drOut :: "('a \<times> bool) list"
  drArrived :: "'a list"

definition drainedNow :: "'a durableQueue \<Rightarrow> 'w \<Rightarrow> 'a list \<Rightarrow> ('a, 'w) drained" where
  "drainedNow q w arrived = \<lparr>drQueue = q, drOutside = w, drOut = [], drArrived = arrived\<rparr>"

definition drainedAfter ::
  "('a \<times> bool) list \<Rightarrow> 'a list \<Rightarrow> ('a, 'w) drained \<Rightarrow> ('a, 'w) drained" where
  "drainedAfter out arrived d = d\<lparr>drOut := out @ drOut d, drArrived := arrived @ drArrived d\<rparr>"

text \<open>
  \<open>drain\<close>, with whether it got to the end. Entries that keep arriving can keep the loop running,
  so it is bounded by fuel; no result means that the fuel is spent.
\<close>

fun drain ::
  "nat \<Rightarrow> ('a, 'w) drainEnv \<Rightarrow> 'a durableQueue \<Rightarrow> 'w \<Rightarrow> (bool \<times> ('a, 'w) drained) option" where
  "drain 0 env q w = None"
| "drain (Suc fuel) env q w =
     (if deDone env w then Some (False, drainedNow q w [])
      else case dqPending q of
        [] \<Rightarrow> Some (True, drainedNow (q\<lparr>dqWarnedAt := 0, dqFailingSince := zeroTime\<rparr>) w [])
      | e # _ \<Rightarrow>
          (let (res, w') = deSink env w e;
               arrived = deArrived env w';
               q1 = arriveAll arrived q
           in case res of
                SinkUnwritable \<Rightarrow>
                  map_option (\<lambda>(ok, d). (ok, drainedAfter [(e, False)] arrived d))
                    (drain fuel env (q1\<lparr>dqPending := tl (dqPending q1)\<rparr>) w')
              | SinkFailed \<Rightarrow>
                  Some (False, drainedNow (fst (reportFailure (deNow env w') q1)) w' arrived)
              | SinkOk \<Rightarrow>
                  map_option (\<lambda>(ok, d). (ok, drainedAfter [(e, True)] arrived d))
                    (drain fuel env
                       (q1\<lparr>dqPending := tl (dqPending q1), dqFailingSince := zeroTime\<rparr>) w')))"

text \<open>
  \<open>persist\<close>, the steady state: drain, wait for the retry delay after a failure and for a wake
  otherwise, until the context ends.
\<close>

fun persist ::
  "nat \<Rightarrow> nat \<Rightarrow> ('a, 'w) drainEnv \<Rightarrow> 'a durableQueue \<Rightarrow> 'w \<Rightarrow> ('a, 'w) drained option" where
  "persist 0 fuel env q w = None"
| "persist (Suc n) fuel env q w =
     (if \<not> dqAttached q then Some (drainedNow q w [])
      else case drain fuel env q w of
        None \<Rightarrow> None
      | Some (ok, d) \<Rightarrow>
          (let (finished, w') = (if \<not> ok then deRetry env else deWake env) (drOutside d);
               arrived = deArrived env w';
               q' = arriveAll arrived (drQueue d);
               here = drOut d; came = drArrived d @ arrived
           in map_option (drainedAfter here came)
                (if finished then Some (drainedNow q' w' []) else persist n fuel env q' w')))"

text \<open>
  \<open>flush\<close>, the last attempt at shutdown: drains with waits between them until one reaches the
  end or the budget is spent; the number is what it reports as lost.
\<close>

fun flush ::
  "nat \<Rightarrow> nat \<Rightarrow> ('a, 'w) drainEnv \<Rightarrow> 'a durableQueue \<Rightarrow> 'w \<Rightarrow> (('a, 'w) drained \<times> nat) option" where
  "flush 0 fuel env q w = None"
| "flush (Suc n) fuel env q w =
     (if \<not> dqAttached q then Some (drainedNow q w [], 0)
      else case drain fuel env q w of
        None \<Rightarrow> None
      | Some (ok, d) \<Rightarrow>
          if ok then Some (d, 0)
          else
            (let (finished, w') = deRetry env (drOutside d);
                 arrived = deArrived env w';
                 q' = arriveAll arrived (drQueue d);
                 here = drOut d; came = drArrived d @ arrived
             in map_option (\<lambda>(d', lost). (drainedAfter here came d', lost))
                  (if finished then Some (drainedNow q' w' [], length (dqPending q'))
                   else flush n fuel env q' w')))"

section \<open>Nothing is lost or reordered in the queue\<close>

lemma attached_enqueue [simp]: "dqAttached (fst (enqueue e q)) = dqAttached q"
  by (simp add: enqueue_def Let_def)

lemma arriveAll_simps [simp]:
  "arriveAll [] q = q"
  "arriveAll (e # es) q = arriveAll es (fst (enqueue e q))"
  by (simp_all add: arriveAll_def)

lemma attached_arriveAll [simp]: "dqAttached (arriveAll es q) = dqAttached q"
  by (induction es arbitrary: q) simp_all

lemma pending_arriveAll [simp]:
  "dqAttached q \<Longrightarrow> dqPending (arriveAll es q) = dqPending q @ es"
  by (induction es arbitrary: q) (simp_all add: enqueue_def Let_def)

lemma reportFailure_keeps [simp]:
  "dqAttached (fst (reportFailure now q)) = dqAttached q"
  "dqPending (fst (reportFailure now q)) = dqPending q"
  by (simp_all add: reportFailure_def Let_def)

lemma drained_simps [simp]:
  "drQueue (drainedNow q w a) = q" "drOutside (drainedNow q w a) = w"
  "drOut (drainedNow q w a) = []" "drArrived (drainedNow q w a) = a"
  "drQueue (drainedAfter out a d) = drQueue d" "drOutside (drainedAfter out a d) = drOutside d"
  "drOut (drainedAfter out a d) = out @ drOut d"
  "drArrived (drainedAfter out a d) = a @ drArrived d"
  by (simp_all add: drainedNow_def drainedAfter_def)

text \<open>
  The law of every loop of the writer: what was pending and what arrived is, in that order, what
  left the queue followed by what is still pending.
\<close>

definition inOrder :: "'a durableQueue \<Rightarrow> ('a, 'w) drained \<Rightarrow> bool" where
  "inOrder q d \<longleftrightarrow> dqAttached (drQueue d)
     \<and> dqPending q @ drArrived d = map fst (drOut d) @ dqPending (drQueue d)"

lemma inOrder_after:
  "inOrder q' d \<Longrightarrow> dqPending q @ arrived = map fst out @ dqPending q' \<Longrightarrow>
   inOrder q (drainedAfter out arrived d)"
  by (simp add: inOrder_def flip: append_assoc) (simp add: inOrder_def)

text \<open>How one drain can go: it stops where it is, the sink fails, or one entry leaves the queue.\<close>

lemma drain_step:
  assumes "drain fuel env q w = Some (ok, d)" and "dqAttached q"
  obtains (stop) q' where "d = drainedNow q' w []" "dqAttached q'" "dqPending q' = dqPending q"
      "ok \<Longrightarrow> dqPending q = []"
  | (failed) e es w' q' where "dqPending q = e # es" "deSink env w e = (SinkFailed, w')" "\<not> ok"
      "d = drainedNow q' w' (deArrived env w')" "dqAttached q'"
      "dqPending q' = e # es @ deArrived env w'"
  | (left) fuel' e es b w' q1 d' where "fuel = Suc fuel'" "dqPending q = e # es"
      "deSink env w e = (if b then SinkOk else SinkUnwritable, w')"
      "drain fuel' env q1 w' = Some (ok, d')" "d = drainedAfter [(e, b)] (deArrived env w') d'"
      "dqAttached q1" "dqPending q1 = es @ deArrived env w'"
proof (cases fuel)
  case 0
  then show ?thesis using assms by simp
next
  case (Suc fuel')
  show ?thesis
  proof (cases "deDone env w \<or> dqPending q = []")
    case True
    then show ?thesis
      using stop [of "if deDone env w then q else q\<lparr>dqWarnedAt := 0, dqFailingSince := zeroTime\<rparr>"]
        assms Suc by (auto split: if_splits)
  next
    case False
    then obtain e es where p: "dqPending q = e # es" by (cases "dqPending q") auto
    obtain res w' where s: "deSink env w e = (res, w')" by fastforce
    show ?thesis
    proof (cases res)
      case SinkOk
      then show ?thesis using left [of fuel' e es True] assms Suc False p s by (auto simp: Let_def)
    next
      case SinkUnwritable
      then show ?thesis using left [of fuel' e es False] assms Suc False p s by (auto simp: Let_def)
    next
      case SinkFailed
      then show ?thesis using failed [of e es w'] assms Suc False p s by (auto simp: Let_def)
    qed
  qed
qed

lemma drain_inOrder:
  "drain fuel env q w = Some (ok, d) \<Longrightarrow> dqAttached q \<Longrightarrow>
   inOrder q d \<and> (ok \<longrightarrow> dqPending (drQueue d) = [])"
proof (induction fuel arbitrary: q w d)
  case (Suc fuel)
  from Suc.prems show ?case
  proof (cases rule: drain_step)
    case (left fuel' e es b w' q1 d')
    then have "inOrder q1 d' \<and> (ok \<longrightarrow> dqPending (drQueue d') = [])" using Suc.IH by blast
    then show ?thesis using left by (auto intro!: inOrder_after)
  qed (auto simp: inOrder_def)
qed simp

lemma persist_inOrder:
  "persist n fuel env q w = Some d \<Longrightarrow> dqAttached q \<Longrightarrow> inOrder q d"
proof (induction n arbitrary: q w d)
  case (Suc n)
  then obtain ok d1 where d1: "drain fuel env q w = Some (ok, d1)"
    by (auto split: option.splits)
  have o: "inOrder q d1" using drain_inOrder [OF d1 Suc.prems(2)] by simp
  obtain finished w' where f: "(if \<not> ok then deRetry env else deWake env) (drOutside d1) = (finished, w')"
    by fastforce
  let ?q = "arriveAll (deArrived env w') (drQueue d1)"
  obtain d2 where d2: "d = drainedAfter (drOut d1) (drArrived d1 @ deArrived env w') d2"
    and "d2 = drainedNow ?q w' [] \<or> persist n fuel env ?q w' = Some d2"
    using Suc.prems d1 f by (auto simp: Let_def split: if_splits)
  moreover have "dqAttached ?q" using o by (simp add: inOrder_def)
  ultimately have "inOrder ?q d2"
    using Suc.IH by (auto simp: inOrder_def [of _ "drainedNow q w a" for q w a])
  then show ?case
    unfolding d2 by (rule inOrder_after) (use o in \<open>simp add: inOrder_def flip: append_assoc\<close>)
qed simp

lemma flush_inOrder:
  "flush n fuel env q w = Some (d, lost) \<Longrightarrow> dqAttached q \<Longrightarrow>
   inOrder q d \<and> lost = length (dqPending (drQueue d))"
proof (induction n arbitrary: q w d)
  case (Suc n)
  then obtain ok d1 where d1: "drain fuel env q w = Some (ok, d1)"
    by (auto split: option.splits)
  have o: "inOrder q d1" "ok \<Longrightarrow> dqPending (drQueue d1) = []"
    using drain_inOrder [OF d1 Suc.prems(2)] by simp_all
  show ?case
  proof (cases ok)
    case True
    then show ?thesis using Suc.prems d1 o by auto
  next
    case False
    obtain finished w' where f: "deRetry env (drOutside d1) = (finished, w')" by fastforce
    let ?q = "arriveAll (deArrived env w') (drQueue d1)"
    obtain d2 where d2: "d = drainedAfter (drOut d1) (drArrived d1 @ deArrived env w') d2"
      and "d2 = drainedNow ?q w' [] \<and> lost = length (dqPending ?q)
           \<or> flush n fuel env ?q w' = Some (d2, lost)"
      using Suc.prems d1 f False by (auto simp: Let_def split: if_splits)
    moreover have "dqAttached ?q" using o by (simp add: inOrder_def)
    ultimately have "inOrder ?q d2 \<and> lost = length (dqPending (drQueue d2))"
      using Suc.IH by (auto simp: inOrder_def [of _ "drainedNow q w a" for q w a])
    then show ?thesis
      unfolding d2 using o(1) by (auto intro!: inOrder_after simp: inOrder_def [of q d1])
  qed
qed simp

text \<open>An entry the sink always refuses stays at the head, and nothing behind it leaves the queue.\<close>

lemma drain_stuck:
  assumes "\<And>w. fst (deSink env w e) = SinkFailed" and "drain fuel env q w = Some (ok, d)"
    and "dqAttached q" and "dqPending q = e # es"
  shows "drOut d = [] \<and> \<not> ok"
  using assms(2,3)
proof (cases rule: drain_step)
  case (left fuel' e' es' b w' q1 d')
  then show ?thesis using assms(1) [of w] assms(4) by (cases b) auto
qed (use assms(4) in auto)

lemma head_stays:
  assumes "inOrder q d" and "drOut d = []" and "dqPending q = e # es"
  shows "dqAttached (arriveAll a (drQueue d)) \<and> dqPending (arriveAll a (drQueue d)) = e # es @ drArrived d @ a"
  using assms by (simp add: inOrder_def)

lemma writer_stuck:
  assumes refused: "\<And>w. fst (deSink env w e) = SinkFailed"
    and "persist n fuel env q w = Some d \<or> flush n fuel env q w = Some (d, lost)"
    and "dqAttached q" and "dqPending q = e # es"
  shows "drOut d = []"
  using assms(2-4)
proof (induction n arbitrary: q w d es)
  case (Suc n)
  then obtain ok d1 where d1: "drain fuel env q w = Some (ok, d1)"
    by (auto split: option.splits)
  have o: "inOrder q d1" "drOut d1 = []" "\<not> ok"
    using drain_inOrder [OF d1 Suc.prems(2)] drain_stuck [OF refused d1 Suc.prems(2,3)] by simp_all
  obtain finished w' where f: "deRetry env (drOutside d1) = (finished, w')" by fastforce
  let ?q = "arriveAll (deArrived env w') (drQueue d1)"
  have "drOut d = [] \<or> (\<exists>d2. drOut d = drOut d2 \<and> (persist n fuel env ?q w' = Some d2
      \<or> flush n fuel env ?q w' = Some (d2, lost)))"
    using Suc.prems d1 f o by (auto simp: Let_def split: if_splits)
  then show ?case
    using Suc.IH [of ?q w'] head_stays [OF o(1,2) Suc.prems(3)] by fastforce
qed simp

section \<open>A log without holes\<close>

text \<open>
  The sink's contract (\<open>TransitionSink.Append\<close>) over what it has written, a sequence of
  units that for a file are bytes: an acknowledged entry is appended whole, an ordinary failure
  changes nothing, and a sink that reports itself unwritable stays so and takes nothing more;
  only of the entry it broke on may some part have reached the log.
\<close>

locale durable_sink =
  fixes env :: "('a, 'w) drainEnv"
    and good :: "'w \<Rightarrow> bool"
    and broken :: "'w \<Rightarrow> bool"
    and written :: "'w \<Rightarrow> 'b list"
    and recordOf :: "'a \<Rightarrow> 'b list"
    and fits :: "'a \<Rightarrow> bool"
  assumes sink_good: "good w \<Longrightarrow> good (snd (deSink env w e))"
    and sink_ok: "good w \<Longrightarrow> deSink env w e = (SinkOk, w') \<Longrightarrow>
      \<not> broken w \<and> \<not> broken w' \<and> fits e \<and> written w' = written w @ recordOf e"
    and sink_failed: "good w \<Longrightarrow> deSink env w e = (SinkFailed, w') \<Longrightarrow>
      broken w' = broken w \<and> written w' = written w"
    and sink_unwritable: "good w \<Longrightarrow> deSink env w e = (SinkUnwritable, w') \<Longrightarrow>
      broken w' \<and> (\<exists>j. written w' = written w @ take j (recordOf e) \<and> (j = 0 \<or> fits e))
      \<and> (broken w \<longrightarrow> written w' = written w)"
    and retry_keeps: "good w \<Longrightarrow> good (snd (deRetry env w))
      \<and> broken (snd (deRetry env w)) = broken w \<and> written (snd (deRetry env w)) = written w"
    and wake_keeps: "good w \<Longrightarrow> good (snd (deWake env w))
      \<and> broken (snd (deWake env w)) = broken w \<and> written (snd (deWake env w)) = written w"
begin

text \<open>
  What left the queue was acknowledged up to a point and dropped from there on, and what the
  log gained is exactly what was acknowledged, with at most a part of the first dropped entry.
\<close>

definition noHoles :: "'w \<Rightarrow> ('a \<times> bool) list \<Rightarrow> 'w \<Rightarrow> bool" where
  "noHoles w out w' \<longleftrightarrow> good w' \<and> (broken w \<longrightarrow> broken w') \<and>
     (\<exists>acked dropped j. out = map (\<lambda>e. (e, True)) acked @ map (\<lambda>e. (e, False)) dropped
        \<and> written w' = written w @ concat (map recordOf acked)
                      @ take j (concat (map recordOf (take 1 dropped)))
        \<and> (dropped \<noteq> [] \<longrightarrow> broken w') \<and> (broken w \<longrightarrow> acked = [] \<and> j = 0)
        \<and> list_all fits acked \<and> (j = 0 \<or> list_all fits (take 1 dropped)))"

lemma noHoles_quiet:
  "good w' \<Longrightarrow> broken w' = broken w \<Longrightarrow> written w' = written w \<Longrightarrow> noHoles w [] w'"
  unfolding noHoles_def by (auto intro!: exI [of _ "[]"])

lemma noHoles_trans:
  assumes "noHoles w out w'" and "noHoles w' out' w''"
  shows "noHoles w (out @ out') w''"
proof -
  obtain a1 d1 j1 where 1: "out = map (\<lambda>e. (e, True)) a1 @ map (\<lambda>e. (e, False)) d1"
      "written w' = written w @ concat (map recordOf a1) @ take j1 (concat (map recordOf (take 1 d1)))"
      "d1 \<noteq> [] \<longrightarrow> broken w'" "broken w \<longrightarrow> a1 = [] \<and> j1 = 0" "broken w \<longrightarrow> broken w'"
      "list_all fits a1" "j1 = 0 \<or> list_all fits (take 1 d1)"
    using assms(1) unfolding noHoles_def by blast
  obtain a2 d2 j2 where 2: "out' = map (\<lambda>e. (e, True)) a2 @ map (\<lambda>e. (e, False)) d2"
      "written w'' = written w' @ concat (map recordOf a2) @ take j2 (concat (map recordOf (take 1 d2)))"
      "d2 \<noteq> [] \<longrightarrow> broken w''" "broken w' \<longrightarrow> a2 = [] \<and> j2 = 0" "broken w' \<longrightarrow> broken w''" "good w''"
      "list_all fits a2" "j2 = 0 \<or> list_all fits (take 1 d2)"
    using assms(2) unfolding noHoles_def by blast
  show ?thesis
  proof (cases "d1 = []")
    case True
    then show ?thesis unfolding noHoles_def using 1 2
      by (intro conjI exI [of _ "a1 @ a2"] exI [of _ d2] exI [of _ j2]) auto
  next
    case False
    then have "take 1 (d1 @ d2) = take 1 d1" by (cases d1) simp_all
    then show ?thesis unfolding noHoles_def using 1 2 False
      by (intro conjI exI [of _ a1] exI [of _ "d1 @ d2"] exI [of _ j1]) auto
  qed
qed

lemma noHoles_sink:
  assumes "good w" and "deSink env w e = (if b then SinkOk else SinkUnwritable, w')"
  shows "noHoles w [(e, b)] w'"
proof (cases b)
  case True
  then show ?thesis unfolding noHoles_def using assms sink_ok [of w e w'] sink_good [of w e]
    by (intro conjI exI [of _ "[e]"] exI [of _ "[]"] exI [of _ 0]) auto
next
  case False
  then have g: "good w'" and u: "broken w'" "broken w \<longrightarrow> written w' = written w"
    "\<exists>j. written w' = written w @ take j (recordOf e) \<and> (j = 0 \<or> fits e)"
    using assms sink_unwritable [of w e w'] sink_good [of w e] by auto
  then obtain j where "written w' = written w @ take j (recordOf e)" "broken w \<longrightarrow> j = 0"
      "j = 0 \<or> fits e"
    by (cases "broken w") auto
  then show ?thesis unfolding noHoles_def using False g u
    by (intro conjI exI [of _ "[]"] exI [of _ "[e]"] exI [of _ j]) auto
qed

lemma drain_noHoles:
  "drain fuel env q w = Some (ok, d) \<Longrightarrow> dqAttached q \<Longrightarrow> good w \<Longrightarrow>
   noHoles w (drOut d) (drOutside d)"
proof (induction fuel arbitrary: q w d)
  case (Suc fuel)
  from Suc.prems(1,2) show ?case
  proof (cases rule: drain_step)
    case (left fuel' e es b w' q1 d')
    have "good w'" using sink_good [OF Suc.prems(3), of e] left by simp
    then have "noHoles w' (drOut d') (drOutside d')" using Suc.IH left by blast
    then show ?thesis
      using noHoles_trans [OF noHoles_sink [OF Suc.prems(3) left(3)]] left by simp
  next
    case (failed e es w' q')
    then show ?thesis
      using sink_failed [OF Suc.prems(3), of e w'] sink_good [OF Suc.prems(3), of e]
      by (auto intro: noHoles_quiet)
  qed (use Suc.prems(3) in \<open>auto intro: noHoles_quiet\<close>)
qed simp

lemma wait_noHoles:
  "good w \<Longrightarrow> (if b then deRetry env else deWake env) w = (finished, w') \<Longrightarrow> noHoles w [] w'"
  using retry_keeps [of w] wake_keeps [of w] by (cases b) (auto intro: noHoles_quiet)

lemma noHoles_good: "noHoles w out w' \<Longrightarrow> good w'"
  by (simp add: noHoles_def)

theorem persist_noHoles:
  "persist n fuel env q w = Some d \<Longrightarrow> dqAttached q \<Longrightarrow> good w \<Longrightarrow>
   noHoles w (drOut d) (drOutside d)"
proof (induction n arbitrary: q w d)
  case (Suc n)
  then obtain ok d1 where d1: "drain fuel env q w = Some (ok, d1)"
    by (auto split: option.splits)
  have o: "inOrder q d1" and h: "noHoles w (drOut d1) (drOutside d1)"
    using drain_inOrder [OF d1] drain_noHoles [OF d1] Suc.prems by simp_all
  obtain finished w' where f: "(if \<not> ok then deRetry env else deWake env) (drOutside d1) = (finished, w')"
    by fastforce
  let ?q = "arriveAll (deArrived env w') (drQueue d1)"
  have wt: "noHoles (drOutside d1) [] w'" using wait_noHoles [OF noHoles_good [OF h] f] .
  have att: "dqAttached ?q" using o by (simp add: inOrder_def)
  obtain d2 where d2: "d = drainedAfter (drOut d1) (drArrived d1 @ deArrived env w') d2"
    and "d2 = drainedNow ?q w' [] \<or> persist n fuel env ?q w' = Some d2"
    using Suc.prems d1 f by (auto simp: Let_def split: if_splits)
  then have "noHoles w' (drOut d2) (drOutside d2)"
    using Suc.IH [OF _ att noHoles_good [OF wt]] noHoles_good [OF wt] by (auto intro: noHoles_quiet)
  then show ?case unfolding d2 using noHoles_trans [OF h noHoles_trans [OF wt]] by simp
qed simp

theorem flush_noHoles:
  "flush n fuel env q w = Some (d, lost) \<Longrightarrow> dqAttached q \<Longrightarrow> good w \<Longrightarrow>
   noHoles w (drOut d) (drOutside d)"
proof (induction n arbitrary: q w d)
  case (Suc n)
  then obtain ok d1 where d1: "drain fuel env q w = Some (ok, d1)"
    by (auto split: option.splits)
  have o: "inOrder q d1" and h: "noHoles w (drOut d1) (drOutside d1)"
    using drain_inOrder [OF d1] drain_noHoles [OF d1] Suc.prems by simp_all
  show ?case
  proof (cases ok)
    case True
    then show ?thesis using Suc.prems d1 h by auto
  next
    case False
    obtain finished w' where f: "deRetry env (drOutside d1) = (finished, w')" by fastforce
    let ?q = "arriveAll (deArrived env w') (drQueue d1)"
    have wt: "noHoles (drOutside d1) [] w'"
      using wait_noHoles [OF noHoles_good [OF h], of True] f by simp
    have att: "dqAttached ?q" using o by (simp add: inOrder_def)
    obtain d2 where d2: "d = drainedAfter (drOut d1) (drArrived d1 @ deArrived env w') d2"
      and "d2 = drainedNow ?q w' [] \<or> flush n fuel env ?q w' = Some (d2, lost)"
      using Suc.prems d1 f False by (auto simp: Let_def split: if_splits)
    then have "noHoles w' (drOut d2) (drOutside d2)"
      using Suc.IH [OF _ att noHoles_good [OF wt]] noHoles_good [OF wt] by (auto intro: noHoles_quiet)
    then show ?thesis unfolding d2 using noHoles_trans [OF h noHoles_trans [OF wt]] by simp
  qed
qed simp

theorem writer_run:
  assumes "persist n fuel env q w = Some d \<or> flush n fuel env q w = Some (d, lost)"
    and "dqAttached q" and "good w"
  shows "inOrder q d \<and> noHoles w (drOut d) (drOutside d)"
  using assms(1)
proof
  assume p: "persist n fuel env q w = Some d"
  show ?thesis using persist_inOrder [OF p assms(2)] persist_noHoles [OF p assms(2,3)] by simp
next
  assume f: "flush n fuel env q w = Some (d, lost)"
  show ?thesis using flush_inOrder [OF f assms(2)] flush_noHoles [OF f assms(2,3)] by simp
qed

end

section \<open>Enough fuel\<close>

text \<open>Once nothing arrives any more, one drain makes at most one call per pending entry.\<close>

lemma drain_returns:
  assumes "\<And>w. deArrived env w = []"
  shows "length (dqPending q) < fuel \<Longrightarrow> \<exists>r. drain fuel env q w = Some r"
proof (induction fuel arbitrary: q w)
  case (Suc fuel)
  show ?case
  proof (cases "dqPending q")
    case (Cons e es)
    obtain res w' where s: "deSink env w e = (res, w')" by fastforce
    have "\<exists>r. drain fuel env (q\<lparr>dqPending := es, dqFailingSince := t\<rparr>) w' = Some r"
      "\<exists>r. drain fuel env (q\<lparr>dqPending := es\<rparr>) w' = Some r" for t
      using Suc.IH Suc.prems Cons by simp_all
    then show ?thesis using s Cons assms by (cases res) (auto simp: Let_def)
  qed (cases "deDone env w"; auto)
qed simp

lemma drain_quiet:
  fixes budgetOf :: "'w \<Rightarrow> nat"
  assumes quiet: "\<And>w. deArrived env w = []" and sink: "\<And>w e. budgetOf (snd (deSink env w e)) \<le> budgetOf w"
  shows "drain fuel env q w = Some (ok, d) \<Longrightarrow> dqAttached q \<Longrightarrow>
         drArrived d = [] \<and> budgetOf (drOutside d) \<le> budgetOf w"
proof (induction fuel arbitrary: q w d)
  case (Suc fuel)
  from Suc.prems show ?case
  proof (cases rule: drain_step)
    case (left fuel' e es b w' q1 d')
    then have "drArrived d' = [] \<and> budgetOf (drOutside d') \<le> budgetOf w'" using Suc.IH by blast
    then show ?thesis using left sink [of w e] quiet by simp
  next
    case (failed e es w' q')
    then show ?thesis using sink [of w e] quiet by simp
  qed simp
qed simp

text \<open>
  The shutdown flush returns: when no entry arrives any more and the budget ends the wait
  after some number of retries, a drain per retry with one call per pending entry is enough.
\<close>

theorem flush_returns:
  fixes left :: "'w \<Rightarrow> nat"
  assumes quiet: "\<And>w. deArrived env w = []"
    and budget: "\<And>w w'. deRetry env w = (False, w') \<Longrightarrow> left w' < left w"
    and sink: "\<And>w e. left (snd (deSink env w e)) \<le> left w"
    and att: "dqAttached q"
  shows "\<exists>r. flush (Suc (left w)) (Suc (length (dqPending q))) env q w = Some r"
proof -
  have "\<exists>r. flush n fuel env q w = Some r"
    if "left w < n" "length (dqPending q) < fuel" "dqAttached q" for n fuel q w
    using that
  proof (induction n arbitrary: q w)
    case (Suc n)
    obtain ok d where d: "drain fuel env q w = Some (ok, d)"
      using drain_returns [OF quiet Suc.prems(2)] by fastforce
    obtain finished w' where f: "deRetry env (drOutside d) = (finished, w')" by fastforce
    have o: "inOrder q d" using drain_inOrder [OF d Suc.prems(3)] by simp
    have arr: "drArrived d = []" "left (drOutside d) \<le> left w"
      using drain_quiet [OF quiet sink d Suc.prems(3)] by simp_all
    show ?case
    proof (cases "ok \<or> finished")
      case True
      then show ?thesis using d f Suc.prems by (auto simp: Let_def)
    next
      case False
      then have "left w' < n" using budget [of "drOutside d" w'] f arr Suc.prems by auto
      moreover have "length (dqPending (drQueue d)) < fuel"
        using o arr Suc.prems(2) by (auto simp: inOrder_def dest: arg_cong [of _ _ length])
      ultimately show ?thesis
        using Suc.IH [of w' "drQueue d"] False d f quiet o Suc.prems by (auto simp: Let_def inOrder_def)
    qed
  qed simp
  then show ?thesis using att by blast
qed

theorem flush_returns_witness:
  "\<exists>r. flush 4 2 \<lparr>deDone = \<lambda>_. False, deSink = \<lambda>w e. (SinkFailed, w), deArrived = \<lambda>_. [],
                deNow = \<lambda>_. 0, deRetry = \<lambda>w. (w = 0, w - 1), deWake = \<lambda>w. (False, w)\<rparr>
     (fst (enqueue ''entry'' (attach True emptyQueue))) (3 :: nat) = Some r"
proof -
  have "dqAttached (attach True emptyQueue)" by (simp add: attach_def)
  then show ?thesis
    using flush_returns [of "\<lparr>deDone = \<lambda>_. False, deSink = \<lambda>w e. (SinkFailed, w), deArrived = \<lambda>_. [],
                deNow = \<lambda>_. 0, deRetry = \<lambda>w. (w = 0, w - 1), deWake = \<lambda>w. (False, w)\<rparr>" id
          "fst (enqueue ''entry'' (attach True emptyQueue))" "3 :: nat"]
    by (simp add: emptyQueue_def attach_def enqueue_def Let_def backlogWarn_def numeral_2_eq_2
        numeral_3_eq_3 eval_nat_numeral)
qed

end
