(* ===== verification/StateJsonl.thy ===== *)
theory StateJsonl
  imports GoStringFacts
begin

text \<open>
  \<open>internal/state/jsonl.go\<close>: the append-only file shared by the logs of the state directory,
  at byte level. A file is its bytes, or absent. The outcome of every system call is an
  argument: how many bytes a write put down and whether it, the sync or the truncation failed.
  \<open>encoding/json\<close> is a parameter, a pair of functions on bytes.
\<close>

section \<open>Files and failures\<close>

definition newline :: char where "newline = CHR 0x0A"

definition maxRecordBytes :: nat where "maxRecordBytes = 65536"

datatype stateError =
    OpenFailed | SizeFailed | TailUnreadable | NoRecordBoundary | RepairFailed | RepairUnsynced
  | RecordTooLong | LogClosed | LogUnwritable | AppendFailed | EncodeFailed | CloseFailed
  | NoState | LineTooLong nat | ReadFailed | NotARecord nat

text \<open>\<open>Truncate\<close>, which also extends a shorter file with zero bytes.\<close>

definition truncateTo :: "nat \<Rightarrow> string \<Rightarrow> string" where
  "truncateTo n file = take n file @ replicate (n - length file) (CHR 0x00)"

fun lastIndexOf :: "char \<Rightarrow> string \<Rightarrow> nat option" where
  "lastIndexOf c [] = None"
| "lastIndexOf c (x # xs) =
     (case lastIndexOf c xs of
        Some i \<Rightarrow> Some (Suc i)
      | None \<Rightarrow> if x = c then Some 0 else None)"

section \<open>Opening\<close>

record openFaults =
  ofOpen :: bool
  ofStat :: bool
  ofRead :: bool
  ofTruncate :: bool
  ofSync :: bool
  ofAppend :: bool
  ofAppendStat :: bool

record appendLog =
  alOpen :: bool
  alOffset :: nat
  alBroken :: bool
  alRepaired :: nat

text \<open>The error or the number of bytes dropped, and the file; \<open>O_CREATE\<close> makes an absent file empty.\<close>

definition repairTail :: "openFaults \<Rightarrow> string option \<Rightarrow> (stateError + nat) \<times> string option" where
  "repairTail f stored =
     (if ofOpen f then (Inl OpenFailed, stored)
      else
        (let file = (case stored of None \<Rightarrow> [] | Some s \<Rightarrow> s); size = length file in
         if ofStat f then (Inl SizeFailed, Some file)
         else if size = 0 then (Inr 0, Some file)
         else
           (let window = (if maxRecordBytes > size then size else maxRecordBytes);
                buf = drop (size - window) file
            in if ofRead f then (Inl TailUnreadable, Some file)
               else if last buf = newline then (Inr 0, Some file)
               else
                 (case (case lastIndexOf newline buf of
                          Some i \<Rightarrow> Some (size - window + i + 1)
                        | None \<Rightarrow> if window = size then Some 0 else None) of
                    None \<Rightarrow> (Inl NoRecordBoundary, Some file)
                  | Some keep \<Rightarrow>
                      if ofTruncate f then (Inl RepairFailed, Some file)
                      else if ofSync f then (Inl RepairUnsynced, Some (truncateTo keep file))
                      else (Inr (size - keep), Some (truncateTo keep file))))))"

definition openAppendLog :: "openFaults \<Rightarrow> string option \<Rightarrow> (stateError + appendLog) \<times> string option" where
  "openAppendLog f stored =
     (case repairTail f stored of
        (Inl err, file) \<Rightarrow> (Inl err, file)
      | (Inr repaired, file) \<Rightarrow>
          if ofAppend f then (Inl OpenFailed, file)
          else if ofAppendStat f then (Inl SizeFailed, file)
          else
            (Inr \<lparr>alOpen = True, alOffset = length (case file of None \<Rightarrow> [] | Some s \<Rightarrow> s),
                  alBroken = False, alRepaired = repaired\<rparr>, file))"

section \<open>Appending\<close>

text \<open>
  What the system calls of one append do: the bytes the write puts down before it fails, whether
  it fails, whether the seam of the tests does, whether the sync does and whether the
  truncation of the rollback does. A write that is short always fails.
\<close>

record ioOutcome =
  ioWritten :: nat
  ioWriteFails :: bool
  ioInjected :: bool
  ioSyncFails :: bool
  ioTruncateFails :: bool

definition rollback :: "ioOutcome \<Rightarrow> nat \<Rightarrow> appendLog \<times> string \<Rightarrow> stateError \<times> appendLog \<times> string" where
  "rollback io to s =
     (case s of (l, file) \<Rightarrow>
        if ioTruncateFails io then (LogUnwritable, l\<lparr>alBroken := True\<rparr>, file)
        else (AppendFailed, l\<lparr>alOffset := to\<rparr>, truncateTo to file))"

definition appendRecord ::
  "ioOutcome \<Rightarrow> string \<Rightarrow> appendLog \<times> string \<Rightarrow> stateError option \<times> appendLog \<times> string" where
  "appendRecord io body0 s =
     (case s of (l, file) \<Rightarrow>
        if length body0 + 1 > maxRecordBytes then (Some RecordTooLong, l, file)
        else
          (let body = body0 @ [newline] in
           if \<not> alOpen l then (Some LogClosed, l, file)
           else if alBroken l then (Some LogUnwritable, l, file)
           else
             (let before = alOffset l;
                  n = (if ioWritten io < length body then ioWritten io else length body);
                  l1 = l\<lparr>alOffset := alOffset l + n\<rparr>;
                  file1 = file @ take n body;
                  failed = ioWriteFails io \<or> n < length body \<or> ioInjected io \<or> ioSyncFails io
              in if failed then
                   (case rollback io before (l1, file1) of (err, s') \<Rightarrow> (Some err, s'))
                 else (None, l1, file1))))"

definition closeLog :: "bool \<Rightarrow> appendLog \<Rightarrow> stateError option \<times> appendLog" where
  "closeLog fails l =
     (if \<not> alOpen l then (None, l)
      else ((if fails then Some CloseFailed else None), l\<lparr>alOpen := False\<rparr>))"

section \<open>Reading\<close>

text \<open>\<open>bufio.Reader.ReadSlice\<close> on a buffer of \<open>maxRecordBytes\<close>: a line, an overfull buffer or the end.\<close>

datatype slice = SliceLine string string | SliceFull | SliceEOF

definition readSlice :: "string \<Rightarrow> slice" where
  "readSlice s =
     (let head = take maxRecordBytes s in
      if newline \<in> set head then
        (let k = length (takeWhile (\<lambda>c. c \<noteq> newline) head) + 1
         in SliceLine (take k s) (drop k s))
      else if length s \<ge> maxRecordBytes then SliceFull
      else SliceEOF)"

lemma readSlice_shrinks: "readSlice s = SliceLine raw rest \<Longrightarrow> length rest < length s"
  by (cases s) (auto simp: readSlice_def Let_def split: if_splits)

text \<open>
  \<open>walkLog\<close> with the callback threading a state; \<open>reads\<close> says at which line the read itself fails.
\<close>

function walkLoop ::
  "(string \<Rightarrow> 'r option) \<Rightarrow> (nat \<Rightarrow> bool) \<Rightarrow> ('r \<Rightarrow> 's \<Rightarrow> 's) \<Rightarrow> nat \<Rightarrow> string \<Rightarrow> 's
   \<Rightarrow> stateError option \<times> 's" where
  "walkLoop unmarshal fails visit line rest s =
     (case readSlice rest of
        SliceFull \<Rightarrow> (Some (LineTooLong line), s)
      | SliceEOF \<Rightarrow> if fails line then (Some ReadFailed, s) else (None, s)
      | SliceLine raw rest' \<Rightarrow>
          if fails line then (Some ReadFailed, s)
          else if trimSpace raw = [] then walkLoop unmarshal fails visit (line + 1) rest' s
          else case unmarshal raw of
                 None \<Rightarrow> (Some (NotARecord line), s)
               | Some rec \<Rightarrow> walkLoop unmarshal fails visit (line + 1) rest' (visit rec s))"
  by pat_completeness auto
termination
  by (relation "measure (\<lambda>(_, _, _, _, rest, _). length rest)") (auto dest: readSlice_shrinks)

declare walkLoop.simps [simp del]

definition walkLog ::
  "bool \<Rightarrow> (nat \<Rightarrow> bool) \<Rightarrow> (string \<Rightarrow> 'r option) \<Rightarrow> string option \<Rightarrow> ('r \<Rightarrow> 's \<Rightarrow> 's) \<Rightarrow> 's
   \<Rightarrow> stateError option \<times> 's" where
  "walkLog openFails fails unmarshal stored visit s =
     (case stored of
        None \<Rightarrow> (Some NoState, s)
      | Some file \<Rightarrow>
          if openFails then (Some ReadFailed, s)
          else walkLoop unmarshal fails visit 1 file s)"

section \<open>Lines\<close>

text \<open>The bytes of a log whose records have the given bodies.\<close>

definition logBytes :: "string list \<Rightarrow> string" where
  "logBytes bodies = concat (map (\<lambda>b. b @ [newline]) bodies)"

text \<open>A body the writer accepts: within the limit, and one line.\<close>

definition recordBody :: "string \<Rightarrow> bool" where
  "recordBody b \<longleftrightarrow> newline \<notin> set b \<and> length b + 1 \<le> maxRecordBytes"

lemma logBytes_simps [simp]:
  "logBytes [] = []"
  "logBytes (b # bs) = b @ newline # logBytes bs"
  "logBytes (bs @ cs) = logBytes bs @ logBytes cs"
  by (simp_all add: logBytes_def)

lemma lastIndexOf_none: "newline \<notin> set s \<Longrightarrow> lastIndexOf newline s = None"
  by (induction s) auto

lemma lastIndexOf_last: "c \<notin> set s \<Longrightarrow> lastIndexOf c (p @ c # s) = Some (length p)"
proof (induction p)
  case Nil
  have "lastIndexOf c s = None" using Nil by (induction s) auto
  then show ?case by simp
qed simp

lemma last_logBytes: "bs \<noteq> [] \<Longrightarrow> \<exists>p. logBytes bs = p @ [newline]"
  by (cases bs rule: rev_cases) auto

section \<open>A torn tail is repaired\<close>

definition noOpenFaults :: openFaults where
  "noOpenFaults = \<lparr>ofOpen = False, ofStat = False, ofRead = False, ofTruncate = False,
                   ofSync = False, ofAppend = False, ofAppendStat = False\<rparr>"

lemma truncateTo_prefix [simp]: "truncateTo (length p) (p @ s) = p"
  by (simp add: truncateTo_def)

lemma repairTail_whole: "repairTail noOpenFaults (Some (logBytes bs)) = (Inr 0, Some (logBytes bs))"
proof (cases "bs = []")
  case False
  then obtain p where p: "logBytes bs = p @ [newline]" using last_logBytes by blast
  show ?thesis
    unfolding p by (simp add: repairTail_def noOpenFaults_def Let_def last_drop maxRecordBytes_def)
qed (simp add: repairTail_def noOpenFaults_def)

lemma repairTail_torn:
  assumes frag: "newline \<notin> set frag" "length frag < maxRecordBytes" "frag \<noteq> []"
  shows "repairTail noOpenFaults (Some (logBytes bs @ frag)) = (Inr (length frag), Some (logBytes bs))"
proof -
  have notlast: "last frag \<noteq> newline" using frag last_in_set by fastforce
  show ?thesis
  proof (cases "bs = []")
    case True
    then show ?thesis
      using notlast frag by (simp add: repairTail_def noOpenFaults_def Let_def lastIndexOf_none truncateTo_def)
  next
    case False
    then obtain p where p: "logBytes bs = p @ [newline]" using last_logBytes by blast
    define whole where "whole = p @ newline # frag"
    define window where "window = (if maxRecordBytes > length whole then length whole else maxRecordBytes)"
    have d: "length whole - window \<le> length p" using frag by (auto simp: whole_def window_def)
    have buf: "drop (length whole - window) whole = drop (length whole - window) p @ newline # frag"
      using d by (simp add: whole_def)
    have "lastIndexOf newline (drop (length whole - window) whole) = Some (length p - (length whole - window))"
      unfolding buf using lastIndexOf_last [OF frag(1)] by simp
    moreover have "last (drop (length whole - window) whole) \<noteq> newline"
      unfolding buf using frag(3) notlast by simp
    moreover have "length whole - window + (length p - (length whole - window)) + 1 = Suc (length p)"
      using d by simp
    moreover have "truncateTo (Suc (length p)) whole = p @ [newline]"
      using truncateTo_prefix [of "p @ [newline]" frag] by (simp add: whole_def)
    moreover have "whole \<noteq> []" "length whole - Suc (length p) = length frag" by (simp_all add: whole_def)
    ultimately have "repairTail noOpenFaults (Some whole) = (Inr (length frag), Some (p @ [newline]))"
      unfolding repairTail_def
      by (simp add: noOpenFaults_def Let_def flip: window_def)
    then show ?thesis by (simp add: p whole_def)
  qed
qed

lemma openAppendLog_whole:
  "openAppendLog noOpenFaults (Some (logBytes bs)) =
     (Inr \<lparr>alOpen = True, alOffset = length (logBytes bs), alBroken = False, alRepaired = 0\<rparr>,
      Some (logBytes bs))"
  by (simp only: openAppendLog_def repairTail_whole) (simp add: noOpenFaults_def)

lemma openAppendLog_torn:
  assumes "recordBody b"
  shows "openAppendLog noOpenFaults (Some (logBytes bs @ take j (b @ [newline]))) =
     (let kept = bs @ (if j \<le> length b then [] else [b]) in
      (Inr \<lparr>alOpen = True, alOffset = length (logBytes kept), alBroken = False,
            alRepaired = (if j \<le> length b then j else 0)\<rparr>, Some (logBytes kept)))"
proof (cases "j = 0 \<or> j > length b")
  case True
  then have "logBytes bs @ take j (b @ [newline]) = logBytes (bs @ (if j \<le> length b then [] else [b]))"
    by auto
  then show ?thesis using True
    by (simp only: openAppendLog_def repairTail_whole) (auto simp: noOpenFaults_def Let_def)
next
  case False
  have "length (take j b) < maxRecordBytes" "newline \<notin> set (take j b)" "take j b \<noteq> []"
    using False assms in_set_takeD by (fastforce simp: recordBody_def)+
  then have "repairTail noOpenFaults (Some (logBytes bs @ take j b)) = (Inr (length (take j b)), Some (logBytes bs))"
    by (intro repairTail_torn)
  then show ?thesis using False by (simp add: openAppendLog_def) (simp add: noOpenFaults_def)
qed

text \<open>
  A crash in the middle of an append costs the record it was writing and nothing else:
  opening a log that holds complete records followed by any first bytes of another, cut
  anywhere, leaves exactly the complete records, reports the bytes dropped, and is ready to
  append at their end. A record whose last byte reached the file is kept.
\<close>

theorem torn_tail_is_repaired:
  assumes "recordBody b"
  shows "openAppendLog noOpenFaults (Some (logBytes bs @ take j (b @ [newline]))) =
     (let kept = bs @ (if j \<le> length b then [] else [b]) in
      (Inr \<lparr>alOpen = True, alOffset = length (logBytes kept), alBroken = False,
            alRepaired = (if j \<le> length b then j else 0)\<rparr>, Some (logBytes kept)))"
  by (rule openAppendLog_torn [OF assms])

theorem torn_tail_is_repaired_witness:
  "openAppendLog noOpenFaults (Some (logBytes [''{1}'', ''{2}''] @ take 2 (''{34}'' @ [newline]))) =
   (Inr \<lparr>alOpen = True, alOffset = 8, alBroken = False, alRepaired = 2\<rparr>, Some (logBytes [''{1}'', ''{2}'']))"
proof -
  have "recordBody ''{34}''" by (simp add: recordBody_def newline_def maxRecordBytes_def)
  from torn_tail_is_repaired [OF this, of "[''{1}'', ''{2}'']" 2] show ?thesis by simp
qed

section \<open>An append is all or nothing\<close>

definition logGood :: "appendLog \<times> string \<Rightarrow> bool" where
  "logGood s \<longleftrightarrow> \<not> alBroken (fst s) \<longrightarrow> alOffset (fst s) = length (snd s)"

lemma rollback_restores:
  "rollback io (length file) (l, file @ part) =
     (if ioTruncateFails io then (LogUnwritable, l\<lparr>alBroken := True\<rparr>, file @ part)
      else (AppendFailed, l\<lparr>alOffset := length file\<rparr>, file))"
  by (simp add: rollback_def)

lemma appendRecord_outcome:
  assumes "logGood (l, file)" and "appendRecord io b (l, file) = (r, l', file')"
  obtains (appended) "r = None" "\<not> alBroken l" "\<not> alBroken l'" "file' = file @ b @ [newline]"
      "alOffset l' = length file'" "length b + 1 \<le> maxRecordBytes" "alOpen l"
  | (brokenNow) j where "r = Some LogUnwritable" "\<not> alBroken l" "alBroken l'"
      "file' = file @ take j (b @ [newline])" "length b + 1 \<le> maxRecordBytes"
  | (alreadyBroken) "r = Some LogUnwritable" "alBroken l" "l' = l" "file' = file"
  | (refused) "r \<in> {Some RecordTooLong, Some LogClosed, Some AppendFailed}" "l' = l" "file' = file"
proof -
  consider "length b + 1 > maxRecordBytes \<or> \<not> alOpen l"
    | "length b + 1 \<le> maxRecordBytes" "alOpen l" "alBroken l"
    | "length b + 1 \<le> maxRecordBytes" "alOpen l" "\<not> alBroken l" by fastforce
  then show ?thesis
  proof cases
    case 1
    then show ?thesis using assms refused by (auto simp: appendRecord_def Let_def split: if_splits)
  next
    case 2
    then have "appendRecord io b (l, file) = (Some LogUnwritable, l, file)"
      by (simp add: appendRecord_def Let_def)
    then show ?thesis using assms(2) 2(3) alreadyBroken by simp
  next
    case 3
    then have off: "alOffset l = length file" using assms by (simp add: logGood_def)
    define n where "n = (if ioWritten io < Suc (length b) then ioWritten io else Suc (length b))"
    define fails where "fails \<longleftrightarrow> ioWriteFails io \<or> n < Suc (length b) \<or> ioInjected io \<or> ioSyncFails io"
    let ?l = "l\<lparr>alOffset := length file + n\<rparr>" and ?file = "file @ take n (b @ [newline])"
    have run: "appendRecord io b (l, file) =
        (if fails then (case rollback io (length file) (?l, ?file) of (err, s') \<Rightarrow> (Some err, s'))
         else (None, ?l, ?file))"
      unfolding n_def fails_def using 3 off by (simp add: appendRecord_def Let_def)
    have restored: "?l\<lparr>alOffset := length file\<rparr> = l" using off by simp
    consider "\<not> fails" | "fails" "ioTruncateFails io" | "fails" "\<not> ioTruncateFails io" by blast
    then show ?thesis
    proof cases
      case 1
      then have "n = Suc (length b)" by (simp add: fails_def n_def split: if_splits)
      then show ?thesis using assms(2) run 1 3 by (intro appended) auto
    next
      case 2
      then show ?thesis
        using assms(2) run 3 by (intro brokenNow [of n]) (auto simp: rollback_restores)
    next
      case 3
      then show ?thesis
        using assms(2) run restored by (intro refused) (auto simp: rollback_restores)
    qed
  qed
qed

lemma appendRecord_good:
  "logGood (l, file) \<Longrightarrow> appendRecord io b (l, file) = (r, s') \<Longrightarrow> logGood s'"
  by (cases s') (auto simp: logGood_def elim!: appendRecord_outcome [rotated])

text \<open>
  C30. An append either puts the whole record at the end of the file and acknowledges it, or
  reports an error and leaves log and file as they were, whatever the write, the sync and the
  rollback did. The exception is a rollback that fails too, which reports the log unwritable
  with some first bytes of the record in the file; from then on every append is refused and
  the file never changes again.
\<close>

theorem append_is_all_or_nothing:
  assumes "logGood (l, file)" and "appendRecord io b (l, file) = (r, l', file')"
  shows "case r of
      None \<Rightarrow> file' = file @ b @ [newline] \<and> \<not> alBroken l'
    | Some LogUnwritable \<Rightarrow>
        alBroken l' \<and> (\<exists>j. file' = file @ take j (b @ [newline])) \<and>
        (\<forall>io' b'. appendRecord io' b' (l', file') \<noteq> (None, l', file')
           \<and> snd (appendRecord io' b' (l', file')) = (l', file'))
    | Some _ \<Rightarrow> l' = l \<and> file' = file"
proof -
  have stuck: "appendRecord io' b' (l', file') \<noteq> (None, l', file')
      \<and> snd (appendRecord io' b' (l', file')) = (l', file')" if "alBroken l'" for io' b'
    using that by (simp add: appendRecord_def Let_def)
  from assms show ?thesis
  proof (cases rule: appendRecord_outcome)
    case (brokenNow j)
    then show ?thesis using stuck by auto
  next
    case alreadyBroken
    then have "file' = file @ take 0 (b @ [newline])" by simp
    then show ?thesis using alreadyBroken stuck by auto
  qed auto
qed

theorem append_is_all_or_nothing_witness:
  "let io = \<lparr>ioWritten = 2, ioWriteFails = False, ioInjected = False, ioSyncFails = False,
             ioTruncateFails = True\<rparr>;
       l = \<lparr>alOpen = True, alOffset = 4, alBroken = False, alRepaired = 0\<rparr>;
       file = ''{1}'' @ [newline]
   in (\<exists>j. snd (snd (appendRecord io ''{2}'' (l, file))) = file @ take j (''{2}'' @ [newline]))
      \<and> fst (appendRecord io ''{2}'' (l, file)) = Some LogUnwritable"
proof -
  define io where "io = \<lparr>ioWritten = 2, ioWriteFails = False, ioInjected = False, ioSyncFails = False,
             ioTruncateFails = True\<rparr>"
  define l where "l = \<lparr>alOpen = True, alOffset = 4, alBroken = False, alRepaired = 0\<rparr>"
  have g: "logGood (l, ''{1}'' @ [newline])" by (simp add: logGood_def l_def)
  have r: "appendRecord io ''{2}'' (l, ''{1}'' @ [newline])
      = (Some LogUnwritable, l\<lparr>alOffset := 6, alBroken := True\<rparr>, ''{1}'' @ [newline] @ ''{2'')"
    by (simp add: appendRecord_def rollback_def Let_def io_def l_def maxRecordBytes_def)
  from append_is_all_or_nothing [OF g r] r show ?thesis
    by (simp add: Let_def flip: io_def l_def)
qed

section \<open>What is written is read back\<close>

lemma readSlice_line:
  assumes "recordBody b"
  shows "readSlice (b @ newline # rest) = SliceLine (b @ [newline]) rest"
proof -
  have "take maxRecordBytes (b @ newline # rest) =
      b @ newline # take (maxRecordBytes - Suc (length b)) rest"
    using assms by (cases "maxRecordBytes - length b") (auto simp: recordBody_def diff_Suc)
  moreover have "takeWhile (\<lambda>c. c \<noteq> newline) (b @ newline # t) = b" for t
    using assms by (induction b) (auto simp: recordBody_def)
  ultimately show ?thesis by (simp add: readSlice_def Let_def)
qed

lemma readSlice_end:
  "newline \<notin> set frag \<Longrightarrow> length frag < maxRecordBytes \<Longrightarrow> readSlice frag = SliceEOF"
  by (auto simp: readSlice_def Let_def dest: in_set_takeD)

text \<open>A line the reader decodes to a given record.\<close>

definition readsAs :: "(string \<Rightarrow> 'r option) \<Rightarrow> string \<Rightarrow> 'r \<Rightarrow> bool" where
  "readsAs unmarshal b rec \<longleftrightarrow>
     recordBody b \<and> trimSpace (b @ [newline]) \<noteq> [] \<and> unmarshal (b @ [newline]) = Some rec"

lemma walkLoop_lines:
  "list_all2 (readsAs unmarshal) bs recs \<Longrightarrow>
   walkLoop unmarshal (\<lambda>_. False) visit line (logBytes bs @ rest) s =
   walkLoop unmarshal (\<lambda>_. False) visit (line + length bs) rest (fold visit recs s)"
proof (induction bs recs arbitrary: line s rule: list_all2_induct)
  case (Cons b bs rec recs)
  then show ?case
    by (subst walkLoop.simps) (simp add: readsAs_def readSlice_line)
qed simp

lemma walkLoop_end:
  "newline \<notin> set frag \<Longrightarrow> length frag < maxRecordBytes \<Longrightarrow>
   walkLoop unmarshal (\<lambda>_. False) visit line frag s = (None, s)"
  by (subst walkLoop.simps) (simp add: readSlice_end)

lemma walkLog_reads:
  assumes "list_all2 (readsAs unmarshal) bs recs" and "newline \<notin> set frag" "length frag < maxRecordBytes"
  shows "walkLog False (\<lambda>_. False) unmarshal (Some (logBytes bs @ frag)) visit s = (None, fold visit recs s)"
  by (simp add: walkLog_def walkLoop_lines [OF assms(1)] walkLoop_end [OF assms(2,3)])

text \<open>
  The reader tells a torn tail from a hole: a log of complete records followed by a
  fragment reads as exactly those records, and a complete line that does not decode makes the
  whole read an error naming that line, whatever stands before or after it.
\<close>

theorem fragment_is_not_a_hole:
  assumes "list_all2 (readsAs unmarshal) bs recs"
    and "newline \<notin> set frag" "length frag < maxRecordBytes"
    and "recordBody bad" "trimSpace (bad @ [newline]) \<noteq> []" "unmarshal (bad @ [newline]) = None"
  shows "walkLog False (\<lambda>_. False) unmarshal (Some (logBytes bs @ frag)) (\<lambda>r rs. rs @ [r]) [] = (None, recs)
    \<and> fst (walkLog False (\<lambda>_. False) unmarshal (Some (logBytes (bs @ [bad]) @ rest)) visit s)
        = Some (NotARecord (length bs + 1))"
proof -
  have "fold (\<lambda>r rs. rs @ [r]) recs acc = acc @ recs" for acc by (induction recs arbitrary: acc) simp_all
  moreover have "fst (walkLoop unmarshal (\<lambda>_. False) visit line (bad @ newline # rest) s) = Some (NotARecord line)"
    for line s
    using assms(4-6) by (subst walkLoop.simps) (simp add: readSlice_line)
  ultimately show ?thesis
    by (simp add: walkLog_reads [OF assms(1-3)]) (simp add: walkLog_def walkLoop_lines [OF assms(1)])
qed

theorem fragment_is_not_a_hole_witness:
  "let unmarshal = (\<lambda>s. if s = ''{1}'' @ [newline] then Some (1 :: nat) else None) in
   walkLog False (\<lambda>_. False) unmarshal (Some (logBytes [''{1}''] @ ''{2'')) (\<lambda>r rs. rs @ [r]) [] = (None, [1])
   \<and> fst (walkLog False (\<lambda>_. False) unmarshal (Some (logBytes ([''{1}''] @ [''x'']) @ ''{1}'')) (\<lambda>_ n. n + 1) (0 :: nat))
       = Some (NotARecord 2)"
proof -
  define unmarshal where "unmarshal = (\<lambda>s. if s = ''{1}'' @ [newline] then Some (1 :: nat) else None)"
  have blank: "trimSpace (''{1}'' @ [newline]) \<noteq> []" "trimSpace (''x'' @ [newline]) \<noteq> []" by code_simp+
  have "list_all2 (readsAs unmarshal) [''{1}''] [1]"
    using blank by (simp add: readsAs_def recordBody_def unmarshal_def newline_def maxRecordBytes_def)
  moreover have "newline \<notin> set ''{2''" "length ''{2'' < maxRecordBytes" "recordBody ''x''"
      "unmarshal (''x'' @ [newline]) = None"
    by (simp_all add: recordBody_def unmarshal_def newline_def maxRecordBytes_def)
  ultimately show ?thesis
    unfolding Let_def unmarshal_def [symmetric]
    using fragment_is_not_a_hole [of unmarshal "[''{1}'']" "[1]" "''{2''" "''x''" "''{1}''" "\<lambda>_ n. n + 1" "0 :: nat"]
      blank by (simp add: numeral_2_eq_2)
qed

end
