(* ===== verification/StateDir.thy ===== *)
theory StateDir
  imports OrchLog DurableQueue StateJsonl
begin

text \<open>
  \<open>internal/state/transitions.go\<close> and the transition sink of \<open>cmd/ben/statedir.go\<close>: the on-disk
  transition log, its writer and its two readers, and the translation between the loop's
  entries and the file's records. At the end the loop's log, its durable queue and the file
  are composed: what a restarted daemon reads back of what its predecessor decided.
\<close>

section \<open>The transition file\<close>

record Transition =
  trTS :: time
  trIssue :: string
  trFrom :: string
  trTo :: string
  trActor :: string
  trReason :: string
  trRunID :: string
  trFailureReason :: string

definition failedState :: string where "failedState = ''failed''"

text \<open>\<open>marshal\<close> and \<open>unmarshal\<close> are \<open>encoding/json\<close> on a \<open>Transition\<close>.\<close>

definition TransitionWriterAppend ::
  "(Transition \<Rightarrow> string option) \<Rightarrow> ioOutcome \<Rightarrow> Transition \<Rightarrow> appendLog \<times> string
   \<Rightarrow> stateError option \<times> appendLog \<times> string" where
  "TransitionWriterAppend marshal io t s =
     (case marshal t of None \<Rightarrow> (Some EncodeFailed, s) | Some body \<Rightarrow> appendRecord io body s)"

definition tailVisit :: "int \<Rightarrow> Transition \<Rightarrow> Transition list \<times> nat \<Rightarrow> Transition list \<times> nat" where
  "tailVisit n t s =
     (case s of (ring, seen) \<Rightarrow>
        (let ring1 = ring @ [t]
         in (if n > 0 \<and> int (length ring1) > n then tl ring1 else ring1, seen + 1)))"

definition Tail ::
  "bool \<Rightarrow> (nat \<Rightarrow> bool) \<Rightarrow> (string \<Rightarrow> Transition option) \<Rightarrow> string option \<Rightarrow> int
   \<Rightarrow> stateError + (Transition list \<times> nat)" where
  "Tail openFails fails unmarshal stored n =
     (case walkLog openFails fails unmarshal stored (tailVisit n) ([], 0) of
        (Some err, _) \<Rightarrow> Inl err
      | (None, s) \<Rightarrow> Inr s)"

definition failureVisit :: "string \<Rightarrow> Transition \<Rightarrow> RunFailure option \<Rightarrow> RunFailure option" where
  "failureVisit issue t out =
     (if trIssue t \<noteq> issue \<or> trTo t \<noteq> failedState \<or> trFailureReason t = [] then out
      else Some \<lparr>rfAt = trTS t, rfReason = trFailureReason t, rfDetail = trReason t\<rparr>)"

definition TransitionReaderLastFailure ::
  "bool \<Rightarrow> (nat \<Rightarrow> bool) \<Rightarrow> (string \<Rightarrow> Transition option) \<Rightarrow> string option \<Rightarrow> string
   \<Rightarrow> stateError + RunFailure option" where
  "TransitionReaderLastFailure openFails fails unmarshal stored issue =
     (case walkLog openFails fails unmarshal stored (failureVisit issue) None of
        (Some err, _) \<Rightarrow> Inl err
      | (None, out) \<Rightarrow> Inr out)"

section \<open>The sink\<close>

definition toTransition :: "TransitionEntry \<Rightarrow> Transition" where
  "toTransition e =
     \<lparr>trTS = teTS e, trIssue = teIssue e, trFrom = teFrom e, trTo = teTo e, trActor = teActor e,
      trReason = teReason e, trRunID = teRunID e, trFailureReason = teFailure e\<rparr>"

definition unwritable :: "stateError option \<Rightarrow> sinkResult" where
  "unwritable err =
     (case err of
        None \<Rightarrow> SinkOk
      | Some LogUnwritable \<Rightarrow> SinkUnwritable
      | Some _ \<Rightarrow> SinkFailed)"

definition transitionSinkAppend ::
  "(Transition \<Rightarrow> string option) \<Rightarrow> ioOutcome \<Rightarrow> TransitionEntry \<Rightarrow> appendLog \<times> string
   \<Rightarrow> sinkResult \<times> appendLog \<times> string" where
  "transitionSinkAppend marshal io e s =
     (case TransitionWriterAppend marshal io (toTransition e) s of (err, s') \<Rightarrow> (unwritable err, s'))"

text \<open>
  The writer's surroundings: the log handle, the file, and the number of calls made so far, which
  indexes a schedule of everything outside the daemon's control.
\<close>

record logWorld =
  lwLog :: appendLog
  lwFile :: string
  lwCalls :: nat

record schedule =
  scDone :: "nat \<Rightarrow> bool"
  scIo :: "nat \<Rightarrow> ioOutcome"
  scArrived :: "nat \<Rightarrow> TransitionEntry list"
  scNow :: "nat \<Rightarrow> time"
  scWait :: "nat \<Rightarrow> bool"

definition transitionEnv ::
  "(Transition \<Rightarrow> string option) \<Rightarrow> schedule \<Rightarrow> (TransitionEntry, logWorld) drainEnv" where
  "transitionEnv marshal sc =
     \<lparr>deDone = \<lambda>w. scDone sc (lwCalls w),
      deSink = \<lambda>w e.
        (case transitionSinkAppend marshal (scIo sc (lwCalls w)) e (lwLog w, lwFile w) of
           (res, l, file) \<Rightarrow> (res, w\<lparr>lwLog := l, lwFile := file, lwCalls := lwCalls w + 1\<rparr>)),
      deArrived = \<lambda>w. scArrived sc (lwCalls w),
      deNow = \<lambda>w. scNow sc (lwCalls w),
      deRetry = \<lambda>w. (scWait sc (lwCalls w), w\<lparr>lwCalls := lwCalls w + 1\<rparr>),
      deWake = \<lambda>w. (scWait sc (lwCalls w), w\<lparr>lwCalls := lwCalls w + 1\<rparr>)\<rparr>"

section \<open>The file is a durable sink\<close>

definition entryBytes :: "(Transition \<Rightarrow> string option) \<Rightarrow> TransitionEntry \<Rightarrow> string" where
  "entryBytes marshal e =
     (case marshal (toTransition e) of None \<Rightarrow> [] | Some body \<Rightarrow> body @ [newline])"

definition worldGood :: "logWorld \<Rightarrow> bool" where
  "worldGood w \<longleftrightarrow> logGood (lwLog w, lwFile w)"

definition entryFits :: "(Transition \<Rightarrow> string option) \<Rightarrow> TransitionEntry \<Rightarrow> bool" where
  "entryFits marshal e =
     (case marshal (toTransition e) of None \<Rightarrow> False | Some body \<Rightarrow> length body + 1 \<le> maxRecordBytes)"

abbreviation worldBroken :: "logWorld \<Rightarrow> bool" where
  "worldBroken w \<equiv> alBroken (lwLog w)"

lemma transitionSink_outcome:
  assumes good: "logGood (l, file)"
    and run: "transitionSinkAppend marshal io e (l, file) = (res, l', file')"
  shows "logGood (l', file')"
    and "res = SinkOk \<Longrightarrow> \<not> alBroken l \<and> \<not> alBroken l' \<and> entryFits marshal e \<and> file' = file @ entryBytes marshal e"
    and "res = SinkFailed \<Longrightarrow> alBroken l' = alBroken l \<and> file' = file"
    and "res = SinkUnwritable \<Longrightarrow> alBroken l' \<and> (\<exists>j. file' = file @ take j (entryBytes marshal e) \<and> (j = 0 \<or> entryFits marshal e))
           \<and> (alBroken l \<longrightarrow> file' = file)"
proof -
  have "logGood (l', file') \<and>
      (res = SinkOk \<longrightarrow> \<not> alBroken l \<and> \<not> alBroken l' \<and> entryFits marshal e \<and> file' = file @ entryBytes marshal e) \<and>
      (res = SinkFailed \<longrightarrow> alBroken l' = alBroken l \<and> file' = file) \<and>
      (res = SinkUnwritable \<longrightarrow> alBroken l' \<and> (\<exists>j. file' = file @ take j (entryBytes marshal e) \<and> (j = 0 \<or> entryFits marshal e))
           \<and> (alBroken l \<longrightarrow> file' = file))"
  proof (cases "marshal (toTransition e)")
    case None
    then show ?thesis
      using good run by (auto simp: transitionSinkAppend_def TransitionWriterAppend_def unwritable_def)
  next
    case (Some body)
    then obtain r where r: "appendRecord io body (l, file) = (r, l', file')" "res = unwritable r"
      using run by (auto simp: transitionSinkAppend_def TransitionWriterAppend_def split: prod.splits)
    have g: "logGood (l', file')" using appendRecord_good [OF good r(1)] .
    from good r(1) show ?thesis
    proof (cases rule: appendRecord_outcome)
      case alreadyBroken
      then have "file' = file @ take 0 (entryBytes marshal e)" by simp
      then show ?thesis using g alreadyBroken r by (auto simp: unwritable_def)
    qed (use g r Some in \<open>auto simp: unwritable_def entryBytes_def entryFits_def\<close>)
  qed
  then show "logGood (l', file')"
    and "res = SinkOk \<Longrightarrow> \<not> alBroken l \<and> \<not> alBroken l' \<and> entryFits marshal e \<and> file' = file @ entryBytes marshal e"
    and "res = SinkFailed \<Longrightarrow> alBroken l' = alBroken l \<and> file' = file"
    and "res = SinkUnwritable \<Longrightarrow> alBroken l' \<and> (\<exists>j. file' = file @ take j (entryBytes marshal e) \<and> (j = 0 \<or> entryFits marshal e))
           \<and> (alBroken l \<longrightarrow> file' = file)"
    by blast+
qed

lemma transitionEnv_sink:
  "deSink (transitionEnv marshal sc) w e = (res, w') \<Longrightarrow>
   transitionSinkAppend marshal (scIo sc (lwCalls w)) e (lwLog w, lwFile w) = (res, lwLog w', lwFile w')"
  by (auto simp: transitionEnv_def split: prod.splits)

interpretation transition_file: durable_sink
  "transitionEnv marshal sc" worldGood worldBroken lwFile "entryBytes marshal" "entryFits marshal"
  for marshal sc
proof
  fix w e
  assume "worldGood w"
  then show "worldGood (snd (deSink (transitionEnv marshal sc) w e))"
    using transitionSink_outcome(1) [OF _ transitionEnv_sink [of marshal sc w e]]
    by (metis worldGood_def surjective_pairing)
next
  fix w e w'
  assume g: "worldGood w" and s: "deSink (transitionEnv marshal sc) w e = (SinkOk, w')"
  from transitionSink_outcome(2) [OF _ transitionEnv_sink [OF s]] g
  show "\<not> worldBroken w \<and> \<not> worldBroken w' \<and> entryFits marshal e \<and> lwFile w' = lwFile w @ entryBytes marshal e"
    by (simp add: worldGood_def)
next
  fix w e w'
  assume g: "worldGood w" and s: "deSink (transitionEnv marshal sc) w e = (SinkFailed, w')"
  from transitionSink_outcome(3) [OF _ transitionEnv_sink [OF s]] g
  show "worldBroken w' = worldBroken w \<and> lwFile w' = lwFile w" by (simp add: worldGood_def)
next
  fix w e w'
  assume g: "worldGood w" and s: "deSink (transitionEnv marshal sc) w e = (SinkUnwritable, w')"
  from transitionSink_outcome(4) [OF _ transitionEnv_sink [OF s]] g
  show "worldBroken w' \<and> (\<exists>j. lwFile w' = lwFile w @ take j (entryBytes marshal e) \<and> (j = 0 \<or> entryFits marshal e))
      \<and> (worldBroken w \<longrightarrow> lwFile w' = lwFile w)"
    by (simp add: worldGood_def)
qed (simp_all add: transitionEnv_def worldGood_def)

section \<open>The readers\<close>

lemma fold_failureVisit:
  "fold (failureVisit issue) (map toTransition es) None = LastFailure es issue"
proof (induction es rule: rev_induct)
  case (snoc e es)
  then show ?case
    by (simp add: failureVisit_def toTransition_def LastFailure_def failedState_def StateFailed_def)
qed (simp add: LastFailure_def)

text \<open>
  The durable reader of the last failure agrees with the in-memory one: over a file that
  holds a log's entries, a torn tail included, \<open>TransitionReader.LastFailure\<close> reports exactly
  what \<open>TransitionLog.LastFailure\<close> reports over the entries.
\<close>

theorem last_failure_readers_agree:
  assumes "list_all2 (readsAs unmarshal) bs (map toTransition es)"
    and "newline \<notin> set frag" "length frag < maxRecordBytes"
  shows "TransitionReaderLastFailure False (\<lambda>_. False) unmarshal (Some (logBytes bs @ frag)) issue
     = Inr (LastFailure es issue)"
  by (simp add: TransitionReaderLastFailure_def walkLog_reads [OF assms] fold_failureVisit)

lemma fold_tailVisit:
  "fold (tailVisit n) recs ([], 0) =
     (if n > 0 then drop (length recs - nat n) recs else recs, length recs)"
proof (induction recs rule: rev_induct)
  case (snoc r recs)
  show ?case
  proof (cases "0 < n \<and> int (length recs) \<ge> n")
    case True
    then have "drop (length recs - nat n) recs \<noteq> []" by auto
    moreover have "tl (drop (length recs - nat n) recs) = drop (Suc (length recs) - nat n) recs"
      using True by (simp add: Suc_diff_le drop_Suc tl_drop nat_le_iff)
    ultimately show ?thesis using snoc True by (auto simp: tailVisit_def Let_def)
  next
    case False
    then show ?thesis using snoc by (auto simp: tailVisit_def Let_def)
  qed
qed (simp add: tailVisit_def)

lemma Tail_reads:
  assumes "list_all2 (readsAs unmarshal) bs recs"
  shows "Tail False (\<lambda>_. False) unmarshal (Some (logBytes bs)) n =
     Inr (if n > 0 then drop (length recs - nat n) recs else recs, length recs)"
  using walkLog_reads [OF assms, of "[]" "tailVisit n" "([], 0)"]
  by (simp add: Tail_def fold_tailVisit maxRecordBytes_def)

section \<open>What a restart reads back\<close>

text \<open>
  The documented behaviour of \<open>encoding/json\<close> the log relies on: a record encodes to one line
  that is not blank and decodes to the record, up to a normalization \<open>canon\<close> of its strings
  (bytes that are not UTF-8 are replaced).
\<close>

definition jsonReads ::
  "(Transition \<Rightarrow> string option) \<Rightarrow> (string \<Rightarrow> Transition option) \<Rightarrow> (Transition \<Rightarrow> Transition)
   \<Rightarrow> Transition \<Rightarrow> bool" where
  "jsonReads marshal unmarshal canon t =
     (case marshal t of
        None \<Rightarrow> True
      | Some b \<Rightarrow> newline \<notin> set b \<and> trimSpace (b @ [newline]) \<noteq> []
                 \<and> unmarshal (b @ [newline]) = Some (canon t))"

lemma entries_read:
  assumes "\<And>t. jsonReads marshal unmarshal canon t"
  shows "list_all (entryFits marshal) es \<Longrightarrow>
    \<exists>bs. concat (map (entryBytes marshal) es) = logBytes bs
       \<and> list_all2 (readsAs unmarshal) bs (map (\<lambda>e. canon (toTransition e)) es)"
proof (induction es)
  case (Cons e es)
  then obtain bs where bs: "concat (map (entryBytes marshal) es) = logBytes bs"
      "list_all2 (readsAs unmarshal) bs (map (\<lambda>e. canon (toTransition e)) es)" by auto
  obtain b where b: "marshal (toTransition e) = Some b" "length b + 1 \<le> maxRecordBytes"
    using Cons.prems by (auto simp: entryFits_def split: option.splits)
  have "readsAs unmarshal b (canon (toTransition e))"
    using assms [of "toTransition e"] b by (simp add: jsonReads_def readsAs_def recordBody_def)
  moreover have "entryBytes marshal e = b @ [newline]" using b by (simp add: entryBytes_def)
  ultimately show ?case using bs by (intro exI [of _ "b # bs"]) simp
qed simp

lemma torn_entry_read:
  assumes "\<And>t. jsonReads marshal unmarshal canon t" and "entryFits marshal e"
  shows "\<exists>b k l. k \<le> (1 :: nat) \<and> list_all2 (readsAs unmarshal) (take k [b]) (map (\<lambda>e. canon (toTransition e)) (take k [e]))
     \<and> openAppendLog noOpenFaults (Some (logBytes bs @ take j (entryBytes marshal e)))
         = (Inr l, Some (logBytes (bs @ take k [b])))"
proof -
  obtain b where b: "marshal (toTransition e) = Some b" "length b + 1 \<le> maxRecordBytes"
    using assms(2) by (auto simp: entryFits_def split: option.splits)
  have r: "readsAs unmarshal b (canon (toTransition e))"
    using assms(1) [of "toTransition e"] b by (simp add: jsonReads_def readsAs_def recordBody_def)
  then have "recordBody b" by (simp add: readsAs_def)
  from openAppendLog_torn [OF this, of bs j] show ?thesis
    using r b by (intro exI [of _ b] exI [of _ "if j \<le> length b then 0 else 1"])
      (auto simp: entryBytes_def Let_def)
qed

text \<open>
  C6. What a restarted daemon reads is a prefix of what its predecessor logged. Let the writer
  start on a readable log and run in any way, with any failures of the disk, any waits and
  any arrivals, and let the next daemon open the file. It then reads the old records followed
  by the first \<open>k\<close> entries that were queued, in order and without a hole; all acknowledged
  entries are among them, and at most one more, the one the log broke on.
\<close>

theorem restart_reads_a_prefix:
  fixes d :: "(TransitionEntry, logWorld) drained"
  assumes json: "\<And>t. jsonReads marshal unmarshal canon t"
    and old: "list_all2 (readsAs unmarshal) bs old" "lwFile w = logBytes bs"
    and start: "worldGood w" "\<not> worldBroken w" "dqAttached q"
    and run: "persist n fuel (transitionEnv marshal sc) q w = Some d
      \<or> flush n fuel (transitionEnv marshal sc) q w = Some (d, lost)"
  shows "\<exists>k l file. let acked = length (filter snd (drOut d));
        logged = map (\<lambda>e. canon (toTransition e)) (take k (dqPending q @ drArrived d))
     in acked \<le> k \<and> k \<le> acked + 1 \<and>
        openAppendLog noOpenFaults (Some (lwFile (drOutside d))) = (Inr l, Some file) \<and>
        Tail False (\<lambda>_. False) unmarshal (Some file) 0 = Inr (old @ logged, length old + length logged)"
proof -
  have "inOrder q d" and "transition_file.noHoles marshal w (drOut d) (drOutside d)"
    using transition_file.writer_run [OF run start(3,1)] by simp_all
  then obtain acked dropped j where
      out: "drOut d = map (\<lambda>e. (e, True)) acked @ map (\<lambda>e. (e, False)) dropped"
    and wr: "lwFile (drOutside d) = lwFile w @ concat (map (entryBytes marshal) acked)
        @ take j (concat (map (entryBytes marshal) (take 1 dropped)))"
    and fit: "list_all (entryFits marshal) acked" "j = 0 \<or> list_all (entryFits marshal) (take 1 dropped)"
    and ord: "dqPending q @ drArrived d = map fst (drOut d) @ dqPending (drQueue d)"
    unfolding transition_file.noHoles_def inOrder_def by blast
  obtain as where as: "concat (map (entryBytes marshal) acked) = logBytes as"
      "list_all2 (readsAs unmarshal) as (map (\<lambda>e. canon (toTransition e)) acked)"
    using entries_read [OF json fit(1)] by blast
  have torn: "\<exists>ks k l. k \<le> length (take 1 dropped) \<and>
      list_all2 (readsAs unmarshal) ks (map (\<lambda>e. canon (toTransition e)) (take k dropped)) \<and>
      openAppendLog noOpenFaults (Some (lwFile (drOutside d))) = (Inr l, Some (logBytes (bs @ as @ ks)))"
  proof (cases "j = 0 \<or> dropped = []")
    case True
    then show ?thesis using openAppendLog_whole [of "bs @ as"] wr old as
      by (intro exI [of _ "[]"] exI [of _ 0]) (auto simp: Let_def)
  next
    case False
    then obtain e rest where dr: "dropped = e # rest" by (cases dropped) auto
    obtain b k l where "k \<le> (1 :: nat)"
        "list_all2 (readsAs unmarshal) (take k [b]) (map (\<lambda>e. canon (toTransition e)) (take k [e]))"
        "openAppendLog noOpenFaults (Some (logBytes (bs @ as) @ take j (entryBytes marshal e)))
           = (Inr l, Some (logBytes ((bs @ as) @ take k [b])))"
      using torn_entry_read [OF json, of e "bs @ as" j] fit(2) False dr by auto
    moreover have "take k (e # rest) = take k [e]" using \<open>k \<le> 1\<close> by (cases k) simp_all
    ultimately show ?thesis using wr old as dr
      by (intro exI [of _ "take k [b]"] exI [of _ k] exI [of _ l]) auto
  qed
  then obtain ks k l where k: "k \<le> length (take 1 dropped)"
      "list_all2 (readsAs unmarshal) ks (map (\<lambda>e. canon (toTransition e)) (take k dropped))"
      "openAppendLog noOpenFaults (Some (lwFile (drOutside d))) = (Inr l, Some (logBytes (bs @ as @ ks)))"
    by blast
  let ?k = "length acked + k"
  let ?logged = "map (\<lambda>e. canon (toTransition e)) (take ?k (dqPending q @ drArrived d))"
  have len: "length (filter snd (drOut d)) = length acked" by (simp add: out filter_map comp_def)
  have lg: "take ?k (dqPending q @ drArrived d) = acked @ take k dropped"
    using k(1) unfolding ord out by (simp add: comp_def)
  then have "list_all2 (readsAs unmarshal) (bs @ as @ ks) (old @ ?logged)"
    using old as k by (simp add: list_all2_appendI)
  note read = Tail_reads [OF this, of 0]
  show ?thesis using k len read
    by (intro exI [of _ ?k] exI [of _ l] exI [of _ "logBytes (bs @ as @ ks)"]) (auto simp: Let_def)
qed

theorem restart_reads_a_prefix_witness:
  "\<exists>k l file. k = 1 \<and> Tail False (\<lambda>_. False)
       (\<lambda>s. if s = ''{1}'' @ [newline]
            then Some (toTransition \<lparr>teTS = 7, teIssue = ''i'', teFrom = StateQueued, teTo = StateClaimed,
              teActor = ''d'', teReason = ''r'', teRunID = [], teFailure = []\<rparr>) else None)
       (Some file) 0
     = Inr (take k [toTransition \<lparr>teTS = 7, teIssue = ''i'', teFrom = StateQueued, teTo = StateClaimed,
              teActor = ''d'', teReason = ''r'', teRunID = [], teFailure = []\<rparr>], 1)
     \<and> openAppendLog noOpenFaults (Some (''{1}'' @ [newline])) = (Inr l, Some file)"
proof -
  define e where "e = \<lparr>teTS = 7, teIssue = ''i'', teFrom = StateQueued, teTo = StateClaimed,
      teActor = ''d'', teReason = ''r'', teRunID = [], teFailure = []\<rparr>"
  define marshal where "marshal = (\<lambda>t. if t = toTransition e then Some ''{1}'' else None)"
  define unmarshal where
    "unmarshal = (\<lambda>s. if s = ''{1}'' @ [newline] then Some (toTransition e) else None)"
  define sc where "sc = \<lparr>scDone = \<lambda>_. False,
      scIo = \<lambda>_. \<lparr>ioWritten = 100, ioWriteFails = False, ioInjected = False, ioSyncFails = False,
                 ioTruncateFails = False\<rparr>,
      scArrived = \<lambda>_. [], scNow = \<lambda>_. 0, scWait = \<lambda>_. True\<rparr>"
  define w where "w = \<lparr>lwLog = \<lparr>alOpen = True, alOffset = 0, alBroken = False, alRepaired = 0\<rparr>,
      lwFile = [], lwCalls = 0\<rparr>"
  define q where "q = fst (enqueue e (attach True emptyQueue))"
  have q: "dqAttached q" "dqPending q = [e]"
    by (simp_all add: q_def attach_def emptyQueue_def enqueue_def backlogWarn_def)
  have blank: "trimSpace (''{1}'' @ [newline]) \<noteq> []" by code_simp
  have json: "jsonReads marshal unmarshal id t" for t
    using blank by (simp add: jsonReads_def marshal_def unmarshal_def newline_def)
  have sink: "deSink (transitionEnv marshal sc) w e
      = (SinkOk, \<lparr>lwLog = \<lparr>alOpen = True, alOffset = 4, alBroken = False, alRepaired = 0\<rparr>,
                 lwFile = ''{1}'' @ [newline], lwCalls = 1\<rparr>)"
    by (simp add: transitionEnv_def transitionSinkAppend_def TransitionWriterAppend_def marshal_def
        appendRecord_def Let_def maxRecordBytes_def unwritable_def w_def sc_def)
  have env: "\<not> deDone (transitionEnv marshal sc) u" "deArrived (transitionEnv marshal sc) u = []"
      "deWake (transitionEnv marshal sc) u = (True, u\<lparr>lwCalls := lwCalls u + 1\<rparr>)" for u
    by (simp_all add: transitionEnv_def sc_def)
  obtain d where d: "persist 1 2 (transitionEnv marshal sc) q w = Some d"
      and dd: "drOut d = [(e, True)]" "drArrived d = []" "lwFile (drOutside d) = ''{1}'' @ [newline]"
    using q sink env by (simp add: numeral_2_eq_2 Let_def)
  have "worldGood w" "\<not> worldBroken w" "lwFile w = logBytes []" by (simp_all add: worldGood_def logGood_def w_def)
  from restart_reads_a_prefix [OF json _ this(3,1,2) q(1) disjI1 [OF d], of "[]"]
  show ?thesis
    unfolding unmarshal_def [symmetric] e_def [symmetric] using q dd
    by (auto simp: Let_def take_Cons')
qed

theorem last_failure_readers_agree_witness:
  "TransitionReaderLastFailure False (\<lambda>_. False)
     (\<lambda>s. if s = ''{1}'' @ [newline]
          then Some (toTransition \<lparr>teTS = 7, teIssue = ''i'', teFrom = StateRunning, teTo = StateFailed,
            teActor = ''d'', teReason = ''exit 1'', teRunID = [], teFailure = ''crashed''\<rparr>) else None)
     (Some (logBytes [''{1}''] @ ''{2'')) ''i''
   = Inr (Some \<lparr>rfAt = 7, rfReason = ''crashed'', rfDetail = ''exit 1''\<rparr>)"
proof -
  define e where "e = \<lparr>teTS = 7, teIssue = ''i'', teFrom = StateRunning, teTo = StateFailed,
            teActor = ''d'', teReason = ''exit 1'', teRunID = [], teFailure = ''crashed''\<rparr>"
  define unmarshal where
    "unmarshal = (\<lambda>s. if s = ''{1}'' @ [newline] then Some (toTransition e) else None)"
  have blank: "trimSpace (''{1}'' @ [newline]) \<noteq> []" by code_simp
  then have "list_all2 (readsAs unmarshal) [''{1}''] (map toTransition [e])"
    by (simp add: readsAs_def recordBody_def unmarshal_def newline_def maxRecordBytes_def)
  moreover have "newline \<notin> set ''{2''" "length ''{2'' < maxRecordBytes"
    by (simp_all add: newline_def maxRecordBytes_def)
  ultimately have "TransitionReaderLastFailure False (\<lambda>_. False) unmarshal (Some (logBytes [''{1}''] @ ''{2'')) ''i''
      = Inr (LastFailure [e] ''i'')"
    by (rule last_failure_readers_agree)
  moreover have "LastFailure [e] ''i'' = Some \<lparr>rfAt = 7, rfReason = ''crashed'', rfDetail = ''exit 1''\<rparr>"
    by (simp add: LastFailure_def e_def)
  ultimately show ?thesis unfolding e_def unmarshal_def by simp
qed

text \<open>
  C40. A record over the size limit stops the transition log for good: its append is refused with an
  ordinary error, so the queue keeps it at the head and retries. However long the writer then
  runs, nothing is written, nothing leaves the queue, and every entry behind it waits.
\<close>

theorem oversized_entry_stops_the_log:
  assumes size: "marshal (toTransition e) = Some body" "length body + 1 > maxRecordBytes"
    and start: "worldGood w" "dqAttached q" "dqPending q = e # es"
    and run: "persist n fuel (transitionEnv marshal sc) q w = Some d
      \<or> flush n fuel (transitionEnv marshal sc) q w = Some (d, lost)"
  shows "drOut d = [] \<and> lwFile (drOutside d) = lwFile w
    \<and> dqPending (drQueue d) = e # es @ drArrived d"
proof -
  have "fst (deSink (transitionEnv marshal sc) u e) = SinkFailed" for u
    using size by (simp add: transitionEnv_def transitionSinkAppend_def TransitionWriterAppend_def
        appendRecord_def unwritable_def)
  then have out: "drOut d = []" using writer_stuck [OF _ run start(2,3)] by blast
  then show ?thesis
    using transition_file.writer_run [OF run start(2,1)] start(3)
    by (simp add: inOrder_def transition_file.noHoles_def)
qed

theorem oversized_entry_stops_the_log_witness:
  "let sc = \<lparr>scDone = \<lambda>_. False,
              scIo = \<lambda>_. \<lparr>ioWritten = 100000, ioWriteFails = False, ioInjected = False,
                         ioSyncFails = False, ioTruncateFails = False\<rparr>,
              scArrived = \<lambda>_. [], scNow = \<lambda>_. 0, scWait = \<lambda>n. n > 1\<rparr>;
       w = \<lparr>lwLog = \<lparr>alOpen = True, alOffset = 0, alBroken = False, alRepaired = 0\<rparr>,
             lwFile = [], lwCalls = 0\<rparr>;
       entry = (\<lambda>who. \<lparr>teTS = 7, teIssue = who, teFrom = StateQueued, teTo = StateClaimed,
             teActor = ''d'', teReason = ''r'', teRunID = [], teFailure = []\<rparr>);
       q = arriveAll [entry ''i'', entry ''j''] (attach True emptyQueue);
       marshal = (\<lambda>t :: Transition. Some (if trIssue t = ''i'' then replicate 65536 (CHR ''x'') else ''{}''))
   in \<exists>d. persist 2 1 (transitionEnv marshal sc) q w = Some d
        \<and> drOut d = [] \<and> lwFile (drOutside d) = [] \<and> map teIssue (dqPending (drQueue d)) = [''i'', ''j'']"
proof -
  define sc where "sc = \<lparr>scDone = \<lambda>_. False,
              scIo = \<lambda>_. \<lparr>ioWritten = 100000, ioWriteFails = False, ioInjected = False,
                         ioSyncFails = False, ioTruncateFails = False\<rparr>,
              scArrived = \<lambda>_. [], scNow = \<lambda>_. 0, scWait = \<lambda>n. n > 1\<rparr>"
  define w where "w = \<lparr>lwLog = \<lparr>alOpen = True, alOffset = 0, alBroken = False, alRepaired = 0\<rparr>,
             lwFile = [], lwCalls = 0\<rparr>"
  define entry where "entry = (\<lambda>who. \<lparr>teTS = 7, teIssue = who, teFrom = StateQueued, teTo = StateClaimed,
             teActor = ''d'', teReason = ''r'', teRunID = [], teFailure = []\<rparr>)"
  define q where "q = arriveAll [entry ''i'', entry ''j''] (attach True emptyQueue)"
  define marshal where
    "marshal = (\<lambda>t :: Transition. Some (if trIssue t = ''i'' then replicate 65536 (CHR ''x'') else ''{}''))"
  have q: "dqAttached q" "dqPending q = entry ''i'' # [entry ''j'']"
    by (simp_all add: q_def attach_def emptyQueue_def enqueue_def backlogWarn_def)
  have size: "marshal (toTransition (entry ''i'')) = Some (replicate 65536 (CHR ''x''))"
      "length (replicate 65536 (CHR ''x'')) + 1 > maxRecordBytes"
    by (simp_all add: marshal_def toTransition_def entry_def maxRecordBytes_def)
  have sink: "deSink (transitionEnv marshal sc) u (entry ''i'')
      = (SinkFailed, u\<lparr>lwCalls := lwCalls u + 1\<rparr>)" for u
    using size by (simp add: transitionEnv_def transitionSinkAppend_def TransitionWriterAppend_def
        appendRecord_def unwritable_def)
  have env: "\<not> deDone (transitionEnv marshal sc) u" "deArrived (transitionEnv marshal sc) u = []"
      "deRetry (transitionEnv marshal sc) u = (lwCalls u > 1, u\<lparr>lwCalls := lwCalls u + 1\<rparr>)" for u
    by (simp_all add: transitionEnv_def sc_def)
  obtain d where d: "persist 2 1 (transitionEnv marshal sc) q w = Some d" and arr: "drArrived d = []"
    using q sink env by (simp add: numeral_2_eq_2 Let_def w_def)
  have "worldGood w" by (simp add: worldGood_def logGood_def w_def)
  from oversized_entry_stops_the_log [OF size this q disjI1 [OF d]] d arr show ?thesis
    unfolding Let_def sc_def [symmetric] w_def [symmetric] entry_def [symmetric]
      q_def [symmetric] marshal_def [symmetric]
    by (auto simp: w_def) (auto simp: entry_def)
qed

end
