(* ===== verification/RemoteJournal.thy ===== *)
theory RemoteJournal
  imports Prelude
begin

text \<open>
  \<open>internal/remote/journal.go\<close>, the starting path of \<open>runner.go\<close> and the record of \<open>record.go\<close> and
  \<open>store.go\<close>: how a remote run is made durable before it is started, and how an unanswered
  start is resolved. The store and the backend are one world; a script gives the outcome of
  every call, among them a save that fails although the record landed, and a crash inside a call.
  After a crash every further call of the process fails without effect until a restart. Two
  claims never share a file name.
\<close>

section \<open>Identities and the durable record\<close>

record remoteClaimCycle =
  rccRepository :: string
  rccIssue :: string
  rccEpoch :: int

definition claimValid :: "remoteClaimCycle \<Rightarrow> bool" where
  "claimValid c \<longleftrightarrow> rccRepository c \<noteq> [] \<and> rccIssue c \<noteq> [] \<and> rccEpoch c > 0"

record remoteIdentity =
  riyClaim :: remoteClaimCycle
  riyBranch :: string
  riyBaseSHA :: string
  riySandboxID :: string
  riyProfileRevision :: string

definition identityComplete :: "remoteIdentity \<Rightarrow> bool" where
  "identityComplete i \<longleftrightarrow> claimValid (riyClaim i) \<and> riyBranch i \<noteq> [] \<and> riyBaseSHA i \<noteq> []
     \<and> riySandboxID i \<noteq> [] \<and> riyProfileRevision i \<noteq> []"

record ProcessRef =
  prfIdentity :: remoteIdentity
  prfRunID :: string
  prfRequestDigest :: string

abbreviation refClaim :: "ProcessRef \<Rightarrow> remoteClaimCycle" where
  "refClaim r \<equiv> riyClaim (prfIdentity r)"

definition refComplete :: "ProcessRef \<Rightarrow> bool" where
  "refComplete r \<longleftrightarrow> identityComplete (prfIdentity r) \<and> prfRunID r \<noteq> [] \<and> prfRequestDigest r \<noteq> []"

text \<open>
  \<open>core.RunSpec\<close> and the part of it a record keeps. The cost limit is a \<open>float64\<close>, a value of the
  type \<open>'f\<close> here. An empty environment and an absent one are the same map.
\<close>

record 'f RunSpec =
  rspPath :: string
  rspSharedGitDir :: string
  rspPrivateDir :: string
  rspPrompt :: string
  rspContinuation :: string
  rspEnv :: "string \<rightharpoonup> string"
  rspStallTimeout :: int
  rspAttemptTimeout :: int
  rspMaxTurns :: int
  rspMaxCostUSD :: 'f

record ReplayWorkspace =
  rwPath :: string
  rwSharedGitDir :: string
  rwPrivateDir :: string

record 'f ReplayLimits =
  rlStallTimeout :: int
  rlAttemptTimeout :: int
  rlMaxTurns :: int
  rlMaxCostUSD :: 'f

record 'f ReplaySpec =
  rpWorkspace :: ReplayWorkspace
  rpPrompt :: string
  rpContinuation :: string
  rpEnv :: "string \<rightharpoonup> string"
  rpLimits :: "'f ReplayLimits"

definition replaySpecOf :: "'f RunSpec \<Rightarrow> 'f ReplaySpec" where
  "replaySpecOf s =
     \<lparr>rpWorkspace = \<lparr>rwPath = rspPath s, rwSharedGitDir = rspSharedGitDir s, rwPrivateDir = rspPrivateDir s\<rparr>,
      rpPrompt = rspPrompt s, rpContinuation = rspContinuation s, rpEnv = rspEnv s,
      rpLimits = \<lparr>rlStallTimeout = rspStallTimeout s, rlAttemptTimeout = rspAttemptTimeout s,
                  rlMaxTurns = rspMaxTurns s, rlMaxCostUSD = rspMaxCostUSD s\<rparr>\<rparr>"

definition replayRunSpec :: "'f ReplaySpec \<Rightarrow> 'f RunSpec" where
  "replayRunSpec r =
     \<lparr>rspPath = rwPath (rpWorkspace r), rspSharedGitDir = rwSharedGitDir (rpWorkspace r),
      rspPrivateDir = rwPrivateDir (rpWorkspace r), rspPrompt = rpPrompt r,
      rspContinuation = rpContinuation r, rspEnv = rpEnv r,
      rspStallTimeout = rlStallTimeout (rpLimits r), rspAttemptTimeout = rlAttemptTimeout (rpLimits r),
      rspMaxTurns = rlMaxTurns (rpLimits r), rspMaxCostUSD = rlMaxCostUSD (rpLimits r)\<rparr>"

record 'f remoteRecord =
  rmrVersion :: int
  rmrIdentity :: remoteIdentity
  rmrRunID :: string
  rmrRequestDigest :: string
  rmrDispatched :: bool
  rmrBackendRunID :: string
  rmrReplay :: "'f ReplaySpec option"
  rmrCursor :: int
  rmrDecoderTail :: string
  rmrTerminal :: bool
  rmrTemplateRevision :: string
  rmrPromptDigest :: string
  rmrProvider :: string
  rmrModel :: string
  rmrTranscript :: string

definition RecordVersion :: int where "RecordVersion = 3"

definition recordRef :: "'f remoteRecord \<Rightarrow> ProcessRef" where
  "recordRef r = \<lparr>prfIdentity = rmrIdentity r, prfRunID = rmrRunID r, prfRequestDigest = rmrRequestDigest r\<rparr>"

datatype remoteError =
    ErrClaimMismatch | ErrNoRecord | ErrProcessMismatch | ErrIdentityMissing | ErrNoRunID
  | ErrAlreadyStarted | ErrProcessRefused | ErrReplayUnavailable | ErrProcessUnresolved
  | ErrRecordVersion | ErrStore | ErrBackend | ErrCompose | ErrProcessGone

section \<open>The world\<close>

datatype saveOutcome = SaveOk | SaveFailed bool | SaveCrash bool
datatype startOutcome = StartOk string | StartRefused | StartFailed | StartCrash bool

record 'f remoteWorld =
  wStore :: "remoteClaimCycle \<rightharpoonup> 'f remoteRecord"
  wStarts :: "ProcessRef list"
  wAlive :: bool
  wStep :: nat

record script =
  scSave :: "nat \<Rightarrow> saveOutcome"
  scLoadFails :: "nat \<Rightarrow> bool"
  scStart :: "nat \<Rightarrow> startOutcome"
  scAttach :: "nat \<Rightarrow> startOutcome"

text \<open>\<open>EncodeRecord\<close> stamps a record without a version.\<close>

definition encoded :: "'f remoteRecord \<Rightarrow> 'f remoteRecord" where
  "encoded r = (if rmrVersion r = 0 then r\<lparr>rmrVersion := RecordVersion\<rparr> else r)"

definition storeSave :: "script \<Rightarrow> 'f remoteRecord \<Rightarrow> 'f remoteWorld \<Rightarrow> remoteError option \<times> 'f remoteWorld" where
  "storeSave sc r w =
     (let landed = w\<lparr>wStore := (wStore w)(riyClaim (rmrIdentity r) \<mapsto> encoded r), wStep := wStep w + 1\<rparr>;
          lost = w\<lparr>wStep := wStep w + 1\<rparr>
      in if \<not> wAlive w then (Some ErrProcessGone, w)
         else case scSave sc (wStep w) of
           SaveOk \<Rightarrow> (None, landed)
         | SaveFailed l \<Rightarrow> (Some ErrStore, if l then landed else lost)
         | SaveCrash l \<Rightarrow> (Some ErrProcessGone, (if l then landed else lost)\<lparr>wAlive := False\<rparr>))"

definition storeLoad :: "script \<Rightarrow> remoteClaimCycle \<Rightarrow> 'f remoteWorld \<Rightarrow> (remoteError + 'f remoteRecord) \<times> 'f remoteWorld" where
  "storeLoad sc claim w =
     (let w' = w\<lparr>wStep := wStep w + 1\<rparr> in
      if \<not> wAlive w then (Inl ErrProcessGone, w)
      else if scLoadFails sc (wStep w) then (Inl ErrStore, w')
      else case wStore w claim of
        None \<Rightarrow> (Inl ErrNoRecord, w')
      | Some r \<Rightarrow>
          if rmrVersion r > RecordVersion then (Inl ErrRecordVersion, w')
          else if riyClaim (rmrIdentity r) \<noteq> claim then (Inl ErrClaimMismatch, w')
          else (Inr r, w'))"

text \<open>The backend's start, which logs the reference it was asked for, and its attach.\<close>

definition backendStart :: "script \<Rightarrow> ProcessRef \<Rightarrow> 'f remoteWorld \<Rightarrow> (remoteError + string) \<times> 'f remoteWorld" where
  "backendStart sc ref w =
     (let asked = w\<lparr>wStarts := wStarts w @ [ref], wStep := wStep w + 1\<rparr>
      in if \<not> wAlive w then (Inl ErrProcessGone, w)
         else case scStart sc (wStep w) of
           StartOk backend \<Rightarrow> (Inr backend, asked)
         | StartRefused \<Rightarrow> (Inl ErrProcessRefused, asked)
         | StartFailed \<Rightarrow> (Inl ErrBackend, asked)
         | StartCrash reached \<Rightarrow>
             (Inl ErrProcessGone, (if reached then asked else w\<lparr>wStep := wStep w + 1\<rparr>)\<lparr>wAlive := False\<rparr>))"

definition backendAttach :: "script \<Rightarrow> ProcessRef \<Rightarrow> string \<Rightarrow> 'f remoteWorld \<Rightarrow> (remoteError + string) \<times> 'f remoteWorld" where
  "backendAttach sc ref backend w =
     (let w' = w\<lparr>wStep := wStep w + 1\<rparr>
      in if \<not> wAlive w then (Inl ErrProcessGone, w)
         else case scAttach sc (wStep w) of
           StartOk b \<Rightarrow> (Inr b, w')
         | StartRefused \<Rightarrow> (Inl ErrProcessRefused, w')
         | StartFailed \<Rightarrow> (Inl ErrBackend, w')
         | StartCrash _ \<Rightarrow> (Inl ErrProcessGone, w'\<lparr>wAlive := False\<rparr>))"

section \<open>The journal\<close>

record 'f Journal =
  jnClaim :: remoteClaimCycle
  jnRec :: "'f remoteRecord"
  jnLoaded :: bool

definition OpenJournal ::
  "script \<Rightarrow> remoteClaimCycle \<Rightarrow> 'f remoteWorld \<Rightarrow> (remoteError + 'f Journal) \<times> 'f remoteWorld" where
  "OpenJournal sc claim w =
     (if \<not> claimValid claim then (Inl ErrClaimMismatch, w)
      else case storeLoad sc claim w of
        (Inl e, w') \<Rightarrow> (Inl e, w')
      | (Inr r, w') \<Rightarrow>
          if \<not> refComplete (recordRef r) then (Inl ErrProcessMismatch, w')
          else (Inr \<lparr>jnClaim = claim, jnRec = r, jnLoaded = True\<rparr>, w'))"

record 'f Meta =
  mtTemplateRevision :: string
  mtPromptDigest :: string
  mtProvider :: string
  mtModel :: string
  mtTranscript :: string
  mtReplay :: "'f ReplaySpec option"

definition Reserve ::
  "script \<Rightarrow> ProcessRef \<Rightarrow> 'f Meta \<Rightarrow> 'f remoteWorld \<Rightarrow> (remoteError + 'f Journal) \<times> 'f remoteWorld" where
  "Reserve sc ref meta w =
     (if \<not> identityComplete (prfIdentity ref) then (Inl ErrIdentityMissing, w)
      else if prfRunID ref = [] then (Inl ErrNoRunID, w)
      else if prfRequestDigest ref = [] then (Inl ErrProcessMismatch, w)
      else
        (let r = \<lparr>rmrVersion = RecordVersion, rmrIdentity = prfIdentity ref, rmrRunID = prfRunID ref,
                   rmrRequestDigest = prfRequestDigest ref, rmrDispatched = False, rmrBackendRunID = [],
                   rmrReplay = mtReplay meta, rmrCursor = 0, rmrDecoderTail = [], rmrTerminal = False,
                   rmrTemplateRevision = mtTemplateRevision meta, rmrPromptDigest = mtPromptDigest meta,
                   rmrProvider = mtProvider meta, rmrModel = mtModel meta, rmrTranscript = mtTranscript meta\<rparr>
         in case storeSave sc r w of
              (Some e, w') \<Rightarrow> (Inl e, w')
            | (None, w') \<Rightarrow> (Inr \<lparr>jnClaim = refClaim ref, jnRec = r, jnLoaded = True\<rparr>, w')))"

text \<open>
  Every later write replaces the record, or restores the one before when the save fails: the
  update, and what the in-memory record becomes again.
\<close>

definition saveOr ::
  "script \<Rightarrow> 'f Journal \<Rightarrow> 'f remoteRecord \<Rightarrow> 'f remoteWorld
   \<Rightarrow> remoteError option \<times> 'f Journal \<times> 'f remoteWorld" where
  "saveOr sc j r w =
     (case storeSave sc r w of
        (Some e, w') \<Rightarrow> (Some e, j, w')
      | (None, w') \<Rightarrow> (None, j\<lparr>jnRec := r\<rparr>, w'))"

definition RecordReplay ::
  "script \<Rightarrow> 'f RunSpec \<Rightarrow> 'f Journal \<Rightarrow> 'f remoteWorld \<Rightarrow> remoteError option \<times> 'f Journal \<times> 'f remoteWorld" where
  "RecordReplay sc spec j w =
     (let replay = replaySpecOf spec; r = jnRec j in
      if \<not> jnLoaded j then (Some ErrNoRecord, j, w)
      else if rmrReplay r \<noteq> None \<and> rmrReplay r \<noteq> Some replay then (Some ErrProcessMismatch, j, w)
      else if rmrReplay r \<noteq> None \<and> rmrVersion r = RecordVersion then (None, j, w)
      else saveOr sc j (r\<lparr>rmrVersion := RecordVersion, rmrReplay := Some replay\<rparr>) w)"

definition Dispatch ::
  "script \<Rightarrow> 'f Journal \<Rightarrow> 'f remoteWorld \<Rightarrow> (remoteError + string) \<times> 'f Journal \<times> 'f remoteWorld" where
  "Dispatch sc j w =
     (let ref = recordRef (jnRec j) in
      if \<not> jnLoaded j then (Inl ErrNoRecord, j, w)
      else if \<not> refComplete ref then (Inl ErrNoRunID, j, w)
      else if rmrDispatched (jnRec j) then (Inl ErrAlreadyStarted, j, w)
      else case saveOr sc j ((jnRec j)\<lparr>rmrDispatched := True\<rparr>) w of
        (Some e, j', w') \<Rightarrow> (Inl e, j', w')
      | (None, j', w') \<Rightarrow>
          (case backendStart sc ref w' of
             (Inl e, w'') \<Rightarrow> (Inl e, j', w'')
           | (Inr backend, w'') \<Rightarrow>
               if backend \<noteq> [] \<and> backend \<noteq> rmrBackendRunID (jnRec j') then
                 (case saveOr sc j' ((jnRec j')\<lparr>rmrBackendRunID := backend, rmrReplay := None\<rparr>) w'' of
                    (_, j'', w3) \<Rightarrow> (Inr backend, j'', w3))
               else (Inr backend, j', w'')))"

definition Resume :: "'f Journal \<Rightarrow> remoteError + (ProcessRef \<times> bool)" where
  "Resume j =
     (let ref = recordRef (jnRec j) in
      if \<not> jnLoaded j then Inl ErrNoRecord
      else if \<not> refComplete ref then Inl ErrNoRunID
      else Inr (ref, rmrDispatched (jnRec j)))"

record Checkpoint =
  cpCursor :: int
  cpTail :: string
  cpTerminal :: bool

definition CommitCheckpoint ::
  "script \<Rightarrow> Checkpoint \<Rightarrow> 'f Journal \<Rightarrow> 'f remoteWorld \<Rightarrow> remoteError option \<times> 'f Journal \<times> 'f remoteWorld" where
  "CommitCheckpoint sc cp j w =
     (let r = jnRec j in
      if \<not> jnLoaded j then (Some ErrNoRecord, j, w)
      else if cpCursor cp < rmrCursor r then (None, j, w)
      else if cpCursor cp = rmrCursor r \<and> cpTail cp = rmrDecoderTail r \<and> cpTerminal cp = rmrTerminal r
        then (None, j, w)
      else saveOr sc j (r\<lparr>rmrCursor := cpCursor cp, rmrDecoderTail := cpTail cp, rmrTerminal := cpTerminal cp\<rparr>) w)"

definition JournalCheckpoint :: "'f Journal \<Rightarrow> Checkpoint" where
  "JournalCheckpoint j =
     \<lparr>cpCursor = rmrCursor (jnRec j), cpTail = rmrDecoderTail (jnRec j), cpTerminal = rmrTerminal (jnRec j)\<rparr>"

definition Observe ::
  "script \<Rightarrow> string \<Rightarrow> 'f Journal \<Rightarrow> 'f remoteWorld \<Rightarrow> remoteError option \<times> 'f Journal \<times> 'f remoteWorld" where
  "Observe sc backend j w =
     (if backend = [] \<or> backend = rmrBackendRunID (jnRec j) \<and> rmrReplay (jnRec j) = None then (None, j, w)
      else saveOr sc j ((jnRec j)\<lparr>rmrBackendRunID := backend, rmrReplay := None\<rparr>) w)"

section \<open>Starting a run\<close>

text \<open>
  The seams of the runner: the binder, the invoker, the check of the git scope and the digest of a
  request. A handle is represented by the journal it is attached over.
\<close>

record ('f, 'g) Binding =
  bdIdentity :: remoteIdentity
  bdRun :: string
  bdMeta :: "'f Meta"
  bdGit :: 'g

record Invocation =
  ivArgv :: "string list"
  ivEnv :: "string \<rightharpoonup> string"
  ivStdin :: string

record ('f, 'g) ProcessSpec =
  psIdentity :: remoteIdentity
  psArgv :: "string list"
  psEnv :: "string \<rightharpoonup> string"
  psStdin :: string
  psLimits :: "'f ReplayLimits"
  psGit :: 'g

record ('f, 'g) Runner =
  rnBind :: "'f RunSpec \<Rightarrow> ('f, 'g) Binding option"
  rnInvoke :: "'f RunSpec \<Rightarrow> Invocation option"
  rnGitValid :: "'g \<Rightarrow> bool"
  rnDigest :: "('f, 'g) ProcessSpec \<Rightarrow> string option"

definition compose :: "('f, 'g) Runner \<Rightarrow> 'f RunSpec \<Rightarrow> remoteError + (('f, 'g) Binding \<times> ProcessRef)" where
  "compose rn spec =
     (case rnBind rn spec of
        None \<Rightarrow> Inl ErrCompose
      | Some b \<Rightarrow>
          if \<not> identityComplete (bdIdentity b) then Inl ErrIdentityMissing
          else case rnInvoke rn spec of
            None \<Rightarrow> Inl ErrCompose
          | Some call \<Rightarrow>
              (let ps = \<lparr>psIdentity = bdIdentity b, psArgv = ivArgv call, psEnv = ivEnv call,
                         psStdin = ivStdin call, psLimits = rpLimits (replaySpecOf spec), psGit = bdGit b\<rparr>
               in if \<not> rnGitValid rn (bdGit b) then Inl ErrCompose
                  else case rnDigest rn ps of
                    None \<Rightarrow> Inl ErrCompose
                  | Some d \<Rightarrow>
                      Inr (b, \<lparr>prfIdentity = bdIdentity b, prfRunID = bdRun b, prfRequestDigest = d\<rparr>)))"

definition startOrAttach ::
  "script \<Rightarrow> (remoteError + string) \<times> 'f remoteWorld \<Rightarrow> 'f Journal
   \<Rightarrow> (remoteError + 'f Journal) \<times> 'f remoteWorld" where
  "startOrAttach sc answer j =
     (case answer of
        (Inl e, w) \<Rightarrow> (if e = ErrProcessRefused then Inl e else Inr j, w)
      | (Inr backend, w) \<Rightarrow> (case Observe sc backend j w of (_, j', w') \<Rightarrow> (Inr j', w')))"

definition runnerDispatch ::
  "script \<Rightarrow> 'f Journal \<Rightarrow> 'f remoteWorld \<Rightarrow> (remoteError + 'f Journal) \<times> 'f remoteWorld" where
  "runnerDispatch sc j w =
     (case Dispatch sc j w of
        (Inr backend, j', w') \<Rightarrow> startOrAttach sc (Inr backend, w') j'
      | (Inl e, j', w') \<Rightarrow>
          if e = ErrProcessRefused then (Inl e, w')
          else case Resume j' of
            Inl re \<Rightarrow> (Inl re, w')
          | Inr (ref, _) \<Rightarrow> startOrAttach sc (backendStart sc ref w') j')"

definition resolveExisting ::
  "script \<Rightarrow> 'f Journal \<Rightarrow> 'f remoteWorld \<Rightarrow> (remoteError + 'f Journal) \<times> 'f remoteWorld" where
  "resolveExisting sc j w =
     (case Resume j of
        Inl e \<Rightarrow> (Inl e, w)
      | Inr (ref, _) \<Rightarrow>
          if rmrBackendRunID (jnRec j) \<noteq> [] then
            (case backendAttach sc ref (rmrBackendRunID (jnRec j)) w of
               (Inl _, w') \<Rightarrow> (Inr j, w')
             | (Inr backend, w') \<Rightarrow> (case Observe sc backend j w' of (_, j', w'') \<Rightarrow> (Inr j', w'')))
          else startOrAttach sc (backendStart sc ref w) j)"

text \<open>\<open>Start\<close> once it has a journal that names this very request.\<close>

definition startJournal ::
  "script \<Rightarrow> 'f RunSpec \<Rightarrow> 'f Journal \<Rightarrow> 'f remoteWorld \<Rightarrow> (remoteError + 'f Journal) \<times> 'f remoteWorld" where
  "startJournal sc spec j w =
     (case (if rmrBackendRunID (jnRec j) = [] then RecordReplay sc spec j w else (None, j, w)) of
        (Some e, _, w') \<Rightarrow> (Inl e, w')
      | (None, j', w') \<Rightarrow>
          (case Resume j' of
             Inl e \<Rightarrow> (Inl e, w')
           | Inr (_, dispatched) \<Rightarrow>
               if dispatched then resolveExisting sc j' w' else runnerDispatch sc j' w'))"

definition Start ::
  "('f, 'g) Runner \<Rightarrow> script \<Rightarrow> 'f RunSpec \<Rightarrow> 'f remoteWorld \<Rightarrow> (remoteError + 'f Journal) \<times> 'f remoteWorld" where
  "Start rn sc spec w =
     (case compose rn spec of
        Inl e \<Rightarrow> (Inl e, w)
      | Inr (b, ref) \<Rightarrow>
          (case OpenJournal sc (riyClaim (bdIdentity b)) w of
             (Inr j, w') \<Rightarrow>
               if recordRef (jnRec j) \<noteq> ref then (Inl ErrProcessMismatch, w')
               else startJournal sc spec j w'
           | (Inl e, w') \<Rightarrow>
               if e \<noteq> ErrNoRecord then (Inl e, w')
               else case Reserve sc ref ((bdMeta b)\<lparr>mtReplay := Some (replaySpecOf spec)\<rparr>) w' of
                 (Inl e', w'') \<Rightarrow> (Inl e', w'')
               | (Inr j, w'') \<Rightarrow> startJournal sc spec j w''))"

definition ResolveStart ::
  "('f, 'g) Runner \<Rightarrow> script \<Rightarrow> ProcessRef \<Rightarrow> 'f remoteWorld \<Rightarrow> (remoteError + string) \<times> 'f remoteWorld" where
  "ResolveStart rn sc ref w =
     (case OpenJournal sc (refClaim ref) w of
        (Inl e, w') \<Rightarrow> (Inl e, w')
      | (Inr j, w') \<Rightarrow>
          if recordRef (jnRec j) \<noteq> ref then (Inl ErrProcessMismatch, w')
          else case rmrReplay (jnRec j) of
            None \<Rightarrow> (Inl ErrReplayUnavailable, w')
          | Some replay \<Rightarrow>
              if \<not> rmrDispatched (jnRec j) then (Inl ErrReplayUnavailable, w')
              else case compose rn (replayRunSpec replay) of
                Inl e \<Rightarrow> (Inl e, w')
              | Inr (_, rebuilt) \<Rightarrow>
                  if rebuilt \<noteq> ref then (Inl ErrProcessMismatch, w')
                  else case backendStart sc ref w' of
                    (Inl e, w'') \<Rightarrow> (Inl e, w'')
                  | (Inr backend, w'') \<Rightarrow>
                      if backend = [] then (Inl ErrProcessUnresolved, w'')
                      else case Observe sc backend j w'' of
                        (Some e, _, w3) \<Rightarrow> (Inl e, w3)
                      | (None, _, w3) \<Rightarrow> (Inr backend, w3))"

section \<open>A history of daemons\<close>

text \<open>
  What may happen to a store over time: starts, resolutions, writes through any handle that is
  still held, and restarts, which drop the handles. The end of a claim cycle, \<open>Close\<close>, is not
  among them.
\<close>

datatype 'f remoteOp =
    DoStart "'f RunSpec"
  | DoResolve ProcessRef
  | DoCheckpoint nat Checkpoint
  | DoObserve nat string
  | DoRestart

type_synonym 'f remoteState = "'f remoteWorld \<times> 'f Journal list"

definition onHandle ::
  "('f Journal \<Rightarrow> 'f remoteWorld \<Rightarrow> remoteError option \<times> 'f Journal \<times> 'f remoteWorld) \<Rightarrow> nat
   \<Rightarrow> 'f remoteState \<Rightarrow> 'f remoteState" where
  "onHandle f i s =
     (case s of (w, hs) \<Rightarrow>
        if i < length hs then (case f (hs ! i) w of (_, j, w') \<Rightarrow> (w', hs[i := j])) else (w, hs))"

fun remoteStep :: "('f, 'g) Runner \<Rightarrow> script \<Rightarrow> 'f remoteOp \<Rightarrow> 'f remoteState \<Rightarrow> 'f remoteState" where
  "remoteStep rn sc (DoStart spec) (w, hs) =
     (case Start rn sc spec w of (Inl _, w') \<Rightarrow> (w', hs) | (Inr j, w') \<Rightarrow> (w', hs @ [j]))"
| "remoteStep rn sc (DoResolve ref) (w, hs) = (snd (ResolveStart rn sc ref w), hs)"
| "remoteStep rn sc (DoCheckpoint i cp) s = onHandle (CommitCheckpoint sc cp) i s"
| "remoteStep rn sc (DoObserve i backend) s = onHandle (Observe sc backend) i s"
| "remoteStep rn sc DoRestart (w, hs) = (w\<lparr>wAlive := True\<rparr>, [])"

definition remoteHistory :: "('f, 'g) Runner \<Rightarrow> script \<Rightarrow> 'f remoteOp list \<Rightarrow> 'f remoteState" where
  "remoteHistory rn sc ops =
     fold (remoteStep rn sc) ops
       (\<lparr>wStore = Map.empty, wStarts = [], wAlive = True, wStep = 0\<rparr>, [])"

section \<open>One request per claim\<close>

text \<open>A reference is anchored when the store holds a record of it; anchoring is never lost.\<close>

definition anchored :: "'f remoteWorld \<Rightarrow> ProcessRef \<Rightarrow> bool" where
  "anchored w ref \<longleftrightarrow> (\<exists>r. wStore w (refClaim ref) = Some r \<and> recordRef r = ref)"

definition progress :: "'f remoteWorld \<Rightarrow> 'f remoteWorld \<Rightarrow> bool" where
  "progress w w' \<longleftrightarrow> (\<forall>ref. anchored w ref \<longrightarrow> anchored w' ref)
     \<and> (\<forall>ref\<in>set (wStarts w'). ref \<in> set (wStarts w) \<or> anchored w' ref)"


lemma progress_refl [simp]: "progress w w"
  by (simp add: progress_def)




lemma recordRef_encoded [simp]: "recordRef (encoded r) = recordRef r"
  by (simp add: recordRef_def encoded_def)

lemma refClaim_recordRef [simp]: "refClaim (recordRef r) = riyClaim (rmrIdentity r)"
  by (simp add: recordRef_def)


























text \<open>
  Such a history does start a run, and after a crash inside the start the next daemon asks for the
  same one again.
\<close>

lemma start_is_repeated_after_crash:
  fixes rn :: "(int, unit) Runner"
  assumes rn: "rn = \<lparr>rnBind = \<lambda>_. Some \<lparr>bdIdentity = \<lparr>riyClaim = \<lparr>rccRepository = ''o/r'', rccIssue = ''7'', rccEpoch = 1\<rparr>,
        riyBranch = ''ben/7'', riyBaseSHA = ''abc'', riySandboxID = ''sb'', riyProfileRevision = ''p1''\<rparr>,
        bdRun = ''run'', bdMeta = \<lparr>mtTemplateRevision = [], mtPromptDigest = [], mtProvider = [], mtModel = [],
        mtTranscript = [], mtReplay = None\<rparr>, bdGit = ()\<rparr>,
      rnInvoke = \<lambda>_. Some \<lparr>ivArgv = [''agent''], ivEnv = Map.empty, ivStdin = []\<rparr>,
      rnGitValid = \<lambda>_. True, rnDigest = \<lambda>_. Some ''digest''\<rparr>"
    and sc: "sc = \<lparr>scSave = \<lambda>_. SaveOk, scLoadFails = \<lambda>_. False,
      scStart = \<lambda>n. if n < 5 then StartCrash True else StartOk ''backend-1'', scAttach = \<lambda>_. StartFailed\<rparr>"
  shows "\<exists>ref. wStarts (fst (remoteHistory rn sc [DoStart spec, DoRestart, DoStart spec])) = [ref, ref]"
  unfolding rn sc
  by (simp add: remoteHistory_def Start_def compose_def Let_def identityComplete_def claimValid_def
      OpenJournal_def storeLoad_def Reserve_def storeSave_def encoded_def RecordVersion_def startJournal_def
      RecordReplay_def Resume_def refComplete_def recordRef_def runnerDispatch_def Dispatch_def saveOr_def
      backendStart_def startOrAttach_def resolveExisting_def Observe_def)

end
