(* ===== verification/Redact.thy ===== *)
theory Redact
  imports GoStringFacts "HOL-Library.Char_ord" "HOL-Library.List_Lexorder"
begin

text \<open>
  \<open>internal/agent/harness/redact.go\<close>: what is kept out of a retained transcript. The spellings of
  the credential values, the check that refuses values the stateless writer cannot cover,
  and the writer, which replaces every known spelling until none is left. The transcript is the
  concatenation of the writes of \<open>readStdout\<close> and \<open>finishTranscript\<close> in \<open>handle.go\<close>, one line each.
\<close>

section \<open>Spellings\<close>

definition carriageReturn :: char where "carriageReturn = CHR 0x0D"

definition redactedMarker :: string where "redactedMarker = ''***''"
definition minNeedle :: nat where "minNeedle = 8"

text \<open>\<open>json.Marshal\<close> of a string without its quotes: the HTML-safe encoder of \<open>encoding/json\<close>.\<close>

definition hexDigit :: "int \<Rightarrow> char" where
  "hexDigit d = ''0123456789abcdef'' ! nat d"

definition jsonByte :: "char \<Rightarrow> string" where
  "jsonByte c =
     (let b = byte c; esc = CHR 0x5C in
      if b = 34 \<or> b = 92 then [esc, c]
      else if b = 8 then [esc, CHR ''b'']
      else if b = 12 then [esc, CHR ''f'']
      else if b = 10 then [esc, CHR ''n'']
      else if b = 13 then [esc, CHR ''r'']
      else if b = 9 then [esc, CHR ''t'']
      else if b < 32 \<or> b = 60 \<or> b = 62 \<or> b = 38
        then esc # ''u00'' @ [hexDigit (b div 16), hexDigit (b mod 16)]
      else [c])"

function jsonBody :: "string \<Rightarrow> string" where
  "jsonBody s =
     (case s of
        [] \<Rightarrow> []
      | c # cs \<Rightarrow>
          if byte c < 128 then jsonByte c @ jsonBody cs
          else
            (let (r, w) = decodeRune (map byte s) in
             if r = runeError \<and> w = 1 then CHR 0x5C # ''ufffd'' @ jsonBody cs
             else if r = 8232 \<or> r = 8233
               then CHR 0x5C # ''u202'' @ [hexDigit (r mod 16)] @ jsonBody (drop (w - 1) cs)
             else c # take (w - 1) cs @ jsonBody (drop (w - 1) cs)))"
  by pat_completeness auto
termination
  by (relation "measure length") auto

declare jsonBody.simps [simp del]

definition jsonEscaped :: "string \<Rightarrow> string" where
  "jsonEscaped v = (let s = jsonBody v in if s = v then [] else s)"

definition trimSuffixCR :: "string \<Rightarrow> string" where
  "trimSuffixCR s = (if s \<noteq> [] \<and> last s = carriageReturn then butlast s else s)"

definition scannerLines :: "string \<Rightarrow> string list" where
  "scannerLines v = map trimSuffixCR (splitOn lineFeed v)"

definition rawSpellings :: "string \<Rightarrow> string list" where
  "rawSpellings v =
     (if lineFeed \<notin> set v then v # scannerLines v
      else v # splitOn lineFeed v @ scannerLines v)"

definition addNeedle :: "string \<Rightarrow> string list \<Rightarrow> string list" where
  "addNeedle s out = (if length s < minNeedle \<or> s \<in> set out then out else out @ [s])"

definition collectNeedles :: "string list \<Rightarrow> string list" where
  "collectNeedles values =
     fold (\<lambda>v out. fold (\<lambda>s out. addNeedle (jsonEscaped s) (addNeedle s out)) (rawSpellings v) out)
       values []"

text \<open>Longest first, then by bytes; the spellings are distinct, so the order is determined.\<close>

definition needles :: "string list \<Rightarrow> string list" where
  "needles values = sort_key (\<lambda>s. - int (length s)) (sort (collectNeedles values))"

section \<open>The check\<close>

definition redactable :: "string \<Rightarrow> bool" where
  "redactable v \<longleftrightarrow> length v < minNeedle \<or> list_ex (\<lambda>line. length line \<ge> minNeedle) (scannerLines v)"

text \<open>The refused field, or no refusal; values come with their paths in the order of the walk.\<close>

definition CheckRedactable :: "(string list \<times> string) list \<Rightarrow> string list option" where
  "CheckRedactable credentials =
     map_option fst (firstSuch (\<lambda>(path, v). \<not> redactable v) credentials)"

definition CheckRedactableEnv :: "(string \<times> string) list \<Rightarrow> string option" where
  "CheckRedactableEnv undeclared =
     map_option fst (firstSuch (\<lambda>(site, v). \<not> redactable v) (sort_key fst undeclared))"

section \<open>The writer\<close>

definition redactPass :: "string list \<Rightarrow> string \<Rightarrow> string" where
  "redactPass ns s = fold (\<lambda>n s. replaceAll n redactedMarker s) ns s"

text \<open>The loop of \<open>apply\<close>; it need not end for arbitrary patterns, so its result is optional.\<close>

partial_function (option) applyLoop :: "string list \<Rightarrow> string \<Rightarrow> string option" where
  "applyLoop ns before =
     (let s = redactPass ns before in if s = before then Some s else applyLoop ns s)"

declare applyLoop.simps [code]

definition newRedactor :: "string list \<Rightarrow> string list option" where
  "newRedactor values = (let n = needles values in if n = [] then None else Some n)"

definition applyRedactor :: "string list option \<Rightarrow> string \<Rightarrow> string option" where
  "applyRedactor r s = (case r of None \<Rightarrow> Some s | Some ns \<Rightarrow> applyLoop ns s)"

text \<open>
  The bytes a sink receives for a sequence of writes of whole lines; \<open>None\<close> when some write never
  ends.
\<close>

fun transcriptOf :: "string list option \<Rightarrow> string list \<Rightarrow> string option" where
  "transcriptOf r [] = Some []"
| "transcriptOf r (line # lines) =
     (case applyRedactor r (line @ [lineFeed]) of
        None \<Rightarrow> None
      | Some s \<Rightarrow> map_option (\<lambda>rest. s @ rest) (transcriptOf r lines))"

section \<open>Replacing\<close>

lemma contains_Cons: "contains (c # cs) p \<longleftrightarrow> hasPrefix (c # cs) p \<or> contains cs p"
  by (simp add: contains_def strIndex_Cons)

lemma contains_Nil: "contains [] p \<longleftrightarrow> p = []"
  by (simp add: contains_def strIndex_Nil)

lemma replaceAll_absent: "\<not> contains s old \<Longrightarrow> replaceAll old new s = s"
  by (induction s) (auto simp: contains_Cons replaceAll_other)

lemma replaceAll_length:
  "length new < length old \<Longrightarrow>
   length (replaceAll old new s) \<le> length s \<and> (contains s old \<longrightarrow> length (replaceAll old new s) < length s)"
proof (induction s rule: length_induct)
  case (1 s)
  show ?case
  proof (cases s)
    case Nil
    then show ?thesis using 1 by (auto simp: contains_Nil)
  next
    case (Cons c cs)
    show ?thesis
    proof (cases "hasPrefix s old")
      case True
      then obtain t where t: "s = old @ t" by (auto simp: hasPrefix_iff)
      have "old \<noteq> []" using 1 by auto
      then have "length (replaceAll old new t) \<le> length t" using 1 t by (cases old) auto
      moreover have "length (replaceAll old new s) = length new + length (replaceAll old new t)"
        using t \<open>old \<noteq> []\<close> by (simp add: replaceAll_match)
      ultimately show ?thesis using 1(2) t by auto
    next
      case False
      then show ?thesis using 1 Cons by (auto simp: replaceAll_other contains_Cons)
    qed
  qed
qed

lemma redactPass_length:
  "(\<And>n. n \<in> set ns \<Longrightarrow> length n \<ge> minNeedle) \<Longrightarrow>
   length (redactPass ns s) \<le> length s
   \<and> (length (redactPass ns s) = length s \<longrightarrow> redactPass ns s = s \<and> (\<forall>n\<in>set ns. \<not> contains s n))"
proof (induction ns arbitrary: s)
  case (Cons n ns)
  let ?s = "replaceAll n redactedMarker s"
  have short: "length redactedMarker < length n"
    using Cons.prems [of n] by (simp add: redactedMarker_def minNeedle_def)
  have IH: "length (redactPass ns ?s) \<le> length ?s
      \<and> (length (redactPass ns ?s) = length ?s \<longrightarrow> redactPass ns ?s = ?s \<and> (\<forall>n\<in>set ns. \<not> contains ?s n))"
    using Cons by simp
  show ?case
  proof (cases "contains s n")
    case True
    then show ?thesis
      using IH replaceAll_length [OF short, of s] by (auto simp: redactPass_def)
  next
    case False
    then show ?thesis using IH replaceAll_absent [OF False, of redactedMarker] by (auto simp: redactPass_def)
  qed
qed (simp add: redactPass_def)

lemma applyLoop_clean:
  assumes ns: "\<And>n. n \<in> set ns \<Longrightarrow> length n \<ge> minNeedle"
  shows "\<exists>t. applyLoop ns s = Some t \<and> (\<forall>n\<in>set ns. \<not> contains t n)"
proof (induction s rule: length_induct)
  case (1 s)
  note len = redactPass_length [OF ns, where s = s]
  show ?case
  proof (cases "redactPass ns s = s")
    case True
    then show ?thesis using len by (subst applyLoop.simps) (auto simp: Let_def)
  next
    case False
    then have "length (redactPass ns s) < length s" using len by (auto simp: nat_less_le)
    then show ?thesis using 1 False by (subst applyLoop.simps) (simp add: Let_def)
  qed
qed

section \<open>A write stays a line\<close>

lemma replaceAll_set: "set (replaceAll old new s) \<subseteq> set s \<union> set new"
proof (induction s rule: length_induct)
  case (1 s)
  show ?case
  proof (cases s)
    case (Cons c cs)
    show ?thesis
    proof (cases "old \<noteq> [] \<and> hasPrefix s old")
      case True
      then obtain t where t: "s = old @ t" by (auto simp: hasPrefix_iff)
      then have "set (replaceAll old new t) \<subseteq> set t \<union> set new" using 1 True by (cases old) auto
      then show ?thesis using t True by (auto simp: replaceAll_match)
    next
      case False
      then have "replaceAll old new s = c # replaceAll old new cs"
        using Cons by (subst replaceAll.simps) auto
      then show ?thesis using 1 Cons by auto
    qed
  qed simp
qed

lemma replaceAll_last:
  assumes "old \<noteq> []" and "last old \<noteq> x"
  shows "replaceAll old new (s @ [x]) = replaceAll old new s @ [x]"
proof (induction s rule: length_induct)
  case (1 s)
  show ?case
  proof (cases "hasPrefix (s @ [x]) old")
    case True
    then obtain t where t: "s @ [x] = old @ t" by (auto simp: hasPrefix_iff)
    have "t \<noteq> []" using t assms by (metis append_Nil2 last_snoc)
    then obtain t' where t': "t = t' @ [x]" using t by (metis append_butlast_last_id last_appendR last_snoc)
    then have s: "s = old @ t'" using t by simp
    have "replaceAll old new (t' @ [x]) = replaceAll old new t' @ [x]"
      using 1 s assms by (cases old) auto
    then show ?thesis using s assms by (simp add: replaceAll_match)
  next
    case False
    then have "\<not> hasPrefix s old" by (auto simp: hasPrefix_iff)
    then show ?thesis using 1 False
      by (cases s) (auto simp: replaceAll_other)
  qed
qed

lemma redactPass_line:
  "(\<And>n. n \<in> set ns \<Longrightarrow> n \<noteq> [] \<and> last n \<noteq> lineFeed) \<Longrightarrow> lineFeed \<notin> set l \<Longrightarrow>
   \<exists>l'. redactPass ns (l @ [lineFeed]) = l' @ [lineFeed] \<and> lineFeed \<notin> set l'"
proof (induction ns arbitrary: l)
  case (Cons n ns)
  have "lineFeed \<notin> set (replaceAll n redactedMarker l)"
    using replaceAll_set [of n redactedMarker l] Cons.prems(2) by (auto simp: redactedMarker_def lineFeed_def)
  then show ?case
    using Cons.IH [of "replaceAll n redactedMarker l"] Cons.prems(1)
    by (simp add: redactPass_def replaceAll_last)
qed (simp add: redactPass_def)

lemma applyLoop_line:
  assumes ns: "\<And>n. n \<in> set ns \<Longrightarrow> length n \<ge> minNeedle \<and> last n \<noteq> lineFeed"
    and "lineFeed \<notin> set l"
  shows "\<exists>l'. applyLoop ns (l @ [lineFeed]) = Some (l' @ [lineFeed]) \<and> lineFeed \<notin> set l'
     \<and> (\<forall>n\<in>set ns. \<not> contains (l' @ [lineFeed]) n)"
proof -
  have ne: "n \<noteq> [] \<and> last n \<noteq> lineFeed" if "n \<in> set ns" for n
    using ns [OF that] by (auto simp: minNeedle_def)
  have "\<exists>l'. applyLoop ns (l @ [lineFeed]) = Some (l' @ [lineFeed]) \<and> lineFeed \<notin> set l'"
    if "lineFeed \<notin> set l" for l
    using that
  proof (induction l rule: length_induct)
    case (1 l)
    obtain l' where l': "redactPass ns (l @ [lineFeed]) = l' @ [lineFeed]" "lineFeed \<notin> set l'"
      using redactPass_line [OF ne 1(2)] by blast
    have len: "length l' \<le> length l" "length l' = length l \<longrightarrow> l' = l"
      using redactPass_length [of ns "l @ [lineFeed]"] ns l' by auto
    show ?case
    proof (cases "l' = l")
      case True
      then show ?thesis using l' by (subst applyLoop.simps) (simp add: Let_def)
    next
      case False
      then have "length l' < length l" using len by (auto simp: nat_less_le)
      then show ?thesis using 1(1) l' False by (subst applyLoop.simps) (simp add: Let_def)
    qed
  qed
  then obtain l' where l': "applyLoop ns (l @ [lineFeed]) = Some (l' @ [lineFeed])" "lineFeed \<notin> set l'"
    using assms(2) by blast
  then show ?thesis using applyLoop_clean [of ns "l @ [lineFeed]"] ns by auto
qed

section \<open>Lines of a concatenation\<close>

lemma splitOn_transcript:
  "\<forall>l\<in>set ls. d \<notin> set l \<Longrightarrow> splitOn d (concat (map (\<lambda>l. l @ [d]) ls)) = ls @ [[]]"
  by (induction ls) (auto simp: splitOn_line)

lemma contains_refl: "contains s s"
  by (auto simp: contains_iff intro: exI [of _ "[]"])

lemma contains_trans: "contains a b \<Longrightarrow> contains b c \<Longrightarrow> contains a c"
  by (auto simp: contains_iff) (metis append.assoc)

lemma splitOn_prefixed: "x \<in> set (splitOn d v) \<Longrightarrow> \<exists>y\<in>set (splitOn d (a @ v)). contains y x"
proof (induction a)
  case (Cons c a)
  then obtain y where y: "y \<in> set (splitOn d (a @ v))" "contains y x" by auto
  show ?case
  proof (cases "splitOn d (a @ v)")
    case (Cons w ws)
    have "contains (c # w) w" by (auto simp: contains_Cons contains_refl)
    then have "contains (c # w) x" if "y = w" using y that contains_trans by blast
    then show ?thesis using y Cons by auto
  qed (use splitOn_nonempty in auto)
qed (use contains_refl in auto)

lemma splitOn_suffixed:
  "(\<exists>z. hd (splitOn d (v @ b)) = hd (splitOn d v) @ z)
   \<and> (\<forall>x\<in>set (splitOn d v). \<exists>y\<in>set (splitOn d (v @ b)). contains y x)"
proof (induction v)
  case Nil
  then show ?case using splitOn_nonempty [of d b] by (cases "splitOn d b") (auto simp: contains_iff)
next
  case (Cons c v)
  obtain w ws where w: "splitOn d v = w # ws" using splitOn_nonempty by (cases "splitOn d v") auto
  obtain u us where u: "splitOn d (v @ b) = u # us" using splitOn_nonempty by (cases "splitOn d (v @ b)") auto
  obtain z where z: "u = w @ z" using Cons w u by auto
  have rest: "\<exists>y\<in>set (u # us). contains y x" if "x \<in> set (w # ws)" for x using Cons w u that by auto
  show ?case
  proof (cases "c = d")
    case True
    then show ?thesis using rest w u by (auto simp: contains_refl)
  next
    case False
    have "contains (c # w @ z) (c # w)" by (auto simp: contains_iff intro: exI [of _ "[]"])
    moreover have "\<exists>y\<in>set ((c # w @ z) # us). contains y x" if "x \<in> set ws" for x
      using rest [of x] that z contains_trans [of "c # w @ z" "w @ z" x] by (auto simp: contains_Cons contains_refl)
    ultimately show ?thesis using False w u z by auto
  qed
qed

lemma contains_lines:
  assumes "contains s v" and "x \<in> set (splitOn d v)"
  shows "\<exists>y\<in>set (splitOn d s). contains y x"
proof -
  obtain a b where s: "s = a @ v @ b" using assms(1) by (auto simp: contains_iff)
  obtain y where "y \<in> set (splitOn d (v @ b))" "contains y x"
    using splitOn_suffixed [of d v b] assms(2) by blast
  then obtain z where "z \<in> set (splitOn d (a @ v @ b))" "contains z y"
    using splitOn_prefixed by blast
  then show ?thesis using s \<open>contains y x\<close> contains_trans by blast
qed

section \<open>The needles\<close>

lemma set_addNeedle: "set (addNeedle s out) = set out \<union> (if length s < minNeedle then {} else {s})"
  by (auto simp: addNeedle_def)

lemma set_collectNeedles:
  "n \<in> set (collectNeedles values) \<longleftrightarrow>
   length n \<ge> minNeedle \<and> (\<exists>v\<in>set values. \<exists>s\<in>set (rawSpellings v). n = s \<or> n = jsonEscaped s)"
proof -
  have inner: "set (fold (\<lambda>s out. addNeedle (jsonEscaped s) (addNeedle s out)) ss out)
      = set out \<union> {n. length n \<ge> minNeedle \<and> (\<exists>s\<in>set ss. n = s \<or> n = jsonEscaped s)}" for ss out
    by (induction ss arbitrary: out) (auto simp: set_addNeedle)
  have "set (fold (\<lambda>v out. fold (\<lambda>s out. addNeedle (jsonEscaped s) (addNeedle s out)) (rawSpellings v) out) vs out)
      = set out \<union> {n. length n \<ge> minNeedle \<and> (\<exists>v\<in>set vs. \<exists>s\<in>set (rawSpellings v). n = s \<or> n = jsonEscaped s)}"
    for vs out
    by (induction vs arbitrary: out) (auto simp: inner)
  then show ?thesis by (simp add: collectNeedles_def)
qed

lemma set_needles [simp]: "set (needles values) = set (collectNeedles values)"
  by (simp add: needles_def)

lemma jsonByte_no_feed: "lineFeed \<notin> set (jsonByte c)"
proof -
  have hex: "hexDigit d \<noteq> lineFeed" if "0 \<le> d" "d < 16" for d
  proof -
    have "nat d < length ''0123456789abcdef''" using that by simp
    then have "hexDigit d \<in> set ''0123456789abcdef''" unfolding hexDigit_def by (rule nth_mem)
    then show ?thesis by (auto simp: lineFeed_def)
  qed
  have "byte c = int (of_char c)" unfolding byte_def by (rule of_nat_of_char [symmetric])
  then have "0 \<le> byte c" "byte c < 256" using nat_of_char_less_256 [of c] by linarith+
  then have "hexDigit (byte c div 16) \<noteq> lineFeed" "hexDigit (byte c mod 16) \<noteq> lineFeed"
    by (intro hex; simp)+
  moreover have "lineFeed \<notin> set ''u00bfnrt''" "lineFeed \<noteq> CHR 0x5C" by (auto simp: lineFeed_def)
  moreover have "c = lineFeed \<Longrightarrow> byte c = 10" by (simp add: byte_def lineFeed_def)
  ultimately show ?thesis by (auto simp: jsonByte_def Let_def)
qed

lemma decodeRune_tail:
  "decodeRune (b # bs) = (r, w) \<Longrightarrow> x \<in> set (take (w - 1) bs) \<Longrightarrow> 128 \<le> x"
  by (auto simp: decodeRune_def isCont_def split: if_splits list.splits)

lemma jsonBody_no_feed: "lineFeed \<notin> set (jsonBody s)"
proof (induction s rule: length_induct)
  case (1 s)
  show ?case
  proof (cases s)
    case (Cons c cs)
    obtain r w where d: "decodeRune (byte c # map byte cs) = (r, w)" by fastforce
    have "byte x \<ge> 128" if "x \<in> set (take (w - 1) cs)" for x
      using decodeRune_tail [OF d, of "byte x"] that by (simp add: take_map)
    moreover have "byte lineFeed < 128" by (simp add: lineFeed_def byte_def)
    ultimately have t: "lineFeed \<notin> set (take (w - 1) cs)" by (meson not_le)
    have h: "hexDigit (r mod 16) \<noteq> lineFeed" if "r = 8232 \<or> r = 8233"
      using that by (auto simp: hexDigit_def lineFeed_def)
    have "lineFeed \<notin> set (jsonBody cs)" "lineFeed \<notin> set (jsonBody (drop (w - 1) cs))"
      using 1 Cons by auto
    moreover have "byte c < 128 \<or> c \<noteq> lineFeed" by (auto simp: lineFeed_def byte_def)
    moreover have "set ''u202'' \<inter> {lineFeed} = {}" "set ''ufffd'' \<inter> {lineFeed} = {}" "CHR 0x5C \<noteq> lineFeed"
      by (auto simp: lineFeed_def)
    ultimately show ?thesis
      unfolding Cons using d t h jsonByte_no_feed [of c] by (subst jsonBody.simps) (auto split: if_splits)
  qed (subst jsonBody.simps, simp)
qed

lemma splitOn_no_sep: "l \<in> set (splitOn d s) \<Longrightarrow> d \<notin> set l"
  by (induction s arbitrary: l) (auto split: if_splits list.splits)

lemma trimSuffixCR_prefix: "\<exists>z. l = trimSuffixCR l @ z"
  by (metis append_Nil2 append_butlast_last_id trimSuffixCR_def)

lemma needle_not_at_end:
  assumes "\<forall>v\<in>set values. v = [] \<or> last v \<noteq> lineFeed" and "n \<in> set (needles values)"
  shows "length n \<ge> minNeedle \<and> last n \<noteq> lineFeed"
proof -
  obtain v s where v: "length n \<ge> minNeedle" "v \<in> set values" "s \<in> set (rawSpellings v)"
      "n = s \<or> n = jsonEscaped s"
    using assms(2) by (auto simp: set_collectNeedles)
  have ne: "n \<noteq> []" using v(1) by (auto simp: minNeedle_def)
  consider "n = v" | "lineFeed \<notin> set n"
  proof -
    have "s = v \<or> lineFeed \<notin> set s"
    proof -
      have "lineFeed \<notin> set (trimSuffixCR l)" if "l \<in> set (splitOn lineFeed v)" for l
        using splitOn_no_sep [OF that] trimSuffixCR_prefix [of l] by (metis UnCI set_append)
      then show ?thesis
        using v(3) splitOn_no_sep by (auto simp: rawSpellings_def scannerLines_def split: if_splits)
    qed
    moreover have "lineFeed \<notin> set (jsonEscaped s)"
      using jsonBody_no_feed [of s] by (simp add: jsonEscaped_def Let_def)
    ultimately show ?thesis using v(4) that by auto
  qed
  then show ?thesis
  proof cases
    case 1
    then show ?thesis using v assms(1) ne by auto
  next
    case 2
    then show ?thesis using v ne last_in_set by fastforce
  qed
qed

section \<open>No credential in the transcript\<close>

lemma transcript_lines:
  assumes ns: "\<And>n. n \<in> set ns \<Longrightarrow> length n \<ge> minNeedle \<and> last n \<noteq> lineFeed"
  shows "\<forall>l\<in>set lines. lineFeed \<notin> set l \<Longrightarrow>
    \<exists>ls. transcriptOf (Some ns) lines = Some (concat (map (\<lambda>l. l @ [lineFeed]) ls))
       \<and> (\<forall>l\<in>set ls. lineFeed \<notin> set l \<and> (\<forall>n\<in>set ns. \<not> contains (l @ [lineFeed]) n))"
proof (induction lines)
  case (Cons line lines)
  then obtain ls where ls: "transcriptOf (Some ns) lines = Some (concat (map (\<lambda>l. l @ [lineFeed]) ls))"
      "\<forall>l\<in>set ls. lineFeed \<notin> set l \<and> (\<forall>n\<in>set ns. \<not> contains (l @ [lineFeed]) n)" by auto
  obtain l' where "applyLoop ns (line @ [lineFeed]) = Some (l' @ [lineFeed])" "lineFeed \<notin> set l'"
      "\<forall>n\<in>set ns. \<not> contains (l' @ [lineFeed]) n"
    using applyLoop_line [of ns line] ns Cons.prems by auto
  then show ?case using ls by (intro exI [of _ "l' # ls"]) (simp add: applyRedactor_def)
qed (simp add: exI [of _ "[]"])

text \<open>
  C17. A credential the check accepts never reaches the transcript: whatever lines the agent
  prints, every write ends, and the transcript, all writes in a row, contains no credential
  value of eight bytes or more that \<open>redactable\<close> accepts, on one line or across several,
  and no JSON spelling of it; provided no credential value ends with a line feed.
\<close>

theorem credential_never_in_transcript:
  assumes ends: "\<forall>x\<in>set values. x = [] \<or> last x \<noteq> lineFeed"
    and v: "v \<in> set values" "length v \<ge> minNeedle" "redactable v"
    and lines: "\<forall>l\<in>set lines. lineFeed \<notin> set l"
  shows "\<exists>t. transcriptOf (newRedactor values) lines = Some t \<and> \<not> contains t v
     \<and> (length (jsonEscaped v) \<ge> minNeedle \<longrightarrow> \<not> contains t (jsonEscaped v))"
proof -
  let ?ns = "needles values"
  have vn: "v \<in> set ?ns" using v by (auto simp: set_collectNeedles rawSpellings_def)
  then have "?ns \<noteq> []" by (metis empty_iff empty_set)
  then have r: "newRedactor values = Some ?ns" by (simp add: newRedactor_def Let_def)
  obtain ls where t: "transcriptOf (Some ?ns) lines = Some (concat (map (\<lambda>l. l @ [lineFeed]) ls))"
    and ls: "\<forall>l\<in>set ls. lineFeed \<notin> set l \<and> (\<forall>n\<in>set ?ns. \<not> contains (l @ [lineFeed]) n)"
    using transcript_lines [OF needle_not_at_end [OF ends] lines] by blast
  let ?t = "concat (map (\<lambda>l. l @ [lineFeed]) ls)"
  have clean: "\<not> contains y n" if "y \<in> set (splitOn lineFeed ?t)" "n \<in> set ?ns" for y n
  proof -
    have "y \<in> set ls \<or> y = []" using that splitOn_transcript [of ls lineFeed] ls by auto
    moreover have "n \<noteq> []" using that(2) by (auto simp: set_collectNeedles minNeedle_def)
    moreover have "contains (l @ [lineFeed]) n" if "contains l n" for l
      using contains_append [OF that, of "[]"] by simp
    ultimately show ?thesis using ls that(2) by (auto simp: contains_Nil)
  qed
  have absent: "\<not> contains ?t p" if "x \<in> set (splitOn lineFeed p)" "contains x n" "n \<in> set ?ns" for p x n
    using contains_lines [OF _ that(1), of ?t] clean that contains_trans by blast
  obtain line where line: "line \<in> set (splitOn lineFeed v)" "length (trimSuffixCR line) \<ge> minNeedle"
    using v by (auto simp: redactable_def scannerLines_def list_ex_iff)
  have sn: "trimSuffixCR line \<in> set ?ns"
    using line v(1) by (auto simp: set_collectNeedles rawSpellings_def scannerLines_def)
  have "contains line (trimSuffixCR line)"
    using trimSuffixCR_prefix [of line] contains_refl by (auto simp: contains_iff) (metis append_Nil)
  then have "\<not> contains ?t v" using absent [OF line(1)] sn by blast
  moreover have "\<not> contains ?t (jsonEscaped v)" if "length (jsonEscaped v) \<ge> minNeedle"
  proof -
    have "lineFeed \<notin> set (jsonEscaped v)"
      using jsonBody_no_feed [of v] by (simp add: jsonEscaped_def Let_def)
    then have "splitOn lineFeed (jsonEscaped v) = [jsonEscaped v]" by (rule splitOn_plain)
    moreover have "jsonEscaped v \<in> set ?ns"
      using that v(1) by (auto simp: set_collectNeedles rawSpellings_def)
    ultimately show ?thesis
      using absent [of "jsonEscaped v" "jsonEscaped v" "jsonEscaped v"] contains_refl by simp
  qed
  ultimately show ?thesis using r t by simp
qed

theorem credential_never_in_transcript_witness:
  "\<exists>t. transcriptOf (newRedactor [''s3cr3t-token'', ''1'']) [''key=s3cr3t-token;'', ''1''] = Some t
     \<and> \<not> contains t ''s3cr3t-token''"
proof -
  have "\<forall>x\<in>set [''s3cr3t-token'', ''1'']. x = [] \<or> last x \<noteq> lineFeed" by (simp add: lineFeed_def)
  moreover have "''s3cr3t-token'' \<in> set [''s3cr3t-token'', ''1'']" by simp
  moreover have "length ''s3cr3t-token'' \<ge> minNeedle" by (simp add: minNeedle_def)
  moreover have "redactable ''s3cr3t-token''" by code_simp
  moreover have "\<forall>l\<in>set [''key=s3cr3t-token;'', ''1'']. lineFeed \<notin> set l" by (simp add: lineFeed_def)
  ultimately show ?thesis
    using credential_never_in_transcript [of "[''s3cr3t-token'', ''1'']" "''s3cr3t-token''"
        "[''key=s3cr3t-token;'', ''1'']"] by blast
qed

text \<open>
  Why the theorem excludes a value that ends with a line feed: its own spelling takes the line
  feed of a write with it, so two lines of the transcript run together, and the marker followed by
  the second line can spell another credential. The check accepts both values.
\<close>

lemma trailing_feed_joins_lines:
  "redactable (''abcdefgh'' @ [lineFeed]) \<and> redactable ''***suffix''
   \<and> transcriptOf (newRedactor [''abcdefgh'' @ [lineFeed], ''***suffix'']) [''abcdefgh'', ''suffix'']
       = Some (''***suffix'' @ [lineFeed])"
  by code_simp

end
