(* ===== verification/RemoteStream.thy ===== *)
theory RemoteStream
  imports RemoteJournal Redact CoreTypes
begin

text \<open>
  The event stream of a remote run: the sequencer of \<open>internal/remote/cursor.go\<close> with the
  retention ranges of \<open>retention.go\<close>, the reconciliation of the local checkpoint with the durable
  consumer and the line framing of \<open>attempt.go\<close>, and the reconnect delay of \<open>reconnect.go\<close>. Sequence
  numbers are integers: the code never steps past the greatest of its type without refusing.
  The digest of an envelope, a SHA-256 of its stream, its truncation mark and its payload, is the
  argument \<open>digest\<close>.
\<close>

section \<open>Events and gaps\<close>

record Envelope =
  enSeq :: int
  enStream :: nat
  enPayload :: string
  enTruncated :: bool

record EventGap =
  egFrom :: int
  egTo :: int

definition gapValid :: "EventGap \<Rightarrow> bool" where
  "gapValid g \<longleftrightarrow> egFrom g \<ge> 1 \<and> egTo g \<ge> egFrom g"

definition gapContains :: "EventGap \<Rightarrow> int \<Rightarrow> bool" where
  "gapContains g seq \<longleftrightarrow> seq \<ge> egFrom g \<and> seq \<le> egTo g"

definition maxInt64 :: int where "maxInt64 = 9223372036854775807"

text \<open>\<open>RetentionGap.Range\<close>; a nil gap is \<open>None\<close>.\<close>

definition gapRange :: "(int \<times> int) option \<Rightarrow> EventGap option" where
  "gapRange g =
     (case g of
        None \<Rightarrow> None
      | Some (requestedAfter, oldest) \<Rightarrow>
          if requestedAfter < 0 \<or> requestedAfter = maxInt64 \<or> oldest \<le> 0 then None
          else
            (let from = requestedAfter + 1 in
             if oldest \<le> from then None
             else
               (let gap = \<lparr>egFrom = from, egTo = oldest - 1\<rparr>
                in if \<not> gapValid gap then None else Some gap)))"

datatype streamError =
    GapUnusable | GapOverlap | GapPastCursor | HistoryGap int | HistoryPastCursor int | GapMisplaced
  | CursorMismatch | SeqNotPositive int | SeqExpired int | SeqUnknown int | SeqConflict int
  | SeqSkipped int | FrameTooLarge
  | NoHistory | CursorMovedBack | TerminalCleared | TerminalInconsistent | EventsAfterTerminal
  | GapSpan | GapWithEnvelope | GapWithTail | GapAfterSuccess | GapWithoutFailure | GapAddsOutcome
  | EnvelopeUncovered int | CursorLeads | TerminalLeads | TerminalWithoutEvent

section \<open>The sequencer\<close>

record 'd Sequencer =
  sqAdmitted :: int
  sqCommitted :: int
  sqDigests :: "int \<rightharpoonup> 'd"
  sqGaps :: "EventGap list"

definition NewSequencer :: "int \<Rightarrow> 'd Sequencer" where
  "NewSequencer c = \<lparr>sqAdmitted = c, sqCommitted = c, sqDigests = Map.empty, sqGaps = []\<rparr>"

text \<open>The checks of the ranges, with the end of the range before.\<close>

fun gapsCheck :: "int \<Rightarrow> int option \<Rightarrow> EventGap list \<Rightarrow> streamError option" where
  "gapsCheck committed prev [] = None"
| "gapsCheck committed prev (g # gs) =
     (if \<not> gapValid g then Some GapUnusable
      else if (case prev of None \<Rightarrow> False | Some p \<Rightarrow> egFrom g \<le> p) then Some GapOverlap
      else if egTo g > committed then Some GapPastCursor
      else gapsCheck committed (Some (egTo g)) gs)"

fun skipAccepted :: "int \<Rightarrow> EventGap list \<Rightarrow> int \<times> EventGap list" where
  "skipAccepted expected [] = (expected, [])"
| "skipAccepted expected (g # gs) =
     (if egFrom g = expected then skipAccepted (egTo g + 1) gs else (expected, g # gs))"

fun restoreLoop ::
  "(Envelope \<Rightarrow> 'd) \<Rightarrow> int \<Rightarrow> int \<Rightarrow> EventGap list \<Rightarrow> (int \<rightharpoonup> 'd) \<Rightarrow> Envelope list
   \<Rightarrow> streamError + (int \<times> EventGap list \<times> (int \<rightharpoonup> 'd))" where
  "restoreLoop digest committed expected gaps restored [] = Inr (expected, gaps, restored)"
| "restoreLoop digest committed expected gaps restored (env # envs) =
     (if enSeq env \<noteq> expected then Inl (HistoryGap expected)
      else if enSeq env > committed then Inl (HistoryPastCursor (enSeq env))
      else
        (let (expected', gaps') = skipAccepted (expected + 1) gaps
         in restoreLoop digest committed expected' gaps' (restored(enSeq env \<mapsto> digest env)) envs))"

definition Restore ::
  "(Envelope \<Rightarrow> 'd) \<Rightarrow> Envelope list \<Rightarrow> EventGap list \<Rightarrow> 'd Sequencer \<Rightarrow> streamError + 'd Sequencer" where
  "Restore digest history gaps s =
     (case gapsCheck (sqCommitted s) None gaps of
        Some e \<Rightarrow> Inl e
      | None \<Rightarrow>
          (let (expected, left) = skipAccepted 1 gaps in
           case restoreLoop digest (sqCommitted s) expected left Map.empty history of
             Inl e \<Rightarrow> Inl e
           | Inr (expected', left', restored) \<Rightarrow>
               if left' \<noteq> [] then Inl GapMisplaced
               else if expected' - 1 \<noteq> sqCommitted s then Inl CursorMismatch
               else Inr (s\<lparr>sqDigests := restored, sqGaps := gaps\<rparr>)))"

definition AcceptGap :: "EventGap \<Rightarrow> 'd Sequencer \<Rightarrow> streamError + 'd Sequencer" where
  "AcceptGap gap s =
     (if \<not> gapValid gap then Inl GapUnusable
      else if egFrom gap \<noteq> sqAdmitted s + 1 then Inl GapMisplaced
      else Inr (s\<lparr>sqGaps := sqGaps s @ [gap], sqAdmitted := egTo gap\<rparr>))"

definition expired :: "'d Sequencer \<Rightarrow> int \<Rightarrow> bool" where
  "expired s seq = list_ex (\<lambda>g. gapContains g seq) (sqGaps s)"

fun admitLoop ::
  "(Envelope \<Rightarrow> 'd) \<Rightarrow> 'd Sequencer \<Rightarrow> int \<Rightarrow> (int \<rightharpoonup> 'd) \<Rightarrow> Envelope list \<Rightarrow> Envelope list
   \<Rightarrow> streamError + (int \<times> (int \<rightharpoonup> 'd) \<times> Envelope list)" where
  "admitLoop digest s admitted pending fresh [] = Inr (admitted, pending, fresh)"
| "admitLoop digest s admitted pending fresh (env # envs) =
     (if enSeq env \<le> 0 then Inl (SeqNotPositive (enSeq env))
      else if enSeq env \<le> admitted then
        (case (case pending (enSeq env) of Some d \<Rightarrow> Some d | None \<Rightarrow> sqDigests s (enSeq env)) of
           None \<Rightarrow> Inl (if expired s (enSeq env) then SeqExpired (enSeq env) else SeqUnknown (enSeq env))
         | Some seen \<Rightarrow>
             if seen \<noteq> digest env then Inl (SeqConflict (enSeq env))
             else admitLoop digest s admitted pending fresh envs)
      else if enSeq env = admitted + 1 then
        admitLoop digest s (enSeq env) (pending(enSeq env \<mapsto> digest env)) (fresh @ [env]) envs
      else Inl (SeqSkipped (admitted + 1)))"

definition Admit ::
  "(Envelope \<Rightarrow> 'd) \<Rightarrow> Envelope list \<Rightarrow> 'd Sequencer \<Rightarrow> streamError + (Envelope list \<times> 'd Sequencer)" where
  "Admit digest batch s =
     (case admitLoop digest s (sqAdmitted s) Map.empty [] batch of
        Inl e \<Rightarrow> Inl e
      | Inr (admitted, pending, fresh) \<Rightarrow>
          Inr (fresh, s\<lparr>sqDigests := sqDigests s ++ pending, sqAdmitted := admitted\<rparr>))"

definition CommitSeq :: "int \<Rightarrow> 'd Sequencer \<Rightarrow> 'd Sequencer" where
  "CommitSeq seq s =
     (let q = (if seq > sqAdmitted s then sqAdmitted s else seq)
      in if q > sqCommitted s then s\<lparr>sqCommitted := q\<rparr> else s)"

section \<open>Framing\<close>

definition MaxProviderLine :: nat where "MaxProviderLine = 10485760"

function frameLoop :: "string \<Rightarrow> string list \<Rightarrow> streamError + (string list \<times> string)" where
  "frameLoop buf lines =
     (case cutOn lineFeed buf of
        None \<Rightarrow> Inr (lines, buf)
      | Some (line, rest) \<Rightarrow>
          if length line > MaxProviderLine then Inl FrameTooLarge
          else frameLoop rest (lines @ [trimSuffixCR line]))"
  by pat_completeness auto

lemma cutOn_Some: "cutOn d s = Some (a, b) \<Longrightarrow> s = a @ d # b \<and> d \<notin> set a"
  by (induction d s arbitrary: a b rule: cutOn.induct) (auto split: if_splits option.splits)

lemma cutOn_None: "cutOn d s = None \<longleftrightarrow> d \<notin> set s"
  by (induction d s rule: cutOn.induct) (auto split: option.splits)

termination frameLoop
  by (relation "measure (\<lambda>(buf, lines). length buf)") (auto dest: cutOn_Some)

declare frameLoop.simps [simp del]

definition frameProvider :: "string \<Rightarrow> string \<Rightarrow> bool \<Rightarrow> streamError + (string list \<times> string)" where
  "frameProvider tail chunk sealed =
     (case frameLoop (tail @ chunk) [] of
        Inl e \<Rightarrow> Inl e
      | Inr (lines, buf) \<Rightarrow>
          if length buf > MaxProviderLine then Inl FrameTooLarge
          else if sealed \<and> buf \<noteq> [] then Inr (lines @ [trimSuffixCR buf], [])
          else Inr (lines, buf))"

section \<open>Reconnecting\<close>

definition wrap64 :: "int \<Rightarrow> int" where
  "wrap64 i = (i + 9223372036854775808) mod 18446744073709551616 - 9223372036854775808"

record ReconnectPolicy =
  rcpInitial :: int
  rcpMax :: int
  rcpBudget :: int

definition DefaultReconnectPolicy :: ReconnectPolicy where
  "DefaultReconnectPolicy =
     \<lparr>rcpInitial = 500 * 1000000, rcpMax = 15 * nanosPerSecond, rcpBudget = 5 * 60 * nanosPerSecond\<rparr>"

definition withDefaults :: "ReconnectPolicy \<Rightarrow> ReconnectPolicy" where
  "withDefaults p =
     (let d = DefaultReconnectPolicy;
          p1 = (if rcpInitial p \<le> 0 then p\<lparr>rcpInitial := rcpInitial d\<rparr> else p);
          p2 = (if rcpMax p1 \<le> 0 then p1\<lparr>rcpMax := rcpMax d\<rparr> else p1);
          p3 = (if rcpMax p2 < rcpInitial p2 then p2\<lparr>rcpMax := rcpInitial p2\<rparr> else p2)
      in if rcpBudget p3 \<le> 0 then p3\<lparr>rcpBudget := rcpBudget d\<rparr> else p3)"

fun delayLoop :: "int \<Rightarrow> nat \<Rightarrow> int \<Rightarrow> int" where
  "delayLoop m 0 d = d"
| "delayLoop m (Suc k) d = (if d < m then delayLoop m k (wrap64 (d * 2)) else d)"

definition reconnectDelay :: "ReconnectPolicy \<Rightarrow> int \<Rightarrow> int" where
  "reconnectDelay p n =
     (let d = delayLoop (rcpMax p) (nat (n - 1)) (rcpInitial p)
      in if d > rcpMax p then rcpMax p else d)"

section \<open>Framing does not depend on the chunks\<close>

text \<open>The chunks of a stream one after the other, the tail carried along, and the seal at the end.\<close>

fun frameChunks :: "string \<Rightarrow> string list \<Rightarrow> streamError + (string list \<times> string)" where
  "frameChunks tail [] = Inr ([], tail)"
| "frameChunks tail (c # cs) =
     (case frameProvider tail c False of
        Inl e \<Rightarrow> Inl e
      | Inr (lines, tail') \<Rightarrow>
          (case frameChunks tail' cs of
             Inl e \<Rightarrow> Inl e
           | Inr (lines', tail'') \<Rightarrow> Inr (lines @ lines', tail'')))"

definition frameStream :: "string list \<Rightarrow> streamError + string list" where
  "frameStream cs =
     (case frameChunks [] cs of
        Inl e \<Rightarrow> Inl e
      | Inr (lines, tail) \<Rightarrow>
          (case frameProvider tail [] True of Inl e \<Rightarrow> Inl e | Inr (lines', _) \<Rightarrow> Inr (lines @ lines')))"

text \<open>\<open>bufio.ScanLines\<close> over the whole stream.\<close>

definition scanLines :: "string \<Rightarrow> string list" where
  "scanLines s =
     (let parts = splitOn lineFeed s
      in map trimSuffixCR (butlast parts) @ (if last parts = [] then [] else [trimSuffixCR (last parts)]))"

abbreviation fitsLine :: "string \<Rightarrow> bool" where
  "fitsLine p \<equiv> length p \<le> MaxProviderLine"

lemma splitOn_append:
  "splitOn d (a @ b) = butlast (splitOn d a) @ splitOn d (last (splitOn d a) @ b)"
proof (induction a)
  case (Cons c a)
  obtain w ws where w: "splitOn d a = w # ws" using splitOn_nonempty by (cases "splitOn d a") auto
  show ?case
  proof (cases "ws = []")
    case True
    then show ?thesis using Cons w by auto
  next
    case False
    then show ?thesis using Cons w by auto
  qed
qed simp

lemma frameLoop_split:
  "frameLoop buf lines =
     (if list_all fitsLine (butlast (splitOn lineFeed buf))
      then Inr (lines @ map trimSuffixCR (butlast (splitOn lineFeed buf)), last (splitOn lineFeed buf))
      else Inl FrameTooLarge)"
proof (induction buf lines rule: frameLoop.induct)
  case (1 buf lines)
  show ?case
  proof (cases "cutOn lineFeed buf")
    case None
    then have "splitOn lineFeed buf = [buf]" by (intro splitOn_plain) (simp add: cutOn_None)
    then show ?thesis using None by (subst frameLoop.simps) simp
  next
    case (Some lr)
    then obtain line rest where c: "cutOn lineFeed buf = Some (line, rest)" by (cases lr) auto
    then have s: "splitOn lineFeed buf = line # splitOn lineFeed rest"
      using cutOn_Some [OF c] splitOn_line by auto
    show ?thesis
    proof (cases "fitsLine line")
      case True
      then have "frameLoop buf lines = frameLoop rest (lines @ [trimSuffixCR line])"
        using c by (subst frameLoop.simps) simp
      then show ?thesis using 1 [OF c] True s splitOn_nonempty [of lineFeed rest] by simp
    next
      case False
      then show ?thesis using c s splitOn_nonempty [of lineFeed rest] by (subst frameLoop.simps) simp
    qed
  qed
qed

lemma list_all_parts:
  "list_all P (splitOn d s) \<longleftrightarrow> list_all P (butlast (splitOn d s)) \<and> P (last (splitOn d s))"
  using splitOn_nonempty [of d s] by (cases "splitOn d s" rule: rev_cases) auto

lemma frameProvider_split:
  "frameProvider tail c False =
     (let parts = splitOn lineFeed (tail @ c) in
      if list_all fitsLine parts then Inr (map trimSuffixCR (butlast parts), last parts)
      else Inl FrameTooLarge)"
  by (simp add: frameProvider_def frameLoop_split Let_def list_all_parts [of _ lineFeed "tail @ c"])

lemma long_tail_long_line:
  "d \<notin> set x \<Longrightarrow> list_all (\<lambda>p. length p \<le> n) (splitOn d (x @ y)) \<Longrightarrow> length x \<le> n"
proof -
  assume x: "d \<notin> set x" and all: "list_all (\<lambda>p. length p \<le> n) (splitOn d (x @ y))"
  obtain z where z: "hd (splitOn d (x @ y)) = hd (splitOn d x) @ z" using splitOn_suffixed by blast
  have "hd (splitOn d (x @ y)) \<in> set (splitOn d (x @ y))" using splitOn_nonempty by simp
  then show ?thesis using all z splitOn_plain [OF x] by (auto simp: list_all_iff)
qed

lemma frameChunks_split:
  "lineFeed \<notin> set tail \<Longrightarrow> fitsLine tail \<Longrightarrow>
   frameChunks tail cs =
     (let parts = splitOn lineFeed (tail @ concat cs) in
      if list_all fitsLine parts then Inr (map trimSuffixCR (butlast parts), last parts)
      else Inl FrameTooLarge)"
proof (induction cs arbitrary: tail)
  case Nil
  then show ?case by (simp add: splitOn_plain)
next
  case (Cons c cs)
  let ?p = "splitOn lineFeed (tail @ c)"
  let ?q = "splitOn lineFeed (last ?p @ concat cs)"
  have whole: "splitOn lineFeed (tail @ concat (c # cs)) = butlast ?p @ ?q"
    using splitOn_append [of lineFeed "tail @ c" "concat cs"] by simp
  have nl: "lineFeed \<notin> set (last ?p)" using splitOn_no_sep [OF last_in_set [OF splitOn_nonempty]] .
  have all: "list_all fitsLine (butlast ?p @ ?q) \<longleftrightarrow> list_all fitsLine ?p \<and> list_all fitsLine ?q"
    using long_tail_long_line [OF nl, of MaxProviderLine "concat cs"] list_all_parts [of fitsLine lineFeed "tail @ c"]
    by auto
  show ?case
  proof (cases "list_all fitsLine ?p")
    case False
    then show ?thesis using all whole by (simp add: frameProvider_split Let_def)
  next
    case True
    then have "fitsLine (last ?p)" by (simp add: list_all_parts)
    from Cons.IH [OF nl this] show ?thesis
      using True all whole splitOn_nonempty [of lineFeed "last ?p @ concat cs"]
      by (simp add: frameProvider_split Let_def butlast_append)
  qed
qed

text \<open>
  How the backend cuts the output of a run into chunks does not matter: framing the chunks
  one by one, with the unfinished line carried over, gives the lines a scanner gives on the whole
  output, and refuses the stream exactly when some line is over the limit.
\<close>

theorem framing_is_chunk_independent:
  "frameStream cs =
     (if list_all fitsLine (splitOn lineFeed (concat cs)) then Inr (scanLines (concat cs))
      else Inl FrameTooLarge)"
proof -
  let ?p = "splitOn lineFeed (concat cs)"
  have nl: "lineFeed \<notin> set (last ?p)" using splitOn_no_sep [OF last_in_set [OF splitOn_nonempty]] .
  have chunks: "frameChunks [] cs = (if list_all fitsLine ?p then Inr (map trimSuffixCR (butlast ?p), last ?p)
      else Inl FrameTooLarge)"
    using frameChunks_split [of "[]" cs] by (simp add: Let_def)
  show ?thesis
  proof (cases "list_all fitsLine ?p")
    case True
    then have "fitsLine (last ?p)" by (simp add: list_all_parts)
    then have "frameProvider (last ?p) [] True
        = Inr (if last ?p = [] then [] else [trimSuffixCR (last ?p)], [])"
      using splitOn_plain [OF nl] by (simp add: frameProvider_def frameLoop_split)
    then show ?thesis using True chunks by (simp add: frameStream_def scanLines_def Let_def)
  qed (use chunks in \<open>simp add: frameStream_def\<close>)
qed

section \<open>Delivery\<close>

text \<open>What a stream accepts over time: the calls on the sequencer, and the ranges and events accepted.\<close>

datatype seqOp = OpAdmit "Envelope list" | OpGap EventGap | OpCommit int

type_synonym accepted = "(EventGap + Envelope) list"

fun seqStep :: "(Envelope \<Rightarrow> 'd) \<Rightarrow> seqOp \<Rightarrow> 'd Sequencer \<times> accepted \<Rightarrow> 'd Sequencer \<times> accepted" where
  "seqStep digest (OpAdmit batch) (s, acc) =
     (case Admit digest batch s of Inl _ \<Rightarrow> (s, acc) | Inr (fresh, s') \<Rightarrow> (s', acc @ map Inr fresh))"
| "seqStep digest (OpGap g) (s, acc) =
     (case AcceptGap g s of Inl _ \<Rightarrow> (s, acc) | Inr s' \<Rightarrow> (s', acc @ [Inl g]))"
| "seqStep digest (OpCommit n) (s, acc) = (CommitSeq n s, acc)"

definition seqRun :: "(Envelope \<Rightarrow> 'd) \<Rightarrow> int \<Rightarrow> seqOp list \<Rightarrow> 'd Sequencer \<times> accepted" where
  "seqRun digest c ops = fold (seqStep digest) ops (NewSequencer c, [])"

text \<open>Where a sequence of accepted ranges and events ends when each begins right after the one before.\<close>

fun spans :: "int \<Rightarrow> accepted \<Rightarrow> int option" where
  "spans c [] = Some c"
| "spans c (Inl g # rest) = (if egFrom g = c + 1 \<and> gapValid g then spans (egTo g) rest else None)"
| "spans c (Inr e # rest) = (if enSeq e = c + 1 then spans (c + 1) rest else None)"

lemma spans_append: "spans c (a @ b) = (case spans c a of None \<Rightarrow> None | Some n \<Rightarrow> spans n b)"
  by (induction c a rule: spans.induct) auto

lemma spans_mono: "spans c acc = Some n \<Longrightarrow> c \<le> n"
  by (induction c acc rule: spans.induct) (auto simp: gapValid_def split: if_splits)

lemma spans_range: "spans c acc = Some n \<Longrightarrow> Inr e \<in> set acc \<Longrightarrow> c < enSeq e \<and> enSeq e \<le> n"
proof (induction c acc rule: spans.induct)
  case (2 c g rest)
  then show ?case by (auto simp: gapValid_def split: if_splits)
next
  case (3 c e' rest)
  then show ?case using spans_mono [of "c + 1" rest n] by (auto split: if_splits)
qed simp

definition streamInv :: "(Envelope \<Rightarrow> 'd) \<Rightarrow> int \<Rightarrow> 'd Sequencer \<times> accepted \<Rightarrow> bool" where
  "streamInv digest c sa \<longleftrightarrow> spans c (snd sa) = Some (sqAdmitted (fst sa))
     \<and> (\<forall>e. Inr e \<in> set (snd sa) \<longrightarrow> sqDigests (fst sa) (enSeq e) = Some (digest e))
     \<and> c \<le> sqCommitted (fst sa) \<and> sqCommitted (fst sa) \<le> sqAdmitted (fst sa)"

lemma admitLoop_spans:
  "admitLoop digest s admitted pending fresh batch = Inr (n, p, out) \<Longrightarrow>
   \<exists>new. out = fresh @ new \<and> spans admitted (map Inr new) = Some n
     \<and> p = pending ++ (\<lambda>k. map_option digest (firstSuch (\<lambda>e. enSeq e = k) new))"
proof (induction digest s admitted pending fresh batch rule: admitLoop.induct)
  case (1 digest s admitted pending fresh)
  then show ?case by (auto intro!: ext simp: map_add_def)
next
  case (2 digest s admitted pending fresh env envs)
  consider (replay) "enSeq env \<le> admitted" "admitLoop digest s admitted pending fresh envs = Inr (n, p, out)"
    | (fresh) "enSeq env = admitted + 1" "0 < enSeq env"
      "admitLoop digest s (enSeq env) (pending(enSeq env \<mapsto> digest env)) (fresh @ [env]) envs = Inr (n, p, out)"
    using 2(3) by (auto split: if_splits option.splits)
  then show ?case
  proof cases
    case replay
    then show ?thesis using 2(1,3) by (auto split: if_splits option.splits)
  next
    case fresh
    have pos: "\<not> enSeq env \<le> 0" "\<not> enSeq env \<le> admitted" using fresh by auto
    from 2(2) [OF pos fresh(1,3)] obtain new where new: "out = (fresh @ [env]) @ new"
        "spans (enSeq env) (map Inr new) = Some n"
        "p = pending(enSeq env \<mapsto> digest env) ++ (\<lambda>k. map_option digest (firstSuch (\<lambda>e. enSeq e = k) new))"
      by blast
    have "enSeq e \<noteq> enSeq env" if "e \<in> set new" for e
      using spans_range [OF new(2), of e] that by force
    then have none: "firstSuch (\<lambda>e. enSeq e = enSeq env) new = None" by (simp add: firstSuch_None_iff)
    have "p = pending ++ (\<lambda>k. map_option digest (firstSuch (\<lambda>e. enSeq e = k) (env # new)))"
      unfolding new(3) by (rule ext) (use none in \<open>auto simp: map_add_def split: option.splits\<close>)
    then show ?thesis using new fresh by (intro exI [of _ "env # new"]) simp
  qed
qed

lemma firstSuch_unique:
  "spans c (map Inr new) = Some n \<Longrightarrow> e \<in> set new \<Longrightarrow> firstSuch (\<lambda>x. enSeq x = enSeq e) new = Some e"
proof (induction new arbitrary: c)
  case (Cons x new)
  then have "spans (c + 1) (map Inr new) = Some n" "enSeq x = c + 1" by (auto split: if_splits)
  then show ?case using Cons spans_range [of "c + 1" "map Inr new" n e] by auto
qed simp

lemma Admit_inv:
  assumes inv: "streamInv digest c (s, acc)" and adm: "Admit digest batch s = Inr (fresh, s')"
  shows "streamInv digest c (s', acc @ map Inr fresh)"
proof -
  obtain n p where loop: "admitLoop digest s (sqAdmitted s) Map.empty [] batch = Inr (n, p, fresh)"
    and s': "s' = s\<lparr>sqDigests := sqDigests s ++ p, sqAdmitted := n\<rparr>"
    using adm by (auto simp: Admit_def split: sum.splits)
  have sp: "spans (sqAdmitted s) (map Inr fresh) = Some n"
    and p: "p = (\<lambda>k. map_option digest (firstSuch (\<lambda>e. enSeq e = k) fresh))"
    using admitLoop_spans [OF loop] by auto
  have old: "p (enSeq e) = None" if "Inr e \<in> set acc" for e
  proof -
    have "enSeq e \<le> sqAdmitted s" using spans_range [OF _ that, of c] inv by (auto simp: streamInv_def)
    then have "enSeq x \<noteq> enSeq e" if "x \<in> set fresh" for x
      using spans_range [OF sp, of x] that by force
    then show ?thesis by (simp add: p firstSuch_None_iff)
  qed
  have new: "p (enSeq e) = Some (digest e)" if "e \<in> set fresh" for e
    using firstSuch_unique [OF sp that] by (simp add: p)
  have "spans c (acc @ map Inr fresh) = Some n" using inv sp by (simp add: streamInv_def spans_append)
  moreover have "(sqDigests s ++ p) (enSeq e) = Some (digest e)" if "Inr e \<in> set (acc @ map Inr fresh)" for e
    using that inv old new by (auto simp: streamInv_def map_add_def split: option.splits)
  ultimately show ?thesis using inv spans_mono [OF sp] by (auto simp: streamInv_def s')
qed

lemma seqStep_inv: "streamInv digest c sa \<Longrightarrow> streamInv digest c (seqStep digest op sa)"
proof (induction digest op sa rule: seqStep.induct)
  case (1 digest batch s acc)
  then show ?case using Admit_inv by (cases "Admit digest batch s") auto
next
  case (2 digest g s acc)
  then show ?case
    by (auto simp: AcceptGap_def streamInv_def spans_append gapValid_def)
next
  case (3 digest n s acc)
  then show ?case by (auto simp: CommitSeq_def streamInv_def Let_def)
qed

lemma seqRun_inv: "streamInv digest c (seqRun digest c ops)"
proof -
  have "streamInv digest c (fold (seqStep digest) ops sa)" if "streamInv digest c sa" for sa
    using that
  proof (induction ops arbitrary: sa)
    case (Cons op ops)
    show ?case using Cons.IH [OF seqStep_inv [OF Cons.prems]] by simp
  qed simp
  then show ?thesis
    by (simp add: seqRun_def streamInv_def NewSequencer_def)
qed

lemma events_spans: "spans c (snd (seqRun digest c ops)) = Some (sqAdmitted (fst (seqRun digest c ops)))"
  using seqRun_inv [of digest c ops] by (simp add: streamInv_def)

text \<open>
  C20. Every event of a remote run is delivered once, in order and unchanged. After any batches,
  accepted retention ranges and commits from a cursor on, the events handed on and the ranges
  accepted follow each other without a gap or an overlap from the cursor to the
  last admitted sequence number, the committed one is between, and a later batch that
  begins with a delivered event in another content is refused.
\<close>

theorem events_delivered_once_in_order:
  "let (s, acc) = seqRun digest c ops in
   spans c acc = Some (sqAdmitted s) \<and> c \<le> sqCommitted s \<and> sqCommitted s \<le> sqAdmitted s
   \<and> (\<forall>e\<in>{e. Inr e \<in> set acc \<and> 0 < enSeq e}. \<forall>e'\<in>{e'. enSeq e' = enSeq e \<and> digest e' \<noteq> digest e}.
        Admit digest (e' # batch) s = Inl (SeqConflict (enSeq e)))"
proof -
  note inv = seqRun_inv [of digest c ops]
  obtain s acc where sa: "seqRun digest c ops = (s, acc)" by fastforce
  have "Admit digest (e' # batch) s = Inl (SeqConflict (enSeq e))"
    if "Inr e \<in> set acc" "0 < enSeq e" "enSeq e' = enSeq e" "digest e' \<noteq> digest e" for e e'
  proof -
    have "enSeq e \<le> sqAdmitted s" using inv sa spans_range [of c acc _ e] that by (auto simp: streamInv_def)
    moreover have "sqDigests s (enSeq e) = Some (digest e)" using inv sa that by (simp add: streamInv_def)
    ultimately show ?thesis using that by (auto simp: Admit_def)
  qed
  then show ?thesis using inv sa by (auto simp: streamInv_def)
qed

theorem events_delivered_once_in_order_witness:
  "let e = \<lparr>enSeq = 1, enStream = 2, enPayload = ''a'', enTruncated = False\<rparr>;
       e' = e\<lparr>enPayload := ''b''\<rparr>
   in Admit id [e'] (fst (seqRun id 0 [OpAdmit [e], OpCommit 1])) = Inl (SeqConflict 1)"
proof -
  let ?e = "\<lparr>enSeq = 1, enStream = 2, enPayload = ''a'', enTruncated = False\<rparr>"
  have run: "seqRun id 0 [OpAdmit [?e], OpCommit 1]
      = (\<lparr>sqAdmitted = 1, sqCommitted = 1, sqDigests = [1 \<mapsto> ?e], sqGaps = []\<rparr>, [Inr ?e])"
    by (simp add: seqRun_def NewSequencer_def Admit_def CommitSeq_def Let_def)
  show ?thesis
    using events_delivered_once_in_order [of id 0 "[OpAdmit [?e], OpCommit 1]" "[]"]
    by (simp add: run Let_def)
qed

section \<open>A restart resumes the stream\<close>

definition gapsOf :: "accepted \<Rightarrow> EventGap list" where
  "gapsOf acc = concat (map (\<lambda>x. case x of Inl g \<Rightarrow> [g] | Inr _ \<Rightarrow> []) acc)"

definition eventsOf :: "accepted \<Rightarrow> Envelope list" where
  "eventsOf acc = concat (map (\<lambda>x. case x of Inl _ \<Rightarrow> [] | Inr e \<Rightarrow> [e]) acc)"

lemma of_simps [simp]:
  "gapsOf [] = []" "gapsOf (Inl g # acc) = g # gapsOf acc" "gapsOf (Inr e # acc) = gapsOf acc"
  "eventsOf [] = []" "eventsOf (Inl g # acc) = eventsOf acc" "eventsOf (Inr e # acc) = e # eventsOf acc"
  by (simp_all add: gapsOf_def eventsOf_def)

lemma spans_gaps: "spans c acc = Some n \<Longrightarrow> g \<in> set (gapsOf acc) \<Longrightarrow> c < egFrom g \<and> gapValid g \<and> egTo g \<le> n"
proof (induction c acc rule: spans.induct)
  case (2 c g' rest)
  then show ?case using spans_mono [of "egTo g'" rest n] by (auto simp: gapValid_def split: if_splits)
qed (auto split: if_splits)

lemma gapsCheck_spans:
  "spans c acc = Some n \<Longrightarrow> 0 \<le> c \<Longrightarrow> (\<And>p. prev = Some p \<Longrightarrow> p \<le> c) \<Longrightarrow> gapsCheck n prev (gapsOf acc) = None"
proof (induction c acc arbitrary: prev rule: spans.induct)
  case (2 c g rest)
  then have g: "egFrom g = c + 1" "gapValid g" "spans (egTo g) rest = Some n" by (auto split: if_splits)
  have "gapsCheck n (Some (egTo g)) (gapsOf rest) = None"
    using 2 g by (auto simp: gapValid_def)
  then show ?case using g 2(4) spans_mono [OF g(3)] by (auto split: option.splits)
next
  case (3 c e rest)
  then have "spans (c + 1) rest = Some n" by (simp split: if_splits)
  moreover have "\<And>p. prev = Some p \<Longrightarrow> p \<le> c + 1" using 3(4) by fastforce
  ultimately show ?case using 3 by (simp split: if_splits)
qed simp

lemma skip_none: "\<forall>g\<in>set gs. c < egFrom g \<Longrightarrow> skipAccepted c gs = (c, gs)"
  by (cases gs) auto

definition digestMap :: "(Envelope \<Rightarrow> 'd) \<Rightarrow> Envelope list \<Rightarrow> (int \<rightharpoonup> 'd)" where
  "digestMap digest es = foldl (\<lambda>m e. m(enSeq e \<mapsto> digest e)) Map.empty es"

lemma restoreLoop_spans:
  "spans c acc = Some n \<Longrightarrow> 0 \<le> c \<Longrightarrow> skipAccepted (c + 1) (gapsOf acc) = (ex, gs) \<Longrightarrow>
   restoreLoop digest n ex gs D (eventsOf acc)
     = Inr (n + 1, [], foldl (\<lambda>m e. m(enSeq e \<mapsto> digest e)) D (eventsOf acc))"
proof (induction c acc arbitrary: ex gs D rule: spans.induct)
  case (2 c g rest)
  then show ?case by (auto simp: gapValid_def split: if_splits)
next
  case (3 c e rest)
  then have e: "enSeq e = c + 1" "spans (c + 1) rest = Some n" by (auto split: if_splits)
  have "\<forall>g\<in>set (gapsOf rest). c + 1 < egFrom g" using spans_gaps [OF e(2)] by blast
  then have ex: "ex = c + 1" "gs = gapsOf rest" using 3(4) skip_none by auto
  obtain ex' gs' where sk: "skipAccepted (c + 1 + 1) (gapsOf rest) = (ex', gs')" by fastforce
  show ?case
    using 3(1) [OF e(1) e(2) _ sk, of "D(enSeq e \<mapsto> digest e)"] e ex sk 3(3) spans_mono [OF e(2)]
    by (simp add: fun_upd_def)
qed simp

text \<open>
  C34. A restart resumes the stream where it stopped. When the durable consumer retained what a
  stream had accepted from its beginning, a new sequencer at the last admitted number restores
  from it without an error, continues at that number, and knows again the digest of every
  delivered event, so that a changed replay is still refused.
\<close>

theorem restart_resumes_stream:
  "let (s, acc) = seqRun digest 0 ops in
   \<exists>s'. Restore digest (eventsOf acc) (gapsOf acc) (NewSequencer (sqAdmitted s)) = Inr s'
     \<and> sqAdmitted s' = sqAdmitted s \<and> sqCommitted s' = sqAdmitted s \<and> sqGaps s' = gapsOf acc
     \<and> sqDigests s' = digestMap digest (eventsOf acc)"
proof -
  obtain s acc where sa: "seqRun digest 0 ops = (s, acc)" by fastforce
  have sp: "spans 0 acc = Some (sqAdmitted s)"
    using events_spans [of 0 digest ops] sa by simp
  obtain ex gs where sk: "skipAccepted (0 + 1) (gapsOf acc) = (ex, gs)" by fastforce
  show ?thesis
    using gapsCheck_spans [OF sp, of None] restoreLoop_spans [OF sp _ sk, of digest Map.empty] sk sa
    by (simp add: Restore_def NewSequencer_def Let_def digestMap_def)
qed

section \<open>The reconnect delay\<close>

lemma delayLoop_doubles:
  "0 < d \<Longrightarrow> d \<le> m \<Longrightarrow> m \<le> 2 ^ 62 \<Longrightarrow>
   (if delayLoop m k d > m then m else delayLoop m k d) = min m (d * 2 ^ k)"
proof (induction k arbitrary: d)
  case (Suc k)
  show ?case
  proof (cases "d < m")
    case False
    then have "d = m" using Suc.prems by simp
    moreover have "m * 1 \<le> m * 2 ^ Suc k"
      using Suc.prems one_le_power [of "2 :: int" "Suc k"] by (intro mult_left_mono) simp_all
    ultimately show ?thesis by simp
  next
    case True
    then have w: "wrap64 (d * 2) = d * 2" using Suc.prems by (simp add: wrap64_def)
    show ?thesis
    proof (cases "d * 2 \<le> m")
      case fits: True
      then show ?thesis using Suc.IH [of "d * 2"] Suc.prems True w by (simp add: mult.assoc split: if_splits)
    next
      case False
      then have "delayLoop m k (d * 2) = d * 2" by (cases k) auto
      moreover have "d * 2 * 1 \<le> d * 2 * 2 ^ k" using Suc.prems by (intro mult_left_mono) simp_all
      then have "m \<le> d * 2 ^ Suc k" using False by simp
      ultimately show ?thesis using True w False by simp
    qed
  qed
qed simp

text \<open>
  The wait before the \<open>n\<close>th reconnect doubles from the initial delay up to the maximum and stays
  there, for every policy after its defaults whose maximum is below a century.
\<close>

theorem reconnect_delay_doubles:
  assumes "rcpMax (withDefaults p) \<le> 2 ^ 62" and "1 \<le> n"
  shows "reconnectDelay (withDefaults p) n
     = min (rcpMax (withDefaults p)) (rcpInitial (withDefaults p) * 2 ^ nat (n - 1))"
proof -
  have "0 < rcpInitial (withDefaults p)" "rcpInitial (withDefaults p) \<le> rcpMax (withDefaults p)"
    by (auto simp: withDefaults_def Let_def DefaultReconnectPolicy_def nanosPerSecond_def)
  then show ?thesis using delayLoop_doubles assms(1) by (simp add: reconnectDelay_def Let_def)
qed

section \<open>Reconciling a recovered attempt\<close>

text \<open>A normalized event of the agent; its usage is a value of the type \<open>'u\<close>.\<close>

record 'u agentEvent =
  aeType :: string
  aeTime :: time
  aeSessionID :: string
  aeContinuation :: string
  aeText :: string
  aeUsage :: "'u option"
  aeReason :: string

definition EventSucceeded :: string where "EventSucceeded = ''succeeded''"
definition EventFailed :: string where "EventFailed = ''failed''"

definition isTerminal :: "'u agentEvent \<Rightarrow> bool" where
  "isTerminal ev \<longleftrightarrow> aeType ev = EventSucceeded \<or> aeType ev = EventFailed"

definition terminalType :: "'u agentEvent list \<Rightarrow> string" where
  "terminalType events = (case firstSuch isTerminal events of None \<Rightarrow> [] | Some ev \<Rightarrow> aeType ev)"

record 'u Consumption =
  cnID :: string
  cnCheckpoint :: Checkpoint
  cnEnvelope :: "Envelope option"
  cnEvents :: "'u agentEvent list"
  cnGap :: "EventGap option"

text \<open>The checks of one recorded range, given the checkpoint and the outcome before it.\<close>

definition gapRecordError ::
  "Checkpoint \<Rightarrow> string \<Rightarrow> 'u Consumption \<Rightarrow> EventGap \<Rightarrow> streamError option" where
  "gapRecordError latest previousTerminal item gap =
     (let cp = cnCheckpoint item; events = cnEvents item in
      if \<not> gapValid gap \<or> egFrom gap \<noteq> cpCursor latest + 1 \<or> egTo gap \<noteq> cpCursor cp then Some GapSpan
      else if cnEnvelope item \<noteq> None then Some GapWithEnvelope
      else if cpTail cp \<noteq> [] then Some GapWithTail
      else if previousTerminal = EventSucceeded then Some GapAfterSuccess
      else if previousTerminal = [] \<and>
        (length events \<noteq> 1 \<or> aeType (hd events) \<noteq> EventFailed \<or> aeReason (hd events) \<noteq> FailureCrashed
         \<or> \<not> cpTerminal cp) then Some GapWithoutFailure
      else if previousTerminal = EventFailed \<and> events \<noteq> [] then Some GapAddsOutcome
      else None)"

text \<open>The body of the loop: the checks of one item, and the outcome after it.\<close>

definition itemError ::
  "bool \<Rightarrow> Checkpoint \<Rightarrow> string \<Rightarrow> 'u Consumption \<Rightarrow> streamError option" where
  "itemError first latest terminalEvent item =
     (let cp = cnCheckpoint item; itemTerminal = terminalType (cnEvents item) in
      if \<not> first \<and> cpCursor cp < cpCursor latest then Some CursorMovedBack
      else if cpTerminal latest \<and> \<not> cpTerminal cp then Some TerminalCleared
      else if itemTerminal \<noteq> [] \<and> (terminalEvent \<noteq> [] \<or> \<not> cpTerminal cp) then Some TerminalInconsistent
      else if itemTerminal = [] \<and> terminalEvent \<noteq> [] \<and> cnEvents item \<noteq> [] then Some EventsAfterTerminal
      else case (case cnGap item of None \<Rightarrow> None | Some g \<Rightarrow> gapRecordError latest terminalEvent item g) of
        Some e \<Rightarrow> Some e
      | None \<Rightarrow>
          (case cnEnvelope item of
             None \<Rightarrow> None
           | Some env \<Rightarrow>
               if enSeq env \<le> 0 \<or> enSeq env > cpCursor cp then Some (EnvelopeUncovered (enSeq env)) else None))"

fun reconcileLoop ::
  "bool \<Rightarrow> Checkpoint \<Rightarrow> Envelope list \<Rightarrow> EventGap list \<Rightarrow> string \<Rightarrow> 'u Consumption list
   \<Rightarrow> streamError + (Checkpoint \<times> Envelope list \<times> EventGap list \<times> string)" where
  "reconcileLoop first latest history gaps terminalEvent [] = Inr (latest, history, gaps, terminalEvent)"
| "reconcileLoop first latest history gaps terminalEvent (item # items) =
     (case itemError first latest terminalEvent item of
        Some e \<Rightarrow> Inl e
      | None \<Rightarrow>
          (let itemTerminal = terminalType (cnEvents item) in
           reconcileLoop False (cnCheckpoint item)
             (history @ (case cnEnvelope item of None \<Rightarrow> [] | Some env \<Rightarrow> [env]))
             (gaps @ (case cnGap item of None \<Rightarrow> [] | Some g \<Rightarrow> [g]))
             (if itemTerminal \<noteq> [] then itemTerminal else terminalEvent) items))"

definition zeroCheckpoint :: Checkpoint where
  "zeroCheckpoint = \<lparr>cpCursor = 0, cpTail = [], cpTerminal = False\<rparr>"

definition reconcileRecovery ::
  "Checkpoint \<Rightarrow> 'u Consumption list \<Rightarrow> streamError + (Checkpoint \<times> Envelope list \<times> EventGap list)" where
  "reconcileRecovery loc items =
     (if items = [] then
        (if cpCursor loc \<noteq> 0 \<or> cpTail loc \<noteq> [] \<or> cpTerminal loc then Inl NoHistory
         else Inr (loc, [], []))
      else case reconcileLoop True zeroCheckpoint [] [] [] items of
        Inl e \<Rightarrow> Inl e
      | Inr (latest, history, gaps, terminalEvent) \<Rightarrow>
          if cpCursor loc > cpCursor latest then Inl CursorLeads
          else if cpTerminal loc \<and> \<not> cpTerminal latest then Inl TerminalLeads
          else if cpTerminal latest \<and> terminalEvent = [] then Inl TerminalWithoutEvent
          else Inr (latest, history, gaps))"

lemma itemError_None:
  assumes "itemError first latest term item = None"
  shows "cpTerminal latest \<longrightarrow> cpTerminal (cnCheckpoint item)"
    and "terminalType (cnEvents item) \<noteq> [] \<longrightarrow> term = [] \<and> cpTerminal (cnCheckpoint item)"
  using assms by (auto simp: itemError_def Let_def split: if_splits)

text \<open>The loop keeps count: one item carries the outcome once there is one, and none before.\<close>

abbreviation outcomes :: "'u Consumption list \<Rightarrow> 'u Consumption list" where
  "outcomes items \<equiv> filter (\<lambda>i. terminalType (cnEvents i) \<noteq> []) items"

lemma reconcileLoop_outcomes:
  "reconcileLoop first latest history gaps term items = Inr (latest', history', gaps', term') \<Longrightarrow>
   term \<noteq> [] \<longrightarrow> cpTerminal latest \<Longrightarrow>
   (if term = [] then 0 else 1) + length (outcomes items) = (if term' = [] then 0 else 1)
   \<and> (term' \<noteq> [] \<longrightarrow> cpTerminal latest')"
proof (induction first latest history gaps "term" items rule: reconcileLoop.induct)
  case (2 first latest history gaps "term" item items)
  have none: "itemError first latest term item = None" using 2(2) by (auto split: option.splits)
  note facts = itemError_None [OF none]
  let ?t = "terminalType (cnEvents item)"
  have "(if (if ?t \<noteq> [] then ?t else term) = [] then 0 else 1) + length (outcomes items)
      = (if term' = [] then 0 else 1) \<and> (term' \<noteq> [] \<longrightarrow> cpTerminal latest')"
    using 2(1) [OF none refl] 2(2,3) none facts by (auto simp: Let_def)
  then show ?case using facts by (auto split: if_splits)
qed (auto split: if_splits)

lemma reconcileLoop_history:
  "reconcileLoop first latest history gaps term items = Inr (latest', history', gaps', term') \<Longrightarrow>
   history' = history @ concat (map (\<lambda>i. case cnEnvelope i of None \<Rightarrow> [] | Some e \<Rightarrow> [e]) items)
   \<and> gaps' = gaps @ concat (map (\<lambda>i. case cnGap i of None \<Rightarrow> [] | Some g \<Rightarrow> [g]) items)"
  by (induction first latest history gaps "term" items rule: reconcileLoop.induct)
    (auto simp: Let_def split: option.splits)

text \<open>
  A recovered attempt has one outcome. When the reconciliation of the local checkpoint with the
  durable consumer succeeds, the position it resumes at is not behind the local one, a
  terminal mark is never lost, exactly one of the accepted records carries a
  terminal event if the position is terminal and none if it is not, and the history it hands to the
  sequencer is all envelopes and ranges of the records in their order.
\<close>

theorem recovered_attempt_has_one_outcome:
  assumes "reconcileRecovery loc items = Inr (cp, history, gaps)"
  shows "cpCursor loc \<le> cpCursor cp \<and> (cpTerminal loc \<longrightarrow> cpTerminal cp)
    \<and> length (outcomes items) = (if cpTerminal cp then 1 else 0)
    \<and> history = concat (map (\<lambda>i. case cnEnvelope i of None \<Rightarrow> [] | Some e \<Rightarrow> [e]) items)
    \<and> gaps = concat (map (\<lambda>i. case cnGap i of None \<Rightarrow> [] | Some g \<Rightarrow> [g]) items)"
proof (cases "items = []")
  case True
  then show ?thesis using assms by (auto simp: reconcileRecovery_def split: if_splits)
next
  case False
  then obtain t where l: "reconcileLoop True zeroCheckpoint [] [] [] items = Inr (cp, history, gaps, t)"
    and c: "cpCursor loc \<le> cpCursor cp" "cpTerminal loc \<longrightarrow> cpTerminal cp" "cpTerminal cp \<longrightarrow> t \<noteq> []"
    using assms by (auto simp: reconcileRecovery_def split: if_splits sum.splits)
  show ?thesis
    using reconcileLoop_outcomes [OF l] reconcileLoop_history [OF l] c by (auto split: if_splits)
qed

theorem recovered_attempt_has_one_outcome_witness:
  "let item = \<lparr>cnID = ''1'', cnCheckpoint = \<lparr>cpCursor = 1, cpTail = [], cpTerminal = True\<rparr>,
               cnEnvelope = Some \<lparr>enSeq = 1, enStream = 2, enPayload = ''{}'', enTruncated = False\<rparr>,
               cnEvents = [\<lparr>aeType = EventSucceeded, aeTime = 0, aeSessionID = [], aeContinuation = [],
                 aeText = [], aeUsage = (None :: int option), aeReason = []\<rparr>], cnGap = None\<rparr>
   in \<exists>cp history gaps. reconcileRecovery zeroCheckpoint [item] = Inr (cp, history, gaps)
        \<and> cpTerminal cp \<and> length (outcomes [item]) = 1"
proof -
  define item where "item = \<lparr>cnID = ''1'', cnCheckpoint = \<lparr>cpCursor = 1, cpTail = [], cpTerminal = True\<rparr>,
      cnEnvelope = Some \<lparr>enSeq = 1, enStream = 2, enPayload = ''{}'', enTruncated = False\<rparr>,
      cnEvents = [\<lparr>aeType = EventSucceeded, aeTime = 0, aeSessionID = [], aeContinuation = [],
        aeText = [], aeUsage = (None :: int option), aeReason = []\<rparr>], cnGap = None\<rparr>"
  have r: "reconcileRecovery zeroCheckpoint [item] = Inr (cnCheckpoint item,
      [\<lparr>enSeq = 1, enStream = 2, enPayload = ''{}'', enTruncated = False\<rparr>], [])"
    by (simp add: reconcileRecovery_def itemError_def Let_def zeroCheckpoint_def item_def terminalType_def
        isTerminal_def EventSucceeded_def)
  from recovered_attempt_has_one_outcome [OF r] r show ?thesis
    unfolding Let_def item_def [symmetric] by (auto simp: item_def)
qed

end
