(* ===== verification/TrackerBudget.thy ===== *)
theory TrackerBudget
  imports RcGate
begin

text \<open>
  \<open>internal/tracker/github/budget.go\<close>: the request budget of the tracker adapter. A request
  reserves its capacity before it reaches the network, in a burst window and in four
  allowances that refill with time: the primary request allowance, GitHub's secondary points,
  and its two limits on content-generating requests. The mutex makes every method one atomic
  step, so a method is a function of the budget and of the clock reading it takes.

  A reservation is an object that its holder and the lease of a claim share, so the model
  keeps the reservations ever made in a list and names one by its position. \<open>sync.Once\<close> is
  the function that ran under it, if one did. The wake channel only shortens a wait and is left
  out. Every amount is an \<open>int64\<close> in the code; the lemma \<open>refill_in_range\<close> shows that
  no value computed from a budget that satisfies the invariant leaves that range, so the
  model computes with integers. The window generation and the report epoch are \<open>uint64\<close> counters
  that grow by one per window and are only compared; they are natural numbers here.
\<close>

section \<open>Constants\<close>

definition minuteNanos :: duration where "minuteNanos = 60 * nanosPerSecond"
definition hourNanos :: duration where "hourNanos = 3600 * nanosPerSecond"

definition billedPerTick :: int where "billedPerTick = 40"
definition ordinaryPerTick :: int where "ordinaryPerTick = billedPerTick - 1"
definition defaultBudgetWindow :: duration where "defaultBudgetWindow = 30 * nanosPerSecond"
definition requestCreditUnit :: int where "requestCreditUnit = defaultBudgetWindow"

definition secondaryPointsPerMinute :: int where "secondaryPointsPerMinute = 900"
definition secondaryBurstPoints :: int where "secondaryBurstPoints = 100"
definition secondaryRefillPoints :: int where
  "secondaryRefillPoints = secondaryPointsPerMinute - secondaryBurstPoints"
definition secondaryCreditUnit :: int where "secondaryCreditUnit = minuteNanos"
definition secondaryReadPoints :: int where "secondaryReadPoints = 1"
definition secondaryWritePoints :: int where "secondaryWritePoints = 5"
definition claimSecondaryReservePoints :: int where
  "claimSecondaryReservePoints = 2 * secondaryWritePoints + secondaryReadPoints"

definition contentRequestsPerMinute :: int where "contentRequestsPerMinute = 80"
definition contentRequestsPerHour :: int where "contentRequestsPerHour = 500"
definition contentMinuteBurstRequests :: int where "contentMinuteBurstRequests = 20"
definition contentHourBurstRequests :: int where "contentHourBurstRequests = 80"
definition contentMinuteRefillRequests :: int where
  "contentMinuteRefillRequests = contentRequestsPerMinute - contentMinuteBurstRequests"
definition contentHourRefillRequests :: int where
  "contentHourRefillRequests = contentRequestsPerHour - contentHourBurstRequests"
definition contentMinuteCreditUnit :: int where "contentMinuteCreditUnit = minuteNanos"
definition contentHourCreditUnit :: int where "contentHourCreditUnit = hourNanos"
definition claimContentReserveRequests :: int where "claimContentReserveRequests = 2"

lemmas budget_constants =
  minuteNanos_def hourNanos_def billedPerTick_def ordinaryPerTick_def defaultBudgetWindow_def
  requestCreditUnit_def secondaryPointsPerMinute_def secondaryBurstPoints_def
  secondaryRefillPoints_def secondaryCreditUnit_def secondaryReadPoints_def
  secondaryWritePoints_def claimSecondaryReservePoints_def contentRequestsPerMinute_def
  contentRequestsPerHour_def contentMinuteBurstRequests_def contentHourBurstRequests_def
  contentMinuteRefillRequests_def contentHourRefillRequests_def contentMinuteCreditUnit_def
  contentHourCreditUnit_def claimContentReserveRequests_def nanosPerSecond_def

record requestCost =
  rcPoints :: int
  rcContent :: int

definition readRequestCost :: requestCost where
  "readRequestCost = \<lparr>rcPoints = secondaryReadPoints, rcContent = 0\<rparr>"
definition writeRequestCost :: requestCost where
  "writeRequestCost = \<lparr>rcPoints = secondaryWritePoints, rcContent = 1\<rparr>"

text \<open>The stages of a claim, in order; \<open>stageIndex\<close> is their Go value.\<close>

datatype claimStage = claimStageAssign | claimStageVerify | claimStageRelease

fun stageIndex :: "claimStage \<Rightarrow> nat" where
  "stageIndex claimStageAssign = 0"
| "stageIndex claimStageVerify = 1"
| "stageIndex claimStageRelease = 2"

definition claimLeaseCosts :: "requestCost list" where
  "claimLeaseCosts = [writeRequestCost, readRequestCost, writeRequestCost]"

section \<open>State\<close>

record RequestReport =
  rqBilled :: int
  rqUnbilled :: int
  rqRefused :: int
  rqDeferred :: int
  rqPending :: int
  rqLateBilled :: int
  rqLateUnbilled :: int

definition zeroReport :: RequestReport where
  "zeroReport = \<lparr>rqBilled = 0, rqUnbilled = 0, rqRefused = 0, rqDeferred = 0, rqPending = 0,
                 rqLateBilled = 0, rqLateUnbilled = 0\<rparr>"

record requestBudget =
  bLimit :: int
  bOrdinaryLimit :: int
  bCeiling :: duration
  bOpened :: time
  bGeneration :: nat
  bUsed :: int
  bUnattempted :: int
  bCredits :: int
  bHeldCredits :: int
  bLastRefill :: time
  bBorrowed :: bool
  bSecondaryCredits :: int
  bSecondaryHeldCredits :: int
  bSecondaryLastRefill :: time
  bContentMinuteCredits :: int
  bContentMinuteHeldCredits :: int
  bContentMinuteLastRefill :: time
  bContentHourCredits :: int
  bContentHourHeldCredits :: int
  bContentHourLastRefill :: time
  bReportEpoch :: nat
  bPendingCount :: int
  bReport :: RequestReport

definition newRequestBudget :: "time \<Rightarrow> requestBudget" where
  "newRequestBudget started =
     \<lparr>bLimit = billedPerTick, bOrdinaryLimit = ordinaryPerTick, bCeiling = defaultBudgetWindow,
      bOpened = started, bGeneration = 0, bUsed = 0, bUnattempted = 0,
      bCredits = billedPerTick * requestCreditUnit, bHeldCredits = 0, bLastRefill = started,
      bBorrowed = False,
      bSecondaryCredits = secondaryBurstPoints * secondaryCreditUnit,
      bSecondaryHeldCredits = 0, bSecondaryLastRefill = started,
      bContentMinuteCredits = contentMinuteBurstRequests * contentMinuteCreditUnit,
      bContentMinuteHeldCredits = 0, bContentMinuteLastRefill = started,
      bContentHourCredits = contentHourBurstRequests * contentHourCreditUnit,
      bContentHourHeldCredits = 0, bContentHourLastRefill = started,
      bReportEpoch = 0, bPendingCount = 0, bReport = zeroReport\<rparr>"

text \<open>What ran under the \<open>sync.Once\<close> of a reservation: nothing, \<open>settle\<close>, or \<open>releaseUnused\<close>.\<close>

datatype onceRan = NotRun | RanSettle bool | RanRelease

record requestReservation =
  rvGeneration :: nat
  rvBorrowed :: bool
  rvCost :: requestCost
  rvReportEpoch :: nat
  rvAttempted :: bool
  rvWaited :: bool
  rvOnce :: onceRan

definition newReservation :: "requestBudget \<Rightarrow> bool \<Rightarrow> requestCost \<Rightarrow> requestReservation" where
  "newReservation b borrowed cost =
     \<lparr>rvGeneration = bGeneration b, rvBorrowed = borrowed, rvCost = cost, rvReportEpoch = 0,
      rvAttempted = False, rvWaited = False, rvOnce = NotRun\<rparr>"

section \<open>Refill and windows\<close>

text \<open>Go's integer division, for a positive divisor.\<close>

definition goDiv :: "int \<Rightarrow> int \<Rightarrow> int" where
  "goDiv a b = (if a < 0 then - ((- a) div b) else a div b)"

definition refillAllowance :: "time \<Rightarrow> time \<Rightarrow> int \<Rightarrow> int \<Rightarrow> int \<Rightarrow> time \<times> int" where
  "refillAllowance now since credits capacity rate =
     (if since = zeroTime then (now, credits)
      else
        let elapsed = timeSub now since
        in if elapsed \<le> 0 then (since, credits)
           else
             let missing = capacity - credits
             in if missing \<le> 0 then (now, capacity)
                else if elapsed \<ge> goDiv (missing + rate - 1) rate then (now, capacity)
                else (now, credits + elapsed * rate))"

definition refillLocked :: "time \<Rightarrow> requestBudget \<Rightarrow> requestBudget" where
  "refillLocked now b =
     (let (l1, c1) = refillAllowance now (bLastRefill b) (bCredits b)
            (bLimit b * requestCreditUnit - bHeldCredits b) billedPerTick;
          (l2, c2) = refillAllowance now (bSecondaryLastRefill b) (bSecondaryCredits b)
            (secondaryBurstPoints * secondaryCreditUnit - bSecondaryHeldCredits b) secondaryRefillPoints;
          (l3, c3) = refillAllowance now (bContentMinuteLastRefill b) (bContentMinuteCredits b)
            (contentMinuteBurstRequests * contentMinuteCreditUnit - bContentMinuteHeldCredits b)
            contentMinuteRefillRequests;
          (l4, c4) = refillAllowance now (bContentHourLastRefill b) (bContentHourCredits b)
            (contentHourBurstRequests * contentHourCreditUnit - bContentHourHeldCredits b)
            contentHourRefillRequests
      in b\<lparr>bLastRefill := l1, bCredits := c1, bSecondaryLastRefill := l2, bSecondaryCredits := c2,
           bContentMinuteLastRefill := l3, bContentMinuteCredits := c3,
           bContentHourLastRefill := l4, bContentHourCredits := c4\<rparr>)"

definition openLocked :: "time \<Rightarrow> requestBudget \<Rightarrow> requestBudget" where
  "openLocked now b =
     b\<lparr>bOpened := now, bGeneration := bGeneration b + 1, bUsed := bUnattempted b\<rparr>"

definition rollIfStaleLocked :: "time \<Rightarrow> requestBudget \<Rightarrow> requestBudget" where
  "rollIfStaleLocked now b =
     (if bOpened b = zeroTime \<or> timeSub now (bOpened b) \<ge> bCeiling b then openLocked now b else b)"

definition beginTick :: "time \<Rightarrow> duration \<Rightarrow> requestBudget \<Rightarrow> RequestReport \<times> requestBudget" where
  "beginTick now interval b =
     (let b1 = refillLocked now b;
          spent = (bReport b1)\<lparr>rqPending := bPendingCount b1\<rparr>;
          b2 = b1\<lparr>bReport := zeroReport, bPendingCount := 0, bReportEpoch := bReportEpoch b1 + 1,
                  bCeiling := (if interval \<le> 0 then defaultBudgetWindow else interval)\<rparr>
      in (spent, openLocked now b2))"

section \<open>Admission\<close>

definition secondaryReserve :: "bool \<Rightarrow> int" where
  "secondaryReserve preserveClaim = (if preserveClaim then claimSecondaryReservePoints else 0)"

definition contentReserve :: "requestCost \<Rightarrow> bool \<Rightarrow> int" where
  "contentReserve cost preserveClaim =
     (if preserveClaim \<and> rcContent cost > 0 then claimContentReserveRequests else 0)"

definition windowLimit :: "bool \<Rightarrow> requestBudget \<Rightarrow> int" where
  "windowLimit conditional b = (if conditional then bLimit b else bOrdinaryLimit b)"

definition secondaryNeeded :: "requestCost \<Rightarrow> bool \<Rightarrow> int" where
  "secondaryNeeded cost preserveClaim =
     (rcPoints cost + secondaryReserve preserveClaim) * secondaryCreditUnit"
definition contentMinuteNeeded :: "requestCost \<Rightarrow> bool \<Rightarrow> int" where
  "contentMinuteNeeded cost preserveClaim =
     (rcContent cost + contentReserve cost preserveClaim) * contentMinuteCreditUnit"
definition contentHourNeeded :: "requestCost \<Rightarrow> bool \<Rightarrow> int" where
  "contentHourNeeded cost preserveClaim =
     (rcContent cost + contentReserve cost preserveClaim) * contentHourCreditUnit"

text \<open>The debits a reservation of these costs makes in every allowance.\<close>

definition debit :: "int \<Rightarrow> int \<Rightarrow> int \<Rightarrow> requestBudget \<Rightarrow> requestBudget" where
  "debit n points content b =
     b\<lparr>bUsed := bUsed b + n,
       bCredits := bCredits b - n * requestCreditUnit,
       bSecondaryCredits := bSecondaryCredits b - points * secondaryCreditUnit,
       bContentMinuteCredits := bContentMinuteCredits b - content * contentMinuteCreditUnit,
       bContentHourCredits := bContentHourCredits b - content * contentHourCreditUnit,
       bUnattempted := bUnattempted b + n,
       bHeldCredits := bHeldCredits b + n * requestCreditUnit,
       bSecondaryHeldCredits := bSecondaryHeldCredits b + points * secondaryCreditUnit,
       bContentMinuteHeldCredits := bContentMinuteHeldCredits b + content * contentMinuteCreditUnit,
       bContentHourHeldCredits := bContentHourHeldCredits b + content * contentHourCreditUnit\<rparr>"

definition reserveOneWithCostLocked ::
  "bool \<Rightarrow> requestCost \<Rightarrow> bool \<Rightarrow> requestBudget \<Rightarrow> (requestReservation \<times> requestBudget) option" where
  "reserveOneWithCostLocked conditional cost preserveClaim b =
     (if rcPoints cost \<le> 0 \<or> rcContent cost < 0 \<or> bUsed b \<ge> windowLimit conditional b
         \<or> bSecondaryCredits b < secondaryNeeded cost preserveClaim
         \<or> bContentMinuteCredits b < contentMinuteNeeded cost preserveClaim
         \<or> bContentHourCredits b < contentHourNeeded cost preserveClaim then None
      else if bCredits b \<ge> requestCreditUnit then
        Some (newReservation b False cost, debit 1 (rcPoints cost) (rcContent cost) b)
      else if conditional \<and> bCredits b \<ge> 0 \<and> \<not> bBorrowed b then
        Some (newReservation b True cost,
              debit 1 (rcPoints cost) (rcContent cost) (b\<lparr>bBorrowed := True\<rparr>))
      else None)"

definition reserveOneLocked :: "bool \<Rightarrow> requestBudget \<Rightarrow> (requestReservation \<times> requestBudget) option" where
  "reserveOneLocked conditional = reserveOneWithCostLocked conditional readRequestCost True"

text \<open>The wait one allowance asks for: until it has refilled to \<open>needed\<close> at its rate.\<close>

definition creditDelay :: "int \<Rightarrow> int \<Rightarrow> int \<Rightarrow> duration \<Rightarrow> duration" where
  "creditDelay needed credits rate delay =
     (if credits < needed then max delay (goDiv (needed - credits + rate - 1) rate) else delay)"

definition nextAdmissionLocked ::
  "time \<Rightarrow> bool \<Rightarrow> requestCost \<Rightarrow> bool \<Rightarrow> requestBudget \<Rightarrow> duration" where
  "nextAdmissionLocked now conditional cost preserveClaim b =
     (let d0 = (if bUsed b \<ge> windowLimit conditional b then timeSub (bOpened b + bCeiling b) now else 0);
          needed = (if conditional \<and> \<not> bBorrowed b then 0 else requestCreditUnit);
          d1 = creditDelay needed (bCredits b) billedPerTick d0;
          d2 = creditDelay (secondaryNeeded cost preserveClaim) (bSecondaryCredits b) secondaryRefillPoints d1;
          d3 = creditDelay (contentMinuteNeeded cost preserveClaim) (bContentMinuteCredits b)
                 contentMinuteRefillRequests d2;
          d4 = creditDelay (contentHourNeeded cost preserveClaim) (bContentHourCredits b)
                 contentHourRefillRequests d3
      in if d4 \<le> 0 then nanosPerSecond div 1000 else d4)"

datatype budgetError =
    SecondaryShort int int int
  | ContentMinuteShort int int int
  | ContentHourShort int int int
  | WindowSpent int int bool
  | ClaimCostNotPositive
  | ClaimDoesNotFit int int int int int
  | NoStage int
  | StageTaken int

definition shortBy :: "int \<Rightarrow> int \<Rightarrow> int \<Rightarrow> int" where
  "shortBy credits creditUnit reserve = max 0 (goDiv credits creditUnit - reserve)"

definition refusal :: "bool \<Rightarrow> requestCost \<Rightarrow> bool \<Rightarrow> requestBudget \<Rightarrow> budgetError" where
  "refusal conditional cost preserveClaim b =
     (if bSecondaryCredits b < secondaryNeeded cost preserveClaim then
        SecondaryShort (shortBy (bSecondaryCredits b) secondaryCreditUnit (secondaryReserve preserveClaim))
          (secondaryReserve preserveClaim) (rcPoints cost)
      else if bContentMinuteCredits b < contentMinuteNeeded cost preserveClaim then
        ContentMinuteShort (shortBy (bContentMinuteCredits b) contentMinuteCreditUnit (contentReserve cost preserveClaim))
          (contentReserve cost preserveClaim) (rcContent cost)
      else if bContentHourCredits b < contentHourNeeded cost preserveClaim then
        ContentHourShort (shortBy (bContentHourCredits b) contentHourCreditUnit (contentReserve cost preserveClaim))
          (contentReserve cost preserveClaim) (rcContent cost)
      else WindowSpent (bUsed b) (windowLimit conditional b) conditional)"

text \<open>
  One turn of the loop of \<open>acquireCost\<close>: a reservation, a refusal, or the time to wait. The
  flag \<open>refusable\<close> is the context value of a conditional request that may be refused, and
  \<open>deferred\<close> says whether the call has waited before.
\<close>

datatype admission = Admitted requestReservation | Refused budgetError | MustWait duration

definition acquireCostTurn ::
  "time \<Rightarrow> bool \<Rightarrow> bool \<Rightarrow> bool \<Rightarrow> requestCost \<Rightarrow> bool \<Rightarrow> bool \<Rightarrow> requestBudget \<Rightarrow> admission \<times> requestBudget" where
  "acquireCostTurn now conditional refusable wait cost preserveClaim deferred b0 =
     (let b = refillLocked now (rollIfStaleLocked now b0)
      in case reserveOneWithCostLocked conditional cost preserveClaim b of
           Some (r, b') \<Rightarrow> (Admitted (r\<lparr>rvWaited := deferred\<rparr>), b')
         | None \<Rightarrow>
             if (\<not> conditional \<or> refusable) \<and> \<not> wait then
               (Refused (refusal conditional cost preserveClaim b),
                b\<lparr>bReport := (bReport b)\<lparr>rqRefused := rqRefused (bReport b) + 1\<rparr>\<rparr>)
             else
               let b' = (if deferred then b
                         else b\<lparr>bReport := (bReport b)\<lparr>rqDeferred := rqDeferred (bReport b) + 1\<rparr>\<rparr>)
               in (MustWait (nextAdmissionLocked now conditional cost preserveClaim b), b'))"

fun costSums :: "requestCost list \<Rightarrow> int \<Rightarrow> int \<Rightarrow> (int \<times> int) option" where
  "costSums [] points content = Some (points, content)"
| "costSums (c # cs) points content =
     (if rcPoints c \<le> 0 \<or> rcContent c < 0 then None
      else costSums cs (points + rcPoints c) (content + rcContent c))"

definition refuse :: "requestBudget \<Rightarrow> requestBudget" where
  "refuse b = b\<lparr>bReport := (bReport b)\<lparr>rqRefused := rqRefused (bReport b) + 1\<rparr>\<rparr>"

definition reserveLease ::
  "time \<Rightarrow> requestCost list \<Rightarrow> requestBudget \<Rightarrow> (budgetError + requestReservation list) \<times> requestBudget" where
  "reserveLease now costs b0 =
     (let b = refillLocked now (rollIfStaleLocked now b0); n = int (length costs)
      in case costSums costs 0 0 of
           None \<Rightarrow> (Inl ClaimCostNotPositive, refuse b)
         | Some (points, content) \<Rightarrow>
             if n = 0 \<or> bUsed b + n > bOrdinaryLimit b \<or> bCredits b < n * requestCreditUnit
                \<or> bSecondaryCredits b < points * secondaryCreditUnit
                \<or> bContentMinuteCredits b < content * contentMinuteCreditUnit
                \<or> bContentHourCredits b < content * contentHourCreditUnit then
               (Inl (ClaimDoesNotFit n points content (bUsed b) (bOrdinaryLimit b)), refuse b)
             else (Inr (map (newReservation b False) costs), debit n points content b))"

section \<open>A reservation's end\<close>

text \<open>The holds a reservation gives up when it is attempted or returned.\<close>

definition dropHold :: "requestCost \<Rightarrow> requestBudget \<Rightarrow> requestBudget" where
  "dropHold cost b =
     b\<lparr>bHeldCredits := bHeldCredits b - requestCreditUnit,
       bSecondaryHeldCredits := bSecondaryHeldCredits b - rcPoints cost * secondaryCreditUnit,
       bContentMinuteHeldCredits := bContentMinuteHeldCredits b - rcContent cost * contentMinuteCreditUnit,
       bContentHourHeldCredits := bContentHourHeldCredits b - rcContent cost * contentHourCreditUnit\<rparr>"

text \<open>\<open>None\<close> is the panic on negative holds.\<close>

definition markAttemptedLocked ::
  "requestReservation \<Rightarrow> requestBudget \<Rightarrow> (requestReservation \<times> requestBudget) option" where
  "markAttemptedLocked r b =
     (if rvAttempted r then Some (r, b)
      else
        let b1 = dropHold (rvCost r)
                   (b\<lparr>bUnattempted := (if bUnattempted b > 0 then bUnattempted b - 1 else bUnattempted b)\<rparr>)
        in if bHeldCredits b1 < 0 \<or> bSecondaryHeldCredits b1 < 0
              \<or> bContentMinuteHeldCredits b1 < 0 \<or> bContentHourHeldCredits b1 < 0 then None
           else Some (r\<lparr>rvAttempted := True, rvGeneration := bGeneration b1,
                        rvReportEpoch := bReportEpoch b1\<rparr>,
                      b1\<lparr>bPendingCount := bPendingCount b1 + 1\<rparr>))"

definition markAttempted ::
  "time \<Rightarrow> requestReservation \<Rightarrow> requestBudget \<Rightarrow> (requestReservation \<times> requestBudget) option" where
  "markAttempted now r b = markAttemptedLocked r (refillLocked now b)"

definition refundPrimaryLocked :: "nat \<Rightarrow> requestBudget \<Rightarrow> requestBudget" where
  "refundPrimaryLocked generation b =
     b\<lparr>bCredits := min (bCredits b + requestCreditUnit) (bLimit b * requestCreditUnit - bHeldCredits b),
       bUsed := (if generation = bGeneration b \<and> bUsed b > 0 then bUsed b - 1 else bUsed b)\<rparr>"

definition refundSecondaryLocked :: "int \<Rightarrow> requestBudget \<Rightarrow> requestBudget" where
  "refundSecondaryLocked points b =
     b\<lparr>bSecondaryCredits := min (bSecondaryCredits b + points * secondaryCreditUnit)
         (secondaryBurstPoints * secondaryCreditUnit - bSecondaryHeldCredits b)\<rparr>"

definition refundContentLocked :: "int \<Rightarrow> requestBudget \<Rightarrow> requestBudget" where
  "refundContentLocked requests b =
     b\<lparr>bContentMinuteCredits := min (bContentMinuteCredits b + requests * contentMinuteCreditUnit)
         (contentMinuteBurstRequests * contentMinuteCreditUnit - bContentMinuteHeldCredits b),
       bContentHourCredits := min (bContentHourCredits b + requests * contentHourCreditUnit)
         (contentHourBurstRequests * contentHourCreditUnit - bContentHourHeldCredits b)\<rparr>"

definition reportOutcome :: "bool \<Rightarrow> bool \<Rightarrow> RequestReport \<Rightarrow> RequestReport" where
  "reportOutcome billed late p =
     (if billed \<and> late then p\<lparr>rqLateBilled := rqLateBilled p + 1\<rparr>
      else if billed then p\<lparr>rqBilled := rqBilled p + 1\<rparr>
      else if late then p\<lparr>rqLateUnbilled := rqLateUnbilled p + 1\<rparr>
      else p\<lparr>rqUnbilled := rqUnbilled p + 1\<rparr>)"

definition settle ::
  "time \<Rightarrow> bool \<Rightarrow> requestReservation \<Rightarrow> requestBudget \<Rightarrow> (requestReservation \<times> requestBudget) option" where
  "settle now billed r b =
     (if rvOnce r \<noteq> NotRun then Some (r, b)
      else case markAttemptedLocked r (refillLocked now b) of
        None \<Rightarrow> None
      | Some (r1, b1) \<Rightarrow>
          let late = rvReportEpoch r1 \<noteq> bReportEpoch b1;
              b2 = (if \<not> late \<and> bPendingCount b1 > 0 then b1\<lparr>bPendingCount := bPendingCount b1 - 1\<rparr> else b1);
              b3 = b2\<lparr>bReport := reportOutcome billed late (bReport b2)\<rparr>;
              b4 = (if billed then b3 else refundPrimaryLocked (rvGeneration r1) b3);
              b5 = (if rvBorrowed r1 then b4\<lparr>bBorrowed := False\<rparr> else b4)
          in Some (r1\<lparr>rvOnce := RanSettle billed\<rparr>, b5))"

definition releaseUnused ::
  "time \<Rightarrow> requestReservation \<Rightarrow> requestBudget \<Rightarrow> requestReservation \<times> requestBudget" where
  "releaseUnused now r b =
     (if rvOnce r \<noteq> NotRun then (r, b)
      else
        let b0 = refillLocked now b;
            (r1, b1) = (if rvAttempted r then (r, b0)
                        else (r\<lparr>rvGeneration := bGeneration b0\<rparr>,
                              dropHold (rvCost r) (b0\<lparr>bUnattempted := bUnattempted b0 - 1\<rparr>)));
            b2 = refundContentLocked (rcContent (rvCost r1))
                   (refundSecondaryLocked (rcPoints (rvCost r1))
                     (refundPrimaryLocked (rvGeneration r1) b1));
            b3 = (if rvAttempted r1 \<and> rvReportEpoch r1 = bReportEpoch b2 \<and> bPendingCount b2 > 0
                  then b2\<lparr>bPendingCount := bPendingCount b2 - 1\<rparr> else b2);
            b4 = (if rvBorrowed r1 then b3\<lparr>bBorrowed := False\<rparr> else b3)
        in (r1\<lparr>rvOnce := RanRelease\<rparr>, b4))"

section \<open>The budget and its reservations\<close>

record budgetWorld =
  bwBudget :: requestBudget
  bwRes :: "requestReservation list"

definition initWorld :: "time \<Rightarrow> budgetWorld" where
  "initWorld started = \<lparr>bwBudget = newRequestBudget started, bwRes = []\<rparr>"

definition putRes :: "nat \<Rightarrow> requestReservation \<times> requestBudget \<Rightarrow> budgetWorld \<Rightarrow> budgetWorld" where
  "putRes i rb w = \<lparr>bwBudget = snd rb, bwRes = (bwRes w)[i := fst rb]\<rparr>"

text \<open>
  The atomic steps on the budget: a turn of \<open>acquireCost\<close>, a lease, the three ends of a
  reservation, and a tick. The code attempts a reservation only while nothing ran under its
  \<open>once\<close>, and returns one only if it was not attempted or is already settled: \<open>RoundTrip\<close> settles
  what it attempted before it returns, and a lease is closed after its requests returned.
  A step that breaks this order, or panics, is \<open>None\<close>.
\<close>

datatype budgetOp =
    OpAcquire time bool bool bool requestCost bool bool
  | OpLease time "requestCost list"
  | OpAttempt time nat
  | OpSettle time nat bool
  | OpRelease time nat
  | OpTick time duration

fun opClock :: "budgetOp \<Rightarrow> time" where
  "opClock (OpAcquire now _ _ _ _ _ _) = now"
| "opClock (OpLease now _) = now"
| "opClock (OpAttempt now _) = now"
| "opClock (OpSettle now _ _) = now"
| "opClock (OpRelease now _) = now"
| "opClock (OpTick now _) = now"

fun stepOp :: "budgetOp \<Rightarrow> budgetWorld \<Rightarrow> budgetWorld option" where
  "stepOp (OpAcquire now conditional refusable wait cost preserveClaim deferred) w =
     (case acquireCostTurn now conditional refusable wait cost preserveClaim deferred (bwBudget w) of
        (Admitted r, b) \<Rightarrow> Some \<lparr>bwBudget = b, bwRes = bwRes w @ [r]\<rparr>
      | (_, b) \<Rightarrow> Some (w\<lparr>bwBudget := b\<rparr>))"
| "stepOp (OpLease now costs) w =
     (case reserveLease now costs (bwBudget w) of
        (Inl _, b) \<Rightarrow> Some (w\<lparr>bwBudget := b\<rparr>)
      | (Inr rs, b) \<Rightarrow> Some \<lparr>bwBudget = b, bwRes = bwRes w @ rs\<rparr>)"
| "stepOp (OpAttempt now i) w =
     (if i < length (bwRes w) \<and> rvOnce (bwRes w ! i) = NotRun then
        map_option (\<lambda>rb. putRes i rb w) (markAttempted now (bwRes w ! i) (bwBudget w))
      else None)"
| "stepOp (OpSettle now i billed) w =
     (if i < length (bwRes w) then
        map_option (\<lambda>rb. putRes i rb w) (settle now billed (bwRes w ! i) (bwBudget w))
      else None)"
| "stepOp (OpRelease now i) w =
     (if i < length (bwRes w) \<and> (rvOnce (bwRes w ! i) \<noteq> NotRun \<or> \<not> rvAttempted (bwRes w ! i)) then
        Some (putRes i (releaseUnused now (bwRes w ! i) (bwBudget w)) w)
      else None)"
| "stepOp (OpTick now interval) w = Some (w\<lparr>bwBudget := snd (beginTick now interval (bwBudget w))\<rparr>)"

fun runOps :: "budgetOp list \<Rightarrow> budgetWorld \<Rightarrow> budgetWorld option" where
  "runOps [] w = Some w"
| "runOps (op # ops) w = (case stepOp op w of None \<Rightarrow> None | Some w' \<Rightarrow> runOps ops w')"

section \<open>The four allowances\<close>

text \<open>The four allowances have one shape; these are their fields.\<close>

datatype allowance = Primary | Secondary | ContentMinute | ContentHour

fun unitOf :: "allowance \<Rightarrow> int" where
  "unitOf Primary = requestCreditUnit"
| "unitOf Secondary = secondaryCreditUnit"
| "unitOf ContentMinute = contentMinuteCreditUnit"
| "unitOf ContentHour = contentHourCreditUnit"

fun burstOf :: "allowance \<Rightarrow> int" where
  "burstOf Primary = billedPerTick"
| "burstOf Secondary = secondaryBurstPoints"
| "burstOf ContentMinute = contentMinuteBurstRequests"
| "burstOf ContentHour = contentHourBurstRequests"

fun rateOf :: "allowance \<Rightarrow> int" where
  "rateOf Primary = billedPerTick"
| "rateOf Secondary = secondaryRefillPoints"
| "rateOf ContentMinute = contentMinuteRefillRequests"
| "rateOf ContentHour = contentHourRefillRequests"

fun creditsOf :: "allowance \<Rightarrow> requestBudget \<Rightarrow> int" where
  "creditsOf Primary = bCredits"
| "creditsOf Secondary = bSecondaryCredits"
| "creditsOf ContentMinute = bContentMinuteCredits"
| "creditsOf ContentHour = bContentHourCredits"

fun heldOf :: "allowance \<Rightarrow> requestBudget \<Rightarrow> int" where
  "heldOf Primary = bHeldCredits"
| "heldOf Secondary = bSecondaryHeldCredits"
| "heldOf ContentMinute = bContentMinuteHeldCredits"
| "heldOf ContentHour = bContentHourHeldCredits"

fun lastOf :: "allowance \<Rightarrow> requestBudget \<Rightarrow> time" where
  "lastOf Primary = bLastRefill"
| "lastOf Secondary = bSecondaryLastRefill"
| "lastOf ContentMinute = bContentMinuteLastRefill"
| "lastOf ContentHour = bContentHourLastRefill"

fun amountOf :: "allowance \<Rightarrow> int \<Rightarrow> int \<Rightarrow> int \<Rightarrow> int" where
  "amountOf Primary n points content = n"
| "amountOf Secondary n points content = points"
| "amountOf ContentMinute n points content = content"
| "amountOf ContentHour n points content = content"

definition priceOf :: "allowance \<Rightarrow> requestReservation \<Rightarrow> int" where
  "priceOf k r = amountOf k 1 (rcPoints (rvCost r)) (rcContent (rvCost r))"

text \<open>The primary allowance may be overdrawn by one speculative request.\<close>

definition floorOf :: "allowance \<Rightarrow> int" where
  "floorOf k = (if k = Primary then - requestCreditUnit else 0)"

text \<open>A reservation that waits for its attempt, and one that counts in the current window.\<close>

definition waiting :: "requestReservation \<Rightarrow> bool" where
  "waiting r \<longleftrightarrow> \<not> rvAttempted r \<and> rvOnce r = NotRun"

definition billable :: "requestReservation \<Rightarrow> bool" where
  "billable r \<longleftrightarrow> rvAttempted r \<and> rvOnce r \<in> {NotRun, RanSettle True}"

definition inWindow :: "nat \<Rightarrow> requestReservation \<Rightarrow> bool" where
  "inWindow g r \<longleftrightarrow> waiting r \<or> (billable r \<and> rvGeneration r = g)"

definition sumWhere :: "(requestReservation \<Rightarrow> bool) \<Rightarrow> (requestReservation \<Rightarrow> int) \<Rightarrow> requestReservation list \<Rightarrow> int" where
  "sumWhere P f rs = (\<Sum>r\<leftarrow>rs. if P r then f r else 0)"

definition costOk :: "requestReservation \<Rightarrow> bool" where
  "costOk r \<longleftrightarrow> rcPoints (rvCost r) > 0 \<and> rcContent (rvCost r) \<ge> 0"

text \<open>The invariant of one allowance, and of the budget with its reservations.\<close>

definition allowanceOk :: "allowance \<Rightarrow> budgetWorld \<Rightarrow> bool" where
  "allowanceOk k w \<longleftrightarrow>
     zeroTime < lastOf k (bwBudget w)
     \<and> floorOf k \<le> creditsOf k (bwBudget w)
     \<and> creditsOf k (bwBudget w) + heldOf k (bwBudget w) \<le> burstOf k * unitOf k
     \<and> heldOf k (bwBudget w) = unitOf k * sumWhere waiting (priceOf k) (bwRes w)"

definition windowOk :: "budgetWorld \<Rightarrow> bool" where
  "windowOk w \<longleftrightarrow>
     bLimit (bwBudget w) = billedPerTick \<and> bOrdinaryLimit (bwBudget w) = ordinaryPerTick
     \<and> bUnattempted (bwBudget w) = sumWhere waiting (\<lambda>_. 1) (bwRes w)
     \<and> bUsed (bwBudget w) = sumWhere (inWindow (bGeneration (bwBudget w))) (\<lambda>_. 1) (bwRes w)
     \<and> bUsed (bwBudget w) \<le> billedPerTick
     \<and> (\<forall>r\<in>set (bwRes w). costOk r \<and> rvGeneration r \<le> bGeneration (bwBudget w))"

definition worldOk :: "budgetWorld \<Rightarrow> bool" where
  "worldOk w \<longleftrightarrow> windowOk w \<and> (\<forall>k. allowanceOk k w)"

subsection \<open>Effects on one allowance\<close>

lemma unit_pos [simp]: "0 < unitOf k" "0 < rateOf k" "0 < burstOf k"
  by (cases k; simp add: budget_constants)+

lemma goDiv_ceil: "0 \<le> m \<Longrightarrow> 0 < r \<Longrightarrow> goDiv (m + r - 1) r = (m + r - 1) div r"
  by (simp add: goDiv_def)

lemma below_ceil:
  fixes m r e :: int
  assumes "0 < r" and "e < (m + r - 1) div r" shows "e * r < m"
proof -
  have "(e + 1) * r \<le> ((m + r - 1) div r) * r"
    using assms by (intro mult_right_mono) auto
  also have "\<dots> \<le> m + r - 1" using pos_mod_sign [OF assms(1), of "m + r - 1"] by (simp add: minus_mod_eq_div_mult [symmetric])
  finally show ?thesis by (simp add: algebra_simps)
qed

lemma above_ceil:
  fixes m r e :: int
  assumes "0 < r" and "(m + r - 1) div r \<le> e" shows "m \<le> e * r"
proof -
  have "m + r - 1 - r < ((m + r - 1) div r) * r"
    using pos_mod_bound [OF assms(1), of "m + r - 1"] by (simp add: minus_mod_eq_div_mult [symmetric])
  moreover have "((m + r - 1) div r) * r \<le> e * r" using assms by (intro mult_right_mono) auto
  ultimately show ?thesis by simp
qed

text \<open>
  A refill never lowers an allowance below its capacity, never raises it above, and gives at
  most the rate for the time since the last one. The clock may jump either way.
\<close>

lemma refillAllowance_laws:
  assumes r: "refillAllowance now since c cap rate = (l, c')" and "0 < rate" "c \<le> cap"
    and z: "since \<noteq> zeroTime"
  shows "c \<le> c'" "c' \<le> cap" "since \<le> l" "c' \<le> c + rate * (l - since)" "now \<le> l" "l \<le> max since now"
proof -
  define e where "e = timeSub now since"
  have e: "0 < e \<Longrightarrow> e \<le> now - since" "0 < e \<Longrightarrow> since < now" "e \<le> 0 \<Longrightarrow> now \<le> since"
    by (auto simp: e_def timeSub_def maxInt64_def)
  have e1: "0 < e \<Longrightarrow> e * rate \<le> rate * (now - since)"
    using e(1) \<open>0 < rate\<close> by (simp add: mult.commute)
  note full = above_ceil [OF \<open>0 < rate\<close>, of "cap - c" e]
  note part = below_ceil [OF \<open>0 < rate\<close>, of e "cap - c"]
  have c: "goDiv (cap - c + rate - 1) rate = (cap - c + rate - 1) div rate"
    using assms(2,3) by (simp add: goDiv_def)
  have r': "(l, c') = (if e \<le> 0 then (since, c) else if cap - c \<le> 0 then (now, cap)
      else if (cap - c + rate - 1) div rate \<le> e then (now, cap) else (now, c + e * rate))"
    using r z unfolding refillAllowance_def Let_def e_def [symmetric] c by simp
  show "c \<le> c'" "c' \<le> cap" "since \<le> l" "c' \<le> c + rate * (l - since)" "now \<le> l" "l \<le> max since now"
    using r' e full part assms(2,3) order_trans [OF full e1] by (auto split: if_splits)
qed

lemma allowance_refill [simp]:
  "bLimit b = billedPerTick \<Longrightarrow> creditsOf k (refillLocked now b)
     = snd (refillAllowance now (lastOf k b) (creditsOf k b) (burstOf k * unitOf k - heldOf k b) (rateOf k))"
  "bLimit b = billedPerTick \<Longrightarrow> lastOf k (refillLocked now b)
     = fst (refillAllowance now (lastOf k b) (creditsOf k b) (burstOf k * unitOf k - heldOf k b) (rateOf k))"
  "heldOf k (refillLocked now b) = heldOf k b"
  by (cases k; simp add: refillLocked_def Let_def split: prod.splits)+

lemma refillLocked_fields [simp]:
  "bLimit (refillLocked now b) = bLimit b" "bOrdinaryLimit (refillLocked now b) = bOrdinaryLimit b"
  "bUsed (refillLocked now b) = bUsed b" "bUnattempted (refillLocked now b) = bUnattempted b"
  "bGeneration (refillLocked now b) = bGeneration b" "bBorrowed (refillLocked now b) = bBorrowed b"
  "bOpened (refillLocked now b) = bOpened b" "bCeiling (refillLocked now b) = bCeiling b"
  "bReportEpoch (refillLocked now b) = bReportEpoch b"
  by (simp_all add: refillLocked_def Let_def split: prod.splits)

lemma allowance_open [simp]:
  "creditsOf k (openLocked now b) = creditsOf k b" "heldOf k (openLocked now b) = heldOf k b"
  "lastOf k (openLocked now b) = lastOf k b"
  by (cases k; simp add: openLocked_def)+

lemma allowance_debit [simp]:
  "creditsOf k (debit n points content b) = creditsOf k b - unitOf k * amountOf k n points content"
  "heldOf k (debit n points content b) = heldOf k b + unitOf k * amountOf k n points content"
  "lastOf k (debit n points content b) = lastOf k b"
  by (cases k; simp add: debit_def)+

lemma allowance_dropHold [simp]:
  "creditsOf k (dropHold cost b) = creditsOf k b"
  "heldOf k (dropHold cost b) = heldOf k b - unitOf k * amountOf k 1 (rcPoints cost) (rcContent cost)"
  "lastOf k (dropHold cost b) = lastOf k b"
  by (cases k; simp add: dropHold_def)+

text \<open>Updates of the fields that no allowance has.\<close>

lemma allowance_other [simp]:
  "creditsOf k (b\<lparr>bBorrowed := x\<rparr>) = creditsOf k b" "heldOf k (b\<lparr>bBorrowed := x\<rparr>) = heldOf k b"
  "lastOf k (b\<lparr>bBorrowed := x\<rparr>) = lastOf k b"
  "creditsOf k (b\<lparr>bUnattempted := n\<rparr>) = creditsOf k b" "heldOf k (b\<lparr>bUnattempted := n\<rparr>) = heldOf k b"
  "lastOf k (b\<lparr>bUnattempted := n\<rparr>) = lastOf k b"
  "creditsOf k (b\<lparr>bPendingCount := n\<rparr>) = creditsOf k b" "heldOf k (b\<lparr>bPendingCount := n\<rparr>) = heldOf k b"
  "lastOf k (b\<lparr>bPendingCount := n\<rparr>) = lastOf k b"
  "creditsOf k (b\<lparr>bReport := p\<rparr>) = creditsOf k b" "heldOf k (b\<lparr>bReport := p\<rparr>) = heldOf k b"
  "lastOf k (b\<lparr>bReport := p\<rparr>) = lastOf k b"
  "creditsOf k (b\<lparr>bReportEpoch := e\<rparr>) = creditsOf k b" "heldOf k (b\<lparr>bReportEpoch := e\<rparr>) = heldOf k b"
  "lastOf k (b\<lparr>bReportEpoch := e\<rparr>) = lastOf k b"
  "creditsOf k (b\<lparr>bCeiling := d\<rparr>) = creditsOf k b" "heldOf k (b\<lparr>bCeiling := d\<rparr>) = heldOf k b"
  "lastOf k (b\<lparr>bCeiling := d\<rparr>) = lastOf k b"
  by (cases k; simp)+

text \<open>What the two refunds together give back: the primary unit, or the whole price.\<close>

lemma allowance_refund [simp]:
  "bLimit b = billedPerTick \<Longrightarrow> creditsOf k (refundPrimaryLocked g b) = (if k = Primary
     then min (creditsOf k b + unitOf k) (burstOf k * unitOf k - heldOf k b) else creditsOf k b)"
  "bLimit b = billedPerTick \<Longrightarrow> creditsOf k (refundContentLocked c (refundSecondaryLocked p (refundPrimaryLocked g b)))
     = min (creditsOf k b + unitOf k * amountOf k 1 p c) (burstOf k * unitOf k - heldOf k b)"
  "heldOf k (refundPrimaryLocked g b) = heldOf k b" "lastOf k (refundPrimaryLocked g b) = lastOf k b"
  "heldOf k (refundSecondaryLocked p b) = heldOf k b" "lastOf k (refundSecondaryLocked p b) = lastOf k b"
  "heldOf k (refundContentLocked c b) = heldOf k b" "lastOf k (refundContentLocked c b) = lastOf k b"
  by (cases k; simp add: refundPrimaryLocked_def refundSecondaryLocked_def refundContentLocked_def
        mult.commute)+

subsection \<open>The invariant\<close>

lemma sumWhere_append [simp]: "sumWhere P f (rs @ rs') = sumWhere P f rs + sumWhere P f rs'"
  by (simp add: sumWhere_def)

lemma sumWhere_simps [simp]: "sumWhere P f [] = 0"
  "sumWhere P f (r # rs) = (if P r then f r else 0) + sumWhere P f rs"
  by (simp_all add: sumWhere_def)

lemma sumWhere_update:
  "i < length rs \<Longrightarrow> sumWhere P f (rs[i := r]) = sumWhere P f rs - (if P (rs ! i) then f (rs ! i) else 0)
     + (if P r then f r else 0)"
  by (induction rs arbitrary: i) (auto split: nat.split)

lemma sumWhere_nonneg: "(\<And>r. r \<in> set rs \<Longrightarrow> P r \<Longrightarrow> 0 \<le> f r) \<Longrightarrow> 0 \<le> sumWhere P f rs"
  by (induction rs) auto

lemma sumWhere_member:
  assumes "i < length rs" "P (rs ! i)" "\<And>r. r \<in> set rs \<Longrightarrow> P r \<Longrightarrow> 0 \<le> f r"
  shows "f (rs ! i) \<le> sumWhere P f rs"
  using assms
proof (induction rs arbitrary: i)
  case (Cons r rs)
  then show ?case
    using sumWhere_nonneg [of rs P f] by (cases i) (fastforce intro: add_increasing)+
qed simp

lemma sumWhere_False [simp]: "sumWhere (\<lambda>_. False) f rs = 0"
  by (induction rs) auto

lemma sumWhere_cong: "(\<And>r. r \<in> set rs \<Longrightarrow> P r = Q r) \<Longrightarrow> sumWhere P f rs = sumWhere Q f rs"
  by (induction rs) auto

lemma price_nonneg [simp]: "costOk r \<Longrightarrow> 0 \<le> priceOf k r"
  by (cases k) (auto simp: priceOf_def costOk_def)

text \<open>
  What an allowance has left, promised or not, and what was spent from it: the price of every
  attempted request, and for the primary allowance of every one that is not known to be free.
\<close>

definition leftOf :: "allowance \<Rightarrow> budgetWorld \<Rightarrow> int" where
  "leftOf k w = creditsOf k (bwBudget w) + heldOf k (bwBudget w)"

definition spends :: "allowance \<Rightarrow> requestReservation \<Rightarrow> bool" where
  "spends k r \<longleftrightarrow> (if k = Primary then billable r else rvAttempted r)"

definition spentOf :: "allowance \<Rightarrow> budgetWorld \<Rightarrow> int" where
  "spentOf k w = sumWhere (spends k) (priceOf k) (bwRes w)"

text \<open>A step after the refill moves no clock and creates no credit.\<close>

definition conserves :: "allowance \<Rightarrow> budgetWorld \<Rightarrow> budgetWorld \<Rightarrow> bool" where
  "conserves k w w' \<longleftrightarrow> lastOf k (bwBudget w') = lastOf k (bwBudget w)
     \<and> leftOf k w' + unitOf k * spentOf k w' \<le> leftOf k w + unitOf k * spentOf k w"

lemma worldOk_fields:
  assumes "worldOk w"
  shows "bLimit (bwBudget w) = billedPerTick" "bOrdinaryLimit (bwBudget w) = ordinaryPerTick"
    "bUnattempted (bwBudget w) = sumWhere waiting (\<lambda>_. 1) (bwRes w)"
    "bUsed (bwBudget w) = sumWhere (inWindow (bGeneration (bwBudget w))) (\<lambda>_. 1) (bwRes w)"
    "bUsed (bwBudget w) \<le> billedPerTick"
    "\<And>r. r \<in> set (bwRes w) \<Longrightarrow> costOk r \<and> rvGeneration r \<le> bGeneration (bwBudget w)"
    "zeroTime < lastOf k (bwBudget w)" "floorOf k \<le> creditsOf k (bwBudget w)"
    "creditsOf k (bwBudget w) + heldOf k (bwBudget w) \<le> burstOf k * unitOf k"
    "heldOf k (bwBudget w) = unitOf k * sumWhere waiting (priceOf k) (bwRes w)"
  using assms unfolding worldOk_def windowOk_def allowanceOk_def by metis+

lemma worldOkI: "windowOk w \<Longrightarrow> (\<And>k. allowanceOk k w) \<Longrightarrow> worldOk w"
  by (simp add: worldOk_def)

lemma waiting_price_nonneg: "worldOk w \<Longrightarrow> 0 \<le> sumWhere waiting (priceOf k) (bwRes w)"
  by (rule sumWhere_nonneg) (use worldOk_fields(6) price_nonneg in blast)

lemma held_nonneg: "worldOk w \<Longrightarrow> 0 \<le> heldOf k (bwBudget w)"
  using mult_nonneg_nonneg [OF less_imp_le [OF unit_pos(1)] waiting_price_nonneg] by (simp add: worldOk_fields(10))

text \<open>No intermediate value of a refill leaves the range of \<open>int64\<close>.\<close>

lemma refill_in_range:
  fixes w k
  defines "missing \<equiv> burstOf k * unitOf k - heldOf k (bwBudget w) - creditsOf k (bwBudget w)"
  assumes "worldOk w"
  shows "0 \<le> missing" "missing + rateOf k - 1 \<le> maxInt64"
    "e < (missing + rateOf k - 1) div rateOf k \<Longrightarrow> creditsOf k (bwBudget w) + e * rateOf k \<le> burstOf k * unitOf k"
proof -
  note ok = worldOk_fields [OF assms(2)] and h = held_nonneg [OF assms(2), of k]
  show nn: "0 \<le> missing" using ok(9) [of k] by (simp add: missing_def)
  have "missing \<le> burstOf k * unitOf k - floorOf k" using ok(8) [of k] h by (simp add: missing_def)
  moreover have "burstOf k * unitOf k - floorOf k + rateOf k - 1 \<le> maxInt64"
    by (cases k) (simp_all add: floorOf_def budget_constants maxInt64_def)
  ultimately show "missing + rateOf k - 1 \<le> maxInt64" by simp
  show "creditsOf k (bwBudget w) + e * rateOf k \<le> burstOf k * unitOf k" if "e < (missing + rateOf k - 1) div rateOf k"
    using below_ceil [OF unit_pos(2) that] h by (simp add: missing_def)
qed

lemma initWorld_ok: "zeroTime < started \<Longrightarrow> worldOk (initWorld started)"
proof -
  assume z: "zeroTime < started"
  have "allowanceOk k (initWorld started)" for k
    using z by (cases k) (simp_all add: allowanceOk_def initWorld_def newRequestBudget_def floorOf_def
      budget_constants)
  then show ?thesis
    by (simp add: worldOk_def windowOk_def initWorld_def newRequestBudget_def billedPerTick_def)
qed

definition refillWorld :: "time \<Rightarrow> budgetWorld \<Rightarrow> budgetWorld" where
  "refillWorld now w = w\<lparr>bwBudget := refillLocked now (bwBudget w)\<rparr>"

lemma refill_laws:
  fixes now :: time
  assumes "worldOk w"
  defines "w' \<equiv> refillWorld now w"
  shows "worldOk w'" "lastOf k (bwBudget w) \<le> lastOf k (bwBudget w')" "now \<le> lastOf k (bwBudget w')"
    "lastOf k (bwBudget w') \<le> max (lastOf k (bwBudget w)) now"
    "leftOf k w' \<le> leftOf k w + rateOf k * (lastOf k (bwBudget w') - lastOf k (bwBudget w))"
    "spentOf k w' = spentOf k w" "creditsOf k (bwBudget w) \<le> creditsOf k (bwBudget w')"
proof -
  note ok = worldOk_fields [OF assms(1)]
  have *: "creditsOf j (bwBudget w) \<le> creditsOf j (bwBudget w')
      \<and> creditsOf j (bwBudget w') \<le> burstOf j * unitOf j - heldOf j (bwBudget w)
      \<and> lastOf j (bwBudget w) \<le> lastOf j (bwBudget w')
      \<and> creditsOf j (bwBudget w') \<le> creditsOf j (bwBudget w) + rateOf j * (lastOf j (bwBudget w') - lastOf j (bwBudget w))
      \<and> now \<le> lastOf j (bwBudget w') \<and> lastOf j (bwBudget w') \<le> max (lastOf j (bwBudget w)) now" for j
  proof -
    let ?cap = "burstOf j * unitOf j - heldOf j (bwBudget w)"
    obtain l c where lc: "refillAllowance now (lastOf j (bwBudget w)) (creditsOf j (bwBudget w)) ?cap (rateOf j) = (l, c)"
      by fastforce
    have "creditsOf j (bwBudget w') = c" "lastOf j (bwBudget w') = l"
      by (simp_all add: w'_def refillWorld_def ok(1) lc)
    then show ?thesis
      using refillAllowance_laws [OF lc unit_pos(2)] ok(7,9) [of j] by simp
  qed
  have h: "heldOf j (bwBudget w') = heldOf j (bwBudget w)" for j by (simp add: w'_def refillWorld_def)
  have r: "bwRes w' = bwRes w" by (simp add: w'_def refillWorld_def)
  have "allowanceOk j w'" for j
    using * [of j] ok(7-10) [of j] by (simp add: allowanceOk_def h r)
  then show "worldOk w'"
    using assms(1) by (simp add: worldOk_def windowOk_def w'_def refillWorld_def)
  show "lastOf k (bwBudget w) \<le> lastOf k (bwBudget w')" "now \<le> lastOf k (bwBudget w')"
    "lastOf k (bwBudget w') \<le> max (lastOf k (bwBudget w)) now"
    "leftOf k w' \<le> leftOf k w + rateOf k * (lastOf k (bwBudget w') - lastOf k (bwBudget w))"
    "spentOf k w' = spentOf k w" "creditsOf k (bwBudget w) \<le> creditsOf k (bwBudget w')"
    using * [of k] by (simp_all add: leftOf_def h spentOf_def r)
qed

text \<open>Two budgets that differ only in what the invariant does not speak of.\<close>

definition sameFunds :: "requestBudget \<Rightarrow> requestBudget \<Rightarrow> bool" where
  "sameFunds b b' \<longleftrightarrow> bLimit b' = bLimit b \<and> bOrdinaryLimit b' = bOrdinaryLimit b \<and> bUsed b' = bUsed b
     \<and> bUnattempted b' = bUnattempted b \<and> bGeneration b' = bGeneration b
     \<and> (\<forall>k. creditsOf k b' = creditsOf k b \<and> heldOf k b' = heldOf k b \<and> lastOf k b' = lastOf k b)"

lemma sameFunds_laws:
  assumes "worldOk w" "sameFunds (bwBudget w) b"
  shows "worldOk (w\<lparr>bwBudget := b\<rparr>)" "conserves k w (w\<lparr>bwBudget := b\<rparr>)"
proof -
  note ok = worldOk_fields [OF assms(1)]
  have "windowOk (w\<lparr>bwBudget := b\<rparr>)"
    using ok(1-6) assms(2) by (simp add: windowOk_def sameFunds_def)
  moreover have "allowanceOk j (w\<lparr>bwBudget := b\<rparr>)" for j
    using ok(7-10) [of j] assms(2) by (simp add: allowanceOk_def sameFunds_def)
  ultimately show "worldOk (w\<lparr>bwBudget := b\<rparr>)" by (rule worldOkI)
  show "conserves k w (w\<lparr>bwBudget := b\<rparr>)"
    using assms(2) by (simp add: conserves_def leftOf_def spentOf_def sameFunds_def)
qed

text \<open>A new window keeps only what still waits.\<close>

lemma open_laws:
  fixes now :: time
  assumes "worldOk w"
  defines "w' \<equiv> w\<lparr>bwBudget := openLocked now (bwBudget w)\<rparr>"
  shows "worldOk w'" "conserves k w w'"
proof -
  note ok = worldOk_fields [OF assms(1)]
  have "sumWhere (inWindow (Suc (bGeneration (bwBudget w)))) (\<lambda>_. 1) (bwRes w)
      = sumWhere waiting (\<lambda>_. 1) (bwRes w)"
    by (rule sumWhere_cong) (use ok(6) in \<open>fastforce simp: inWindow_def\<close>)
  moreover have "sumWhere waiting (\<lambda>_. 1) (bwRes w)
      \<le> sumWhere (inWindow (bGeneration (bwBudget w))) (\<lambda>_. 1) (bwRes w)"
    unfolding sumWhere_def by (rule sum_list_mono) (simp add: inWindow_def)
  ultimately have "windowOk w'"
    using ok(1-6) unfolding windowOk_def w'_def openLocked_def by (auto intro: le_SucI)
  moreover have "allowanceOk k w'" for k
    using ok(7-10) [of k] by (simp add: allowanceOk_def w'_def)
  ultimately show "worldOk w'" by (rule worldOkI)
  show "conserves k w w'" by (simp add: conserves_def w'_def leftOf_def spentOf_def)
qed

text \<open>A new reservation moves its price from the credits to the holds.\<close>

lemma debit_fields [simp]:
  "bLimit (debit n p c b) = bLimit b" "bOrdinaryLimit (debit n p c b) = bOrdinaryLimit b"
  "bUsed (debit n p c b) = bUsed b + n" "bUnattempted (debit n p c b) = bUnattempted b + n"
  "bGeneration (debit n p c b) = bGeneration b"
  by (simp_all add: debit_def)

lemma newReservation_simps [simp]:
  "waiting (newReservation b x c)" "\<not> rvAttempted (newReservation b x c)"
  "\<not> billable (newReservation b x c)" "\<not> spends k (newReservation b x c)"
  "inWindow g (newReservation b x c)" "rvCost (newReservation b x c) = c"
  "rvGeneration (newReservation b x c) = bGeneration b"
  "rvOnce (newReservation b x c) = NotRun"
  by (simp_all add: waiting_def billable_def inWindow_def newReservation_def spends_def)

lemma waited_simps [simp]:
  "waiting (r\<lparr>rvWaited := d\<rparr>) = waiting r" "billable (r\<lparr>rvWaited := d\<rparr>) = billable r"
  "inWindow g (r\<lparr>rvWaited := d\<rparr>) = inWindow g r" "priceOf k (r\<lparr>rvWaited := d\<rparr>) = priceOf k r"
  "costOk (r\<lparr>rvWaited := d\<rparr>) = costOk r" "spends k (r\<lparr>rvWaited := d\<rparr>) = spends k r"
  by (simp_all add: waiting_def billable_def inWindow_def priceOf_def costOk_def spends_def)

lemma debit_laws:
  fixes rs :: "requestReservation list" and points content :: int
  assumes w: "worldOk w"
    and rs: "\<And>r. r \<in> set rs \<Longrightarrow> waiting r \<and> costOk r \<and> rvGeneration r = bGeneration (bwBudget w)"
    and am: "\<And>k. sumWhere (\<lambda>_. True) (priceOf k) rs = amountOf k (int (length rs)) points content"
    and used: "bUsed (bwBudget w) + int (length rs) \<le> billedPerTick"
    and fits: "\<And>k. floorOf k \<le> creditsOf k (bwBudget w) - unitOf k * amountOf k (int (length rs)) points content"
  defines "w' \<equiv> \<lparr>bwBudget = debit (int (length rs)) points content (bwBudget w), bwRes = bwRes w @ rs\<rparr>"
  shows "worldOk w'" "conserves k w w'"
proof -
  note ok = worldOk_fields [OF w]
  have all: "sumWhere waiting f rs = sumWhere (\<lambda>_. True) f rs"
    "sumWhere (inWindow (bGeneration (bwBudget w))) f rs = sumWhere (\<lambda>_. True) f rs" for f
    using rs by (auto intro!: sumWhere_cong simp: inWindow_def)
  have none: "sumWhere (spends j) f rs = sumWhere (\<lambda>_. False) f rs" for j f
    using rs by (intro sumWhere_cong) (auto simp: spends_def billable_def waiting_def)
  have len: "sumWhere (\<lambda>_. True) (\<lambda>_. 1) rs = int (length rs)"
    by (induction rs) auto
  have "windowOk w'"
    using ok(1-6) rs used unfolding windowOk_def w'_def by (auto simp: all len)
  moreover have "allowanceOk j w'" for j
    using ok(7-10) [of j] fits [of j]
    by (simp add: allowanceOk_def w'_def all am algebra_simps)
  ultimately show "worldOk w'" by (rule worldOkI)
  show "conserves k w w'"
    by (simp add: conserves_def leftOf_def spentOf_def w'_def none)
qed

lemma reserve_laws:
  assumes w: "worldOk w"
    and r: "reserveOneWithCostLocked conditional cost preserveClaim (bwBudget w) = Some (r, b)"
  shows "worldOk \<lparr>bwBudget = b, bwRes = bwRes w @ [r\<lparr>rvWaited := d\<rparr>]\<rparr>"
    "conserves k w \<lparr>bwBudget = b, bwRes = bwRes w @ [r\<lparr>rvWaited := d\<rparr>]\<rparr>"
proof -
  note ok = worldOk_fields [OF w]
  let ?b = "bwBudget w"
  have g: "\<not> (rcPoints cost \<le> 0 \<or> rcContent cost < 0 \<or> bUsed ?b \<ge> windowLimit conditional ?b
         \<or> bSecondaryCredits ?b < secondaryNeeded cost preserveClaim
         \<or> bContentMinuteCredits ?b < contentMinuteNeeded cost preserveClaim
         \<or> bContentHourCredits ?b < contentHourNeeded cost preserveClaim)"
    and c: "r = newReservation ?b False cost \<and> b = debit 1 (rcPoints cost) (rcContent cost) ?b \<and> bCredits ?b \<ge> requestCreditUnit
      \<or> r = newReservation ?b True cost \<and> b = debit 1 (rcPoints cost) (rcContent cost) (?b\<lparr>bBorrowed := True\<rparr>) \<and> bCredits ?b \<ge> 0"
    using r by (auto simp: reserveOneWithCostLocked_def split: if_splits)
  have res: "0 \<le> secondaryReserve preserveClaim" "0 \<le> contentReserve cost preserveClaim"
    by (simp_all add: secondaryReserve_def contentReserve_def budget_constants)
  have fits: "floorOf j \<le> creditsOf j ?b - unitOf j * amountOf j 1 (rcPoints cost) (rcContent cost)" for j
    using g c res by (cases j)
      (auto simp: floorOf_def secondaryNeeded_def contentMinuteNeeded_def contentHourNeeded_def budget_constants)
  have u: "bUsed ?b + 1 \<le> billedPerTick"
    using g ok(1,2) by (auto simp: windowLimit_def ordinaryPerTick_def split: if_splits)
  obtain x where x: "r = newReservation ?b x cost" and b: "b = debit 1 (rcPoints cost) (rcContent cost) (?b\<lparr>bBorrowed := x \<or> bBorrowed ?b\<rparr>)"
    using c by fastforce
  let ?w = "w\<lparr>bwBudget := ?b\<lparr>bBorrowed := x \<or> bBorrowed ?b\<rparr>\<rparr>"
  have w2: "worldOk ?w" using w by (rule sameFunds_laws) (simp add: sameFunds_def)
  have cons: "conserves k w v \<longleftrightarrow> conserves k ?w v" for v k
    by (simp add: conserves_def leftOf_def spentOf_def)
  note laws = debit_laws [OF w2, of "[r\<lparr>rvWaited := d\<rparr>]" "rcPoints cost" "rcContent cost"]
  show "worldOk \<lparr>bwBudget = b, bwRes = bwRes w @ [r\<lparr>rvWaited := d\<rparr>]\<rparr>"
    "conserves k w \<lparr>bwBudget = b, bwRes = bwRes w @ [r\<lparr>rvWaited := d\<rparr>]\<rparr>"
    using laws g fits u unfolding cons b by (auto simp: x costOk_def priceOf_def)
qed

lemma costSums_laws:
  assumes "costSums costs p c = Some (points, content)"
  shows "(\<forall>x\<in>set costs. rcPoints x > 0 \<and> rcContent x \<ge> 0)
    \<and> points = p + (\<Sum>x\<leftarrow>costs. rcPoints x) \<and> content = c + (\<Sum>x\<leftarrow>costs. rcContent x)"
  using assms
proof (induction costs arbitrary: p c)
  case (Cons x costs)
  show ?case
    using Cons.IH [of "p + rcPoints x" "c + rcContent x"] Cons.prems by (simp split: if_splits)
qed simp

lemma price_of_costs:
  "sumWhere (\<lambda>_. True) (priceOf k) (map (newReservation b x) costs)
     = amountOf k (int (length costs)) (\<Sum>x\<leftarrow>costs. rcPoints x) (\<Sum>x\<leftarrow>costs. rcContent x)"
  by (induction costs) (cases k; simp add: priceOf_def)+

lemma lease_laws:
  assumes w: "worldOk w" and l: "bUsed (bwBudget w) + int (length costs) \<le> bOrdinaryLimit (bwBudget w)"
    and s: "costSums costs 0 0 = Some (points, content)"
    and f: "int (length costs) * requestCreditUnit \<le> bCredits (bwBudget w)"
      "points * secondaryCreditUnit \<le> bSecondaryCredits (bwBudget w)"
      "content * contentMinuteCreditUnit \<le> bContentMinuteCredits (bwBudget w)"
      "content * contentHourCreditUnit \<le> bContentHourCredits (bwBudget w)"
  defines "w' \<equiv> \<lparr>bwBudget = debit (int (length costs)) points content (bwBudget w),
                  bwRes = bwRes w @ map (newReservation (bwBudget w) False) costs\<rparr>"
  shows "worldOk w'" "conserves k w w'"
proof -
  note ok = worldOk_fields [OF w]
  have fits: "floorOf j \<le> creditsOf j (bwBudget w) - unitOf j * amountOf j (int (length costs)) points content" for j
    using f by (cases j) (auto simp: floorOf_def budget_constants mult.commute)
  note laws = debit_laws [OF w, of "map (newReservation (bwBudget w) False) costs" points content]
  have u: "bUsed (bwBudget w) + int (length costs) \<le> billedPerTick"
    using l ok(2) by (simp add: ordinaryPerTick_def)
  have rs: "waiting r \<and> costOk r \<and> rvGeneration r = bGeneration (bwBudget w)"
    if "r \<in> set (map (newReservation (bwBudget w) False) costs)" for r
    using that costSums_laws [OF s] by (auto simp: costOk_def)
  show "worldOk w'" "conserves k w w'"
    using laws [OF rs] u fits costSums_laws [OF s] unfolding w'_def by (auto simp: price_of_costs)
qed

subsection \<open>Attempt, settlement and return\<close>

lemma putRes_simps [simp]:
  "bwBudget (putRes i rb w) = snd rb" "bwRes (putRes i rb w) = (bwRes w)[i := fst rb]"
  by (simp_all add: putRes_def)

lemma putRes_same [simp]: "putRes i (bwRes w ! i, bwBudget w) w = w"
  by (cases w) (simp add: putRes_def)

text \<open>
  One reservation changes: the invariant needs its share of the holds, of the window and of the
  count of waiting requests to change with the budget.
\<close>

lemma update_laws:
  fixes r :: requestReservation and b :: requestBudget
  assumes w: "worldOk w" and i: "i < length (bwRes w)"
    and lim: "bLimit b = bLimit (bwBudget w)" "bOrdinaryLimit b = bOrdinaryLimit (bwBudget w)"
      "bGeneration b = bGeneration (bwBudget w)"
    and cost: "rvCost r = rvCost (bwRes w ! i)" "rvGeneration r \<le> bGeneration b"
    and un: "bUnattempted b = bUnattempted (bwBudget w) - of_bool (waiting (bwRes w ! i)) + of_bool (waiting r)"
    and used: "bUsed b = bUsed (bwBudget w) - of_bool (inWindow (bGeneration b) (bwRes w ! i))
                 + of_bool (inWindow (bGeneration b) r)" "bUsed b \<le> bUsed (bwBudget w)"
    and last: "\<And>k. lastOf k b = lastOf k (bwBudget w)"
    and held: "\<And>k. heldOf k b = heldOf k (bwBudget w)
                 - (if waiting (bwRes w ! i) \<and> \<not> waiting r then unitOf k * priceOf k r else 0)"
    and nw: "waiting r \<longrightarrow> waiting (bwRes w ! i)"
    and fl: "\<And>k. creditsOf k (bwBudget w) \<le> creditsOf k b"
    and cap: "\<And>k. creditsOf k b + heldOf k b + unitOf k * (if spends k r then priceOf k r else 0)
                 \<le> creditsOf k (bwBudget w) + heldOf k (bwBudget w)
                   + unitOf k * (if spends k (bwRes w ! i) then priceOf k r else 0)"
             "\<And>k. creditsOf k b + heldOf k b \<le> burstOf k * unitOf k"
  shows "worldOk (putRes i (r, b) w)" "conserves k w (putRes i (r, b) w)"
proof -
  note ok = worldOk_fields [OF w]
  let ?r = "bwRes w ! i"
  have p: "priceOf j ?r = priceOf j r" for j using cost(1) by (simp add: priceOf_def)
  have mem: "?r \<in> set (bwRes w)" using i by simp
  have "costOk r" using ok(6) [OF mem] cost(1) by (simp add: costOk_def)
  then have "\<forall>x\<in>set ((bwRes w)[i := r]). costOk x \<and> rvGeneration x \<le> bGeneration b"
    using ok(6) cost(2) lim(3) set_update_subset_insert [of "bwRes w" i r] by auto
  then have "windowOk (putRes i (r, b) w)"
    using ok(1-5) lim un used by (auto simp: windowOk_def sumWhere_update [OF i])
  moreover have "allowanceOk j (putRes i (r, b) w)" for j
    using ok(7-10) [of j] last [of j] held [of j] fl [of j] cap(2) [of j] nw
    by (auto simp: allowanceOk_def sumWhere_update [OF i] p right_diff_distrib)
  ultimately show "worldOk (putRes i (r, b) w)" by (rule worldOkI)
  show "conserves k w (putRes i (r, b) w)"
    using last [of k] cap(1) [of k]
    by (simp add: conserves_def leftOf_def spentOf_def sumWhere_update [OF i] p algebra_simps split: if_splits)
qed

lemma dropHold_fields [simp]:
  "bLimit (dropHold c b) = bLimit b" "bOrdinaryLimit (dropHold c b) = bOrdinaryLimit b"
  "bUsed (dropHold c b) = bUsed b" "bUnattempted (dropHold c b) = bUnattempted b"
  "bGeneration (dropHold c b) = bGeneration b" "bReportEpoch (dropHold c b) = bReportEpoch b"
  by (simp_all add: dropHold_def)

lemma waiting_counted:
  assumes w: "worldOk w" and i: "i < length (bwRes w)" and r: "waiting (bwRes w ! i)"
  shows "1 \<le> bUnattempted (bwBudget w)" "unitOf k * priceOf k (bwRes w ! i) \<le> heldOf k (bwBudget w)"
proof -
  note ok = worldOk_fields [OF w]
  show "1 \<le> bUnattempted (bwBudget w)"
    using sumWhere_member [of i "bwRes w" waiting "\<lambda>_. 1"] i r ok(3) by simp
  have "priceOf k (bwRes w ! i) \<le> sumWhere waiting (priceOf k) (bwRes w)"
    by (rule sumWhere_member [of i "bwRes w" waiting "priceOf k"]) (use i r in simp_all, use ok(6) price_nonneg in blast)
  then show "unitOf k * priceOf k (bwRes w ! i) \<le> heldOf k (bwBudget w)"
    using ok(10) [of k] by simp
qed

text \<open>Attempting a reservation that nothing ran for never panics, and spends its hold.\<close>

lemma attempt_laws:
  assumes w: "worldOk w" and i: "i < length (bwRes w)" and n: "rvOnce (bwRes w ! i) = NotRun"
  obtains r b where "markAttemptedLocked (bwRes w ! i) (bwBudget w) = Some (r, b)"
    and "worldOk (putRes i (r, b) w)" and "\<And>k. conserves k w (putRes i (r, b) w)"
    and "rvAttempted r" and "rvOnce r = NotRun" and "rvCost r = rvCost (bwRes w ! i)"
    and "\<And>k. creditsOf k b = creditsOf k (bwBudget w)"
proof (cases "rvAttempted (bwRes w ! i)")
  case True
  show thesis
    by (rule that [of "bwRes w ! i" "bwBudget w"])
      (use True w n in \<open>simp_all add: markAttemptedLocked_def conserves_def\<close>)
next
  case False
  let ?r = "bwRes w ! i" and ?b = "bwBudget w"
  have wr: "waiting ?r" using False n by (simp add: waiting_def)
  note ok = worldOk_fields [OF w] and c = waiting_counted [OF w i wr]
  define b1 where "b1 = dropHold (rvCost ?r) (?b\<lparr>bUnattempted := bUnattempted ?b - 1\<rparr>)"
  define r where "r = ?r\<lparr>rvAttempted := True, rvGeneration := bGeneration b1, rvReportEpoch := bReportEpoch b1\<rparr>"
  define b where "b = b1\<lparr>bPendingCount := bPendingCount b1 + 1\<rparr>"
  have h: "heldOf k b1 = heldOf k ?b - unitOf k * priceOf k ?r" for k
    by (simp add: b1_def priceOf_def)
  have "0 \<le> heldOf k b1" for k using c(2) [of k] by (simp add: h)
  from this [of Primary] this [of Secondary] this [of ContentMinute] this [of ContentHour]
  have mark: "markAttemptedLocked ?r ?b = Some (r, b)"
    using False c(1) by (simp add: markAttemptedLocked_def Let_def b1_def r_def b_def not_less)
  have p: "priceOf k r = priceOf k ?r" for k by (simp add: r_def priceOf_def)
  have f: "bUsed b = bUsed ?b" "bGeneration b = bGeneration ?b" "rvGeneration r = bGeneration ?b"
    "bUnattempted b = bUnattempted ?b - 1" "\<not> waiting r" "inWindow (bGeneration ?b) r" "inWindow g ?r"
    "spends k r" "\<not> spends k ?r" for k g
    using wr n by (auto simp: b_def b1_def r_def waiting_def inWindow_def billable_def spends_def)
  have b: "creditsOf k b = creditsOf k ?b" "lastOf k b = lastOf k ?b"
    "heldOf k b = heldOf k ?b - unitOf k * priceOf k ?r" for k
    by (simp_all add: b_def h) (simp_all add: b1_def)
  have lim: "bLimit b = bLimit ?b" "bOrdinaryLimit b = bOrdinaryLimit ?b" "rvCost r = rvCost ?r"
    by (simp_all add: b_def b1_def r_def)
  have cap: "creditsOf k ?b + (heldOf k ?b - unitOf k * priceOf k ?r) \<le> burstOf k * unitOf k" for k
  proof -
    have "0 \<le> unitOf k * priceOf k ?r"
      using ok(6) i by (intro mult_nonneg_nonneg less_imp_le [OF unit_pos(1)] price_nonneg) simp
    then show ?thesis using ok(9) [of k] by linarith
  qed
  have laws: "worldOk (putRes i (r, b) w) \<and> conserves k w (putRes i (r, b) w)" for k
    by (intro conjI; rule update_laws [OF w i]) (use cap in \<open>simp_all add: f b wr p lim\<close>)
  show thesis
    by (rule that [OF mark]) (use n laws in \<open>simp_all add: r_def b\<close>)
qed

lemma refund_fields [simp]:
  "bLimit (refundPrimaryLocked g b) = bLimit b" "bOrdinaryLimit (refundPrimaryLocked g b) = bOrdinaryLimit b"
  "bGeneration (refundPrimaryLocked g b) = bGeneration b" "bUnattempted (refundPrimaryLocked g b) = bUnattempted b"
  "bUsed (refundPrimaryLocked g b) = (if g = bGeneration b \<and> bUsed b > 0 then bUsed b - 1 else bUsed b)"
  "bLimit (refundSecondaryLocked p b) = bLimit b" "bOrdinaryLimit (refundSecondaryLocked p b) = bOrdinaryLimit b"
  "bGeneration (refundSecondaryLocked p b) = bGeneration b" "bUnattempted (refundSecondaryLocked p b) = bUnattempted b"
  "bUsed (refundSecondaryLocked p b) = bUsed b"
  "bLimit (refundContentLocked c b) = bLimit b" "bOrdinaryLimit (refundContentLocked c b) = bOrdinaryLimit b"
  "bGeneration (refundContentLocked c b) = bGeneration b" "bUnattempted (refundContentLocked c b) = bUnattempted b"
  "bUsed (refundContentLocked c b) = bUsed b"
  by (simp_all add: refundPrimaryLocked_def refundSecondaryLocked_def refundContentLocked_def)

lemma window_counted:
  assumes "worldOk w" "i < length (bwRes w)" "inWindow (bGeneration (bwBudget w)) (bwRes w ! i)"
  shows "1 \<le> bUsed (bwBudget w)"
  using sumWhere_member [of i "bwRes w" "inWindow (bGeneration (bwBudget w))" "\<lambda>_. 1"] assms
  by (simp add: worldOk_fields(4))

text \<open>The settlement of an attempted reservation: a free answer returns the primary unit.\<close>

lemma settled_laws:
  fixes b :: requestBudget
  assumes w: "worldOk w" and i: "i < length (bwRes w)"
    and r: "rvAttempted (bwRes w ! i)" "rvOnce (bwRes w ! i) = NotRun"
    and b: "sameFunds (bwBudget w) b0"
      "sameFunds (if billed then b0 else refundPrimaryLocked (rvGeneration (bwRes w ! i)) b0) b"
  defines "r' \<equiv> (bwRes w ! i)\<lparr>rvOnce := RanSettle billed\<rparr>"
  shows "worldOk (putRes i (r', b) w)" "conserves k w (putRes i (r', b) w)"
proof -
  let ?r = "bwRes w ! i" and ?b = "bwBudget w"
  note ok = worldOk_fields [OF w]
  have g: "rvGeneration ?r \<le> bGeneration ?b" using ok(6) i by simp
  have f: "\<not> waiting ?r" "\<not> waiting r'" "spends k ?r" "spends k r' \<longleftrightarrow> k \<noteq> Primary \<or> billed"
    "inWindow g ?r \<longleftrightarrow> rvGeneration ?r = g" "inWindow g r' \<longleftrightarrow> billed \<and> rvGeneration ?r = g"
    "rvCost r' = rvCost ?r" "rvGeneration r' = rvGeneration ?r" "priceOf k r' = priceOf k ?r" for k g
    using r by (auto simp: r'_def waiting_def spends_def billable_def inWindow_def priceOf_def)
  have used: "rvGeneration ?r = bGeneration ?b \<Longrightarrow> 1 \<le> bUsed ?b"
    using window_counted [OF w i] f(5) by simp
  have s: "bLimit b = bLimit ?b" "bOrdinaryLimit b = bOrdinaryLimit ?b" "bGeneration b = bGeneration ?b"
    "bUnattempted b = bUnattempted ?b"
    "bUsed b = (if \<not> billed \<and> rvGeneration ?r = bGeneration ?b \<and> bUsed ?b > 0 then bUsed ?b - 1 else bUsed ?b)"
    "heldOf k b = heldOf k ?b" "lastOf k b = lastOf k ?b"
    "creditsOf k b = (if \<not> billed \<and> k = Primary then min (creditsOf k ?b + unitOf k) (burstOf k * unitOf k - heldOf k ?b)
       else creditsOf k ?b)" for k
    using b ok(1) by (auto simp: sameFunds_def
      simp del: creditsOf.simps heldOf.simps lastOf.simps unitOf.simps burstOf.simps)
  have pr: "priceOf Primary ?r = 1" by (simp add: priceOf_def)
  have fl: "creditsOf k ?b \<le> creditsOf k b" for k
    using ok(9) [of k] unit_pos(1) [of k]
    by (auto simp: s(8) simp del: creditsOf.simps heldOf.simps unitOf.simps burstOf.simps unit_pos)
  have cap: "creditsOf k b + heldOf k b \<le> burstOf k * unitOf k" for k
    using ok(9) [of k] by (auto simp: s(6,8) simp del: creditsOf.simps heldOf.simps unitOf.simps burstOf.simps)
  have sp: "creditsOf k b + heldOf k b + unitOf k * (if spends k r' then priceOf k r' else 0)
      \<le> creditsOf k ?b + heldOf k ?b + unitOf k * (if spends k ?r then priceOf k r' else 0)" for k
    using pr by (auto simp: s(6,8) f simp del: creditsOf.simps heldOf.simps unitOf.simps burstOf.simps)
  have u: "bUsed b = bUsed ?b - of_bool (\<not> billed \<and> rvGeneration ?r = bGeneration ?b)"
    using used by (auto simp: s(5))
  have "worldOk (putRes i (r', b) w) \<and> conserves j w (putRes i (r', b) w)" for j
    by (intro conjI; rule update_laws [OF w i]) (use fl cap sp g in \<open>auto simp: s(1-4,6,7) u f\<close>)
  then show "worldOk (putRes i (r', b) w)" "conserves k w (putRes i (r', b) w)" by simp_all
qed

lemma settle_laws:
  fixes now :: time
  assumes w: "worldOk w" and i: "i < length (bwRes w)" and n: "rvOnce (bwRes w ! i) = NotRun"
  obtains r b where "settle now billed (bwRes w ! i) (bwBudget w) = Some (r, b)"
    and "worldOk (putRes i (r, b) w)" and "\<And>k. conserves k (refillWorld now w) (putRes i (r, b) w)"
    and "rvOnce r = RanSettle billed"
proof -
  let ?w = "refillWorld now w"
  have w0: "worldOk ?w" using w by (rule refill_laws)
  have w0s: "bwRes ?w = bwRes w" "bwBudget ?w = refillLocked now (bwBudget w)" by (simp_all add: refillWorld_def)
  obtain r1 b1 where m: "markAttemptedLocked (bwRes w ! i) (refillLocked now (bwBudget w)) = Some (r1, b1)"
    and w1: "worldOk (putRes i (r1, b1) ?w)" and c1: "\<And>k. conserves k ?w (putRes i (r1, b1) ?w)"
    and a: "rvAttempted r1" "rvOnce r1 = NotRun"
    by (rule attempt_laws [OF w0, of i]) (use i n w0s in auto)
  let ?w1 = "putRes i (r1, b1) ?w"
  define late where "late \<longleftrightarrow> rvReportEpoch r1 \<noteq> bReportEpoch b1"
  define b2 where "b2 = (if \<not> late \<and> bPendingCount b1 > 0 then b1\<lparr>bPendingCount := bPendingCount b1 - 1\<rparr> else b1)"
  define b3 where "b3 = b2\<lparr>bReport := reportOutcome billed late (bReport b2)\<rparr>"
  define b4 where "b4 = (if billed then b3 else refundPrimaryLocked (rvGeneration r1) b3)"
  define b5 where "b5 = (if rvBorrowed r1 then b4\<lparr>bBorrowed := False\<rparr> else b4)"
  define r where "r = r1\<lparr>rvOnce := RanSettle billed\<rparr>"
  have st: "settle now billed (bwRes w ! i) (bwBudget w) = Some (r, b5)"
    using n m by (simp add: settle_def Let_def late_def b2_def b3_def b4_def b5_def r_def)
  have s: "sameFunds (bwBudget ?w1) b3" "sameFunds (if billed then b3 else refundPrimaryLocked (rvGeneration (bwRes ?w1 ! i)) b3) b5"
    using i w0s by (simp_all add: sameFunds_def b2_def b3_def b5_def b4_def)
  have laws: "worldOk (putRes i (r, b5) ?w1)" "conserves k ?w1 (putRes i (r, b5) ?w1)" for k
    using settled_laws [OF w1, of i b3 billed b5] i w0s a s by (simp_all add: r_def)
  have e: "putRes i (r, b5) ?w1 = putRes i (r, b5) w" by (simp add: putRes_def w0s)
  show thesis
    by (rule that [OF st]) (use laws c1 e in \<open>auto simp: conserves_def r_def intro: order_trans\<close>)
qed

text \<open>A return of what was never attempted gives back the whole price.\<close>

lemma release_laws:
  fixes now :: time
  assumes w: "worldOk w" and i: "i < length (bwRes w)" and wr: "waiting (bwRes w ! i)"
  defines "rb \<equiv> releaseUnused now (bwRes w ! i) (bwBudget w)"
  shows "worldOk (putRes i rb w)" "conserves k (refillWorld now w) (putRes i rb w)" "rvOnce (fst rb) = RanRelease"
proof -
  let ?w = "refillWorld now w" and ?r = "bwRes w ! i"
  have w0: "worldOk ?w" using w by (rule refill_laws)
  have w0s: "bwRes ?w = bwRes w" "bwBudget ?w = refillLocked now (bwBudget w)" by (simp_all add: refillWorld_def)
  let ?b = "bwBudget ?w"
  note ok = worldOk_fields [OF w0]
  define r where "r = ?r\<lparr>rvGeneration := bGeneration ?b, rvOnce := RanRelease\<rparr>"
  define b1 where "b1 = dropHold (rvCost ?r) (?b\<lparr>bUnattempted := bUnattempted ?b - 1\<rparr>)"
  define b2 where "b2 = refundContentLocked (rcContent (rvCost ?r))
    (refundSecondaryLocked (rcPoints (rvCost ?r)) (refundPrimaryLocked (bGeneration ?b) b1))"
  define b where "b = (if rvBorrowed ?r then b2\<lparr>bBorrowed := False\<rparr> else b2)"
  have rb: "rb = (r, b)"
    using wr by (simp add: rb_def releaseUnused_def waiting_def Let_def r_def b_def b1_def b2_def w0s)
  have f: "\<not> waiting r" "\<not> spends k ?r" "\<not> spends k r" "inWindow g ?r" "\<not> inWindow g r"
    "rvCost r = rvCost ?r" "rvGeneration r = bGeneration ?b" "priceOf k r = priceOf k ?r" for k g
    using wr by (auto simp: r_def waiting_def spends_def billable_def inWindow_def priceOf_def)
  have used: "1 \<le> bUsed ?b" using window_counted [OF w0] i f(4) by (simp add: w0s)
  have p0: "0 \<le> unitOf k * priceOf k ?r" for k
    using ok(6) i by (intro mult_nonneg_nonneg less_imp_le [OF unit_pos(1)] price_nonneg) (simp add: w0s)
  have s: "bLimit b = bLimit ?b" "bOrdinaryLimit b = bOrdinaryLimit ?b" "bGeneration b = bGeneration ?b"
    "bUnattempted b = bUnattempted ?b - 1" "bUsed b = bUsed ?b - 1" "lastOf k b = lastOf k ?b"
    "heldOf k b = heldOf k ?b - unitOf k * priceOf k ?r"
    "creditsOf k b = min (creditsOf k ?b + unitOf k * priceOf k ?r) (burstOf k * unitOf k - heldOf k b)" for k
    using used ok(1) by (simp_all add: b_def b2_def b1_def priceOf_def)
  have fl: "creditsOf k ?b \<le> creditsOf k b" for k using ok(9) [of k] p0 [of k] unfolding s(7,8) by simp
  have cap: "creditsOf k b + heldOf k b \<le> burstOf k * unitOf k"
    "creditsOf k b + heldOf k b \<le> creditsOf k ?b + heldOf k ?b" for k unfolding s(7,8) by simp_all
  have "worldOk (putRes i (r, b) ?w) \<and> conserves j ?w (putRes i (r, b) ?w)" for j
    by (intro conjI; rule update_laws [OF w0]) (use i wr used fl cap in \<open>simp_all add: w0s(1) s(1-7) f\<close>)
  moreover have "putRes i (r, b) ?w = putRes i (r, b) w" by (simp add: putRes_def w0s)
  ultimately show "worldOk (putRes i rb w)" "conserves k ?w (putRes i rb w)" "rvOnce (fst rb) = RanRelease"
    by (simp_all add: rb r_def)
qed

subsection \<open>Every step\<close>

text \<open>
  What a step may do to an allowance: the refill is capped, pays at most the rate for the
  time it moves the refill clock, and a step that does not move the clock past its own
  reading changes nothing.
\<close>

definition allowanceStep :: "allowance \<Rightarrow> time \<Rightarrow> budgetWorld \<Rightarrow> budgetWorld \<Rightarrow> bool" where
  "allowanceStep k now w w' \<longleftrightarrow>
     lastOf k (bwBudget w) \<le> lastOf k (bwBudget w')
     \<and> lastOf k (bwBudget w') \<le> max (lastOf k (bwBudget w)) now
     \<and> leftOf k w' + unitOf k * spentOf k w' \<le> leftOf k w + unitOf k * spentOf k w
         + rateOf k * (lastOf k (bwBudget w') - lastOf k (bwBudget w))
     \<and> leftOf k w' + unitOf k * spentOf k w' \<le> burstOf k * unitOf k + unitOf k * spentOf k w
     \<and> (now \<le> lastOf k (bwBudget w') \<or> spentOf k w' = spentOf k w)"

lemma allowanceStep_refl: "worldOk w \<Longrightarrow> allowanceStep k now w w"
  using worldOk_fields(9) [of w k] by (simp add: allowanceStep_def leftOf_def)

lemma allowanceStep_refill:
  assumes "worldOk w" and "conserves k (refillWorld now w) w'"
  shows "allowanceStep k now w w'"
proof -
  have "leftOf k (refillWorld now w) \<le> burstOf k * unitOf k"
    using worldOk_fields(9) [OF refill_laws(1) [OF assms(1)]] by (simp add: leftOf_def)
  then show ?thesis
    using refill_laws(2-6) [OF assms(1), where k = k and now = now] assms(2)
    by (auto simp: allowanceStep_def conserves_def)
qed

lemma allowanceStep_conserves:
  "conserves k w w1 \<Longrightarrow> spentOf k w1 = spentOf k w \<Longrightarrow> allowanceStep k now w1 w' \<Longrightarrow> allowanceStep k now w w'"
  by (auto simp: allowanceStep_def conserves_def)

lemma conserves_trans: "conserves k w w1 \<Longrightarrow> conserves k w1 w2 \<Longrightarrow> conserves k w w2"
  by (auto simp: conserves_def)

lemma roll_laws:
  fixes now :: time
  assumes "worldOk w"
  defines "w' \<equiv> w\<lparr>bwBudget := rollIfStaleLocked now (bwBudget w)\<rparr>"
  shows "worldOk w'" "conserves k w w'" "spentOf k w' = spentOf k w"
  using open_laws [OF assms(1)] assms(1)
  by (auto simp: w'_def rollIfStaleLocked_def spentOf_def conserves_def leftOf_def)

text \<open>Admission and leases first roll a stale window and refill.\<close>

lemma admission_laws:
  fixes now :: time
  assumes w: "worldOk w"
  defines "w1 \<equiv> refillWorld now (w\<lparr>bwBudget := rollIfStaleLocked now (bwBudget w)\<rparr>)"
  assumes w': "worldOk w'" and c: "\<And>k. conserves k w1 w'"
  shows "worldOk w' \<and> allowanceStep k now w w'"
proof -
  have "allowanceStep k now (w\<lparr>bwBudget := rollIfStaleLocked now (bwBudget w)\<rparr>) w'"
    using c unfolding w1_def by (rule allowanceStep_refill [OF roll_laws(1) [OF w]])
  then show ?thesis
    using w' allowanceStep_conserves [OF roll_laws(2) [OF w] roll_laws(3) [OF w]] by blast
qed

lemma acquire_step:
  assumes w: "worldOk w" and s: "stepOp (OpAcquire now conditional refusable wait cost preserveClaim deferred) w = Some w'"
  shows "worldOk w' \<and> allowanceStep k now w w'"
proof -
  define w1 where "w1 = refillWorld now (w\<lparr>bwBudget := rollIfStaleLocked now (bwBudget w)\<rparr>)"
  have w1: "worldOk w1" unfolding w1_def by (intro refill_laws roll_laws w)
  have b1: "refillLocked now (rollIfStaleLocked now (bwBudget w)) = bwBudget w1" and r1: "bwRes w = bwRes w1"
    by (simp_all add: w1_def refillWorld_def)
  have up: "w\<lparr>bwBudget := b\<rparr> = w1\<lparr>bwBudget := b\<rparr>" for b by (simp add: w1_def refillWorld_def)
  have "worldOk w' \<and> conserves j w1 w'" for j
  proof (cases "reserveOneWithCostLocked conditional cost preserveClaim (bwBudget w1)")
    case None
    then have "w' = w1\<lparr>bwBudget := bwBudget w'\<rparr> \<and> sameFunds (bwBudget w1) (bwBudget w')"
      using s by (auto simp: acquireCostTurn_def b1 Let_def up sameFunds_def split: if_splits)
    then show ?thesis using sameFunds_laws [OF w1] by metis
  next
    case (Some rb)
    then show ?thesis
      using s reserve_laws [OF w1] by (cases rb) (auto simp: acquireCostTurn_def b1 r1)
  qed
  then show ?thesis using admission_laws [OF w, of w' now k] unfolding w1_def by blast
qed

lemma lease_step:
  assumes w: "worldOk w" and s: "stepOp (OpLease now costs) w = Some w'"
  shows "worldOk w' \<and> allowanceStep k now w w'"
proof -
  define w1 where "w1 = refillWorld now (w\<lparr>bwBudget := rollIfStaleLocked now (bwBudget w)\<rparr>)"
  have w1: "worldOk w1" unfolding w1_def by (intro refill_laws roll_laws w)
  have b1: "refillLocked now (rollIfStaleLocked now (bwBudget w)) = bwBudget w1" and r1: "bwRes w = bwRes w1"
    by (simp_all add: w1_def refillWorld_def)
  have up: "w\<lparr>bwBudget := b\<rparr> = w1\<lparr>bwBudget := b\<rparr>" for b by (simp add: w1_def refillWorld_def)
  have ref: "worldOk (w1\<lparr>bwBudget := refuse (bwBudget w1)\<rparr>) \<and> conserves j w1 (w1\<lparr>bwBudget := refuse (bwBudget w1)\<rparr>)" for j
    using sameFunds_laws [OF w1, of "refuse (bwBudget w1)"] by (simp add: sameFunds_def refuse_def)
  have "worldOk w' \<and> conserves j w1 w'" for j
  proof (cases "costSums costs 0 0")
    case None
    then show ?thesis using s ref by (auto simp: reserveLease_def b1 Let_def up)
  next
    case (Some pc)
    then obtain points content where pc: "costSums costs 0 0 = Some (points, content)" by (cases pc) simp
    show ?thesis
      using s ref [of j] lease_laws [OF w1 _ pc]
      by (auto simp: reserveLease_def b1 r1 Let_def up pc split: if_splits)
  qed
  then show ?thesis using admission_laws [OF w, of w' now k] unfolding w1_def by blast
qed

lemma attempt_step:
  assumes w: "worldOk w" and s: "stepOp (OpAttempt now i) w = Some w'"
  shows "worldOk w' \<and> allowanceStep k now w w'"
proof -
  let ?w = "refillWorld now w"
  have w0: "worldOk ?w" using w by (rule refill_laws)
  have w0s: "bwRes ?w = bwRes w" "bwBudget ?w = refillLocked now (bwBudget w)" by (simp_all add: refillWorld_def)
  have i: "i < length (bwRes ?w)" "rvOnce (bwRes ?w ! i) = NotRun"
    using s by (auto simp: w0s split: if_splits)
  obtain r b where m: "markAttemptedLocked (bwRes w ! i) (refillLocked now (bwBudget w)) = Some (r, b)"
    and l: "worldOk (putRes i (r, b) ?w)" "\<And>k. conserves k ?w (putRes i (r, b) ?w)"
    using attempt_laws [OF w0 i] w0s by metis
  have "w' = putRes i (r, b) w" using s m by (auto simp: markAttempted_def split: if_splits)
  moreover have "putRes i (r, b) w = putRes i (r, b) ?w" by (simp add: putRes_def w0s)
  ultimately show ?thesis using l allowanceStep_refill [OF w] by simp
qed

lemma step_laws:
  assumes w: "worldOk w" and s: "stepOp op w = Some w'"
  shows "worldOk w' \<and> allowanceStep k (opClock op) w w'"
proof (cases op)
  case (OpSettle now i billed)
  show ?thesis
  proof (cases "rvOnce (bwRes w ! i) = NotRun")
    case True
    have "i < length (bwRes w)" using s OpSettle by (simp split: if_splits)
    then show ?thesis
      using settle_laws [OF w _ True, of now billed] s OpSettle allowanceStep_refill [OF w]
      by (metis (no_types, lifting) opClock.simps(4) option.inject option.simps(9) stepOp.simps(4))
  next
    case False
    then show ?thesis
      using s OpSettle w allowanceStep_refl [OF w] by (auto simp: settle_def split: if_splits)
  qed
next
  case (OpRelease now i)
  show ?thesis
  proof (cases "rvOnce (bwRes w ! i) = NotRun")
    case True
    then have "i < length (bwRes w)" "waiting (bwRes w ! i)"
      "w' = putRes i (releaseUnused now (bwRes w ! i) (bwBudget w)) w"
      using s OpRelease by (auto simp: waiting_def split: if_splits)
    then show ?thesis
      using release_laws [OF w] allowanceStep_refill [OF w] OpRelease by simp
  next
    case False
    then show ?thesis
      using s OpRelease w allowanceStep_refl [OF w] by (auto simp: releaseUnused_def split: if_splits)
  qed
next
  case (OpTick now interval)
  let ?w = "refillWorld now w"
  define b where "b = (bwBudget ?w)\<lparr>bReport := zeroReport, bPendingCount := 0,
    bReportEpoch := bReportEpoch (bwBudget ?w) + 1, bCeiling := (if interval \<le> 0 then defaultBudgetWindow else interval)\<rparr>"
  have w0: "worldOk ?w" using w by (rule refill_laws)
  have sf: "sameFunds (bwBudget ?w) b" by (simp add: b_def sameFunds_def)
  note l1 = sameFunds_laws [OF w0 sf] and l2 = open_laws [OF sameFunds_laws(1) [OF w0 sf]]
  have "w' = (?w\<lparr>bwBudget := b\<rparr>)\<lparr>bwBudget := openLocked now (bwBudget (?w\<lparr>bwBudget := b\<rparr>))\<rparr>"
    using s OpTick by (simp add: beginTick_def Let_def b_def refillWorld_def)
  then show ?thesis
    using l1 l2 allowanceStep_refill [OF w conserves_trans [OF l1(2) l2(2)]] OpTick by simp
next
  case (OpAcquire now conditional refusable wait cost preserveClaim deferred)
  show ?thesis using acquire_step [OF w] s unfolding OpAcquire opClock.simps by blast
next
  case (OpLease now costs)
  show ?thesis using lease_step [OF w] s unfolding OpLease opClock.simps by blast
next
  case (OpAttempt now i)
  show ?thesis using attempt_step [OF w] s unfolding OpAttempt opClock.simps by blast
qed

end
