(* ===== verification/TrackerRate.thy ===== *)
theory TrackerRate
  imports TrackerBudget
begin

text \<open>
  What the request budget of \<open>TrackerBudget\<close> promises: the limits that GitHub publishes hold
  over every window of the clock, whatever the order of the requests and however the clock
  jumps, and a request that has to wait is admitted after the time it was told to wait.
\<close>

section \<open>A rolling allowance\<close>

text \<open>
  The contract of one allowance, over any steps: what is left stays between a floor and a
  capacity, a step moves the refill clock forward to its own reading at most, pays the rate
  for that move, and spends only if it moved the clock to its reading or the clock is there.
\<close>

locale rolling_allowance =
  fixes ok :: "'w \<Rightarrow> bool" and step :: "'o \<Rightarrow> 'w \<Rightarrow> 'w option" and run :: "'o list \<Rightarrow> 'w \<Rightarrow> 'w option"
    and clock :: "'o \<Rightarrow> int" and remaining spent upto :: "'w \<Rightarrow> int"
    and capacity lowest rate price :: int
  assumes run_Nil: "run [] w = Some w"
    and run_Cons: "run (x # xs) w = (case step x w of None \<Rightarrow> None | Some w' \<Rightarrow> run xs w')"
    and rate_nonneg: "0 \<le> rate"
    and step_ok: "ok w \<Longrightarrow> step x w = Some w' \<Longrightarrow> ok w'"
    and lowest: "ok w \<Longrightarrow> lowest \<le> remaining w"
    and step_clock: "ok w \<Longrightarrow> step x w = Some w' \<Longrightarrow> upto w \<le> upto w' \<and> upto w' \<le> max (upto w) (clock x)"
    and step_rate: "ok w \<Longrightarrow> step x w = Some w' \<Longrightarrow>
      remaining w' + price * spent w' \<le> remaining w + price * spent w + rate * (upto w' - upto w)"
    and step_capacity: "ok w \<Longrightarrow> step x w = Some w' \<Longrightarrow> remaining w' + price * spent w' \<le> capacity + price * spent w"
    and step_spends: "ok w \<Longrightarrow> step x w = Some w' \<Longrightarrow> clock x \<le> upto w' \<or> spent w' = spent w"
begin

lemma run_rate:
  assumes "ok w" "run xs w = Some w'" "\<forall>x\<in>set xs. clock x \<le> until"
  shows "ok w' \<and> upto w \<le> upto w' \<and> upto w' \<le> max (upto w) until
    \<and> remaining w' + price * spent w' \<le> remaining w + price * spent w + rate * (upto w' - upto w)"
  using assms
proof (induction xs arbitrary: w)
  case Nil
  then show ?case by (simp add: run_Nil)
next
  case (Cons x xs)
  then obtain w1 where s: "step x w = Some w1" and r: "run xs w1 = Some w'"
    by (auto simp: run_Cons split: option.splits)
  note c = step_clock [OF Cons.prems(1) s] and p = step_rate [OF Cons.prems(1) s]
    and ih = Cons.IH [OF step_ok [OF Cons.prems(1) s] r]
  have "clock x \<le> until" using Cons.prems(3) by simp
  moreover have "rate * (upto w' - upto w1) + rate * (upto w1 - upto w) = rate * (upto w' - upto w)"
    by (simp add: algebra_simps)
  ultimately show ?case using c p ih Cons.prems(3) by auto
qed

text \<open>Over any window, the spending is at most the capacity and the rate for its length.\<close>

lemma window_bound:
  assumes "ok w" "run xs w = Some w'" "\<forall>x\<in>set xs. from \<le> clock x \<and> clock x \<le> from + d" "0 \<le> d"
  shows "price * (spent w' - spent w) \<le> capacity - lowest + rate * d \<or> spent w' = spent w"
  using assms
proof (induction xs arbitrary: w)
  case Nil
  then show ?case by (simp add: run_Nil)
next
  case (Cons x xs)
  then obtain w1 where s: "step x w = Some w1" and r: "run xs w1 = Some w'"
    by (auto simp: run_Cons split: option.splits)
  have w1: "ok w1" by (rule step_ok [OF Cons.prems(1) s])
  show ?case
  proof (cases "clock x \<le> upto w1")
    case False
    then have "spent w1 = spent w" using step_spends [OF Cons.prems(1) s] by simp
    then show ?thesis using Cons.IH [OF w1 r] Cons.prems(3,4) by simp
  next
    case True
    then have f: "from \<le> upto w1" using Cons.prems(3) by force
    have c: "remaining w1 + price * spent w1 \<le> capacity + price * spent w"
      by (rule step_capacity [OF Cons.prems(1) s])
    have rr: "ok w'" "upto w' \<le> max (upto w1) (from + d)"
      "remaining w' + price * spent w' \<le> remaining w1 + price * spent w1 + rate * (upto w' - upto w1)"
      using run_rate [OF w1 r, of "from + d"] Cons.prems(3) by auto
    have "rate * (upto w' - upto w1) \<le> rate * d"
      using rr(2) f Cons.prems(4) rate_nonneg by (intro mult_left_mono) auto
    then show ?thesis using c rr(3) lowest [OF rr(1)] by (simp add: right_diff_distrib)
  qed
qed

end

interpretation bucket: rolling_allowance worldOk stepOp runOps opClock "leftOf k" "spentOf k"
  "\<lambda>w. lastOf k (bwBudget w)" "burstOf k * unitOf k" "floorOf k" "rateOf k" "unitOf k" for k
proof unfold_locales
  show "worldOk w \<Longrightarrow> floorOf k \<le> leftOf k w" for w
    using worldOk_fields(8) [of w k] held_nonneg [of w k] by (simp add: leftOf_def)
qed (use step_laws in \<open>auto simp: allowanceStep_def less_imp_le split: option.splits\<close>)

section \<open>The published limits\<close>

lemma reachable_ok:
  assumes "zeroTime < started" "runOps ops (initWorld started) = Some w"
  shows "worldOk w"
  using bucket.run_rate [OF initWorld_ok [OF assms(1)] assms(2), of "Max (insert 0 (opClock ` set ops))"]
  by simp



text \<open>A claim and a read at the start of a minute, and what they cost.\<close>

definition exampleOps :: "budgetOp list" where
  "exampleOps = [OpLease 0 claimLeaseCosts, OpAttempt 1000000 0, OpSettle 2000000 0 True,
     OpAcquire 3000000 True False False readRequestCost False False,
     OpAttempt 3000000 3, OpTick 3500000 1000000000, OpSettle 4000000 3 False,
     OpAttempt 5000000 1, OpSettle 6000000 1 True, OpRelease 7000000 2]"


section \<open>The primary allowance and the burst window\<close>

text \<open>
  The primary limit and the burst of a window hold. Up to a time \<open>d\<close> after the start, the
  requests that reached the network and are not known to be free number at most the burst, one
  speculative request, and the refill of 40 per thirty seconds, 4841 in the first
  hour; and the requests of the current window that are promised, in flight or billed
  never exceed 40.
\<close>

theorem primary_limit_holds:
  assumes "zeroTime < started" "runOps ops (initWorld started) = Some w"
    and "\<forall>op\<in>set ops. opClock op \<le> started + d" and "0 \<le> d"
  shows "defaultBudgetWindow * spentOf Primary w \<le> (billedPerTick + 1) * defaultBudgetWindow + billedPerTick * d
     \<and> (d = hourNanos \<longrightarrow> spentOf Primary w \<le> 4841)
     \<and> sumWhere (inWindow (bGeneration (bwBudget w))) (\<lambda>_. 1) (bwRes w) \<le> billedPerTick"
proof -
  let ?w = "initWorld started"
  have i: "leftOf Primary ?w = billedPerTick * requestCreditUnit" "spentOf Primary ?w = 0"
    "lastOf Primary (bwBudget ?w) = started"
    by (simp_all add: leftOf_def spentOf_def initWorld_def newRequestBudget_def)
  note r = bucket.run_rate [where k = Primary, OF initWorld_ok [OF assms(1)] assms(2,3)]
  have "- requestCreditUnit \<le> leftOf Primary w"
    using r bucket.lowest [of w Primary] by (simp add: floorOf_def)
  moreover have "billedPerTick * (lastOf Primary (bwBudget w) - started) \<le> billedPerTick * d"
    using r i assms(4) by (intro mult_left_mono) (auto simp: billedPerTick_def)
  ultimately have a: "defaultBudgetWindow * spentOf Primary w \<le> (billedPerTick + 1) * defaultBudgetWindow + billedPerTick * d"
    using r i by (simp add: requestCreditUnit_def algebra_simps)
  then have "d = hourNanos \<longrightarrow> spentOf Primary w \<le> 4841" by (simp add: budget_constants)
  then show ?thesis using a r worldOk_fields(4,5) [of w] by simp
qed

theorem primary_limit_holds_witness:
  "\<exists>w. runOps exampleOps (initWorld 0) = Some w \<and> spentOf Primary w = 2 \<and> spentOf Primary w \<le> 4841"
proof -
  have run: "runOps exampleOps (initWorld 0) \<noteq> None" "spentOf Primary (the (runOps exampleOps (initWorld 0))) = 2"
    by code_simp+
  then obtain w where w: "runOps exampleOps (initWorld 0) = Some w" by auto
  have "\<forall>op\<in>set exampleOps. opClock op \<le> 0 + hourNanos" by code_simp
  then have "spentOf Primary w \<le> 4841"
    using primary_limit_holds [of 0 exampleOps w hourNanos] w by (simp add: zeroTime_def hourNanos_def nanosPerSecond_def)
  then show ?thesis using w run by simp
qed

text \<open>
  The panic on negative holds is unreachable: in a reachable budget every reservation that
  nothing ran for can be attempted and settled.
\<close>

lemma attempt_never_panics:
  assumes "zeroTime < started" "runOps ops (initWorld started) = Some w"
    and "i < length (bwRes w)" "rvOnce (bwRes w ! i) = NotRun"
  shows "(\<exists>w'. stepOp (OpAttempt now i) w = Some w') \<and> (\<exists>w'. stepOp (OpSettle now i billed) w = Some w')"
proof -
  note w = reachable_ok [OF assms(1,2)]
  have r: "bwRes (refillWorld now w) = bwRes w" "bwBudget (refillWorld now w) = refillLocked now (bwBudget w)"
    by (simp_all add: refillWorld_def)
  obtain rb where "markAttemptedLocked (bwRes w ! i) (refillLocked now (bwBudget w)) = Some rb"
    using attempt_laws [OF refill_laws(1) [OF w], of i now] assms(3,4) r by metis
  moreover obtain rb' where "settle now billed (bwRes w ! i) (bwBudget w) = Some rb'"
    using settle_laws [OF w assms(3,4)] by metis
  ultimately show ?thesis using assms(3,4) by (simp add: markAttempted_def)
qed

section \<open>A wait is long enough\<close>

text \<open>What the allowance holds after the wait that its missing credit asks for.\<close>

lemma refill_reaches:
  assumes r: "refillAllowance now' since c cap rate = (l, c')" and "0 < rate" "c \<le> cap" "needed \<le> cap"
    and z: "since \<noteq> zeroTime" and small: "cap - c \<le> maxInt64"
    and wait: "c < needed \<Longrightarrow> goDiv (needed - c + rate - 1) rate \<le> now' - since"
  shows "needed \<le> c'"
proof (cases "c < needed")
  case False
  then show ?thesis using refillAllowance_laws(1) [OF r assms(2,3) z] by linarith
next
  case True
  define m where "m = (needed - c + rate - 1) div rate"
  have g: "goDiv (needed - c + rate - 1) rate = m" "goDiv (cap - c + rate - 1) rate = (cap - c + rate - 1) div rate"
    using True assms(2-4) by (simp_all add: goDiv_def m_def)
  have m: "0 < m" "m \<le> needed - c" "needed - c \<le> m * rate"
  proof -
    show a: "needed - c \<le> m * rate" unfolding m_def by (rule above_ceil [OF assms(2)]) simp
    have "0 < m * rate" using a True by linarith
    then show "0 < m" using assms(2) zero_less_mult_pos2 by blast
    have "(needed - c + rate - 1) div rate < needed - c + 1"
    proof (rule ccontr)
      assume "\<not> ?thesis"
      then have "needed - c < m" by (simp add: m_def)
      then have "(needed - c) * rate < needed - c" unfolding m_def by (rule below_ceil [OF assms(2)])
      moreover have "(needed - c) * 1 \<le> (needed - c) * rate" using True assms(2) by (intro mult_left_mono) auto
      ultimately show False by simp
    qed
    then show "m \<le> needed - c" by (simp add: m_def)
  qed
  define e where "e = timeSub now' since"
  have e: "m \<le> e" using wait [OF True] m small assms(4) by (auto simp: e_def g timeSub_def maxInt64_def)
  then have em: "m * rate \<le> e * rate" using assms(2) by (intro mult_right_mono) auto
  have "(l, c') = (now', cap) \<or> (l, c') = (now', c + e * rate)"
    using r z e m True assms(4) by (auto simp: refillAllowance_def Let_def e_def split: if_splits)
  then show ?thesis using m em assms(4) by auto
qed

text \<open>The four needs of a request, as one function of the allowance.\<close>

definition neededOf :: "allowance \<Rightarrow> bool \<Rightarrow> requestCost \<Rightarrow> bool \<Rightarrow> requestBudget \<Rightarrow> int" where
  "neededOf k conditional cost preserveClaim b = (case k of
     Primary \<Rightarrow> if conditional \<and> \<not> bBorrowed b then 0 else requestCreditUnit
   | Secondary \<Rightarrow> secondaryNeeded cost preserveClaim
   | ContentMinute \<Rightarrow> contentMinuteNeeded cost preserveClaim
   | ContentHour \<Rightarrow> contentHourNeeded cost preserveClaim)"

lemma creditDelay_ge:
  "delay \<le> creditDelay needed credits rate delay"
  "credits < needed \<Longrightarrow> goDiv (needed - credits + rate - 1) rate \<le> creditDelay needed credits rate delay"
  by (simp_all add: creditDelay_def)

lemma nextAdmission_covers:
  fixes conditional preserveClaim :: bool and cost :: requestCost and b :: requestBudget and now :: time
  defines "d \<equiv> nextAdmissionLocked now conditional cost preserveClaim b"
  shows "creditsOf k b < neededOf k conditional cost preserveClaim b \<Longrightarrow>
      goDiv (neededOf k conditional cost preserveClaim b - creditsOf k b + rateOf k - 1) (rateOf k) \<le> d"
    and "bUsed b \<ge> windowLimit conditional b \<Longrightarrow> timeSub (bOpened b + bCeiling b) now \<le> d"
    and "0 < d"
proof -
  define d0 where "d0 = (if bUsed b \<ge> windowLimit conditional b then timeSub (bOpened b + bCeiling b) now else 0)"
  define d1 where "d1 = creditDelay (neededOf Primary conditional cost preserveClaim b) (bCredits b) billedPerTick d0"
  define d2 where "d2 = creditDelay (secondaryNeeded cost preserveClaim) (bSecondaryCredits b) secondaryRefillPoints d1"
  define d3 where "d3 = creditDelay (contentMinuteNeeded cost preserveClaim) (bContentMinuteCredits b) contentMinuteRefillRequests d2"
  define d4 where "d4 = creditDelay (contentHourNeeded cost preserveClaim) (bContentHourCredits b) contentHourRefillRequests d3"
  have d: "d = (if d4 \<le> 0 then nanosPerSecond div 1000 else d4)"
    by (simp add: d_def nextAdmissionLocked_def Let_def d0_def d1_def d2_def d3_def d4_def neededOf_def)
  then have d4: "d4 \<le> d" by (simp add: nanosPerSecond_def)
  show "0 < d" by (simp add: d nanosPerSecond_def)
  have c: "d0 \<le> d1" "d1 \<le> d2" "d2 \<le> d3" "d3 \<le> d4"
    unfolding d1_def d2_def d3_def d4_def by (rule creditDelay_ge)+
  show "bUsed b \<ge> windowLimit conditional b \<Longrightarrow> timeSub (bOpened b + bCeiling b) now \<le> d"
    using c d4 by (simp add: d0_def)
  show "creditsOf k b < neededOf k conditional cost preserveClaim b \<Longrightarrow>
      goDiv (neededOf k conditional cost preserveClaim b - creditsOf k b + rateOf k - 1) (rateOf k) \<le> d"
    using creditDelay_ge(2) [of "bCredits b" "neededOf Primary conditional cost preserveClaim b" billedPerTick d0]
      creditDelay_ge(2) [of "bSecondaryCredits b" "secondaryNeeded cost preserveClaim" secondaryRefillPoints d1]
      creditDelay_ge(2) [of "bContentMinuteCredits b" "contentMinuteNeeded cost preserveClaim" contentMinuteRefillRequests d2]
      creditDelay_ge(2) [of "bContentHourCredits b" "contentHourNeeded cost preserveClaim" contentHourRefillRequests d3]
      c d4 unfolding d1_def [symmetric] d2_def [symmetric] d3_def [symmetric] d4_def [symmetric]
    by (cases k) (simp_all add: neededOf_def)
qed

lemma reserve_admits:
  assumes "rcPoints cost > 0" "rcContent cost \<ge> 0" "bUsed b < windowLimit conditional b"
    and "\<And>k. neededOf k conditional cost preserveClaim b \<le> creditsOf k b"
  shows "\<exists>r b'. reserveOneWithCostLocked conditional cost preserveClaim b = Some (r, b')"
  using assms(1-3) assms(4) [of Primary] assms(4) [of Secondary] assms(4) [of ContentMinute] assms(4) [of ContentHour]
  by (auto simp: reserveOneWithCostLocked_def neededOf_def split: if_splits)

lemma none_waiting:
  assumes "worldOk w" "bUnattempted (bwBudget w) = 0"
  shows "heldOf k (bwBudget w) = 0"
proof -
  have "\<not> waiting r" if "r \<in> set (bwRes w)" for r
    using that waiting_counted(1) [OF assms(1)] assms(2) by (force simp: in_set_conv_nth)
  then have "sumWhere waiting (priceOf k) (bwRes w) = sumWhere (\<lambda>_. False) (priceOf k) (bwRes w)"
    by (intro sumWhere_cong) auto
  then show ?thesis by (simp add: worldOk_fields(10) [OF assms(1)])
qed

lemma needed_fits:
  assumes "cost \<in> {readRequestCost, writeRequestCost}" "floorOf k \<le> c"
  shows "neededOf k conditional cost preserveClaim b \<le> burstOf k * unitOf k" "burstOf k * unitOf k - c \<le> maxInt64"
  using assms by (cases k; auto simp: neededOf_def secondaryNeeded_def contentMinuteNeeded_def contentHourNeeded_def
    secondaryReserve_def contentReserve_def readRequestCost_def writeRequestCost_def floorOf_def budget_constants maxInt64_def)+

lemma roll_fields [simp]:
  "bBorrowed (rollIfStaleLocked now b) = bBorrowed b" "bCeiling (rollIfStaleLocked now b) = bCeiling b"
  "bUnattempted (rollIfStaleLocked now b) = bUnattempted b" "bLimit (rollIfStaleLocked now b) = bLimit b"
  "bOrdinaryLimit (rollIfStaleLocked now b) = bOrdinaryLimit b"
  "creditsOf k (rollIfStaleLocked now b) = creditsOf k b" "heldOf k (rollIfStaleLocked now b) = heldOf k b"
  "lastOf k (rollIfStaleLocked now b) = lastOf k b"
  by (simp_all add: rollIfStaleLocked_def) (simp_all add: openLocked_def)

text \<open>
  C32. The time a request is told to wait is long enough. When a turn of admission finds no
  room for a read or a write and makes it wait, and no promised request is outstanding, then
  the next turn after that time admits it, provided the clock has not run backwards and nobody
  else took the room meanwhile.
\<close>

theorem wait_is_long_enough:
  assumes w: "zeroTime < started" "runOps ops (initWorld started) = Some w"
    and turn: "acquireCostTurn now conditional refusable wait cost preserveClaim deferred (bwBudget w) = (MustWait d, b)"
    and free: "bUnattempted (bwBudget w) = 0"
    and clock: "\<forall>k. lastOf k (bwBudget w) \<le> now" "bOpened (bwBudget w) \<le> now"
    and ceiling: "bCeiling (bwBudget w) \<le> maxInt64"
    and cost: "cost \<in> {readRequestCost, writeRequestCost}"
    and later: "now + d \<le> now'"
  shows "\<exists>r b'. acquireCostTurn now' conditional refusable wait cost preserveClaim True b = (Admitted r, b')"
proof -
  define w1 where "w1 = refillWorld now (w\<lparr>bwBudget := rollIfStaleLocked now (bwBudget w)\<rparr>)"
  define b1 where "b1 = bwBudget w1"
  have w1: "worldOk w1" unfolding w1_def by (intro refill_laws roll_laws reachable_ok [OF w])
  have b1: "refillLocked now (rollIfStaleLocked now (bwBudget w)) = b1" by (simp add: b1_def w1_def refillWorld_def)
  have d: "d = nextAdmissionLocked now conditional cost preserveClaim b1" and sf: "sameFunds b1 b"
    "bBorrowed b = bBorrowed b1" "bOpened b = bOpened b1" "bCeiling b = bCeiling b1"
    using turn by (auto simp: acquireCostTurn_def b1 Let_def sameFunds_def split: if_splits option.splits)
  have u0: "bUnattempted b1 = 0" using free by (simp add: b1 [symmetric])
  have held: "heldOf k b1 = 0" for k using none_waiting [OF w1] u0 by (simp add: b1_def)
  have wok: "worldOk (w\<lparr>bwBudget := rollIfStaleLocked now (bwBudget w)\<rparr>)"
    by (rule roll_laws [OF reachable_ok [OF w]])
  have l1: "lastOf k b1 = now" for k
    using refill_laws(3,4) [OF wok, where k = k and now = now] clock(1)
    by (auto simp: b1_def w1_def max_def split: if_splits)
  have o1: "bOpened b1 \<le> now" "bCeiling b1 \<le> maxInt64"
    using clock(2) ceiling by (auto simp: b1 [symmetric] rollIfStaleLocked_def openLocked_def)
  note cov = nextAdmission_covers [where b = b1 and now = now and conditional = conditional and cost = cost
      and preserveClaim = preserveClaim, folded d]
  define b2 where "b2 = refillLocked now' (rollIfStaleLocked now' b)"
  have lim: "bLimit b = billedPerTick" "bOrdinaryLimit b = ordinaryPerTick"
    using worldOk_fields(1,2) [OF w1] sf(1) by (simp_all add: b1_def sameFunds_def)
  have need: "neededOf k conditional cost preserveClaim b2 \<le> creditsOf k b2" for k
  proof -
    have n: "neededOf k conditional cost preserveClaim b2 = neededOf k conditional cost preserveClaim b1"
      by (cases k) (simp_all add: neededOf_def b2_def sf(2))
    obtain l c where lc: "refillAllowance now' now (creditsOf k b1) (burstOf k * unitOf k) (rateOf k) = (l, c)"
      by fastforce
    have c: "creditsOf k b2 = c"
      using lc sf(1) by (simp add: b2_def lim l1 held sameFunds_def)
    have fl: "floorOf k \<le> creditsOf k b1" "creditsOf k b1 \<le> burstOf k * unitOf k"
      using worldOk_fields(8,9) [OF w1, of k] held [of k] by (simp_all add: b1_def)
    have "now \<noteq> zeroTime" using worldOk_fields(7) [OF w1, of k] l1 [of k] by (simp add: b1_def)
    then show ?thesis unfolding n c
      using refill_reaches [OF lc unit_pos(2) fl(2) needed_fits(1) [OF cost fl(1)]] needed_fits(2) [OF cost fl(1)]
        cov(1) [of k] later by fastforce
  qed
  have used: "bUsed b2 < windowLimit conditional b2"
  proof (cases "bUsed b1 \<ge> windowLimit conditional b1")
    case True
    then have "bOpened b + bCeiling b \<le> now'"
      using cov(2,3) o1 later by (auto simp: sf timeSub_def maxInt64_def split: if_splits)
    then have "timeSub now' (bOpened b) \<ge> bCeiling b" using o1 by (auto simp: sf timeSub_def)
    then show ?thesis
      using u0 sf(1) lim by (simp add: b2_def rollIfStaleLocked_def openLocked_def windowLimit_def sameFunds_def
        billedPerTick_def ordinaryPerTick_def)
  next
    case False
    then show ?thesis
      using u0 sf(1) lim by (auto simp: b2_def rollIfStaleLocked_def openLocked_def windowLimit_def sameFunds_def
        billedPerTick_def ordinaryPerTick_def)
  qed
  obtain r b' where "reserveOneWithCostLocked conditional cost preserveClaim b2 = Some (r, b')"
    using reserve_admits [OF _ _ used need] cost by (auto simp: readRequestCost_def writeRequestCost_def budget_constants)
  then show ?thesis by (simp add: acquireCostTurn_def b2_def)
qed

definition exampleBurst :: "budgetOp list" where
  "exampleBurst = concat (map (\<lambda>i. [OpAcquire 0 False False True writeRequestCost True False, OpAttempt 0 i]) [0..<17])"

definition exampleTurn :: "admission \<times> requestBudget" where
  "exampleTurn = acquireCostTurn 0 False False True writeRequestCost True False
     (bwBudget (the (runOps exampleBurst (initWorld 0))))"

text \<open>Seventeen writes spend the points above the reserve of a claim; the next waits 75 milliseconds.\<close>

theorem wait_is_long_enough_witness:
  "fst exampleTurn = MustWait 75000000
   \<and> (\<exists>r b'. acquireCostTurn 75000000 False False True writeRequestCost True True (snd exampleTurn) = (Admitted r, b'))"
proof -
  have d: "fst exampleTurn = MustWait 75000000" by code_simp
  have "runOps exampleBurst (initWorld 0) \<noteq> None" by code_simp
  then obtain w where w: "runOps exampleBurst (initWorld 0) = Some w" by auto
  have b: "bUnattempted (bwBudget (the (runOps exampleBurst (initWorld 0)))) = 0"
    "\<forall>k\<in>set [Primary, Secondary, ContentMinute, ContentHour]. lastOf k (bwBudget (the (runOps exampleBurst (initWorld 0)))) \<le> 0"
    "bOpened (bwBudget (the (runOps exampleBurst (initWorld 0)))) \<le> 0"
    "bCeiling (bwBudget (the (runOps exampleBurst (initWorld 0)))) \<le> maxInt64"
    by code_simp+
  have l: "lastOf k (bwBudget w) \<le> 0" for k using b(2) w by (cases k) simp_all
  have t: "acquireCostTurn 0 False False True writeRequestCost True False (bwBudget w) = (MustWait 75000000, snd exampleTurn)"
    using d w by (cases exampleTurn) (simp add: exampleTurn_def)
  show ?thesis
    using d wait_is_long_enough [OF _ w t, of 75000000] b l w by (simp add: zeroTime_def)
qed

end
