(* ===== verification/TrackerTransport.thy ===== *)
theory TrackerTransport
  imports TrackerRate
begin

text \<open>
  The transport of the tracker adapter: the leases of \<open>budget.go\<close>, the loop of \<open>acquireCost\<close>, the
  network timeout and \<open>RoundTrip\<close>, and the rate gate of \<open>ratelimit.go\<close>. Several requests run at
  once; what the others do to the budget while one waits or is on the network is a list of
  budget steps, an argument of the model. The context, the credential source and the base
  transport are arguments too: the errors and the response they return.
\<close>

section \<open>The rate gate\<close>

record RateLimitError =
  rlSecondary :: bool
  rlRetryAfter :: duration

record rateGate =
  rgUntil :: time
  rgLast :: RateLimitError

definition newRateGate :: rateGate where
  "newRateGate = \<lparr>rgUntil = zeroTime, rgLast = \<lparr>rlSecondary = False, rlRetryAfter = 0\<rparr>\<rparr>"

definition gateCheck :: "time \<Rightarrow> rateGate \<Rightarrow> RateLimitError option" where
  "gateCheck now g =
     (if rgUntil g = zeroTime \<or> \<not> now < rgUntil g then None
      else Some \<lparr>rlSecondary = rlSecondary (rgLast g), rlRetryAfter = timeSub (rgUntil g) now\<rparr>)"

definition minRetryAfter :: duration where "minRetryAfter = nanosPerSecond"

definition clampWait :: "duration \<Rightarrow> duration" where
  "clampWait d = (if d < minRetryAfter then minRetryAfter else d)"

text \<open>
  What the adapter reads of a response: the status and three header values, the empty string
  when absent. \<open>time.Duration(secs) * time.Second\<close> is a 64-bit product that wraps.
\<close>

record httpResponse =
  hrStatus :: int
  hrRetryAfter :: string
  hrRemaining :: string
  hrReset :: string

definition wrapInt64 :: "int \<Rightarrow> int" where
  "wrapInt64 n = (n + 9223372036854775808) mod 18446744073709551616 - 9223372036854775808"

definition retryAfterHeader :: "httpResponse option \<Rightarrow> duration option" where
  "retryAfterHeader resp = (case resp of None \<Rightarrow> None
     | Some r \<Rightarrow> if hrRetryAfter r = [] then None
                else map_option (\<lambda>secs. wrapInt64 (secs * nanosPerSecond)) (parseInt64 (hrRetryAfter r)))"

definition resetHeader :: "httpResponse option \<Rightarrow> time \<Rightarrow> duration option" where
  "resetHeader resp now = (case resp of None \<Rightarrow> None
     | Some r \<Rightarrow> if hrReset r = [] then None
                else map_option (\<lambda>epoch. timeSub (epoch * nanosPerSecond) now) (parseInt64 (hrReset r)))"

definition budgetExhausted :: "httpResponse \<Rightarrow> bool" where
  "budgetExhausted resp =
     (hrRemaining resp \<noteq> [] \<and> (case parseInt64 (hrRemaining resp) of None \<Rightarrow> False | Some n \<Rightarrow> n \<le> 0))"

text \<open>The errors of the client library that \<open>classify\<close> tells apart, and any other.\<close>

datatype ghError =
    AbuseRateLimit "duration option" "httpResponse option"
  | PrimaryRateLimit time "httpResponse option"
  | ErrorResponse string string "httpResponse option"
  | OtherError

definition secondaryPhrases :: "string list" where
  "secondaryPhrases = [''secondary rate limit'', ''secondary-rate-limits'', ''abuse-rate-limits'', ''abuse detection'']"

definition namesSecondaryLimit :: "runtime \<Rightarrow> string \<Rightarrow> string \<Rightarrow> bool" where
  "namesSecondaryLimit u url message =
     (let said = toLower u (url @ '' '' @ message) in list_ex (contains said) secondaryPhrases)"

definition classifyResponse :: "runtime \<Rightarrow> string \<Rightarrow> string \<Rightarrow> httpResponse \<Rightarrow> time \<Rightarrow> RateLimitError option" where
  "classifyResponse u url message resp now =
     (if hrStatus resp \<noteq> 403 \<and> hrStatus resp \<noteq> 429 then None
      else
        let retryAfter = retryAfterHeader (Some resp);
            secondary = retryAfter \<noteq> None \<or> namesSecondaryLimit u url message;
            exhausted = budgetExhausted resp
        in if hrStatus resp = 403 \<and> \<not> secondary \<and> \<not> exhausted then None
           else Some \<lparr>rlSecondary = secondary \<or> \<not> exhausted,
                      rlRetryAfter = clampWait (case retryAfter of
                        Some d \<Rightarrow> d
                      | None \<Rightarrow> case resetHeader (Some resp) now of Some d \<Rightarrow> d | None \<Rightarrow> 0)\<rparr>)"

definition classifyError :: "runtime \<Rightarrow> ghError \<Rightarrow> time \<Rightarrow> RateLimitError option" where
  "classifyError u err now = (case err of
     AbuseRateLimit retryAfter resp \<Rightarrow>
       let wait = (case retryAfter of
             Some d \<Rightarrow> d
           | None \<Rightarrow> case retryAfterHeader resp of
               Some d \<Rightarrow> d
             | None \<Rightarrow> case resetHeader resp now of Some d \<Rightarrow> d | None \<Rightarrow> 0)
       in Some \<lparr>rlSecondary = True, rlRetryAfter = clampWait wait\<rparr>
   | PrimaryRateLimit reset resp \<Rightarrow>
       (case retryAfterHeader resp of
          Some d \<Rightarrow> Some \<lparr>rlSecondary = False, rlRetryAfter = clampWait d\<rparr>
        | None \<Rightarrow> Some \<lparr>rlSecondary = False, rlRetryAfter = clampWait (timeSub reset now)\<rparr>)
   | ErrorResponse url message resp \<Rightarrow>
       (case resp of None \<Rightarrow> None | Some r \<Rightarrow> classifyResponse u url message r now)
   | OtherError \<Rightarrow> None)"

definition gateObserveError ::
  "runtime \<Rightarrow> ghError \<Rightarrow> time \<Rightarrow> time \<Rightarrow> rateGate \<Rightarrow> RateLimitError option \<times> rateGate" where
  "gateObserveError u err now1 now2 g = (case classifyError u err now1 of
     None \<Rightarrow> (None, g)
   | Some rl \<Rightarrow>
       (Some rl, if now2 + rlRetryAfter rl > rgUntil g
                 then g\<lparr>rgUntil := now2 + rlRetryAfter rl, rgLast := rl\<rparr> else g))"

text \<open>
  A classified limit keeps the gate closed for the wait, at least a second, and a later
  observation never opens it sooner; an error that is not a limit leaves it as it was.
\<close>

lemma gate_stays_closed:
  assumes "zeroTime < now2" "classifyError u err now1 = Some rl" "now < now2 + rlRetryAfter rl"
    and "zeroTime < now2 + rlRetryAfter rl"
  shows "gateCheck now (snd (gateObserveError u err' n1 n2 (snd (gateObserveError u err now1 now2 g)))) \<noteq> None"
  using assms by (auto simp: gateObserveError_def gateCheck_def split: option.splits)

lemma classified_wait_bounded: "classifyError u err now = Some rl \<Longrightarrow> minRetryAfter \<le> rlRetryAfter rl"
  by (auto simp: classifyError_def classifyResponse_def clampWait_def Let_def split: ghError.splits option.splits if_splits)

text \<open>
  A permission refusal, a 403 that carries a reset time and a budget with room but neither
  \<open>Retry-After\<close> nor a named limit, is not a limit, whatever its reset time.
\<close>

lemma permission_refusal_is_not_a_limit:
  assumes "hrStatus r = 403" "hrRetryAfter r = []" "\<not> namesSecondaryLimit u url message" "\<not> budgetExhausted r"
  shows "gateObserveError u (ErrorResponse url message (Some r)) now1 now2 g = (None, g)"
  using assms by (simp add: gateObserveError_def classifyError_def classifyResponse_def retryAfterHeader_def)

text \<open>
  A \<open>Retry-After\<close> of more seconds than a duration holds wraps: the gate reopens after one second.
\<close>

lemma retry_after_wraps:
  "classifyError u (AbuseRateLimit None (Some \<lparr>hrStatus = 403, hrRetryAfter = ''9223372037'', hrRemaining = [], hrReset = []\<rparr>)) now
     = Some \<lparr>rlSecondary = True, rlRetryAfter = minRetryAfter\<rparr>"
proof -
  have "parseInt64 ''9223372037'' = Some 9223372037" by code_simp
  then show ?thesis
    by (simp add: classifyError_def retryAfterHeader_def wrapInt64_def nanosPerSecond_def clampWait_def minRetryAfter_def)
qed

section \<open>Leases\<close>

record requestLease =
  lsReservations :: "nat list"
  lsTaken :: "bool list"
  lsClosed :: bool

text \<open>\<open>reserveLease\<close> with the store of reservations: the lease names the new ones.\<close>

definition openLease :: "time \<Rightarrow> requestCost list \<Rightarrow> budgetWorld \<Rightarrow> (budgetError + requestLease) \<times> budgetWorld" where
  "openLease now costs w = (case reserveLease now costs (bwBudget w) of
     (Inl e, b) \<Rightarrow> (Inl e, w\<lparr>bwBudget := b\<rparr>)
   | (Inr rs, b) \<Rightarrow>
       (Inr \<lparr>lsReservations = [length (bwRes w)..<length (bwRes w) + length rs],
             lsTaken = replicate (length rs) False, lsClosed = False\<rparr>,
        \<lparr>bwBudget = b, bwRes = bwRes w @ rs\<rparr>))"

definition leaseTake :: "int \<Rightarrow> requestLease \<Rightarrow> (budgetError + nat) \<times> requestLease" where
  "leaseTake i l =
     (if lsClosed l \<or> i < 0 \<or> i \<ge> int (length (lsReservations l)) then (Inl (NoStage i), l)
      else if lsTaken l ! nat i then (Inl (StageTaken i), l)
      else (Inr (lsReservations l ! nat i), l\<lparr>lsTaken := (lsTaken l)[nat i := True]\<rparr>))"

fun releaseAll :: "(time \<times> nat) list \<Rightarrow> budgetWorld \<Rightarrow> budgetWorld" where
  "releaseAll [] w = w"
| "releaseAll ((now, i) # rest) w =
     releaseAll rest (putRes i (releaseUnused now (bwRes w ! i) (bwBudget w)) w)"

definition leaseClose :: "time list \<Rightarrow> requestLease \<Rightarrow> budgetWorld \<Rightarrow> requestLease \<times> budgetWorld" where
  "leaseClose nows l w =
     (if lsClosed l then (l, w)
      else (l\<lparr>lsClosed := True\<rparr>, releaseAll (zip nows (lsReservations l)) w))"

section \<open>Admission with waiting\<close>

text \<open>
  One turn of the loop of \<open>acquireCost\<close> as the caller sees it: the context's error at its head,
  the clock, what the other requests do while it sleeps, and whether the context ended the sleep.
  A finite list of turns that ends in a sleep has no result.
\<close>

record 'e acquireRound =
  arErr :: "'e option"
  arNow :: time
  arOthers :: "budgetOp list"
  arDone :: "'e option"

datatype 'e acquired = AcqReserved nat | AcqRefused budgetError | AcqCancelled 'e

fun acquireCost ::
  "'e acquireRound list \<Rightarrow> bool \<Rightarrow> bool \<Rightarrow> bool \<Rightarrow> requestCost \<Rightarrow> bool \<Rightarrow> bool \<Rightarrow> budgetWorld
     \<Rightarrow> ('e acquired \<times> budgetWorld) option" where
  "acquireCost [] conditional refusable wait cost preserveClaim deferred w = None"
| "acquireCost (rd # rds) conditional refusable wait cost preserveClaim deferred w =
     (case arErr rd of
        Some e \<Rightarrow> Some (AcqCancelled e, w)
      | None \<Rightarrow>
          case acquireCostTurn (arNow rd) conditional refusable wait cost preserveClaim deferred (bwBudget w) of
            (Admitted r, b) \<Rightarrow> Some (AcqReserved (length (bwRes w)), \<lparr>bwBudget = b, bwRes = bwRes w @ [r]\<rparr>)
          | (Refused e, b) \<Rightarrow> Some (AcqRefused e, w\<lparr>bwBudget := b\<rparr>)
          | (MustWait d, b) \<Rightarrow>
              case runOps (arOthers rd) (w\<lparr>bwBudget := b\<rparr>) of
                None \<Rightarrow> None
              | Some w' \<Rightarrow>
                  case arDone rd of
                    Some e \<Rightarrow> Some (AcqCancelled e, w')
                  | None \<Rightarrow> acquireCost rds conditional refusable wait cost preserveClaim True w')"

record leasedRequest =
  lrFirst :: nat
  lrFirstTaken :: bool
  lrHonorRateGate :: bool
  lrAttempted :: bool

definition requestContext :: "int \<Rightarrow> bool \<Rightarrow> requestLease \<Rightarrow> (budgetError + leasedRequest) \<times> requestLease" where
  "requestContext stage honorRateGate l = (case leaseTake stage l of
     (Inl e, l') \<Rightarrow> (Inl e, l')
   | (Inr i, l') \<Rightarrow> (Inr \<lparr>lrFirst = i, lrFirstTaken = False, lrHonorRateGate = honorRateGate, lrAttempted = False\<rparr>, l'))"

definition leasedAcquire ::
  "'e acquireRound list \<Rightarrow> bool \<Rightarrow> bool \<Rightarrow> requestCost \<Rightarrow> leasedRequest \<Rightarrow> budgetWorld
     \<Rightarrow> ('e acquired \<times> leasedRequest \<times> budgetWorld) option" where
  "leasedAcquire rds conditional refusable cost l w =
     (if \<not> lrFirstTaken l then Some (AcqReserved (lrFirst l), l\<lparr>lrFirstTaken := True\<rparr>, w)
      else map_option (\<lambda>(a, w'). (a, l, w')) (acquireCost rds conditional refusable True cost False False w))"

section \<open>The network segment\<close>

record networkSegment =
  nsStarted :: time
  nsAllowed :: duration
  nsFinished :: bool

definition networkStart :: "time \<Rightarrow> duration \<Rightarrow> networkSegment option" where
  "networkStart now remaining =
     (if remaining \<le> 0 then None
      else Some \<lparr>nsStarted = now, nsAllowed = remaining, nsFinished = False\<rparr>)"

definition deadlineExceeded :: "time \<Rightarrow> bool \<Rightarrow> networkSegment \<Rightarrow> bool" where
  "deadlineExceeded now ctxDeadline seg \<longleftrightarrow> timeSub now (nsStarted seg) \<ge> nsAllowed seg \<or> ctxDeadline"

definition segmentFinish :: "time \<Rightarrow> networkSegment \<Rightarrow> duration \<Rightarrow> networkSegment \<times> duration" where
  "segmentFinish now seg remaining =
     (if nsFinished seg then (seg, remaining)
      else
        let elapsed = max 0 (timeSub now (nsStarted seg))
        in (seg\<lparr>nsFinished := True\<rparr>, max 0 (remaining - elapsed)))"

section \<open>RoundTrip\<close>

definition requestCostForMethod :: "string \<Rightarrow> requestCost" where
  "requestCostForMethod method =
     (if method \<in> {''GET'', ''HEAD'', ''OPTIONS''} then readRequestCost else writeRequestCost)"

datatype 'e reply = ReplyError 'e | ReplyNil | Reply int bool

fun billedReply :: "'e reply \<Rightarrow> bool" where
  "billedReply (Reply status hasBody) = (status \<noteq> 304)"
| "billedReply _ = True"

datatype 'e outcome =
    RtGate RateLimitError | RtBudget budgetError | RtContext 'e | RtCredential 'e
  | RtDeadline | RtTransport 'e | RtNilResponse | RtResponse int

text \<open>
  What one call of \<open>RoundTrip\<close> meets: the request, the gate at its two checks (\<open>None\<close> when the
  transport has none), the turns of admission, the credential refresh, the remaining network
  time, the clock readings, and what the other requests do between its own steps.
\<close>

record 'e exchange =
  xeMethod :: string
  xeConditional :: bool
  xeWait :: bool
  xeRefusable :: bool
  xePreserveClaim :: bool
  xeGate1 :: "(time \<times> rateGate) option"
  xeGate2 :: "(time \<times> rateGate) option"
  xeRounds :: "'e acquireRound list"
  xeOthers1 :: "budgetOp list"
  xeRefresh :: "'e option option"
  xeReleaseNow :: time
  xeRemaining :: duration
  xeStartNow :: time
  xeAttemptNow :: time
  xeOthers2 :: "budgetOp list"
  xeReply :: "'e reply"
  xeSettleNow :: time
  xeEndNow :: time
  xeCtxDeadline :: bool
  xeFinishNow :: time

text \<open>
  What it leaves: its answer, the reservation it used, whether the base transport was called,
  the leased request, the budget, and the segment that a response body keeps open.
\<close>

record 'e exchanged =
  xdOutcome :: "'e outcome"
  xdUsed :: "nat option"
  xdReached :: bool
  xdLeased :: "leasedRequest option"
  xdWorld :: budgetWorld
  xdSegment :: "networkSegment option"
  xdRemaining :: duration

fun touches :: "nat \<Rightarrow> budgetOp \<Rightarrow> bool" where
  "touches i (OpAttempt _ j) = (i = j)"
| "touches i (OpSettle _ j _) = (i = j)"
| "touches i (OpRelease _ j) = (i = j)"
| "touches i _ = False"

text \<open>The other requests do not hold this one's reservation.\<close>

definition runOthers :: "nat \<Rightarrow> budgetOp list \<Rightarrow> budgetWorld \<Rightarrow> budgetWorld option" where
  "runOthers i ops w = (if list_ex (touches i) ops then None else runOps ops w)"

definition gateAt :: "bool \<Rightarrow> (time \<times> rateGate) option \<Rightarrow> RateLimitError option" where
  "gateAt honorRateGate g =
     (case g of Some (now, gate) \<Rightarrow> if honorRateGate then gateCheck now gate else None | None \<Rightarrow> None)"

definition admitExchange ::
  "'e exchange \<Rightarrow> leasedRequest option \<Rightarrow> budgetWorld \<Rightarrow> ('e acquired \<times> leasedRequest option \<times> budgetWorld) option" where
  "admitExchange x leased w =
     (let cost = requestCostForMethod (xeMethod x)
      in case leased of
           Some l \<Rightarrow> map_option (\<lambda>(a, l', w'). (a, Some l', w'))
             (leasedAcquire (xeRounds x) (xeConditional x) (xeRefusable x) cost l w)
         | None \<Rightarrow> map_option (\<lambda>(a, w'). (a, None, w'))
             (acquireCost (xeRounds x) (xeConditional x) (xeRefusable x) (xeWait x) cost (xePreserveClaim x) False w))"

text \<open>The return of the reservation on a refusal after admission.\<close>

definition giveUp ::
  "'e exchange \<Rightarrow> 'e outcome \<Rightarrow> nat \<Rightarrow> leasedRequest option \<Rightarrow> budgetWorld \<Rightarrow> 'e exchanged" where
  "giveUp x out i leased w =
     \<lparr>xdOutcome = out, xdUsed = Some i, xdReached = False, xdLeased = leased,
      xdWorld = putRes i (releaseUnused (xeReleaseNow x) (bwRes w ! i) (bwBudget w)) w,
      xdSegment = None, xdRemaining = xeRemaining x\<rparr>"

text \<open>The answer after the exchange; a body keeps the segment open until it is read or closed.\<close>

definition replyOutcome :: "'e exchange \<Rightarrow> networkSegment \<Rightarrow> 'e outcome \<times> networkSegment \<times> duration" where
  "replyOutcome x seg =
     (let expired = deadlineExceeded (xeEndNow x) (xeCtxDeadline x) seg;
          fin = segmentFinish (xeFinishNow x) seg (xeRemaining x)
      in case xeReply x of
           ReplyError e \<Rightarrow> (if expired then RtDeadline else RtTransport e, fin)
         | ReplyNil \<Rightarrow> (if expired then RtDeadline else RtNilResponse, fin)
         | Reply status hasBody \<Rightarrow>
             if expired then (RtDeadline, fin)
             else if \<not> hasBody then (RtResponse status, fin)
             else (RtResponse status, seg, xeRemaining x))"

definition roundTrip :: "'e exchange \<Rightarrow> leasedRequest option \<Rightarrow> budgetWorld \<Rightarrow> 'e exchanged option" where
  "roundTrip x leased w =
     (let honor = (case leased of None \<Rightarrow> True | Some l \<Rightarrow> lrHonorRateGate l);
          refused = (\<lambda>out l w'. Some \<lparr>xdOutcome = out, xdUsed = None, xdReached = False, xdLeased = l,
                                 xdWorld = w', xdSegment = None, xdRemaining = xeRemaining x\<rparr>)
      in case gateAt honor (xeGate1 x) of
           Some e \<Rightarrow> refused (RtGate e) leased w
         | None \<Rightarrow>
           (case admitExchange x leased w of
              None \<Rightarrow> None
            | Some (AcqRefused e, l, w1) \<Rightarrow> refused (RtBudget e) l w1
            | Some (AcqCancelled e, l, w1) \<Rightarrow> refused (RtContext e) l w1
            | Some (AcqReserved i, l, w1) \<Rightarrow>
                case runOthers i (xeOthers1 x) w1 of
                  None \<Rightarrow> None
                | Some w2 \<Rightarrow>
                  (case gateAt honor (xeGate2 x) of
                     Some e \<Rightarrow> Some (giveUp x (RtGate e) i l w2)
                   | None \<Rightarrow>
                     (case (if rvWaited (bwRes w2 ! i) then (case xeRefresh x of Some r \<Rightarrow> r | None \<Rightarrow> None) else None) of
                        Some e \<Rightarrow> Some (giveUp x (RtCredential e) i l w2)
                      | None \<Rightarrow>
                        (case networkStart (xeStartNow x) (xeRemaining x) of
                           None \<Rightarrow> Some (giveUp x RtDeadline i l w2)
                         | Some seg \<Rightarrow>
                             case markAttempted (xeAttemptNow x) (bwRes w2 ! i) (bwBudget w2) of
                               None \<Rightarrow> None
                             | Some rb \<Rightarrow>
                                 case runOthers i (xeOthers2 x) (putRes i rb w2) of
                                   None \<Rightarrow> None
                                 | Some w3 \<Rightarrow>
                                     case settle (xeSettleNow x) (billedReply (xeReply x)) (bwRes w3 ! i) (bwBudget w3) of
                                       None \<Rightarrow> None
                                     | Some rb' \<Rightarrow>
                                         let (out, seg', rest) = replyOutcome x seg
                                         in Some \<lparr>xdOutcome = out, xdUsed = Some i, xdReached = True,
                                                  xdLeased = map_option (\<lambda>l. l\<lparr>lrAttempted := True\<rparr>) l,
                                                  xdWorld = putRes i rb' w3, xdSegment = Some seg',
                                                  xdRemaining = rest\<rparr>)))))"

text \<open>Reading and closing the body of a response.\<close>

definition bodyRead :: "time \<Rightarrow> bool \<Rightarrow> time \<Rightarrow> bool \<Rightarrow> networkSegment \<Rightarrow> duration \<Rightarrow> bool \<times> networkSegment \<times> duration" where
  "bodyRead now ctxDeadline finishNow failed seg remaining =
     (let expired = deadlineExceeded now ctxDeadline seg
      in (expired, if failed \<or> expired then segmentFinish finishNow seg remaining else (seg, remaining)))"

definition bodyClose :: "time \<Rightarrow> networkSegment \<Rightarrow> duration \<Rightarrow> networkSegment \<times> duration" where
  "bodyClose now seg remaining = segmentFinish now seg remaining"

section \<open>Every reservation comes to its end\<close>

lemma runOps_append: "runOps (xs @ ys) w = (case runOps xs w of None \<Rightarrow> None | Some w' \<Rightarrow> runOps ys w')"
  by (induction xs arbitrary: w) (auto split: option.splits)

text \<open>Steps compose; \<open>reaches\<close> says that some steps lead from one budget to the other.\<close>

definition reaches :: "budgetWorld \<Rightarrow> budgetWorld \<Rightarrow> bool" where
  "reaches w w' \<longleftrightarrow> (\<exists>ops. runOps ops w = Some w')"

lemma reaches_refl [simp]: "reaches w w"
  unfolding reaches_def by (rule exI [of _ "[]"]) simp

lemma reaches_step: "stepOp op w = Some w' \<Longrightarrow> reaches w w'"
  unfolding reaches_def by (rule exI [of _ "[op]"]) simp

lemma reaches_run: "runOps ops w = Some w' \<Longrightarrow> reaches w w'"
  by (auto simp: reaches_def)

lemma reaches_trans [trans]: "reaches w w1 \<Longrightarrow> reaches w1 w2 \<Longrightarrow> reaches w w2"
  by (auto simp: reaches_def) (metis (no_types, lifting) option.simps(5) runOps_append)

lemma stepOp_keeps:
  assumes "stepOp op w = Some w'"
  shows "length (bwRes w) \<le> length (bwRes w')"
    and "i < length (bwRes w) \<Longrightarrow> \<not> touches i op \<Longrightarrow> bwRes w' ! i = bwRes w ! i"
  using assms
  by (cases op; auto simp: nth_append split: admission.splits prod.splits if_splits sum.splits)+

lemma runOps_keeps:
  assumes "runOps ops w = Some w'"
  shows "length (bwRes w) \<le> length (bwRes w')"
    "i < length (bwRes w) \<Longrightarrow> \<not> list_ex (touches i) ops \<Longrightarrow> bwRes w' ! i = bwRes w ! i"
  using assms
proof (induction ops arbitrary: w)
  case (Cons op ops)
  {
    case 1
    then show ?case using Cons.IH(1) stepOp_keeps(1) by (fastforce split: option.splits)
  next
    case 2
    then obtain w1 where s: "stepOp op w = Some w1" and r: "runOps ops w1 = Some w'"
      by (auto split: option.splits)
    have "bwRes w1 ! i = bwRes w ! i" "i < length (bwRes w1)"
      using stepOp_keeps [OF s] 2 by auto
    then show ?case using Cons.IH(2) [OF _ _ r] 2 by simp
  }
qed simp_all

lemma runOthers_keeps:
  assumes "runOthers i ops w = Some w'" "i < length (bwRes w)"
  shows "reaches w w'" "i < length (bwRes w')" "bwRes w' ! i = bwRes w ! i"
  using assms runOps_keeps [of ops w w'] reaches_run
  by (auto simp: runOthers_def split: if_splits)

lemma turn_admits_waiting:
  "acquireCostTurn now conditional refusable wait cost preserveClaim deferred b0 = (Admitted r, b) \<Longrightarrow> waiting r"
  by (auto simp: acquireCostTurn_def reserveOneWithCostLocked_def Let_def split: option.splits if_splits)

lemma acquireCost_reaches:
  assumes "acquireCost rds conditional refusable wait cost preserveClaim deferred w = Some (a, w')"
  shows "reaches w w' \<and> (\<forall>i. a = AcqReserved i \<longrightarrow> i < length (bwRes w') \<and> waiting (bwRes w' ! i))"
  using assms
proof (induction rds arbitrary: deferred w)
  case (Cons rd rds)
  show ?case
  proof (cases "arErr rd")
    case None
    let ?op = "OpAcquire (arNow rd) conditional refusable wait cost preserveClaim deferred"
    obtain v b where t: "acquireCostTurn (arNow rd) conditional refusable wait cost preserveClaim deferred (bwBudget w) = (v, b)"
      by fastforce
    show ?thesis
    proof (cases v)
      case (Admitted r)
      then show ?thesis
        using Cons.prems None t turn_admits_waiting [of "arNow rd"] by (auto intro: reaches_step [of ?op])
    next
      case (Refused e)
      then show ?thesis using Cons.prems None t by (auto intro: reaches_step [of ?op])
    next
      case (MustWait d)
      then have r: "reaches w (w\<lparr>bwBudget := b\<rparr>)" using t by (intro reaches_step [of ?op]) simp
      show ?thesis
        using Cons.prems None t MustWait Cons.IH reaches_trans [OF r]
        by (fastforce dest: reaches_run intro: reaches_trans split: option.splits)
    qed
  qed (use Cons.prems in auto)
qed simp

text \<open>A leased request starts on a stage that still waits.\<close>

definition leaseFresh :: "leasedRequest option \<Rightarrow> budgetWorld \<Rightarrow> bool" where
  "leaseFresh leased w = (case leased of None \<Rightarrow> True
     | Some l \<Rightarrow> lrFirstTaken l \<or> (lrFirst l < length (bwRes w) \<and> waiting (bwRes w ! lrFirst l)))"

lemma admitExchange_reaches:
  assumes "admitExchange x leased w = Some (a, l, w')" "leaseFresh leased w"
  shows "reaches w w' \<and> (\<forall>i. a = AcqReserved i \<longrightarrow> i < length (bwRes w') \<and> waiting (bwRes w' ! i))"
  using assms acquireCost_reaches
  by (fastforce simp: admitExchange_def leasedAcquire_def leaseFresh_def Let_def split: option.splits if_splits)

lemma giveUp_reaches:
  assumes "i < length (bwRes w)" "waiting (bwRes w ! i)"
  shows "reaches w (xdWorld (giveUp x out i l w))" "rvOnce (bwRes (xdWorld (giveUp x out i l w)) ! i) = RanRelease"
    "\<not> rvAttempted (bwRes (xdWorld (giveUp x out i l w)) ! i)"
  using assms
  by (auto simp: giveUp_def waiting_def releaseUnused_def Let_def intro!: reaches_step [of "OpRelease (xeReleaseNow x) i"])

lemma attempted_once:
  "markAttempted now r b = Some (r', b') \<Longrightarrow> rvOnce r' = rvOnce r \<and> rvAttempted r'"
  by (auto simp: markAttempted_def markAttemptedLocked_def Let_def split: if_splits)

lemma settled_once:
  "settle now billed r b = Some (r', b') \<Longrightarrow> rvOnce r = NotRun \<Longrightarrow> rvAttempted r \<Longrightarrow>
     rvOnce r' = RanSettle billed \<and> rvAttempted r'"
  by (auto simp: settle_def markAttemptedLocked_def Let_def split: option.splits)

text \<open>
  No call leaks a reservation, and none is on the network without one. Whatever the gate,
  the credential source, the clock, the network and the other requests do, a call that returns
  leaves a budget that budget steps lead to; if it called the base transport, its
  reservation was attempted and is settled, billed unless the answer was a 304; if it
  was admitted and did not call it, its reservation is returned unattempted; and otherwise
  it used none.
\<close>

theorem roundtrip_ends_its_reservation:
  assumes "roundTrip x leased w = Some d" "leaseFresh leased w"
  shows "reaches w (xdWorld d) \<and> (case xdUsed d of
      None \<Rightarrow> \<not> xdReached d
    | Some i \<Rightarrow> i < length (bwRes (xdWorld d)) \<and>
        (let r = bwRes (xdWorld d) ! i
         in if xdReached d then rvAttempted r \<and> rvOnce r = RanSettle (billedReply (xeReply x))
            else \<not> rvAttempted r \<and> rvOnce r = RanRelease))"
proof (cases "xdUsed d")
  case None
  then have "(xdWorld d = w \<or> (\<exists>a l. admitExchange x leased w = Some (a, l, xdWorld d))) \<and> \<not> xdReached d"
    using assms(1)
    by (auto simp: roundTrip_def giveUp_def Let_def split: option.splits acquired.splits prod.splits)
  then show ?thesis
    using None admitExchange_reaches [OF _ assms(2)] by auto
next
  case (Some i)
  then obtain l w1 w2 where a: "admitExchange x leased w = Some (AcqReserved i, l, w1)"
    and o1: "runOthers i (xeOthers1 x) w1 = Some w2"
    using assms(1)
    by (auto simp: roundTrip_def giveUp_def Let_def split: option.splits acquired.splits prod.splits)
  have w1: "reaches w w1" "i < length (bwRes w1)" "waiting (bwRes w1 ! i)"
    using admitExchange_reaches [OF a assms(2)] by simp_all
  note w2 = runOthers_keeps [OF o1 w1(2)]
  have wr: "waiting (bwRes w2 ! i)" using w1(3) w2(3) by simp
  show ?thesis
  proof (cases "xdReached d")
    case False
    then obtain out where d: "d = giveUp x out i l w2"
      using assms(1) a o1 Some
      by (auto simp: roundTrip_def Let_def split: option.splits prod.splits)
    have "reaches w (xdWorld d)"
      unfolding d by (rule reaches_trans [OF w1(1) reaches_trans [OF w2(1) giveUp_reaches(1) [OF w2(2) wr]]])
    moreover have "length (bwRes (xdWorld d)) = length (bwRes w2)" by (simp add: d giveUp_def)
    ultimately show ?thesis
      using giveUp_reaches(2,3) [OF w2(2) wr, of x out l] w2(2) Some False unfolding d by (simp add: Let_def)
  next
    case True
    then obtain rb w3 rb' where m: "markAttempted (xeAttemptNow x) (bwRes w2 ! i) (bwBudget w2) = Some rb"
      and o2: "runOthers i (xeOthers2 x) (putRes i rb w2) = Some w3"
      and st: "settle (xeSettleNow x) (billedReply (xeReply x)) (bwRes w3 ! i) (bwBudget w3) = Some rb'"
      and d: "xdWorld d = putRes i rb' w3"
      using assms(1) a o1
      by (auto simp: roundTrip_def giveUp_def Let_def split: option.splits prod.splits if_splits)
    have at: "rvOnce (fst rb) = NotRun" "rvAttempted (fst rb)"
      using attempted_once [of _ _ _ "fst rb" "snd rb"] m wr by (simp_all add: waiting_def)
    have r1: "reaches w2 (putRes i rb w2)"
      using m w2(2) wr by (intro reaches_step [of "OpAttempt (xeAttemptNow x) i"]) (simp add: waiting_def)
    have i: "i < length (bwRes (putRes i rb w2))" using w2(2) by simp
    note w3 = runOthers_keeps [OF o2 i]
    have r3: "bwRes w3 ! i = fst rb" using w3(3) w2(2) by simp
    have r2: "reaches w3 (putRes i rb' w3)"
      using st w3(2) by (intro reaches_step [of "OpSettle (xeSettleNow x) i (billedReply (xeReply x))"]) simp
    have "rvOnce (fst rb') = RanSettle (billedReply (xeReply x)) \<and> rvAttempted (fst rb')"
      using settled_once [of _ _ _ _ "fst rb'" "snd rb'"] st at r3 by simp
    moreover have "reaches w (putRes i rb' w3)"
      using w1(1) w2(1) r1 w3(1) r2 by (blast intro: reaches_trans)
    ultimately show ?thesis using Some True d w3(2) by (simp add: Let_def)
  qed
qed

text \<open>A conditional read that waits for nothing, while another request claims, and is answered by a 304.\<close>

definition exampleExchange :: "unit exchange" where
  "exampleExchange =
     \<lparr>xeMethod = ''GET'', xeConditional = True, xeWait = False, xeRefusable = False, xePreserveClaim = True,
      xeGate1 = Some (0, newRateGate), xeGate2 = Some (0, newRateGate),
      xeRounds = [\<lparr>arErr = None, arNow = 0, arOthers = [], arDone = None\<rparr>],
      xeOthers1 = [OpLease 1 claimLeaseCosts], xeRefresh = None, xeReleaseNow = 2,
      xeRemaining = 30000000000, xeStartNow = 2, xeAttemptNow = 2,
      xeOthers2 = [OpAttempt 3 1, OpSettle 4 1 True, OpTick 5 1000000000], xeReply = Reply 304 False,
      xeSettleNow = 6, xeEndNow = 6, xeCtxDeadline = False, xeFinishNow = 7\<rparr>"

theorem roundtrip_ends_its_reservation_witness:
  "\<exists>d. roundTrip exampleExchange None (initWorld 0) = Some d \<and> xdUsed d = Some 0 \<and> xdReached d
     \<and> rvOnce (bwRes (xdWorld d) ! 0) = RanSettle False \<and> xdOutcome d = RtResponse 304"
proof -
  have e: "roundTrip exampleExchange None (initWorld 0) \<noteq> None"
    "xdUsed (the (roundTrip exampleExchange None (initWorld 0))) = Some 0"
    "xdReached (the (roundTrip exampleExchange None (initWorld 0)))"
    "xdOutcome (the (roundTrip exampleExchange None (initWorld 0))) = RtResponse 304"
    by code_simp+
  then obtain d where d: "roundTrip exampleExchange None (initWorld 0) = Some d" by auto
  have "leaseFresh None (initWorld 0)" by (simp add: leaseFresh_def)
  from roundtrip_ends_its_reservation [OF d this] e d show ?thesis
    by (simp add: Let_def exampleExchange_def)
qed

text \<open>
  Every stage of a claim's lease is served, once, by the reservation that was priced for it,
  whichever stages were skipped before.
\<close>

lemma lease_stage_price:
  assumes "openLease now costs w = (Inr l, w')" "i < length costs"
  shows "\<exists>j l'. leaseTake (int i) l = (Inr j, l') \<and> rvCost (bwRes w' ! j) = costs ! i
    \<and> leaseTake (int i) l' = (Inl (StageTaken (int i)), l')
    \<and> (\<forall>k<length costs. k \<noteq> i \<longrightarrow> leaseTake (int k) l' = (Inr (lsReservations l ! k), l'\<lparr>lsTaken := (lsTaken l')[k := True]\<rparr>))"
proof -
  obtain rs b where r: "reserveLease now costs (bwBudget w) = (Inr rs, b)"
    using assms(1) by (auto simp: openLease_def split: prod.splits sum.splits)
  have rs: "map rvCost rs = costs"
    using r by (auto simp: reserveLease_def Let_def comp_def split: option.splits prod.splits if_splits)
  have n: "length rs = length costs" using arg_cong [OF rs, of length] by simp
  have l: "l = \<lparr>lsReservations = [length (bwRes w)..<length (bwRes w) + length costs],
      lsTaken = replicate (length costs) False, lsClosed = False\<rparr>" "bwRes w' = bwRes w @ rs"
    using assms(1) r n by (auto simp: openLease_def)
  have "rvCost (rs ! i) = costs ! i" using rs assms(2) n by (metis nth_map)
  then show ?thesis using assms(2) by (auto simp: leaseTake_def l nth_append)
qed

end
