(* ===== verification/TrackerIssue.thy ===== *)
theory TrackerIssue
  imports OrchApproval RevMilestone "HOL-Library.Product_Lexorder"
begin

text \<open>
  The reading half of the tracker adapter: \<open>internal/tracker/github/issue.go\<close>, \<open>comment.go\<close>, and of
  \<open>adapter.go\<close> the listings, the change log and the milestones. GitHub is an argument: a
  listing is a function from a page number to an error or the page with the number of the next
  one. A paginated loop is a partial function, since nothing in the code bounds the pages a
  server may name; the lemmas show that it returns on a server that serves a finite list.
\<close>

section \<open>Issues\<close>

text \<open>The fields of the provider's issue that the adapter reads.\<close>

record ghIssue =
  giNumber :: int
  giTitle :: string
  giBody :: string
  giState :: string
  giStateReason :: string
  giURL :: string
  giCreatedAt :: time
  giUpdatedAt :: time
  giLabels :: "string list"
  giAssignees :: "string list"
  giIsPullRequest :: bool
  giTotalBlockedBy :: "int option"

definition statePrefix :: string where "statePrefix = ''ben:''"

definition stateLabelName :: "StateLabel \<Rightarrow> string option" where
  "stateLabelName l =
     (if l = StateLabelNone then Some []
      else if l \<in> {StateLabelClaimed, StateLabelRunning, StateLabelNeedsReview, StateLabelFailed}
      then Some (statePrefix @ l) else None)"

definition isStateLabel :: "runtime \<Rightarrow> string \<Rightarrow> bool" where
  "isStateLabel u name = hasPrefix (toLower u name) statePrefix"

record revisionProjection =
  rpState :: string
  rpStateReason :: string
  rpUpdatedAt :: time

definition projectRevision :: "ghIssue \<Rightarrow> revisionProjection" where
  "projectRevision iss = \<lparr>rpState = giState iss, rpStateReason = giStateReason iss, rpUpdatedAt = giUpdatedAt iss\<rparr>"

text \<open>\<open>token\<close>, an FNV hash of the projection, is the argument \<open>token\<close>.\<close>

definition normalize :: "(revisionProjection \<Rightarrow> string) \<Rightarrow> ghIssue \<Rightarrow> coreIssue" where
  "normalize token iss =
     \<lparr>ciIdentifier = itoa (giNumber iss), ciTitle = giTitle iss, ciBody = giBody iss, ciLabels = giLabels iss,
      ciState = giState iss, ciAssignees = giAssignees iss, ciBlockers = [], ciURL = giURL iss,
      ciCreatedAt = giCreatedAt iss, ciUpdatedAt = giUpdatedAt iss, ciRevision = token (projectRevision iss),
      ciDispatchable = False\<rparr>"

definition normalizeBlockers :: "runtime \<Rightarrow> ghIssue list \<Rightarrow> Blocker list" where
  "normalizeBlockers u blocking =
     map (\<lambda>b. \<lparr>bkIdentifier = itoa (giNumber b), bkState = giState b, bkOpen = equalFold u (giState b) ''open''\<rparr>) blocking"

definition eligibleIgnoringBlockers :: "runtime \<Rightarrow> coreIssue \<Rightarrow> string list \<Rightarrow> string list \<Rightarrow> bool" where
  "eligibleIgnoringBlockers u issue requiredLabels activeStates \<longleftrightarrow>
     list_all (containsFold u (ciLabels issue)) requiredLabels
     \<and> containsFold u activeStates (ciState issue)
     \<and> ciAssignees issue = []
     \<and> \<not> list_ex (isStateLabel u) (ciLabels issue)"

definition hasOpenBlocker :: "coreIssue \<Rightarrow> bool" where
  "hasOpenBlocker issue = list_ex bkOpen (ciBlockers issue)"

definition dispatchable :: "runtime \<Rightarrow> coreIssue \<Rightarrow> string list \<Rightarrow> string list \<Rightarrow> bool" where
  "dispatchable u issue requiredLabels activeStates \<longleftrightarrow>
     eligibleIgnoringBlockers u issue requiredLabels activeStates \<and> \<not> hasOpenBlocker issue"

section \<open>Listings\<close>

definition perPage :: nat where "perPage = 100"

partial_function (option) walkPages ::
  "(int \<Rightarrow> 'e + ('a list \<times> int)) \<Rightarrow> int \<Rightarrow> 'a list \<Rightarrow> ('e + 'a list) option" where
  "walkPages fetch page acc = (case fetch page of
     Inl e \<Rightarrow> Some (Inl e)
   | Inr (items, next) \<Rightarrow>
       if next = 0 then Some (Inr (acc @ items)) else walkPages fetch next (acc @ items))"

declare walkPages.simps [code]

definition mayHaveBlockers :: "ghIssue \<Rightarrow> bool" where
  "mayHaveBlockers raw = (case giTotalBlockedBy raw of None \<Rightarrow> True | Some n \<Rightarrow> n > 0)"

definition listBlockedBy :: "runtime \<Rightarrow> (int \<Rightarrow> 'e + (ghIssue list \<times> int)) \<Rightarrow> ('e + Blocker list) option" where
  "listBlockedBy u fetch =
     map_option (\<lambda>r. case r of Inl e \<Rightarrow> Inl e | Inr all \<Rightarrow> Inr (normalizeBlockers u all)) (walkPages fetch 0 [])"

record trackerSettings =
  tsRequiredLabels :: "string list"
  tsActiveStates :: "string list"

definition applyVerdict ::
  "runtime \<Rightarrow> trackerSettings \<Rightarrow> (int \<Rightarrow> int \<Rightarrow> 'e + (ghIssue list \<times> int)) \<Rightarrow> ghIssue \<Rightarrow> coreIssue
     \<Rightarrow> ('e + coreIssue) option" where
  "applyVerdict u cfg blockedBy raw issue =
     (let eligible = eligibleIgnoringBlockers u issue (tsRequiredLabels cfg) (tsActiveStates cfg);
          verdict = (\<lambda>i. i\<lparr>ciDispatchable := eligible \<and> \<not> hasOpenBlocker i\<rparr>)
      in if eligible \<and> mayHaveBlockers raw then
           map_option (\<lambda>r. case r of Inl e \<Rightarrow> Inl e | Inr blockers \<Rightarrow> Inr (verdict (issue\<lparr>ciBlockers := blockers\<rparr>)))
             (listBlockedBy u (blockedBy (giNumber raw)))
         else Some (Inr (verdict issue)))"

text \<open>The body of the loop over one page of the issue listing.\<close>

fun pageIssues ::
  "runtime \<Rightarrow> (revisionProjection \<Rightarrow> string) \<Rightarrow> trackerSettings \<Rightarrow> (int \<Rightarrow> int \<Rightarrow> 'e + (ghIssue list \<times> int))
     \<Rightarrow> bool \<Rightarrow> coreIssue list \<Rightarrow> ghIssue list \<Rightarrow> ('e + coreIssue list) option" where
  "pageIssues u token cfg blockedBy withVerdict acc [] = Some (Inr acc)"
| "pageIssues u token cfg blockedBy withVerdict acc (raw # page) =
     (if giIsPullRequest raw then pageIssues u token cfg blockedBy withVerdict acc page
      else if \<not> withVerdict then
        pageIssues u token cfg blockedBy withVerdict (acc @ [normalize token raw]) page
      else case applyVerdict u cfg blockedBy raw (normalize token raw) of
        None \<Rightarrow> None
      | Some (Inl e) \<Rightarrow> Some (Inl e)
      | Some (Inr issue) \<Rightarrow> pageIssues u token cfg blockedBy withVerdict (acc @ [issue]) page)"

partial_function (option) listIssues ::
  "runtime \<Rightarrow> (revisionProjection \<Rightarrow> string) \<Rightarrow> trackerSettings \<Rightarrow> (int \<Rightarrow> int \<Rightarrow> 'e + (ghIssue list \<times> int))
     \<Rightarrow> bool \<Rightarrow> (int \<Rightarrow> 'e + (ghIssue list \<times> int)) \<Rightarrow> int \<Rightarrow> coreIssue list \<Rightarrow> ('e + coreIssue list) option" where
  "listIssues u token cfg blockedBy withVerdict fetch page acc = (case fetch page of
     Inl e \<Rightarrow> Some (Inl e)
   | Inr (items, next) \<Rightarrow>
       (case pageIssues u token cfg blockedBy withVerdict acc items of
          None \<Rightarrow> None
        | Some (Inl e) \<Rightarrow> Some (Inl e)
        | Some (Inr acc') \<Rightarrow>
            if next = 0 then Some (Inr acc')
            else listIssues u token cfg blockedBy withVerdict fetch next acc'))"

declare listIssues.simps [code]

definition listState :: "runtime \<Rightarrow> trackerSettings \<Rightarrow> string" where
  "listState u cfg = (case tsActiveStates cfg of
     [s] \<Rightarrow> if equalFold u s ''open'' then ''open'' else ''all''
   | _ \<Rightarrow> ''all'')"

text \<open>Pull requests of a branch.\<close>

record ghPR =
  gpNumber :: int
  gpURL :: string
  gpState :: string
  gpHeadRef :: string
  gpBaseRef :: string

datatype 'e findPRError = BranchRequired | PRAmbiguous string | FindNotAdmitted 'e | ListingPRsFailed 'e

fun pagePRs :: "string \<Rightarrow> PR option \<Rightarrow> ghPR list \<Rightarrow> 'e findPRError + PR option" where
  "pagePRs branch found [] = Inr found"
| "pagePRs branch found (pr # prs) =
     (if gpHeadRef pr \<noteq> branch \<or> gpState pr \<noteq> ''open'' then pagePRs branch found prs
      else if found \<noteq> None then Inl (PRAmbiguous branch)
      else pagePRs branch
        (Some \<lparr>prqNumber = gpNumber pr, prqURL = gpURL pr, prqState = ''open'', prqBranch = branch, prqBaseBranch = gpBaseRef pr\<rparr>)
        prs)"

partial_function (option) findPRLoop ::
  "string \<Rightarrow> (int \<Rightarrow> 'e + (ghPR list \<times> int)) \<Rightarrow> int \<Rightarrow> PR option \<Rightarrow> ('e findPRError + PR option) option" where
  "findPRLoop branch fetch page found = (case fetch page of
     Inl e \<Rightarrow> Some (Inl (ListingPRsFailed e))
   | Inr (prs, next) \<Rightarrow>
       (case pagePRs branch found prs of
          Inl e \<Rightarrow> Some (Inl e)
        | Inr found' \<Rightarrow> if next = 0 then Some (Inr found') else findPRLoop branch fetch next found'))"

declare findPRLoop.simps [code]

definition FindPR ::
  "'e option \<Rightarrow> string \<Rightarrow> (int \<Rightarrow> 'e + (ghPR list \<times> int)) \<Rightarrow> ('e findPRError + PR option) option" where
  "FindPR admit branch fetch =
     (if branch = [] then Some (Inl BranchRequired)
      else case admit of Some e \<Rightarrow> Some (Inl (FindNotAdmitted e)) | None \<Rightarrow> findPRLoop branch fetch 0 None)"

section \<open>The change log\<close>

record ghEvent =
  geEvent :: string
  geActor :: string
  geAssignee :: string
  geLabel :: string
  geAt :: time
  geID :: tid

definition claimEventKind :: "ghEvent \<Rightarrow> (ClaimEventKind \<times> string) option" where
  "claimEventKind ev =
     (if geEvent ev = ''assigned'' then Some (ClaimEventAssigned, geAssignee ev)
      else if geEvent ev = ''unassigned'' then Some (ClaimEventUnassigned, geAssignee ev)
      else if geEvent ev = ''labeled'' then Some (ClaimEventLabeled, geLabel ev)
      else if geEvent ev = ''unlabeled'' then Some (ClaimEventUnlabeled, geLabel ev)
      else if geEvent ev = ''closed'' then Some (ClaimEventClosed, [])
      else if geEvent ev = ''reopened'' then Some (ClaimEventReopened, [])
      else None)"

definition toClaimEvent :: "ghEvent \<Rightarrow> ClaimEvent option" where
  "toClaimEvent ev = map_option (\<lambda>(kind, subject).
     \<lparr>ceKind = kind, ceActor = geActor ev, ceSubject = subject, ceAt = geAt ev, ceID = geID ev\<rparr>) (claimEventKind ev)"

definition eventKey :: "ghEvent \<Rightarrow> time \<times> tid" where "eventKey ev = (geAt ev, geID ev)"

text \<open>
  The walk over the change log; the third part of a page says that it was answered from the
  cache. A full page from the cache that names no successor is followed by a probe.
\<close>

partial_function (option) eventPages ::
  "bool \<Rightarrow> (int \<Rightarrow> 'e + (ghEvent list \<times> int \<times> bool)) \<Rightarrow> int \<Rightarrow> ghEvent list \<Rightarrow> ('e + ghEvent list) option" where
  "eventPages revalidate fetch page acc = (case fetch page of
     Inl e \<Rightarrow> Some (Inl e)
   | Inr (items, next, fromCache) \<Rightarrow>
       if next = 0 then
         (if revalidate \<and> fromCache \<and> length items = perPage
          then eventPages revalidate fetch ((if page = 0 then 1 else page) + 1) (acc @ items)
          else Some (Inr (acc @ items)))
       else eventPages revalidate fetch next (acc @ items))"

declare eventPages.simps [code]

definition issueEvents ::
  "bool \<Rightarrow> (int \<Rightarrow> 'e + (ghEvent list \<times> int \<times> bool)) \<Rightarrow> ('e + ghEvent list) option" where
  "issueEvents revalidate fetch =
     map_option (\<lambda>r. case r of Inl e \<Rightarrow> Inl e | Inr evs \<Rightarrow> Inr (sort_key eventKey evs)) (eventPages revalidate fetch 0 [])"

definition issueNumber :: "string \<Rightarrow> int option" where "issueNumber identifier = parseInt64 identifier"

datatype 'e historyError = HistoryNotAdmitted 'e | HistoryBadIdentifier string | HistoryNotFound int | HistoryFailed 'e

definition ClaimHistory ::
  "('e \<Rightarrow> bool) \<Rightarrow> 'e option \<Rightarrow> string \<Rightarrow> (int \<Rightarrow> int \<Rightarrow> 'e + (ghEvent list \<times> int \<times> bool))
     \<Rightarrow> ('e historyError + ClaimEvent list) option" where
  "ClaimHistory isNotFound admit identifier fetch =
     (case admit of Some e \<Rightarrow> Some (Inl (HistoryNotAdmitted e)) | None \<Rightarrow>
      case issueNumber identifier of None \<Rightarrow> Some (Inl (HistoryBadIdentifier identifier)) | Some number \<Rightarrow>
      map_option (\<lambda>r. case r of
          Inl e \<Rightarrow> Inl (if isNotFound e then HistoryNotFound number else HistoryFailed e)
        | Inr events \<Rightarrow> Inr (List.map_filter toClaimEvent events)) (issueEvents False (fetch number)))"

section \<open>Assignments\<close>

record assignEvent =
  aeAt :: time
  aeID :: tid

definition aeBefore :: "assignEvent \<Rightarrow> assignEvent \<Rightarrow> bool" where
  "aeBefore e other \<longleftrightarrow> (if aeAt e \<noteq> aeAt other then aeAt e < aeAt other else aeID e < aeID other)"

definition aeCompare :: "assignEvent \<Rightarrow> assignEvent \<Rightarrow> int" where
  "aeCompare e other = (if aeBefore e other then - 1 else if aeBefore other e then 1 else 0)"

definition assignStep ::
  "runtime \<Rightarrow> ghEvent \<Rightarrow> (string \<rightharpoonup> assignEvent) \<times> (string \<Rightarrow> bool) \<Rightarrow> (string \<rightharpoonup> assignEvent) \<times> (string \<Rightarrow> bool)" where
  "assignStep u ev st =
     (let (held, seen) = st; login = toLower u (geAssignee ev)
      in if login = [] then st
         else if geEvent ev = ''assigned'' then
           ((if held login = None then held(login \<mapsto> \<lparr>aeAt = geAt ev, aeID = geID ev\<rparr>) else held), seen(login := True))
         else if geEvent ev = ''unassigned'' then (held(login := None), seen(login := True))
         else st)"

definition replayAssignments :: "runtime \<Rightarrow> ghEvent list \<Rightarrow> (string \<rightharpoonup> assignEvent) \<times> (string \<Rightarrow> bool)" where
  "replayAssignments u events = fold (assignStep u) events (Map.empty, \<lambda>_. False)"

section \<open>Milestones\<close>

record MilestoneComment =
  mcMilestone :: Milestone
  mcPRURL :: string
  mcReason :: string
  mcReasonUnavailable :: bool
  mcDetail :: string

datatype milestoneError =
    PublishedNeedsLink
  | FailedNeedsOneReason
  | ErrUnknownMilestone Milestone
  | NoStandingAssignment int string
  | ErrNoMilestoneOccurrence int Milestone

definition milestoneField :: "string \<Rightarrow> string \<Rightarrow> string" where
  "milestoneField name value = ''- '' @ name @ '': '' @ value"

definition emDash :: string where "emDash = [CHR 0xE2, CHR 0x80, CHR 0x94]"

definition reasonLost :: string where
  "reasonLost = ''not recorded '' @ emDash @ '' the run record did not survive a restart''"

definition milestoneLines :: "MilestoneComment \<Rightarrow> string \<Rightarrow> milestoneError + (string \<times> string list)" where
  "milestoneLines c who =
     (let m = mcMilestone c
      in if m = MilestoneClaimed then
           Inr (''**BEN claimed this issue.**'', [milestoneField ''claim principal'' (''@'' @ who)])
         else if m = MilestonePublished then
           (if mcPRURL c = [] then Inl PublishedNeedsLink
            else Inr (''**BEN published a pull request.**'', [milestoneField ''pull request'' (mcPRURL c)]))
         else if m = MilestoneFailed then
           (if (mcReason c = []) = (\<not> mcReasonUnavailable c) then Inl FailedNeedsOneReason
            else Inr (''**BEN failed on this issue and released its claim.**'',
                      [if mcReasonUnavailable c then milestoneField ''reason'' reasonLost
                       else milestoneField ''reason'' (bt @ mcReason c @ bt)]))
         else if m = MilestoneNeedsReview then
           Inr (''**BEN parked this issue for human review.**'', [])
         else Inl (ErrUnknownMilestone m))"

fun joinLines :: "string list \<Rightarrow> string" where
  "joinLines [] = []"
| "joinLines [l] = l"
| "joinLines (l # ls) = l @ nl @ joinLines ls"

definition renderMilestone :: "MilestoneComment \<Rightarrow> string \<Rightarrow> string \<Rightarrow> milestoneError + string" where
  "renderMilestone c daemon who = (case milestoneLines c who of
     Inl e \<Rightarrow> Inl e
   | Inr (headline, lines) \<Rightarrow>
       Inr (headline @ nl @ nl @ joinLines (lines
              @ (if mcDetail c \<noteq> [] then [milestoneField ''detail'' (mcDetail c)] else [])
              @ [milestoneField ''daemon'' (bt @ daemon @ bt)]) @ nl))"

definition milestoneMarker :: "Milestone \<Rightarrow> tid \<Rightarrow> string" where
  "milestoneMarker m occurrence = ''<!-- ben:milestone kind='' @ m @ '' occurrence='' @ itoa occurrence @ '' -->''"

record milestoneAnchor =
  maID :: tid
  maAt :: time

definition anchorOf :: "ghEvent \<Rightarrow> milestoneAnchor" where
  "anchorOf ev = \<lparr>maID = geID ev, maAt = geAt ev\<rparr>"

definition labeledWith :: "runtime \<Rightarrow> ghEvent \<Rightarrow> string \<Rightarrow> string list \<Rightarrow> bool" where
  "labeledWith u ev kind labels \<longleftrightarrow>
     geEvent ev = kind \<and> list_ex (\<lambda>l. equalFold u (geLabel ev) (statePrefix @ l)) labels"

fun lastTransition :: "runtime \<Rightarrow> string \<Rightarrow> string list \<Rightarrow> milestoneAnchor option \<Rightarrow> ghEvent list \<Rightarrow> milestoneAnchor option" where
  "lastTransition u kind labels found [] = found"
| "lastTransition u kind labels found (ev # events) =
     lastTransition u kind labels (if labeledWith u ev kind labels then Some (anchorOf ev) else found) events"

definition anchorOr :: "int \<Rightarrow> Milestone \<Rightarrow> milestoneAnchor option \<Rightarrow> milestoneError + milestoneAnchor" where
  "anchorOr number m found = (case found of Some a \<Rightarrow> Inr a | None \<Rightarrow> Inl (ErrNoMilestoneOccurrence number m))"

definition milestoneOccurrence ::
  "runtime \<Rightarrow> int \<Rightarrow> Milestone \<Rightarrow> string \<Rightarrow> ghEvent list \<Rightarrow> milestoneError + milestoneAnchor" where
  "milestoneOccurrence u number m who events =
     (if m = MilestoneClaimed then
        (case fst (replayAssignments u events) (toLower u who) of
           None \<Rightarrow> Inl (NoStandingAssignment number who)
         | Some start \<Rightarrow> anchorOr number m (map_option anchorOf
             (firstSuch (\<lambda>ev. geID ev \<ge> aeID start \<and> labeledWith u ev ''labeled'' [StateLabelClaimed]) events)))
      else if m = MilestoneNeedsReview then
        anchorOr number m (lastTransition u ''labeled'' [StateLabelNeedsReview] None events)
      else if m = MilestoneFailed then
        anchorOr number m (lastTransition u ''labeled'' [StateLabelFailed] None events)
      else if m = MilestonePublished then
        anchorOr number m (lastTransition u ''unlabeled'' [StateLabelClaimed, StateLabelRunning] None events)
      else Inl (ErrUnknownMilestone m))"

text \<open>The walk for the marker: a page is the bodies of comments; the listing has the \<open>since\<close> bound.\<close>

partial_function (option) markerPages ::
  "(int \<Rightarrow> 'e + (string list \<times> int)) \<Rightarrow> string \<Rightarrow> int \<Rightarrow> ('e + bool) option" where
  "markerPages fetch marker page = (case fetch page of
     Inl e \<Rightarrow> Some (Inl e)
   | Inr (bodies, next) \<Rightarrow>
       if list_ex (\<lambda>b. contains b marker) bodies then Some (Inr True)
       else if next = 0 then Some (Inr False) else markerPages fetch marker next)"

declare markerPages.simps [code]

definition hasMarker ::
  "(time option \<Rightarrow> int \<Rightarrow> 'e + (string list \<times> int)) \<Rightarrow> string \<Rightarrow> time \<Rightarrow> ('e + bool) option" where
  "hasMarker listComments marker anchoredAt =
     markerPages (listComments (if anchoredAt = zeroTime then None else Some (anchoredAt - nanosPerSecond))) marker 0"

text \<open>
  \<open>Comment\<close> after its gate and its principal: the comment it creates, if any. The last line of the
  body is the marker.
\<close>

datatype 'e commentError =
    CommentRefused milestoneError | CommentTracker 'e
  | CommentNotAdmitted 'e | CommentBadIdentifier string | CommentNoPrincipal 'e | CommentNotCreated 'e

text \<open>From the rendering on: an error, the body to post, or nothing when the marker is there.\<close>

definition CommentMilestone ::
  "runtime \<Rightarrow> int \<Rightarrow> string \<Rightarrow> string \<Rightarrow> MilestoneComment \<Rightarrow> (int \<Rightarrow> 'e + (ghEvent list \<times> int \<times> bool))
     \<Rightarrow> (time option \<Rightarrow> int \<Rightarrow> 'e + (string list \<times> int)) \<Rightarrow> ('e commentError + string option) option" where
  "CommentMilestone u number daemon who c eventFetch listComments =
     (case renderMilestone c daemon who of
        Inl e \<Rightarrow> Some (Inl (CommentRefused e))
      | Inr body \<Rightarrow>
          (case issueEvents True eventFetch of
             None \<Rightarrow> None
           | Some (Inl e) \<Rightarrow> Some (Inl (CommentTracker e))
           | Some (Inr events) \<Rightarrow>
               (case milestoneOccurrence u number (mcMilestone c) who events of
                  Inl e \<Rightarrow> Some (Inl (CommentRefused e))
                | Inr anchor \<Rightarrow>
                    let marker = milestoneMarker (mcMilestone c) (maID anchor)
                    in case hasMarker listComments marker (maAt anchor) of
                         None \<Rightarrow> None
                       | Some (Inl e) \<Rightarrow> Some (Inl (CommentTracker e))
                       | Some (Inr True) \<Rightarrow> Some (Inr None)
                       | Some (Inr False) \<Rightarrow> Some (Inr (Some (body @ nl @ marker @ nl))))))"


section \<open>Walks see everything\<close>

text \<open>
  A server that serves a finite list in pages of a hundred. Page 0 is the first page. The next
  page it names is the following one; it names none at the end, and, where an answer may come
  from the cache, a cached page may also name none although the list has grown past it.
\<close>

definition pageOf :: "int \<Rightarrow> 'a list \<Rightarrow> 'a list" where
  "pageOf page xs = take perPage (drop (nat (page - 1) * perPage) xs)"

definition pageNumber :: "int \<Rightarrow> int" where "pageNumber page = (if page = 0 then 1 else page)"

definition servesLog :: "bool \<Rightarrow> (int \<Rightarrow> 'e + ('a list \<times> int \<times> bool)) \<Rightarrow> 'a list \<Rightarrow> bool" where
  "servesLog revalidate fetch xs \<longleftrightarrow> (\<forall>page\<ge>0. \<exists>next fromCache.
     fetch page = Inr (pageOf (pageNumber page) xs, next, fromCache)
     \<and> (next = 0 \<or> next = pageNumber page + 1 \<and> nat (pageNumber page) * perPage < length xs)
     \<and> (next = 0 \<longrightarrow> length xs \<le> nat (pageNumber page) * perPage \<or> revalidate \<and> fromCache))"

lemma eventPages_complete:
  assumes s: "servesLog revalidate fetch xs" and "0 \<le> page"
    and "acc = take (nat (pageNumber page - 1) * perPage) xs"
  shows "eventPages revalidate fetch page acc = Some (Inr xs)"
  using assms(2,3)
proof (induction "length xs + perPage - nat (pageNumber page - 1) * perPage" arbitrary: page acc rule: less_induct)
  case less
  let ?q = "pageNumber page"
  have q: "1 \<le> ?q" using less.prems(1) by (simp add: pageNumber_def)
  obtain nxt fromCache where f: "fetch page = Inr (pageOf ?q xs, nxt, fromCache)"
    and n: "nxt = 0 \<or> nxt = ?q + 1 \<and> nat ?q * perPage < length xs"
    and z: "nxt = 0 \<longrightarrow> length xs \<le> nat ?q * perPage \<or> revalidate \<and> fromCache"
    using s less.prems(1) unfolding servesLog_def by metis
  have nq: "nat ?q = Suc (nat (?q - 1))" using q by simp
  have acc: "acc @ pageOf ?q xs = take (nat ?q * perPage) xs"
    unfolding less.prems(2) pageOf_def nq by (simp add: take_add [symmetric] add.commute)
  have pos: "0 < perPage" by (simp add: perPage_def)
  have rec: "eventPages revalidate fetch (?q + 1) (take (nat ?q * perPage) xs) = Some (Inr xs)"
    if "nat ?q * perPage \<le> length xs" "nat (?q - 1) * perPage < length xs"
  proof (rule less.hyps)
    show "length xs + perPage - nat (pageNumber (?q + 1) - 1) * perPage
        < length xs + perPage - nat (?q - 1) * perPage"
      using that q pos nq by (simp add: pageNumber_def)
  qed (use q in \<open>simp_all add: pageNumber_def\<close>)
  consider "nxt \<noteq> 0" | "nxt = 0" "revalidate \<and> fromCache \<and> length (pageOf ?q xs) = perPage"
    | "nxt = 0" "\<not> (revalidate \<and> fromCache \<and> length (pageOf ?q xs) = perPage)" by blast
  then show ?case
  proof cases
    case 1
    then have "nxt = ?q + 1" "nat ?q * perPage < length xs" using n by auto
    then show ?thesis using rec acc q f nq 1 by (subst eventPages.simps) simp
  next
    case 2
    then have full: "nat ?q * perPage \<le> length xs" "nat (?q - 1) * perPage < length xs"
      using pos nq by (auto simp: pageOf_def min_def split: if_splits)
    show ?thesis using 2 rec [OF full] acc f by (subst eventPages.simps) (simp add: pageNumber_def)
  next
    case 3
    have "length xs \<le> nat ?q * perPage"
    proof (rule ccontr)
      assume a: "\<not> ?thesis"
      then have "length (pageOf ?q xs) = perPage" using nq by (simp add: pageOf_def)
      then show False using 3 z a by auto
    qed
    then show ?thesis using 3 acc f by (subst eventPages.simps) auto
  qed
qed

text \<open>
  C33. The change log is read whole. On a server that serves the log in pages of a hundred,
  the walk returns every event, in the order of time and id, and ends; also when a full
  page is answered from the cache, and names no successor, although the log has grown since.
\<close>

theorem change_log_read_whole:
  assumes "servesLog revalidate fetch events"
  shows "issueEvents revalidate fetch = Some (Inr (sort_key eventKey events))"
  using eventPages_complete [OF assms, of 0 "[]"] by (simp add: issueEvents_def pageNumber_def)

text \<open>A log of 150 events of which the first page is cached from when it held a hundred.\<close>

definition longLog :: "ghEvent list" where
  "longLog = map (\<lambda>i. \<lparr>geEvent = ''labeled'', geActor = ''a'', geAssignee = [], geLabel = ''x'',
     geAt = int i, geID = int i + 1\<rparr>) [0..<150]"

definition staleFetch :: "int \<Rightarrow> unit + (ghEvent list \<times> int \<times> bool)" where
  "staleFetch page = Inr (pageOf (pageNumber page) longLog, 0, pageNumber page = 1)"

theorem change_log_read_whole_witness:
  "issueEvents True staleFetch = Some (Inr (sort_key eventKey longLog)) \<and> length longLog = 150"
proof -
  have "servesLog True staleFetch longLog"
    unfolding servesLog_def staleFetch_def
    by (auto simp: pageNumber_def longLog_def perPage_def)
  from change_log_read_whole [OF this] show ?thesis by (simp add: longLog_def)
qed

text \<open>A walk for the marker over a served list of bodies decides whether one of them has it.\<close>

definition servesPages :: "(int \<Rightarrow> 'e + ('a list \<times> int)) \<Rightarrow> 'a list \<Rightarrow> bool" where
  "servesPages fetch xs \<longleftrightarrow> (\<forall>page\<ge>0.
     fetch page = Inr (pageOf (pageNumber page) xs,
       if nat (pageNumber page) * perPage < length xs then pageNumber page + 1 else 0))"

text \<open>The rule for a walk over served pages: the last page, and a page followed by the rest.\<close>

lemma served_walk:
  assumes s: "servesPages fetch xs"
    and final: "\<And>page items. fetch page = Inr (items, 0) \<Longrightarrow> P page items"
    and more_pages: "\<And>page items nxt rest. fetch page = Inr (items, nxt) \<Longrightarrow> nxt \<noteq> 0 \<Longrightarrow> P nxt rest \<Longrightarrow> P page (items @ rest)"
  shows "P 0 xs"
proof -
  have "P page (drop (nat (pageNumber page - 1) * perPage) xs)" if "0 \<le> page" for page
    using that
  proof (induction "length xs - nat (pageNumber page - 1) * perPage" arbitrary: page rule: less_induct)
    case less
    let ?q = "pageNumber page"
    let ?rest = "drop (nat (?q - 1) * perPage) xs"
    have q: "1 \<le> ?q" using less.prems by (simp add: pageNumber_def)
    have nq: "nat ?q = Suc (nat (?q - 1))" using q by simp
    have f: "fetch page = Inr (take perPage ?rest, if nat ?q * perPage < length xs then ?q + 1 else 0)"
      using s less.prems by (simp add: servesPages_def pageOf_def)
    have split: "?rest = take perPage ?rest @ drop (nat ?q * perPage) xs"
      unfolding nq by (metis append_take_drop_id drop_drop mult_Suc)
    show ?case
    proof (cases "nat ?q * perPage < length xs")
      case True
      have "P (?q + 1) (drop (nat ?q * perPage) xs)"
        using less.hyps [of "?q + 1"] True q nq by (simp add: pageNumber_def perPage_def)
      then have "P page (take perPage ?rest @ drop (nat ?q * perPage) xs)"
        using more_pages [of page "take perPage ?rest" "?q + 1"] f True q by simp
      then show ?thesis by (simp only: split [symmetric])
    next
      case False
      then show ?thesis using final [of page "take perPage ?rest"] f split by simp
    qed
  qed
  from this [of 0] show ?thesis by (simp add: pageNumber_def)
qed

lemma markerPages_decides:
  "servesPages fetch bodies \<Longrightarrow> markerPages fetch marker 0 = Some (Inr (list_ex (\<lambda>b. contains b marker) bodies))"
  by (erule served_walk) (simp add: markerPages.simps)+

lemma walkPages_complete: "servesPages fetch xs \<Longrightarrow> walkPages fetch 0 acc = Some (Inr (acc @ xs))"
proof -
  assume "servesPages fetch xs"
  then have "\<forall>acc. walkPages fetch 0 acc = Some (Inr (acc @ xs))"
    by (rule served_walk) (simp add: walkPages.simps)+
  then show ?thesis by simp
qed

section \<open>Milestones reach the controller once\<close>

text \<open>The comments of an issue: their bodies and the times of their last update.\<close>

type_synonym issueComments = "(string \<times> time) list"

definition servesComments :: "(time option \<Rightarrow> int \<Rightarrow> 'e + (string list \<times> int)) \<Rightarrow> issueComments \<Rightarrow> bool" where
  "servesComments listComments cs \<longleftrightarrow> (\<forall>since. servesPages (listComments since)
     (map fst (filter (\<lambda>c. case since of None \<Rightarrow> True | Some t \<Rightarrow> t \<le> snd c) cs)))"

lemma hasMarker_decides:
  assumes "servesComments listComments cs"
  shows "hasMarker listComments marker anchoredAt = Some (Inr (\<exists>c\<in>set cs.
    contains (fst c) marker \<and> (anchoredAt = zeroTime \<or> anchoredAt - nanosPerSecond \<le> snd c)))"
proof -
  have "markerPages (listComments since) marker 0 = Some (Inr (\<exists>c\<in>set cs.
      contains (fst c) marker \<and> (case since of None \<Rightarrow> True | Some t \<Rightarrow> t \<le> snd c)))" for since
    using markerPages_decides [OF assms [unfolded servesComments_def, rule_format], of since marker]
    by (simp add: list_ex_iff Bex_def conj_ac image_iff)
  then show ?thesis by (simp add: hasMarker_def)
qed




definition pubLog :: "ghEvent list" where
  "pubLog =
     [\<lparr>geEvent = ''assigned'', geActor = ''ben'', geAssignee = ''ben'', geLabel = [], geAt = 1, geID = 3\<rparr>,
      \<lparr>geEvent = ''labeled'', geActor = ''ben'', geAssignee = [], geLabel = ''ben:running'', geAt = 2, geID = 5\<rparr>,
      \<lparr>geEvent = ''unlabeled'', geActor = ''ben'', geAssignee = [], geLabel = ''ben:running'', geAt = 4, geID = 7\<rparr>]"

definition pubFetch :: "int \<Rightarrow> unit + (ghEvent list \<times> int \<times> bool)" where
  "pubFetch page = Inr (if page = 0 then pubLog else [], 0, False)"

definition pubComment :: MilestoneComment where
  "pubComment = \<lparr>mcMilestone = MilestonePublished, mcPRURL = ''https://github.com/o/r/pull/9'', mcReason = [],
     mcReasonUnavailable = False, mcDetail = []\<rparr>"

definition pubRuntime :: runtime where
  "pubRuntime = \<lparr>foldOf = id, lowerOf = id, hostOf = Some\<rparr>"

definition noComments :: "time option \<Rightarrow> int \<Rightarrow> unit + (string list \<times> int)" where
  "noComments since page = Inr ([], 0)"

definition pubPosted :: "(unit commentError + string option) option" where
  "pubPosted = CommentMilestone pubRuntime 4 ''host/flow'' ''ben'' pubComment pubFetch noComments"

definition pubBody :: string where
  "pubBody = (case pubPosted of Some (Inr (Some b)) \<Rightarrow> b | _ \<Rightarrow> [])"

lemma pub_facts:
  "pubPosted = Some (Inr (Some pubBody))" "pubBody \<noteq> []"
  "issueEvents True pubFetch = Some (Inr pubLog)"
  "milestoneOccurrence pubRuntime 4 MilestonePublished ''ben'' pubLog = Inr \<lparr>maID = 7, maAt = 4\<rparr>"
  by code_simp+



text \<open>
  The marker is looked for in every comment, whoever wrote it: a stranger's comment that quotes
  the marker of the current occurrence keeps the milestone from being posted.
\<close>

lemma foreign_marker_suppresses:
  assumes "renderMilestone c daemon who = Inr rendered" "issueEvents True eventFetch = Some (Inr events)"
    and "milestoneOccurrence u number (mcMilestone c) who events = Inr anchor"
    and "servesComments list2 cs" "(milestoneMarker (mcMilestone c) (maID anchor), t) \<in> set cs" "maAt anchor \<le> t"
  shows "CommentMilestone u number daemon who c eventFetch list2 = Some (Inr None)"
proof -
  let ?m = "milestoneMarker (mcMilestone c) (maID anchor)"
  have "contains ?m ?m" unfolding contains_iff by (rule exI [of _ "[]"], rule exI [of _ "[]"]) simp
  then have "hasMarker list2 ?m (maAt anchor) = Some (Inr True)"
    using hasMarker_decides [OF assms(4), of ?m "maAt anchor"] assms(5,6)
    by (auto simp: nanosPerSecond_def intro!: bexI [of _ "(?m, t)"])
  then show ?thesis using assms(1-3) by (simp add: CommentMilestone_def Let_def)
qed

subsection \<open>What the review controller reads\<close>

lemma milestoneMarker_print:
  "milestoneMarker m occ = printMarker markerMilestone [(''kind'', m), (''occurrence'', itoa occ)]"
  by (simp add: milestoneMarker_def printMarker_def printField_def markerMilestone_def)

lemma PublishedOccurrence_framed:
  assumes "framed pre" "validID occ"
  shows "PublishedOccurrence (pre @ milestoneMarker MilestonePublished occ @ nl) = Inr occ"
proof -
  let ?kvs = "[(''kind'', MilestonePublished), (''occurrence'', itoa occ)]"
  have k: "isField MilestonePublished" "isField markerMilestone" "isField ''kind''" "isField ''occurrence''"
    by code_simp+
  have "isField (itoa occ)" using assms(2) by (intro fields_itoa) (simp add: validID_def)
  then have "wellFormedFields ?kvs" using k by (simp add: wellFormedFields_def)
  from parseMarker_print [OF assms(1) k(2) this] show ?thesis
    using fieldID_map [OF assms(2), of "map_of ?kvs" "''occurrence''"]
    by (simp add: PublishedOccurrence_def milestoneMarker_print fieldOr_def MilestonePublished_def)
qed

lemma noOpener_line: "CHR ''<'' \<notin> set a \<Longrightarrow> noOpener v \<Longrightarrow> noOpener b \<Longrightarrow> noOpener (a @ v @ nl @ b)"
  using noOpener_sep [of "CHR 0x0A" v b] noOpener_plain [of a "v @ CHR 0x0A # b"] by (simp add: nl_def)

text \<open>The body of a published milestone: its first field is the link.\<close>

definition publishedHead :: string where
  "publishedHead = ''**BEN published a pull request.**''"

lemma published_body:
  assumes "renderMilestone c daemon who = Inr body" "mcMilestone c = MilestonePublished"
  obtains rest where "body = publishedHead @ nl @ nl @ (prLinkField @ mcPRURL c) @ nl @ rest" "mcPRURL c \<noteq> []"
    and "rest = (if mcDetail c \<noteq> [] then ''- detail: '' @ mcDetail c @ nl else []) @ ''- daemon: '' @ bt @ daemon @ bt @ nl"
proof -
  have n: "MilestonePublished \<noteq> MilestoneClaimed" by (simp add: milestones)
  show thesis
    using assms n that
    by (auto simp: renderMilestone_def milestoneLines_def Let_def milestoneField_def publishedHead_def prLinkField_def
      split: if_splits)
qed

lemma trimSpace_plain: "s \<noteq> [] \<Longrightarrow> plainChar (hd s) \<Longrightarrow> plainChar (last s) \<Longrightarrow> trimSpace s = s"
proof -
  assume s: "s \<noteq> []" "plainChar (hd s)" "plainChar (last s)"
  have "\<not> hasPrefix (rev s) e" if "e \<in> set (map rev spaceEncodings)" for e
    using that spaceEncodings_head hasPrefix_hd [of "last s" "tl (rev s)" e] s
    by (cases s rule: rev_cases) (auto simp: hd_rev)
  then have "spaceWidthRev (rev s) = 0"
    using firstSuch_None_iff [of "hasPrefix (rev s)" "map rev spaceEncodings"] by (auto simp: spaceWidthRev_def)
  moreover have "spaceWidth s = 0" using s by (cases s) (simp_all add: spaceWidth_plain)
  ultimately show ?thesis by (simp add: trimSpace_def stripBy_id)
qed

lemma publishedPRLink_body:
  assumes "list_all plainChar link" "link \<noteq> []"
  shows "publishedPRLink (publishedHead @ nl @ nl @ (prLinkField @ link) @ nl @ rest) = Some link"
proof -
  have l: "CHR 0x0A \<notin> set link" using assms(1) by (auto simp: list_all_iff plainChar_def byte_def)
  have h: "CHR 0x0A \<notin> set publishedHead" "CHR 0x0A \<notin> set (prLinkField @ link)"
    using l by (simp_all add: publishedHead_def prLinkField_def)
  have s: "splitOn CHR 0x0A (publishedHead @ nl @ nl @ (prLinkField @ link) @ nl @ rest)
      = publishedHead # [] # (prLinkField @ link) # splitOn CHR 0x0A rest"
    using splitOn_line [OF h(1)] splitOn_line [OF h(2)] by (simp add: nl_def)
  have e: "plainChar (hd link)" "plainChar (last link)" using assms by (simp_all add: list_all_iff)
  have t: "trimSpace (prLinkField @ link) = prLinkField @ link" "trimSpace link = link"
    using e assms(2) by (auto intro!: trimSpace_plain simp: prLinkField_def plainChar_def byte_def)
  have c: "cutPrefix (trimSpace publishedHead) prLinkField = None" "cutPrefix (trimSpace []) prLinkField = None"
    by code_simp+
  show ?thesis
    unfolding publishedPRLink_def s using assms(2) c t by (simp add: cutPrefix_def)
qed

lemma milestoneLoop_append:
  "milestoneLoop u cfg out (cs @ ds) = milestoneLoop u cfg (milestoneLoop u cfg out cs) ds"
  by (induction cs arbitrary: out) (auto split: sum.splits option.splits)

lemma posted_body_read:
  assumes r: "renderMilestone c daemon who = Inr body" "mcMilestone c = MilestonePublished"
    and link: "list_all plainChar (mcPRURL c)" and clean: "noOpener (mcPRURL c)" "noOpener (mcDetail c)" "noOpener daemon"
    and occ: "validID occ"
  defines "text \<equiv> body @ nl @ milestoneMarker MilestonePublished occ @ nl"
  shows "PublishedOccurrence text = Inr occ" "publishedPRLink text = Some (mcPRURL c)"
proof -
  obtain rest where b: "body = publishedHead @ nl @ nl @ (prLinkField @ mcPRURL c) @ nl @ rest" "mcPRURL c \<noteq> []"
    and rest: "rest = (if mcDetail c \<noteq> [] then ''- detail: '' @ mcDetail c @ nl else []) @ ''- daemon: '' @ bt @ daemon @ bt @ nl"
    by (rule published_body [OF r])
  have "noOpener (daemon @ bt @ nl @ nl)"
    using noOpener_sep [of "CHR 0x60" daemon "nl @ nl"] clean(3) noOpener_no_lt [of "nl @ nl"]
    by (simp add: bt_def nl_def)
  then have d: "noOpener ((''- daemon: '' @ bt) @ daemon @ bt @ nl @ nl)"
    by (rule noOpener_plain [rotated]) (simp add: bt_def)
  have "noOpener (rest @ nl)"
    using noOpener_line [of "''- detail: ''", OF _ clean(2) d] d by (simp add: rest)
  then have "noOpener ((publishedHead @ nl @ nl @ prLinkField) @ mcPRURL c @ nl @ (rest @ nl))"
    using clean(1) by (intro noOpener_line) (simp_all add: publishedHead_def prLinkField_def nl_def)
  then have "framed (body @ nl)"
    by (simp add: b framed_def nl_def)
  from PublishedOccurrence_framed [OF this occ] show "PublishedOccurrence text = Inr occ"
    by (simp add: text_def)
  show "publishedPRLink text = Some (mcPRURL c)"
    using publishedPRLink_body [OF link b(2), of "rest @ nl @ milestoneMarker MilestonePublished occ @ nl"]
    by (simp add: text_def b)
qed

text \<open>
  C14. A publication the daemon posts reaches the review controller. The comment that \<open>Comment\<close>
  creates for a published milestone is read by \<open>publishedMilestones\<close>, when its author is the
  tracker's, as a delivery with the id of the label transition and the link of the pull
  request, unless an earlier comment of that author already delivered this occurrence;
  provided the link is plain text and no part of the body contains an HTML comment.
\<close>

theorem publication_reaches_controller:
  assumes "CommentMilestone u number daemon who c eventFetch listComments = Some (Inr (Some body))"
    and "mcMilestone c = MilestonePublished" and "list_all plainChar (mcPRURL c)"
    and "noOpener (mcPRURL c)" "noOpener (mcDetail c)" "noOpener daemon"
    and "\<forall>a. milestoneOccurrence u number MilestonePublished who events = Inr a \<longrightarrow> validID (maID a)"
    and "issueEvents True eventFetch = Some (Inr events)"
    and "cmBody posted = body" "eqFold u (cmAuthor posted) (cfgTrackerAuthor cfg)"
  shows "\<exists>anchor. milestoneOccurrence u number MilestonePublished who events = Inr anchor \<and>
     (\<exists>t\<in>set (publishedMilestones u cfg (comments @ [posted])). trOccurrence t = maID anchor
        \<and> ((\<forall>t'\<in>set (publishedMilestones u cfg comments). trOccurrence t' \<noteq> maID anchor)
            \<longrightarrow> trPRURL t = mcPRURL c \<and> trCommentID t = cmID posted))"
proof -
  obtain rendered anchor where r: "renderMilestone c daemon who = Inr rendered"
    and a: "milestoneOccurrence u number MilestonePublished who events = Inr anchor"
    and b: "body = rendered @ nl @ milestoneMarker MilestonePublished (maID anchor) @ nl"
    using assms(1,2,8) by (auto simp: CommentMilestone_def Let_def split: sum.splits option.splits bool.splits)
  have occ: "validID (maID anchor)" using assms(7) a by blast
  have p: "PublishedOccurrence (cmBody posted) = Inr (maID anchor)" "publishedPRLink (cmBody posted) = Some (mcPRURL c)"
    using posted_body_read [OF r assms(2-6) occ] by (simp_all add: assms(9) b)
  let ?old = "milestoneLoop u cfg [] comments"
  have new: "set (publishedMilestones u cfg (comments @ [posted])) = (if maID anchor \<in> trOccurrence ` set ?old then set ?old
      else insert \<lparr>trOccurrence = maID anchor, trPRURL = mcPRURL c, trAt = cmCreatedAt posted, trCommentID = cmID posted\<rparr> (set ?old))"
    using p assms(10) by (simp add: publishedMilestones_def milestoneLoop_append)
  have old: "set (publishedMilestones u cfg comments) = set ?old" by (simp add: publishedMilestones_def)
  show ?thesis
  proof (cases "maID anchor \<in> trOccurrence ` set ?old")
    case True
    then obtain t where "t \<in> set ?old" "trOccurrence t = maID anchor" by auto
    then show ?thesis using a True by (auto simp: new old)
  next
    case False
    then show ?thesis using a by (simp add: new old)
  qed
qed

definition pubConfig :: Config where
  "pubConfig = \<lparr>cfgOwner = ''o'', cfgRepo = ''r'', cfgIssue = 4, cfgPrincipal = ''ben'', cfgTrackerAuthor = ''ben'',
     cfgController = ''ctl'', cfgAllowSharedTrackerController = False, cfgRequiredLabels = [''ben''],
     cfgQueueLabel = ''ben'', cfgAddHumanReviewLabel = False, cfgRoundCap = 3, cfgReviewerProfiles = [],
     cfgDefaultReviewerProfile = []\<rparr>"

theorem publication_reaches_controller_witness:
  "\<exists>t\<in>set (publishedMilestones pubRuntime pubConfig [\<lparr>cmID = 11, cmAuthor = ''BEN'', cmBody = pubBody, cmCreatedAt = 5\<rparr>]).
     trOccurrence t = 7 \<and> trPRURL t = ''https://github.com/o/r/pull/9'' \<and> trCommentID t = 11"
proof -
  let ?c = "\<lparr>cmID = 11, cmAuthor = ''BEN'', cmBody = pubBody, cmCreatedAt = 5\<rparr>"
  have f: "mcMilestone pubComment = MilestonePublished" "list_all plainChar (mcPRURL pubComment)"
    "noOpener (mcPRURL pubComment)" "noOpener (mcDetail pubComment)" "noOpener ''host/flow''"
    "eqFold pubRuntime ''BEN'' ''ben''" "mcPRURL pubComment = ''https://github.com/o/r/pull/9''"
    by code_simp+
  show ?thesis
    using publication_reaches_controller [of pubRuntime 4 "''host/flow''" "''ben''" pubComment pubFetch noComments
        pubBody pubLog ?c pubConfig "[]"] pub_facts f
    by (simp add: pubPosted_def validID_def publishedMilestones_def pubConfig_def)
qed

end
