(* ===== verification/TrackerClaim.thy ===== *)
theory TrackerClaim
  imports TrackerIssue
begin

text \<open>
  The writing half of the tracker adapter (\<open>internal/tracker/github/adapter.go\<close>): \<open>Claim\<close> with the
  arbitration of a contested claim, \<open>Release\<close>, and the projection of a state onto one label. Each
  request is an argument: the error or the answer it returns. The writes a handler
  makes are part of its result.
\<close>

section \<open>Claim\<close>

datatype raceError = NoAssignmentEvent string

fun raceLoop ::
  "runtime \<Rightarrow> (string \<rightharpoonup> assignEvent) \<Rightarrow> (string \<Rightarrow> bool) \<Rightarrow> string \<Rightarrow> assignEvent \<Rightarrow> string list
     \<Rightarrow> raceError + (string \<times> assignEvent)" where
  "raceLoop u held seen winner best [] = Inr (winner, best)"
| "raceLoop u held seen winner best (login # assignees) =
     (let key = toLower u login
      in case held key of
           None \<Rightarrow> if seen key then raceLoop u held seen winner best assignees
                   else Inl (NoAssignmentEvent login)
         | Some ev \<Rightarrow> if winner = [] \<or> aeBefore ev best then raceLoop u held seen login ev assignees
                       else raceLoop u held seen winner best assignees)"

definition zeroAssign :: assignEvent where "zeroAssign = \<lparr>aeAt = zeroTime, aeID = 0\<rparr>"

definition wonRace :: "runtime \<Rightarrow> ghEvent list \<Rightarrow> string list \<Rightarrow> string \<Rightarrow> raceError + bool" where
  "wonRace u events assignees who =
     (let (held, seen) = replayAssignments u events
      in if held (toLower u who) = None then Inr False
         else case raceLoop u held seen [] zeroAssign assignees of
           Inl e \<Rightarrow> Inl e
         | Inr (winner, best) \<Rightarrow> Inr (equalFold u winner who))"

datatype trackerWrite = WroteAssign | WroteRelease

datatype 'e claimResult =
    ClaimNotAttempted "'e option"
  | ClaimFailed 'e
  | ClaimFailedJoined "'e option" 'e
  | ClaimAnswer bool

text \<open>
  What the calls of one claim answer: the gate, the principal, the lease and the stages, the
  assignment and whether it was attempted, the read-back, the change log, and the release.
\<close>

record 'e claimEnv =
  clIdentifier :: string
  clAdmit :: "'e option"
  clPrincipal :: "'e + string"
  clLease :: "'e option"
  clAssignStage :: "'e option"
  clAssign :: "'e option"
  clAssignAttempted :: bool
  clVerifyStage :: "'e option"
  clReadBack :: "'e + string list"
  clEvents :: "'e + ghEvent list"
  clRelease :: "'e option"

definition Claim :: "runtime \<Rightarrow> 'e claimEnv \<Rightarrow> 'e claimResult \<times> trackerWrite list" where
  "Claim u env =
     (case clAdmit env of Some e \<Rightarrow> (ClaimNotAttempted (Some e), []) | None \<Rightarrow>
      case issueNumber (clIdentifier env) of None \<Rightarrow> (ClaimNotAttempted None, []) | Some number \<Rightarrow>
      case clPrincipal env of Inl e \<Rightarrow> (ClaimNotAttempted (Some e), []) | Inr who \<Rightarrow>
      case clLease env of Some e \<Rightarrow> (ClaimNotAttempted (Some e), []) | None \<Rightarrow>
      case clAssignStage env of Some e \<Rightarrow> (ClaimNotAttempted (Some e), []) | None \<Rightarrow>
      case clAssign env of
        Some assignErr \<Rightarrow>
          if \<not> clAssignAttempted env then (ClaimNotAttempted (Some assignErr), [])
          else (case clRelease env of
                  Some relErr \<Rightarrow> (ClaimFailedJoined (Some assignErr) relErr, [WroteAssign, WroteRelease])
                | None \<Rightarrow> (ClaimFailed assignErr, [WroteAssign, WroteRelease]))
      | None \<Rightarrow>
      case clVerifyStage env of Some e \<Rightarrow> (ClaimFailed e, [WroteAssign]) | None \<Rightarrow>
      case clReadBack env of
        Inl verifyErr \<Rightarrow>
          (case clRelease env of
             Some relErr \<Rightarrow> (ClaimFailedJoined (Some verifyErr) relErr, [WroteAssign, WroteRelease])
           | None \<Rightarrow> (ClaimFailed verifyErr, [WroteAssign, WroteRelease]))
      | Inr assignees \<Rightarrow>
          if \<not> containsFold u assignees who then (ClaimAnswer False, [WroteAssign])
          else if length assignees = 1 then (ClaimAnswer True, [WroteAssign])
          else
            (case (case clEvents env of Inl e \<Rightarrow> Inl (Some e)
                   | Inr events \<Rightarrow> (case wonRace u events assignees who of Inl _ \<Rightarrow> Inl None | Inr won \<Rightarrow> Inr won)) of
               Inl err \<Rightarrow>
                 (case clRelease env of
                    Some relErr \<Rightarrow> (ClaimFailedJoined err relErr, [WroteAssign, WroteRelease])
                  | None \<Rightarrow> (ClaimAnswer False, [WroteAssign, WroteRelease]))
             | Inr won \<Rightarrow>
                 if won then (ClaimAnswer True, [WroteAssign])
                 else (case clRelease env of
                         Some e \<Rightarrow> (ClaimFailed e, [WroteAssign, WroteRelease])
                       | None \<Rightarrow> (ClaimAnswer False, [WroteAssign, WroteRelease]))))"

definition Release :: "'e claimEnv \<Rightarrow> 'e option + trackerWrite list" where
  "Release env =
     (case clAdmit env of Some e \<Rightarrow> Inl (Some e) | None \<Rightarrow>
      case issueNumber (clIdentifier env) of None \<Rightarrow> Inl None | Some number \<Rightarrow>
      case clPrincipal env of Inl e \<Rightarrow> Inl (Some e) | Inr who \<Rightarrow>
      case clRelease env of Some e \<Rightarrow> Inl (Some e) | None \<Rightarrow> Inr [WroteRelease])"

section \<open>No stray assignment\<close>

text \<open>
  A claim that does not answer yes leaves no assignment behind untried. Either it made no
  write at all, and says so; or it tried the release after the assignment; or the
  read-back showed that the assignment had not landed. The stage of the read-back is always
  available, since the lease was just opened.
\<close>

theorem claim_unwinds:
  assumes "Claim u env = (result, writes)" and "clVerifyStage env = None"
  shows "result = ClaimAnswer True \<or> (\<exists>e. result = ClaimNotAttempted e) \<and> writes = []
    \<or> WroteRelease \<in> set writes
    \<or> (\<exists>assignees who. clReadBack env = Inr assignees \<and> clPrincipal env = Inr who \<and> \<not> containsFold u assignees who)"
  using assms by (auto simp: Claim_def split: option.splits sum.splits if_splits)

definition exampleClaim :: "unit claimEnv" where
  "exampleClaim = \<lparr>clIdentifier = ''7'', clAdmit = None, clPrincipal = Inr ''ben'', clLease = None,
     clAssignStage = None, clAssign = Some (), clAssignAttempted = True, clVerifyStage = None,
     clReadBack = Inl (), clEvents = Inl (), clRelease = None\<rparr>"

theorem claim_unwinds_witness:
  "Claim pubRuntime exampleClaim = (ClaimFailed (), [WroteAssign, WroteRelease])
     \<and> WroteRelease \<in> set (snd (Claim pubRuntime exampleClaim))"
proof -
  have e: "Claim pubRuntime exampleClaim = (ClaimFailed (), [WroteAssign, WroteRelease])" by code_simp
  have v: "clVerifyStage exampleClaim = None" "clReadBack exampleClaim = Inl ()" by (simp_all add: exampleClaim_def)
  from claim_unwinds [OF e v(1)] v(2) show ?thesis using e by auto
qed

section \<open>One winner\<close>

lemma held_step:
  "fst (assignStep u ev st) k = (if k \<noteq> [] \<and> toLower u (geAssignee ev) = k \<and> geEvent ev = ''assigned'' \<and> fst st k = None
       then Some \<lparr>aeAt = geAt ev, aeID = geID ev\<rparr>
     else if k \<noteq> [] \<and> toLower u (geAssignee ev) = k \<and> geEvent ev = ''unassigned'' then None
     else fst st k)"
  by (cases st) (auto simp: assignStep_def Let_def)

definition heldBy :: "runtime \<Rightarrow> ghEvent list \<Rightarrow> string \<Rightarrow> assignEvent option" where
  "heldBy u events k = fst (replayAssignments u events) k"

lemma heldBy_Nil [simp]: "heldBy u [] k = None"
  by (simp add: heldBy_def replayAssignments_def)

lemma heldBy_snoc:
  "heldBy u (events @ [ev]) k = (if k \<noteq> [] \<and> toLower u (geAssignee ev) = k \<and> geEvent ev = ''assigned'' \<and> heldBy u events k = None
       then Some \<lparr>aeAt = geAt ev, aeID = geID ev\<rparr>
     else if k \<noteq> [] \<and> toLower u (geAssignee ev) = k \<and> geEvent ev = ''unassigned'' then None
     else heldBy u events k)"
  by (simp add: heldBy_def replayAssignments_def held_step)

lemma heldBy_empty_key [simp]: "heldBy u events [] = None"
  by (induction events rule: rev_induct) (simp_all add: heldBy_snoc)

text \<open>A standing assignment began at an event of the log and has stood since.\<close>

lemma heldBy_began:
  assumes "heldBy u (take n evs) k = Some a" "n \<le> length evs"
  shows "\<exists>i<n. toLower u (geAssignee (evs ! i)) = k \<and> geEvent (evs ! i) = ''assigned''
    \<and> a = \<lparr>aeAt = geAt (evs ! i), aeID = geID (evs ! i)\<rparr> \<and> (\<forall>m. i < m \<and> m \<le> n \<longrightarrow> heldBy u (take m evs) k = Some a)"
  using assms
proof (induction n)
  case (Suc n)
  have t: "take (Suc n) evs = take n evs @ [evs ! n]" using Suc.prems(2) by (simp add: take_Suc_conv_app_nth)
  show ?case
  proof (cases "heldBy u (take n evs) k")
    case None
    then show ?thesis
      using Suc.prems(1) t by (intro exI [of _ n]) (auto simp: heldBy_snoc le_Suc_eq split: if_splits)
  next
    case (Some b)
    then have "b = a" using Suc.prems(1) t by (auto simp: heldBy_snoc split: if_splits)
    with Some Suc.IH Suc.prems(2) obtain i where "i < n" "toLower u (geAssignee (evs ! i)) = k"
      "geEvent (evs ! i) = ''assigned''" "a = \<lparr>aeAt = geAt (evs ! i), aeID = geID (evs ! i)\<rparr>"
      "\<forall>m. i < m \<and> m \<le> n \<longrightarrow> heldBy u (take m evs) k = Some a"
      by auto
    then show ?thesis
      using Suc.prems(1) by (intro exI [of _ i]) (auto simp: le_Suc_eq)
  qed
qed simp

text \<open>An assignment that nobody takes back stands.\<close>

lemma heldBy_stands:
  assumes "heldBy u (take n evs) k = Some a" "n \<le> m" "m \<le> length evs"
    and "\<forall>i. n \<le> i \<and> i < m \<longrightarrow> \<not> (geEvent (evs ! i) = ''unassigned'' \<and> toLower u (geAssignee (evs ! i)) = k)"
  shows "heldBy u (take m evs) k = Some a"
  using assms(2-4)
proof (induction m rule: dec_induct)
  case base
  then show ?case using assms(1) by simp
next
  case (step m)
  have "take (Suc m) evs = take m evs @ [evs ! m]" using step.prems(1) by (simp add: take_Suc_conv_app_nth)
  then show ?case using step by (auto simp: heldBy_snoc)
qed

lemma runesOf_Nil_iff: "runesOf bs = [] \<longleftrightarrow> bs = []"
  by (subst runesOf.simps) (auto split: list.splits)

lemma toLower_Nil_iff [simp]: "toLower u l = [] \<longleftrightarrow> l = []"
proof -
  have "encodeRune r \<noteq> []" for r by (simp add: encodeRune_def)
  then have "toLower u l = [] \<longleftrightarrow> runes l = []" by (cases "runes l") (simp_all add: toLower_def)
  then show ?thesis by (simp add: runes_def runesOf_Nil_iff)
qed

lemma raceLoop_best:
  assumes "raceLoop u held seen winner best assignees = Inr (w, b)"
    and "held [] = None" and "winner = [] \<or> held (toLower u winner) = Some best"
  shows "(w = [] \<or> held (toLower u w) = Some b) \<and> (winner \<noteq> [] \<longrightarrow> w \<noteq> [] \<and> \<not> aeBefore best b)
    \<and> (\<forall>login\<in>set assignees. \<forall>e. held (toLower u login) = Some e \<longrightarrow> w \<noteq> [] \<and> \<not> aeBefore e b)"
  using assms(1,3)
proof (induction assignees arbitrary: winner best)
  case Nil
  then show ?case by (auto simp: aeBefore_def)
next
  case (Cons login assignees)
  have tr: "\<not> aeBefore x z" if "\<not> aeBefore x y" "\<not> aeBefore y z" for x y z
    using that by (auto simp: aeBefore_def split: if_splits)
  show ?case
  proof (cases "held (toLower u login)")
    case None
    then show ?thesis using Cons.prems Cons.IH by (auto simp: Let_def split: if_splits)
  next
    case (Some e)
    have ne: "login \<noteq> []" using Some assms(2) by (metis option.distinct(1) toLower_Nil_iff)
    show ?thesis
    proof (cases "winner = [] \<or> aeBefore e best")
      case True
      have r: "raceLoop u held seen login e assignees = Inr (w, b)" using Cons.prems(1) Some True by (simp add: Let_def)
      have ih: "w \<noteq> [] \<and> \<not> aeBefore e b" "w = [] \<or> held (toLower u w) = Some b"
        "\<forall>l\<in>set assignees. \<forall>e. held (toLower u l) = Some e \<longrightarrow> w \<noteq> [] \<and> \<not> aeBefore e b"
        using Cons.IH [OF r] Some ne by auto
      have "winner \<noteq> [] \<longrightarrow> \<not> aeBefore best e" using True by (auto simp: aeBefore_def split: if_splits)
      then show ?thesis using ih Some tr by auto
    next
      case False
      have r: "raceLoop u held seen winner best assignees = Inr (w, b)" using Cons.prems(1) Some False by (simp add: Let_def)
      show ?thesis using Cons.IH [OF r Cons.prems(2)] Some False tr [of e best b] by auto
    qed
  qed
qed

text \<open>
  What a claimant sees of one change log: its read-back shows the assignments that stand after
  the first \<open>n\<close> events, and the log it reads later is its first \<open>m\<close> events. Logins are ASCII.
\<close>

definition observes :: "runtime \<Rightarrow> ghEvent list \<Rightarrow> nat \<Rightarrow> nat \<Rightarrow> 'e claimEnv \<Rightarrow> string \<Rightarrow> bool" where
  "observes u evs n m env who \<longleftrightarrow> n \<le> m \<and> m \<le> length evs \<and> clPrincipal env = Inr who \<and> ascii who
     \<and> (case clReadBack env of Inl _ \<Rightarrow> True
        | Inr assignees \<Rightarrow> list_all ascii assignees
            \<and> toLower u ` set assignees = {k. heldBy u (take n evs) k \<noteq> None})
     \<and> (case clEvents env of Inl _ \<Rightarrow> True | Inr events \<Rightarrow> events = take m evs)"

text \<open>Nobody takes the assignment back after the read-back.\<close>

definition undisturbed :: "runtime \<Rightarrow> ghEvent list \<Rightarrow> nat \<Rightarrow> string \<Rightarrow> bool" where
  "undisturbed u evs n who \<longleftrightarrow>
     (\<forall>i. n \<le> i \<and> i < length evs \<longrightarrow> \<not> (geEvent (evs ! i) = ''unassigned'' \<and> toLower u (geAssignee (evs ! i)) = toLower u who))"

lemma equalFold_toLower: "ascii a \<Longrightarrow> ascii b \<Longrightarrow> equalFold u a b \<longleftrightarrow> toLower u a = toLower u b"
proof -
  assume a: "ascii a" "ascii b"
  have i: "char_of (asciiLower (byte x)) = (char_of (asciiLower (byte y)) :: char) \<longleftrightarrow> asciiLower (byte x) = asciiLower (byte y)"
    if "byte x < 128" "byte y < 128" for x y :: char
  proof -
    have "0 \<le> byte z" for z :: char by (cases z) (simp add: byte_def)
    then have "asciiLower (byte x) \<in> {0..<256}" "asciiLower (byte y) \<in> {0..<256}"
      using that by (auto simp: asciiLower_def)
    then have "byte (char_of (asciiLower (byte x))) = asciiLower (byte x)"
      "byte (char_of (asciiLower (byte y))) = asciiLower (byte y)"
      by (simp_all add: byte_def of_char_of)
    then show ?thesis by metis
  qed
  have "map (\<lambda>c. asciiLower (byte c)) a = map (\<lambda>c. asciiLower (byte c)) b
      \<longleftrightarrow> map (\<lambda>c. char_of (asciiLower (byte c)) :: char) a = map (\<lambda>c. char_of (asciiLower (byte c))) b"
    using a
  proof (induction a arbitrary: b)
    case (Cons x a)
    then show ?case using i by (cases b) (auto simp: ascii_def)
  qed auto
  then show ?thesis by (simp add: equalFold_ascii a toLower_ascii a)
qed

lemma wonRace_first:
  assumes "wonRace u events assignees who = Inr True" "ascii who" "list_all ascii assignees"
    and "a \<in> set assignees" "heldBy u events (toLower u a) = Some ea"
  shows "\<exists>ew. heldBy u events (toLower u who) = Some ew \<and> \<not> aeBefore ea ew"
proof -
  obtain held seen where r: "replayAssignments u events = (held, seen)" by fastforce
  then have h: "heldBy u events = held" by (simp add: heldBy_def fun_eq_iff)
  obtain w b where l: "raceLoop u held seen [] zeroAssign assignees = Inr (w, b)" and f: "equalFold u w who"
    using assms(1) r by (auto simp: wonRace_def split: if_splits sum.splits)
  have e: "held [] = None" using heldBy_empty_key [of u events] h by simp
  have b: "w \<noteq> []" "held (toLower u w) = Some b" "\<not> aeBefore ea b"
    using raceLoop_best [OF l e] assms(4,5) h by auto
  have "w \<in> set assignees"
    using l b(1)
  proof -
    have "raceLoop u held seen winner best ls = Inr (w, b) \<Longrightarrow> w = winner \<or> w \<in> set ls" for winner best ls
      by (induction ls arbitrary: winner best) (fastforce simp: Let_def split: option.splits if_splits)+
    then show ?thesis using l b(1) by blast
  qed
  then have "toLower u w = toLower u who"
    using f assms(2,3) equalFold_toLower by (auto simp: list_all_iff)
  then show ?thesis using b h by auto
qed

lemma Claim_won:
  assumes "fst (Claim u env) = ClaimAnswer True" "observes u evs n m env who"
  shows "\<exists>assignees. clReadBack env = Inr assignees \<and> containsFold u assignees who
    \<and> (length assignees = 1 \<or> (\<exists>events. clEvents env = Inr events \<and> wonRace u events assignees who = Inr True))"
  using assms by (auto simp: Claim_def observes_def split: option.splits sum.splits if_splits)

lemma readBack_held:
  assumes "observes u evs n m env who" "clReadBack env = Inr assignees"
  shows "(\<exists>a\<in>set assignees. toLower u a = k) \<longleftrightarrow> heldBy u (take n evs) k \<noteq> None"
proof -
  have "toLower u ` set assignees = {k. heldBy u (take n evs) k \<noteq> None}" using assms by (simp add: observes_def)
  then have "k \<in> toLower u ` set assignees \<longleftrightarrow> heldBy u (take n evs) k \<noteq> None" by simp
  then show ?thesis by (metis image_iff)
qed

lemma winner_held:
  assumes "fst (Claim u env) = ClaimAnswer True" "observes u evs n m env who"
  shows "\<exists>a. heldBy u (take n evs) (toLower u who) = Some a"
proof -
  obtain assignees where r: "clReadBack env = Inr assignees" "containsFold u assignees who"
    using Claim_won [OF assms] by auto
  then have "\<exists>a\<in>set assignees. toLower u a = toLower u who"
    using assms(2) equalFold_toLower by (fastforce simp: containsFold_def observes_def list_ex_iff list_all_iff)
  then show ?thesis using readBack_held [OF assms(2) r(1)] by auto
qed

text \<open>An earlier claimant whose assignment stands is seen by the later one, which then loses.\<close>

lemma later_claimant_loses:
  assumes order: "sorted_wrt (\<lambda>x y. eventKey x < eventKey y) evs"
    and q: "observes u evs n m env q" "fst (Claim u env) = ClaimAnswer True" "undisturbed u evs n q"
    and began: "i < j" "j < n" "heldBy u (take n evs) (toLower u q) = Some \<lparr>aeAt = geAt (evs ! j), aeID = geID (evs ! j)\<rparr>"
    and stands: "\<forall>l. i < l \<and> l \<le> length evs \<longrightarrow> heldBy u (take l evs) k = Some \<lparr>aeAt = geAt (evs ! i), aeID = geID (evs ! i)\<rparr>"
    and k: "k \<noteq> toLower u q"
  shows False
proof -
  have b: "n \<le> m" "m \<le> length evs" "ascii q" using q(1) by (auto simp: observes_def)
  obtain assignees where r: "clReadBack env = Inr assignees" "containsFold u assignees q"
    and w: "length assignees = 1 \<or> (\<exists>events. clEvents env = Inr events \<and> wonRace u events assignees q = Inr True)"
    using Claim_won [OF q(2,1)] by auto
  have "heldBy u (take n evs) k \<noteq> None" using stands began b by auto
  then obtain a where a: "a \<in> set assignees" "toLower u a = k" using readBack_held [OF q(1) r(1), of k] by auto
  obtain c where c: "c \<in> set assignees" "toLower u c = toLower u q"
    using readBack_held [OF q(1) r(1), of "toLower u q"] began(3) by auto
  have "length assignees \<noteq> 1" using a c k by (auto simp: length_Suc_conv)
  then have won: "wonRace u (take m evs) assignees q = Inr True" and asc: "list_all ascii assignees"
    using w q(1) r(1) by (auto simp: observes_def)
  have "heldBy u (take m evs) (toLower u a) = Some \<lparr>aeAt = geAt (evs ! i), aeID = geID (evs ! i)\<rparr>"
    using stands a(2) began b by auto
  from wonRace_first [OF won b(3) asc a(1) this] obtain ew where
    e: "heldBy u (take m evs) (toLower u q) = Some ew" "\<not> aeBefore \<lparr>aeAt = geAt (evs ! i), aeID = geID (evs ! i)\<rparr> ew"
    by auto
  have "heldBy u (take m evs) (toLower u q) = Some \<lparr>aeAt = geAt (evs ! j), aeID = geID (evs ! j)\<rparr>"
    using heldBy_stands [OF began(3) b(1,2)] q(3) b by (auto simp: undisturbed_def)
  moreover have "eventKey (evs ! i) < eventKey (evs ! j)"
    using sorted_wrt_nth_less [OF order began(1)] began b by simp
  ultimately show False using e by (auto simp: eventKey_def less_prod_def aeBefore_def split: if_splits)
qed

text \<open>The assignment of a winner, from the event it began with to the end of the log.\<close>

lemma winner_stands:
  assumes "fst (Claim u env) = ClaimAnswer True" "observes u evs n m env who" "undisturbed u evs n who"
  shows "\<exists>i<n. toLower u (geAssignee (evs ! i)) = toLower u who
    \<and> (\<forall>l. i < l \<and> l \<le> length evs \<longrightarrow> heldBy u (take l evs) (toLower u who) = Some \<lparr>aeAt = geAt (evs ! i), aeID = geID (evs ! i)\<rparr>)"
proof -
  have n: "n \<le> length evs" using assms(2) by (auto simp: observes_def)
  obtain a where a: "heldBy u (take n evs) (toLower u who) = Some a" using winner_held [OF assms(1,2)] by auto
  from heldBy_began [OF a n] obtain i where i: "i < n" "toLower u (geAssignee (evs ! i)) = toLower u who"
    "a = \<lparr>aeAt = geAt (evs ! i), aeID = geID (evs ! i)\<rparr>"
    "\<forall>l. i < l \<and> l \<le> n \<longrightarrow> heldBy u (take l evs) (toLower u who) = Some a" by auto
  have "heldBy u (take l evs) (toLower u who) = Some a" if "i < l" "l \<le> length evs" for l
  proof (cases "l \<le> n")
    case False
    then show ?thesis using heldBy_stands [OF a, of l] assms(3) that by (auto simp: undisturbed_def)
  qed (use i(4) that in auto)
  then show ?thesis using i by auto
qed

text \<open>
  C8. Two controllers that claim one issue do not both win. They run as different principals and
  interleave their assignments in any order; each reads the assignees back at some point of the
  change log and arbitrates on what the log holds at some later point. When neither winner's
  assignment is taken away after its read-back, at most one claim answers yes.
\<close>

theorem claims_are_exclusive:
  assumes "sorted_wrt (\<lambda>x y. eventKey x < eventKey y) evs"
    and "observes u evs n\<^sub>p m\<^sub>p env\<^sub>p p" "observes u evs n\<^sub>q m\<^sub>q env\<^sub>q q"
    and "undisturbed u evs n\<^sub>p p" "undisturbed u evs n\<^sub>q q"
    and "toLower u p \<noteq> toLower u q" and "fst (Claim u env\<^sub>p) = ClaimAnswer True"
  shows "fst (Claim u env\<^sub>q) \<noteq> ClaimAnswer True"
proof
  assume wq: "fst (Claim u env\<^sub>q) = ClaimAnswer True"
  obtain i where i: "i < n\<^sub>p" "toLower u (geAssignee (evs ! i)) = toLower u p"
    and si: "\<forall>l. i < l \<and> l \<le> length evs \<longrightarrow> heldBy u (take l evs) (toLower u p) = Some \<lparr>aeAt = geAt (evs ! i), aeID = geID (evs ! i)\<rparr>"
    using winner_stands [OF assms(7,2,4)] by auto
  obtain j where j: "j < n\<^sub>q" "toLower u (geAssignee (evs ! j)) = toLower u q"
    and sj: "\<forall>l. j < l \<and> l \<le> length evs \<longrightarrow> heldBy u (take l evs) (toLower u q) = Some \<lparr>aeAt = geAt (evs ! j), aeID = geID (evs ! j)\<rparr>"
    using winner_stands [OF wq assms(3,5)] by auto
  have n: "n\<^sub>p \<le> length evs" "n\<^sub>q \<le> length evs" using assms(2,3) by (auto simp: observes_def)
  consider "i < j" | "j < i" using i j assms(6) by (metis linorder_neqE_nat)
  then show False
  proof cases
    case 1
    then show ?thesis using later_claimant_loses [OF assms(1,3) wq assms(5) 1 j(1) _ si assms(6)] sj j n by auto
  next
    case 2
    then show ?thesis
      using later_claimant_loses [OF assms(1,2,7,4) 2 i(1) _ sj assms(6) [symmetric]] si i n by auto
  qed
qed

text \<open>Two controllers assign themselves at the same second; the second one sees both and stands down.\<close>

definition contestedLog :: "ghEvent list" where
  "contestedLog = [\<lparr>geEvent = ''assigned'', geActor = ''Ben'', geAssignee = ''Ben'', geLabel = [], geAt = 5, geID = 11\<rparr>,
     \<lparr>geEvent = ''assigned'', geActor = ''amy'', geAssignee = ''amy'', geLabel = [], geAt = 5, geID = 12\<rparr>]"

definition contestedClaim :: "string \<Rightarrow> unit claimEnv" where
  "contestedClaim who = \<lparr>clIdentifier = ''7'', clAdmit = None, clPrincipal = Inr who, clLease = None,
     clAssignStage = None, clAssign = None, clAssignAttempted = True, clVerifyStage = None,
     clReadBack = Inr [''Ben'', ''amy''], clEvents = Inr contestedLog, clRelease = None\<rparr>"

lemma contested_keys: "{k. heldBy pubRuntime contestedLog k \<noteq> None} = {''ben'', ''amy''}"
proof -
  have l: "toLower pubRuntime ''Ben'' = ''ben''" "toLower pubRuntime ''amy'' = ''amy''" by code_simp+
  have "heldBy pubRuntime contestedLog k = heldBy pubRuntime (([] @ [contestedLog ! 0]) @ [contestedLog ! 1]) k" for k
    by (simp add: contestedLog_def)
  then show ?thesis
    unfolding heldBy_snoc using l by (auto simp: contestedLog_def split: if_splits)
qed

theorem claims_are_exclusive_witness:
  "fst (Claim pubRuntime (contestedClaim ''Ben'')) = ClaimAnswer True
     \<and> Claim pubRuntime (contestedClaim ''amy'') = (ClaimAnswer False, [WroteAssign, WroteRelease])
     \<and> fst (Claim pubRuntime (contestedClaim ''amy'')) \<noteq> ClaimAnswer True"
proof -
  have w: "fst (Claim pubRuntime (contestedClaim ''Ben'')) = ClaimAnswer True" by code_simp
  have l: "Claim pubRuntime (contestedClaim ''amy'') = (ClaimAnswer False, [WroteAssign, WroteRelease])" by code_simp
  have t: "toLower pubRuntime ''Ben'' = ''ben''" "toLower pubRuntime ''amy'' = ''amy''" by code_simp+
  have a: "ascii ''Ben''" "ascii ''amy''" by code_simp+
  have o: "observes pubRuntime contestedLog 2 2 (contestedClaim who) who" if "ascii who" for who
    using that a t contested_keys by (simp add: observes_def contestedClaim_def) (simp add: contestedLog_def)
  have s: "sorted_wrt (\<lambda>x y. eventKey x < eventKey y) contestedLog"
    by (simp add: contestedLog_def eventKey_def)
  have u: "undisturbed pubRuntime contestedLog 2 who" for who
    by (simp add: undisturbed_def contestedLog_def)
  from claims_are_exclusive [OF s o [OF a(1)] o [OF a(2)] u u _ w] t l w show ?thesis by simp
qed

section \<open>The state label\<close>

text \<open>
  The tracker as far as labels go: a world, and the three requests on it. \<open>ltList\<close> serves the pages
  of the label listing, \<open>ltNotFound\<close> is \<open>isNotFound\<close>.
\<close>

record ('e, 'w) labelTracker =
  ltAdd :: "string \<Rightarrow> 'w \<Rightarrow> ('e + string list) \<times> 'w"
  ltList :: "'w \<Rightarrow> int \<Rightarrow> 'e + (string list \<times> int)"
  ltRemove :: "string \<Rightarrow> 'w \<Rightarrow> 'e option \<times> 'w"
  ltNotFound :: "'e \<Rightarrow> bool"

datatype 'e labelError =
    LabelNotAdmitted 'e | LabelBadIdentifier | ErrUnknownStateLabel StateLabel
  | LabelReadFailed 'e | LabelRemoveFailed string 'e

definition projectLabel :: "('e, 'w) labelTracker \<Rightarrow> string \<Rightarrow> 'w \<Rightarrow> (('e + string list) \<times> 'w) option" where
  "projectLabel t want w =
     (if want \<noteq> [] then Some (ltAdd t want w)
      else map_option (\<lambda>r. (r, w)) (walkPages (ltList t w) 0 []))"

text \<open>The removals, with the worlds the tracker goes through.\<close>

fun clearLabels ::
  "runtime \<Rightarrow> ('e, 'w) labelTracker \<Rightarrow> string \<Rightarrow> string list \<Rightarrow> 'w \<Rightarrow> 'e labelError option \<times> 'w list" where
  "clearLabels u t want [] w = (None, [w])"
| "clearLabels u t want (existing # current) w =
     (if \<not> isStateLabel u existing \<or> want \<noteq> [] \<and> equalFold u existing want then clearLabels u t want current w
      else case ltRemove t existing w of
        (Some err, w') \<Rightarrow>
          if ltNotFound t err then map_prod id ((#) w) (clearLabels u t want current w')
          else (Some (LabelRemoveFailed existing err), [w, w'])
      | (None, w') \<Rightarrow> map_prod id ((#) w) (clearLabels u t want current w'))"

definition SetStateLabels ::
  "runtime \<Rightarrow> ('e, 'w) labelTracker \<Rightarrow> 'e option \<Rightarrow> string \<Rightarrow> StateLabel \<Rightarrow> 'w
     \<Rightarrow> ('e labelError option \<times> 'w list) option" where
  "SetStateLabels u t admit identifier label w =
     (case admit of Some e \<Rightarrow> Some (Some (LabelNotAdmitted e), [w]) | None \<Rightarrow>
      case issueNumber identifier of None \<Rightarrow> Some (Some LabelBadIdentifier, [w]) | Some number \<Rightarrow>
      case stateLabelName label of None \<Rightarrow> Some (Some (ErrUnknownStateLabel label), [w]) | Some want \<Rightarrow>
      map_option (\<lambda>r. case r of
          (Inl e, w') \<Rightarrow> (Some (LabelReadFailed e), [w, w'])
        | (Inr current, w') \<Rightarrow> map_prod id ((#) w) (clearLabels u t want current w'))
        (projectLabel t want w))"

text \<open>
  What the tracker documents of its labels. Adding a label is idempotent and answers with
  the whole set, and a request that failed may have been carried out all the same. A listing
  that is read to its end is the set. A removed label, or one reported missing, is not there.
\<close>

definition addKeeps :: "runtime \<Rightarrow> ('w \<Rightarrow> string list) \<Rightarrow> ('e, 'w) labelTracker \<Rightarrow> bool" where
  "addKeeps u labels t \<longleftrightarrow> (\<forall>x w r w'. ltAdd t x w = (r, w') \<longrightarrow>
     set (labels w) \<subseteq> set (labels w') \<and> (\<forall>l\<in>set (labels w'). l \<in> set (labels w) \<or> equalFold u l x)
     \<and> (\<forall>ls. r = Inr ls \<longrightarrow> ls = labels w' \<and> (\<exists>l\<in>set ls. equalFold u l x)))"

definition removeKeeps :: "('w \<Rightarrow> string list) \<Rightarrow> ('e, 'w) labelTracker \<Rightarrow> bool" where
  "removeKeeps labels t \<longleftrightarrow> (\<forall>x w r w'. ltRemove t x w = (r, w') \<longrightarrow>
     set (labels w) - {x} \<subseteq> set (labels w') \<and> set (labels w') \<subseteq> set (labels w)
     \<and> (r = None \<or> (\<exists>e. r = Some e \<and> ltNotFound t e) \<longrightarrow> x \<notin> set (labels w')))"

definition keepsLabels :: "runtime \<Rightarrow> ('w \<Rightarrow> string list) \<Rightarrow> ('e, 'w) labelTracker \<Rightarrow> bool" where
  "keepsLabels u labels t \<longleftrightarrow> addKeeps u labels t \<and> removeKeeps labels t
     \<and> (\<forall>w. walkPages (ltList t w) 0 [] = Some (Inr (labels w)))"

lemma map_prod_id_eq: "map_prod id f p = (a, b) \<longleftrightarrow> (\<exists>c. p = (a, c) \<and> b = f c)"
  by (cases p) auto

lemma keepsLabels_remove:
  assumes "keepsLabels u labels t" "ltRemove t x w = (r, w')"
  shows "set (labels w) - {x} \<subseteq> set (labels w') \<and> set (labels w') \<subseteq> set (labels w)
    \<and> (r = None \<or> (\<exists>e. r = Some e \<and> ltNotFound t e) \<longrightarrow> x \<notin> set (labels w'))"
  using assms unfolding keepsLabels_def removeKeeps_def by blast

lemma keepsLabels_add:
  assumes "keepsLabels u labels t" "ltAdd t x w = (r, w')"
  shows "set (labels w) \<subseteq> set (labels w') \<and> (\<forall>l\<in>set (labels w'). l \<in> set (labels w) \<or> equalFold u l x)
     \<and> (\<forall>ls. r = Inr ls \<longrightarrow> ls = labels w' \<and> (\<exists>l\<in>set ls. equalFold u l x))"
  using assms unfolding keepsLabels_def addKeeps_def by blast

definition stale :: "runtime \<Rightarrow> string \<Rightarrow> string \<Rightarrow> bool" where
  "stale u want l \<longleftrightarrow> isStateLabel u l \<and> \<not> (want \<noteq> [] \<and> equalFold u l want)"

lemma clearLabels_visits:
  assumes "keepsLabels u labels t" "clearLabels u t want current w = (r, visited)" "v \<in> set visited"
  shows "set (labels v) \<subseteq> set (labels w) \<and> (\<forall>l\<in>set (labels w). \<not> stale u want l \<longrightarrow> l \<in> set (labels v))"
  using assms(2,3)
proof (induction current arbitrary: w visited)
  case (Cons x current)
  show ?case
  proof (cases "stale u want x")
    case True
    obtain e w' where rm: "ltRemove t x w = (e, w')" by fastforce
    note k = keepsLabels_remove [OF assms(1) rm]
    have "v = w \<or> v = w' \<or> (\<exists>vs. clearLabels u t want current w' = (r, vs) \<and> v \<in> set vs)"
      using Cons.prems True rm by (auto simp: stale_def map_prod_id_eq split: option.splits if_splits)
    then show ?thesis using k Cons.IH True by blast
  qed (use Cons in \<open>auto simp: stale_def\<close>)
qed auto

lemma clearLabels_final:
  assumes "keepsLabels u labels t" "clearLabels u t want current w = (None, visited)"
  shows "visited \<noteq> [] \<and> (\<forall>l\<in>set (labels (last visited)). l \<in> set (labels w) \<and> \<not> (l \<in> set current \<and> stale u want l))"
  using assms(2)
proof (induction current arbitrary: w visited)
  case (Cons x current)
  show ?case
  proof (cases "stale u want x")
    case True
    obtain e w' where rm: "ltRemove t x w = (e, w')" by fastforce
    obtain vs where vs: "clearLabels u t want current w' = (None, vs)" "visited = w # vs"
      and gone: "e = None \<or> (\<exists>err. e = Some err \<and> ltNotFound t err)"
      using Cons.prems True rm by (auto simp: stale_def map_prod_id_eq split: option.splits if_splits)
    show ?thesis
      using Cons.IH [OF vs(1)] vs(2) keepsLabels_remove [OF assms(1) rm] gone by auto
  qed (use Cons in \<open>auto simp: stale_def\<close>)
qed auto

lemma projectLabel_keeps:
  assumes "keepsLabels u labels t" "projectLabel t want w = Some (r, w')"
  shows "set (labels w) \<subseteq> set (labels w')"
    and "r = Inr current \<Longrightarrow> current = labels w' \<and> (want \<noteq> [] \<longrightarrow> (\<exists>l\<in>set current. equalFold u l want))"
  using assms keepsLabels_add [OF assms(1), of want w]
  by (auto simp: projectLabel_def keepsLabels_def split: if_splits)

text \<open>
  C23. Projecting a state replaces the state label, and at no point takes the old label off before
  the new one is on. Every world the tracker goes through still has each label that is not a state label,
  and either has every label it started with or has the wanted label; so a run killed between two
  requests leaves a state label on the issue. When the projection succeeds, the
  wanted label is the only state label, or there is none when the label is to be cleared.
\<close>

theorem state_label_replaced:
  assumes "keepsLabels u labels t" and "SetStateLabels u t admit identifier label w = Some (result, visited)"
  shows "(\<forall>v\<in>set visited. (\<forall>l\<in>set (labels w). \<not> isStateLabel u l \<longrightarrow> l \<in> set (labels v))
      \<and> (label \<noteq> StateLabelNone \<longrightarrow> set (labels w) \<subseteq> set (labels v) \<or> (\<exists>l\<in>set (labels v). equalFold u l (statePrefix @ label))))
    \<and> (result = None \<longrightarrow> visited \<noteq> []
      \<and> (\<forall>l\<in>set (labels (last visited)). isStateLabel u l \<longrightarrow> label \<noteq> StateLabelNone \<and> equalFold u l (statePrefix @ label))
      \<and> (label \<noteq> StateLabelNone \<longrightarrow> (\<exists>l\<in>set (labels (last visited)). equalFold u l (statePrefix @ label))))"
proof -
  have refused: ?thesis if "visited = [w]" "result \<noteq> None" using that by auto
  show ?thesis
  proof (cases "admit = None \<and> issueNumber identifier \<noteq> None \<and> stateLabelName label \<noteq> None")
    case False
    then show ?thesis
      using assms(2) refused by (auto simp: SetStateLabels_def split: option.splits)
  next
    case True
    then obtain want where want: "stateLabelName label = Some want"
      "want = [] \<longleftrightarrow> label = StateLabelNone" "want \<noteq> [] \<Longrightarrow> want = statePrefix @ label"
      by (auto simp: stateLabelName_def statePrefix_def split: if_splits)
    then obtain r w' where pl: "projectLabel t want w = Some (r, w')"
      and run: "(result, visited) = (case r of Inl e \<Rightarrow> (Some (LabelReadFailed e), [w, w'])
        | Inr current \<Rightarrow> map_prod id ((#) w) (clearLabels u t want current w'))"
      using True assms(2) by (auto simp: SetStateLabels_def)
    note p = projectLabel_keeps [OF assms(1) pl]
    show ?thesis
    proof (cases r)
      case (Inl e)
      then show ?thesis using run p(1) want by auto
    next
      case (Inr current)
      obtain vs where c: "clearLabels u t want current w' = (result, vs)" "visited = w # vs"
        using run [symmetric] Inr by (auto simp: map_prod_id_eq)
      note v = clearLabels_visits [OF assms(1) c(1)]
      have cur: "current = labels w'" "want \<noteq> [] \<Longrightarrow> \<exists>l\<in>set (labels w'). equalFold u l want" using p Inr by auto
      have keep: "\<exists>l\<in>set (labels x). equalFold u l want" if "x \<in> set vs" "want \<noteq> []" for x
        using cur(2) [OF that(2)] v [OF that(1)] that(2) by (auto simp: stale_def)
      have other: "\<forall>l\<in>set (labels w). \<not> isStateLabel u l \<longrightarrow> l \<in> set (labels x)" if "x \<in> set vs" for x
        using v [OF that] p(1) by (auto simp: stale_def)
      have fin: "vs \<noteq> [] \<and> (\<forall>l\<in>set (labels (last vs)). \<not> stale u want l)" if "result = None"
        using clearLabels_final [OF assms(1), of want current w' vs] c(1) that cur(1) by auto
      show ?thesis using c(2) keep other fin want by (auto simp: stale_def)
    qed
  qed
qed

text \<open>A failed run's issue goes from running to failed; the tracker is a list of labels.\<close>

definition listTracker :: "(unit, string list) labelTracker" where
  "listTracker = \<lparr>ltAdd = \<lambda>x w. let w' = (if x \<in> set w then w else w @ [x]) in (Inr w', w'),
     ltList = \<lambda>w _. Inr (w, 0), ltRemove = \<lambda>x w. (None, filter (\<lambda>l. l \<noteq> x) w), ltNotFound = \<lambda>_. True\<rparr>"

lemma listTracker_keeps: "keepsLabels u id listTracker"
  by (auto simp: keepsLabels_def addKeeps_def removeKeeps_def listTracker_def Let_def equalFold_def
    walkPages.simps [of _ 0])

theorem state_label_replaced_witness:
  "SetStateLabels pubRuntime listTracker None ''7'' StateLabelFailed [''bug'', ''ben:running'']
     = Some (None, [[''bug'', ''ben:running''], [''bug'', ''ben:running'', ''ben:failed''], [''bug'', ''ben:failed'']])
   \<and> (\<exists>l\<in>{''bug'', ''ben:failed''}. equalFold pubRuntime l ''ben:failed'')"
proof -
  have e: "SetStateLabels pubRuntime listTracker None ''7'' StateLabelFailed [''bug'', ''ben:running'']
     = Some (None, [[''bug'', ''ben:running''], [''bug'', ''ben:running'', ''ben:failed''], [''bug'', ''ben:failed'']])"
    by code_simp
  have n: "statePrefix @ StateLabelFailed = ''ben:failed''" by code_simp
  have f: "StateLabelFailed \<noteq> StateLabelNone" by code_simp
  from state_label_replaced [OF listTracker_keeps e] f have "\<exists>l\<in>{''bug'', ''ben:failed''}. equalFold pubRuntime l ''ben:failed''"
    by (simp add: n)
  then show ?thesis using e by blast
qed

end
