(* ===== verification/TrackerFetch.thy ===== *)
theory TrackerFetch
  imports TrackerClaim
begin

text \<open>
  The reads of the tracker adapter over issues (\<open>internal/tracker/github/adapter.go\<close>): the queue read
  \<open>Fetch\<close>, the two reads of the claims a principal holds, \<open>Get\<close>, and the claim principal with its
  cache. The issue listing is an argument that takes the query.
\<close>

section \<open>The reads\<close>

text \<open>The options of a listing; \<open>lqCached\<close> says that an answer may come from the adapter's cache.\<close>

record listQuery =
  lqLabels :: "string list"
  lqAssignee :: string
  lqState :: string
  lqCached :: bool

datatype 'e readError =
    NotAdmitted 'e | ReadFailed 'e | BadIdentifier string | IssueNotFound int
  | NoPrincipal 'e | PrincipalWithoutLogin | PrincipalProbe string 'e | PrincipalNotAssignable string

text \<open>The gate is asked before the listing; \<open>listIssues\<close> is the loop of \<open>list\<close>.\<close>

definition listAdmitted ::
  "runtime \<Rightarrow> (revisionProjection \<Rightarrow> string) \<Rightarrow> trackerSettings \<Rightarrow> (int \<Rightarrow> int \<Rightarrow> 'e + (ghIssue list \<times> int))
     \<Rightarrow> 'e option \<Rightarrow> (listQuery \<Rightarrow> int \<Rightarrow> 'e + (ghIssue list \<times> int)) \<Rightarrow> listQuery \<Rightarrow> bool
     \<Rightarrow> ('e readError + coreIssue list) option" where
  "listAdmitted u token cfg blockedBy admit listing opts withVerdict =
     (case admit of Some e \<Rightarrow> Some (Inl (NotAdmitted e))
      | None \<Rightarrow> map_option (\<lambda>r. case r of Inl e \<Rightarrow> Inl (ReadFailed e) | Inr issues \<Rightarrow> Inr issues)
          (listIssues u token cfg blockedBy withVerdict (listing opts) 0 []))"


text \<open>
  \<open>claimPrincipal\<close>: the cached principal, the gate, and the answer for the authenticated user; the
  second component is the cache afterwards.
\<close>

definition claimPrincipal :: "string \<Rightarrow> 'e option \<Rightarrow> 'e + string \<Rightarrow> ('e readError + string) \<times> string" where
  "claimPrincipal cached admit user =
     (if cached \<noteq> [] then (Inr cached, cached)
      else case admit of Some e \<Rightarrow> (Inl (NotAdmitted e), cached)
      | None \<Rightarrow>
          (case user of
             Inl e \<Rightarrow> (Inl (NoPrincipal e), cached)
           | Inr login \<Rightarrow> if login = [] then (Inl PrincipalWithoutLogin, cached) else (Inr login, login)))"

definition checkClaimPrincipal :: "'e option \<Rightarrow> (string \<Rightarrow> 'e + bool) \<Rightarrow> string \<Rightarrow> 'e readError option" where
  "checkClaimPrincipal admit isAssignee who =
     (case admit of Some e \<Rightarrow> Some (NotAdmitted e)
      | None \<Rightarrow> (case isAssignee who of
          Inl e \<Rightarrow> Some (PrincipalProbe who e)
        | Inr assignable \<Rightarrow> if assignable then None else Some (PrincipalNotAssignable who)))"

definition principalAssignments ::
  "runtime \<Rightarrow> (revisionProjection \<Rightarrow> string) \<Rightarrow> trackerSettings \<Rightarrow> (int \<Rightarrow> int \<Rightarrow> 'e + (ghIssue list \<times> int))
     \<Rightarrow> 'e option \<Rightarrow> (listQuery \<Rightarrow> int \<Rightarrow> 'e + (ghIssue list \<times> int)) \<Rightarrow> 'e readError + string \<Rightarrow> bool
     \<Rightarrow> ('e readError + coreIssue list) option" where
  "principalAssignments u token cfg blockedBy admit listing resolved conditional =
     (case resolved of
        Inl e \<Rightarrow> Some (Inl e)
      | Inr who \<Rightarrow> listAdmitted u token cfg blockedBy admit listing
          \<lparr>lqLabels = [], lqAssignee = who, lqState = ''all'', lqCached = conditional\<rparr> False)"

definition ClaimedByPrincipal ::
  "runtime \<Rightarrow> (revisionProjection \<Rightarrow> string) \<Rightarrow> trackerSettings \<Rightarrow> (int \<Rightarrow> int \<Rightarrow> 'e + (ghIssue list \<times> int))
     \<Rightarrow> 'e option \<Rightarrow> (listQuery \<Rightarrow> int \<Rightarrow> 'e + (ghIssue list \<times> int)) \<Rightarrow> 'e readError + string
     \<Rightarrow> ('e readError + coreIssue list) option" where
  "ClaimedByPrincipal u token cfg blockedBy admit listing resolved =
     principalAssignments u token cfg blockedBy admit listing resolved False"

definition HeldClaims ::
  "runtime \<Rightarrow> (revisionProjection \<Rightarrow> string) \<Rightarrow> trackerSettings \<Rightarrow> (int \<Rightarrow> int \<Rightarrow> 'e + (ghIssue list \<times> int))
     \<Rightarrow> 'e option \<Rightarrow> (listQuery \<Rightarrow> int \<Rightarrow> 'e + (ghIssue list \<times> int)) \<Rightarrow> 'e readError + string
     \<Rightarrow> ('e readError + coreIssue list) option" where
  "HeldClaims u token cfg blockedBy admit listing resolved =
     principalAssignments u token cfg blockedBy admit listing resolved True"

definition Get ::
  "(revisionProjection \<Rightarrow> string) \<Rightarrow> ('e \<Rightarrow> bool) \<Rightarrow> 'e option \<Rightarrow> (int \<Rightarrow> 'e + ghIssue) \<Rightarrow> string
     \<Rightarrow> 'e readError + coreIssue" where
  "Get token isNotFound admit get identifier =
     (case admit of Some e \<Rightarrow> Inl (NotAdmitted e)
      | None \<Rightarrow> (case issueNumber identifier of
          None \<Rightarrow> Inl (BadIdentifier identifier)
        | Some number \<Rightarrow> (case get number of
            Inl e \<Rightarrow> Inl (if isNotFound e then IssueNotFound number else ReadFailed e)
          | Inr raw \<Rightarrow> Inr (normalize token raw))))"

section \<open>The queue is what it says\<close>














end
