(* ===== verification/TrackerCache.thy ===== *)
theory TrackerCache
  imports TrackerIssue
begin

text \<open>
  \<open>internal/tracker/github/etag.go\<close>: the conditional cache under the tracker client. A GET whose URL is
  cached is sent with \<open>If-None-Match\<close>; a 304 is answered with the stored body, anything else replaces
  or drops the entry. The lock is held during the lookup and during the store but not during
  the exchange, so a request is two steps, and other requests' steps come between them.

  The entries are an association list. The code ranges over a Go map, whose order is arbitrary; \<open>scan_order_irrelevant\<close>
  shows that the order makes no difference. \<open>use\<close> is a \<open>uint64\<close> that grows by one per request and is a natural
  number here. A header is a function from canonical names to their values.
\<close>

section \<open>The cache\<close>

definition maxCacheEntries :: nat where "maxCacheEntries = 4096"
definition maxCacheBytes :: int where "maxCacheBytes = 64 * 2 ^ 20"
definition maxEntryBytes :: int where "maxEntryBytes = 8 * 2 ^ 20"

type_synonym header = "string \<Rightarrow> string list"

text \<open>A response: its body is absent, fails while it is read, or is read whole.\<close>

record 'e cacheResponse =
  crStatus :: int
  crHeader :: header
  crBody :: "('e + string) option"

record cacheEntry =
  ceEtag :: string
  ceHeader :: header
  ceBody :: string
  ceUsed :: nat

record condCache =
  ccMaxEntries :: nat
  ccMaxBytes :: int
  ccMaxEntry :: int
  ccEntries :: "(string \<times> cacheEntry) list"
  ccBytes :: int
  ccUse :: nat
  ccHits :: nat
  ccMisses :: nat
  ccEvictions :: nat

definition newCondCache :: condCache where
  "newCondCache = \<lparr>ccMaxEntries = maxCacheEntries, ccMaxBytes = maxCacheBytes, ccMaxEntry = maxEntryBytes,
     ccEntries = [], ccBytes = 0, ccUse = 0, ccHits = 0, ccMisses = 0, ccEvictions = 0\<rparr>"

definition refreshedHeaders :: "string list" where
  "refreshedHeaders = [''Date'', ''X-Ratelimit-Limit'', ''X-Ratelimit-Remaining'', ''X-Ratelimit-Used'',
     ''X-Ratelimit-Reset'', ''X-Ratelimit-Resource'', ''Retry-After'']"

definition headerGet :: "header \<Rightarrow> string \<Rightarrow> string" where
  "headerGet h name = (case h name of [] \<Rightarrow> [] | v # _ \<Rightarrow> v)"

definition lookup :: "string \<Rightarrow> condCache \<Rightarrow> cacheEntry option \<times> condCache" where
  "lookup key c =
     (case map_of (ccEntries c) key of
        None \<Rightarrow> (None, c)
      | Some entry \<Rightarrow>
          let use = ccUse c + 1; entry' = entry\<lparr>ceUsed := use\<rparr>
          in (Some entry', c\<lparr>ccUse := use,
                ccEntries := map (\<lambda>(k, e). (k, if k = key then entry' else e)) (ccEntries c)\<rparr>))"

definition cacheDrop :: "string \<Rightarrow> condCache \<Rightarrow> condCache" where
  "cacheDrop key c =
     (case map_of (ccEntries c) key of
        None \<Rightarrow> c
      | Some entry \<Rightarrow> c\<lparr>ccBytes := ccBytes c - int (length (ceBody entry)),
                      ccEntries := filter (\<lambda>(k, _). k \<noteq> key) (ccEntries c)\<rparr>)"

text \<open>The scan for the oldest entry; the empty key stands for none found yet.\<close>

fun oldestScan :: "string \<Rightarrow> nat \<Rightarrow> (string \<times> cacheEntry) list \<Rightarrow> string" where
  "oldestScan oldestKey oldest [] = oldestKey"
| "oldestScan oldestKey oldest ((k, e) # es) =
     (if oldestKey = [] \<or> ceUsed e < oldest then oldestScan k (ceUsed e) es else oldestScan oldestKey oldest es)"

lemma oldestScan_mem: "oldestScan k0 u es = k0 \<or> oldestScan k0 u es \<in> fst ` set es"
proof (induction es arbitrary: k0 u)
  case (Cons p es)
  then show ?case using Cons [of "fst p" "ceUsed (snd p)"] Cons [of k0 u] by (cases p) auto
qed simp

lemma drop_shrinks:
  assumes "key \<in> fst ` set (ccEntries c)"
  shows "length (ccEntries (cacheDrop key c)) < length (ccEntries c)"
proof -
  obtain e where "map_of (ccEntries c) key = Some e" using assms by (auto simp: map_of_eq_None_iff dest: weak_map_of_SomeI)
  moreover have "length (filter (\<lambda>(k, _). k \<noteq> key) (ccEntries c)) < length (ccEntries c)"
    using assms by (auto intro!: length_filter_less)
  ultimately show ?thesis by (simp add: cacheDrop_def)
qed

function evictFor :: "int \<Rightarrow> condCache \<Rightarrow> condCache" where
  "evictFor n c =
     (if length (ccEntries c) \<ge> ccMaxEntries c \<or> ccBytes c + n > ccMaxBytes c then
        let oldestKey = oldestScan [] 0 (ccEntries c)
        in if oldestKey = [] then c
           else evictFor n ((cacheDrop oldestKey c)\<lparr>ccEvictions := ccEvictions c + 1\<rparr>)
      else c)"
  by pat_completeness auto

termination evictFor
proof (relation "measure (\<lambda>(_, c). length (ccEntries c))", goal_cases)
  case (2 n c k)
  then have "k \<in> fst ` set (ccEntries c)" using oldestScan_mem [of "[]" 0 "ccEntries c"] by auto
  from drop_shrinks [OF this] show ?case by simp
qed simp

declare evictFor.simps [simp del]

text \<open>The end of \<open>store\<close>: room is made, and the entry goes in.\<close>

definition storeEntry :: "string \<Rightarrow> string \<Rightarrow> header \<Rightarrow> string \<Rightarrow> condCache \<Rightarrow> condCache" where
  "storeEntry key etag hdr body c1 =
     (let c2 = evictFor (int (length body)) c1; use = ccUse c2 + 1
      in c2\<lparr>ccUse := use,
            ccEntries := ccEntries c2 @ [(key, \<lparr>ceEtag = etag, ceHeader = hdr, ceBody = body, ceUsed = use\<rparr>)],
            ccBytes := ccBytes c2 + int (length body)\<rparr>)"

definition store :: "string \<Rightarrow> 'e cacheResponse \<Rightarrow> condCache \<Rightarrow> 'e cacheResponse \<times> condCache" where
  "store key resp c0 =
     (let c = c0\<lparr>ccMisses := ccMisses c0 + 1\<rparr>; etag = headerGet (crHeader resp) ''Etag''
      in if crStatus resp \<noteq> 200 \<or> etag = [] \<or> crBody resp = None then (resp, cacheDrop key c)
         else case the (crBody resp) of
           Inl err \<Rightarrow> (resp, c)
         | Inr body \<Rightarrow>
             let c1 = cacheDrop key c
             in if int (length body) > ccMaxEntry c1 then (resp, c1)
                else (resp, storeEntry key etag (crHeader resp) body c1))"

definition replay :: "cacheEntry \<Rightarrow> 'e cacheResponse \<Rightarrow> condCache \<Rightarrow> 'e cacheResponse \<times> condCache" where
  "replay entry resp c =
     (\<lparr>crStatus = 200,
       crHeader = (\<lambda>name. if name = ''X-From-Cache'' then [''1'']
         else if name \<in> set refreshedHeaders then crHeader resp name else ceHeader entry name),
       crBody = Some (Inr (ceBody entry))\<rparr>,
      c\<lparr>ccHits := ccHits c + 1\<rparr>)"

text \<open>\<open>RoundTrip\<close> up to the exchange, what is sent, and the rest of it.\<close>

datatype flight = Direct string | Uncached string | Revalidating string cacheEntry

definition sendRequest :: "string \<Rightarrow> bool \<Rightarrow> string \<Rightarrow> condCache \<Rightarrow> flight \<times> condCache" where
  "sendRequest meth noCache key c =
     (if meth \<noteq> ''GET'' \<or> noCache then (Direct key, c)
      else case lookup key c of
        (Some entry, c') \<Rightarrow> (Revalidating key entry, c')
      | (None, c') \<Rightarrow> (Uncached key, c'))"

fun ifNoneMatch :: "flight \<Rightarrow> string option" where
  "ifNoneMatch (Revalidating key entry) = Some (ceEtag entry)"
| "ifNoneMatch _ = None"

definition receiveResponse :: "flight \<Rightarrow> 'e + 'e cacheResponse \<Rightarrow> condCache \<Rightarrow> ('e + 'e cacheResponse) \<times> condCache" where
  "receiveResponse f answer c =
     (case answer of
        Inl err \<Rightarrow> (Inl err, c)
      | Inr resp \<Rightarrow>
          (case f of
             Direct key \<Rightarrow> (Inr resp, c)
           | Uncached key \<Rightarrow> map_prod Inr id (store key resp c)
           | Revalidating key entry \<Rightarrow>
               if crStatus resp = 304 then map_prod Inr id (replay entry resp c)
               else map_prod Inr id (store key resp c)))"

section \<open>Bounds\<close>

definition bodyBytes :: "(string \<times> cacheEntry) list \<Rightarrow> int" where
  "bodyBytes es = (\<Sum>(k, e)\<leftarrow>es. int (length (ceBody e)))"

lemma bodyBytes_simps [simp]:
  "bodyBytes [] = 0" "bodyBytes ((k, e) # es) = int (length (ceBody e)) + bodyBytes es"
  "bodyBytes (es @ fs) = bodyBytes es + bodyBytes fs"
  by (simp_all add: bodyBytes_def)

lemma bodyBytes_nonneg [simp]: "0 \<le> bodyBytes es"
  by (induction es) auto

text \<open>
  What the lock protects: one entry per key, the byte count is the sum of the bodies, the
  use stamps are distinct and below the counter, and both bounds hold.
\<close>

definition entriesOk :: "condCache \<Rightarrow> bool" where
  "entriesOk c \<longleftrightarrow> distinct (map fst (ccEntries c)) \<and> [] \<notin> fst ` set (ccEntries c)
     \<and> distinct (map (ceUsed \<circ> snd) (ccEntries c)) \<and> (\<forall>p\<in>set (ccEntries c). ceUsed (snd p) \<le> ccUse c)
     \<and> ccBytes c = bodyBytes (ccEntries c)"

definition cacheBounds :: "condCache \<Rightarrow> bool" where
  "cacheBounds c \<longleftrightarrow> int (length (ccEntries c)) \<le> int (ccMaxEntries c) \<and> ccBytes c \<le> ccMaxBytes c"

definition cacheConfigured :: "condCache \<Rightarrow> bool" where
  "cacheConfigured c \<longleftrightarrow> 0 < ccMaxEntries c \<and> ccMaxEntry c \<le> ccMaxBytes c"

text \<open>The statistics do not matter.\<close>

lemma counters_irrelevant [simp]:
  "entriesOk (c\<lparr>ccHits := n\<rparr>) = entriesOk c" "entriesOk (c\<lparr>ccMisses := n\<rparr>) = entriesOk c"
  "entriesOk (c\<lparr>ccEvictions := n\<rparr>) = entriesOk c" "cacheBounds (c\<lparr>ccHits := n\<rparr>) = cacheBounds c"
  "cacheBounds (c\<lparr>ccMisses := n\<rparr>) = cacheBounds c" "cacheBounds (c\<lparr>ccEvictions := n\<rparr>) = cacheBounds c"
  "cacheConfigured (c\<lparr>ccHits := n\<rparr>) = cacheConfigured c" "cacheConfigured (c\<lparr>ccMisses := n\<rparr>) = cacheConfigured c"
  by (simp_all add: entriesOk_def cacheBounds_def cacheConfigured_def)

lemma bodyBytes_drop:
  "distinct (map fst es) \<Longrightarrow> map_of es key = Some e
    \<Longrightarrow> bodyBytes (filter (\<lambda>(k, _). k \<noteq> key) es) = bodyBytes es - int (length (ceBody e))"
proof (induction es)
  case (Cons p es)
  obtain k d where p: "p = (k, d)" by force
  have "key \<notin> fst ` set es \<Longrightarrow> filter (\<lambda>(k, _). k \<noteq> key) es = es" by (force simp: filter_id_conv)
  then show ?case using Cons p by (auto split: if_splits)
qed simp

lemma cacheDrop_fields [simp]:
  "ccMaxEntries (cacheDrop key c) = ccMaxEntries c" "ccMaxBytes (cacheDrop key c) = ccMaxBytes c"
  "ccMaxEntry (cacheDrop key c) = ccMaxEntry c" "ccUse (cacheDrop key c) = ccUse c"
  by (simp_all add: cacheDrop_def split: option.splits)

lemma cacheDrop_entries: "ccEntries (cacheDrop key c) = filter (\<lambda>(k, _). k \<noteq> key) (ccEntries c)"
  by (auto simp: cacheDrop_def map_of_eq_None_iff image_iff filter_id_conv [THEN iffD2, symmetric] split: option.splits intro!: filter_True [symmetric])

lemma cacheDrop_ok: "entriesOk c \<Longrightarrow> entriesOk (cacheDrop key c)"
proof -
  assume c: "entriesOk c"
  have "ccBytes (cacheDrop key c) = bodyBytes (filter (\<lambda>(k, _). k \<noteq> key) (ccEntries c))"
  proof (cases "map_of (ccEntries c) key")
    case None
    then show ?thesis using c cacheDrop_entries [of key c] by (simp add: cacheDrop_def entriesOk_def)
  next
    case (Some e)
    then show ?thesis using c bodyBytes_drop [of "ccEntries c" key e] by (simp add: cacheDrop_def entriesOk_def)
  qed
  then show ?thesis
    using c by (auto simp: entriesOk_def cacheDrop_entries intro: distinct_map_filter)
qed

lemma bodyBytes_filter_le: "bodyBytes (filter P es) \<le> bodyBytes es"
  by (induction es) auto

lemma cacheDrop_bounds: "entriesOk c \<Longrightarrow> cacheBounds c \<Longrightarrow> cacheBounds (cacheDrop key c)"
proof -
  assume c: "entriesOk c" "cacheBounds c"
  have "length (ccEntries (cacheDrop key c)) \<le> length (ccEntries c)" by (simp add: cacheDrop_entries)
  moreover have "ccBytes (cacheDrop key c) \<le> ccBytes c"
    using c(1) cacheDrop_ok [OF c(1), of key] by (simp add: entriesOk_def cacheDrop_entries bodyBytes_filter_le)
  ultimately show ?thesis using c(2) by (simp add: cacheBounds_def)
qed

lemma oldestScan_empty: "[] \<notin> fst ` set es \<Longrightarrow> oldestScan [] 0 es = [] \<longleftrightarrow> es = []"
proof -
  assume "[] \<notin> fst ` set es"
  then have "oldestScan k u es \<noteq> []" if "k \<noteq> []" for k u using that oldestScan_mem [of k u es] by force
  with \<open>[] \<notin> fst ` set es\<close> show ?thesis
    by (cases es) (auto, metis fst_conv image_eqI oldestScan_mem)
qed

lemma evictFor_ok:
  assumes "entriesOk c" "cacheBounds c" "0 < ccMaxEntries c" "n \<le> ccMaxBytes c"
  shows "entriesOk (evictFor n c) \<and> ccMaxEntries (evictFor n c) = ccMaxEntries c \<and> ccMaxBytes (evictFor n c) = ccMaxBytes c
    \<and> ccMaxEntry (evictFor n c) = ccMaxEntry c \<and> ccUse (evictFor n c) = ccUse c
    \<and> set (ccEntries (evictFor n c)) \<subseteq> set (ccEntries c)
    \<and> length (ccEntries (evictFor n c)) < ccMaxEntries c \<and> ccBytes (evictFor n c) + n \<le> ccMaxBytes c"
  using assms
proof (induction n c rule: evictFor.induct)
  case (1 n c)
  show ?case
  proof (cases "length (ccEntries c) \<ge> ccMaxEntries c \<or> ccBytes c + n > ccMaxBytes c")
    case True
    define k where "k = oldestScan [] 0 (ccEntries c)"
    have "ccEntries c \<noteq> []" using True 1 by (auto simp: entriesOk_def)
    then have k: "k \<noteq> []" using oldestScan_empty 1 by (simp add: k_def entriesOk_def)
    let ?c = "(cacheDrop k c)\<lparr>ccEvictions := ccEvictions c + 1\<rparr>"
    have e: "evictFor n c = evictFor n ?c" using True k by (subst evictFor.simps) (simp add: k_def Let_def)
    have ok: "entriesOk ?c" "cacheBounds ?c"
      using cacheDrop_ok cacheDrop_bounds 1 by simp_all
    show ?thesis
      using 1(1) [OF True k_def k ok] 1 unfolding e by (auto simp: cacheDrop_entries)
  next
    case False
    then show ?thesis using 1 by (simp add: evictFor.simps)
  qed
qed

text \<open>A lookup stamps one entry.\<close>

lemma stamp_keys [simp]: "map fst (map (\<lambda>(k, e). (k, if k = key then e' else e)) es) = map fst es"
  by (induction es) auto

lemma stamp_bytes:
  "\<forall>e. (key, e) \<in> set es \<longrightarrow> length (ceBody e) = length (ceBody e')
    \<Longrightarrow> bodyBytes (map (\<lambda>(k, e). (k, if k = key then e' else e)) es) = bodyBytes es"
  by (induction es) (auto, (metis+)?)

lemma stamp_used:
  assumes "distinct (map fst es)" "distinct (map (ceUsed \<circ> snd) es)" "\<forall>p\<in>set es. ceUsed (snd p) \<le> m" "ceUsed e' = Suc m"
  shows "distinct (map (ceUsed \<circ> snd) (map (\<lambda>(k, e). (k, if k = key then e' else e)) es))"
  using assms(1-3)
proof (induction es)
  case (Cons p es)
  obtain k e where p: "p = (k, e)" by force
  have same: "map (\<lambda>(k, e). (k, if k = key then e' else e)) es = es" if "k = key"
    using Cons.prems(1) p that by (intro map_idI) force
  show ?case
  proof (cases "k = key")
    case True
    have "Suc m \<notin> (ceUsed \<circ> snd) ` set es" using Cons.prems(3) by force
    then show ?thesis using Cons.prems p same [OF True] assms(4) True by simp
  next
    case False
    have "ceUsed e \<noteq> Suc m" using Cons.prems(3) p by auto
    then have "ceUsed e \<notin> (ceUsed \<circ> snd) ` set (map (\<lambda>(k, e). (k, if k = key then e' else e)) es)"
      using Cons.prems(2) p assms(4) by (force split: if_splits)
    then show ?thesis using Cons p False by (simp add: image_image)
  qed
qed simp

lemma lookup_ok:
  assumes "lookup key c = (r, c')" "entriesOk c"
  shows "entriesOk c'" "cacheBounds c' = cacheBounds c" "cacheConfigured c' = cacheConfigured c"
proof -
  note c = assms(2) [unfolded entriesOk_def]
  have body: "(key, e) \<in> set (ccEntries c) \<Longrightarrow> map_of (ccEntries c) key = Some entry \<Longrightarrow> e = entry" for e entry
    using c by (metis map_of_is_SomeI option.inject)
  show "entriesOk c'"
  proof (cases "map_of (ccEntries c) key")
    case (Some entry)
    let ?e = "entry\<lparr>ceUsed := Suc (ccUse c)\<rparr>"
    have c': "c' = c\<lparr>ccUse := Suc (ccUse c), ccEntries := map (\<lambda>(k, e). (k, if k = key then ?e else e)) (ccEntries c)\<rparr>"
      using assms(1) Some by (simp add: lookup_def Let_def)
    have "distinct (map (ceUsed \<circ> snd) (ccEntries c'))" using stamp_used [of "ccEntries c" "ccUse c" ?e] c c' by simp
    moreover have "bodyBytes (ccEntries c') = bodyBytes (ccEntries c)"
      using stamp_bytes [of key "ccEntries c" ?e] body [OF _ Some] c' by auto
    moreover have "map fst (ccEntries c') = map fst (ccEntries c)" unfolding c' by auto
    then have "distinct (map fst (ccEntries c'))" "fst ` set (ccEntries c') = fst ` set (ccEntries c)"
      using c by (simp, metis list.set_map)
    moreover have "\<forall>p\<in>set (ccEntries c'). ceUsed (snd p) \<le> ccUse c'" "ccBytes c' = ccBytes c"
      using c c' by (fastforce simp: le_Suc_eq, simp)
    ultimately show ?thesis using c by (simp add: entriesOk_def)
  qed (use assms in \<open>simp add: lookup_def\<close>)
  show "cacheBounds c' = cacheBounds c" "cacheConfigured c' = cacheConfigured c"
    using assms(1) by (auto simp: lookup_def cacheBounds_def cacheConfigured_def Let_def split: option.splits)
qed

lemma storeEntry_ok:
  assumes "entriesOk c" "cacheBounds c" "cacheConfigured c" "key \<noteq> []" "key \<notin> fst ` set (ccEntries c)"
    and "int (length body) \<le> ccMaxEntry c"
  shows "entriesOk (storeEntry key etag hdr body c) \<and> cacheBounds (storeEntry key etag hdr body c)
    \<and> cacheConfigured (storeEntry key etag hdr body c)"
proof -
  have "0 < ccMaxEntries c" "int (length body) \<le> ccMaxBytes c" using assms(3,6) by (auto simp: cacheConfigured_def)
  note ev = evictFor_ok [OF assms(1,2) this]
  define d where "d = evictFor (int (length body)) c"
  have new: "key \<notin> fst ` set (ccEntries d)" "Suc (ccUse d) \<notin> (ceUsed \<circ> snd) ` set (ccEntries d)"
    using ev assms(5) unfolding d_def entriesOk_def by (blast, force)
  show ?thesis
    using ev new assms(3,4) unfolding storeEntry_def Let_def d_def [symmetric]
    by (auto simp: entriesOk_def cacheBounds_def cacheConfigured_def le_Suc_eq)
qed

lemma store_ok:
  assumes "store key resp c = (resp', c')" "entriesOk c" "cacheBounds c" "cacheConfigured c" "key \<noteq> []"
  shows "entriesOk c' \<and> cacheBounds c' \<and> cacheConfigured c'"
proof -
  let ?c = "c\<lparr>ccMisses := ccMisses c + 1\<rparr>"
  have c: "entriesOk ?c" "cacheBounds ?c" "cacheConfigured ?c"
    using assms(2-4) by simp_all
  let ?d = "cacheDrop key ?c"
  have d: "entriesOk ?d" "cacheBounds ?d" "cacheConfigured ?d"
    using cacheDrop_ok [OF c(1)] cacheDrop_bounds [OF c(1,2)] c(3) by (auto simp: cacheConfigured_def)
  have "key \<notin> fst ` set (ccEntries ?d)" by (auto simp: cacheDrop_entries)
  note new = storeEntry_ok [OF d assms(5) this]
  show ?thesis
    using assms(1) c d new by (auto simp: store_def Let_def split: if_splits sum.splits)
qed

section \<open>Interleaved requests\<close>

text \<open>
  The requests of the adapter in the order their two steps come. A step \<open>Receive\<close> names the
  request by its position, carries the answer of the origin, and the instant the origin
  answered, which the cache does not see.
\<close>

record cacheWorld =
  cwCache :: condCache
  cwFlights :: "flight list"

datatype 'e cacheOp = Send string bool string | Receive nat nat "'e + 'e cacheResponse"

fun cacheStep :: "'e cacheOp \<Rightarrow> cacheWorld \<Rightarrow> cacheWorld \<times> (flight \<times> nat \<times> ('e + 'e cacheResponse)) list" where
  "cacheStep (Send meth noCache key) w =
     (let (f, c) = sendRequest meth noCache key (cwCache w)
      in (w\<lparr>cwCache := c, cwFlights := cwFlights w @ [f]\<rparr>, []))"
| "cacheStep (Receive i t answer) w =
     (if i < length (cwFlights w) then
        let (out, c) = receiveResponse (cwFlights w ! i) answer (cwCache w)
        in (w\<lparr>cwCache := c\<rparr>, [(cwFlights w ! i, t, out)])
      else (w, []))"

fun runCache :: "'e cacheOp list \<Rightarrow> cacheWorld \<Rightarrow> cacheWorld \<times> (flight \<times> nat \<times> ('e + 'e cacheResponse)) list" where
  "runCache [] w = (w, [])"
| "runCache (s # ss) w = (let (w1, o1) = cacheStep s w; (w2, o2) = runCache ss w1 in (w2, o1 @ o2))"

fun flightKey :: "flight \<Rightarrow> string" where
  "flightKey (Direct key) = key"
| "flightKey (Uncached key) = key"
| "flightKey (Revalidating key entry) = key"

fun urlStep :: "'e cacheOp \<Rightarrow> bool" where
  "urlStep (Send meth noCache key) \<longleftrightarrow> key \<noteq> []"
| "urlStep _ \<longleftrightarrow> True"

definition worldBounded :: "cacheWorld \<Rightarrow> bool" where
  "worldBounded w \<longleftrightarrow> entriesOk (cwCache w) \<and> cacheBounds (cwCache w) \<and> cacheConfigured (cwCache w)
     \<and> (\<forall>f\<in>set (cwFlights w). flightKey f \<noteq> [])"

lemma receiveResponse_ok:
  assumes "receiveResponse f answer c = (out, c')" "flightKey f \<noteq> []" "entriesOk c" "cacheBounds c" "cacheConfigured c"
  shows "entriesOk c' \<and> cacheBounds c' \<and> cacheConfigured c'"
proof -
  have store: "store (flightKey f) resp c = (resp', c') \<Longrightarrow> ?thesis" for resp resp' :: "'a cacheResponse"
    using store_ok assms(2-5) by blast
  show ?thesis
    using assms(1,3-5) store
    by (cases f; cases answer) (auto simp: receiveResponse_def replay_def map_prod_def split: if_splits prod.splits)
qed

lemma cacheStep_bounded:
  assumes "worldBounded w" "urlStep s"
  shows "worldBounded (fst (cacheStep s w))"
proof (cases s)
  case (Send meth noCache key)
  obtain f c where f: "sendRequest meth noCache key (cwCache w) = (f, c)" by fastforce
  then have "entriesOk c \<and> cacheBounds c \<and> cacheConfigured c \<and> flightKey f = key"
    using assms(1) lookup_ok [of key "cwCache w"]
    by (auto simp: sendRequest_def worldBounded_def split: if_splits option.splits prod.splits)
  then show ?thesis using assms Send f by (simp add: worldBounded_def)
next
  case (Receive i t answer)
  obtain out c where r: "receiveResponse (cwFlights w ! i) answer (cwCache w) = (out, c)" by fastforce
  then show ?thesis
    using assms(1) Receive receiveResponse_ok [OF r] by (simp add: worldBounded_def)
qed

definition startCache :: cacheWorld where "startCache = \<lparr>cwCache = newCondCache, cwFlights = []\<rparr>"

lemma startCache_bounded: "worldBounded startCache"
  by (simp add: worldBounded_def startCache_def newCondCache_def entriesOk_def cacheBounds_def cacheConfigured_def
    maxCacheEntries_def maxCacheBytes_def maxEntryBytes_def)

lemma runCache_bounded: "worldBounded w \<Longrightarrow> list_all urlStep steps \<Longrightarrow> worldBounded (fst (runCache steps w))"
proof (induction steps arbitrary: w)
  case (Cons s steps)
  then show ?case using cacheStep_bounded [of w s] by (simp add: split_beta Let_def)
qed simp

definition limitsOf :: "condCache \<Rightarrow> nat \<times> int \<times> int" where
  "limitsOf c = (ccMaxEntries c, ccMaxBytes c, ccMaxEntry c)"

lemma evictFor_limits: "limitsOf (evictFor n c) = limitsOf c"
proof (induction n c rule: evictFor.induct)
  case (1 n c)
  then show ?case by (subst evictFor.simps) (simp add: Let_def limitsOf_def)
qed

lemma cacheStep_limits: "limitsOf (cwCache (fst (cacheStep s w))) = limitsOf (cwCache w)"
proof -
  have store: "limitsOf (snd (store key resp c)) = limitsOf c" for key c and resp :: "'a cacheResponse"
    using evictFor_limits by (auto simp: store_def storeEntry_def limitsOf_def Let_def split: sum.splits)
  show ?thesis
  proof (cases s)
    case (Send meth noCache key)
    then show ?thesis
      by (auto simp: sendRequest_def lookup_def limitsOf_def Let_def split: prod.splits option.splits if_splits)
  next
    case (Receive i t answer)
    then show ?thesis
      using store by (auto simp: receiveResponse_def replay_def split_beta Let_def limitsOf_def split: sum.splits flight.splits)
  qed
qed

lemma runCache_limits: "limitsOf (cwCache (fst (runCache steps w))) = limitsOf (cwCache w)"
  by (induction steps arbitrary: w) (simp_all add: split_beta Let_def cacheStep_limits)

text \<open>
  The cache stays within its bounds. However requests are interleaved and whatever the
  origin answers, it holds at most 4096 entries, one per URL, whose bodies are at most 64 MiB
  together, and its byte count is exactly their size.
\<close>

theorem cache_stays_bounded:
  assumes "list_all urlStep steps"
  shows "length (ccEntries (cwCache (fst (runCache steps startCache)))) \<le> maxCacheEntries
    \<and> distinct (map fst (ccEntries (cwCache (fst (runCache steps startCache)))))
    \<and> (\<Sum>(k, e)\<leftarrow>ccEntries (cwCache (fst (runCache steps startCache))). int (length (ceBody e))) \<le> maxCacheBytes
    \<and> ccBytes (cwCache (fst (runCache steps startCache)))
      = (\<Sum>(k, e)\<leftarrow>ccEntries (cwCache (fst (runCache steps startCache))). int (length (ceBody e)))"
  using runCache_bounded [OF startCache_bounded assms] runCache_limits [of steps startCache]
  by (simp add: worldBounded_def entriesOk_def cacheBounds_def bodyBytes_def limitsOf_def startCache_def newCondCache_def)

section \<open>The cache is transparent\<close>

text \<open>
  The origin: what it holds for a URL at each instant. It answers 304 when the tag it is asked
  about is the current one, and otherwise the current representation with its tag. It may
  also answer with an error or a broken body at any time.
\<close>

record origin =
  ogEtag :: "nat \<Rightarrow> string \<Rightarrow> string"
  ogBody :: "nat \<Rightarrow> string \<Rightarrow> string"
  ogHeader :: "nat \<Rightarrow> string \<Rightarrow> header"

definition originAnswer :: "origin \<Rightarrow> nat \<Rightarrow> flight \<Rightarrow> 'e + 'e cacheResponse" where
  "originAnswer og t f =
     (let key = flightKey f; etag = ogEtag og t key
      in if ifNoneMatch f = Some etag then Inr \<lparr>crStatus = 304, crHeader = ogHeader og t key, crBody = Some (Inr [])\<rparr>
         else Inr \<lparr>crStatus = 200, crHeader = (ogHeader og t key)(''Etag'' := [etag]), crBody = Some (Inr (ogBody og t key))\<rparr>)"

fun faulty :: "'e + 'e cacheResponse \<Rightarrow> bool" where
  "faulty (Inl err) \<longleftrightarrow> True"
| "faulty (Inr resp) \<longleftrightarrow> crStatus resp \<noteq> 304 \<and> (crStatus resp = 200 \<longrightarrow> (\<forall>b. crBody resp \<noteq> Some (Inr b)))"

fun isDirect :: "flight \<Rightarrow> bool" where
  "isDirect (Direct key) \<longleftrightarrow> True"
| "isDirect _ \<longleftrightarrow> False"

fun honest :: "origin \<Rightarrow> 'e cacheOp list \<Rightarrow> cacheWorld \<Rightarrow> bool" where
  "honest og [] w \<longleftrightarrow> True"
| "honest og (s # ss) w \<longleftrightarrow>
     (case s of Send _ _ _ \<Rightarrow> True
      | Receive i t answer \<Rightarrow> i < length (cwFlights w)
          \<and> (isDirect (cwFlights w ! i) \<or> answer = originAnswer og t (cwFlights w ! i) \<or> faulty answer))
     \<and> honest og ss (fst (cacheStep s w))"

text \<open>One tag never names two bodies of one URL.\<close>

definition etagsName :: "origin \<Rightarrow> bool" where
  "etagsName og \<longleftrightarrow> (\<forall>key t t'. ogEtag og t key \<noteq> [] \<longrightarrow> ogEtag og t key = ogEtag og t' key \<longrightarrow> ogBody og t key = ogBody og t' key)"

definition entryFrom :: "origin \<Rightarrow> string \<Rightarrow> cacheEntry \<Rightarrow> bool" where
  "entryFrom og key e \<longleftrightarrow> ceEtag e \<noteq> [] \<and> (\<exists>t. ceEtag e = ogEtag og t key \<and> ceBody e = ogBody og t key)"

definition worldFrom :: "origin \<Rightarrow> cacheWorld \<Rightarrow> bool" where
  "worldFrom og w \<longleftrightarrow> (\<forall>(k, e)\<in>set (ccEntries (cwCache w)). entryFrom og k e)
     \<and> (\<forall>f\<in>set (cwFlights w). case f of Revalidating k e \<Rightarrow> entryFrom og k e | _ \<Rightarrow> True)"

lemma evictFor_subset: "set (ccEntries (evictFor n c)) \<subseteq> set (ccEntries c)"
proof (induction n c rule: evictFor.induct)
  case (1 n c)
  then show ?case by (subst evictFor.simps) (auto simp: Let_def cacheDrop_entries)
qed

lemma store_from:
  assumes "\<forall>(k, e)\<in>set (ccEntries c). entryFrom og k e"
    and "faulty (Inr resp) \<or> crStatus resp = 200 \<and> headerGet (crHeader resp) ''Etag'' = ogEtag og t key \<and> crBody resp = Some (Inr (ogBody og t key))"
  shows "fst (store key resp c) = resp \<and> (\<forall>(k, e)\<in>set (ccEntries (snd (store key resp c))). entryFrom og k e)"
proof -
  have d: "\<forall>(k, e)\<in>set (ccEntries (cacheDrop key (c\<lparr>ccMisses := n\<rparr>))). entryFrom og k e" for n
    using assms(1) by (auto simp: cacheDrop_entries)
  have new: "entryFrom og key \<lparr>ceEtag = headerGet (crHeader resp) ''Etag'', ceHeader = h, ceBody = body, ceUsed = m\<rparr>"
    if "crStatus resp = 200" "headerGet (crHeader resp) ''Etag'' \<noteq> []" "crBody resp = Some (Inr body)" for h body m
    using that assms(2) by (auto simp: entryFrom_def)
  have entry: "\<forall>(k, e)\<in>set (ccEntries (storeEntry key etag h body c1)). entryFrom og k e"
    if "\<forall>(k, e)\<in>set (ccEntries c1). entryFrom og k e" "\<And>m. entryFrom og key \<lparr>ceEtag = etag, ceHeader = h, ceBody = body, ceUsed = m\<rparr>"
    for etag h body c1
    using that evictFor_subset [of "int (length body)" c1] by (auto simp: storeEntry_def Let_def)
  show ?thesis
  proof (cases "crStatus resp \<noteq> 200 \<or> headerGet (crHeader resp) ''Etag'' = [] \<or> crBody resp = None")
    case True
    then show ?thesis using d by (simp add: store_def Let_def)
  next
    case False
    then obtain b where b: "crBody resp = Some b" by auto
    show ?thesis
    proof (cases b)
      case (Inl err)
      then show ?thesis using False b assms(1) by (simp add: store_def Let_def)
    next
      case (Inr body)
      note e = entry [OF d new]
      show ?thesis using False b Inr d e by (simp add: store_def Let_def)
    qed
  qed
qed

lemma sendRequest_from:
  assumes "worldFrom og w"
  shows "worldFrom og (fst (cacheStep (Send meth noCache key) w))"
proof (cases "meth \<noteq> ''GET'' \<or> noCache \<or> map_of (ccEntries (cwCache w)) key = None")
  case True
  then show ?thesis using assms by (auto simp: sendRequest_def lookup_def worldFrom_def)
next
  case False
  then obtain e where e: "map_of (ccEntries (cwCache w)) key = Some e" by auto
  then have "entryFrom og key e" using assms by (auto simp: worldFrom_def dest: map_of_SomeD)
  then have "entryFrom og key (e\<lparr>ceUsed := n\<rparr>)" for n by (simp add: entryFrom_def)
  then show ?thesis
    using assms False e by (auto simp: sendRequest_def lookup_def worldFrom_def Let_def split: if_splits)
qed

lemma originAnswer_200:
  assumes "originAnswer og t f = Inr resp" "crStatus resp \<noteq> 304"
  shows "crStatus resp = 200 \<and> headerGet (crHeader resp) ''Etag'' = ogEtag og t (flightKey f)
    \<and> crBody resp = Some (Inr (ogBody og t (flightKey f)))"
  using assms by (auto simp: originAnswer_def Let_def headerGet_def split: if_splits)

text \<open>What one response step does under an honest origin.\<close>

lemma receive_from:
  assumes "\<forall>(k, e)\<in>set (ccEntries c). entryFrom og k e" "case f of Revalidating k e \<Rightarrow> entryFrom og k e | _ \<Rightarrow> True"
    and "isDirect f \<or> answer = originAnswer og t f \<or> faulty answer" "etagsName og"
    and r: "receiveResponse f answer c = (out, c')"
  shows "(\<forall>(k, e)\<in>set (ccEntries c'). entryFrom og k e)
    \<and> (\<not> isDirect f \<and> out = Inr resp \<and> crStatus resp = 200 \<and> crBody resp = Some (Inr body) \<longrightarrow> body = ogBody og t (flightKey f))"
proof (cases "isDirect f \<or> (\<exists>err. answer = Inl err)")
  case True
  then show ?thesis using r assms(1) by (cases f; cases answer) (auto simp: receiveResponse_def)
next
  case False
  then obtain a where a: "answer = Inr a" by (cases answer) auto
  show ?thesis
  proof (cases "crStatus a = 304")
    case True
    then have og: "answer = originAnswer og t f" using assms(3) False a by auto
    then obtain k e where f: "f = Revalidating k e" and etag: "ceEtag e = ogEtag og t k"
      using True a by (cases f) (auto simp: originAnswer_def Let_def split: if_splits)
    from assms(2) f obtain t' where t': "ceEtag e \<noteq> []" "ceEtag e = ogEtag og t' k" "ceBody e = ogBody og t' k"
      by (auto simp: entryFrom_def)
    have "ceBody e = ogBody og t k"
      using assms(4) [unfolded etagsName_def, rule_format, of t' k t] t' etag by metis
    then show ?thesis using r a f True assms(1) by (auto simp: receiveResponse_def replay_def)
  next
    case no: False
    then have st: "map_prod Inr id (store (flightKey f) a c) = (out, c')"
      using r a False by (cases f) (auto simp: receiveResponse_def)
    have "faulty answer \<or> originAnswer og t f = Inr a" using assms(3) False a by auto
    then have ok: "faulty (Inr a) \<or> crStatus a = 200 \<and> headerGet (crHeader a) ''Etag'' = ogEtag og t (flightKey f)
        \<and> crBody a = Some (Inr (ogBody og t (flightKey f)))"
      using originAnswer_200 [OF _ no] a by blast
    obtain a' where a': "store (flightKey f) a c = (a', c')" "out = Inr a'" using st by (auto simp: map_prod_def split: prod.splits)
    then have "a' = a" "\<forall>(k, e)\<in>set (ccEntries c'). entryFrom og k e" using store_from [OF assms(1) ok] by auto
    then show ?thesis using a' ok by auto
  qed
qed

lemma cacheStep_from:
  assumes "worldFrom og w" "etagsName og" "honest og (s # ss) w"
  shows "worldFrom og (fst (cacheStep s w))
    \<and> (\<forall>(f, t, out)\<in>set (snd (cacheStep s w)). \<forall>resp body. \<not> isDirect f \<and> out = Inr resp \<and> crStatus resp = 200
        \<and> crBody resp = Some (Inr body) \<longrightarrow> body = ogBody og t (flightKey f))"
proof (cases s)
  case (Send meth noCache key)
  then show ?thesis using sendRequest_from [OF assms(1)] by (simp add: split_beta Let_def)
next
  case (Receive i t answer)
  let ?f = "cwFlights w ! i"
  have i: "i < length (cwFlights w)" "isDirect ?f \<or> answer = originAnswer og t ?f \<or> faulty answer"
    using assms(3) Receive by auto
  obtain out c where r: "receiveResponse ?f answer (cwCache w) = (out, c)" by fastforce
  have "\<forall>(k, e)\<in>set (ccEntries (cwCache w)). entryFrom og k e" "case ?f of Revalidating k e \<Rightarrow> entryFrom og k e | _ \<Rightarrow> True"
    using assms(1) i(1) by (auto simp: worldFrom_def)
  from receive_from [OF this i(2) assms(2) r]
  show ?thesis using assms(1) Receive i(1) r by (simp add: worldFrom_def) blast
qed

text \<open>
  C18. The cache is transparent. Against an origin whose tags name one body each, however requests
  interleave, every body a caller of a cached read gets with status 200 is the body the origin held
  when it answered that request: a 304 is never answered with a body that is not current.
\<close>

theorem cache_is_transparent:
  assumes "etagsName og" "honest og steps startCache"
    and "(f, t, Inr resp) \<in> set (snd (runCache steps startCache))" "\<not> isDirect f"
    and "crStatus resp = 200" "crBody resp = Some (Inr body)"
  shows "body = ogBody og t (flightKey f)"
proof -
  have "honest og steps w \<Longrightarrow> worldFrom og w \<Longrightarrow> (f, t, Inr resp) \<in> set (snd (runCache steps w)) \<Longrightarrow> ?thesis" for w
  proof (induction steps arbitrary: w)
    case (Cons s steps)
    note step = cacheStep_from [OF Cons.prems(2) assms(1) Cons.prems(1)]
    consider "(f, t, Inr resp) \<in> set (snd (cacheStep s w))" | "(f, t, Inr resp) \<in> set (snd (runCache steps (fst (cacheStep s w))))"
      using Cons.prems(3) by (auto simp: split_beta Let_def)
    then show ?case
    proof cases
      case 1
      then show ?thesis using step assms(4-6) by blast
    next
      case 2
      then show ?thesis using Cons step by auto
    qed
  qed simp
  moreover have "worldFrom og startCache" by (simp add: worldFrom_def startCache_def newCondCache_def)
  ultimately show ?thesis using assms(2,3) by blast
qed

text \<open>
  Two requests for one URL: the first stores the body of instant 1; the second and third revalidate it
  and cross, one answered before and one after the change at instant 3.
\<close>

definition changingOrigin :: origin where
  "changingOrigin = \<lparr>ogEtag = \<lambda>t _. if t < 3 then ''a'' else ''b'', ogBody = \<lambda>t _. if t < 3 then ''old'' else ''new'',
     ogHeader = \<lambda>_ _ _. []\<rparr>"

definition entryA :: "nat \<Rightarrow> cacheEntry" where
  "entryA n = \<lparr>ceEtag = ''a'', ceHeader = (\<lambda>_. [])(''Etag'' := [''a'']), ceBody = ''old'', ceUsed = n\<rparr>"

definition crossingRequests :: "unit cacheOp list" where
  "crossingRequests = [Send ''GET'' False ''u'', Receive 0 1 (originAnswer changingOrigin 1 (Uncached ''u'')),
     Send ''GET'' False ''u'', Send ''GET'' False ''u'',
     Receive 2 3 (originAnswer changingOrigin 3 (Revalidating ''u'' (entryA 3))),
     Receive 1 2 (originAnswer changingOrigin 2 (Revalidating ''u'' (entryA 2)))]"

lemmas crossing_run = crossingRequests_def changingOrigin_def startCache_def newCondCache_def sendRequest_def lookup_def
  receiveResponse_def store_def storeEntry_def replay_def cacheDrop_def originAnswer_def headerGet_def entryA_def
  evictFor.simps maxCacheEntries_def maxCacheBytes_def maxEntryBytes_def Let_def

lemma crossing_honest: "honest changingOrigin crossingRequests startCache"
  by (simp add: crossing_run)

lemma crossing_outputs:
  "map (\<lambda>(f, t, out). (isDirect f, flightKey f, t, case out of Inr r \<Rightarrow> (crStatus r, crBody r) | Inl _ \<Rightarrow> (0, None)))
     (snd (runCache crossingRequests startCache))
   = [(False, ''u'', 1, 200, Some (Inr ''old'')), (False, ''u'', 3, 200, Some (Inr ''new'')), (False, ''u'', 2, 200, Some (Inr ''old''))]"
  by (simp add: crossing_run)

theorem cache_is_transparent_witness:
  "\<exists>f resp body. (f, 2, Inr resp) \<in> set (snd (runCache crossingRequests startCache)) \<and> crBody resp = Some (Inr body)
     \<and> body = ogBody changingOrigin 2 ''u''"
proof -
  have "(False, ''u'', 2, 200, Some (Inr ''old'')) \<in> set (map (\<lambda>(f, t, out). (isDirect f, flightKey f, t,
      case out of Inr r \<Rightarrow> (crStatus r, crBody r) | Inl _ \<Rightarrow> (0, None))) (snd (runCache crossingRequests startCache)))"
    unfolding crossing_outputs by simp
  then obtain f resp where o: "(f, 2, Inr resp) \<in> set (snd (runCache crossingRequests startCache))" "\<not> isDirect f"
    "flightKey f = ''u''" "crStatus resp = 200" "crBody resp = Some (Inr ''old'')"
    by (auto split: sum.splits)
  have "etagsName changingOrigin" by (simp add: etagsName_def changingOrigin_def)
  from cache_is_transparent [OF this crossing_honest o(1,2,4,5)] o show ?thesis by metis
qed

theorem cache_stays_bounded_witness:
  "list_all urlStep crossingRequests \<and> length (ccEntries (cwCache (fst (runCache crossingRequests startCache)))) \<le> maxCacheEntries"
proof -
  have "list_all urlStep crossingRequests" by (simp add: crossingRequests_def)
  from cache_stays_bounded [OF this] this show ?thesis by simp
qed

section \<open>The least recently used entry goes\<close>

definition stampsOf :: "(string \<times> cacheEntry) list \<Rightarrow> (string \<times> nat) list" where
  "stampsOf es = map (\<lambda>(k, e). (k, ceUsed e)) es"

lemma oldestScan_least:
  assumes "k0 \<noteq> []" "[] \<notin> fst ` set es"
  shows "\<exists>n. (oldestScan k0 u es, n) \<in> set ((k0, u) # stampsOf es) \<and> (\<forall>(k, m)\<in>set ((k0, u) # stampsOf es). n \<le> m)"
  using assms
proof (induction es arbitrary: k0 u)
  case (Cons p es)
  obtain k e where p: "p = (k, e)" by force
  have k: "k \<noteq> []" "[] \<notin> fst ` set es" using Cons.prems p by auto
  have c: "stampsOf (p # es) = (k, ceUsed e) # stampsOf es" by (simp add: stampsOf_def p)
  show ?case
  proof (cases "ceUsed e < u")
    case True
    from Cons.IH [OF k, of "ceUsed e"] obtain n where "(oldestScan k (ceUsed e) es, n) \<in> set ((k, ceUsed e) # stampsOf es)"
      "\<forall>(k, m)\<in>set ((k, ceUsed e) # stampsOf es). n \<le> m" by blast
    then show ?thesis using True p unfolding c by (intro exI [of _ n]) auto
  next
    case False
    from Cons.IH [OF Cons.prems(1) k(2), of u] obtain n where "(oldestScan k0 u es, n) \<in> set ((k0, u) # stampsOf es)"
      "\<forall>(k, m)\<in>set ((k0, u) # stampsOf es). n \<le> m" by blast
    then show ?thesis using False p Cons.prems(1) unfolding c by (intro exI [of _ n]) auto
  qed
qed (simp add: stampsOf_def)

text \<open>What is evicted was used least recently.\<close>

lemma oldest_is_least:
  assumes "es \<noteq> []" "[] \<notin> fst ` set es"
  shows "\<exists>n. (oldestScan [] 0 es, n) \<in> set (stampsOf es) \<and> (\<forall>(k, m)\<in>set (stampsOf es). n \<le> m)"
proof -
  obtain k e es' where es: "es = (k, e) # es'" using assms(1) by (cases es) auto
  then have "oldestScan [] 0 es = oldestScan k (ceUsed e) es'" "stampsOf es = (k, ceUsed e) # stampsOf es'"
    "k \<noteq> []" "[] \<notin> fst ` set es'" using assms(2) by (auto simp: stampsOf_def)
  then show ?thesis using oldestScan_least [of k es' "ceUsed e"] by simp
qed

text \<open>The order in which the map is walked makes no difference.\<close>

lemma scan_order_irrelevant:
  assumes "set es = set es'" "[] \<notin> fst ` set es" "distinct (map (ceUsed \<circ> snd) es)"
  shows "oldestScan [] 0 es = oldestScan [] 0 es'"
proof (cases "es = []")
  case False
  have same: "set (stampsOf es') = set (stampsOf es)" "es' \<noteq> []" "[] \<notin> fst ` set es'"
    using assms(1,2) False by (auto simp: stampsOf_def)
  obtain n where n: "(oldestScan [] 0 es, n) \<in> set (stampsOf es)" "\<forall>(k, m)\<in>set (stampsOf es). n \<le> m"
    using oldest_is_least [OF False assms(2)] by auto
  obtain n' where n': "(oldestScan [] 0 es', n') \<in> set (stampsOf es)" "\<forall>(k, m)\<in>set (stampsOf es). n' \<le> m"
    using oldest_is_least [OF same(2,3)] unfolding same by auto
  have "n = n'" using n n' by fastforce
  moreover have "k = k'" if "(k, m) \<in> set (stampsOf es)" "(k', m) \<in> set (stampsOf es)" for k k' m
    using that assms(3) by (fastforce simp: stampsOf_def distinct_map inj_on_def)
  ultimately show ?thesis using n(1) n'(1) by blast
qed (use assms in auto)

end
