(* ===== verification/OrchRotate.thy ===== *)
theory OrchRotate
  imports CoreTypes "HOL-Library.List_Lexorder" "HOL-Library.Char_ord"
begin

text \<open>
  \<open>rotate\<close> of \<open>internal/orchestrator/absence.go\<close>, with which every per-tick budget of the orchestrator
  picks the candidates it spends a request on: those just past a cursor, wrapping around. Go
  compares strings by bytes, which is the lexicographic order on lists of characters.
\<close>

section \<open>Rotation\<close>

text \<open>The loop that looks for the first candidate past the cursor; without one it starts over.\<close>

fun startLoop :: "string \<Rightarrow> nat \<Rightarrow> string list \<Rightarrow> nat" where
  "startLoop cursor i [] = 0"
| "startLoop cursor i (x # xs) = (if x > cursor then i else startLoop cursor (i + 1) xs)"

fun pickLoop :: "('a \<Rightarrow> string) \<Rightarrow> 'a list \<Rightarrow> nat \<Rightarrow> nat \<Rightarrow> nat \<Rightarrow> string \<Rightarrow> 'a list \<Rightarrow> 'a list \<times> string" where
  "pickLoop identifier items start i 0 cursor picked = (picked, cursor)"
| "pickLoop identifier items start i (Suc m) cursor picked =
     (let it = items ! ((start + i) mod length items)
      in pickLoop identifier items start (i + 1) m (identifier it) (picked @ [it]))"

definition rotateOffer :: "'a list \<Rightarrow> ('a \<Rightarrow> string) \<Rightarrow> string \<Rightarrow> int \<Rightarrow> 'a list \<times> string" where
  "rotateOffer items identifier cursor n =
     (if items = [] \<or> n \<le> 0 then ([], cursor)
      else
        let sorted = sort_key identifier items;
            start = startLoop cursor 0 (map identifier sorted)
        in pickLoop identifier sorted start 0 (min (nat n) (length sorted)) cursor [])"

section \<open>What is picked\<close>

lemma startLoop_bound: "xs \<noteq> [] \<Longrightarrow> startLoop cursor i xs < i + length xs"
  by (induction xs arbitrary: i) (auto, metis add_Suc_right add_Suc_shift list.size(3) startLoop.simps(1) zero_less_Suc add.right_neutral less_SucI)

lemma startLoop_first:
  "(\<exists>x\<in>set xs. cursor < x) \<Longrightarrow> \<exists>j<length xs. startLoop cursor i xs = i + j \<and> cursor < xs ! j \<and> (\<forall>k<j. \<not> cursor < xs ! k)"
proof (induction xs arbitrary: i)
  case (Cons x xs)
  show ?case
  proof (cases "cursor < x")
    case True
    then show ?thesis by (intro exI [of _ 0]) simp
  next
    case False
    then obtain j where "j < length xs" "startLoop cursor (i + 1) xs = i + 1 + j" "cursor < xs ! j" "\<forall>k<j. \<not> cursor < xs ! k"
      using Cons.IH [of "i + 1"] Cons.prems by auto
    then show ?thesis using False by (intro exI [of _ "Suc j"]) (auto simp: less_Suc_eq_0_disj)
  qed
qed simp

lemma startLoop_wrap: "\<forall>x\<in>set xs. \<not> cursor < x \<Longrightarrow> startLoop cursor i xs = 0"
  by (induction xs arbitrary: i) auto

text \<open>
  The first pick is the successor of the cursor in the cyclic order of the candidates:
  the least identifier past the cursor, or the least of all.
\<close>

definition nextAfter :: "string set \<Rightarrow> string \<Rightarrow> string" where
  "nextAfter S cursor = (if \<exists>x\<in>S. cursor < x then Min {x\<in>S. cursor < x} else Min S)"

lemma rotate_one:
  assumes "items \<noteq> []"
  shows "\<exists>it\<in>set items. rotateOffer items identifier cursor 1 = ([it], identifier it)
    \<and> identifier it = nextAfter (identifier ` set items) cursor"
proof -
  let ?s = "sort_key identifier items"
  let ?ids = "map identifier ?s"
  have s: "set ?s = set items" "sorted ?ids" "?s \<noteq> []" "length ?s = length items"
    using assms by (simp_all, metis length_0_conv length_sort)
  define start where "start = startLoop cursor 0 ?ids"
  have bound: "start < length ?s" using startLoop_bound [of ?ids cursor 0] s(3) by (simp add: start_def)
  have r: "rotateOffer items identifier cursor 1 = ([?s ! start], identifier (?s ! start))"
    using assms bound s(3,4) by (simp add: rotateOffer_def Let_def start_def [symmetric] One_nat_def)
  have "identifier (?s ! start) = nextAfter (identifier ` set items) cursor"
  proof (cases "\<exists>x\<in>identifier ` set items. cursor < x")
    case True
    then obtain j where j: "j < length ?ids" "start = j" "cursor < ?ids ! j" "\<forall>k<j. \<not> cursor < ?ids ! k"
      using startLoop_first [of ?ids cursor 0] s(1) by (auto simp: start_def)
    have mem: "?s ! j \<in> set items" using j(1) s(1) nth_mem [of j ?s] by simp
    have "Min {x \<in> identifier ` set items. cursor < x} = ?ids ! j"
    proof (rule Min_eqI)
      fix y assume "y \<in> {x \<in> identifier ` set items. cursor < x}"
      then obtain k where "k < length ?ids" "?ids ! k = y" "cursor < y"
        using s(1) by (metis (no_types, lifting) in_set_conv_nth list.set_map mem_Collect_eq)
      then show "?ids ! j \<le> y" using j(4) sorted_nth_mono [OF s(2), of j k] by (metis not_le)
    qed (use j mem in auto)
    then show ?thesis using True j by (simp add: nextAfter_def)
  next
    case False
    then have "start = 0" using startLoop_wrap [of ?ids cursor 0] s(1) by (simp add: start_def)
    moreover have "Min (identifier ` set items) = ?ids ! 0"
    proof (rule Min_eqI)
      fix y assume "y \<in> identifier ` set items"
      then obtain k where "k < length ?ids" "?ids ! k = y" using s(1) by (metis in_set_conv_nth list.set_map)
      then show "?ids ! 0 \<le> y" using sorted_nth_mono [OF s(2), of 0 k] by simp
    qed (use assms s nth_mem [of 0 ?s] in \<open>simp_all add: nth_map\<close>)
    ultimately show ?thesis using False assms by (simp add: nextAfter_def nth_map)
  qed
  moreover have "?s ! start \<in> set items" using bound s(1) by (metis nth_mem)
  ultimately show ?thesis using r by blast
qed

section \<open>Every candidate gets its turn\<close>

text \<open>The identifiers that come after \<open>c\<close> and before \<open>x\<close> in the cyclic order.\<close>

definition ahead :: "string \<Rightarrow> string \<Rightarrow> string \<Rightarrow> bool" where
  "ahead c x y \<longleftrightarrow> (if c < x then c < y \<and> y < x else c < y \<or> y < x)"

lemma ahead_step:
  assumes "finite S" "x \<in> S" "nextAfter S c \<noteq> x"
  defines "p \<equiv> nextAfter S c"
  shows "p \<in> S" "ahead c x p" "\<And>y. ahead p x y \<Longrightarrow> ahead c x y" "\<not> ahead p x p"
proof -
  have "p \<in> S \<and> ahead c x p \<and> (\<forall>y. ahead p x y \<longrightarrow> ahead c x y) \<and> \<not> ahead p x p"
  proof (cases "\<exists>y\<in>S. c < y")
    case True
    then have m: "p = Min {y\<in>S. c < y}" by (simp add: p_def nextAfter_def)
    have "p \<in> {y\<in>S. c < y}" unfolding m using True assms(1) by (intro Min_in) auto
    moreover have "c < x \<Longrightarrow> p \<le> x" unfolding m using assms(1,2) by (intro Min_le) auto
    ultimately show ?thesis using assms(3) by (auto simp: ahead_def p_def [symmetric])
  next
    case False
    then have m: "p = Min S" by (simp add: p_def nextAfter_def)
    have "p \<in> S" "p \<le> x" unfolding m using assms(1,2) by (auto intro: Min_in Min_le)
    then show ?thesis using False assms(2,3) by (auto simp: ahead_def p_def [symmetric])
  qed
  then show "p \<in> S" "ahead c x p" "\<And>y. ahead p x y \<Longrightarrow> ahead c x y" "\<not> ahead p x p" by auto
qed

text \<open>One offer per tick, with the cursor carried from tick to tick.\<close>

fun offerRun :: "('a \<Rightarrow> string) \<Rightarrow> 'a list list \<Rightarrow> string \<Rightarrow> 'a list list" where
  "offerRun identifier [] cursor = []"
| "offerRun identifier (items # ticks) cursor =
     (let (picked, cursor') = rotateOffer items identifier cursor 1 in picked # offerRun identifier ticks cursor')"

lemma offerRun_reaches:
  assumes "\<forall>items\<in>set ticks. x \<in> identifier ` set items" "finite U" "\<forall>items\<in>set ticks. identifier ` set items \<subseteq> U"
    and "card {y\<in>U. ahead cursor x y} < length ticks"
  shows "\<exists>picked\<in>set (offerRun identifier ticks cursor). x \<in> identifier ` set picked"
  using assms
proof (induction ticks arbitrary: cursor)
  case (Cons items ticks)
  have x: "x \<in> identifier ` set items" using Cons.prems(1) by simp
  then have "items \<noteq> []" by auto
  then obtain it where it: "rotateOffer items identifier cursor 1 = ([it], identifier it)"
    "identifier it = nextAfter (identifier ` set items) cursor"
    using rotate_one by blast
  show ?case
  proof (cases "identifier it = x")
    case True
    then show ?thesis using it(1) by simp
  next
    case False
    note step = ahead_step [OF _ x, of cursor]
    have s: "identifier it \<in> U" "ahead cursor x (identifier it)" "\<And>y. ahead (identifier it) x y \<Longrightarrow> ahead cursor x y"
      "\<not> ahead (identifier it) x (identifier it)"
      using step False it(2) Cons.prems(3) by auto
    have "{y\<in>U. ahead (identifier it) x y} \<subset> {y\<in>U. ahead cursor x y}" using s by blast
    then have "card {y\<in>U. ahead (identifier it) x y} < card {y\<in>U. ahead cursor x y}"
      using Cons.prems(2) by (intro psubset_card_mono) auto
    then have "\<exists>picked\<in>set (offerRun identifier ticks (identifier it)). x \<in> identifier ` set picked"
      using Cons.prems by (intro Cons.IH) auto
    then show ?thesis using it(1) by simp
  qed
qed simp

text \<open>
  C31. The rotation is fair. While an identifier stays a candidate it is picked within as many ticks
  as there are identifiers among the candidates of those ticks, whatever else joins or leaves
  the set and wherever the cursor stands, also when it names something long gone. A confirmation that
  keeps failing cannot hold the slot.
\<close>

theorem rotation_is_fair:
  assumes "\<forall>items\<in>set ticks. x \<in> identifier ` set items"
    and "card (\<Union>items\<in>set ticks. identifier ` set items) \<le> length ticks" and "ticks \<noteq> []"
  shows "\<exists>picked\<in>set (offerRun identifier ticks cursor). x \<in> identifier ` set picked"
proof (rule offerRun_reaches [where U = "\<Union>items\<in>set ticks. identifier ` set items"])
  let ?U = "\<Union>items\<in>set ticks. identifier ` set items"
  have "x \<in> ?U" using assms(1,3) by (cases ticks) auto
  moreover have "\<not> ahead cursor x x" by (simp add: ahead_def)
  ultimately have "card {y\<in>?U. ahead cursor x y} < card ?U" by (intro psubset_card_mono) auto
  then show "card {y\<in>?U. ahead cursor x y} < length ticks" using assms(2) by simp
qed (use assms in auto)

theorem rotation_is_fair_witness:
  "\<exists>picked\<in>set (offerRun id [[''9'', ''12'', ''7''], [''7'', ''12''], [''9'', ''7'']] ''7''). ''7'' \<in> set picked"
proof -
  let ?t = "[[''9'', ''12'', ''7''], [''7'', ''12''], [''9'', ''7'']]"
  have "card (\<Union>items\<in>set ?t. id ` set items) \<le> length ?t" "\<forall>items\<in>set ?t. ''7'' \<in> id ` set items"
    by (simp_all add: card_insert_if)
  from rotation_is_fair [OF this(2,1), of "''7''"] show ?thesis by simp
qed

end
