(* ===== verification/OrchHeld.thy ===== *)
theory OrchHeld
  imports OrchApproval OrchRotate
begin

text \<open>
  \<open>internal/orchestrator/held.go\<close> and \<open>cycle.go\<close>: a claim that is kept while its pull request awaits
  review, the sweep that releases it, and the disposal a workspace owes once the tracker has
  ended its cycle. The loop is one goroutine; every handler is a function of its state, and
  what a handler starts in another goroutine is a request that is outstanding until the
  signal with its answer arrives. The Go maps that handlers range over are visited in an order that
  is an argument of the step.
\<close>

section \<open>State\<close>

text \<open>
  A workspace provider: \<open>pvCompletes\<close> says that it implements \<open>workspaceLifecycleCompleter\<close>, so that a
  workspace outlives its claim.
\<close>

record provider =
  pvName :: string
  pvCompletes :: bool

record heldConfig =
  hfPrincipal :: string
  hfRequired :: "string list"
  hfActiveStates :: "string list"
  hfWorkspaces :: provider

record endedCycle =
  ecIssue :: string
  ecWorkspace :: Workspace
  ecWorkspaces :: "provider option"
  ecWhy :: string
  ecInFlight :: bool
  ecDeferredCandidate :: bool

record heldClaim =
  hcIssue :: coreIssue
  hcPRURL :: string
  hcWorkspace :: Workspace
  hcRevision :: string
  hcCycleAnchor :: tid
  hcToken :: int
  hcReleasing :: bool
  hcReleaseFailed :: bool
  hcWhy :: string
  hcInFlight :: bool

text \<open>A run record with the two fields that the hand-over to a held claim reads.\<close>

record trackedRecord =
  trRecord :: Record
  trWorkspace :: Workspace
  trPRURL :: string

text \<open>What the loop has asked for: writes on the serial queue, reads and disposals in goroutines.\<close>

datatype heldRequest =
    ReleaseClaim string int
  | ConfirmClaim string int
  | ReadHistory string int coreIssue
  | DisposeCycle string
  | ScanCycles nat provider
  | ReadAnchor string int coreIssue
  | ConfirmOwner string int

text \<open>The trace of requests and of confirmed disposals is not part of the program's state.\<close>

datatype heldEvent = Requested heldRequest | CycleDisposed string

record heldLoop =
  hlHeld :: "string \<rightharpoonup> heldClaim"
  hlRecords :: "string \<rightharpoonup> trackedRecord"
  hlEnded :: "(string \<times> endedCycle) list"
  hlHeldCursor :: string
  hlDisposalCursor :: string
  hlDraining :: bool
  hlScanInFlight :: bool
  hlScanFailed :: bool
  hlScanOwed :: bool
  hlMutationSeq :: nat
  hlMutationsInFlight :: nat
  hlNextToken :: int
  hlConfig :: heldConfig
  hlOut :: "heldRequest list"
  hlTrace :: "heldEvent list"

definition request :: "heldRequest \<Rightarrow> heldLoop \<Rightarrow> heldLoop" where
  "request q s = s\<lparr>hlOut := hlOut s @ [q], hlTrace := hlTrace s @ [Requested q]\<rparr>"

definition putHeld :: "string \<Rightarrow> heldClaim \<Rightarrow> heldLoop \<Rightarrow> heldLoop" where
  "putHeld key h s = s\<lparr>hlHeld := (hlHeld s)(key \<mapsto> h)\<rparr>"

definition putEnded :: "string \<Rightarrow> endedCycle \<Rightarrow> heldLoop \<Rightarrow> heldLoop" where
  "putEnded address c s = s\<lparr>hlEnded := map (\<lambda>(a, e). (a, if a = address then c else e)) (hlEnded s)\<rparr>"

section \<open>Reads\<close>

text \<open>The result of a \<open>Get\<close>: an error, or an issue that may be missing.\<close>

datatype readError = ErrIssueNotFound | ReadRefused

record refreshResult =
  rsErr :: "readError option"
  rsIssue :: "coreIssue option"

definition gone :: "refreshResult \<Rightarrow> bool" where
  "gone res \<longleftrightarrow> rsErr res = Some ErrIssueNotFound \<or> rsErr res = None \<and> rsIssue res = None"

definition activeIssue :: "runtime \<Rightarrow> heldConfig \<Rightarrow> coreIssue \<Rightarrow> bool" where
  "activeIssue u cfg issue =
     (let states = (if hfActiveStates cfg = [] then [''open''] else hfActiveStates cfg)
      in containsFold u states (ciState issue))"

definition cycleEndedBy :: "runtime \<Rightarrow> heldConfig \<Rightarrow> refreshResult \<Rightarrow> string option" where
  "cycleEndedBy u cfg res =
     (if gone res then Some ''issue is gone from the tracker''
      else case (rsErr res, rsIssue res) of
        (None, Some issue) \<Rightarrow>
          if \<not> activeIssue u cfg issue then Some ''issue went terminal''
          else if \<not> hasRequiredLabels u (hfRequired cfg) issue then Some ''issue left the workflow's label partition''
          else None
      | _ \<Rightarrow> None)"

datatype approvalReadError = ErrApprovalUnread | ApprovalReadFailed

text \<open>
  \<open>source\<close> is \<open>CycleApproval\<close> of a provider that implements \<open>cycleApprovalSource\<close>: an error, or the
  approval its record names, zero without one.
\<close>

definition cycleSuperseded :: "(unit + tid) option \<Rightarrow> tid \<Rightarrow> approvalReadError + bool" where
  "cycleSuperseded source standing =
     (case source of
        None \<Rightarrow> Inr False
      | Some answer \<Rightarrow>
          if standing \<le> 0 then Inl ErrApprovalUnread
          else case answer of
            Inl _ \<Rightarrow> Inl ApprovalReadFailed
          | Inr recorded \<Rightarrow> Inr (recorded > 0 \<and> recorded \<noteq> standing))"

text \<open>What the worker of \<open>checkHeldHistory\<close> and of \<open>driveHold\<close> computes from the change log.\<close>

record historyAnswer =
  haErr :: "readError option"
  haAnchor :: tid
  haClosed :: bool
  haApproval :: "approvalReadError + bool"

definition historyWorker ::
  "runtime \<Rightarrow> heldConfig \<Rightarrow> (unit + tid) option \<Rightarrow> readError + ClaimEvent list \<Rightarrow> historyAnswer" where
  "historyWorker u cfg source answer =
     (let events = (case answer of Inl _ \<Rightarrow> [] | Inr evs \<Rightarrow> evs);
          anchor = claimCycleAnchor u events (hfPrincipal cfg)
      in \<lparr>haErr = (case answer of Inl e \<Rightarrow> Some e | Inr _ \<Rightarrow> None), haAnchor = anchor,
          haClosed = closedInCycle events anchor,
          haApproval = cycleSuperseded source (StandingApproval u events (hfRequired cfg))\<rparr>)"

section \<open>Ended cycles\<close>

definition cycleWorkspace :: "provider \<Rightarrow> Workspace \<Rightarrow> Workspace" where
  "cycleWorkspace p ws =
     (if \<not> pvCompletes p then zeroWorkspace
      else if wsKey ws = [] then zeroWorkspace
      else zeroWorkspace\<lparr>wsPath := wsPath ws, wsKey := wsKey ws, wsBranch := wsBranch ws, wsClaimEpoch := wsClaimEpoch ws\<rparr>)"

definition oweEndedCycle :: "string \<Rightarrow> provider \<Rightarrow> Workspace \<Rightarrow> string \<Rightarrow> heldLoop \<Rightarrow> heldLoop" where
  "oweEndedCycle key p ws why s =
     (let cycle = cycleWorkspace p ws
      in if wsKey cycle = [] \<or> wsPath cycle = [] then s
         else if wsPath cycle \<in> fst ` set (hlEnded s) then s
         else s\<lparr>hlEnded := hlEnded s @ [(wsPath cycle, \<lparr>ecIssue = key, ecWorkspace = cycle, ecWorkspaces = Some p,
                ecWhy = why, ecInFlight = False, ecDeferredCandidate = False\<rparr>)]\<rparr>)"

text \<open>A listed obligation of a provider: the issue, the key and the address.\<close>

record workspaceRef =
  wrIdentifier :: string
  wrKey :: string
  wrPath :: string

definition adoptDurableEndedCycles :: "provider \<Rightarrow> workspaceRef list \<Rightarrow> heldLoop \<Rightarrow> heldLoop" where
  "adoptDurableEndedCycles p refs s =
     fold (\<lambda>ref. oweEndedCycle (wrIdentifier ref) p (zeroWorkspace\<lparr>wsPath := wrPath ref, wsKey := wrKey ref\<rparr>)
       ''the approval was withdrawn and re-applied while BEN was not observing it'') refs s"

definition applyCycleScan :: "provider \<Rightarrow> unit + workspaceRef list \<Rightarrow> bool \<Rightarrow> heldLoop \<Rightarrow> bool \<times> heldLoop" where
  "applyCycleScan p listing mayClear s =
     (case listing of
        Inl _ \<Rightarrow> (False, s\<lparr>hlScanFailed := True\<rparr>)
      | Inr refs \<Rightarrow>
          let s' = adoptDurableEndedCycles p refs s
          in (True, if mayClear then s'\<lparr>hlScanFailed := False\<rparr> else s'))"

text \<open>\<open>isSource\<close> says that the provider in force implements \<open>endedCycleSource\<close>.\<close>

definition beginCycleScan :: "bool \<Rightarrow> heldLoop \<Rightarrow> heldLoop" where
  "beginCycleScan isSource s =
     (if hlScanInFlight s \<or> hlDraining s \<or> hlMutationsInFlight s > 0 then s
      else if \<not> isSource then s\<lparr>hlScanFailed := False\<rparr>
      else request (ScanCycles (hlMutationSeq s) (hfWorkspaces (hlConfig s))) (s\<lparr>hlScanInFlight := True\<rparr>))"

definition onCycleScan :: "nat \<Rightarrow> provider \<Rightarrow> unit + workspaceRef list \<Rightarrow> heldLoop \<Rightarrow> heldLoop" where
  "onCycleScan seq p listing s0 =
     (let s = s0\<lparr>hlScanInFlight := False\<rparr>;
          fresh = (seq = hlMutationSeq s \<and> hlMutationsInFlight s = 0)
      in if (case listing of Inl _ \<Rightarrow> True | Inr _ \<Rightarrow> False) \<or> fresh then snd (applyCycleScan p listing fresh s) else s)"

definition endedCycleOwed :: "heldLoop \<Rightarrow> string \<Rightarrow> bool" where
  "endedCycleOwed s key \<longleftrightarrow> hlScanFailed s \<or> list_ex (\<lambda>(_, c). ecIssue c = key) (hlEnded s)"

section \<open>Held claims\<close>

text \<open>\<open>accepts\<close> is the answer of \<open>enqueue\<close> for the release of an issue.\<close>

definition driveHeldRelease :: "(string \<Rightarrow> bool) \<Rightarrow> string \<Rightarrow> heldLoop \<Rightarrow> heldLoop" where
  "driveHeldRelease accepts key s =
     (case hlHeld s key of
        None \<Rightarrow> s
      | Some h \<Rightarrow>
          if hcInFlight h then s
          else if accepts key then request (ReleaseClaim key (hcToken h)) (putHeld key (h\<lparr>hcInFlight := True\<rparr>) s)
          else putHeld key (h\<lparr>hcInFlight := False\<rparr>) s)"

definition driveHeldExit :: "(string \<Rightarrow> bool) \<Rightarrow> string \<Rightarrow> heldLoop \<Rightarrow> heldLoop" where
  "driveHeldExit accepts key s =
     (case hlHeld s key of
        None \<Rightarrow> s
      | Some h \<Rightarrow> if hcInFlight h \<or> endedCycleOwed s key then s else driveHeldRelease accepts key s)"

definition releaseHeld :: "(string \<Rightarrow> bool) \<Rightarrow> string \<Rightarrow> string \<Rightarrow> heldLoop \<Rightarrow> heldLoop" where
  "releaseHeld accepts key why s =
     (case hlHeld s key of
        None \<Rightarrow> s
      | Some h \<Rightarrow>
          if hcReleasing h then s
          else if hlDraining s then s
          else driveHeldExit accepts key
            (oweEndedCycle key (hfWorkspaces (hlConfig s)) (hcWorkspace h) why
              (putHeld key (h\<lparr>hcReleasing := True, hcWhy := why\<rparr>) s)))"

definition checkHeldHistory :: "string \<Rightarrow> coreIssue \<Rightarrow> heldLoop \<Rightarrow> heldLoop" where
  "checkHeldHistory key fresh s =
     (case hlHeld s key of
        None \<Rightarrow> s
      | Some h \<Rightarrow> request (ReadHistory key (hcToken h) fresh) (putHeld key (h\<lparr>hcInFlight := True\<rparr>) s))"

definition classifyHeld :: "runtime \<Rightarrow> (string \<Rightarrow> bool) \<Rightarrow> string \<Rightarrow> coreIssue \<Rightarrow> heldLoop \<Rightarrow> heldLoop" where
  "classifyHeld u accepts key fresh s =
     (case hlHeld s key of
        None \<Rightarrow> s
      | Some h \<Rightarrow>
          if \<not> activeIssue u (hlConfig s) fresh then releaseHeld accepts key ''issue went terminal'' s
          else if \<not> hasRequiredLabels u (hfRequired (hlConfig s)) fresh then
            releaseHeld accepts key ''issue left the workflow's label partition'' s
          else if ciRevision fresh \<noteq> hcRevision h then checkHeldHistory key fresh s
          else putHeld key (h\<lparr>hcIssue := fresh\<rparr>) s)"

text \<open>The loop of \<open>sweepHeld\<close> over the held set, with the response as a map from identifiers.\<close>

fun sweepHeldLoop ::
  "runtime \<Rightarrow> (string \<Rightarrow> bool) \<Rightarrow> (string \<rightharpoonup> coreIssue) \<Rightarrow> string list \<Rightarrow> string list \<Rightarrow> heldLoop \<Rightarrow> string list \<times> heldLoop" where
  "sweepHeldLoop u accepts seen absent [] s = (absent, s)"
| "sweepHeldLoop u accepts seen absent (key # keys) s =
     (case hlHeld s key of
        None \<Rightarrow> sweepHeldLoop u accepts seen absent keys s
      | Some h \<Rightarrow>
          if hcReleasing h \<or> hcInFlight h then sweepHeldLoop u accepts seen absent keys s
          else case seen key of
            None \<Rightarrow> sweepHeldLoop u accepts seen (absent @ [key]) keys s
          | Some fresh \<Rightarrow> sweepHeldLoop u accepts seen absent keys (classifyHeld u accepts key fresh s))"

definition byID :: "coreIssue list \<Rightarrow> string \<rightharpoonup> coreIssue" where
  "byID issues = map_of (rev (map (\<lambda>i. (ciIdentifier i, i)) issues))"

definition sweepHeld ::
  "runtime \<Rightarrow> (string \<Rightarrow> bool) \<Rightarrow> string list \<Rightarrow> unit + coreIssue list \<Rightarrow> heldLoop \<Rightarrow> string list \<times> heldLoop" where
  "sweepHeld u accepts keys res s =
     (if hlDraining s then ([], s)
      else case res of
        Inl _ \<Rightarrow> ([], s)
      | Inr issues \<Rightarrow> sweepHeldLoop u accepts (byID issues) [] keys s)"

definition heldConfirmationsPerTick :: int where "heldConfirmationsPerTick = 1"

definition confirmHeldClaim :: "string \<Rightarrow> heldLoop \<Rightarrow> heldLoop" where
  "confirmHeldClaim key s =
     (case hlHeld s key of
        None \<Rightarrow> s
      | Some h \<Rightarrow> request (ConfirmClaim key (hcToken h))
          (putHeld key (h\<lparr>hcReleaseFailed := (if hcReleasing h then False else hcReleaseFailed h), hcInFlight := True\<rparr>) s))"

definition releaseStuck :: "heldClaim \<Rightarrow> bool" where
  "releaseStuck h \<longleftrightarrow> hcReleasing h \<and> hcReleaseFailed h \<and> \<not> hcInFlight h"

definition offerHeldConfirmations :: "string list \<Rightarrow> string list \<Rightarrow> heldLoop \<Rightarrow> heldLoop" where
  "offerHeldConfirmations keys absent s =
     (let candidates = absent @ filter (\<lambda>key. case hlHeld s key of None \<Rightarrow> False | Some h \<Rightarrow> releaseStuck h) keys;
          (picked, cursor) = rotateOffer candidates id (hlHeldCursor s) heldConfirmationsPerTick
      in fold confirmHeldClaim picked (s\<lparr>hlHeldCursor := cursor\<rparr>))"

definition retryHeldExits :: "(string \<Rightarrow> bool) \<Rightarrow> string list \<Rightarrow> heldLoop \<Rightarrow> heldLoop" where
  "retryHeldExits accepts keys s =
     fold (\<lambda>key s. case hlHeld s key of
         None \<Rightarrow> s
       | Some h \<Rightarrow> if hcReleasing h then driveHeldExit accepts key s else s) keys s"

definition dropHeld :: "string \<Rightarrow> heldLoop \<Rightarrow> heldLoop" where
  "dropHeld key s = s\<lparr>hlHeld := (hlHeld s)(key := None)\<rparr>"

text \<open>The claim a result belongs to, if its token is still the current one.\<close>

definition heldFor :: "string \<Rightarrow> int \<Rightarrow> heldLoop \<Rightarrow> heldClaim option" where
  "heldFor key token s =
     (case hlHeld s key of None \<Rightarrow> None | Some h \<Rightarrow> if hcToken h \<noteq> token then None else Some h)"

definition onHeldReleased :: "string \<Rightarrow> int \<Rightarrow> bool \<Rightarrow> heldLoop \<Rightarrow> heldLoop" where
  "onHeldReleased key token failed s =
     (case heldFor key token s of
        None \<Rightarrow> s
      | Some h \<Rightarrow>
          if failed then putHeld key (h\<lparr>hcInFlight := False, hcReleaseFailed := True\<rparr>) s
          else dropHeld key s)"

definition onHeldConfirmed :: "runtime \<Rightarrow> (string \<Rightarrow> bool) \<Rightarrow> string \<Rightarrow> int \<Rightarrow> refreshResult \<Rightarrow> heldLoop \<Rightarrow> heldLoop" where
  "onHeldConfirmed u accepts key token res s0 =
     (case heldFor key token s0 of
        None \<Rightarrow> s0
      | Some h0 \<Rightarrow>
          let h = h0\<lparr>hcInFlight := False\<rparr>; s1 = putHeld key h s0;
              s = (if hcReleasing h then s1
                   else case cycleEndedBy u (hlConfig s1) res of
                     None \<Rightarrow> s1
                   | Some why \<Rightarrow> oweEndedCycle key (hfWorkspaces (hlConfig s1)) (hcWorkspace h) why s1);
              redrive = (\<lambda>s. if hcReleasing h then driveHeldExit accepts key s else s)
          in if gone res then dropHeld key s
             else case (rsErr res, rsIssue res) of
               (None, Some fresh) \<Rightarrow>
                 if \<not> containsFold u (ciAssignees fresh) (hfPrincipal (hlConfig s)) then dropHeld key s
                 else if hcReleasing h then redrive s
                 else putHeld key (h\<lparr>hcIssue := fresh\<rparr>) s
             | _ \<Rightarrow> redrive s)"

definition onHeldHistory ::
  "(string \<Rightarrow> bool) \<Rightarrow> string \<Rightarrow> int \<Rightarrow> coreIssue \<Rightarrow> historyAnswer \<Rightarrow> heldLoop \<Rightarrow> heldLoop" where
  "onHeldHistory accepts key token fresh a s0 =
     (case heldFor key token s0 of
        None \<Rightarrow> s0
      | Some h0 \<Rightarrow>
          let h = h0\<lparr>hcInFlight := False\<rparr>; s = putHeld key h s0
          in if haErr a \<noteq> None then s
             else if haAnchor a = 0 then s
             else
               let h1 = h\<lparr>hcCycleAnchor := haAnchor a\<rparr>; s1 = putHeld key h1 s
               in if haClosed a then releaseHeld accepts key ''issue was closed inside this claim cycle'' s1
                  else case haApproval a of
                    Inl _ \<Rightarrow> s1
                  | Inr superseded \<Rightarrow>
                      if superseded then
                        releaseHeld accepts key ''the approval anchoring this workspace cycle was withdrawn'' s1
                      else putHeld key (h1\<lparr>hcIssue := fresh, hcRevision := ciRevision fresh\<rparr>) s1)"

section \<open>Disposals\<close>

definition recordEnv :: "(string \<Rightarrow> bool) \<Rightarrow> heldLoop \<Rightarrow> loopEnv" where
  "recordEnv accepts s = \<lparr>leCycleOwed = endedCycleOwed s, leAccepts = (\<lambda>eff. accepts (oeWhat eff))\<rparr>"

definition putRecord :: "string \<Rightarrow> Record \<Rightarrow> heldLoop \<Rightarrow> heldLoop" where
  "putRecord key r s =
     (case hlRecords s key of None \<Rightarrow> s | Some tr \<Rightarrow> s\<lparr>hlRecords := (hlRecords s)(key \<mapsto> tr\<lparr>trRecord := r\<rparr>)\<rparr>)"

definition driveRecord :: "(string \<Rightarrow> bool) \<Rightarrow> string \<Rightarrow> heldLoop \<Rightarrow> heldLoop" where
  "driveRecord accepts key s =
     (case hlRecords s key of None \<Rightarrow> s | Some tr \<Rightarrow> putRecord key (driveOwed (recordEnv accepts s) (trRecord tr)) s)"

definition clearEndedCycle :: "(string \<Rightarrow> bool) \<Rightarrow> string \<Rightarrow> heldLoop \<Rightarrow> heldLoop" where
  "clearEndedCycle accepts address s0 =
     (case map_of (hlEnded s0) address of
        None \<Rightarrow> s0
      | Some c \<Rightarrow>
          let key = ecIssue c;
              s = s0\<lparr>hlScanOwed := hlScanOwed s0 \<or> ecDeferredCandidate c,
                     hlEnded := filter (\<lambda>(a, _). a \<noteq> address) (hlEnded s0)\<rparr>
          in if endedCycleOwed s key then s
             else
               let s1 = (case hlHeld s key of
                           None \<Rightarrow> s
                         | Some h \<Rightarrow> if hcReleasing h then driveHeldExit accepts key s else s)
               in driveRecord accepts key s1)"

definition disposeEndedCycle :: "(string \<Rightarrow> bool) \<Rightarrow> string \<Rightarrow> heldLoop \<Rightarrow> heldLoop" where
  "disposeEndedCycle accepts address s =
     (case map_of (hlEnded s) address of
        None \<Rightarrow> s
      | Some c \<Rightarrow>
          let p = (case ecWorkspaces c of None \<Rightarrow> hfWorkspaces (hlConfig s) | Some p \<Rightarrow> p)
          in if \<not> pvCompletes p then clearEndedCycle accepts address s
             else request (DisposeCycle address) (putEnded address (c\<lparr>ecInFlight := True\<rparr>) s))"

definition endedCyclesPerTick :: int where "endedCyclesPerTick = 1"

definition disposable :: "heldLoop \<Rightarrow> string \<times> endedCycle \<Rightarrow> bool" where
  "disposable s e \<longleftrightarrow> \<not> ecInFlight (snd e)
     \<and> (case hlRecords s (ecIssue (snd e)) of None \<Rightarrow> True | Some tr \<Rightarrow> \<not> owesBeforeExit (trRecord tr))"

definition driveEndedCycles :: "(string \<Rightarrow> bool) \<Rightarrow> heldLoop \<Rightarrow> heldLoop" where
  "driveEndedCycles accepts s =
     (let candidates = map fst (filter (disposable s) (hlEnded s));
          (picked, cursor) = rotateOffer candidates id (hlDisposalCursor s) endedCyclesPerTick
      in fold (disposeEndedCycle accepts) picked (s\<lparr>hlDisposalCursor := cursor\<rparr>))"

definition onCycleDisposed :: "(string \<Rightarrow> bool) \<Rightarrow> string \<Rightarrow> bool \<Rightarrow> heldLoop \<Rightarrow> heldLoop" where
  "onCycleDisposed accepts address failed s =
     (case map_of (hlEnded s) address of
        None \<Rightarrow> s
      | Some c \<Rightarrow>
          let s1 = putEnded address (c\<lparr>ecInFlight := False\<rparr>) s
          in if failed then s1
             else clearEndedCycle accepts address
               (s1\<lparr>hlMutationSeq := hlMutationSeq s1 + 1, hlTrace := hlTrace s1 @ [CycleDisposed address]\<rparr>))"

section \<open>From a finished run to a held claim\<close>

definition driveHold :: "string \<Rightarrow> heldLoop \<Rightarrow> heldLoop" where
  "driveHold key s =
     (case hlRecords s key of
        None \<Rightarrow> s
      | Some tr \<Rightarrow>
          let r = trRecord tr
          in if \<not> readyToConvert True r then s
             else request (ReadAnchor key (rToken r) (rIssue r)) (putRecord key (r\<lparr>rConvertInFlight := True\<rparr>) s))"

definition forget :: "string \<Rightarrow> heldLoop \<Rightarrow> heldLoop" where
  "forget key s = s\<lparr>hlRecords := (hlRecords s)(key := None)\<rparr>"

definition confirmDoneOwnership :: "string \<Rightarrow> heldLoop \<Rightarrow> heldLoop" where
  "confirmDoneOwnership key s =
     (case hlRecords s key of
        None \<Rightarrow> s
      | Some tr \<Rightarrow> request (ConfirmOwner key (rToken (trRecord tr)))
          (putRecord key ((trRecord tr)\<lparr>rConvertInFlight := True\<rparr>) s))"

definition convertToHeld :: "string \<Rightarrow> tid \<Rightarrow> string \<Rightarrow> heldLoop \<Rightarrow> heldLoop" where
  "convertToHeld key anchor revision s =
     (case hlRecords s key of
        None \<Rightarrow> s
      | Some tr \<Rightarrow>
          let h = \<lparr>hcIssue = rIssue (trRecord tr), hcPRURL = trPRURL tr,
                   hcWorkspace = cycleWorkspace (hfWorkspaces (hlConfig s)) (trWorkspace tr),
                   hcRevision = revision, hcCycleAnchor = anchor, hcToken = hlNextToken s + 1,
                   hcReleasing = False, hcReleaseFailed = False, hcWhy = [], hcInFlight = False\<rparr>
          in (putHeld key h s)\<lparr>hlNextToken := hlNextToken s + 1, hlRecords := (hlRecords s)(key := None)\<rparr>)"

text \<open>\<open>release\<close> of the record, and the obligation in front of it.\<close>

definition releaseRecord :: "(string \<Rightarrow> bool) \<Rightarrow> string \<Rightarrow> string \<Rightarrow> heldLoop \<Rightarrow> heldLoop" where
  "releaseRecord accepts key why s =
     (case hlRecords s key of None \<Rightarrow> s | Some tr \<Rightarrow> putRecord key (release (recordEnv accepts s) (trRecord tr) why) s)"

definition onClaimAnchor ::
  "(string \<Rightarrow> bool) \<Rightarrow> string \<Rightarrow> int \<Rightarrow> coreIssue \<Rightarrow> historyAnswer \<Rightarrow> heldLoop \<Rightarrow> heldLoop" where
  "onClaimAnchor accepts key token issue a s0 =
     (case hlRecords s0 key of
        None \<Rightarrow> s0
      | Some tr \<Rightarrow>
          if rToken (trRecord tr) \<noteq> token then s0
          else
            let r = (trRecord tr)\<lparr>rConvertInFlight := False\<rparr>; s = putRecord key r s0;
                owe = (\<lambda>why. oweEndedCycle key (hfWorkspaces (hlConfig s)) (trWorkspace tr) why s)
            in if \<not> readyToConvert True r then s
               else case haErr a of
                 Some ErrIssueNotFound \<Rightarrow> forget key (owe ''issue is gone from the tracker'')
               | Some _ \<Rightarrow> s
               | None \<Rightarrow>
                   (case haApproval a of
                      Inl ErrApprovalUnread \<Rightarrow> confirmDoneOwnership key s
                    | Inl _ \<Rightarrow> s
                    | Inr superseded \<Rightarrow>
                        if superseded then
                          releaseRecord accepts key ''the approval anchoring this workspace cycle was withdrawn''
                            (owe ''the approval anchoring this workspace cycle was withdrawn'')
                        else if haAnchor a = 0 then confirmDoneOwnership key s
                        else convertToHeld key (haAnchor a) (ciRevision issue) s))"

definition onDoneOwnership ::
  "runtime \<Rightarrow> (string \<Rightarrow> bool) \<Rightarrow> string \<Rightarrow> int \<Rightarrow> refreshResult \<Rightarrow> heldLoop \<Rightarrow> heldLoop" where
  "onDoneOwnership u accepts key token res s0 =
     (case hlRecords s0 key of
        None \<Rightarrow> s0
      | Some tr \<Rightarrow>
          if rToken (trRecord tr) \<noteq> token then s0
          else
            let r = (trRecord tr)\<lparr>rConvertInFlight := False\<rparr>; s1 = putRecord key r s0; cfg = hlConfig s1;
                s = (case cycleEndedBy u cfg res of
                       None \<Rightarrow> s1
                     | Some why \<Rightarrow> oweEndedCycle key (hfWorkspaces cfg) (trWorkspace tr) why s1)
            in if \<not> readyToConvert True r then s1
               else if gone res then forget key s
               else case (rsErr res, rsIssue res) of
                 (None, Some fresh) \<Rightarrow>
                   if \<not> containsFold u (ciAssignees fresh) (hfPrincipal cfg) then forget key s
                   else if \<not> activeIssue u cfg fresh then
                     releaseRecord accepts key ''issue went terminal before the claim cycle could be anchored'' s
                   else if \<not> hasRequiredLabels u (hfRequired cfg) fresh then
                     releaseRecord accepts key
                       ''issue left the workflow's label partition before the claim cycle could be anchored'' s
                   else s
               | _ \<Rightarrow> s)"

section \<open>The loop\<close>

text \<open>
  A tick applies the result of the reads: the sweep, the confirmations, the settled exits, the
  disposals, and the retries of the records, in this order. The other signals carry the answer to
  one outstanding request. A reload changes the configuration but, while anything is
  outstanding, not the kind of workspace provider (\<open>onAdopt\<close> refuses that). A record comes from a dispatch of an issue
  that nothing owns.
\<close>

datatype heldSignal =
    SigTick "string list" "string list" "(unit + coreIssue list) option"
  | SigHeldReleased string int bool
  | SigHeldConfirmed string int refreshResult
  | SigHeldHistory string int coreIssue historyAnswer
  | SigCycleDisposed string bool
  | SigCycleScan nat provider "unit + workspaceRef list"
  | SigClaimAnchor string int coreIssue historyAnswer
  | SigDoneOwnership string int refreshResult
  | SigBeginScan bool
  | SigDispatch string trackedRecord
  | SigRecord string Record
  | SigForget string
  | SigReload heldConfig
  | SigShutdown

definition retryRecords :: "(string \<Rightarrow> bool) \<Rightarrow> string list \<Rightarrow> heldLoop \<Rightarrow> heldLoop" where
  "retryRecords accepts keys s = fold (\<lambda>key s. driveHold key (driveRecord accepts key s)) keys s"

definition heldTick ::
  "runtime \<Rightarrow> (string \<Rightarrow> bool) \<Rightarrow> string list \<Rightarrow> string list \<Rightarrow> (unit + coreIssue list) option \<Rightarrow> heldLoop \<Rightarrow> heldLoop" where
  "heldTick u accepts heldKeys recordKeys sweep s =
     (let (absent, s1) = (case sweep of None \<Rightarrow> ([], s) | Some res \<Rightarrow> sweepHeld u accepts heldKeys res s);
          s2 = offerHeldConfirmations heldKeys absent s1;
          s3 = retryHeldExits accepts heldKeys s2;
          s4 = driveEndedCycles accepts s3
      in retryRecords accepts recordKeys s4)"

text \<open>The gate of \<open>dispatch\<close>: nothing of the loop owns the issue.\<close>

definition unowned :: "heldLoop \<Rightarrow> string \<Rightarrow> bool" where
  "unowned s key \<longleftrightarrow> \<not> hlDraining s \<and> hlRecords s key = None \<and> hlHeld s key = None \<and> \<not> endedCycleOwed s key"

text \<open>The request a signal answers is no longer outstanding.\<close>

definition answered :: "heldRequest \<Rightarrow> heldLoop \<Rightarrow> heldLoop" where
  "answered q s = s\<lparr>hlOut := remove1 q (hlOut s)\<rparr>"

fun heldStep :: "runtime \<Rightarrow> (string \<Rightarrow> bool) \<Rightarrow> heldSignal \<Rightarrow> heldLoop \<Rightarrow> heldLoop" where
  "heldStep u accepts (SigTick heldKeys recordKeys sweep) s = heldTick u accepts heldKeys recordKeys sweep s"
| "heldStep u accepts (SigHeldReleased key token failed) s =
     (if ReleaseClaim key token \<in> set (hlOut s) then onHeldReleased key token failed (answered (ReleaseClaim key token) s) else s)"
| "heldStep u accepts (SigHeldConfirmed key token res) s =
     (if ConfirmClaim key token \<in> set (hlOut s) then onHeldConfirmed u accepts key token res (answered (ConfirmClaim key token) s) else s)"
| "heldStep u accepts (SigHeldHistory key token fresh a) s =
     (if ReadHistory key token fresh \<in> set (hlOut s)
      then onHeldHistory accepts key token fresh a (answered (ReadHistory key token fresh) s) else s)"
| "heldStep u accepts (SigCycleDisposed address failed) s =
     (if DisposeCycle address \<in> set (hlOut s) then onCycleDisposed accepts address failed (answered (DisposeCycle address) s) else s)"
| "heldStep u accepts (SigCycleScan seq p listing) s =
     (if ScanCycles seq p \<in> set (hlOut s) then onCycleScan seq p listing (answered (ScanCycles seq p) s) else s)"
| "heldStep u accepts (SigClaimAnchor key token issue a) s =
     (if ReadAnchor key token issue \<in> set (hlOut s)
      then onClaimAnchor accepts key token issue a (answered (ReadAnchor key token issue) s) else s)"
| "heldStep u accepts (SigDoneOwnership key token res) s =
     (if ConfirmOwner key token \<in> set (hlOut s) then onDoneOwnership u accepts key token res (answered (ConfirmOwner key token) s) else s)"
| "heldStep u accepts (SigBeginScan isSource) s = beginCycleScan isSource s"
| "heldStep u accepts (SigDispatch key tr) s =
     (if unowned s key
      then s\<lparr>hlNextToken := hlNextToken s + 1,
             hlRecords := (hlRecords s)(key \<mapsto> tr\<lparr>trRecord := (trRecord tr)\<lparr>rToken := hlNextToken s + 1\<rparr>\<rparr>)\<rparr>
      else s)"
| "heldStep u accepts (SigRecord key r) s =
     (case hlRecords s key of None \<Rightarrow> s | Some tr \<Rightarrow> putRecord key (r\<lparr>rToken := rToken (trRecord tr)\<rparr>) s)"
| "heldStep u accepts (SigForget key) s = forget key s"
| "heldStep u accepts (SigReload cfg) s =
     (if pvCompletes (hfWorkspaces cfg) = pvCompletes (hfWorkspaces (hlConfig s)) then s\<lparr>hlConfig := cfg\<rparr> else s)"
| "heldStep u accepts SigShutdown s = s\<lparr>hlDraining := True\<rparr>"

definition heldRun :: "runtime \<Rightarrow> ((string \<Rightarrow> bool) \<times> heldSignal) list \<Rightarrow> heldLoop \<Rightarrow> heldLoop" where
  "heldRun u steps s = fold (\<lambda>(accepts, sig). heldStep u accepts sig) steps s"

definition startLoopState :: "heldConfig \<Rightarrow> heldLoop" where
  "startLoopState cfg = \<lparr>hlHeld = Map.empty, hlRecords = Map.empty, hlEnded = [], hlHeldCursor = [], hlDisposalCursor = [],
     hlDraining = False, hlScanInFlight = False, hlScanFailed = False, hlScanOwed = False, hlMutationSeq = 0,
     hlMutationsInFlight = 0, hlNextToken = 0, hlConfig = cfg, hlOut = [], hlTrace = []\<rparr>"

end
