(* ===== verification/OrchHeldFacts.thy ===== *)
theory OrchHeldFacts
  imports OrchHeld
begin

text \<open>
  What the held-claim loop keeps, over any sequence of ticks, answers, reloads and dispatches:
  one owner per issue, one operation at a time per claim, and no release before the workspace cycle
  of the claim is disposed of. Then what a claim may leave on, and the budget of a tick.
\<close>

section \<open>The invariant\<close>

fun claimOp :: "string \<Rightarrow> int \<Rightarrow> heldRequest \<Rightarrow> bool" where
  "claimOp key token (ReleaseClaim k t) \<longleftrightarrow> k = key \<and> t = token"
| "claimOp key token (ConfirmClaim k t) \<longleftrightarrow> k = key \<and> t = token"
| "claimOp key token (ReadHistory k t i) \<longleftrightarrow> k = key \<and> t = token"
| "claimOp key token _ \<longleftrightarrow> False"

definition opCount :: "string \<Rightarrow> int \<Rightarrow> heldLoop \<Rightarrow> nat" where
  "opCount key token s = length (filter (claimOp key token) (hlOut s))"

definition addressed :: "Workspace \<Rightarrow> bool" where
  "addressed ws \<longleftrightarrow> wsKey ws \<noteq> [] \<and> wsPath ws \<noteq> []"

definition owedFor :: "heldLoop \<Rightarrow> string \<Rightarrow> string \<Rightarrow> bool" where
  "owedFor s key address \<longleftrightarrow> (\<exists>c. (address, c) \<in> set (hlEnded s) \<and> ecIssue c = key)"

definition claimOk :: "(string \<Rightarrow> string) \<Rightarrow> heldLoop \<Rightarrow> string \<Rightarrow> heldClaim \<Rightarrow> bool" where
  "claimOk owner s key h \<longleftrightarrow>
     opCount key (hcToken h) s = (if hcInFlight h then 1 else 0)
     \<and> hcToken h \<le> hlNextToken s
     \<and> (addressed (hcWorkspace h) \<longrightarrow> owner (wsPath (hcWorkspace h)) = key \<and> pvCompletes (hfWorkspaces (hlConfig s)))
     \<and> (addressed (hcWorkspace h) \<and> hcReleasing h \<longrightarrow>
          owedFor s key (wsPath (hcWorkspace h)) \<or> CycleDisposed (wsPath (hcWorkspace h)) \<in> set (hlTrace s))
     \<and> (addressed (hcWorkspace h) \<and> ReleaseClaim key (hcToken h) \<in> set (hlOut s) \<longrightarrow>
          CycleDisposed (wsPath (hcWorkspace h)) \<in> set (hlTrace s))"

definition restOk :: "(string \<Rightarrow> string) \<Rightarrow> heldLoop \<Rightarrow> bool" where
  "restOk owner s \<longleftrightarrow>
     (\<forall>(a, c)\<in>set (hlEnded s). ecIssue c = owner a \<and> (\<exists>p. ecWorkspaces c = Some p \<and> pvCompletes p))
     \<and> (\<forall>key tr. hlRecords s key = Some tr \<longrightarrow> hlHeld s key = None
          \<and> (wsKey (trWorkspace tr) \<noteq> [] \<longrightarrow> owner (wsPath (trWorkspace tr)) = key))
     \<and> (\<forall>key t. \<forall>q\<in>set (hlOut s). claimOp key t q \<longrightarrow> t \<le> hlNextToken s)"

definition heldInv :: "(string \<Rightarrow> string) \<Rightarrow> heldLoop \<Rightarrow> bool" where
  "heldInv owner s \<longleftrightarrow> (\<forall>key h. hlHeld s key = Some h \<longrightarrow> claimOk owner s key h) \<and> restOk owner s"

lemma heldInv_claim: "heldInv owner s \<Longrightarrow> hlHeld s key = Some h \<Longrightarrow> claimOk owner s key h"
  by (simp add: heldInv_def)

section \<open>Primitive steps\<close>

lemma addressed_zero [simp]: "\<not> addressed zeroWorkspace" by (simp add: addressed_def zeroWorkspace_def)

lemma cycleWorkspace_fields:
  "addressed (cycleWorkspace p ws) \<longleftrightarrow> pvCompletes p \<and> addressed ws"
  "addressed (cycleWorkspace p ws) \<Longrightarrow> wsPath (cycleWorkspace p ws) = wsPath ws"
  by (auto simp: cycleWorkspace_def addressed_def zeroWorkspace_def)

lemma heldInv_putHeld:
  assumes "heldInv owner s" "claimOk owner s key h" "hlRecords s key = None"
  shows "heldInv owner (putHeld key h s)"
  using assms by (auto simp: heldInv_def putHeld_def claimOk_def restOk_def opCount_def owedFor_def)

lemma heldInv_noRecord: "heldInv owner s \<Longrightarrow> hlHeld s key = Some h \<Longrightarrow> hlRecords s key = None"
  unfolding heldInv_def restOk_def by (metis not_None_eq)

lemma heldInv_update:
  assumes "heldInv owner s" "hlHeld s key = Some h" "hcToken h' = hcToken h" "hcWorkspace h' = hcWorkspace h"
    "hcInFlight h' = hcInFlight h" "hcReleasing h' = hcReleasing h"
  shows "heldInv owner (putHeld key h' s)"
  using assms heldInv_noRecord [OF assms(1,2)] heldInv_claim [OF assms(1,2)]
  by (intro heldInv_putHeld) (simp_all add: claimOk_def)

lemma heldInv_dropHeld: "heldInv owner s \<Longrightarrow> heldInv owner (dropHeld key s)"
  by (auto simp: heldInv_def dropHeld_def claimOk_def restOk_def opCount_def owedFor_def)

lemma heldInv_request_other:
  assumes "heldInv owner s" "\<And>key t. \<not> claimOp key t q" "\<And>key t. q \<noteq> ReleaseClaim key t"
  shows "heldInv owner (request q s)"
  using assms by (auto simp: heldInv_def request_def claimOk_def restOk_def opCount_def owedFor_def)

lemma heldInv_request:
  assumes inv: "heldInv owner s" and h: "hlHeld s key = Some h" "\<not> hcInFlight h"
    and q: "claimOp key (hcToken h) q"
    and h': "hcInFlight h'" "hcToken h' = hcToken h" "hcWorkspace h' = hcWorkspace h" "hcReleasing h' = hcReleasing h"
    and rel: "q = ReleaseClaim key (hcToken h) \<Longrightarrow> addressed (hcWorkspace h) \<Longrightarrow> CycleDisposed (wsPath (hcWorkspace h)) \<in> set (hlTrace s)"
  shows "heldInv owner (request q (putHeld key h' s))"
proof -
  let ?s = "request q (putHeld key h' s)"
  note c = heldInv_claim [OF inv h(1)]
  have only: "claimOp k t q \<longleftrightarrow> k = key \<and> t = hcToken h" for k t using q by (cases q) auto
  have "claimOk owner ?s key h'"
    using c h(2) q h' rel by (cases q) (auto simp: claimOk_def opCount_def request_def putHeld_def owedFor_def)
  moreover have "claimOk owner ?s k x" if "hlHeld s k = Some x" "k \<noteq> key" for k x
    using heldInv_claim [OF inv that(1)] only that(2)
    by (cases q) (auto simp: claimOk_def opCount_def request_def putHeld_def owedFor_def)
  moreover have "restOk owner ?s"
    using inv c only heldInv_noRecord [OF inv h(1)] by (auto simp: heldInv_def restOk_def request_def putHeld_def claimOk_def)
  ultimately show ?thesis by (auto simp: heldInv_def request_def putHeld_def)
qed

lemma claimOk_cong:
  assumes "hlOut s' = hlOut s" "hlTrace s' = hlTrace s" "hlEnded s' = hlEnded s" "hlNextToken s' = hlNextToken s" "hlConfig s' = hlConfig s"
  shows "claimOk owner s' key h = claimOk owner s key h"
  using assms by (simp add: claimOk_def opCount_def owedFor_def)

text \<open>A claim stays well-formed while requests and obligations of other issues come and go.\<close>

lemma claimOk_mono:
  assumes "claimOk owner s key h" "opCount key (hcToken h) s' = opCount key (hcToken h) s"
    and "ReleaseClaim key (hcToken h) \<in> set (hlOut s') \<Longrightarrow> ReleaseClaim key (hcToken h) \<in> set (hlOut s)"
    and "hlNextToken s \<le> hlNextToken s'" "set (hlTrace s) \<subseteq> set (hlTrace s')"
    and "pvCompletes (hfWorkspaces (hlConfig s')) = pvCompletes (hfWorkspaces (hlConfig s))"
    and "\<And>a. owedFor s key a \<Longrightarrow> owedFor s' key a \<or> CycleDisposed a \<in> set (hlTrace s')"
  shows "claimOk owner s' key h"
proof -
  note c = assms(1) [unfolded claimOk_def]
  show ?thesis
    unfolding claimOk_def
  proof (intro conjI)
    show "opCount key (hcToken h) s' = (if hcInFlight h then 1 else 0)" using c assms(2) by simp
    show "hcToken h \<le> hlNextToken s'" using c assms(4) by simp
    show "addressed (hcWorkspace h) \<longrightarrow> owner (wsPath (hcWorkspace h)) = key \<and> pvCompletes (hfWorkspaces (hlConfig s'))"
      using c assms(6) by simp
    show "addressed (hcWorkspace h) \<and> hcReleasing h \<longrightarrow>
        owedFor s' key (wsPath (hcWorkspace h)) \<or> CycleDisposed (wsPath (hcWorkspace h)) \<in> set (hlTrace s')"
      using c assms(5) assms(7) [of "wsPath (hcWorkspace h)"] by blast
    show "addressed (hcWorkspace h) \<and> ReleaseClaim key (hcToken h) \<in> set (hlOut s') \<longrightarrow>
        CycleDisposed (wsPath (hcWorkspace h)) \<in> set (hlTrace s')"
      using c assms(3,5) by blast
  qed
qed

lemma heldInv_addEnded:
  assumes "heldInv owner s" "ecIssue c = owner a" "ecWorkspaces c = Some p" "pvCompletes p"
  shows "heldInv owner (s\<lparr>hlEnded := hlEnded s @ [(a, c)]\<rparr>)"
proof -
  have "claimOk owner (s\<lparr>hlEnded := hlEnded s @ [(a, c)]\<rparr>) key h" if "hlHeld s key = Some h" for key h
    by (rule claimOk_mono [OF heldInv_claim [OF assms(1) that]]) (auto simp: opCount_def owedFor_def)
  then show ?thesis using assms by (auto simp: heldInv_def restOk_def)
qed

lemma heldInv_owe:
  assumes "heldInv owner s" "addressed ws \<Longrightarrow> pvCompletes p \<Longrightarrow> owner (wsPath ws) = key"
  shows "heldInv owner (oweEndedCycle key p ws why s)"
proof -
  let ?c = "cycleWorkspace p ws"
  have c: "addressed ?c \<Longrightarrow> owner (wsPath ?c) = key \<and> pvCompletes p"
    using assms(2) cycleWorkspace_fields [of p ws] by simp
  show ?thesis
  proof (cases "addressed ?c \<and> wsPath ?c \<notin> fst ` set (hlEnded s)")
    case True
    then show ?thesis
      using heldInv_addEnded [OF assms(1), of _ "wsPath ?c" p] c
      by (simp add: oweEndedCycle_def Let_def addressed_def)
  next
    case False
    then show ?thesis using assms(1) by (auto simp: oweEndedCycle_def Let_def addressed_def)
  qed
qed

text \<open>An obligation for an addressed workspace stands under its issue, or stood already.\<close>

lemma owe_owed:
  assumes "heldInv owner s" "addressed ws" "pvCompletes p" "owner (wsPath ws) = key"
  shows "owedFor (oweEndedCycle key p ws why s) key (wsPath ws)"
proof -
  have c: "addressed (cycleWorkspace p ws)" "wsPath (cycleWorkspace p ws) = wsPath ws"
    using assms cycleWorkspace_fields [of p ws] by auto
  show ?thesis
  proof (cases "wsPath ws \<in> fst ` set (hlEnded s)")
    case True
    then obtain e where "(wsPath ws, e) \<in> set (hlEnded s)" by auto
    then have "ecIssue e = key" using assms(1,4) by (auto simp: heldInv_def restOk_def)
    then show ?thesis using \<open>(wsPath ws, e) \<in> set (hlEnded s)\<close> c by (auto simp: owedFor_def oweEndedCycle_def Let_def)
  next
    case False
    then show ?thesis
      using c(2) c(1) [unfolded addressed_def] unfolding owedFor_def oweEndedCycle_def Let_def
      by (intro exI [of _ "\<lparr>ecIssue = key, ecWorkspace = cycleWorkspace p ws, ecWorkspaces = Some p, ecWhy = why,
        ecInFlight = False, ecDeferredCandidate = False\<rparr>"]) simp
  qed
qed

lemma owe_fields [simp]:
  "hlHeld (oweEndedCycle key p ws why s) = hlHeld s" "hlOut (oweEndedCycle key p ws why s) = hlOut s"
  "hlTrace (oweEndedCycle key p ws why s) = hlTrace s" "hlRecords (oweEndedCycle key p ws why s) = hlRecords s"
  "hlConfig (oweEndedCycle key p ws why s) = hlConfig s" "hlNextToken (oweEndedCycle key p ws why s) = hlNextToken s"
  "hlDraining (oweEndedCycle key p ws why s) = hlDraining s"
  by (simp_all add: oweEndedCycle_def Let_def)

lemma not_owed: "\<not> endedCycleOwed s key \<Longrightarrow> \<not> owedFor s key address"
  by (auto simp: endedCycleOwed_def owedFor_def list_ex_iff)

lemma putHeld_fields [simp]:
  "hlOut (putHeld key h s) = hlOut s" "hlTrace (putHeld key h s) = hlTrace s" "hlRecords (putHeld key h s) = hlRecords s"
  "hlConfig (putHeld key h s) = hlConfig s" "hlNextToken (putHeld key h s) = hlNextToken s"
  "hlEnded (putHeld key h s) = hlEnded s" "hlHeld (putHeld key h s) = (hlHeld s)(key \<mapsto> h)"
  "hlDraining (putHeld key h s) = hlDraining s" "endedCycleOwed (putHeld key h s) = endedCycleOwed s"
  by (simp_all add: putHeld_def endedCycleOwed_def fun_eq_iff)

section \<open>Exits\<close>

lemma driveHeldExit_inv:
  assumes "heldInv owner s" "\<And>h. hlHeld s key = Some h \<Longrightarrow> hcReleasing h"
  shows "heldInv owner (driveHeldExit accepts key s)"
proof (cases "\<exists>h. hlHeld s key = Some h \<and> \<not> hcInFlight h \<and> \<not> endedCycleOwed s key")
  case True
  then obtain h where h: "hlHeld s key = Some h" "\<not> hcInFlight h" "\<not> endedCycleOwed s key" by auto
  have "addressed (hcWorkspace h) \<Longrightarrow> CycleDisposed (wsPath (hcWorkspace h)) \<in> set (hlTrace s)"
    using heldInv_claim [OF assms(1) h(1)] assms(2) [OF h(1)] not_owed [OF h(3)] by (simp add: claimOk_def)
  then have "heldInv owner (request (ReleaseClaim key (hcToken h)) (putHeld key (h\<lparr>hcInFlight := True\<rparr>) s))"
    by (intro heldInv_request [OF assms(1) h(1,2)]) simp_all
  moreover have "heldInv owner (putHeld key (h\<lparr>hcInFlight := False\<rparr>) s)"
    using h(2) by (intro heldInv_update [OF assms(1) h(1)]) simp_all
  ultimately show ?thesis using h by (simp add: driveHeldExit_def driveHeldRelease_def)
qed (use assms in \<open>auto simp: driveHeldExit_def split: option.splits\<close>)

lemma owe_putHeld: "oweEndedCycle key p ws why (putHeld k h s) = putHeld k h (oweEndedCycle key p ws why s)"
  by (simp add: oweEndedCycle_def putHeld_def Let_def)

lemma claim_owner:
  "heldInv owner s \<Longrightarrow> hlHeld s key = Some h \<Longrightarrow> addressed (hcWorkspace h)
    \<Longrightarrow> owner (wsPath (hcWorkspace h)) = key \<and> pvCompletes (hfWorkspaces (hlConfig s))"
  using heldInv_claim by (simp add: claimOk_def)

lemma releaseHeld_inv:
  assumes "heldInv owner s"
  shows "heldInv owner (releaseHeld accepts key why s)"
proof (cases "\<exists>h. hlHeld s key = Some h \<and> \<not> hcReleasing h \<and> \<not> hlDraining s")
  case True
  then obtain h where h: "hlHeld s key = Some h" "\<not> hcReleasing h" "\<not> hlDraining s" by auto
  let ?h = "h\<lparr>hcReleasing := True, hcWhy := why\<rparr>"
  let ?s = "oweEndedCycle key (hfWorkspaces (hlConfig s)) (hcWorkspace h) why s"
  note own = claim_owner [OF assms h(1)]
  have inv: "heldInv owner ?s" using own by (intro heldInv_owe [OF assms]) simp
  have "addressed (hcWorkspace h) \<Longrightarrow> owedFor ?s key (wsPath (hcWorkspace h))"
    using own by (intro owe_owed [OF assms]) auto
  then have "claimOk owner ?s key ?h" using heldInv_claim [OF inv, of key h] h(1) by (simp add: claimOk_def)
  then have "heldInv owner (putHeld key ?h ?s)"
    using heldInv_noRecord [OF assms h(1)] by (intro heldInv_putHeld [OF inv]) simp_all
  then have "heldInv owner (driveHeldExit accepts key (putHeld key ?h ?s))"
    by (rule driveHeldExit_inv) simp
  then show ?thesis using h by (simp add: releaseHeld_def owe_putHeld)
qed (use assms in \<open>auto simp: releaseHeld_def split: option.splits\<close>)

lemma classifyHeld_inv:
  assumes "heldInv owner s" "\<And>h. hlHeld s key = Some h \<Longrightarrow> \<not> hcInFlight h"
  shows "heldInv owner (classifyHeld u accepts key fresh s)"
proof (cases "hlHeld s key")
  case (Some h)
  have "heldInv owner (checkHeldHistory key fresh s)"
    using heldInv_request [OF assms(1) Some assms(2) [OF Some], of "ReadHistory key (hcToken h) fresh"] Some
    by (simp add: checkHeldHistory_def)
  moreover have "heldInv owner (putHeld key (h\<lparr>hcIssue := fresh\<rparr>) s)"
    by (intro heldInv_update [OF assms(1) Some]) simp_all
  ultimately show ?thesis using Some releaseHeld_inv [OF assms(1)] by (simp add: classifyHeld_def)
qed (use assms in \<open>simp add: classifyHeld_def\<close>)

text \<open>The sweep leaves the claims it reports absent, and every other one it has not classified, at rest.\<close>

lemma sweepHeldLoop_inv:
  assumes "heldInv owner s" "sweepHeldLoop u accepts seen absent keys s = (absent', s')"
  shows "heldInv owner s'"
  using assms
proof (induction keys arbitrary: absent s)
  case (Cons key keys)
  show ?case
  proof (cases "hlHeld s key")
    case (Some h)
    show ?thesis
    proof (cases "hcReleasing h \<or> hcInFlight h")
      case False
      then have "heldInv owner (classifyHeld u accepts key fresh s)" for fresh
        using Some by (intro classifyHeld_inv [OF Cons.prems(1)]) auto
      then show ?thesis using Cons Some False by (auto split: option.splits)
    qed (use Cons Some in auto)
  qed (use Cons in auto)
qed simp

lemma sweepHeld_inv: "heldInv owner s \<Longrightarrow> sweepHeld u accepts keys res s = (absent, s') \<Longrightarrow> heldInv owner s'"
  by (auto simp: sweepHeld_def split: if_splits sum.splits intro: sweepHeldLoop_inv)

lemma cursor_irrelevant [simp]:
  "heldInv owner (s\<lparr>hlHeldCursor := c\<rparr>) = heldInv owner s" "heldInv owner (s\<lparr>hlDisposalCursor := c\<rparr>) = heldInv owner s"
  "heldInv owner (s\<lparr>hlScanInFlight := b\<rparr>) = heldInv owner s" "heldInv owner (s\<lparr>hlScanFailed := b\<rparr>) = heldInv owner s"
  "heldInv owner (s\<lparr>hlDraining := b\<rparr>) = heldInv owner s" "heldInv owner (s\<lparr>hlMutationSeq := n\<rparr>) = heldInv owner s"
  by (simp_all add: heldInv_def claimOk_def restOk_def opCount_def owedFor_def)

lemma confirmHeldClaim_inv:
  assumes "heldInv owner s" "\<And>h. hlHeld s key = Some h \<Longrightarrow> \<not> hcInFlight h"
  shows "heldInv owner (confirmHeldClaim key s)"
proof (cases "hlHeld s key")
  case (Some h)
  then show ?thesis
    using heldInv_request [OF assms(1) Some assms(2) [OF Some], of "ConfirmClaim key (hcToken h)"]
    by (simp add: confirmHeldClaim_def)
qed (use assms in \<open>simp add: confirmHeldClaim_def\<close>)

lemma retryHeldExits_inv: "heldInv owner s \<Longrightarrow> heldInv owner (retryHeldExits accepts keys s)"
proof (induction keys arbitrary: s)
  case (Cons key keys)
  have "heldInv owner (case hlHeld s key of None \<Rightarrow> s
      | Some h \<Rightarrow> if hcReleasing h then driveHeldExit accepts key s else s)"
    using Cons.prems driveHeldExit_inv [OF Cons.prems, of key accepts] by (auto split: option.splits)
  from Cons.IH [OF this] show ?case by (simp add: retryHeldExits_def)
qed (simp add: retryHeldExits_def)

section \<open>What one claim's step leaves alone\<close>

lemma request_fields [simp]:
  "hlHeld (request q s) = hlHeld s" "hlRecords (request q s) = hlRecords s" "hlEnded (request q s) = hlEnded s"
  "hlConfig (request q s) = hlConfig s" "hlNextToken (request q s) = hlNextToken s" "hlDraining (request q s) = hlDraining s"
  "hlOut (request q s) = hlOut s @ [q]" "hlTrace (request q s) = hlTrace s @ [Requested q]"
  by (simp_all add: request_def)

lemma held_other [simp]:
  "k \<noteq> key \<Longrightarrow> hlHeld (driveHeldExit accepts key s) k = hlHeld s k"
  "k \<noteq> key \<Longrightarrow> hlHeld (releaseHeld accepts key why s) k = hlHeld s k"
  "k \<noteq> key \<Longrightarrow> hlHeld (classifyHeld u accepts key fresh s) k = hlHeld s k"
proof -
  show e: "k \<noteq> key \<Longrightarrow> hlHeld (driveHeldExit accepts key s) k = hlHeld s k" for s
    by (simp add: driveHeldExit_def driveHeldRelease_def split: option.splits)
  show r: "k \<noteq> key \<Longrightarrow> hlHeld (releaseHeld accepts key why s) k = hlHeld s k" for why
    using e by (simp add: releaseHeld_def split: option.splits)
  show "k \<noteq> key \<Longrightarrow> hlHeld (classifyHeld u accepts key fresh s) k = hlHeld s k"
    using r by (simp add: classifyHeld_def checkHeldHistory_def split: option.splits)
qed

lemma records_kept [simp]:
  "hlRecords (driveHeldExit accepts key s) = hlRecords s"
  "hlRecords (releaseHeld accepts key why s) = hlRecords s"
  by (simp_all add: driveHeldExit_def driveHeldRelease_def releaseHeld_def split: option.splits)

definition restingAt :: "heldLoop \<Rightarrow> string \<Rightarrow> bool" where
  "restingAt s key \<longleftrightarrow> (\<forall>h. hlHeld s key = Some h \<longrightarrow> \<not> hcInFlight h)"

lemma sweepHeldLoop_absent:
  assumes "sweepHeldLoop u accepts seen absent keys s = (absent', s')"
    and "\<forall>a\<in>set absent. seen a = None \<and> restingAt s a"
  shows "\<forall>a\<in>set absent'. seen a = None \<and> restingAt s' a"
  using assms
proof (induction keys arbitrary: absent s)
  case (Cons key keys)
  show ?case
  proof (cases "hlHeld s key")
    case (Some h)
    show ?thesis
    proof (cases "hcReleasing h \<or> hcInFlight h")
      case False
      show ?thesis
      proof (cases "seen key")
        case None
        have "sweepHeldLoop u accepts seen (absent @ [key]) keys s = (absent', s')"
          using Cons.prems(1) Some False None by simp
        moreover have "restingAt s key" using Some False by (simp add: restingAt_def)
        ultimately show ?thesis using Cons.IH [of "absent @ [key]" s] Cons.prems(2) None by simp
      next
        case (Some fresh)
        have "restingAt (classifyHeld u accepts key fresh s) a" if "a \<in> set absent" for a
          using Cons.prems(2) that Some by (cases "a = key") (simp_all add: restingAt_def)
        then have r: "\<forall>a\<in>set absent. seen a = None \<and> restingAt (classifyHeld u accepts key fresh s) a"
          using Cons.prems(2) by blast
        have "sweepHeldLoop u accepts seen absent keys (classifyHeld u accepts key fresh s) = (absent', s')"
          using Cons.prems(1) \<open>hlHeld s key = Some h\<close> False Some by simp
        from Cons.IH [OF this r] show ?thesis .
      qed
    next
      case True
      then show ?thesis using Cons.IH [of absent s] Cons.prems Some by simp
    qed
  next
    case None
    then show ?thesis using Cons.IH [of absent s] Cons.prems by simp
  qed
qed simp

lemma sweepHeld_absent: "sweepHeld u accepts keys res s = (absent, s') \<Longrightarrow> \<forall>a\<in>set absent. restingAt s' a"
  using sweepHeldLoop_absent [of u accepts _ "[]" keys s absent s']
  by (auto simp: sweepHeld_def split: if_splits sum.splits)

lemma rotateOffer_one: "set (fst (rotateOffer items id cursor 1)) \<subseteq> set items \<and> length (fst (rotateOffer items id cursor 1)) \<le> 1"
proof (cases "items = []")
  case False
  then obtain it where "it \<in> set items" "rotateOffer items id cursor 1 = ([it], id it)" using rotate_one [of items id cursor] by auto
  then show ?thesis by simp
qed (simp add: rotateOffer_def)

lemma at_most_one: "length xs \<le> 1 \<Longrightarrow> xs = [] \<or> (\<exists>x. xs = [x])"
  by (cases xs) auto

lemma offerHeldConfirmations_picks:
  assumes "\<forall>a\<in>set absent. restingAt s a"
  shows "\<exists>cursor. offerHeldConfirmations keys absent s = s\<lparr>hlHeldCursor := cursor\<rparr>
    \<or> (\<exists>key. restingAt s key \<and> offerHeldConfirmations keys absent s = confirmHeldClaim key (s\<lparr>hlHeldCursor := cursor\<rparr>))"
proof -
  define cs where "cs = absent @ filter (\<lambda>key. case hlHeld s key of None \<Rightarrow> False | Some h \<Rightarrow> releaseStuck h) keys"
  obtain picked cursor where r: "rotateOffer cs id (hlHeldCursor s) 1 = (picked, cursor)" by fastforce
  have p: "set picked \<subseteq> set cs" "length picked \<le> 1" using rotateOffer_one [of cs "hlHeldCursor s"] r by auto
  have rest: "restingAt s key" if "key \<in> set cs" for key
    using that assms by (auto simp: cs_def restingAt_def releaseStuck_def split: option.splits)
  have o: "offerHeldConfirmations keys absent s = fold confirmHeldClaim picked (s\<lparr>hlHeldCursor := cursor\<rparr>)"
    using r by (simp add: offerHeldConfirmations_def heldConfirmationsPerTick_def cs_def Let_def)
  show ?thesis
  proof (cases "picked = []")
    case False
    then obtain key where k: "picked = [key]" using at_most_one [OF p(2)] by auto
    then have "restingAt s key" using rest p(1) by simp
    then show ?thesis unfolding o k by auto
  qed (auto simp: o)
qed

lemma offerHeldConfirmations_inv:
  assumes "heldInv owner s" "\<forall>a\<in>set absent. restingAt s a"
  shows "heldInv owner (offerHeldConfirmations keys absent s)"
proof -
  have "heldInv owner (confirmHeldClaim key (s\<lparr>hlHeldCursor := c\<rparr>))" if "restingAt s key" for key c
    using that assms(1) by (intro confirmHeldClaim_inv) (auto simp: restingAt_def)
  then show ?thesis using offerHeldConfirmations_picks [OF assms(2), of keys] assms(1) by auto
qed

section \<open>Answers\<close>

text \<open>An answered request: the claim it was for is at rest, every other claim is as it was.\<close>

lemma answered_claim:
  assumes inv: "heldInv owner s" and q: "q \<in> set (hlOut s)" "claimOp key token q"
  shows "heldFor key token (answered q s) = None \<Longrightarrow> heldInv owner (answered q s)"
    and "heldFor key token (answered q s) = Some h \<Longrightarrow> hlHeld s key = Some h \<and> hcToken h = token
      \<and> heldInv owner (putHeld key (h\<lparr>hcInFlight := False\<rparr>) (answered q s))"
proof -
  let ?s = "answered q s"
  have f: "hlHeld ?s = hlHeld s" "hlTrace ?s = hlTrace s" "hlEnded ?s = hlEnded s" "hlConfig ?s = hlConfig s"
    "hlNextToken ?s = hlNextToken s" "hlRecords ?s = hlRecords s" "set (hlOut ?s) \<subseteq> set (hlOut s)"
    by (simp_all add: answered_def set_remove1_subset)
  have only: "claimOp k t q \<longleftrightarrow> k = key \<and> t = token" for k t using q(2) by (cases q) auto
  have count: "opCount k t ?s = (if k = key \<and> t = token then opCount k t s - 1 else opCount k t s)" for k t
    using q(1) only by (simp add: opCount_def answered_def filter_remove1 length_remove1 remove1_idem)
  have "\<forall>k t. \<forall>q'\<in>set (hlOut ?s). claimOp k t q' \<longrightarrow> t \<le> hlNextToken s"
    using inv f(7) unfolding heldInv_def restOk_def by blast
  then have rest: "restOk owner ?s" using inv f(1-6) by (simp add: heldInv_def restOk_def)
  have other: "claimOk owner ?s k x" if "hlHeld s k = Some x" "\<not> (k = key \<and> hcToken x = token)" for k x
    using f that(2) count by (intro claimOk_mono [OF heldInv_claim [OF inv that(1)]]) (auto simp: owedFor_def)
  show "heldFor key token ?s = None \<Longrightarrow> heldInv owner ?s"
  proof -
    assume "heldFor key token ?s = None"
    then have "\<not> (k = key \<and> hcToken x = token)" if "hlHeld s k = Some x" for k x
      using that f(1) by (auto simp: heldFor_def split: if_splits)
    then show ?thesis using other rest f(1) by (simp add: heldInv_def)
  qed
  assume "heldFor key token ?s = Some h"
  then have h: "hlHeld s key = Some h" "hcToken h = token" using f(1) by (auto simp: heldFor_def split: option.splits if_splits)
  note c = heldInv_claim [OF inv h(1)]
  have "0 < opCount key token s" using q by (auto simp: opCount_def filter_empty_conv)
  then have "opCount key token s = 1" using c h(2) by (auto simp: claimOk_def split: if_splits)
  then have new: "claimOk owner ?s key (h\<lparr>hcInFlight := False\<rparr>)"
    using c f h(2) count by (auto simp: claimOk_def owedFor_def)
  let ?t = "putHeld key (h\<lparr>hcInFlight := False\<rparr>) ?s"
  have "claimOk owner ?t k x" if "hlHeld ?t k = Some x" for k x
    using that new other [of k x] f(1) claimOk_cong [of ?t ?s owner k x] by (auto split: if_splits)
  moreover have "restOk owner ?t"
    using rest f(6) heldInv_noRecord [OF inv h(1)] by (auto simp: restOk_def)
  ultimately show "hlHeld s key = Some h \<and> hcToken h = token \<and> heldInv owner ?t"
    using h by (simp add: heldInv_def)
qed

lemma onHeldReleased_inv:
  assumes "heldInv owner s" "ReleaseClaim key token \<in> set (hlOut s)"
  shows "heldInv owner (onHeldReleased key token failed (answered (ReleaseClaim key token) s))"
proof (cases "heldFor key token (answered (ReleaseClaim key token) s)")
  case None
  then show ?thesis using answered_claim(1) [OF assms, of key token] by (simp add: onHeldReleased_def)
next
  case (Some h)
  let ?s = "putHeld key (h\<lparr>hcInFlight := False\<rparr>) (answered (ReleaseClaim key token) s)"
  have inv: "heldInv owner ?s" using answered_claim(2) [OF assms, of key token h] Some by simp
  have "heldInv owner (putHeld key (h\<lparr>hcInFlight := False, hcReleaseFailed := True\<rparr>) ?s)"
    by (rule heldInv_update [OF inv, where h = "h\<lparr>hcInFlight := False\<rparr>"]) simp_all
  moreover have "heldInv owner (dropHeld key ?s)" by (rule heldInv_dropHeld [OF inv])
  ultimately show ?thesis using Some by (simp add: onHeldReleased_def dropHeld_def putHeld_def)
qed

lemma onHeldConfirmed_inv:
  assumes "heldInv owner s" "ConfirmClaim key token \<in> set (hlOut s)"
  shows "heldInv owner (onHeldConfirmed u accepts key token res (answered (ConfirmClaim key token) s))"
proof (cases "heldFor key token (answered (ConfirmClaim key token) s)")
  case None
  then show ?thesis using answered_claim(1) [OF assms, of key token] by (simp add: onHeldConfirmed_def)
next
  case (Some h0)
  define h where "h = h0\<lparr>hcInFlight := False\<rparr>"
  define s1 where "s1 = putHeld key h (answered (ConfirmClaim key token) s)"
  have inv1: "heldInv owner s1" and h: "hlHeld s1 key = Some h"
    using answered_claim(2) [OF assms, of key token h0] Some by (simp_all add: s1_def h_def)
  define s2 where "s2 = (if hcReleasing h then s1
     else case cycleEndedBy u (hlConfig s1) res of None \<Rightarrow> s1
       | Some why \<Rightarrow> oweEndedCycle key (hfWorkspaces (hlConfig s1)) (hcWorkspace h) why s1)"
  have inv: "heldInv owner s2" and h2: "hlHeld s2 key = Some h"
    using inv1 h claim_owner [OF inv1 h] heldInv_owe [OF inv1, of "hcWorkspace h"] by (auto simp: s2_def split: option.splits)
  have "heldInv owner (dropHeld key s2)" by (rule heldInv_dropHeld [OF inv])
  moreover have "heldInv owner (if hcReleasing h then driveHeldExit accepts key s2 else s2)"
    using inv h2 by (auto intro: driveHeldExit_inv)
  moreover have "heldInv owner (putHeld key (h\<lparr>hcIssue := fresh\<rparr>) s2)" for fresh
    by (intro heldInv_update [OF inv h2]) simp_all
  moreover have "onHeldConfirmed u accepts key token res (answered (ConfirmClaim key token) s)
      = (if gone res then dropHeld key s2
         else case (rsErr res, rsIssue res) of
           (None, Some fresh) \<Rightarrow>
             if \<not> containsFold u (ciAssignees fresh) (hfPrincipal (hlConfig s2)) then dropHeld key s2
             else if hcReleasing h then (if hcReleasing h then driveHeldExit accepts key s2 else s2)
             else putHeld key (h\<lparr>hcIssue := fresh\<rparr>) s2
         | _ \<Rightarrow> (if hcReleasing h then driveHeldExit accepts key s2 else s2))"
    by (simp only: onHeldConfirmed_def Some option.case Let_def h_def s1_def s2_def)
  ultimately show ?thesis by (auto split: option.splits)
qed

lemma onHeldHistory_inv:
  assumes "heldInv owner s" "ReadHistory key token fresh \<in> set (hlOut s)"
  shows "heldInv owner (onHeldHistory accepts key token fresh a (answered (ReadHistory key token fresh) s))"
proof (cases "heldFor key token (answered (ReadHistory key token fresh) s)")
  case None
  then show ?thesis using answered_claim(1) [OF assms, of key token] by (simp add: onHeldHistory_def)
next
  case (Some h0)
  define h where "h = h0\<lparr>hcInFlight := False\<rparr>"
  define s1 where "s1 = putHeld key h (answered (ReadHistory key token fresh) s)"
  have inv1: "heldInv owner s1" and h: "hlHeld s1 key = Some h"
    using answered_claim(2) [OF assms, of key token h0] Some by (simp_all add: s1_def h_def)
  have inv: "heldInv owner (putHeld key (h\<lparr>hcCycleAnchor := anchor\<rparr>) s1)" for anchor
    by (intro heldInv_update [OF inv1 h]) simp_all
  have base: "heldInv owner (putHeld key (h\<lparr>hcCycleAnchor := anchor, hcIssue := fresh, hcRevision := rev\<rparr>)
      (putHeld key (h\<lparr>hcCycleAnchor := anchor\<rparr>) s1))" for anchor rev
    by (rule heldInv_update [OF inv, where h = "h\<lparr>hcCycleAnchor := anchor\<rparr>"]) simp_all
  show ?thesis
    using Some inv1 inv base releaseHeld_inv [OF inv] unfolding onHeldHistory_def
    by (auto simp: Let_def h_def [symmetric] s1_def [symmetric] split: sum.splits)
qed

section \<open>Disposals and records\<close>

lemma putRecord_fields [simp]:
  "hlHeld (putRecord key r s) = hlHeld s" "hlOut (putRecord key r s) = hlOut s" "hlTrace (putRecord key r s) = hlTrace s"
  "hlEnded (putRecord key r s) = hlEnded s" "hlNextToken (putRecord key r s) = hlNextToken s" "hlConfig (putRecord key r s) = hlConfig s"
  by (simp_all add: putRecord_def split: option.splits)

lemma putRecord_lookup:
  "hlRecords (putRecord key r s) k = (if k = key then map_option (\<lambda>tr. tr\<lparr>trRecord := r\<rparr>) (hlRecords s k) else hlRecords s k)"
  by (simp add: putRecord_def split: option.splits)

lemma heldInv_putRecord: "heldInv owner s \<Longrightarrow> heldInv owner (putRecord key r s)"
  using claimOk_cong [of "putRecord key r s" s] by (auto simp: heldInv_def restOk_def putRecord_lookup split: if_splits)

lemma heldInv_forget: "heldInv owner s \<Longrightarrow> heldInv owner (forget key s)"
  by (auto simp: heldInv_def forget_def claimOk_def restOk_def opCount_def owedFor_def)

lemma driveRecord_inv: "heldInv owner s \<Longrightarrow> heldInv owner (driveRecord accepts key s)"
  by (auto simp: driveRecord_def heldInv_putRecord split: option.splits)

lemma releaseRecord_inv: "heldInv owner s \<Longrightarrow> heldInv owner (releaseRecord accepts key why s)"
  by (auto simp: releaseRecord_def heldInv_putRecord split: option.splits)

lemma heldInv_putEnded:
  assumes "heldInv owner s" "map_of (hlEnded s) address = Some c" "ecIssue c' = ecIssue c" "ecWorkspaces c' = ecWorkspaces c"
  shows "heldInv owner (putEnded address c' s)"
proof -
  let ?s = "putEnded address c' s"
  have mem: "(address, c) \<in> set (hlEnded s)" using assms(2) by (rule map_of_SomeD)
  have own: "ecIssue e = owner a \<and> (\<exists>p. ecWorkspaces e = Some p \<and> pvCompletes p)" if "(a, e) \<in> set (hlEnded s)" for a e
    using assms(1) that by (auto simp: heldInv_def restOk_def)
  have "owedFor ?s key a" if owed: "owedFor s key a" for key a
  proof -
    obtain e where e: "(a, e) \<in> set (hlEnded s)" "ecIssue e = key" using owed by (auto simp: owedFor_def)
    have "(a, if a = address then c' else e) \<in> set (hlEnded ?s)" using e(1) by (force simp: putEnded_def)
    moreover have "ecIssue (if a = address then c' else e) = key"
      using own [OF e(1)] own [OF mem] e(2) assms(3) by auto
    ultimately show ?thesis by (auto simp: owedFor_def)
  qed
  then have "claimOk owner ?s key h" if "hlHeld s key = Some h" for key h
    by (intro claimOk_mono [OF heldInv_claim [OF assms(1) that]]) (auto simp: putEnded_def opCount_def)
  moreover have "restOk owner ?s"
    using assms(1,3,4) own mem by (fastforce simp: heldInv_def restOk_def putEnded_def)
  ultimately show ?thesis by (simp add: heldInv_def putEnded_def)
qed

lemma heldInv_clearEnded:
  assumes "heldInv owner s" "CycleDisposed address \<in> set (hlTrace s)"
  shows "heldInv owner (s\<lparr>hlScanOwed := b, hlEnded := filter (\<lambda>(a, _). a \<noteq> address) (hlEnded s)\<rparr>)"
proof -
  let ?s = "s\<lparr>hlScanOwed := b, hlEnded := filter (\<lambda>(a, _). a \<noteq> address) (hlEnded s)\<rparr>"
  have "claimOk owner ?s key h" if "hlHeld s key = Some h" for key h
    using assms(2) by (intro claimOk_mono [OF heldInv_claim [OF assms(1) that]]) (auto simp: opCount_def owedFor_def)
  then show ?thesis using assms(1) by (auto simp: heldInv_def restOk_def)
qed

lemma clearEndedCycle_inv:
  assumes "heldInv owner s" "CycleDisposed address \<in> set (hlTrace s)"
  shows "heldInv owner (clearEndedCycle accepts address s)"
proof (cases "map_of (hlEnded s) address")
  case (Some c)
  define s1 where "s1 = s\<lparr>hlScanOwed := hlScanOwed s \<or> ecDeferredCandidate c, hlEnded := filter (\<lambda>(a, _). a \<noteq> address) (hlEnded s)\<rparr>"
  have inv: "heldInv owner s1" unfolding s1_def by (rule heldInv_clearEnded [OF assms])
  define s2 where "s2 = (case hlHeld s1 (ecIssue c) of None \<Rightarrow> s1
      | Some h \<Rightarrow> if hcReleasing h then driveHeldExit accepts (ecIssue c) s1 else s1)"
  have "heldInv owner s2" using inv driveHeldExit_inv [OF inv, of "ecIssue c" accepts] by (auto simp: s2_def split: option.splits)
  then have "heldInv owner (driveRecord accepts (ecIssue c) s2)" by (rule driveRecord_inv)
  moreover have "clearEndedCycle accepts address s = (if endedCycleOwed s1 (ecIssue c) then s1 else driveRecord accepts (ecIssue c) s2)"
    by (simp only: clearEndedCycle_def Some option.case Let_def s1_def s2_def)
  ultimately show ?thesis using inv by simp
qed (use assms in \<open>simp add: clearEndedCycle_def\<close>)

text \<open>Every obligation was registered by a provider that can discharge it.\<close>

lemma disposeEndedCycle_requests:
  assumes "heldInv owner s"
  shows "disposeEndedCycle accepts address s = (case map_of (hlEnded s) address of None \<Rightarrow> s
    | Some c \<Rightarrow> request (DisposeCycle address) (putEnded address (c\<lparr>ecInFlight := True\<rparr>) s))"
proof (cases "map_of (hlEnded s) address")
  case (Some c)
  then have "\<exists>p. ecWorkspaces c = Some p \<and> pvCompletes p"
    using assms by (auto simp: heldInv_def restOk_def dest!: map_of_SomeD)
  then show ?thesis using Some by (auto simp: disposeEndedCycle_def)
qed (simp add: disposeEndedCycle_def)

lemma disposeEndedCycle_inv: "heldInv owner s \<Longrightarrow> heldInv owner (disposeEndedCycle accepts address s)"
  by (auto simp: disposeEndedCycle_requests intro!: heldInv_request_other heldInv_putEnded split: option.splits)

lemma driveEndedCycles_picks:
  "\<exists>cursor. driveEndedCycles accepts s = s\<lparr>hlDisposalCursor := cursor\<rparr>
    \<or> (\<exists>address. driveEndedCycles accepts s = disposeEndedCycle accepts address (s\<lparr>hlDisposalCursor := cursor\<rparr>))"
proof -
  define cs where "cs = map fst (filter (disposable s) (hlEnded s))"
  obtain picked cursor where r: "rotateOffer cs id (hlDisposalCursor s) 1 = (picked, cursor)" by fastforce
  have "length picked \<le> 1" using rotateOffer_one [of cs "hlDisposalCursor s"] r by auto
  moreover have "driveEndedCycles accepts s = fold (disposeEndedCycle accepts) picked (s\<lparr>hlDisposalCursor := cursor\<rparr>)"
    using r by (simp add: driveEndedCycles_def endedCyclesPerTick_def cs_def Let_def)
  ultimately show ?thesis
  proof (cases "picked = []")
    case False
    assume "length picked \<le> 1" and d: "driveEndedCycles accepts s = fold (disposeEndedCycle accepts) picked (s\<lparr>hlDisposalCursor := cursor\<rparr>)"
    then obtain x where "picked = [x]" using False at_most_one [of picked] by auto
    then show ?thesis using d by auto
  qed auto
qed

lemma driveEndedCycles_inv: "heldInv owner s \<Longrightarrow> heldInv owner (driveEndedCycles accepts s)"
  using driveEndedCycles_picks [of accepts s] disposeEndedCycle_inv by (metis cursor_irrelevant(2))

lemma onCycleDisposed_inv:
  assumes "heldInv owner s"
  shows "heldInv owner (onCycleDisposed accepts address failed s)"
proof (cases "map_of (hlEnded s) address")
  case (Some c)
  define s1 where "s1 = putEnded address (c\<lparr>ecInFlight := False\<rparr>) s"
  have inv: "heldInv owner s1" unfolding s1_def by (rule heldInv_putEnded [OF assms Some]) simp_all
  let ?s = "s1\<lparr>hlMutationSeq := hlMutationSeq s1 + 1, hlTrace := hlTrace s1 @ [CycleDisposed address]\<rparr>"
  have "claimOk owner ?s key h" if "hlHeld s1 key = Some h" for key h
    by (rule claimOk_mono [OF heldInv_claim [OF inv that]]) (auto simp: opCount_def owedFor_def)
  then have "heldInv owner ?s" using inv by (simp add: heldInv_def restOk_def)
  then have "heldInv owner (clearEndedCycle accepts address ?s)" by (rule clearEndedCycle_inv) simp
  then show ?thesis using Some inv by (simp add: onCycleDisposed_def s1_def Let_def)
qed (use assms in \<open>simp add: onCycleDisposed_def\<close>)

section \<open>Conversion and scans\<close>

lemma answered_other:
  assumes "heldInv owner s" "\<And>key t. \<not> claimOp key t q"
  shows "heldInv owner (answered q s)"
proof -
  have out: "set (hlOut (answered q s)) \<subseteq> set (hlOut s)" by (simp add: answered_def set_remove1_subset)
  have "opCount key t (answered q s) = opCount key t s" for key t
    using assms(2) by (simp add: opCount_def answered_def filter_remove1 remove1_idem)
  then have "claimOk owner (answered q s) key h" if "hlHeld s key = Some h" for key h
    using out by (intro claimOk_mono [OF heldInv_claim [OF assms(1) that]]) (auto simp: answered_def owedFor_def)
  moreover have "\<forall>k t. \<forall>q'\<in>set (hlOut (answered q s)). claimOp k t q' \<longrightarrow> t \<le> hlNextToken s"
    using assms(1) out unfolding heldInv_def restOk_def by blast
  ultimately show ?thesis using assms(1) by (simp add: heldInv_def restOk_def answered_def)
qed

lemma driveHold_inv: "heldInv owner s \<Longrightarrow> heldInv owner (driveHold key s)"
  by (auto simp: driveHold_def Let_def intro!: heldInv_request_other heldInv_putRecord split: option.splits)

lemma confirmDoneOwnership_inv: "heldInv owner s \<Longrightarrow> heldInv owner (confirmDoneOwnership key s)"
  by (auto simp: confirmDoneOwnership_def intro!: heldInv_request_other heldInv_putRecord split: option.splits)

lemma record_owner:
  "heldInv owner s \<Longrightarrow> hlRecords s key = Some tr \<Longrightarrow> addressed (trWorkspace tr) \<Longrightarrow> owner (wsPath (trWorkspace tr)) = key"
  by (auto simp: heldInv_def restOk_def addressed_def)

lemma convertToHeld_inv:
  assumes "heldInv owner s"
  shows "heldInv owner (convertToHeld key anchor revision s)"
proof (cases "hlRecords s key")
  case (Some tr)
  define h where "h = \<lparr>hcIssue = rIssue (trRecord tr), hcPRURL = trPRURL tr,
     hcWorkspace = cycleWorkspace (hfWorkspaces (hlConfig s)) (trWorkspace tr), hcRevision = revision,
     hcCycleAnchor = anchor, hcToken = hlNextToken s + 1, hcReleasing = False, hcReleaseFailed = False,
     hcWhy = [], hcInFlight = False\<rparr>"
  let ?s = "(putHeld key h s)\<lparr>hlNextToken := hlNextToken s + 1, hlRecords := (hlRecords s)(key := None)\<rparr>"
  have toks: "\<forall>k t. \<forall>q\<in>set (hlOut s). claimOp k t q \<longrightarrow> t \<le> hlNextToken s" using assms by (simp add: heldInv_def restOk_def)
  then have none: "\<forall>q\<in>set (hlOut s). \<not> claimOp key (hlNextToken s + 1) q" by fastforce
  have own: "addressed (hcWorkspace h) \<Longrightarrow> owner (wsPath (hcWorkspace h)) = key \<and> pvCompletes (hfWorkspaces (hlConfig s))"
    using record_owner [OF assms Some] cycleWorkspace_fields [of "hfWorkspaces (hlConfig s)" "trWorkspace tr"] by (simp add: h_def)
  have "ReleaseClaim key (hlNextToken s + 1) \<notin> set (hlOut s)" using none by fastforce
  then have new: "claimOk owner ?s key h" using none own by (simp add: claimOk_def opCount_def h_def filter_empty_conv)
  have "claimOk owner ?s k x" if "hlHeld s k = Some x" for k x
    by (rule claimOk_mono [OF heldInv_claim [OF assms that]]) (auto simp: opCount_def owedFor_def)
  then have "\<forall>k x. hlHeld ?s k = Some x \<longrightarrow> claimOk owner ?s k x" using new by auto
  moreover have "restOk owner ?s" using assms toks by (fastforce simp: heldInv_def restOk_def)
  ultimately have "heldInv owner ?s" by (simp add: heldInv_def)
  then show ?thesis using Some by (simp add: convertToHeld_def h_def Let_def)
qed (use assms in \<open>simp add: convertToHeld_def\<close>)

lemma onClaimAnchor_inv:
  assumes "heldInv owner s"
  shows "heldInv owner (onClaimAnchor accepts key token issue a s)"
proof (cases "hlRecords s key")
  case (Some tr)
  define s1 where "s1 = putRecord key ((trRecord tr)\<lparr>rConvertInFlight := False\<rparr>) s"
  have inv: "heldInv owner s1" unfolding s1_def by (rule heldInv_putRecord [OF assms])
  have owe: "heldInv owner (oweEndedCycle key (hfWorkspaces (hlConfig s1)) (trWorkspace tr) why s1)" for why
    using record_owner [OF assms Some] by (intro heldInv_owe [OF inv]) simp
  show ?thesis
    using Some assms inv heldInv_forget [OF owe] confirmDoneOwnership_inv [OF inv] releaseRecord_inv [OF owe]
      convertToHeld_inv [OF inv]
    unfolding onClaimAnchor_def
    by (simp add: Let_def s1_def [symmetric] split: option.splits readError.splits sum.splits approvalReadError.splits)
qed (use assms in \<open>simp add: onClaimAnchor_def\<close>)

lemma onDoneOwnership_inv:
  assumes "heldInv owner s"
  shows "heldInv owner (onDoneOwnership u accepts key token res s)"
proof (cases "hlRecords s key")
  case (Some tr)
  define s1 where "s1 = putRecord key ((trRecord tr)\<lparr>rConvertInFlight := False\<rparr>) s"
  define s2 where "s2 = (case cycleEndedBy u (hlConfig s1) res of None \<Rightarrow> s1
     | Some why \<Rightarrow> oweEndedCycle key (hfWorkspaces (hlConfig s1)) (trWorkspace tr) why s1)"
  have inv1: "heldInv owner s1" unfolding s1_def by (rule heldInv_putRecord [OF assms])
  have "heldInv owner (oweEndedCycle key (hfWorkspaces (hlConfig s1)) (trWorkspace tr) why s1)" for why
    using record_owner [OF assms Some] by (intro heldInv_owe [OF inv1]) simp
  then have inv: "heldInv owner s2" using inv1 by (simp add: s2_def split: option.splits)
  have e: "onDoneOwnership u accepts key token res s =
     (if rToken (trRecord tr) \<noteq> token then s
      else if \<not> readyToConvert True ((trRecord tr)\<lparr>rConvertInFlight := False\<rparr>) then s1
      else if gone res then forget key s2
      else case (rsErr res, rsIssue res) of
        (None, Some fresh) \<Rightarrow>
          if \<not> containsFold u (ciAssignees fresh) (hfPrincipal (hlConfig s1)) then forget key s2
          else if \<not> activeIssue u (hlConfig s1) fresh then
            releaseRecord accepts key ''issue went terminal before the claim cycle could be anchored'' s2
          else if \<not> hasRequiredLabels u (hfRequired (hlConfig s1)) fresh then
            releaseRecord accepts key
              ''issue left the workflow's label partition before the claim cycle could be anchored'' s2
          else s2
      | _ \<Rightarrow> s2)"
    by (simp only: onDoneOwnership_def Some option.case Let_def s1_def s2_def)
  show ?thesis
    unfolding e using assms inv inv1 heldInv_forget [OF inv] releaseRecord_inv [OF inv] by (simp split: option.split)
qed (use assms in \<open>simp add: onDoneOwnership_def\<close>)

lemma adopt_inv:
  assumes "heldInv owner s" "\<forall>ref\<in>set refs. owner (wrPath ref) = wrIdentifier ref"
  shows "heldInv owner (adoptDurableEndedCycles p refs s)"
  using assms unfolding adoptDurableEndedCycles_def
proof (induction refs arbitrary: s)
  case (Cons ref refs)
  have "heldInv owner (oweEndedCycle (wrIdentifier ref) p (zeroWorkspace\<lparr>wsPath := wrPath ref, wsKey := wrKey ref\<rparr>)
      ''the approval was withdrawn and re-applied while BEN was not observing it'' s)"
    using Cons.prems(2) by (intro heldInv_owe [OF Cons.prems(1)]) simp
  then show ?case using Cons by simp
qed simp

lemma onCycleScan_inv:
  assumes "heldInv owner s" "\<And>refs. listing = Inr refs \<Longrightarrow> \<forall>ref\<in>set refs. owner (wrPath ref) = wrIdentifier ref"
  shows "heldInv owner (onCycleScan seq p listing s)"
  using assms adopt_inv [of owner "s\<lparr>hlScanInFlight := False\<rparr>"]
  by (auto simp: onCycleScan_def applyCycleScan_def Let_def split: sum.splits)

section \<open>Every run\<close>

text \<open>
  What a workspace provider promises: an address names one issue. \<open>owner\<close> is that naming; a dispatched
  run works at an address of its issue, and a listing names the issue of each address.
\<close>

fun namedBy :: "(string \<Rightarrow> string) \<Rightarrow> heldSignal \<Rightarrow> bool" where
  "namedBy owner (SigDispatch key tr) \<longleftrightarrow> (wsKey (trWorkspace tr) \<noteq> [] \<longrightarrow> owner (wsPath (trWorkspace tr)) = key)"
| "namedBy owner (SigCycleScan seq p listing) \<longleftrightarrow>
     (case listing of Inl _ \<Rightarrow> True | Inr refs \<Rightarrow> list_all (\<lambda>ref. owner (wrPath ref) = wrIdentifier ref) refs)"
| "namedBy owner _ \<longleftrightarrow> True"

lemma retryRecords_inv: "heldInv owner s \<Longrightarrow> heldInv owner (retryRecords accepts keys s)"
proof (induction keys arbitrary: s)
  case (Cons key keys)
  then show ?case using driveHold_inv [OF driveRecord_inv] by (simp add: retryRecords_def)
qed (simp add: retryRecords_def)

lemma heldTick_inv:
  assumes "heldInv owner s"
  shows "heldInv owner (heldTick u accepts heldKeys recordKeys sweep s)"
proof -
  obtain absent s1 where a: "(case sweep of None \<Rightarrow> ([], s) | Some res \<Rightarrow> sweepHeld u accepts heldKeys res s) = (absent, s1)"
    by fastforce
  then have "heldInv owner s1" "\<forall>x\<in>set absent. restingAt s1 x"
    using assms sweepHeld_inv sweepHeld_absent by (auto split: option.splits)
  from offerHeldConfirmations_inv [OF this] show ?thesis
    using a by (auto simp: heldTick_def Let_def intro: retryRecords_inv driveEndedCycles_inv retryHeldExits_inv)
qed

lemma heldStep_inv:
  assumes "heldInv owner s" "namedBy owner sig"
  shows "heldInv owner (heldStep u accepts sig s)"
proof (cases sig)
  case (SigCycleScan seq p listing)
  then show ?thesis
    using assms answered_other [OF assms(1), of "ScanCycles seq p"] onCycleScan_inv [of owner "answered (ScanCycles seq p) s" listing]
    by (auto simp: list_all_iff split: sum.splits)
next
  case (SigDispatch key tr)
  have "claimOk owner (s\<lparr>hlNextToken := hlNextToken s + 1, hlRecords := r\<rparr>) k h" if "hlHeld s k = Some h" for k h r
    by (rule claimOk_mono [OF heldInv_claim [OF assms(1) that]]) (auto simp: opCount_def owedFor_def)
  then show ?thesis
    using assms SigDispatch by (fastforce simp: heldInv_def restOk_def unowned_def)
next
  case (SigReload cfg)
  have "claimOk owner (s\<lparr>hlConfig := cfg\<rparr>) k h" if "hlHeld s k = Some h" "pvCompletes (hfWorkspaces cfg) = pvCompletes (hfWorkspaces (hlConfig s))" for k h
    using that(2) by (intro claimOk_mono [OF heldInv_claim [OF assms(1) that(1)]]) (auto simp: opCount_def owedFor_def)
  then show ?thesis using assms SigReload by (auto simp: heldInv_def restOk_def)
next
  case (SigBeginScan isSource)
  then show ?thesis using assms(1) by (auto simp: beginCycleScan_def intro!: heldInv_request_other)
qed (use assms heldTick_inv onHeldReleased_inv onHeldConfirmed_inv onHeldHistory_inv onCycleDisposed_inv answered_other
      onClaimAnchor_inv onDoneOwnership_inv heldInv_putRecord heldInv_forget in \<open>simp_all split: option.splits\<close>)

lemma start_inv: "heldInv owner (startLoopState cfg)"
  by (simp add: heldInv_def restOk_def startLoopState_def)

lemma heldRun_inv:
  assumes "heldInv owner s" "\<forall>(accepts, sig)\<in>set steps. namedBy owner sig"
  shows "heldInv owner (heldRun u steps s)"
  using assms unfolding heldRun_def
proof (induction steps arbitrary: s)
  case (Cons st steps)
  then show ?case using heldStep_inv [of owner s "snd st" u "fst st"] by (auto simp: split_beta)
qed simp

text \<open>
  C4. A retained claim is given up only after its workspace is disposed of. Over any interleaving
  of ticks, answers, failures, refused writes, reloads and dispatches: while the release of a held
  claim is under way, the provider has confirmed the disposal of the workspace cycle the
  claim's work lived in. A crash before the release therefore leaves the claim that lets the
  next daemon find the workspace.
\<close>

theorem release_follows_disposal:
  assumes "\<forall>(accepts, sig)\<in>set steps. namedBy owner sig"
    and "hlHeld (heldRun u steps (startLoopState cfg)) key = Some h"
    and "ReleaseClaim key (hcToken h) \<in> set (hlOut (heldRun u steps (startLoopState cfg)))"
    and "wsKey (hcWorkspace h) \<noteq> []" "wsPath (hcWorkspace h) \<noteq> []"
  shows "CycleDisposed (wsPath (hcWorkspace h)) \<in> set (hlTrace (heldRun u steps (startLoopState cfg)))"
  using heldInv_claim [OF heldRun_inv [OF start_inv assms(1)] assms(2)] assms(3-5)
  by (simp add: claimOk_def addressed_def)

text \<open>
  C19. Each issue has one owner and each held claim one operation. Over any run no issue has both a
  run record and a held claim, and a held claim has exactly one outstanding release, confirmation or
  history read when it is marked in flight and none otherwise: a read that may drop the claim never
  runs beside the release it would cancel.
\<close>

theorem one_operation_per_claim:
  assumes "\<forall>(accepts, sig)\<in>set steps. namedBy owner sig"
    and "hlHeld (heldRun u steps (startLoopState cfg)) key = Some h"
  shows "hlRecords (heldRun u steps (startLoopState cfg)) key = None
    \<and> length (filter (claimOp key (hcToken h)) (hlOut (heldRun u steps (startLoopState cfg)))) = (if hcInFlight h then 1 else 0)"
  using heldInv_claim [OF heldRun_inv [OF start_inv assms(1)] assms(2)]
    heldInv_noRecord [OF heldRun_inv [OF start_inv assms(1)] assms(2)]
  by (simp add: claimOk_def opCount_def)

section \<open>What a claim leaves on\<close>

definition heldIDs :: "heldLoop \<Rightarrow> string set" where "heldIDs s = dom (hlHeld s)"

lemma heldIDs_simps [simp]:
  "hlHeld s key = Some h \<Longrightarrow> heldIDs (putHeld key h' s) = heldIDs s" "heldIDs (request q s) = heldIDs s"
  "heldIDs (oweEndedCycle k p ws why s) = heldIDs s" "heldIDs (s\<lparr>hlHeldCursor := c\<rparr>) = heldIDs s"
  "heldIDs (s\<lparr>hlDisposalCursor := c\<rparr>) = heldIDs s" "heldIDs (s\<lparr>hlScanOwed := b, hlEnded := es\<rparr>) = heldIDs s"
  "heldIDs (s\<lparr>hlMutationSeq := n, hlTrace := tr\<rparr>) = heldIDs s"
  by (auto simp: heldIDs_def)

lemma exit_dom [simp]:
  "heldIDs (driveHeldExit accepts key s) = heldIDs s"
  "heldIDs (releaseHeld accepts key why s) = heldIDs s"
  "heldIDs (classifyHeld u accepts key fresh s) = heldIDs s"
  "heldIDs (confirmHeldClaim key s) = heldIDs s"
proof -
  show e: "heldIDs (driveHeldExit accepts key s) = heldIDs s" for s
    by (simp add: driveHeldExit_def driveHeldRelease_def split: option.split)
  show r: "heldIDs (releaseHeld accepts key why s) = heldIDs s" for why s
    by (simp add: releaseHeld_def e split: option.split)
  show "heldIDs (classifyHeld u accepts key fresh s) = heldIDs s"
    by (simp add: classifyHeld_def checkHeldHistory_def r split: option.split)
  show "heldIDs (confirmHeldClaim key s) = heldIDs s"
    by (simp add: confirmHeldClaim_def split: option.split)
qed

lemma record_ops_held [simp]:
  "hlHeld (driveRecord accepts key s) = hlHeld s" "hlHeld (driveHold key s) = hlHeld s" "hlHeld (forget key s) = hlHeld s"
  "hlHeld (confirmDoneOwnership key s) = hlHeld s" "hlHeld (releaseRecord accepts key why s) = hlHeld s"
  "hlHeld (answered q s) = hlHeld s" "hlHeld (putEnded address c s) = hlHeld s"
  by (simp_all add: driveRecord_def driveHold_def forget_def confirmDoneOwnership_def releaseRecord_def answered_def
    putEnded_def Let_def split: option.splits)

lemma record_ops_ids [simp]:
  "heldIDs (driveRecord accepts key s) = heldIDs s" "heldIDs (driveHold key s) = heldIDs s" "heldIDs (forget key s) = heldIDs s"
  "heldIDs (confirmDoneOwnership key s) = heldIDs s" "heldIDs (releaseRecord accepts key why s) = heldIDs s"
  "heldIDs (answered q s) = heldIDs s" "heldIDs (putEnded address c s) = heldIDs s" "heldIDs (putRecord key r s) = heldIDs s"
  by (simp_all add: heldIDs_def)

lemma sweepHeldLoop_dom: "sweepHeldLoop u accepts seen absent keys s = (absent', s') \<Longrightarrow> heldIDs s' = heldIDs s"
proof (induction keys arbitrary: absent s)
  case (Cons key keys)
  have "heldIDs s' = heldIDs s" if "sweepHeldLoop u accepts seen a keys t = (absent', s')" "heldIDs t = heldIDs s" for a t
    using Cons.IH [OF that(1)] that(2) by simp
  note step = this
  show ?case
    using Cons.prems by (auto split: option.splits if_splits elim!: step)
qed simp

lemma clearEndedCycle_dom: "heldIDs (clearEndedCycle accepts address s) = heldIDs s"
proof (cases "map_of (hlEnded s) address")
  case (Some c)
  then show ?thesis by (simp add: clearEndedCycle_def Let_def split: option.split)
qed (simp add: clearEndedCycle_def)

lemma tick_dom: "heldIDs (heldTick u accepts heldKeys recordKeys sweep s) = heldIDs s"
proof -
  obtain absent s1 where a: "(case sweep of None \<Rightarrow> ([], s) | Some res \<Rightarrow> sweepHeld u accepts heldKeys res s) = (absent, s1)"
    by fastforce
  then have d1: "heldIDs s1 = heldIDs s" "\<forall>x\<in>set absent. restingAt s1 x"
    using sweepHeldLoop_dom sweepHeld_absent by (auto simp: sweepHeld_def split: option.splits if_splits sum.splits)
  define s2 where "s2 = offerHeldConfirmations heldKeys absent s1"
  have d2: "heldIDs s2 = heldIDs s"
  proof -
    obtain cursor where "s2 = s1\<lparr>hlHeldCursor := cursor\<rparr> \<or> (\<exists>key. s2 = confirmHeldClaim key (s1\<lparr>hlHeldCursor := cursor\<rparr>))"
      using offerHeldConfirmations_picks [OF d1(2), of heldKeys] unfolding s2_def by blast
    then show ?thesis using d1(1) by (elim disjE exE) simp_all
  qed
  have "heldIDs (retryHeldExits accepts keys t) = heldIDs t" for keys t
    unfolding retryHeldExits_def by (induction keys arbitrary: t) (auto split: option.splits)
  then have d3: "heldIDs (retryHeldExits accepts heldKeys s2) = heldIDs s" using d2 by simp
  have "heldIDs (disposeEndedCycle accepts x t) = heldIDs t" for x t
    by (simp add: disposeEndedCycle_def Let_def clearEndedCycle_dom split: option.split)
  then have "heldIDs (driveEndedCycles accepts t) = heldIDs t" for t
    using driveEndedCycles_picks [of accepts t] by (elim exE disjE) simp_all
  moreover have "heldIDs (retryRecords accepts keys t) = heldIDs t" for keys t
    unfolding retryRecords_def by (induction keys arbitrary: t) simp_all
  ultimately show ?thesis using a d3 by (simp add: heldTick_def Let_def s2_def)
qed

lemma onHeldHistory_ids: "heldIDs (onHeldHistory accepts key token fresh a s) = heldIDs s"
proof (cases "heldFor key token s")
  case (Some h)
  then have "hlHeld s key = Some h" by (simp add: heldFor_def split: option.splits if_splits)
  then show ?thesis using Some by (simp add: onHeldHistory_def Let_def split: sum.split)
qed (simp add: onHeldHistory_def)

lemma onHeldConfirmed_drops:
  assumes "hlHeld s key = Some h" "hlHeld (onHeldConfirmed u accepts k t res s) key = None"
  shows "k = key \<and> t = hcToken h \<and> (gone res \<or> (\<exists>issue. rsErr res = None \<and> rsIssue res = Some issue
    \<and> \<not> containsFold u (ciAssignees issue) (hfPrincipal (hlConfig s))))"
proof -
  have ids: "key \<in> heldIDs s" "key \<notin> heldIDs (onHeldConfirmed u accepts k t res s)" using assms by (auto simp: heldIDs_def)
  then obtain h0 where h0: "heldFor k t s = Some h0" by (cases "heldFor k t s") (auto simp: onHeldConfirmed_def)
  then have k: "hlHeld s k = Some h0" "hcToken h0 = t" by (auto simp: heldFor_def split: option.splits if_splits)
  define h1 where "h1 = h0\<lparr>hcInFlight := False\<rparr>"
  define s1 where "s1 = putHeld k h1 s"
  define s2 where "s2 = (if hcReleasing h1 then s1
     else case cycleEndedBy u (hlConfig s1) res of None \<Rightarrow> s1
       | Some why \<Rightarrow> oweEndedCycle k (hfWorkspaces (hlConfig s1)) (hcWorkspace h1) why s1)"
  have s2: "heldIDs s2 = heldIDs s" "hlConfig s2 = hlConfig s" "hlHeld s2 k = Some h1"
    using k(1) by (simp_all add: s2_def s1_def split: option.split)
  have e: "onHeldConfirmed u accepts k t res s = (if gone res then dropHeld k s2
         else case (rsErr res, rsIssue res) of
           (None, Some fresh) \<Rightarrow>
             if \<not> containsFold u (ciAssignees fresh) (hfPrincipal (hlConfig s2)) then dropHeld k s2
             else if hcReleasing h1 then (if hcReleasing h1 then driveHeldExit accepts k s2 else s2)
             else putHeld k (h1\<lparr>hcIssue := fresh\<rparr>) s2
         | _ \<Rightarrow> (if hcReleasing h1 then driveHeldExit accepts k s2 else s2))"
    by (simp only: onHeldConfirmed_def h0 option.case Let_def h1_def s1_def s2_def)
  have "heldIDs (driveHeldExit accepts k s2) = heldIDs s" "heldIDs (putHeld k x s2) = heldIDs s" for x
    using s2 by simp_all
  then have d: "gone res \<or> (\<exists>issue. rsErr res = None \<and> rsIssue res = Some issue
    \<and> \<not> containsFold u (ciAssignees issue) (hfPrincipal (hlConfig s)))" and "onHeldConfirmed u accepts k t res s = dropHeld k s2"
    using ids s2(1,2) unfolding e by (auto split: option.splits if_splits)
  then have "heldIDs (onHeldConfirmed u accepts k t res s) = heldIDs s - {k}"
    using s2(1) by (auto simp: heldIDs_def dropHeld_def)
  then have "k = key" using ids by auto
  then show ?thesis using d k assms(1) by auto
qed

lemma adopt_held: "hlHeld (adoptDurableEndedCycles p refs s) = hlHeld s"
  unfolding adoptDurableEndedCycles_def by (induction refs arbitrary: s) simp_all

lemma onClaimAnchor_ids: "heldIDs s \<subseteq> heldIDs (onClaimAnchor accepts key token issue a s)"
proof (cases "hlRecords s key")
  case (Some tr)
  have "heldIDs s \<subseteq> heldIDs (convertToHeld k anchor rev s)" for k anchor rev s
    by (auto simp: convertToHeld_def heldIDs_def Let_def split: option.split)
  then have "heldIDs s \<subseteq> heldIDs (convertToHeld k anchor rev (putRecord key r s))" for k anchor rev r
    using record_ops_ids(8) by metis
  then show ?thesis
    using Some by (simp add: onClaimAnchor_def Let_def split: option.split readError.split sum.split approvalReadError.split)
qed (simp add: onClaimAnchor_def)

lemma onDoneOwnership_ids: "heldIDs (onDoneOwnership u accepts key token res s) = heldIDs s"
  by (simp add: onDoneOwnership_def Let_def split: option.split)

text \<open>
  C28. A held claim is dropped on evidence only: when the tracker has accepted its release, or when a
  confirming read says that the issue is gone or that the principal is no longer assigned. A list
  that omits the issue, a refused write, a failed read and an answer for an earlier claim of the issue drop
  nothing.
\<close>

theorem claim_leaves_on_evidence:
  assumes "hlHeld s key = Some h" and "hlHeld (heldStep u accepts sig s) key = None"
  shows "sig = SigHeldReleased key (hcToken h) False \<and> ReleaseClaim key (hcToken h) \<in> set (hlOut s)
    \<or> (\<exists>res. sig = SigHeldConfirmed key (hcToken h) res \<and> ConfirmClaim key (hcToken h) \<in> set (hlOut s)
        \<and> (gone res \<or> (\<exists>issue. rsErr res = None \<and> rsIssue res = Some issue
             \<and> \<not> containsFold u (ciAssignees issue) (hfPrincipal (hlConfig s)))))"
proof -
  have key: "key \<in> heldIDs s" "key \<notin> heldIDs (heldStep u accepts sig s)" using assms by (auto simp: heldIDs_def)
  show ?thesis
  proof (cases sig)
    case (SigTick heldKeys recordKeys sweep)
    then show ?thesis using key by (simp add: tick_dom)
  next
    case (SigHeldReleased k t failed)
    have "k = key \<and> t = hcToken h \<and> \<not> failed \<and> ReleaseClaim k t \<in> set (hlOut s)"
      using assms SigHeldReleased
      by (auto simp: onHeldReleased_def heldFor_def dropHeld_def split: if_splits option.splits)
    then show ?thesis using SigHeldReleased by auto
  next
    case (SigHeldConfirmed k t res)
    then have out: "ConfirmClaim k t \<in> set (hlOut s)" using assms by (auto split: if_splits)
    have "k = key \<and> t = hcToken h \<and> (gone res \<or> (\<exists>issue. rsErr res = None \<and> rsIssue res = Some issue
             \<and> \<not> containsFold u (ciAssignees issue) (hfPrincipal (hlConfig s))))"
      using onHeldConfirmed_drops [of "answered (ConfirmClaim k t) s" key h u accepts k t res] assms SigHeldConfirmed out
      by (simp add: answered_def)
    then show ?thesis using SigHeldConfirmed out by simp
  next
    case (SigHeldHistory k t fresh a)
    then show ?thesis using key onHeldHistory_ids [of accepts k t fresh a] by (simp split: if_splits)
  next
    case (SigCycleDisposed address failed)
    then show ?thesis
      using key by (simp add: onCycleDisposed_def clearEndedCycle_dom Let_def split: if_splits option.splits)
  next
    case (SigCycleScan seq p listing)
    then show ?thesis
      using assms by (simp add: onCycleScan_def applyCycleScan_def adopt_held Let_def split: if_splits sum.splits)
  next
    case (SigClaimAnchor k t issue a)
    then show ?thesis using key onClaimAnchor_ids [of "answered (ReadAnchor k t issue) s" accepts k t issue a] by (auto split: if_splits)
  next
    case (SigDoneOwnership k t res)
    then show ?thesis using key onDoneOwnership_ids [of u accepts k t res] by (simp split: if_splits)
  qed (use assms in \<open>auto simp: beginCycleScan_def split: if_splits option.splits\<close>)
qed

section \<open>A review from beginning to end\<close>

text \<open>
  An issue is dispatched, its run finishes, the claim is retained; the issue is closed, the sandbox is
  disposed of, and the release goes out.
\<close>

definition reviewConfig :: heldConfig where
  "reviewConfig = \<lparr>hfPrincipal = ''bot'', hfRequired = [''ben''], hfActiveStates = [],
     hfWorkspaces = \<lparr>pvName = ''remote'', pvCompletes = True\<rparr>\<rparr>"

definition reviewRecord :: trackedRecord where
  "reviewRecord = \<lparr>trRecord = demoRecord\<lparr>rState := StateDone\<rparr>,
     trWorkspace = zeroWorkspace\<lparr>wsKey := ''k'', wsPath := ''addr''\<rparr>, trPRURL = ''pr''\<rparr>"

definition anchorFound :: historyAnswer where
  "anchorFound = \<lparr>haErr = None, haAnchor = 5, haClosed = False, haApproval = Inr False\<rparr>"

definition reviewSteps :: "((string \<Rightarrow> bool) \<times> heldSignal) list" where
  "reviewSteps = map (Pair (\<lambda>_. True))
     [SigDispatch ''41'' reviewRecord, SigTick [] [''41''] None, SigClaimAnchor ''41'' 1 demoIssue anchorFound,
      SigTick [''41''] [] (Some (Inr [demoIssue\<lparr>ciState := ''closed''\<rparr>])), SigCycleDisposed ''addr'' False]"

definition reviewClaim :: heldClaim where
  "reviewClaim = \<lparr>hcIssue = demoIssue, hcPRURL = ''pr'', hcWorkspace = zeroWorkspace\<lparr>wsKey := ''k'', wsPath := ''addr''\<rparr>,
     hcRevision = ''r1'', hcCycleAnchor = 5, hcToken = 2, hcReleasing = True, hcReleaseFailed = False,
     hcWhy = ''issue went terminal'', hcInFlight = True\<rparr>"

lemma review_run:
  "hlHeld (heldRun logRuntime reviewSteps (startLoopState reviewConfig)) ''41'' = Some reviewClaim"
  "hlOut (heldRun logRuntime reviewSteps (startLoopState reviewConfig)) = [ReleaseClaim ''41'' 2]"
  by code_simp+

lemma review_named: "\<forall>(accepts, sig)\<in>set reviewSteps. namedBy (\<lambda>_. ''41'') sig"
  by (simp add: reviewSteps_def)

theorem release_follows_disposal_witness:
  "ReleaseClaim ''41'' 2 \<in> set (hlOut (heldRun logRuntime reviewSteps (startLoopState reviewConfig)))
     \<and> CycleDisposed ''addr'' \<in> set (hlTrace (heldRun logRuntime reviewSteps (startLoopState reviewConfig)))"
proof -
  have out: "ReleaseClaim ''41'' (hcToken reviewClaim) \<in> set (hlOut (heldRun logRuntime reviewSteps (startLoopState reviewConfig)))"
    by (simp add: review_run reviewClaim_def)
  have ws: "wsKey (hcWorkspace reviewClaim) \<noteq> []" "wsPath (hcWorkspace reviewClaim) \<noteq> []" "wsPath (hcWorkspace reviewClaim) = ''addr''"
    by (simp_all add: reviewClaim_def)
  from release_follows_disposal [OF review_named review_run(1) out ws(1,2)] ws(3) out show ?thesis
    by (simp add: reviewClaim_def)
qed

theorem one_operation_per_claim_witness:
  "hlRecords (heldRun logRuntime reviewSteps (startLoopState reviewConfig)) ''41'' = None
     \<and> length (filter (claimOp ''41'' 2) (hlOut (heldRun logRuntime reviewSteps (startLoopState reviewConfig)))) = 1"
proof -
  have "hcToken reviewClaim = 2" "hcInFlight reviewClaim" by (simp_all add: reviewClaim_def)
  with one_operation_per_claim [OF review_named review_run(1)] show ?thesis by simp
qed

theorem claim_leaves_on_evidence_witness:
  "hlHeld (heldStep logRuntime (\<lambda>_. True) (SigHeldReleased ''41'' 2 False)
      (heldRun logRuntime reviewSteps (startLoopState reviewConfig))) ''41'' = None
   \<and> ReleaseClaim ''41'' 2 \<in> set (hlOut (heldRun logRuntime reviewSteps (startLoopState reviewConfig)))"
proof -
  have d: "hlHeld (heldStep logRuntime (\<lambda>_. True) (SigHeldReleased ''41'' 2 False)
      (heldRun logRuntime reviewSteps (startLoopState reviewConfig))) ''41'' = None"
    by (simp add: review_run onHeldReleased_def heldFor_def answered_def dropHeld_def reviewClaim_def)
  from claim_leaves_on_evidence [OF review_run(1) d] d show ?thesis by (simp add: reviewClaim_def)
qed

end
