(* ===== verification/OrchSummary.thy ===== *)
theory OrchSummary
  imports GoStringFacts
begin

text \<open>
  The account of a finished attempt that the next prompt carries
  (\<open>internal/orchestrator/summary.go\<close>): its rendering within a budget of bytes, and the tail of
  the agent's output that is kept for it.
\<close>

section \<open>Cutting at runes\<close>

definition runeStart :: "char \<Rightarrow> bool" where
  "runeStart c \<longleftrightarrow> \<not> (128 \<le> byte c \<and> byte c < 192)"

fun cutDown :: "string \<Rightarrow> nat \<Rightarrow> nat" where
  "cutDown s 0 = 0"
| "cutDown s (Suc n) = (if runeStart (s ! Suc n) then Suc n else cutDown s n)"

definition truncateRunes :: "string \<Rightarrow> int \<Rightarrow> string" where
  "truncateRunes s limit =
     (if limit \<le> 0 then [] else if int (length s) \<le> limit then s else take (cutDown s (nat limit)) s)"

definition tailRunes :: "string \<Rightarrow> int \<Rightarrow> string" where
  "tailRunes s limit =
     (if limit \<le> 0 then [] else if int (length s) \<le> limit then s
      else dropWhile (\<lambda>c. \<not> runeStart c) (drop (length s - nat limit) s))"

section \<open>The account\<close>

definition summaryBudget :: int where "summaryBudget = 16 * 1024"
definition summaryOutputReserve :: int where "summaryOutputReserve = 8 * 1024"
definition summaryIndent :: string where "summaryIndent = ''  ''"

record AttemptFacts =
  afCommits :: "string list"
  afFiles :: "string list"
  afCommitsTruncated :: bool
  afFilesTruncated :: bool

record attemptAccount =
  aaAttempt :: int
  aaOutcome :: string
  aaFacts :: AttemptFacts
  aaFactsRead :: bool
  aaOutput :: string
  aaOutputTotal :: int

definition ellipsis :: string where "ellipsis = [CHR 0xE2, CHR 0x80, CHR 0xA6]"

definition renderList :: "string \<Rightarrow> string list \<Rightarrow> int \<Rightarrow> bool \<Rightarrow> string" where
  "renderList label items dropped beyond =
     (if items = [] \<and> dropped = 0 \<and> \<not> beyond then label @ '': none'' @ [lineFeed]
      else label @ '':'' @ [lineFeed] @ concat (map (\<lambda>item. summaryIndent @ item @ [lineFeed]) items)
        @ (if dropped > 0 \<and> beyond then
             summaryIndent @ ellipsis @ '' '' @ itoa dropped @ '' more not shown, and there were others beyond the read limit'' @ [lineFeed]
           else if dropped > 0 then summaryIndent @ ellipsis @ '' '' @ itoa dropped @ '' more not shown'' @ [lineFeed]
           else if beyond then summaryIndent @ ellipsis @ '' more, beyond the read limit'' @ [lineFeed]
           else []))"

fun listLoop :: "string \<Rightarrow> string list \<Rightarrow> bool \<Rightarrow> int \<Rightarrow> nat \<Rightarrow> string" where
  "listLoop label items beyond budget 0 = renderList label [] (int (length items)) beyond"
| "listLoop label items beyond budget (Suc kept) =
     (let s = renderList label (take (Suc kept) items) (int (length items) - int (Suc kept)) beyond
      in if int (length s) \<le> budget then s else listLoop label items beyond budget kept)"

definition listSection :: "string \<Rightarrow> string list \<Rightarrow> bool \<Rightarrow> int \<Rightarrow> string" where
  "listSection label items beyond budget = listLoop label items beyond budget (length items)"

definition observed :: "attemptAccount \<Rightarrow> int \<Rightarrow> string" where
  "observed a budget =
     (if \<not> aaFactsRead a then ''commits and files changed: not read'' @ [lineFeed]
      else let commits = listSection ''commits'' (afCommits (aaFacts a)) (afCommitsTruncated (aaFacts a)) budget
        in commits @ listSection ''files changed'' (afFiles (aaFacts a)) (afFilesTruncated (aaFacts a))
             (budget - int (length commits)))"

definition saidLabel :: string where "saidLabel = ''what the agent said, most recent last''"

definition heading :: "attemptAccount \<Rightarrow> int \<Rightarrow> string" where
  "heading a shown =
     (if shown < aaOutputTotal a then
        saidLabel @ '' (truncated, '' @ itoa shown @ '' of '' @ itoa (aaOutputTotal a) @ '' bytes):'' @ [lineFeed]
      else saidLabel @ '' ('' @ itoa shown @ '' bytes):'' @ [lineFeed])"

definition endsLine :: "string \<Rightarrow> bool" where "endsLine s \<longleftrightarrow> s \<noteq> [] \<and> last s = CHR 0x0A"

definition said :: "attemptAccount \<Rightarrow> int \<Rightarrow> string" where
  "said a budget =
     (if aaOutput a = [] then
        (if aaOutputTotal a > 0 then saidLabel @ '': none retained, of '' @ itoa (aaOutputTotal a) @ '' bytes'' @ [lineFeed]
         else saidLabel @ '': nothing'' @ [lineFeed])
      else
        let room = budget - int (length (saidLabel @ '' (truncated, '' @ itoa (aaOutputTotal a) @ '' of ''
               @ itoa (aaOutputTotal a) @ '' bytes):'' @ [lineFeed]))
        in if room \<le> 0 then saidLabel @ '': not shown, of '' @ itoa (aaOutputTotal a) @ '' bytes'' @ [lineFeed]
           else
             let shown = (if int (length (aaOutput a)) > room then tailRunes (aaOutput a) room else aaOutput a);
                 shown' = (if endsLine shown then shown else shown @ [lineFeed])
             in heading a (int (length shown') - 1) @ shown')"

definition renderWithin :: "attemptAccount \<Rightarrow> int \<Rightarrow> int \<Rightarrow> string" where
  "renderWithin a budget reserve =
     (let head = ''attempt '' @ itoa (aaAttempt a) @ '' ended: '' @ aaOutcome a @ [lineFeed];
          obs = observed a (budget - reserve - int (length head));
          text = head @ obs @ said a (budget - int (length head) - int (length obs))
      in if int (length text) > budget then truncateRunes text budget else text)"

definition renderAccount :: "attemptAccount \<Rightarrow> string" where
  "renderAccount a = renderWithin a summaryBudget summaryOutputReserve"

text \<open>\<open>retainOutput\<close> on the retained tail and the count of bytes.\<close>

definition retainOutput :: "string \<Rightarrow> string \<times> int \<Rightarrow> string \<times> int" where
  "retainOutput text kept =
     (let (tail, count) = kept;
          joined = (if tail \<noteq> [] \<and> \<not> endsLine tail then [lineFeed] @ text else text)
      in (tailRunes (tail @ joined) summaryBudget, count + int (length joined)))"

section \<open>What the account keeps\<close>

lemma cutDown_le: "cutDown s n \<le> n"
  by (induction n) (auto simp: le_SucI)

lemma length_truncateRunes: "0 \<le> limit \<Longrightarrow> int (length (truncateRunes s limit)) \<le> limit"
  using cutDown_le [of s "nat limit"] by (auto simp: truncateRunes_def)

lemma length_tailRunes: "0 \<le> limit \<Longrightarrow> int (length (tailRunes s limit)) \<le> limit"
proof -
  assume "0 \<le> limit"
  moreover have "length (dropWhile (\<lambda>c. \<not> runeStart c) (drop (length s - nat limit) s)) \<le> length (drop (length s - nat limit) s)"
    by (rule length_dropWhile_le)
  ultimately show ?thesis by (auto simp: tailRunes_def)
qed

lemma tailRunes_suffix: "\<exists>gone. s = gone @ tailRunes s limit"
proof -
  let ?n = "length s - nat limit"
  have "s = take ?n s @ takeWhile (\<lambda>c. \<not> runeStart c) (drop ?n s) @ dropWhile (\<lambda>c. \<not> runeStart c) (drop ?n s)" by simp
  then have "\<exists>gone. s = gone @ dropWhile (\<lambda>c. \<not> runeStart c) (drop ?n s)" by (metis append.assoc)
  then show ?thesis by (auto simp: tailRunes_def)
qed

text \<open>
  The account never exceeds its budget, whatever the branch and the agent put into it, and what
  is kept of the output over any number of events is a bounded tail of all of it.
\<close>

theorem account_is_bounded: "int (length (renderAccount a)) \<le> summaryBudget"
proof -
  have "int (length (if int (length said1) > summaryBudget then truncateRunes said1 summaryBudget else said1)) \<le> summaryBudget"
    for said1
    using length_truncateRunes [of summaryBudget said1] by (simp add: summaryBudget_def)
  then show ?thesis unfolding renderAccount_def renderWithin_def Let_def by blast
qed

theorem retained_output_is_the_end:
  "\<exists>gone whole. fold retainOutput texts ([], 0) = (gone, int (length whole)) \<and> (\<exists>cut. whole = cut @ gone)
     \<and> int (length gone) \<le> summaryBudget"
proof (induction texts rule: rev_induct)
  case Nil
  show ?case by (rule exI [of _ "[]"], rule exI [of _ "[]"]) (simp add: summaryBudget_def)
next
  case (snoc said1 texts)
  then obtain kept whole cut where k: "fold retainOutput texts ([], 0) = (kept, int (length whole))" "whole = cut @ kept"
    by blast
  define joined where "joined = (if kept \<noteq> [] \<and> \<not> endsLine kept then [lineFeed] @ said1 else said1)"
  obtain gone where g: "kept @ joined = gone @ tailRunes (kept @ joined) summaryBudget"
    using tailRunes_suffix by blast
  have "whole @ joined = (cut @ gone) @ tailRunes (kept @ joined) summaryBudget" using g k(2) by simp
  moreover have "fold retainOutput (texts @ [said1]) ([], 0)
      = (tailRunes (kept @ joined) summaryBudget, int (length (whole @ joined)))"
    by (simp add: k(1) retainOutput_def joined_def)
  moreover have "int (length (tailRunes (kept @ joined) summaryBudget)) \<le> summaryBudget"
    by (rule length_tailRunes) (simp add: summaryBudget_def)
  ultimately show ?case by blast
qed

end
