(* ===== verification/OrchPipeline.thy ===== *)
theory OrchPipeline
  imports OrchHeld OrchRecover Verify OrchSummary
begin

text \<open>
  The dispatch pipeline of the orchestrator for one run record
  (\<open>internal/orchestrator/pipeline.go\<close>, with the exits and ticks of \<open>signals.go\<close>, \<open>parked.go\<close>, \<open>absence.go\<close>,
  \<open>credential.go\<close>, \<open>summary.go\<close>, \<open>attempt.go\<close> and \<open>shutdown.go\<close> that act on one record): from the claim over the
  approval check, the claim base, the workspace and the agent's run to the verdict, the
  retry or the exit. What a worker goroutine is asked is a request, what it sends back a reply to it.
  The delay of a timer, the bookkeeping of run markers (\<open>marker.go\<close>) and the count of ended-cycle reads are left
  out; a workspace whose marker is freed is an event of the trace.
\<close>

section \<open>Data\<close>

text \<open>An error with what \<open>errors.Is\<close> and the credential classifier say of it; \<open>Some True\<close> is a transient failure.\<close>

record goError =
  erText :: string
  erNotFound :: bool
  erNotAttempted :: bool
  erTargetUnrecorded :: bool
  erApprovalPending :: bool
  erCredential :: "bool option"

definition credentialTransient :: "goError \<Rightarrow> bool" where
  "credentialTransient e \<longleftrightarrow> erCredential e = Some True"

definition credentialParks :: "goError \<Rightarrow> bool" where
  "credentialParks e \<longleftrightarrow> erCredential e = Some False"

record Usage =
  usInputTokens :: int
  usOutputTokens :: int
  usCostUSD :: rat

datatype EventType = EventStarted | EventProgress | EventUsage | EventHeartbeat | EventSucceeded | EventFailed | EventOther string

record runEvent =
  evType :: EventType
  evSessionID :: string
  evContinuation :: string
  evText :: string
  evUsage :: "Usage option"
  evReason :: string

datatype timerKind = timerBackoff | timerContinuation
datatype StopMode = StopInterrupt | StopDiscard

text \<open>The configuration in force: the part held claims read, the limits, and what the bundle's members implement.\<close>

record pipeConfig =
  pgHeld :: heldConfig
  pgMaxTurns :: int
  pgMaxAttempts :: int
  pgMaxCostUSD :: "rat option"
  pgStallTimeoutMS :: int
  pgAttemptTimeoutMS :: int
  pgBlocked :: bool
  pgRevision :: nat
  pgAgent :: string
  pgAfterRunner :: bool
  pgEndedCycleSource :: bool

text \<open>The three directories of a workspace a run is told of.\<close>

definition workspacePaths :: "Workspace \<Rightarrow> string \<times> string \<times> string" where
  "workspacePaths ws = (wsPath ws, wsSharedGitDir ws, wsPrivateDir ws)"

record launchSpec =
  lsWorkspace :: "string \<times> string \<times> string"
  lsPrompt :: string
  lsContinuation :: string
  lsEnv :: "(string \<times> string) list"
  lsStallTimeoutMS :: int
  lsAttemptTimeoutMS :: int
  lsMaxTurns :: int
  lsMaxCostUSD :: rat

text \<open>A run record: the record of \<open>OrchRecord\<close> and the other fields the pipeline works with.\<close>

record pipeRecord =
  plRec :: Record
  plDefinition :: pipeConfig
  plClaimVerified :: bool
  plApprovalInFlight :: bool
  plClaimEpoch :: tid
  plClaimBaseInFlight :: bool
  plEpochFaulted :: bool
  plEpochFaultDetail :: string
  plClaimBaseDispatch :: bool
  plFailureReason :: string
  plLastOutcome :: string
  plPreviousAttempt :: string
  plOutput :: "string \<times> int"
  plAttemptFacts :: AttemptFacts
  plAttemptFactsRead :: bool
  plSummarizing :: bool
  plSummarized :: bool
  plParkOnBudgetPending :: bool
  plWorkspace :: Workspace
  plContinuation :: string
  plSessionID :: string
  plPRURL :: string
  plHandle :: "nat option"
  plAttemptStartedAt :: time
  plAttemptUsage :: Usage
  plAttemptAgent :: string
  plAttemptRecorded :: bool
  plBudgetStop :: bool
  plFinishAfterStop :: bool
  plKeepOnStop :: bool
  plAbsenceInFlight :: bool
  plVerifyRetry :: bool
  plStopInFlight :: bool
  plProbeInFlight :: bool
  plEventsClosed :: bool
  plHandleDone :: bool
  plDomainQuiet :: bool
  plOutcome :: "(runEvent \<times> string) option"

record AttemptOutcome =
  aoIssue :: string
  aoAttempt :: int
  aoTurns :: int
  aoRunID :: string
  aoAgent :: string
  aoStartedAt :: time
  aoEndedAt :: time
  aoRan :: bool
  aoFailureReason :: string
  aoVerdict :: evidence
  aoUsage :: Usage

text \<open>
  What the record has asked for. A stop of a record without a handle is answered by the record itself.
\<close>

datatype pipeRequest =
    AskClaim coreIssue
  | AskApproval coreIssue "string list" string
  | AskClaimBase coreIssue tid
  | AskPrepare coreIssue int tid
  | AskStart coreIssue launchSpec
  | AskProbe nat
  | AskStop "nat option" StopMode
  | AskSummary Workspace
  | AskVerify coreIssue Workspace
  | AskTimer timerKind
  | AskRefetch timerKind tid nat
  | AskParked bool
  | AskOwed string

text \<open>
  The trace, which is not part of the program's state: requests, agents that run and that are
  confirmed quiet, run markers freed, and the facts an approval was checked on.
\<close>

datatype pipeEvent =
    Asked pipeRequest
  | AgentStarted nat
  | AgentQuiet nat
  | MarkerFreed
  | ApprovalRead "ClaimEvent list" "string list" ContentApproval

datatype pumpPhase = Pumping | StreamClosed | HandleDone

record pipeWorld =
  pwRec :: pipeRecord
  pwTracked :: bool
  pwDraining :: bool
  pwOut :: "(int \<times> pipeRequest) list"
  pwPump :: "int \<rightharpoonup> pumpPhase"
  pwLog :: "TransitionEntry list"
  pwAttempts :: "AttemptOutcome list"
  pwNextHandle :: nat
  pwTrace :: "pipeEvent list"

text \<open>
  What a step reads of the loop around the record: the owed queue's surroundings, the clock, the daemon's
  name, the configuration in force, the free slots, whether a remote provider took the
  disposal over (\<open>oweRemoteRevocation\<close>), the rendering of the prompt, which preparation errors
  are worth a retry, and the texts of approval errors and of claim bases.
\<close>

record pipeEnv =
  peLoop :: loopEnv
  peNow :: time
  peDaemon :: string
  peConfig :: pipeConfig
  peFreeSlots :: int
  peRemoteRevocation :: bool
  peRender :: "pipeRecord \<Rightarrow> goError + string"
  pePrepRetryable :: "goError \<Rightarrow> bool"
  peExplain :: "approvalError \<Rightarrow> string"
  peShow :: "ClaimBase \<Rightarrow> string"

section \<open>Steps on the world\<close>

definition onPipe :: "(pipeRecord \<Rightarrow> pipeRecord) \<Rightarrow> pipeWorld \<Rightarrow> pipeWorld" where
  "onPipe f w = w\<lparr>pwRec := f (pwRec w)\<rparr>"

definition onRecord :: "(Record \<Rightarrow> Record) \<Rightarrow> pipeWorld \<Rightarrow> pipeWorld" where
  "onRecord f w = onPipe (\<lambda>r. r\<lparr>plRec := f (plRec r)\<rparr>) w"

definition baseOf :: "pipeWorld \<Rightarrow> Record" where "baseOf w = plRec (pwRec w)"

definition emit :: "pipeEvent \<Rightarrow> pipeWorld \<Rightarrow> pipeWorld" where
  "emit e w = w\<lparr>pwTrace := pwTrace w @ [e]\<rparr>"

text \<open>A request carries the generation it was made in.\<close>

definition ask :: "pipeRequest \<Rightarrow> pipeWorld \<Rightarrow> pipeWorld" where
  "ask q w = emit (Asked q) (w\<lparr>pwOut := pwOut w @ [(rGeneration (baseOf w), q)]\<rparr>)"

text \<open>A request that the record counts as pending.\<close>

definition askPending :: "pipeRequest \<Rightarrow> pipeWorld \<Rightarrow> pipeWorld" where
  "askPending q w = ask q (onRecord (\<lambda>r. r\<lparr>rPending := rPending r + 1\<rparr>) w)"

definition arrived :: "pipeWorld \<Rightarrow> pipeWorld" where
  "arrived w = onRecord (\<lambda>r. r\<lparr>rPending := rPending r - 1\<rparr>) w"

definition forgetRecord :: "pipeWorld \<Rightarrow> pipeWorld" where
  "forgetRecord w = w\<lparr>pwTracked := False\<rparr>"

definition transitionTo :: "pipeEnv \<Rightarrow> State \<Rightarrow> string \<Rightarrow> string \<Rightarrow> pipeWorld \<Rightarrow> pipeWorld option" where
  "transitionTo env to reason cause w =
     (case transitionCaused (peLoop env) (peNow env) (peDaemon env) (baseOf w) to reason cause of
        Inl _ \<Rightarrow> None
      | Inr (r, entry) \<Rightarrow> Some (onRecord (\<lambda>_. r) (w\<lparr>pwLog := pwLog w @ [entry]\<rparr>)))"

definition legalReason :: "State \<Rightarrow> State \<Rightarrow> string" where
  "legalReason from to = (case map_of legalTransitions (from, to) of None \<Rightarrow> [] | Some reason \<Rightarrow> reason)"

definition freeWorkspaceMarker :: "pipeWorld \<Rightarrow> pipeWorld" where
  "freeWorkspaceMarker w = emit MarkerFreed w"

section \<open>Attempts\<close>

definition recordAttempt :: "pipeEnv \<Rightarrow> string \<Rightarrow> evidence \<Rightarrow> pipeWorld \<Rightarrow> pipeWorld" where
  "recordAttempt env reason verdict w =
     (let p = pwRec w; r = plRec p
      in if plAttemptRecorded p \<or> plAttemptStartedAt p = zeroTime then w
         else onPipe (\<lambda>p. p\<lparr>plAttemptRecorded := True\<rparr>)
           (w\<lparr>pwAttempts := pwAttempts w @
              [\<lparr>aoIssue = ciIdentifier (rIssue r), aoAttempt = rAttempt r, aoTurns = rTurns r, aoRunID = runID r,
                aoAgent = plAttemptAgent p, aoStartedAt = plAttemptStartedAt p, aoEndedAt = peNow env,
                aoRan = rRanThisAttempt r, aoFailureReason = reason, aoVerdict = verdict,
                aoUsage = plAttemptUsage p\<rparr>]\<rparr>))"

definition recordAccount :: "string \<Rightarrow> pipeRecord \<Rightarrow> pipeRecord" where
  "recordAccount outcome p =
     p\<lparr>plPreviousAttempt := renderAccount \<lparr>aaAttempt = rAttempt (plRec p), aaOutcome = outcome,
        aaFacts = plAttemptFacts p, aaFactsRead = plAttemptFactsRead p, aaOutput = fst (plOutput p),
        aaOutputTotal = snd (plOutput p)\<rparr>\<rparr>"

definition forgetAccount :: "pipeRecord \<Rightarrow> pipeRecord" where
  "forgetAccount p = p\<lparr>plPreviousAttempt := []\<rparr>"

definition endAttempt :: "pipeEnv \<Rightarrow> pipeWorld \<Rightarrow> pipeWorld" where
  "endAttempt env w = onRecord (attemptEnded (peLoop env) (pgAfterRunner (peConfig env))) w"

section \<open>Disposals\<close>

definition disposePublished :: "pipeEnv \<Rightarrow> pipeWorld \<Rightarrow> pipeWorld" where
  "disposePublished env w = onRecord (\<lambda>r. oweDisposal (peLoop env) r ''Dispose'') w"

definition completeFailure :: "pipeEnv \<Rightarrow> pipeWorld \<Rightarrow> pipeWorld" where
  "completeFailure env w =
     (if \<not> pvCompletes (hfWorkspaces (pgHeld (peConfig env))) then w
      else onRecord (\<lambda>r. oweDisposal (peLoop env) r ''CompleteFailure'') w)"

definition disposeRevoked :: "pipeEnv \<Rightarrow> bool \<Rightarrow> pipeWorld \<Rightarrow> pipeWorld" where
  "disposeRevoked env keep w =
     (if peRemoteRevocation env then w
      else onRecord (\<lambda>r. oweDisposal (peLoop env) r (if keep then ''Dispose keep'' else ''Dispose'')) w)"

definition completeShutdown :: "pipeEnv \<Rightarrow> pipeWorld \<Rightarrow> pipeWorld" where
  "completeShutdown env w =
     (if \<not> pvCompletes (hfWorkspaces (pgHeld (peConfig env))) then w
      else onRecord (\<lambda>r. oweDisposal (peLoop env) r ''CompleteShutdown'') w)"

section \<open>Exits\<close>

definition beginStop :: "StopMode \<Rightarrow> pipeWorld \<Rightarrow> pipeWorld" where
  "beginStop mode w =
     (if plStopInFlight (pwRec w) then w
      else case plHandle (pwRec w) of
        None \<Rightarrow> ask (AskStop None mode) w
      | Some h \<Rightarrow> ask (AskStop (Some h) mode) (onPipe (\<lambda>p. p\<lparr>plStopInFlight := True\<rparr>) w))"

definition finishNow :: "pipeEnv \<Rightarrow> bool \<Rightarrow> string \<Rightarrow> pipeWorld \<Rightarrow> pipeWorld" where
  "finishNow env keep why w0 =
     (let w1 = endAttempt env w0;
          reason = (if plParkOnBudgetPending (pwRec w1) then FailureBudgetExceeded else FailureKilled);
          w2 = onPipe (\<lambda>p. p\<lparr>plParkOnBudgetPending := False\<rparr>) w1;
          w3 = recordAttempt env reason VerdictUnknown w2;
          w4 = disposeRevoked env keep (onRecord (abandonPendingClaimBase (peLoop env)) w3);
          r = baseOf w4
      in if rGone r \<or> rClaimLost r then
           (if owesForget r then w4 else onRecord (\<lambda>r. owe (peLoop env) r effectForget effectLocal ''nothing'') w4)
         else onRecord (\<lambda>r. release (peLoop env) r why) w4)"

definition stopAndFinish :: "pipeEnv \<Rightarrow> bool \<Rightarrow> string \<Rightarrow> pipeWorld \<Rightarrow> pipeWorld" where
  "stopAndFinish env keep why w0 =
     (let w = onRecord (\<lambda>r. r\<lparr>rStopReason := why\<rparr>)
                (onPipe (\<lambda>p. p\<lparr>plKeepOnStop := keep, plFinishAfterStop := True\<rparr>) w0)
      in if plHandle (pwRec w) \<noteq> None then beginStop StopDiscard (onRecord (\<lambda>r. r\<lparr>rStopping := True\<rparr>) w)
         else if rPending (baseOf w) > 0 then onRecord (\<lambda>r. r\<lparr>rFinish := Some (keep, why)\<rparr>) w
         else finishNow env keep why w)"

text \<open>\<open>None\<close> when there is nothing to finish.\<close>

definition finishIfRequested :: "pipeEnv \<Rightarrow> pipeWorld \<Rightarrow> pipeWorld option" where
  "finishIfRequested env w0 =
     (case rFinish (baseOf w0) of
        None \<Rightarrow> None
      | Some (keep, why) \<Rightarrow>
          if rPending (baseOf w0) > 0 then None
          else let w = onRecord (\<lambda>r. r\<lparr>rFinish := None\<rparr>) w0
            in Some (if plHandle (pwRec w) \<noteq> None then beginStop StopDiscard (onRecord (\<lambda>r. r\<lparr>rStopping := True\<rparr>) w)
                     else finishNow env keep why w))"

section \<open>Terminal and waiting states\<close>

definition armTimer :: "timerKind \<Rightarrow> pipeWorld \<Rightarrow> pipeWorld" where
  "armTimer kind w = ask (AskTimer kind) w"

definition commentOn :: "pipeEnv \<Rightarrow> Milestone \<Rightarrow> pipeWorld \<Rightarrow> pipeWorld" where
  "commentOn env milestone w = onRecord (\<lambda>r. comment (peLoop env) r milestone) w"

definition enterBackoff :: "pipeEnv \<Rightarrow> string \<Rightarrow> string \<Rightarrow> pipeWorld \<Rightarrow> pipeWorld" where
  "enterBackoff env why cause w =
     (case transitionTo env StateBackoff why cause w of
        None \<Rightarrow> w
      | Some w1 \<Rightarrow> armTimer timerBackoff
          (onRecord (\<lambda>r. r\<lparr>rStopping := False, rGeneration := rGeneration r + 1\<rparr>)
            (onPipe (\<lambda>p. p\<lparr>plContinuation := [], plSessionID := []\<rparr>) w1)))"

definition enterFailed :: "pipeEnv \<Rightarrow> string \<Rightarrow> string \<Rightarrow> pipeWorld \<Rightarrow> pipeWorld" where
  "enterFailed env why cause w =
     (case transitionTo env StateFailed why cause w of
        None \<Rightarrow> w
      | Some w1 \<Rightarrow> onRecord (\<lambda>r. release (peLoop env) r (''failed: '' @ why))
          (completeFailure env (commentOn env MilestoneFailed w1)))"

definition enterNeedsReview :: "pipeEnv \<Rightarrow> string \<Rightarrow> string \<Rightarrow> pipeWorld \<Rightarrow> pipeWorld" where
  "enterNeedsReview env why cause w =
     (if orderedExit (baseOf w) then w
      else case transitionTo env StateNeedsReview why cause w of
        None \<Rightarrow> w
      | Some w1 \<Rightarrow> commentOn env MilestoneNeedsReview w1)"

definition enterEpochFault :: "pipeEnv \<Rightarrow> string \<Rightarrow> pipeWorld \<Rightarrow> pipeWorld" where
  "enterEpochFault env why w =
     enterNeedsReview env why [] (onPipe (\<lambda>p. p\<lparr>plEpochFaulted := True, plEpochFaultDetail := why\<rparr>) w)"

definition failAttempt :: "pipeEnv \<Rightarrow> string \<Rightarrow> bool \<Rightarrow> string \<Rightarrow> pipeWorld \<Rightarrow> pipeWorld" where
  "failAttempt env reason retryable detail w0 =
     (let w = onPipe (\<lambda>p. recordAccount reason (p\<lparr>plFailureReason := reason, plLastOutcome := reason\<rparr>))
                (recordAttempt env reason VerdictUnknown (endAttempt env w0))
      in if retryable \<and> attemptsRemain (pgMaxAttempts (peConfig env)) (baseOf w) then enterBackoff env detail reason w
         else enterFailed env detail reason w)"

definition parkCredential :: "pipeEnv \<Rightarrow> string \<Rightarrow> pipeWorld \<Rightarrow> pipeWorld" where
  "parkCredential env detail w =
     enterNeedsReview env detail []
       (onPipe (\<lambda>p. forgetAccount (p\<lparr>plLastOutcome := []\<rparr>)) (recordAttempt env [] VerdictUnknown (endAttempt env w)))"

definition failLaunch :: "pipeEnv \<Rightarrow> goError \<Rightarrow> string \<Rightarrow> bool \<Rightarrow> pipeWorld \<Rightarrow> pipeWorld" where
  "failLaunch env err what retryable w =
     (let detail = what @ '': '' @ erText err
      in if credentialTransient err then failAttempt env FailureCredential True detail w
         else if credentialParks err then parkCredential env detail w
         else failAttempt env FailureLaunchError retryable detail w)"

section \<open>The end of a run\<close>

definition beginVerify :: "pipeWorld \<Rightarrow> pipeWorld" where
  "beginVerify w = askPending (AskVerify (rIssue (baseOf w)) (plWorkspace (pwRec w))) w"

text \<open>\<open>applyOutcome\<close> once the account is complete.\<close>

definition routeOutcome :: "pipeEnv \<Rightarrow> pipeWorld \<Rightarrow> pipeWorld" where
  "routeOutcome env w =
     (case plOutcome (pwRec w) of
        None \<Rightarrow> w
      | Some (ev, detail) \<Rightarrow>
          let w1 = onPipe (\<lambda>p. p\<lparr>plOutcome := None\<rparr>) w
          in if evType ev = EventSucceeded then beginVerify w1
             else failAttempt env (evReason ev) (Retryable (evReason ev)) detail w1)"

text \<open>\<open>parkOnBudget\<close> once the account is complete.\<close>

definition parkNow :: "pipeEnv \<Rightarrow> pipeWorld \<Rightarrow> pipeWorld" where
  "parkNow env w =
     enterNeedsReview env ''budget exceeded'' FailureBudgetExceeded
       (recordAttempt env FailureBudgetExceeded VerdictUnknown
         (onPipe (\<lambda>p. recordAccount (plLastOutcome p) p) (endAttempt env w)))"

definition outcomeReady :: "pipeRecord \<Rightarrow> bool" where
  "outcomeReady p \<longleftrightarrow> plOutcome p \<noteq> None \<and> plEventsClosed p \<and> plDomainQuiet p"

text \<open>
  \<open>beginSummary\<close>, \<open>resumeAfterAccount\<close>, \<open>applyOutcome\<close> and \<open>parkOnBudget\<close> call each other; a record without a
  workspace has its account at once, and goes on where \<open>resumeAfterAccount\<close> does then.
\<close>

definition resumeSummarized :: "pipeEnv \<Rightarrow> pipeWorld \<Rightarrow> pipeWorld" where
  "resumeSummarized env w =
     (if plParkOnBudgetPending (pwRec w) then parkNow env (onPipe (\<lambda>p. p\<lparr>plParkOnBudgetPending := False\<rparr>) w)
      else if outcomeReady (pwRec w) then routeOutcome env w else w)"

definition beginSummary :: "pipeEnv \<Rightarrow> pipeWorld \<Rightarrow> pipeWorld" where
  "beginSummary env w =
     (if plSummarizing (pwRec w) then w
      else if \<not> hasWorkspace (baseOf w) then resumeSummarized env (onPipe (\<lambda>p. p\<lparr>plSummarized := True\<rparr>) w)
      else askPending (AskSummary (plWorkspace (pwRec w))) (onPipe (\<lambda>p. p\<lparr>plSummarizing := True\<rparr>) w))"

definition applyOutcome :: "pipeEnv \<Rightarrow> pipeWorld \<Rightarrow> pipeWorld" where
  "applyOutcome env w =
     (if \<not> outcomeReady (pwRec w) then w
      else if \<not> plSummarized (pwRec w) then beginSummary env w
      else routeOutcome env w)"

definition parkOnBudget :: "pipeEnv \<Rightarrow> pipeWorld \<Rightarrow> pipeWorld" where
  "parkOnBudget env w =
     (if \<not> plSummarized (pwRec w) then beginSummary env (onPipe (\<lambda>p. p\<lparr>plParkOnBudgetPending := True\<rparr>) w)
      else parkNow env w)"

definition resumeAfterAccount :: "pipeEnv \<Rightarrow> pipeWorld \<Rightarrow> pipeWorld" where
  "resumeAfterAccount env w =
     (if plParkOnBudgetPending (pwRec w) then parkOnBudget env (onPipe (\<lambda>p. p\<lparr>plParkOnBudgetPending := False\<rparr>) w)
      else applyOutcome env w)"

lemma resumeSummarized_resumes:
  "plSummarized (pwRec w) \<Longrightarrow> resumeSummarized env w = resumeAfterAccount env w"
  by (simp add: resumeSummarized_def resumeAfterAccount_def parkOnBudget_def applyOutcome_def onPipe_def)

definition endAttemptSuspended :: "pipeEnv \<Rightarrow> pipeWorld \<Rightarrow> pipeWorld" where
  "endAttemptSuspended env w0 =
     (let pending = plParkOnBudgetPending (pwRec w0);
          reason = (if pending then FailureBudgetExceeded
                    else case plOutcome (pwRec w0) of
                      Some (ev, _) \<Rightarrow> if evType ev = EventFailed then evReason ev else []
                    | None \<Rightarrow> []);
          w = onPipe (\<lambda>p. p\<lparr>plParkOnBudgetPending := False\<rparr>) w0
      in recordAttempt env reason VerdictUnknown (endAttempt env w))"

definition onSummarized :: "pipeEnv \<Rightarrow> goError + AttemptFacts \<Rightarrow> pipeWorld \<Rightarrow> pipeWorld" where
  "onSummarized env ans w0 =
     (let w1 = onPipe (\<lambda>p. p\<lparr>plSummarizing := False, plSummarized := True\<rparr>) (arrived w0);
          w = (case ans of Inl _ \<Rightarrow> w1
               | Inr facts \<Rightarrow> onPipe (\<lambda>p. p\<lparr>plAttemptFacts := facts, plAttemptFactsRead := True\<rparr>) w1)
      in case finishIfRequested env w of Some w' \<Rightarrow> w'
         | None \<Rightarrow> if rSuspended (baseOf w) then endAttemptSuspended env w else resumeAfterAccount env w)"

definition quiet :: "pipeEnv \<Rightarrow> pipeWorld \<Rightarrow> pipeWorld" where
  "quiet env w = applyOutcome env (freeWorkspaceMarker (onPipe (\<lambda>p. p\<lparr>plDomainQuiet := True, plHandle := None\<rparr>) w))"

definition beginProbe :: "pipeWorld \<Rightarrow> pipeWorld" where
  "beginProbe w =
     (if plProbeInFlight (pwRec w) then w
      else case plHandle (pwRec w) of None \<Rightarrow> w
        | Some h \<Rightarrow> ask (AskProbe h) (onPipe (\<lambda>p. p\<lparr>plProbeInFlight := True\<rparr>) w))"

definition confirmQuiet :: "pipeEnv \<Rightarrow> pipeWorld \<Rightarrow> pipeWorld" where
  "confirmQuiet env w =
     (let p = pwRec w
      in if plOutcome p = None \<or> \<not> plEventsClosed p \<or> plDomainQuiet p \<or> plProbeInFlight p \<or> plStopInFlight p
            \<or> exiting (plRec p) then w
         else if plHandle p = None then
           applyOutcome env (freeWorkspaceMarker (onPipe (\<lambda>p. p\<lparr>plDomainQuiet := True\<rparr>) w))
         else if \<not> plHandleDone p then beginProbe w
         else beginStop StopInterrupt w)"

definition onProbed :: "pipeEnv \<Rightarrow> bool \<Rightarrow> pipeWorld \<Rightarrow> pipeWorld" where
  "onProbed env confirmed w0 =
     (let w = onPipe (\<lambda>p. p\<lparr>plProbeInFlight := False\<rparr>) w0
      in if exiting (baseOf w) \<or> plStopInFlight (pwRec w) then w
         else if plHandleDone (pwRec w) then confirmQuiet env w
         else if \<not> confirmed then w
         else quiet env w)"

definition finishSuspended :: "pipeEnv \<Rightarrow> pipeWorld \<Rightarrow> pipeWorld" where
  "finishSuspended env w =
     (if \<not> plDomainQuiet (pwRec w) \<or> plHandle (pwRec w) \<noteq> None \<and> \<not> plHandleDone (pwRec w) then w
      else endAttempt env (onPipe (\<lambda>p. p\<lparr>plHandle := None, plOutcome := None\<rparr>) w))"

definition onHandleDone :: "pipeEnv \<Rightarrow> pipeWorld \<Rightarrow> pipeWorld" where
  "onHandleDone env w0 =
     (let w = onPipe (\<lambda>p. p\<lparr>plHandleDone := True\<rparr>) w0
      in if rSuspended (baseOf w) then finishSuspended env w else confirmQuiet env w)"

definition onStopped :: "pipeEnv \<Rightarrow> bool \<Rightarrow> pipeWorld \<Rightarrow> pipeWorld" where
  "onStopped env confirmed w0 =
     (let w = onPipe (\<lambda>p. p\<lparr>plStopInFlight := False\<rparr>) w0
      in if rSuspended (baseOf w) then
           (if \<not> confirmed then w
            else finishSuspended env (freeWorkspaceMarker (onPipe (\<lambda>p. p\<lparr>plDomainQuiet := True\<rparr>) w)))
         else if \<not> confirmed then w
         else if \<not> exiting (baseOf w) then quiet env w
         else
           let budgetStop = plBudgetStop (pwRec w);
               budgetPark = (budgetStop \<and> \<not> plFinishAfterStop (pwRec w));
               w1 = onRecord (\<lambda>r. r\<lparr>rStopping := False\<rparr>)
                 (onPipe (\<lambda>p. p\<lparr>plDomainQuiet := True, plHandle := None, plOutcome := None, plBudgetStop := False,
                    plFinishAfterStop := False\<rparr>) (freeWorkspaceMarker w))
           in if budgetPark then parkOnBudget env w1
              else
                let w2 = recordAttempt env (if budgetStop then FailureBudgetExceeded else FailureKilled) VerdictUnknown
                           (endAttempt env w1);
                    keep = plKeepOnStop (pwRec w2);
                    why = rStopReason (baseOf w2)
                in if rPending (baseOf w2) > 0 then onRecord (\<lambda>r. r\<lparr>rFinish := Some (keep, why)\<rparr>) w2
                   else finishNow env keep why w2)"

section \<open>The run\<close>

definition maxCost :: "pipeRecord \<Rightarrow> rat" where
  "maxCost p = (case pgMaxCostUSD (plDefinition p) of Some c \<Rightarrow> c | None \<Rightarrow> 0)"

definition accountUsage :: "runEvent \<Rightarrow> pipeWorld \<Rightarrow> pipeWorld" where
  "accountUsage ev w =
     (case evUsage ev of
        Some us \<Rightarrow>
          if evType ev = EventUsage then
            onRecord (\<lambda>r. r\<lparr>rCostUSD := rCostUSD r + usCostUSD us\<rparr>)
              (onPipe (\<lambda>p. p\<lparr>plAttemptUsage := \<lparr>usInputTokens = usInputTokens (plAttemptUsage p) + usInputTokens us,
                 usOutputTokens = usOutputTokens (plAttemptUsage p) + usOutputTokens us,
                 usCostUSD = usCostUSD (plAttemptUsage p) + usCostUSD us\<rparr>\<rparr>) w)
          else w
      | None \<Rightarrow> w)"

definition onRunEvent :: "pipeEnv \<Rightarrow> runEvent \<Rightarrow> pipeWorld \<Rightarrow> pipeWorld" where
  "onRunEvent env ev w0 =
     (let w = accountUsage ev w0; p = pwRec w; r = plRec p
      in if rState r \<noteq> StateRunning then w
         else case evType ev of
           EventStarted \<Rightarrow> onPipe (\<lambda>p. p\<lparr>plContinuation := (if evContinuation ev \<noteq> [] then evContinuation ev else plContinuation p),
             plSessionID := evSessionID ev\<rparr>) w
         | EventProgress \<Rightarrow> onPipe (\<lambda>p. p\<lparr>plOutput := retainOutput (evText ev) (plOutput p)\<rparr>) w
         | EventUsage \<Rightarrow>
             if evUsage ev = None then w
             else if maxCost p > 0 \<and> rCostUSD r > maxCost p \<and> \<not> rStopping r \<and> \<not> rSuspended r then
               beginStop StopDiscard (onRecord (\<lambda>r. r\<lparr>rStopping := True\<rparr>)
                 (onPipe (\<lambda>p. p\<lparr>plBudgetStop := True, plFailureReason := FailureBudgetExceeded,
                    plLastOutcome := FailureBudgetExceeded\<rparr>) w))
             else w
         | EventSucceeded \<Rightarrow>
             if rStopping r then w
             else (case transitionTo env StateVerifying (legalReason StateRunning StateVerifying) [] w of
                     None \<Rightarrow> w
                   | Some w1 \<Rightarrow> onPipe (\<lambda>p. p\<lparr>plLastOutcome := ''succeeded'', plOutcome := Some (ev, ''agent run failed'')\<rparr>) w1)
         | EventFailed \<Rightarrow>
             if rStopping r then w
             else onPipe (\<lambda>p. p\<lparr>plFailureReason := evReason ev, plOutcome := Some (ev, ''agent run failed'')\<rparr>) w
         | _ \<Rightarrow> w)"

definition crashEvent :: runEvent where
  "crashEvent = \<lparr>evType = EventFailed, evSessionID = [], evContinuation = [], evText = [], evUsage = None,
     evReason = FailureCrashed\<rparr>"

definition onEventsClosed :: "pipeEnv \<Rightarrow> bool \<Rightarrow> pipeWorld \<Rightarrow> pipeWorld" where
  "onEventsClosed env sawTerminal w0 =
     (let w = onPipe (\<lambda>p. p\<lparr>plEventsClosed := True\<rparr>) w0; r = baseOf w
      in if rSuspended r then w
         else if rStopping r then w
         else if rReleasing r \<or> rFinish r \<noteq> None then w
         else if \<not> sawTerminal then
           (if rState r \<noteq> StateRunning then w
            else confirmQuiet env
              (onPipe (\<lambda>p. p\<lparr>plOutcome := Some (crashEvent, ''the agent exited without a terminal event'')\<rparr>) w))
         else confirmQuiet env w)"

definition pumpRun :: "pipeWorld \<Rightarrow> pipeWorld" where
  "pumpRun w = w\<lparr>pwPump := (pwPump w)(rGeneration (baseOf w) \<mapsto> Pumping)\<rparr>"

section \<open>From the workspace to the run\<close>

definition beginPrepare :: "pipeEnv \<Rightarrow> pipeWorld \<Rightarrow> pipeWorld" where
  "beginPrepare env w0 =
     (if pwDraining w0 then w0
      else
        let w = onRecord (\<lambda>r. r\<lparr>rRanThisAttempt := False, rAfterRunFired := False\<rparr>)
              (onPipe (\<lambda>p. p\<lparr>plEventsClosed := False, plHandleDone := False, plDomainQuiet := False, plOutcome := None,
                 plBudgetStop := False, plFinishAfterStop := False, plAttemptStartedAt := peNow env,
                 plAttemptUsage := \<lparr>usInputTokens = 0, usOutputTokens = 0, usCostUSD = 0\<rparr>, plAttemptRecorded := False,
                 plAttemptAgent := pgAgent (peConfig env), plOutput := ([], 0),
                 plAttemptFacts := \<lparr>afCommits = [], afFiles = [], afCommitsTruncated = False, afFilesTruncated = False\<rparr>,
                 plAttemptFactsRead := False, plSummarizing := False, plSummarized := False, plParkOnBudgetPending := False\<rparr>) w0)
        in askPending (AskPrepare (rIssue (baseOf w)) (rAttempt (baseOf w)) (plClaimEpoch (pwRec w))) w)"

definition beginStart :: "pipeEnv \<Rightarrow> pipeWorld \<Rightarrow> pipeWorld" where
  "beginStart env w0 =
     (if pwDraining w0 then w0
      else
        let cfg = peConfig env;
            w = onPipe (\<lambda>p. p\<lparr>plDefinition := cfg, plAttemptAgent := pgAgent cfg\<rparr>) w0;
            p = pwRec w; r = plRec p
        in case peRender env p of
             Inl err \<Rightarrow> failAttempt env FailureLaunchError False (''rendering the prompt: '' @ erText err) w
           | Inr prompt \<Rightarrow> askPending (AskStart (rIssue r)
               \<lparr>lsWorkspace = workspacePaths (plWorkspace p), lsPrompt = prompt, lsContinuation = plContinuation p,
                lsEnv = [(''BEN_ISSUE'', ciIdentifier (rIssue r)), (''BEN_ATTEMPT'', itoa (rAttempt r)),
                  (''BEN_RUN_ID'', runID r), (''BEN_WORKSPACE'', wsPath (plWorkspace p)), (''BEN_BRANCH'', wsBranch (plWorkspace p))],
                lsStallTimeoutMS = pgStallTimeoutMS cfg, lsAttemptTimeoutMS = pgAttemptTimeoutMS cfg,
                lsMaxTurns = pgMaxTurns cfg, lsMaxCostUSD = maxCost p\<rparr>) w)"

record LocalBranchFacts =
  lbBaseSHA :: string
  lbHead :: string
  lbDescendsBase :: bool

definition setWorkspace :: "Workspace \<Rightarrow> pipeWorld \<Rightarrow> pipeWorld" where
  "setWorkspace ws w = onRecord (\<lambda>r. r\<lparr>rWorkspacePath := wsPath ws\<rparr>) (onPipe (\<lambda>p. p\<lparr>plWorkspace := ws\<rparr>) w)"

definition tupleText :: "pipeEnv \<Rightarrow> ClaimBase \<Rightarrow> goError option \<Rightarrow> string" where
  "tupleText env base err = peShow env base @ '': '' @ (case err of None \<Rightarrow> ''<nil>'' | Some e \<Rightarrow> erText e)"

definition onPrepared ::
  "pipeEnv \<Rightarrow> goError option \<Rightarrow> Workspace \<Rightarrow> LocalBranchFacts \<Rightarrow> ClaimBase \<Rightarrow> goError option \<Rightarrow> pipeWorld \<Rightarrow> pipeWorld" where
  "onPrepared env err ws facts base baseErr w0 =
     (let w = (if wsPath ws \<noteq> [] then setWorkspace ws (arrived w0) else arrived w0);
          epoch = plClaimEpoch (pwRec w)
      in case finishIfRequested env w of Some w' \<Rightarrow> w'
         | None \<Rightarrow>
           if pwDraining w then onRecord (\<lambda>r. r\<lparr>rSuspended := True\<rparr>) w
           else case err of
             Some e \<Rightarrow>
               if \<not> claimBaseAllowsPrepare base epoch (baseErr \<noteq> None) then
                 enterEpochFault env (''claim epoch: prepare refused under provider state '' @ tupleText env base baseErr) w
               else failLaunch env e ''preparing the workspace'' (pePrepRetryable env e) w
           | None \<Rightarrow>
               if baseErr \<noteq> None \<or> epoch \<le> 0 \<or> wsClaimEpoch ws \<noteq> epoch \<or> \<not> claimBaseAuthorizesWorkspace base ws then
                 enterEpochFault env (''claim epoch: prepared workspace carries '' @ itoa (wsClaimEpoch ws) @ ''/'' @ wsBaseSHA ws
                   @ ''/'' @ wsTargetBranch ws @ '', provider returned '' @ tupleText env base baseErr @ ''; expected epoch ''
                   @ itoa epoch @ '' and the same complete tuple'') w
               else
                 beginStart env
                   (if rAttempt (baseOf w) = 1
                       \<and> (wsPriorWork (plWorkspace (pwRec w)) \<or> advancedPastBase (lbHead facts) (lbDescendsBase facts) (lbBaseSHA facts))
                    then onRecord (\<lambda>r. r\<lparr>rAttempt := 2, rAttemptBase := 1\<rparr>) w else w))"

text \<open>\<open>got\<close> says that the runner returned a handle; handles are numbered as they come.\<close>

definition adoptHandle :: "bool \<Rightarrow> pipeWorld \<Rightarrow> pipeWorld" where
  "adoptHandle got w =
     (if got then emit (AgentStarted (pwNextHandle w))
        (onPipe (\<lambda>p. p\<lparr>plHandle := Some (pwNextHandle w)\<rparr>) (w\<lparr>pwNextHandle := pwNextHandle w + 1\<rparr>))
      else w)"

definition markRan :: "pipeWorld \<Rightarrow> pipeWorld" where
  "markRan w = pumpRun (onRecord (\<lambda>r. r\<lparr>rRanThisAttempt := True\<rparr>) w)"

definition onStarted :: "pipeEnv \<Rightarrow> goError option \<Rightarrow> bool \<Rightarrow> pipeWorld \<Rightarrow> pipeWorld" where
  "onStarted env err got w0 =
     (let w1 = adoptHandle got (arrived w0);
          w = (if err \<noteq> None \<and> \<not> got then freeWorkspaceMarker w1 else w1)
      in case finishIfRequested env w of Some w' \<Rightarrow> w'
         | None \<Rightarrow>
           if pwDraining w then
             (let w2 = onRecord (\<lambda>r. r\<lparr>rSuspended := True\<rparr>) w in if got then markRan w2 else w2)
           else case err of
             Some e \<Rightarrow> failLaunch env e ''starting the agent'' False w
           | None \<Rightarrow>
               (case transitionTo env StateRunning (legalReason StatePreparing StateRunning) [] w of
                  None \<Rightarrow> w
                | Some w2 \<Rightarrow> markRan w2))"

section \<open>From the claim to the workspace\<close>

definition beginClaimBase :: "pipeEnv \<Rightarrow> pipeWorld \<Rightarrow> pipeWorld" where
  "beginClaimBase env w =
     (let p = pwRec w; r = plRec p;
          eligible = (rState r = StateQueued \<or> rState r = StateBackoff \<and> plClaimBaseDispatch p)
      in if plClaimBaseInFlight p \<or> exiting r \<or> pwDraining w \<or> \<not> eligible \<or> plClaimEpoch p \<le> 0 then w
         else askPending (AskClaimBase (rIssue r) (plClaimEpoch p)) (onPipe (\<lambda>p. p\<lparr>plClaimBaseInFlight := True\<rparr>) w))"

definition claimBaseReady :: "pipeEnv \<Rightarrow> pipeWorld \<Rightarrow> pipeWorld" where
  "claimBaseReady env w =
     (if rState (baseOf w) = StateBackoff then
        (case transitionTo env StatePreparing (legalReason StateBackoff StatePreparing) []
               (onRecord (\<lambda>r. r\<lparr>rAttempt := rAttempt r + 1\<rparr>) (onPipe (\<lambda>p. p\<lparr>plClaimBaseDispatch := False\<rparr>) w)) of
           None \<Rightarrow> onRecord (\<lambda>r. r\<lparr>rAttempt := rAttempt r + 1\<rparr>) (onPipe (\<lambda>p. p\<lparr>plClaimBaseDispatch := False\<rparr>) w)
         | Some w1 \<Rightarrow> beginPrepare env w1)
      else
        (case transitionTo env StateClaimed (legalReason StateQueued StateClaimed) [] w of
           None \<Rightarrow> forgetRecord w
         | Some w1 \<Rightarrow> commentOn env MilestoneClaimed w1))"

text \<open>\<open>blocked\<close>: the provider's ended cycles were read and could not be listed.\<close>

definition onClaimBaseBegun ::
  "pipeEnv \<Rightarrow> goError option \<Rightarrow> ClaimBase \<Rightarrow> goError option \<Rightarrow> bool \<Rightarrow> pipeWorld \<Rightarrow> pipeWorld" where
  "onClaimBaseBegun env err base baseErr blocked w0 =
     (let w = onPipe (\<lambda>p. p\<lparr>plClaimBaseInFlight := False\<rparr>) (arrived w0);
          epoch = plClaimEpoch (pwRec w); st = rState (baseOf w)
      in case finishIfRequested env w of Some w' \<Rightarrow> w'
         | None \<Rightarrow>
           if exiting (baseOf w) \<or> pwDraining w then w
           else if blocked then w
           else if st \<noteq> StateQueued \<and> (st \<noteq> StateBackoff \<or> \<not> plClaimBaseDispatch (pwRec w)) then w
           else case err of
             None \<Rightarrow> claimBaseReady env w
           | Some _ \<Rightarrow>
               if (case baseErr of None \<Rightarrow> False | Some e \<Rightarrow> erTargetUnrecorded e) \<and> legacyClaimBaseCanUpgrade base epoch then w
               else if baseErr \<noteq> None then
                 enterEpochFault env ''claim epoch: pending intent is unreadable after initialization failed'' w
               else if claimBasePinsEpoch base epoch then claimBaseReady env w
               else if cbState base = ClaimBaseAbsent \<or> cbState base = ClaimBasePending \<and> cbEpoch base = epoch
                   \<or> claimBasePinsEpoch base (cbEpoch base) \<and> cbEpoch base \<noteq> epoch then w
               else enterEpochFault env (''claim epoch: initialization found contradictory provider state '' @ peShow env base) w)"

definition onClaimProjected :: "pipeEnv \<Rightarrow> pipeWorld \<Rightarrow> pipeWorld" where
  "onClaimProjected env w =
     (if rState (baseOf w) \<noteq> StateClaimed \<or> exiting (baseOf w) then w
      else case transitionTo env StatePreparing (legalReason StateClaimed StatePreparing) [] w of
        None \<Rightarrow> w
      | Some w1 \<Rightarrow> beginPrepare env w1)"

definition beginApproval :: "pipeEnv \<Rightarrow> pipeWorld \<Rightarrow> pipeWorld" where
  "beginApproval env w =
     (if plApprovalInFlight (pwRec w) \<or> exiting (baseOf w) \<or> pwDraining w then w
      else askPending (AskApproval (rIssue (baseOf w)) (hfRequired (pgHeld (peConfig env))) (hfPrincipal (pgHeld (peConfig env))))
        (onPipe (\<lambda>p. p\<lparr>plApprovalInFlight := True\<rparr>) w))"

definition goneWhy :: string where "goneWhy = ''issue is gone from the tracker''"

definition onApproved ::
  "runtime \<Rightarrow> pipeEnv \<Rightarrow> string list \<Rightarrow> string \<Rightarrow> goError + (ClaimEvent list \<times> ContentApproval) \<Rightarrow> pipeWorld \<Rightarrow> pipeWorld" where
  "onApproved u env required who ans w0 =
     (let w = onPipe (\<lambda>p. p\<lparr>plApprovalInFlight := False\<rparr>) (arrived w0)
      in case finishIfRequested env w of Some w' \<Rightarrow> w'
         | None \<Rightarrow>
           if exiting (baseOf w) \<or> pwDraining w \<or> rState (baseOf w) \<noteq> StateQueued then w
           else case ans of
             Inl e \<Rightarrow> if erNotFound e then finishNow env False goneWhy (onRecord markGone w) else w
           | Inr (history, approval) \<Rightarrow>
               let w1 = emit (ApprovalRead history required approval) w
               in case checkApproval u history required approval of
                    Inl why \<Rightarrow> enterNeedsReview env (''content approval: '' @ peExplain env why) [] w1
                  | Inr approved \<Rightarrow>
                      let w2 = onRecord (\<lambda>r. pin r approved) w1;
                          epoch = claimCycleAnchor u history who
                      in if epoch \<le> 0 then
                           enterEpochFault env ''claim epoch: current assignment has no positive establishing event ID'' w2
                         else beginClaimBase env (onPipe (\<lambda>p. p\<lparr>plClaimEpoch := epoch\<rparr>) w2))"

definition onClaimed :: "pipeEnv \<Rightarrow> goError option \<Rightarrow> bool \<Rightarrow> pipeWorld \<Rightarrow> pipeWorld" where
  "onClaimed env err verified w0 =
     (let w = arrived w0
      in case finishIfRequested env w of Some w' \<Rightarrow> w'
         | None \<Rightarrow>
           (case err of
              Some e \<Rightarrow>
                if erNotAttempted e then forgetRecord w
                else onRecord (\<lambda>r. release (peLoop env) r (''claim could not be verified: '' @ erText e)) w
            | None \<Rightarrow>
                if \<not> verified then forgetRecord w
                else beginApproval env (onPipe (\<lambda>p. p\<lparr>plClaimVerified := True\<rparr>) w)))"

section \<open>Verdicts\<close>

datatype verifyAnswer = EpochReadFailed goError | EpochFault string | Verified "goError + Result"

text \<open>The worker of \<open>beginVerify\<close> over the answers of the tracker, the workspaces and the verifier.\<close>

definition verifyWorker ::
  "runtime \<Rightarrow> (ClaimBase \<Rightarrow> string) \<Rightarrow> string \<Rightarrow> Workspace \<Rightarrow> goError + ClaimEvent list \<Rightarrow> ClaimBase \<times> goError option
     \<Rightarrow> goError + Result \<Rightarrow> verifyAnswer" where
  "verifyWorker u render who ws history base res =
     (case history of
        Inl e \<Rightarrow> EpochReadFailed (e\<lparr>erText := ''reading the current claim epoch before verification: '' @ erText e\<rparr>)
      | Inr events \<Rightarrow>
          let anchor = claimCycleAnchor u events who
          in if anchor \<le> 0 \<or> anchor \<noteq> wsClaimEpoch ws then
               EpochFault (''claim epoch: verification expected assignment '' @ itoa (wsClaimEpoch ws)
                 @ '', current history names '' @ itoa anchor)
             else if snd base \<noteq> None \<or> \<not> claimBaseAuthorizesWorkspace (fst base) ws then
               EpochFault (''claim epoch: verification expected '' @ itoa (wsClaimEpoch ws) @ ''/'' @ wsBaseSHA ws @ ''/''
                 @ wsTargetBranch ws @ '', provider returned '' @ render (fst base) @ '': ''
                 @ (case snd base of None \<Rightarrow> ''<nil>'' | Some e \<Rightarrow> erText e))
             else Verified res)"

definition verdictString :: "evidence \<Rightarrow> string" where
  "verdictString v = (case v of VerdictUnknown \<Rightarrow> ''unknown'' | VerdictPublished \<Rightarrow> ''published''
     | VerdictIncomplete \<Rightarrow> ''incomplete'' | VerdictContradicted \<Rightarrow> ''contradicted''
     | VerdictOther n \<Rightarrow> ''Verdict('' @ itoa n @ '')'')"

definition onVerdict :: "pipeEnv \<Rightarrow> Result \<Rightarrow> pipeWorld \<Rightarrow> pipeWorld" where
  "onVerdict env res w =
     (case resVerdict res of
        VerdictPublished \<Rightarrow>
          (case transitionTo env StateDone (legalReason StateVerifying StateDone) [] w of
             None \<Rightarrow> w
           | Some w1 \<Rightarrow> disposePublished env (commentOn env MilestonePublished (onPipe (\<lambda>p. p\<lparr>plPRURL := resPRURL res\<rparr>) w1)))
      | VerdictIncomplete \<Rightarrow>
          if \<not> continuable (pgMaxTurns (peConfig env)) (baseOf w) then
            enterNeedsReview env ''max_turns exhausted without published evidence'' [] w
          else armTimer timerContinuation
            (onRecord (\<lambda>r. r\<lparr>rGeneration := rGeneration r + 1\<rparr>)
              (onPipe (\<lambda>p. forgetAccount (p\<lparr>plSessionID := [], plFailureReason := []\<rparr>)) w))
      | VerdictContradicted \<Rightarrow>
          enterNeedsReview env
            (if resDetail res = [] then ''publish evidence contradicts the agent's claim'' else resDetail res) [] w
      | v \<Rightarrow>
          enterNeedsReview env (''verification returned no usable verdict ('' @ verdictString v @ '')''
            @ (if resDetail res \<noteq> [] then '': '' @ resDetail res else [])) [] w)"

definition retryVerify :: "pipeWorld \<Rightarrow> pipeWorld" where
  "retryVerify w = onPipe (\<lambda>p. p\<lparr>plVerifyRetry := True\<rparr>) w"

definition onVerified :: "pipeEnv \<Rightarrow> verifyAnswer \<Rightarrow> pipeWorld \<Rightarrow> pipeWorld" where
  "onVerified env ans w0 =
     (let w = arrived w0; account = (\<lambda>w. onPipe (\<lambda>p. recordAccount (plLastOutcome p) p) (endAttempt env w))
      in case finishIfRequested env w of Some w' \<Rightarrow> w'
         | None \<Rightarrow>
           if rSuspended (baseOf w) then w
           else case ans of
             EpochFault detail \<Rightarrow> enterEpochFault env detail (recordAttempt env [] VerdictUnknown (endAttempt env w))
           | EpochReadFailed e \<Rightarrow>
               if erNotFound e then finishNow env False ''issue disappeared before verification'' (onRecord markGone w)
               else retryVerify w
           | Verified (Inl e) \<Rightarrow>
               if erNotFound e then finishNow env False ''issue disappeared before verification'' (onRecord markGone w)
               else if erApprovalPending e then retryVerify w
               else if credentialTransient e then retryVerify w
               else enterNeedsReview env (''verification failed: '' @ erText e) [] (recordAttempt env [] VerdictUnknown (account w))
           | Verified (Inr res) \<Rightarrow> onVerdict env res (recordAttempt env [] (resVerdict res) (account w)))"

definition driveVerifyRetry :: "pipeWorld \<Rightarrow> pipeWorld" where
  "driveVerifyRetry w =
     (if rState (baseOf w) \<noteq> StateVerifying \<or> \<not> plVerifyRetry (pwRec w) \<or> rPending (baseOf w) > 0
         \<or> rSuspended (baseOf w) \<or> exiting (baseOf w) then w
      else beginVerify (onPipe (\<lambda>p. p\<lparr>plVerifyRetry := False\<rparr>) w))"

section \<open>Re-dispatch\<close>

text \<open>What the worker of \<open>onTimer\<close> read, up to the first error.\<close>

record refetched =
  rfErr :: "goError option"
  rfIssue :: "coreIssue option"
  rfHistory :: "ClaimEvent list"
  rfApproval :: ContentApproval
  rfRequired :: "string list"
  rfPrincipal :: string
  rfClaimBase :: ClaimBase
  rfClaimBaseErr :: "goError option"
  rfMarker :: RunMarkerState
  rfMarkerErr :: bool

definition onTimer :: "pipeEnv \<Rightarrow> timerKind \<Rightarrow> pipeWorld \<Rightarrow> pipeWorld" where
  "onTimer env kind w = ask (AskRefetch kind (plClaimEpoch (pwRec w)) (pgRevision (peConfig env))) w"

definition routable :: "runtime \<Rightarrow> heldConfig \<Rightarrow> coreIssue \<Rightarrow> bool" where
  "routable u cfg issue \<longleftrightarrow>
     list_all (containsFold u (ciLabels issue)) (hfRequired cfg)
     \<and> length (ciAssignees issue) = 1 \<and> equalFold u (hd (ciAssignees issue)) (hfPrincipal cfg)"

definition answerOf :: "goError option \<Rightarrow> coreIssue option \<Rightarrow> refreshResult" where
  "answerOf err issue =
     \<lparr>rsErr = map_option (\<lambda>e. if erNotFound e then ErrIssueNotFound else ReadRefused) err, rsIssue = issue\<rparr>"

text \<open>The claim-base gate before a re-dispatch: an epoch fault, another round of waiting, or the way is free.\<close>

datatype baseGate = GateFault string | GateRearm | GateOpen

definition baseGateOf :: "runtime \<Rightarrow> (ClaimBase \<Rightarrow> string) \<Rightarrow> pipeRecord \<Rightarrow> tid \<Rightarrow> refetched \<Rightarrow> baseGate" where
  "baseGateOf u render p anchor a =
     (let base = rfClaimBase a; ws = plWorkspace p
      in case cbState base of
           ClaimBasePinned \<Rightarrow>
             if \<not> claimBasePinsEpoch base (plClaimEpoch p)
                \<or> hasWorkspace (plRec p) \<and> \<not> claimBaseAuthorizesWorkspace base ws
             then GateFault (''claim epoch: re-dispatch found pinned state '' @ render base @ '', expected epoch ''
               @ itoa (plClaimEpoch p) @ '' and the retained workspace pair'')
             else GateOpen
         | ClaimBasePending \<Rightarrow>
             (let (gate, resolved) = classifyRecoveryClaimBase anchor base False (rfMarker a) (rfMarkerErr a)
                    (currentCycleRunningEvidence u (rfHistory a) anchor)
              in if \<not> resolved then GateFault ''claim epoch: pending state unexpectedly bypassed the re-dispatch gate''
                 else if rvAction gate = recoveryActionBlocked then GateRearm
                 else if rvAction gate \<noteq> recoveryActionApprove \<or> rvEpochFault gate then
                   GateFault (''claim epoch: '' @ rvDetail gate)
                 else if wsClaimEpoch ws \<noteq> 0 \<or> wsBaseSHA ws \<noteq> [] \<or> wsTargetBranch ws \<noteq> [] then
                   GateFault ''claim epoch: pending state conflicts with a retained workspace epoch/base/target tuple''
                 else GateOpen)
         | _ \<Rightarrow> GateFault (''claim epoch: re-dispatch found non-authorizing provider state '' @ render base))"

definition rearm :: "timerKind \<Rightarrow> pipeWorld \<Rightarrow> pipeWorld" where
  "rearm kind w = armTimer kind w"

text \<open>\<open>onTimerFetched\<close> from the point where a slot is free.\<close>

definition redispatch :: "runtime \<Rightarrow> pipeEnv \<Rightarrow> timerKind \<Rightarrow> refetched \<Rightarrow> pipeWorld \<Rightarrow> pipeWorld" where
  "redispatch u env kind a w =
     (let cfg = peConfig env; p = pwRec w; epoch = plClaimEpoch p;
          anchor = claimCycleAnchor u (rfHistory a) (rfPrincipal a)
      in if anchor \<le> 0 then enterEpochFault env ''claim epoch: re-dispatch has no positive current assignment event'' w
         else if epoch = 0 then
           beginClaimBase env (onPipe (\<lambda>p. p\<lparr>plClaimEpoch := anchor, plClaimBaseDispatch := True, plDefinition := cfg\<rparr>) w)
         else if anchor \<noteq> epoch then
           enterEpochFault env (''claim epoch: re-dispatch expected assignment '' @ itoa epoch @ '', history names '' @ itoa anchor) w
         else if rfClaimBaseErr a \<noteq> None then
           enterEpochFault env ''claim epoch: provider state is unreadable before re-dispatch'' w
         else case baseGateOf u (peShow env) p anchor a of
           GateFault why \<Rightarrow> enterEpochFault env why w
         | GateRearm \<Rightarrow> rearm kind w
         | GateOpen \<Rightarrow>
             let verifying = (rState (baseOf w) = StateVerifying);
                 reason = legalReason (if verifying then StateVerifying else StateBackoff) StatePreparing;
                 w1 = onRecord (\<lambda>r. r\<lparr>rTurns := (if verifying then rTurns r + 1 else rTurns r), rAttempt := rAttempt r + 1\<rparr>)
                        (onPipe (\<lambda>p. p\<lparr>plDefinition := cfg\<rparr>) w)
             in (case transitionTo env StatePreparing reason [] w1 of None \<Rightarrow> w1 | Some w2 \<Rightarrow> beginPrepare env w2))"

definition onTimerFetched :: "runtime \<Rightarrow> pipeEnv \<Rightarrow> timerKind \<Rightarrow> nat \<Rightarrow> refetched \<Rightarrow> pipeWorld \<Rightarrow> pipeWorld" where
  "onTimerFetched u env kind revision a w =
     (let cfg = peConfig env; held = pgHeld cfg
      in if exiting (baseOf w) then w
         else if pgRevision cfg \<noteq> revision then rearm kind w
         else if gone (answerOf (rfErr a) (rfIssue a)) then finishNow env False goneWhy (onRecord markGone w)
         else if rfErr a \<noteq> None then rearm kind w
         else case rfIssue a of
           None \<Rightarrow> w
         | Some fresh \<Rightarrow>
             if \<not> activeIssue u held fresh then finishNow env False ''issue went terminal while waiting to re-dispatch'' w
             else if \<not> routable u held fresh then finishNow env True ''issue is no longer routable'' w
             else
               let w1 = emit (ApprovalRead (rfHistory a) (rfRequired a) (rfApproval a)) w
               in case checkApproval u (rfHistory a) (rfRequired a) (rfApproval a) of
                    Inl why \<Rightarrow> enterNeedsReview env (''content approval: '' @ peExplain env why) [] w1
                  | Inr approved \<Rightarrow>
                      let w2 = onRecord (\<lambda>r. let r1 = adoptRouting r fresh
                                 in if acAt approved > rApprovedAt r1 then pin r1 approved else r1) w1
                      in if pgBlocked cfg then rearm kind w2
                         else if peFreeSlots env \<le> 0 then
                           (if rState (baseOf w2) = StateBackoff then
                              (case transitionTo env StateBackoff (legalReason StateBackoff StateBackoff) [] w2 of
                                 None \<Rightarrow> w2 | Some w3 \<Rightarrow> rearm kind w3)
                            else rearm kind w2)
                         else redispatch u env kind a w2)"

section \<open>Ticks, parked claims and shutdown\<close>

definition hasStateLabel :: "runtime \<Rightarrow> coreIssue \<Rightarrow> bool" where
  "hasStateLabel u issue = list_ex (\<lambda>l. length l \<ge> 4 \<and> equalFold u (take 4 l) ''ben:'') (ciLabels issue)"

definition reconcile :: "runtime \<Rightarrow> pipeEnv \<Rightarrow> refreshResult \<Rightarrow> pipeWorld \<Rightarrow> pipeWorld" where
  "reconcile u env res w =
     (let held = pgHeld (peConfig env)
      in if exiting (baseOf w) \<or> rState (baseOf w) = StateNeedsReview then w
         else if gone res then stopAndFinish env False goneWhy (onRecord markGone w)
         else case rsIssue res of
           None \<Rightarrow> w
         | Some fresh \<Rightarrow>
             if rsErr res \<noteq> None then w
             else if \<not> activeIssue u held fresh then stopAndFinish env False ''issue went terminal'' w
             else if \<not> routable u held fresh then stopAndFinish env True ''issue is no longer routable'' w
             else onRecord (\<lambda>r. adoptRouting r fresh) w)"

definition applyParked :: "runtime \<Rightarrow> pipeEnv \<Rightarrow> coreIssue \<Rightarrow> bool \<Rightarrow> pipeWorld \<Rightarrow> pipeWorld" where
  "applyParked u env fresh usable w0 =
     (if \<not> activeIssue u (pgHeld (peConfig env)) fresh then stopAndFinish env False ''issue went terminal'' w0
      else
        let w = onRecord (\<lambda>r. adoptRouting r fresh) w0
        in if \<not> usable \<or> hasStateLabel u fresh then w
           else
             let w1 = onRecord restoreBudgets w
             in if plEpochFaulted (pwRec w1) then
                  commentOn env MilestoneNeedsReview
                    (onRecord (\<lambda>r. oweProjection (peLoop env) (r\<lparr>rUpdatedAt := peNow env\<rparr>)
                       ''re-project ben:needs-review for epoch fault'' StateLabelNeedsReview) w1)
                else enterBackoff env ''human removed the state label; budgets restored'' [] w1)"

definition confirmParkedAbsence :: "pipeWorld \<Rightarrow> pipeWorld" where
  "confirmParkedAbsence w =
     ask (AskParked (\<not> owesProjection (baseOf w))) (onPipe (\<lambda>p. p\<lparr>plAbsenceInFlight := True\<rparr>) w)"

text \<open>
  A sweep over a parked record, when one was read: whether its labels were settled then, the issue if the list
  had it, and whether the rotation picked it for a confirmation.
\<close>

definition sweepParked :: "runtime \<Rightarrow> pipeEnv \<Rightarrow> bool \<Rightarrow> coreIssue option \<Rightarrow> bool \<Rightarrow> pipeWorld \<Rightarrow> pipeWorld" where
  "sweepParked u env settled seen picked w =
     (if exiting (baseOf w) \<or> rState (baseOf w) \<noteq> StateNeedsReview \<or> plAbsenceInFlight (pwRec w) then w
      else case seen of
        None \<Rightarrow> if picked then confirmParkedAbsence w else w
      | Some fresh \<Rightarrow> applyParked u env fresh (settled \<and> \<not> owesProjection (baseOf w)) w)"

definition onParkedConfirmed :: "runtime \<Rightarrow> pipeEnv \<Rightarrow> bool \<Rightarrow> refreshResult \<Rightarrow> pipeWorld \<Rightarrow> pipeWorld" where
  "onParkedConfirmed u env settled res w0 =
     (let w = onPipe (\<lambda>p. p\<lparr>plAbsenceInFlight := False\<rparr>) w0; held = pgHeld (peConfig env)
      in if exiting (baseOf w) \<or> rState (baseOf w) \<noteq> StateNeedsReview then w
         else if gone res then stopAndFinish env False goneWhy (onRecord markGone w)
         else case rsIssue res of
           None \<Rightarrow> w
         | Some fresh \<Rightarrow>
             if rsErr res \<noteq> None then w
             else if \<not> containsFold u (ciAssignees fresh) (hfPrincipal held) then
               (let keep = activeIssue u held fresh
                in stopAndFinish env keep
                     (if keep then ''the principal is no longer assigned''
                      else ''issue went terminal and the principal is no longer assigned'') (onRecord markClaimLost w))
             else applyParked u env fresh (settled \<and> \<not> owesProjection (baseOf w)) w)"

definition owedCandidate :: "pipeWorld \<Rightarrow> bool" where
  "owedCandidate w \<longleftrightarrow> rOwedWriteFailed (baseOf w) \<and> rOwed (baseOf w) \<noteq> [] \<and> \<not> rGone (baseOf w) \<and> \<not> plAbsenceInFlight (pwRec w)"

definition confirmOwedAbsence :: "pipeWorld \<Rightarrow> pipeWorld" where
  "confirmOwedAbsence w =
     ask (AskOwed (oeWhat (hd (rOwed (baseOf w))))) (onPipe (\<lambda>p. p\<lparr>plAbsenceInFlight := True\<rparr>) w)"

definition onOwedConfirmed :: "pipeEnv \<Rightarrow> refreshResult \<Rightarrow> pipeWorld \<Rightarrow> pipeWorld" where
  "onOwedConfirmed env res w0 =
     (let w = onPipe (\<lambda>p. p\<lparr>plAbsenceInFlight := False\<rparr>) w0
      in if rGone (baseOf w) then w
         else if \<not> rOwedWriteFailed (baseOf w) then w
         else if gone res then
           onRecord (driveOwed (peLoop env)) (stopAndFinish env False goneWhy (onRecord markGone w))
         else w)"

text \<open>\<open>retryPendingExits\<close> for the record; the hand-over of a finished one to a held claim is in \<open>OrchHeld\<close>.\<close>

definition retryPendingExits :: "pipeEnv \<Rightarrow> pipeWorld \<Rightarrow> pipeWorld" where
  "retryPendingExits env w0 =
     (let w1 = onRecord (driveOwed (peLoop env)) w0;
          w2 = (if rStopping (baseOf w1) \<and> plHandle (pwRec w1) \<noteq> None then beginStop StopDiscard w1 else w1);
          w3 = (if rState (baseOf w2) = StateQueued \<and> plClaimVerified (pwRec w2) then
                  (if plClaimEpoch (pwRec w2) > 0 then beginClaimBase env w2 else beginApproval env w2)
                else w2);
          w4 = (if rState (baseOf w3) = StateBackoff \<and> plClaimBaseDispatch (pwRec w3) \<and> plClaimEpoch (pwRec w3) > 0
                then beginClaimBase env w3 else w3)
      in confirmQuiet env w4)"

definition driveShutdown :: "pipeEnv \<Rightarrow> pipeWorld \<Rightarrow> pipeWorld" where
  "driveShutdown env w0 =
     (if \<not> pwDraining w0 \<or> \<not> pwTracked w0 then w0
      else if orderedExit (baseOf w0) then onRecord (driveOwed (peLoop env)) w0
      else
        let w1 = onRecord (\<lambda>r. r\<lparr>rSuspended := True\<rparr>) w0;
            w2 = (if plHandle (pwRec w1) = None \<and> rPending (baseOf w1) = 0
                  then completeShutdown env (recordAttempt env FailureKilled VerdictUnknown w1) else w1);
            w3 = onRecord (driveOwed (peLoop env)) w2
        in if plHandle (pwRec w3) \<noteq> None \<and> \<not> plDomainQuiet (pwRec w3) then beginStop StopInterrupt w3 else w3)"

definition onEffect :: "pipeEnv \<Rightarrow> bool \<Rightarrow> pipeWorld \<Rightarrow> pipeWorld" where
  "onEffect env failed w0 =
     (let r = baseOf w0; (r', call) = onEffectDone (peLoop env) r (oeWhat (hd (rOwed r))) failed;
          w = onRecord (\<lambda>_. r') w0
      in case call of NoCall \<Rightarrow> w | CallClaimProjected \<Rightarrow> onClaimProjected env w | CallForget \<Rightarrow> forgetRecord w)"

section \<open>Signals\<close>

datatype (discs_sels) pipeAnswer =
    AnsClaim "goError option" bool
  | AnsApproval "goError + (ClaimEvent list \<times> ContentApproval)"
  | AnsClaimBase "goError option" ClaimBase "goError option" bool
  | AnsPrepared "goError option" Workspace LocalBranchFacts ClaimBase "goError option"
  | AnsStarted "goError option" bool
  | AnsTermination bool
  | AnsSummary "goError + AttemptFacts"
  | AnsVerified verifyAnswer
  | AnsTimer
  | AnsRefetched refetched
  | AnsRead refreshResult

text \<open>
  A termination that is confirmed is an event of the trace. The record's answer to its own stop request
  is a confirmation without an agent.
\<close>

definition confirmedQuiet :: "pipeRequest \<Rightarrow> pipeAnswer \<Rightarrow> pipeWorld \<Rightarrow> pipeWorld" where
  "confirmedQuiet q ans w =
     (if ans \<noteq> AnsTermination True then w
      else case q of AskProbe h \<Rightarrow> emit (AgentQuiet h) w | AskStop (Some h) mode \<Rightarrow> emit (AgentQuiet h) w | _ \<Rightarrow> w)"

definition handleRecord :: "runtime \<Rightarrow> pipeEnv \<Rightarrow> pipeRequest \<Rightarrow> pipeAnswer \<Rightarrow> pipeWorld \<Rightarrow> pipeWorld" where
  "handleRecord u env q ans w =
     (case ans of
        AnsClaim err verified \<Rightarrow> onClaimed env err verified w
      | AnsApproval facts \<Rightarrow> (case q of AskApproval _ required who \<Rightarrow> onApproved u env required who facts w | _ \<Rightarrow> w)
      | AnsClaimBase err base baseErr blocked \<Rightarrow> onClaimBaseBegun env err base baseErr blocked w
      | AnsPrepared err ws facts base baseErr \<Rightarrow> onPrepared env err ws facts base baseErr w
      | AnsStarted err got \<Rightarrow> onStarted env err got w
      | AnsTermination confirmed \<Rightarrow>
          (case q of AskProbe _ \<Rightarrow> onProbed env confirmed w
           | AskStop target _ \<Rightarrow> onStopped env (confirmed \<or> target = None) w | _ \<Rightarrow> w)
      | AnsSummary facts \<Rightarrow> onSummarized env facts w
      | AnsVerified verdict \<Rightarrow> onVerified env verdict w
      | AnsTimer \<Rightarrow> (case q of AskTimer kind \<Rightarrow> onTimer env kind w | _ \<Rightarrow> w)
      | AnsRefetched a \<Rightarrow> (case q of AskRefetch kind _ revision \<Rightarrow> onTimerFetched u env kind revision a w | _ \<Rightarrow> w)
      | AnsRead res \<Rightarrow>
          (case q of AskParked settled \<Rightarrow> onParkedConfirmed u env settled res w
           | AskOwed _ \<Rightarrow> onOwedConfirmed env res w | _ \<Rightarrow> w))"

text \<open>An answer has the form its request asks for.\<close>

definition answers :: "pipeRequest \<Rightarrow> pipeAnswer \<Rightarrow> bool" where
  "answers q ans \<longleftrightarrow>
     (case q of
        AskClaim _ \<Rightarrow> is_AnsClaim ans
      | AskApproval _ _ _ \<Rightarrow> is_AnsApproval ans
      | AskClaimBase _ _ \<Rightarrow> is_AnsClaimBase ans
      | AskPrepare _ _ _ \<Rightarrow> is_AnsPrepared ans
      | AskStart _ _ \<Rightarrow> is_AnsStarted ans
      | AskProbe _ \<Rightarrow> is_AnsTermination ans
      | AskStop _ _ \<Rightarrow> is_AnsTermination ans
      | AskSummary _ \<Rightarrow> is_AnsSummary ans
      | AskVerify _ _ \<Rightarrow> is_AnsVerified ans
      | AskTimer _ \<Rightarrow> ans = AnsTimer
      | AskRefetch _ _ _ \<Rightarrow> is_AnsRefetched ans
      | AskParked _ \<Rightarrow> is_AnsRead ans
      | AskOwed _ \<Rightarrow> is_AnsRead ans)"

fun outlivesGeneration :: "pipeRequest \<Rightarrow> bool" where
  "outlivesGeneration (AskParked _) = True"
| "outlivesGeneration (AskOwed _) = True"
| "outlivesGeneration _ = False"

definition deliverable :: "int \<Rightarrow> pipeRequest \<Rightarrow> pipeWorld \<Rightarrow> bool" where
  "deliverable gen q w \<longleftrightarrow> outlivesGeneration q \<or> gen = rGeneration (baseOf w)"

datatype pipeSignal =
    Reply int pipeRequest pipeAnswer
  | RunEvent int runEvent
  | EventsClosed int bool
  | HandleClosed int
  | EffectDone bool
  | Tick
  | Reconciled "refreshResult option" "(bool \<times> coreIssue option \<times> bool) option" bool
  | ShutdownOrder

text \<open>The pump of a run sends its events in order, then that the stream is closed, then that the handle is done.\<close>

definition pipeHandle :: "runtime \<Rightarrow> pipeEnv \<Rightarrow> pipeSignal \<Rightarrow> pipeWorld \<Rightarrow> pipeWorld" where
  "pipeHandle u env sig w =
     (case sig of
        Reply gen q ans \<Rightarrow>
          if (gen, q) \<in> set (pwOut w) \<and> answers q ans then
            let w1 = w\<lparr>pwOut := remove1 (gen, q) (pwOut w)\<rparr>
            in if deliverable gen q w1 then handleRecord u env q ans (confirmedQuiet q ans w1) else w1
          else w
      | RunEvent gen ev \<Rightarrow>
          if pwPump w gen = Some Pumping \<and> gen = rGeneration (baseOf w) then onRunEvent env ev w else w
      | EventsClosed gen sawTerminal \<Rightarrow>
          if pwPump w gen = Some Pumping then
            let w1 = w\<lparr>pwPump := (pwPump w)(gen \<mapsto> StreamClosed)\<rparr>
            in if gen = rGeneration (baseOf w) then onEventsClosed env sawTerminal w1 else w1
          else w
      | HandleClosed gen \<Rightarrow>
          if pwPump w gen = Some StreamClosed then
            let w1 = w\<lparr>pwPump := (pwPump w)(gen \<mapsto> HandleDone)\<rparr>
            in if gen = rGeneration (baseOf w) then onHandleDone env w1 else w1
          else w
      | EffectDone failed \<Rightarrow> if rOwedInFlight (baseOf w) \<and> rOwed (baseOf w) \<noteq> [] then onEffect env failed w else w
      | Tick \<Rightarrow> driveVerifyRetry w
      | Reconciled refreshed parked pickedOwed \<Rightarrow>
          let w1 = (case refreshed of None \<Rightarrow> w | Some res \<Rightarrow> reconcile u env res w);
              w2 = (case parked of None \<Rightarrow> w1 | Some (settled, seen, picked) \<Rightarrow> sweepParked u env settled seen picked w1);
              w3 = retryPendingExits env w2
          in if pickedOwed \<and> \<not> pwDraining w3 \<and> owedCandidate w3 then confirmOwedAbsence w3 else w3
      | ShutdownOrder \<Rightarrow> w\<lparr>pwDraining := True\<rparr>)"

definition pipeStep :: "runtime \<Rightarrow> pipeEnv \<Rightarrow> pipeSignal \<Rightarrow> pipeWorld \<Rightarrow> pipeWorld" where
  "pipeStep u env sig w = (if pwTracked w then driveShutdown env (pipeHandle u env sig w) else w)"

definition pipeRun :: "runtime \<Rightarrow> (pipeEnv \<times> pipeSignal) list \<Rightarrow> pipeWorld \<Rightarrow> pipeWorld" where
  "pipeRun u steps w = fold (\<lambda>(env, sig). pipeStep u env sig) steps w"

text \<open>\<open>beginClaim\<close> for an issue that dispatch selected, as owner \<open>token\<close> of the daemon run \<open>inst\<close>.\<close>

definition newRecord :: "pipeConfig \<Rightarrow> time \<Rightarrow> coreIssue \<Rightarrow> int \<Rightarrow> string \<Rightarrow> pipeRecord" where
  "newRecord cfg now issue token inst =
     \<lparr>plRec = \<lparr>rIssue = issue, rState = StateQueued, rApprovedAt = zeroTime, rAttempt = 1, rTurns = 0, rAttemptBase = 0,
        rCostUSD = 0, rWorkspacePath = [], rStopping = False, rStopReason = [], rGone = False, rClaimLost = False,
        rOwedWriteFailed = False, rPending = 0, rFinish = None, rSuspended = False, rReleasing = False, rOwed = [],
        rOwedInFlight = False, rDisposalOwed = False, rClaimBaseAbandonOwed = False, rRanThisAttempt = False,
        rAfterRunFired = False, rConvertInFlight = False, rGeneration = 0, rInstance = inst, rToken = token, rUpdatedAt = now\<rparr>,
      plDefinition = cfg, plClaimVerified = False, plApprovalInFlight = False, plClaimEpoch = 0, plClaimBaseInFlight = False,
      plEpochFaulted = False, plEpochFaultDetail = [], plClaimBaseDispatch = False, plFailureReason = [], plLastOutcome = [],
      plPreviousAttempt = [], plOutput = ([], 0),
      plAttemptFacts = \<lparr>afCommits = [], afFiles = [], afCommitsTruncated = False, afFilesTruncated = False\<rparr>,
      plAttemptFactsRead = False, plSummarizing = False, plSummarized = False, plParkOnBudgetPending = False,
      plWorkspace = zeroWorkspace, plContinuation = [], plSessionID = [], plPRURL = [], plHandle = None,
      plAttemptStartedAt = zeroTime, plAttemptUsage = \<lparr>usInputTokens = 0, usOutputTokens = 0, usCostUSD = 0\<rparr>,
      plAttemptAgent = [], plAttemptRecorded = False, plBudgetStop = False, plFinishAfterStop = False, plKeepOnStop = False,
      plAbsenceInFlight = False, plVerifyRetry = False, plStopInFlight = False, plProbeInFlight = False,
      plEventsClosed = False, plHandleDone = False, plDomainQuiet = False, plOutcome = None\<rparr>"

definition beginClaim :: "pipeConfig \<Rightarrow> time \<Rightarrow> coreIssue \<Rightarrow> int \<Rightarrow> string \<Rightarrow> pipeWorld" where
  "beginClaim cfg now issue token inst =
     askPending (AskClaim issue)
       \<lparr>pwRec = newRecord cfg now issue token inst, pwTracked = True, pwDraining = False, pwOut = [], pwPump = Map.empty,
        pwLog = [], pwAttempts = [], pwNextHandle = 0, pwTrace = []\<rparr>"

end
