(* ===== verification/OrchPipeView.thy ===== *)
theory OrchPipeView
  imports OrchPipeline
begin

text \<open>
  The view of the dispatch pipeline that its safety rests on: the state, the handle, the flags and the
  outstanding requests, without texts, budgets and owed effects. Every operation of the pipeline acts on
  the view by itself; the equations of this theory say how.
\<close>

section \<open>The view\<close>

record view =
  vSt :: State
  vGen :: int
  vPend :: int
  vStopping :: bool
  vGone :: bool
  vLost :: bool
  vFinish :: "(bool \<times> string) option"
  vSusp :: bool
  vRel :: bool
  vIssue :: coreIssue
  vApprovedAt :: time
  vPath :: string
  vVerified :: bool
  vApprIF :: bool
  vBaseIF :: bool
  vDispatch :: bool
  vFaulted :: bool
  vEpoch :: tid
  vSummarizing :: bool
  vSummarized :: bool
  vPark :: bool
  vBudget :: bool
  vFinishAfter :: bool
  vQuiet :: bool
  vClosed :: bool
  vDone :: bool
  vRetry :: bool
  vStopIF :: bool
  vProbeIF :: bool
  vOutcome :: "(runEvent \<times> string) option"
  vHandle :: "nat option"
  vTracked :: bool
  vDraining :: bool
  vOut :: "(int \<times> pipeRequest) list"
  vPump :: "int \<rightharpoonup> pumpPhase"
  vTrace :: "pipeEvent list"
  vNext :: nat

definition viewOf :: "Record \<Rightarrow> pipeRecord \<Rightarrow> pipeWorld \<Rightarrow> view" where
  "viewOf r p w =
     \<lparr>vSt = rState r,
      vGen = rGeneration r,
      vPend = rPending r,
      vStopping = rStopping r,
      vGone = rGone r,
      vLost = rClaimLost r,
      vFinish = rFinish r,
      vSusp = rSuspended r,
      vRel = rReleasing r,
      vIssue = rIssue r,
      vApprovedAt = rApprovedAt r,
      vPath = rWorkspacePath r,
      vVerified = plClaimVerified p,
      vApprIF = plApprovalInFlight p,
      vBaseIF = plClaimBaseInFlight p,
      vDispatch = plClaimBaseDispatch p,
      vFaulted = plEpochFaulted p,
      vEpoch = plClaimEpoch p,
      vSummarizing = plSummarizing p,
      vSummarized = plSummarized p,
      vPark = plParkOnBudgetPending p,
      vBudget = plBudgetStop p,
      vFinishAfter = plFinishAfterStop p,
      vQuiet = plDomainQuiet p,
      vClosed = plEventsClosed p,
      vDone = plHandleDone p,
      vRetry = plVerifyRetry p,
      vStopIF = plStopInFlight p,
      vProbeIF = plProbeInFlight p,
      vOutcome = plOutcome p,
      vHandle = plHandle p,
      vTracked = pwTracked w,
      vDraining = pwDraining w,
      vOut = pwOut w,
      vPump = pwPump w,
      vTrace = pwTrace w,
      vNext = pwNextHandle w\<rparr>"

definition view :: "pipeWorld \<Rightarrow> view" where
  "view w = viewOf (plRec (pwRec w)) (pwRec w) w"

named_theorems view_simps

text \<open>What the code reads, read off the view.\<close>

lemma view_read [view_simps]:
  "rState (plRec (pwRec w)) = vSt (view w)"
  "rGeneration (plRec (pwRec w)) = vGen (view w)"
  "rPending (plRec (pwRec w)) = vPend (view w)"
  "rStopping (plRec (pwRec w)) = vStopping (view w)"
  "rGone (plRec (pwRec w)) = vGone (view w)"
  "rClaimLost (plRec (pwRec w)) = vLost (view w)"
  "rFinish (plRec (pwRec w)) = vFinish (view w)"
  "rSuspended (plRec (pwRec w)) = vSusp (view w)"
  "rReleasing (plRec (pwRec w)) = vRel (view w)"
  "rIssue (plRec (pwRec w)) = vIssue (view w)"
  "rApprovedAt (plRec (pwRec w)) = vApprovedAt (view w)"
  "rWorkspacePath (plRec (pwRec w)) = vPath (view w)"
  "plClaimVerified (pwRec w) = vVerified (view w)"
  "plApprovalInFlight (pwRec w) = vApprIF (view w)"
  "plClaimBaseInFlight (pwRec w) = vBaseIF (view w)"
  "plClaimBaseDispatch (pwRec w) = vDispatch (view w)"
  "plEpochFaulted (pwRec w) = vFaulted (view w)"
  "plClaimEpoch (pwRec w) = vEpoch (view w)"
  "plSummarizing (pwRec w) = vSummarizing (view w)"
  "plSummarized (pwRec w) = vSummarized (view w)"
  "plParkOnBudgetPending (pwRec w) = vPark (view w)"
  "plBudgetStop (pwRec w) = vBudget (view w)"
  "plFinishAfterStop (pwRec w) = vFinishAfter (view w)"
  "plDomainQuiet (pwRec w) = vQuiet (view w)"
  "plEventsClosed (pwRec w) = vClosed (view w)"
  "plHandleDone (pwRec w) = vDone (view w)"
  "plVerifyRetry (pwRec w) = vRetry (view w)"
  "plStopInFlight (pwRec w) = vStopIF (view w)"
  "plProbeInFlight (pwRec w) = vProbeIF (view w)"
  "plOutcome (pwRec w) = vOutcome (view w)"
  "plHandle (pwRec w) = vHandle (view w)"
  "pwTracked w = vTracked (view w)"
  "pwDraining w = vDraining (view w)"
  "pwOut w = vOut (view w)"
  "pwPump w = vPump (view w)"
  "pwTrace w = vTrace (view w)"
  "pwNextHandle w = vNext (view w)"
  by (simp_all add: view_def viewOf_def)

text \<open>Updates of a record, a pipeline record and a world.\<close>

definition viewR :: "Record \<Rightarrow> pipeWorld \<Rightarrow> view" where "viewR r w = viewOf r (pwRec w) w"
definition viewP :: "pipeRecord \<Rightarrow> pipeWorld \<Rightarrow> view" where "viewP p w = viewOf (plRec p) p w"

lemma view_on [view_simps]:
  "view (onRecord f w) = viewR (f (plRec (pwRec w))) w"
  "view (onPipe g w) = viewP (g (pwRec w)) w"
  "viewR (plRec (pwRec w)) w = view w"
  "viewP (pwRec w) w = view w"
  by (simp_all add: view_def viewR_def viewP_def viewOf_def onRecord_def onPipe_def)

lemma viewR_updates [view_simps]:
  "viewR (r\<lparr>rState := x_vSt\<rparr>) w = (viewR r w)\<lparr>vSt := x_vSt\<rparr>"
  "viewR (r\<lparr>rGeneration := x_vGen\<rparr>) w = (viewR r w)\<lparr>vGen := x_vGen\<rparr>"
  "viewR (r\<lparr>rPending := x_vPend\<rparr>) w = (viewR r w)\<lparr>vPend := x_vPend\<rparr>"
  "viewR (r\<lparr>rStopping := x_vStopping\<rparr>) w = (viewR r w)\<lparr>vStopping := x_vStopping\<rparr>"
  "viewR (r\<lparr>rGone := x_vGone\<rparr>) w = (viewR r w)\<lparr>vGone := x_vGone\<rparr>"
  "viewR (r\<lparr>rClaimLost := x_vLost\<rparr>) w = (viewR r w)\<lparr>vLost := x_vLost\<rparr>"
  "viewR (r\<lparr>rFinish := x_vFinish\<rparr>) w = (viewR r w)\<lparr>vFinish := x_vFinish\<rparr>"
  "viewR (r\<lparr>rSuspended := x_vSusp\<rparr>) w = (viewR r w)\<lparr>vSusp := x_vSusp\<rparr>"
  "viewR (r\<lparr>rReleasing := x_vRel\<rparr>) w = (viewR r w)\<lparr>vRel := x_vRel\<rparr>"
  "viewR (r\<lparr>rIssue := x_vIssue\<rparr>) w = (viewR r w)\<lparr>vIssue := x_vIssue\<rparr>"
  "viewR (r\<lparr>rApprovedAt := x_vApprovedAt\<rparr>) w = (viewR r w)\<lparr>vApprovedAt := x_vApprovedAt\<rparr>"
  "viewR (r\<lparr>rWorkspacePath := x_vPath\<rparr>) w = (viewR r w)\<lparr>vPath := x_vPath\<rparr>"
  "viewR (r\<lparr>rAttempt := y_rAttempt\<rparr>) w = viewR r w"
  "viewR (r\<lparr>rTurns := y_rTurns\<rparr>) w = viewR r w"
  "viewR (r\<lparr>rAttemptBase := y_rAttemptBase\<rparr>) w = viewR r w"
  "viewR (r\<lparr>rCostUSD := y_rCostUSD\<rparr>) w = viewR r w"
  "viewR (r\<lparr>rStopReason := y_rStopReason\<rparr>) w = viewR r w"
  "viewR (r\<lparr>rOwedWriteFailed := y_rOwedWriteFailed\<rparr>) w = viewR r w"
  "viewR (r\<lparr>rOwed := y_rOwed\<rparr>) w = viewR r w"
  "viewR (r\<lparr>rOwedInFlight := y_rOwedInFlight\<rparr>) w = viewR r w"
  "viewR (r\<lparr>rDisposalOwed := y_rDisposalOwed\<rparr>) w = viewR r w"
  "viewR (r\<lparr>rClaimBaseAbandonOwed := y_rClaimBaseAbandonOwed\<rparr>) w = viewR r w"
  "viewR (r\<lparr>rRanThisAttempt := y_rRanThisAttempt\<rparr>) w = viewR r w"
  "viewR (r\<lparr>rAfterRunFired := y_rAfterRunFired\<rparr>) w = viewR r w"
  "viewR (r\<lparr>rConvertInFlight := y_rConvertInFlight\<rparr>) w = viewR r w"
  "viewR (r\<lparr>rUpdatedAt := y_rUpdatedAt\<rparr>) w = viewR r w"
  by (simp_all add: viewR_def viewOf_def)

lemma viewP_updates [view_simps]:
  "viewP (p\<lparr>plClaimVerified := x_vVerified\<rparr>) w = (viewP p w)\<lparr>vVerified := x_vVerified\<rparr>"
  "viewP (p\<lparr>plApprovalInFlight := x_vApprIF\<rparr>) w = (viewP p w)\<lparr>vApprIF := x_vApprIF\<rparr>"
  "viewP (p\<lparr>plClaimBaseInFlight := x_vBaseIF\<rparr>) w = (viewP p w)\<lparr>vBaseIF := x_vBaseIF\<rparr>"
  "viewP (p\<lparr>plClaimBaseDispatch := x_vDispatch\<rparr>) w = (viewP p w)\<lparr>vDispatch := x_vDispatch\<rparr>"
  "viewP (p\<lparr>plEpochFaulted := x_vFaulted\<rparr>) w = (viewP p w)\<lparr>vFaulted := x_vFaulted\<rparr>"
  "viewP (p\<lparr>plClaimEpoch := x_vEpoch\<rparr>) w = (viewP p w)\<lparr>vEpoch := x_vEpoch\<rparr>"
  "viewP (p\<lparr>plSummarizing := x_vSummarizing\<rparr>) w = (viewP p w)\<lparr>vSummarizing := x_vSummarizing\<rparr>"
  "viewP (p\<lparr>plSummarized := x_vSummarized\<rparr>) w = (viewP p w)\<lparr>vSummarized := x_vSummarized\<rparr>"
  "viewP (p\<lparr>plParkOnBudgetPending := x_vPark\<rparr>) w = (viewP p w)\<lparr>vPark := x_vPark\<rparr>"
  "viewP (p\<lparr>plBudgetStop := x_vBudget\<rparr>) w = (viewP p w)\<lparr>vBudget := x_vBudget\<rparr>"
  "viewP (p\<lparr>plFinishAfterStop := x_vFinishAfter\<rparr>) w = (viewP p w)\<lparr>vFinishAfter := x_vFinishAfter\<rparr>"
  "viewP (p\<lparr>plDomainQuiet := x_vQuiet\<rparr>) w = (viewP p w)\<lparr>vQuiet := x_vQuiet\<rparr>"
  "viewP (p\<lparr>plEventsClosed := x_vClosed\<rparr>) w = (viewP p w)\<lparr>vClosed := x_vClosed\<rparr>"
  "viewP (p\<lparr>plHandleDone := x_vDone\<rparr>) w = (viewP p w)\<lparr>vDone := x_vDone\<rparr>"
  "viewP (p\<lparr>plVerifyRetry := x_vRetry\<rparr>) w = (viewP p w)\<lparr>vRetry := x_vRetry\<rparr>"
  "viewP (p\<lparr>plStopInFlight := x_vStopIF\<rparr>) w = (viewP p w)\<lparr>vStopIF := x_vStopIF\<rparr>"
  "viewP (p\<lparr>plProbeInFlight := x_vProbeIF\<rparr>) w = (viewP p w)\<lparr>vProbeIF := x_vProbeIF\<rparr>"
  "viewP (p\<lparr>plOutcome := x_vOutcome\<rparr>) w = (viewP p w)\<lparr>vOutcome := x_vOutcome\<rparr>"
  "viewP (p\<lparr>plHandle := x_vHandle\<rparr>) w = (viewP p w)\<lparr>vHandle := x_vHandle\<rparr>"
  "viewP (p\<lparr>plDefinition := y_plDefinition\<rparr>) w = viewP p w"
  "viewP (p\<lparr>plEpochFaultDetail := y_plEpochFaultDetail\<rparr>) w = viewP p w"
  "viewP (p\<lparr>plFailureReason := y_plFailureReason\<rparr>) w = viewP p w"
  "viewP (p\<lparr>plLastOutcome := y_plLastOutcome\<rparr>) w = viewP p w"
  "viewP (p\<lparr>plPreviousAttempt := y_plPreviousAttempt\<rparr>) w = viewP p w"
  "viewP (p\<lparr>plOutput := y_plOutput\<rparr>) w = viewP p w"
  "viewP (p\<lparr>plAttemptFacts := y_plAttemptFacts\<rparr>) w = viewP p w"
  "viewP (p\<lparr>plAttemptFactsRead := y_plAttemptFactsRead\<rparr>) w = viewP p w"
  "viewP (p\<lparr>plWorkspace := y_plWorkspace\<rparr>) w = viewP p w"
  "viewP (p\<lparr>plContinuation := y_plContinuation\<rparr>) w = viewP p w"
  "viewP (p\<lparr>plSessionID := y_plSessionID\<rparr>) w = viewP p w"
  "viewP (p\<lparr>plPRURL := y_plPRURL\<rparr>) w = viewP p w"
  "viewP (p\<lparr>plAttemptStartedAt := y_plAttemptStartedAt\<rparr>) w = viewP p w"
  "viewP (p\<lparr>plAttemptUsage := y_plAttemptUsage\<rparr>) w = viewP p w"
  "viewP (p\<lparr>plAttemptAgent := y_plAttemptAgent\<rparr>) w = viewP p w"
  "viewP (p\<lparr>plAttemptRecorded := y_plAttemptRecorded\<rparr>) w = viewP p w"
  "viewP (p\<lparr>plKeepOnStop := y_plKeepOnStop\<rparr>) w = viewP p w"
  "viewP (p\<lparr>plAbsenceInFlight := y_plAbsenceInFlight\<rparr>) w = viewP p w"
  by (simp_all add: viewP_def viewOf_def)

lemma view_updates [view_simps]:
  "view (w\<lparr>pwTracked := x_vTracked\<rparr>) = (view w)\<lparr>vTracked := x_vTracked\<rparr>"
  "view (w\<lparr>pwDraining := x_vDraining\<rparr>) = (view w)\<lparr>vDraining := x_vDraining\<rparr>"
  "view (w\<lparr>pwOut := x_vOut\<rparr>) = (view w)\<lparr>vOut := x_vOut\<rparr>"
  "view (w\<lparr>pwPump := x_vPump\<rparr>) = (view w)\<lparr>vPump := x_vPump\<rparr>"
  "view (w\<lparr>pwTrace := x_vTrace\<rparr>) = (view w)\<lparr>vTrace := x_vTrace\<rparr>"
  "view (w\<lparr>pwNextHandle := x_vNext\<rparr>) = (view w)\<lparr>vNext := x_vNext\<rparr>"
  "view (w\<lparr>pwLog := y_pwLog\<rparr>) = view w"
  "view (w\<lparr>pwAttempts := y_pwAttempts\<rparr>) = view w"
  by (simp_all add: view_def viewOf_def)

lemma viewRP_updates [view_simps]:
  "viewR r (w\<lparr>pwTracked := x_vTracked\<rparr>) = (viewR r w)\<lparr>vTracked := x_vTracked\<rparr>"
  "viewR r (w\<lparr>pwDraining := x_vDraining\<rparr>) = (viewR r w)\<lparr>vDraining := x_vDraining\<rparr>"
  "viewR r (w\<lparr>pwOut := x_vOut\<rparr>) = (viewR r w)\<lparr>vOut := x_vOut\<rparr>"
  "viewR r (w\<lparr>pwPump := x_vPump\<rparr>) = (viewR r w)\<lparr>vPump := x_vPump\<rparr>"
  "viewR r (w\<lparr>pwTrace := x_vTrace\<rparr>) = (viewR r w)\<lparr>vTrace := x_vTrace\<rparr>"
  "viewR r (w\<lparr>pwNextHandle := x_vNext\<rparr>) = (viewR r w)\<lparr>vNext := x_vNext\<rparr>"
  "viewR r (w\<lparr>pwLog := y_pwLog\<rparr>) = viewR r w"
  "viewR r (w\<lparr>pwAttempts := y_pwAttempts\<rparr>) = viewR r w"
  "viewP p (w\<lparr>pwTracked := x_vTracked\<rparr>) = (viewP p w)\<lparr>vTracked := x_vTracked\<rparr>"
  "viewP p (w\<lparr>pwDraining := x_vDraining\<rparr>) = (viewP p w)\<lparr>vDraining := x_vDraining\<rparr>"
  "viewP p (w\<lparr>pwOut := x_vOut\<rparr>) = (viewP p w)\<lparr>vOut := x_vOut\<rparr>"
  "viewP p (w\<lparr>pwPump := x_vPump\<rparr>) = (viewP p w)\<lparr>vPump := x_vPump\<rparr>"
  "viewP p (w\<lparr>pwTrace := x_vTrace\<rparr>) = (viewP p w)\<lparr>vTrace := x_vTrace\<rparr>"
  "viewP p (w\<lparr>pwNextHandle := x_vNext\<rparr>) = (viewP p w)\<lparr>vNext := x_vNext\<rparr>"
  "viewP p (w\<lparr>pwLog := y_pwLog\<rparr>) = viewP p w"
  "viewP p (w\<lparr>pwAttempts := y_pwAttempts\<rparr>) = viewP p w"
  by (simp_all add: viewR_def viewP_def viewOf_def)

text \<open>Owed effects, hooks, disposals and budgets do not touch the view.\<close>

lemma viewR_owed [view_simps]:
  "viewR (driveOwed e r) w = viewR r w"
  "viewR (oweEffect e r eff) w = viewR r w"
  "viewR (owe e r what target call) w = viewR r w"
  "viewR (oweProjection e r what want) w = viewR r w"
  "viewR (comment e r milestone) w = viewR r w"
  "viewR (abandonPendingClaimBase e r) w = viewR r w"
  "viewR (attemptEnded e hooked r) w = viewR r w"
  "viewR (oweDisposal e r completion) w = viewR r w"
  "viewR (restoreBudgets r) w = viewR r w"
  by (simp_all add: driveOwed_def oweEffect_def owe_def oweProjection_def comment_def abandonPendingClaimBase_def
      attemptEnded_def oweDisposal_def restoreBudgets_def Let_def view_simps)

lemma viewR_exits [view_simps]:
  "viewR (release e r why) w = (viewR r w)\<lparr>vRel := True\<rparr>"
  "viewR (markGone r) w = (viewR r w)\<lparr>vGone := True\<rparr>"
  "viewR (markClaimLost r) w = (viewR r w)\<lparr>vLost := True\<rparr>"
  by (simp_all add: release_def markGone_def markClaimLost_def view_simps) (simp add: viewR_def viewOf_def)

lemma view_attempts [view_simps]:
  "view (recordAttempt env reason verdict w) = view w"
  "view (endAttempt env w) = view w"
  "viewP (recordAccount outcome p) w = viewP p w"
  "viewP (forgetAccount p) w = viewP p w"
  "view (disposePublished env w) = view w"
  "view (completeFailure env w) = view w"
  "view (disposeRevoked env keep w) = view w"
  "view (completeShutdown env w) = view w"
  "view (commentOn env milestone w) = view w"
  by (simp_all add: recordAttempt_def endAttempt_def recordAccount_def forgetAccount_def disposePublished_def
      completeFailure_def disposeRevoked_def completeShutdown_def commentOn_def Let_def view_simps)

end
