(* ===== verification/OrchPipeFacts.thy ===== *)
theory OrchPipeFacts
  imports OrchPipeView
begin

text \<open>
  What the dispatch pipeline guarantees over every sequence of signals: one agent at a time, verification and
  release only when every agent is confirmed quiet, and runs only on approved content.
\<close>

section \<open>Operations on the view\<close>

definition emitV :: "pipeEvent \<Rightarrow> view \<Rightarrow> view" where "emitV e v = v\<lparr>vTrace := vTrace v @ [e]\<rparr>"

definition askV :: "pipeRequest \<Rightarrow> view \<Rightarrow> view" where
  "askV q v = v\<lparr>vOut := vOut v @ [(vGen v, q)], vTrace := vTrace v @ [Asked q]\<rparr>"

definition workV :: "pipeRequest \<Rightarrow> view \<Rightarrow> view" where "workV q v = askV q (v\<lparr>vPend := vPend v + 1\<rparr>)"

definition orderedV :: "view \<Rightarrow> bool" where
  "orderedV v \<longleftrightarrow> vRel v \<or> vStopping v \<or> vFinish v \<noteq> None \<or> vGone v \<or> vLost v"

definition exitingV :: "view \<Rightarrow> bool" where "exitingV v \<longleftrightarrow> orderedV v \<or> vSusp v"

lemma view_steps [view_simps]:
  "view (emit e w) = emitV e (view w)"
  "view (ask q w) = askV q (view w)"
  "view (askPending q w) = workV q (view w)"
  "view (arrived w) = (view w)\<lparr>vPend := vPend (view w) - 1\<rparr>"
  "view (freeWorkspaceMarker w) = emitV MarkerFreed (view w)"
  "view (forgetRecord w) = (view w)\<lparr>vTracked := False\<rparr>"
  "baseOf w = plRec (pwRec w)"
  "orderedExit (plRec (pwRec w)) = orderedV (view w)"
  "exiting (plRec (pwRec w)) = exitingV (view w)"
  by (simp_all add: emit_def ask_def askPending_def arrived_def freeWorkspaceMarker_def forgetRecord_def baseOf_def emitV_def
      askV_def workV_def orderedV_def exitingV_def orderedExit_def exiting_def view_simps)

lemma transitionTo_None: "transitionTo env to reason cause w = None \<longleftrightarrow> \<not> Allowed (vSt (view w)) to"
  by (simp add: transitionTo_def transitionCaused_def Let_def view_simps split: if_split)

lemma transitionTo_Some:
  assumes "transitionTo env to reason cause w = Some w'"
  shows "Allowed (vSt (view w)) to \<and> view w' = (view w)\<lparr>vSt := to\<rparr>"
proof -
  have "Allowed (vSt (view w)) to" using assms transitionTo_None [of env to reason cause w] by auto
  moreover have "view w' = (view w)\<lparr>vSt := to\<rparr>"
    using assms by (auto simp: transitionTo_def transitionCaused_def Let_def view_simps split: if_splits)
  ultimately show ?thesis by blast
qed

text \<open>A function of the world that acts on the view.\<close>

lemma view_transition:
  assumes "\<And>w'. view (f w') = F (view w')"
  shows "view (case transitionTo env to reason cause w of None \<Rightarrow> z | Some w' \<Rightarrow> f w')
    = (if Allowed (vSt (view w)) to then F ((view w)\<lparr>vSt := to\<rparr>) else view z)"
proof (cases "transitionTo env to reason cause w")
  case None
  then show ?thesis using transitionTo_None [of env to reason cause w] by simp
next
  case (Some w')
  then show ?thesis using transitionTo_Some [OF Some] by (simp add: assms)
qed

definition beginStopV :: "StopMode \<Rightarrow> view \<Rightarrow> view" where
  "beginStopV mode v =
     (if vStopIF v then v
      else case vHandle v of None \<Rightarrow> askV (AskStop None mode) v
        | Some h \<Rightarrow> askV (AskStop (Some h) mode) (v\<lparr>vStopIF := True\<rparr>))"

definition finishNowV :: "view \<Rightarrow> view" where
  "finishNowV v = v\<lparr>vPark := False, vRel := (vRel v \<or> \<not> vGone v \<and> \<not> vLost v)\<rparr>"

definition stopAndFinishV :: "bool \<Rightarrow> string \<Rightarrow> view \<Rightarrow> view" where
  "stopAndFinishV keep why v =
     (if vHandle v \<noteq> None then beginStopV StopDiscard (v\<lparr>vFinishAfter := True, vStopping := True\<rparr>)
      else if vPend v > 0 then v\<lparr>vFinishAfter := True, vFinish := Some (keep, why)\<rparr>
      else finishNowV (v\<lparr>vFinishAfter := True\<rparr>))"

definition finishIfRequestedV :: "view \<Rightarrow> view" where
  "finishIfRequestedV v =
     (if vHandle v \<noteq> None then beginStopV StopDiscard (v\<lparr>vFinish := None, vStopping := True\<rparr>)
      else finishNowV (v\<lparr>vFinish := None\<rparr>))"

definition enterBackoffV :: "view \<Rightarrow> view" where
  "enterBackoffV v =
     (if Allowed (vSt v) StateBackoff
      then askV (AskTimer timerBackoff) (v\<lparr>vSt := StateBackoff, vStopping := False, vGen := vGen v + 1\<rparr>) else v)"

definition enterFailedV :: "view \<Rightarrow> view" where
  "enterFailedV v = (if Allowed (vSt v) StateFailed then v\<lparr>vSt := StateFailed, vRel := True\<rparr> else v)"

definition enterReviewV :: "view \<Rightarrow> view" where
  "enterReviewV v = (if orderedV v \<or> \<not> Allowed (vSt v) StateNeedsReview then v else v\<lparr>vSt := StateNeedsReview\<rparr>)"

lemma view_if [view_simps]: "view (if b then w else w') = (if b then view w else view w')" by simp

lemma view_ends [view_simps]:
  "view (beginStop mode w) = beginStopV mode (view w)"
  "view (finishNow env keep why w) = finishNowV (view w)"
  "view (armTimer kind w) = askV (AskTimer kind) (view w)"
  "view (rearm kind w) = askV (AskTimer kind) (view w)"
  "view (beginVerify w) = workV (AskVerify (vIssue (view w)) (plWorkspace (pwRec w))) (view w)"
  by (simp_all add: beginStop_def beginStopV_def armTimer_def rearm_def beginVerify_def view_simps split: option.split)
    (simp add: finishNow_def finishNowV_def Let_def view_simps)

lemma view_exits [view_simps]:
  "view (stopAndFinish env keep why w) = stopAndFinishV keep why (view w)"
  "view (enterBackoff env why cause w) = enterBackoffV (view w)"
  "view (enterFailed env why cause w) = enterFailedV (view w)"
  "view (enterNeedsReview env why cause w) = enterReviewV (view w)"
  "view (enterEpochFault env why w) = enterReviewV ((view w)\<lparr>vFaulted := True\<rparr>)"
  by (simp_all add: stopAndFinish_def stopAndFinishV_def enterBackoff_def enterBackoffV_def enterFailed_def enterFailedV_def
      enterNeedsReview_def enterReviewV_def enterEpochFault_def Let_def view_simps view_transition)

lemma finishIfRequested_None:
  "finishIfRequested env w = None \<longleftrightarrow> vFinish (view w) = None \<or> vPend (view w) > 0"
  by (auto simp: finishIfRequested_def Let_def view_simps split: option.split)

lemma finishIfRequested_Some:
  "finishIfRequested env w = Some w' \<Longrightarrow>
     vFinish (view w) \<noteq> None \<and> vPend (view w) \<le> 0 \<and> view w' = finishIfRequestedV (view w)"
  by (auto simp: finishIfRequested_def finishIfRequestedV_def Let_def view_simps split: option.splits if_splits)

end
