(* ===== verification/OrchPipeInv.thy ===== *)
theory OrchPipeInv
  imports OrchPipeFacts
begin

text \<open>
  The invariant of the dispatch pipeline, on its view, and the steps that keep it: at most one piece of work or one
  timer is outstanding, never beside an agent's handle; stops and probes are for the agent the
  record has the handle of; and the trace so far is safe.
\<close>

section \<open>States\<close>

lemma states_differ [simp]:
  "StateQueued \<noteq> StateClaimed" "StateQueued \<noteq> StatePreparing" "StateQueued \<noteq> StateRunning" "StateQueued \<noteq> StateVerifying" "StateQueued \<noteq> StateBackoff" "StateQueued \<noteq> StateDone" "StateQueued \<noteq> StateNeedsReview" "StateQueued \<noteq> StateFailed"
  "StateClaimed \<noteq> StateQueued" "StateClaimed \<noteq> StatePreparing" "StateClaimed \<noteq> StateRunning" "StateClaimed \<noteq> StateVerifying" "StateClaimed \<noteq> StateBackoff" "StateClaimed \<noteq> StateDone" "StateClaimed \<noteq> StateNeedsReview" "StateClaimed \<noteq> StateFailed"
  "StatePreparing \<noteq> StateQueued" "StatePreparing \<noteq> StateClaimed" "StatePreparing \<noteq> StateRunning" "StatePreparing \<noteq> StateVerifying" "StatePreparing \<noteq> StateBackoff" "StatePreparing \<noteq> StateDone" "StatePreparing \<noteq> StateNeedsReview" "StatePreparing \<noteq> StateFailed"
  "StateRunning \<noteq> StateQueued" "StateRunning \<noteq> StateClaimed" "StateRunning \<noteq> StatePreparing" "StateRunning \<noteq> StateVerifying" "StateRunning \<noteq> StateBackoff" "StateRunning \<noteq> StateDone" "StateRunning \<noteq> StateNeedsReview" "StateRunning \<noteq> StateFailed"
  "StateVerifying \<noteq> StateQueued" "StateVerifying \<noteq> StateClaimed" "StateVerifying \<noteq> StatePreparing" "StateVerifying \<noteq> StateRunning" "StateVerifying \<noteq> StateBackoff" "StateVerifying \<noteq> StateDone" "StateVerifying \<noteq> StateNeedsReview" "StateVerifying \<noteq> StateFailed"
  "StateBackoff \<noteq> StateQueued" "StateBackoff \<noteq> StateClaimed" "StateBackoff \<noteq> StatePreparing" "StateBackoff \<noteq> StateRunning" "StateBackoff \<noteq> StateVerifying" "StateBackoff \<noteq> StateDone" "StateBackoff \<noteq> StateNeedsReview" "StateBackoff \<noteq> StateFailed"
  "StateDone \<noteq> StateQueued" "StateDone \<noteq> StateClaimed" "StateDone \<noteq> StatePreparing" "StateDone \<noteq> StateRunning" "StateDone \<noteq> StateVerifying" "StateDone \<noteq> StateBackoff" "StateDone \<noteq> StateNeedsReview" "StateDone \<noteq> StateFailed"
  "StateNeedsReview \<noteq> StateQueued" "StateNeedsReview \<noteq> StateClaimed" "StateNeedsReview \<noteq> StatePreparing" "StateNeedsReview \<noteq> StateRunning" "StateNeedsReview \<noteq> StateVerifying" "StateNeedsReview \<noteq> StateBackoff" "StateNeedsReview \<noteq> StateDone" "StateNeedsReview \<noteq> StateFailed"
  "StateFailed \<noteq> StateQueued" "StateFailed \<noteq> StateClaimed" "StateFailed \<noteq> StatePreparing" "StateFailed \<noteq> StateRunning" "StateFailed \<noteq> StateVerifying" "StateFailed \<noteq> StateBackoff" "StateFailed \<noteq> StateDone" "StateFailed \<noteq> StateNeedsReview"
  by (simp_all add: states)

lemma Allowed_to [simp]:
  "Allowed s StateClaimed \<longleftrightarrow> s = StateQueued"
  "Allowed s StatePreparing \<longleftrightarrow> s = StateClaimed \<or> s = StateVerifying \<or> s = StateBackoff"
  "Allowed s StateBackoff \<longleftrightarrow> s = StatePreparing \<or> s = StateRunning \<or> s = StateBackoff \<or> s = StateNeedsReview"
  "Allowed s StateNeedsReview \<longleftrightarrow>
     s = StateRunning \<or> s = StateVerifying \<or> s = StateQueued \<or> s = StateBackoff \<or> s = StatePreparing"
  "Allowed s StateDone \<longleftrightarrow> s = StateVerifying"
  "Allowed s StateVerifying \<longleftrightarrow> s = StateRunning"
  "Allowed s StateRunning \<longleftrightarrow> s = StatePreparing"
  by (auto simp: Allowed_def legalTransitions_def)

section \<open>Outstanding requests\<close>

fun isWork :: "pipeRequest \<Rightarrow> bool" where
  "isWork (AskClaim _) = True"
| "isWork (AskApproval _ _ _) = True"
| "isWork (AskClaimBase _ _) = True"
| "isWork (AskPrepare _ _ _) = True"
| "isWork (AskStart _ _) = True"
| "isWork (AskSummary _) = True"
| "isWork (AskVerify _ _) = True"
| "isWork _ = False"

fun isTimer :: "pipeRequest \<Rightarrow> bool" where
  "isTimer (AskTimer _) = True"
| "isTimer (AskRefetch _ _ _) = True"
| "isTimer _ = False"

fun isProbe :: "pipeRequest \<Rightarrow> bool" where
  "isProbe (AskProbe _) = True"
| "isProbe _ = False"

fun isHalt :: "pipeRequest \<Rightarrow> bool" where
  "isHalt (AskStop (Some _) _) = True"
| "isHalt _ = False"

fun isSelf :: "pipeRequest \<Rightarrow> bool" where
  "isSelf (AskStop None _) = True"
| "isSelf _ = False"

fun isLaunch :: "pipeRequest \<Rightarrow> bool" where
  "isLaunch (AskPrepare _ _ _) = True"
| "isLaunch (AskStart _ _) = True"
| "isLaunch _ = False"

text \<open>The outstanding work of the record, and the requests of one form of its present generation.\<close>

definition worksV :: "view \<Rightarrow> (int \<times> pipeRequest) list" where "worksV v = filter (\<lambda>x. isWork (snd x)) (vOut v)"

definition curV :: "(pipeRequest \<Rightarrow> bool) \<Rightarrow> view \<Rightarrow> (int \<times> pipeRequest) list" where
  "curV P v = filter (\<lambda>x. fst x = vGen v \<and> P (snd x)) (vOut v)"

lemma worksV_update [simp]:
  "worksV (v\<lparr>vSt := x_vSt\<rparr>) = worksV v"
  "worksV (v\<lparr>vGen := x_vGen\<rparr>) = worksV v"
  "worksV (v\<lparr>vPend := x_vPend\<rparr>) = worksV v"
  "worksV (v\<lparr>vStopping := x_vStopping\<rparr>) = worksV v"
  "worksV (v\<lparr>vGone := x_vGone\<rparr>) = worksV v"
  "worksV (v\<lparr>vLost := x_vLost\<rparr>) = worksV v"
  "worksV (v\<lparr>vFinish := x_vFinish\<rparr>) = worksV v"
  "worksV (v\<lparr>vSusp := x_vSusp\<rparr>) = worksV v"
  "worksV (v\<lparr>vRel := x_vRel\<rparr>) = worksV v"
  "worksV (v\<lparr>vIssue := x_vIssue\<rparr>) = worksV v"
  "worksV (v\<lparr>vApprovedAt := x_vApprovedAt\<rparr>) = worksV v"
  "worksV (v\<lparr>vPath := x_vPath\<rparr>) = worksV v"
  "worksV (v\<lparr>vVerified := x_vVerified\<rparr>) = worksV v"
  "worksV (v\<lparr>vApprIF := x_vApprIF\<rparr>) = worksV v"
  "worksV (v\<lparr>vBaseIF := x_vBaseIF\<rparr>) = worksV v"
  "worksV (v\<lparr>vDispatch := x_vDispatch\<rparr>) = worksV v"
  "worksV (v\<lparr>vFaulted := x_vFaulted\<rparr>) = worksV v"
  "worksV (v\<lparr>vEpoch := x_vEpoch\<rparr>) = worksV v"
  "worksV (v\<lparr>vSummarizing := x_vSummarizing\<rparr>) = worksV v"
  "worksV (v\<lparr>vSummarized := x_vSummarized\<rparr>) = worksV v"
  "worksV (v\<lparr>vPark := x_vPark\<rparr>) = worksV v"
  "worksV (v\<lparr>vBudget := x_vBudget\<rparr>) = worksV v"
  "worksV (v\<lparr>vFinishAfter := x_vFinishAfter\<rparr>) = worksV v"
  "worksV (v\<lparr>vQuiet := x_vQuiet\<rparr>) = worksV v"
  "worksV (v\<lparr>vClosed := x_vClosed\<rparr>) = worksV v"
  "worksV (v\<lparr>vDone := x_vDone\<rparr>) = worksV v"
  "worksV (v\<lparr>vRetry := x_vRetry\<rparr>) = worksV v"
  "worksV (v\<lparr>vStopIF := x_vStopIF\<rparr>) = worksV v"
  "worksV (v\<lparr>vProbeIF := x_vProbeIF\<rparr>) = worksV v"
  "worksV (v\<lparr>vOutcome := x_vOutcome\<rparr>) = worksV v"
  "worksV (v\<lparr>vHandle := x_vHandle\<rparr>) = worksV v"
  "worksV (v\<lparr>vTracked := x_vTracked\<rparr>) = worksV v"
  "worksV (v\<lparr>vDraining := x_vDraining\<rparr>) = worksV v"
  "worksV (v\<lparr>vPump := x_vPump\<rparr>) = worksV v"
  "worksV (v\<lparr>vTrace := x_vTrace\<rparr>) = worksV v"
  "worksV (v\<lparr>vNext := x_vNext\<rparr>) = worksV v"
  by (simp_all add: worksV_def)

lemma curV_update [simp]:
  "curV P (v\<lparr>vSt := x_vSt\<rparr>) = curV P v"
  "curV P (v\<lparr>vPend := x_vPend\<rparr>) = curV P v"
  "curV P (v\<lparr>vStopping := x_vStopping\<rparr>) = curV P v"
  "curV P (v\<lparr>vGone := x_vGone\<rparr>) = curV P v"
  "curV P (v\<lparr>vLost := x_vLost\<rparr>) = curV P v"
  "curV P (v\<lparr>vFinish := x_vFinish\<rparr>) = curV P v"
  "curV P (v\<lparr>vSusp := x_vSusp\<rparr>) = curV P v"
  "curV P (v\<lparr>vRel := x_vRel\<rparr>) = curV P v"
  "curV P (v\<lparr>vIssue := x_vIssue\<rparr>) = curV P v"
  "curV P (v\<lparr>vApprovedAt := x_vApprovedAt\<rparr>) = curV P v"
  "curV P (v\<lparr>vPath := x_vPath\<rparr>) = curV P v"
  "curV P (v\<lparr>vVerified := x_vVerified\<rparr>) = curV P v"
  "curV P (v\<lparr>vApprIF := x_vApprIF\<rparr>) = curV P v"
  "curV P (v\<lparr>vBaseIF := x_vBaseIF\<rparr>) = curV P v"
  "curV P (v\<lparr>vDispatch := x_vDispatch\<rparr>) = curV P v"
  "curV P (v\<lparr>vFaulted := x_vFaulted\<rparr>) = curV P v"
  "curV P (v\<lparr>vEpoch := x_vEpoch\<rparr>) = curV P v"
  "curV P (v\<lparr>vSummarizing := x_vSummarizing\<rparr>) = curV P v"
  "curV P (v\<lparr>vSummarized := x_vSummarized\<rparr>) = curV P v"
  "curV P (v\<lparr>vPark := x_vPark\<rparr>) = curV P v"
  "curV P (v\<lparr>vBudget := x_vBudget\<rparr>) = curV P v"
  "curV P (v\<lparr>vFinishAfter := x_vFinishAfter\<rparr>) = curV P v"
  "curV P (v\<lparr>vQuiet := x_vQuiet\<rparr>) = curV P v"
  "curV P (v\<lparr>vClosed := x_vClosed\<rparr>) = curV P v"
  "curV P (v\<lparr>vDone := x_vDone\<rparr>) = curV P v"
  "curV P (v\<lparr>vRetry := x_vRetry\<rparr>) = curV P v"
  "curV P (v\<lparr>vStopIF := x_vStopIF\<rparr>) = curV P v"
  "curV P (v\<lparr>vProbeIF := x_vProbeIF\<rparr>) = curV P v"
  "curV P (v\<lparr>vOutcome := x_vOutcome\<rparr>) = curV P v"
  "curV P (v\<lparr>vHandle := x_vHandle\<rparr>) = curV P v"
  "curV P (v\<lparr>vTracked := x_vTracked\<rparr>) = curV P v"
  "curV P (v\<lparr>vDraining := x_vDraining\<rparr>) = curV P v"
  "curV P (v\<lparr>vPump := x_vPump\<rparr>) = curV P v"
  "curV P (v\<lparr>vTrace := x_vTrace\<rparr>) = curV P v"
  "curV P (v\<lparr>vNext := x_vNext\<rparr>) = curV P v"
  by (simp_all add: curV_def)

lemma worksV_steps [simp]:
  "worksV (askV q v) = worksV v @ (if isWork q then [(vGen v, q)] else [])"
  "worksV (v\<lparr>vOut := remove1 x (vOut v)\<rparr>) = remove1 x (worksV v)"
  by (simp_all add: worksV_def askV_def filter_remove1)

lemma curV_steps [simp]:
  "curV P (askV q v) = curV P v @ (if P q then [(vGen v, q)] else [])"
  "curV P (v\<lparr>vOut := remove1 x (vOut v)\<rparr>) = remove1 x (curV P v)"
  by (simp_all add: curV_def askV_def filter_remove1)

lemma curV_fresh: "\<forall>x\<in>set (vOut v). fst x \<le> vGen v \<Longrightarrow> curV P (v\<lparr>vGen := vGen v + 1\<rparr>) = []"
  by (fastforce simp: curV_def filter_empty_conv)

lemma askV_fields [simp]:
  "vSt (askV q v) = vSt v" "vGen (askV q v) = vGen v" "vPend (askV q v) = vPend v" "vStopping (askV q v) = vStopping v"
  "vGone (askV q v) = vGone v" "vLost (askV q v) = vLost v" "vFinish (askV q v) = vFinish v" "vSusp (askV q v) = vSusp v"
  "vRel (askV q v) = vRel v" "vIssue (askV q v) = vIssue v" "vApprovedAt (askV q v) = vApprovedAt v"
  "vVerified (askV q v) = vVerified v" "vApprIF (askV q v) = vApprIF v" "vBaseIF (askV q v) = vBaseIF v"
  "vDispatch (askV q v) = vDispatch v" "vFaulted (askV q v) = vFaulted v" "vEpoch (askV q v) = vEpoch v"
  "vSummarizing (askV q v) = vSummarizing v" "vSummarized (askV q v) = vSummarized v" "vBudget (askV q v) = vBudget v"
  "vQuiet (askV q v) = vQuiet v" "vClosed (askV q v) = vClosed v" "vRetry (askV q v) = vRetry v"
  "vStopIF (askV q v) = vStopIF v" "vProbeIF (askV q v) = vProbeIF v" "vOutcome (askV q v) = vOutcome v"
  "vHandle (askV q v) = vHandle v" "vPump (askV q v) = vPump v" "vOut (askV q v) = vOut v @ [(vGen v, q)]"
  "vTrace (askV q v) = vTrace v @ [Asked q]"
  by (simp_all add: askV_def)

section \<open>The trace\<close>

text \<open>Agents that may still be running, what is not to happen while there is one, and content that was admitted.\<close>

definition liveIn :: "pipeEvent list \<Rightarrow> nat set" where
  "liveIn trace = {h. AgentStarted h \<in> set trace \<and> AgentQuiet h \<notin> set trace}"

fun needsQuiet :: "pipeEvent \<Rightarrow> bool" where
  "needsQuiet (Asked (AskStart _ _)) = True"
| "needsQuiet (Asked (AskVerify _ _)) = True"
| "needsQuiet MarkerFreed = True"
| "needsQuiet _ = False"

definition admitted :: "runtime \<Rightarrow> pipeEvent list \<Rightarrow> coreIssue \<Rightarrow> bool" where
  "admitted u trace issue \<longleftrightarrow>
     (\<exists>history required read a. ApprovalRead history required read \<in> set trace \<and> checkApproval u history required read = Inr a
        \<and> ciTitle issue = icTitle (acContent a) \<and> ciBody issue = icBody (acContent a))"

definition safeNext :: "runtime \<Rightarrow> pipeEvent list \<Rightarrow> pipeEvent \<Rightarrow> bool" where
  "safeNext u trace e \<longleftrightarrow> (needsQuiet e \<longrightarrow> liveIn trace = {})
     \<and> (case e of Asked (AskStart issue _) \<Rightarrow> admitted u trace issue | _ \<Rightarrow> True)"

definition safeTrace :: "runtime \<Rightarrow> pipeEvent list \<Rightarrow> bool" where
  "safeTrace u trace \<longleftrightarrow> (\<forall>pre e post. trace = pre @ e # post \<longrightarrow> safeNext u pre e)"

lemma liveIn_snoc:
  "liveIn (trace @ [e]) = (case e of AgentStarted h \<Rightarrow> (if AgentQuiet h \<in> set trace then liveIn trace else insert h (liveIn trace))
     | AgentQuiet h \<Rightarrow> liveIn trace - {h} | _ \<Rightarrow> liveIn trace)"
  by (auto simp: liveIn_def split: pipeEvent.split)

lemma admitted_snoc: "admitted u trace issue \<Longrightarrow> admitted u (trace @ [e]) issue"
  unfolding admitted_def by auto

lemma safeTrace_snoc: "safeTrace u (trace @ [e]) \<longleftrightarrow> safeTrace u trace \<and> safeNext u trace e"
proof
  assume g: "safeTrace u (trace @ [e])"
  have "safeNext u pre e'" if "trace = pre @ e' # post" for pre e' post
    using g that unfolding safeTrace_def by (metis append.assoc append_Cons)
  then show "safeTrace u trace \<and> safeNext u trace e" using g unfolding safeTrace_def by blast
next
  assume g: "safeTrace u trace \<and> safeNext u trace e"
  show "safeTrace u (trace @ [e])" unfolding safeTrace_def
  proof (intro allI impI)
    fix pre e' post assume eq: "trace @ [e] = pre @ e' # post"
    show "safeNext u pre e'"
    proof (cases post rule: rev_cases)
      case Nil
      then show ?thesis using eq g by simp
    next
      case (snoc post' x)
      then have "trace = pre @ e' # post'" using eq by (metis append_Cons append_assoc butlast_snoc)
      then show ?thesis using g unfolding safeTrace_def by blast
    qed
  qed
qed

section \<open>The invariant\<close>

definition doomedV :: "view \<Rightarrow> bool" where
  "doomedV v \<longleftrightarrow> vRel v \<or> vGone v \<or> vLost v \<or> vSusp v \<or> vFinish v \<noteq> None"

definition busyV :: "view \<Rightarrow> (int \<times> pipeRequest) list" where "busyV v = worksV v @ curV isTimer v"

text \<open>No stop and no probe of this generation is outstanding, and no run of it was pumped.\<close>

definition freshV :: "view \<Rightarrow> bool" where
  "freshV v \<longleftrightarrow> vPump v (vGen v) = None \<and> curV isProbe v = [] \<and> curV isHalt v = [] \<and> curV isSelf v = []"

lemma freshV_update [simp]:
  "freshV (v\<lparr>vSt := x_vSt\<rparr>) = freshV v"
  "freshV (v\<lparr>vPend := x_vPend\<rparr>) = freshV v"
  "freshV (v\<lparr>vStopping := x_vStopping\<rparr>) = freshV v"
  "freshV (v\<lparr>vGone := x_vGone\<rparr>) = freshV v"
  "freshV (v\<lparr>vLost := x_vLost\<rparr>) = freshV v"
  "freshV (v\<lparr>vFinish := x_vFinish\<rparr>) = freshV v"
  "freshV (v\<lparr>vSusp := x_vSusp\<rparr>) = freshV v"
  "freshV (v\<lparr>vRel := x_vRel\<rparr>) = freshV v"
  "freshV (v\<lparr>vIssue := x_vIssue\<rparr>) = freshV v"
  "freshV (v\<lparr>vApprovedAt := x_vApprovedAt\<rparr>) = freshV v"
  "freshV (v\<lparr>vPath := x_vPath\<rparr>) = freshV v"
  "freshV (v\<lparr>vVerified := x_vVerified\<rparr>) = freshV v"
  "freshV (v\<lparr>vApprIF := x_vApprIF\<rparr>) = freshV v"
  "freshV (v\<lparr>vBaseIF := x_vBaseIF\<rparr>) = freshV v"
  "freshV (v\<lparr>vDispatch := x_vDispatch\<rparr>) = freshV v"
  "freshV (v\<lparr>vFaulted := x_vFaulted\<rparr>) = freshV v"
  "freshV (v\<lparr>vEpoch := x_vEpoch\<rparr>) = freshV v"
  "freshV (v\<lparr>vSummarizing := x_vSummarizing\<rparr>) = freshV v"
  "freshV (v\<lparr>vSummarized := x_vSummarized\<rparr>) = freshV v"
  "freshV (v\<lparr>vPark := x_vPark\<rparr>) = freshV v"
  "freshV (v\<lparr>vBudget := x_vBudget\<rparr>) = freshV v"
  "freshV (v\<lparr>vFinishAfter := x_vFinishAfter\<rparr>) = freshV v"
  "freshV (v\<lparr>vQuiet := x_vQuiet\<rparr>) = freshV v"
  "freshV (v\<lparr>vClosed := x_vClosed\<rparr>) = freshV v"
  "freshV (v\<lparr>vDone := x_vDone\<rparr>) = freshV v"
  "freshV (v\<lparr>vRetry := x_vRetry\<rparr>) = freshV v"
  "freshV (v\<lparr>vStopIF := x_vStopIF\<rparr>) = freshV v"
  "freshV (v\<lparr>vProbeIF := x_vProbeIF\<rparr>) = freshV v"
  "freshV (v\<lparr>vOutcome := x_vOutcome\<rparr>) = freshV v"
  "freshV (v\<lparr>vHandle := x_vHandle\<rparr>) = freshV v"
  "freshV (v\<lparr>vTracked := x_vTracked\<rparr>) = freshV v"
  "freshV (v\<lparr>vDraining := x_vDraining\<rparr>) = freshV v"
  "freshV (v\<lparr>vTrace := x_vTrace\<rparr>) = freshV v"
  "freshV (v\<lparr>vNext := x_vNext\<rparr>) = freshV v"
  by (simp_all add: freshV_def)

text \<open>Where the record stands while its one piece of work, or its timer, is outstanding.\<close>

fun okFor :: "pipeRequest \<Rightarrow> view \<Rightarrow> bool" where
  "okFor (AskClaim _) v = (vSt v = StateQueued \<and> vEpoch v \<le> 0 \<and> \<not> vVerified v)"
| "okFor (AskApproval _ _ _) v = (vSt v = StateQueued \<and> vEpoch v \<le> 0 \<and> vApprIF v)"
| "okFor (AskClaimBase _ _) v = ((vSt v = StateQueued \<or> vSt v = StateBackoff \<and> vDispatch v) \<and> vEpoch v > 0 \<and> vBaseIF v)"
| "okFor (AskPrepare _ _ _) v = (vSt v = StatePreparing \<and> \<not> vQuiet v \<and> vOutcome v = None \<and> \<not> vClosed v \<and> \<not> vBudget v
     \<and> \<not> vRel v \<and> freshV v)"
| "okFor (AskStart _ _) v = (vSt v = StatePreparing \<and> \<not> vQuiet v \<and> vOutcome v = None \<and> \<not> vClosed v \<and> \<not> vBudget v
     \<and> \<not> vRel v \<and> freshV v)"
| "okFor (AskSummary _) v = ((vSt v = StateRunning \<or> vSt v = StateVerifying) \<and> vSummarizing v \<and> \<not> vSummarized v)"
| "okFor (AskVerify _ _) v = (vSt v = StateVerifying \<and> vOutcome v = None)"
| "okFor (AskTimer _) v = ((vSt v = StateBackoff \<and> \<not> vDispatch v \<or> vSt v = StateVerifying) \<and> freshV v)"
| "okFor (AskRefetch _ _ _) v = ((vSt v = StateBackoff \<and> \<not> vDispatch v \<or> vSt v = StateVerifying) \<and> freshV v)"
| "okFor _ v = False"

definition controlOk :: "view \<Rightarrow> bool" where
  "controlOk v \<longleftrightarrow> (\<forall>x\<in>set (vOut v). fst x \<le> vGen v) \<and> vPend v = int (length (worksV v))
     \<and> (busyV v = [] \<or> (\<exists>q. busyV v = [(vGen v, q)] \<and> okFor q v \<and> vHandle v = None \<and> \<not> vRetry v))"

definition probeOk :: "view \<Rightarrow> bool" where
  "probeOk v \<longleftrightarrow> curV isProbe v = [] \<or> (\<exists>h. curV isProbe v = [(vGen v, AskProbe h)] \<and> vProbeIF v
     \<and> (vHandle v = Some h \<or> vHandle v = None \<and> doomedV v) \<and> vPump v (vGen v) \<noteq> Some Pumping
     \<and> \<not> vBudget v \<and> vSt v \<notin> {StateQueued, StateClaimed, StateBackoff})"

definition haltOk :: "view \<Rightarrow> bool" where
  "haltOk v \<longleftrightarrow> (curV isHalt v = [] \<or> (\<exists>h mode. curV isHalt v = [(vGen v, AskStop (Some h) mode)] \<and> vStopIF v
     \<and> (vHandle v = Some h \<or> vHandle v = None \<and> vSusp v) \<and> vSt v \<notin> {StateQueued, StateClaimed, StateBackoff}))
     \<and> (curV isProbe v \<noteq> [] \<and> curV isHalt v \<noteq> [] \<longrightarrow> exitingV v)"

definition selfOk :: "view \<Rightarrow> bool" where
  "selfOk v \<longleftrightarrow> curV isSelf v = [] \<or> (\<exists>mode. curV isSelf v = [(vGen v, AskStop None mode)] \<and> vHandle v = None \<and> vStopping v
     \<and> curV isHalt v = [] \<and> (vSt v = StateRunning \<or> vSt v = StateFailed \<and> vSummarized v))"

definition handleOk :: "view \<Rightarrow> bool" where
  "handleOk v \<longleftrightarrow>
     (vHandle v \<noteq> None \<longrightarrow> busyV v = [] \<and> vSt v \<in> {StatePreparing, StateRunning, StateVerifying}
        \<and> (vSt v = StatePreparing \<longrightarrow> vSusp v \<or> vStopping v) \<and> \<not> vRel v \<and> (vBudget v \<longrightarrow> vStopping v \<and> vSt v = StateRunning)
        \<and> \<not> vRetry v)
     \<and> (vHandle v = None \<and> (vOutcome v \<noteq> None \<or> vSt v \<in> {StateRunning, StateVerifying}) \<longrightarrow> vQuiet v)"

definition pumpOk :: "view \<Rightarrow> bool" where
  "pumpOk v \<longleftrightarrow> (\<forall>g. vPump v g \<noteq> None \<longrightarrow> g \<le> vGen v) \<and> (vClosed v \<longrightarrow> vPump v (vGen v) \<noteq> Some Pumping)
     \<and> (vSt v \<in> {StateQueued, StateClaimed, StateBackoff} \<longrightarrow> vPump v (vGen v) = None)"

definition stateOk :: "view \<Rightarrow> bool" where
  "stateOk v \<longleftrightarrow>
     (vSt v \<in> {StateClaimed, StatePreparing, StateRunning, StateVerifying} \<longrightarrow> vEpoch v > 0)
     \<and> (vDispatch v \<longrightarrow> vSt v = StateBackoff \<or> vFaulted v \<and> vSt v = StateNeedsReview)
     \<and> (vRetry v \<longrightarrow> vSt v = StateVerifying \<and> vOutcome v = None \<and> busyV v = [])
     \<and> (vSt v = StateRunning \<longrightarrow> (case vOutcome v of Some (ev, _) \<Rightarrow> evType ev \<noteq> EventSucceeded | None \<Rightarrow> True))"

definition traceOk :: "runtime \<Rightarrow> view \<Rightarrow> bool" where
  "traceOk u v \<longleftrightarrow> (\<forall>h\<in>liveIn (vTrace v). vHandle v = Some h) \<and> (vQuiet v \<longrightarrow> liveIn (vTrace v) = {})
     \<and> (vEpoch v > 0 \<or> vApprovedAt v \<noteq> zeroTime \<longrightarrow> admitted u (vTrace v) (vIssue v)) \<and> safeTrace u (vTrace v)"

definition invV :: "runtime \<Rightarrow> view \<Rightarrow> bool" where
  "invV u v \<longleftrightarrow> controlOk v \<and> probeOk v \<and> haltOk v \<and> selfOk v \<and> handleOk v \<and> pumpOk v \<and> stateOk v \<and> traceOk u v"

lemmas inv_defs = invV_def controlOk_def probeOk_def haltOk_def selfOk_def handleOk_def pumpOk_def stateOk_def traceOk_def
  doomedV_def freshV_def exitingV_def orderedV_def busyV_def

text \<open>Nothing of the record is outstanding but probes and stops, and no agent has a handle.\<close>

definition readyV :: "runtime \<Rightarrow> view \<Rightarrow> bool" where
  "readyV u v \<longleftrightarrow> invV u v \<and> worksV v = [] \<and> curV isTimer v = [] \<and> vHandle v = None"

section \<open>Steps that keep it\<close>

lemma okFor_update [simp]:
  "okFor q (v\<lparr>vPend := x_vPend\<rparr>) = okFor q v"
  "okFor q (v\<lparr>vStopping := x_vStopping\<rparr>) = okFor q v"
  "okFor q (v\<lparr>vGone := x_vGone\<rparr>) = okFor q v"
  "okFor q (v\<lparr>vLost := x_vLost\<rparr>) = okFor q v"
  "okFor q (v\<lparr>vFinish := x_vFinish\<rparr>) = okFor q v"
  "okFor q (v\<lparr>vSusp := x_vSusp\<rparr>) = okFor q v"
  "okFor q (v\<lparr>vIssue := x_vIssue\<rparr>) = okFor q v"
  "okFor q (v\<lparr>vApprovedAt := x_vApprovedAt\<rparr>) = okFor q v"
  "okFor q (v\<lparr>vPath := x_vPath\<rparr>) = okFor q v"
  "okFor q (v\<lparr>vFaulted := x_vFaulted\<rparr>) = okFor q v"
  "okFor q (v\<lparr>vPark := x_vPark\<rparr>) = okFor q v"
  "okFor q (v\<lparr>vFinishAfter := x_vFinishAfter\<rparr>) = okFor q v"
  "okFor q (v\<lparr>vDone := x_vDone\<rparr>) = okFor q v"
  "okFor q (v\<lparr>vRetry := x_vRetry\<rparr>) = okFor q v"
  "okFor q (v\<lparr>vStopIF := x_vStopIF\<rparr>) = okFor q v"
  "okFor q (v\<lparr>vProbeIF := x_vProbeIF\<rparr>) = okFor q v"
  "okFor q (v\<lparr>vHandle := x_vHandle\<rparr>) = okFor q v"
  "okFor q (v\<lparr>vTracked := x_vTracked\<rparr>) = okFor q v"
  "okFor q (v\<lparr>vDraining := x_vDraining\<rparr>) = okFor q v"
  "okFor q (v\<lparr>vTrace := x_vTrace\<rparr>) = okFor q v"
  "okFor q (v\<lparr>vNext := x_vNext\<rparr>) = okFor q v"
  by (cases q; simp add: freshV_def)+

lemma controlOk_update [simp]:
  "controlOk (v\<lparr>vStopping := x_vStopping\<rparr>) = controlOk v"
  "controlOk (v\<lparr>vGone := x_vGone\<rparr>) = controlOk v"
  "controlOk (v\<lparr>vLost := x_vLost\<rparr>) = controlOk v"
  "controlOk (v\<lparr>vFinish := x_vFinish\<rparr>) = controlOk v"
  "controlOk (v\<lparr>vSusp := x_vSusp\<rparr>) = controlOk v"
  "controlOk (v\<lparr>vIssue := x_vIssue\<rparr>) = controlOk v"
  "controlOk (v\<lparr>vApprovedAt := x_vApprovedAt\<rparr>) = controlOk v"
  "controlOk (v\<lparr>vPath := x_vPath\<rparr>) = controlOk v"
  "controlOk (v\<lparr>vFaulted := x_vFaulted\<rparr>) = controlOk v"
  "controlOk (v\<lparr>vPark := x_vPark\<rparr>) = controlOk v"
  "controlOk (v\<lparr>vFinishAfter := x_vFinishAfter\<rparr>) = controlOk v"
  "controlOk (v\<lparr>vDone := x_vDone\<rparr>) = controlOk v"
  "controlOk (v\<lparr>vStopIF := x_vStopIF\<rparr>) = controlOk v"
  "controlOk (v\<lparr>vProbeIF := x_vProbeIF\<rparr>) = controlOk v"
  "controlOk (v\<lparr>vTracked := x_vTracked\<rparr>) = controlOk v"
  "controlOk (v\<lparr>vDraining := x_vDraining\<rparr>) = controlOk v"
  "controlOk (v\<lparr>vTrace := x_vTrace\<rparr>) = controlOk v"
  "controlOk (v\<lparr>vNext := x_vNext\<rparr>) = controlOk v"
  by (simp_all add: controlOk_def doomedV_def exitingV_def orderedV_def busyV_def)

lemma probeOk_update [simp]:
  "probeOk (v\<lparr>vPend := x_vPend\<rparr>) = probeOk v"
  "probeOk (v\<lparr>vStopping := x_vStopping\<rparr>) = probeOk v"
  "probeOk (v\<lparr>vIssue := x_vIssue\<rparr>) = probeOk v"
  "probeOk (v\<lparr>vApprovedAt := x_vApprovedAt\<rparr>) = probeOk v"
  "probeOk (v\<lparr>vPath := x_vPath\<rparr>) = probeOk v"
  "probeOk (v\<lparr>vVerified := x_vVerified\<rparr>) = probeOk v"
  "probeOk (v\<lparr>vApprIF := x_vApprIF\<rparr>) = probeOk v"
  "probeOk (v\<lparr>vBaseIF := x_vBaseIF\<rparr>) = probeOk v"
  "probeOk (v\<lparr>vDispatch := x_vDispatch\<rparr>) = probeOk v"
  "probeOk (v\<lparr>vFaulted := x_vFaulted\<rparr>) = probeOk v"
  "probeOk (v\<lparr>vEpoch := x_vEpoch\<rparr>) = probeOk v"
  "probeOk (v\<lparr>vSummarizing := x_vSummarizing\<rparr>) = probeOk v"
  "probeOk (v\<lparr>vSummarized := x_vSummarized\<rparr>) = probeOk v"
  "probeOk (v\<lparr>vPark := x_vPark\<rparr>) = probeOk v"
  "probeOk (v\<lparr>vFinishAfter := x_vFinishAfter\<rparr>) = probeOk v"
  "probeOk (v\<lparr>vQuiet := x_vQuiet\<rparr>) = probeOk v"
  "probeOk (v\<lparr>vClosed := x_vClosed\<rparr>) = probeOk v"
  "probeOk (v\<lparr>vDone := x_vDone\<rparr>) = probeOk v"
  "probeOk (v\<lparr>vRetry := x_vRetry\<rparr>) = probeOk v"
  "probeOk (v\<lparr>vStopIF := x_vStopIF\<rparr>) = probeOk v"
  "probeOk (v\<lparr>vOutcome := x_vOutcome\<rparr>) = probeOk v"
  "probeOk (v\<lparr>vTracked := x_vTracked\<rparr>) = probeOk v"
  "probeOk (v\<lparr>vDraining := x_vDraining\<rparr>) = probeOk v"
  "probeOk (v\<lparr>vTrace := x_vTrace\<rparr>) = probeOk v"
  "probeOk (v\<lparr>vNext := x_vNext\<rparr>) = probeOk v"
  by (simp_all add: probeOk_def doomedV_def exitingV_def orderedV_def busyV_def)

lemma haltOk_update [simp]:
  "haltOk (v\<lparr>vPend := x_vPend\<rparr>) = haltOk v"
  "haltOk (v\<lparr>vIssue := x_vIssue\<rparr>) = haltOk v"
  "haltOk (v\<lparr>vApprovedAt := x_vApprovedAt\<rparr>) = haltOk v"
  "haltOk (v\<lparr>vPath := x_vPath\<rparr>) = haltOk v"
  "haltOk (v\<lparr>vVerified := x_vVerified\<rparr>) = haltOk v"
  "haltOk (v\<lparr>vApprIF := x_vApprIF\<rparr>) = haltOk v"
  "haltOk (v\<lparr>vBaseIF := x_vBaseIF\<rparr>) = haltOk v"
  "haltOk (v\<lparr>vDispatch := x_vDispatch\<rparr>) = haltOk v"
  "haltOk (v\<lparr>vFaulted := x_vFaulted\<rparr>) = haltOk v"
  "haltOk (v\<lparr>vEpoch := x_vEpoch\<rparr>) = haltOk v"
  "haltOk (v\<lparr>vSummarizing := x_vSummarizing\<rparr>) = haltOk v"
  "haltOk (v\<lparr>vSummarized := x_vSummarized\<rparr>) = haltOk v"
  "haltOk (v\<lparr>vPark := x_vPark\<rparr>) = haltOk v"
  "haltOk (v\<lparr>vBudget := x_vBudget\<rparr>) = haltOk v"
  "haltOk (v\<lparr>vFinishAfter := x_vFinishAfter\<rparr>) = haltOk v"
  "haltOk (v\<lparr>vQuiet := x_vQuiet\<rparr>) = haltOk v"
  "haltOk (v\<lparr>vClosed := x_vClosed\<rparr>) = haltOk v"
  "haltOk (v\<lparr>vDone := x_vDone\<rparr>) = haltOk v"
  "haltOk (v\<lparr>vRetry := x_vRetry\<rparr>) = haltOk v"
  "haltOk (v\<lparr>vProbeIF := x_vProbeIF\<rparr>) = haltOk v"
  "haltOk (v\<lparr>vOutcome := x_vOutcome\<rparr>) = haltOk v"
  "haltOk (v\<lparr>vTracked := x_vTracked\<rparr>) = haltOk v"
  "haltOk (v\<lparr>vDraining := x_vDraining\<rparr>) = haltOk v"
  "haltOk (v\<lparr>vPump := x_vPump\<rparr>) = haltOk v"
  "haltOk (v\<lparr>vTrace := x_vTrace\<rparr>) = haltOk v"
  "haltOk (v\<lparr>vNext := x_vNext\<rparr>) = haltOk v"
  by (simp_all add: haltOk_def doomedV_def exitingV_def orderedV_def busyV_def)

lemma selfOk_update [simp]:
  "selfOk (v\<lparr>vPend := x_vPend\<rparr>) = selfOk v"
  "selfOk (v\<lparr>vGone := x_vGone\<rparr>) = selfOk v"
  "selfOk (v\<lparr>vLost := x_vLost\<rparr>) = selfOk v"
  "selfOk (v\<lparr>vFinish := x_vFinish\<rparr>) = selfOk v"
  "selfOk (v\<lparr>vSusp := x_vSusp\<rparr>) = selfOk v"
  "selfOk (v\<lparr>vRel := x_vRel\<rparr>) = selfOk v"
  "selfOk (v\<lparr>vIssue := x_vIssue\<rparr>) = selfOk v"
  "selfOk (v\<lparr>vApprovedAt := x_vApprovedAt\<rparr>) = selfOk v"
  "selfOk (v\<lparr>vPath := x_vPath\<rparr>) = selfOk v"
  "selfOk (v\<lparr>vVerified := x_vVerified\<rparr>) = selfOk v"
  "selfOk (v\<lparr>vApprIF := x_vApprIF\<rparr>) = selfOk v"
  "selfOk (v\<lparr>vBaseIF := x_vBaseIF\<rparr>) = selfOk v"
  "selfOk (v\<lparr>vDispatch := x_vDispatch\<rparr>) = selfOk v"
  "selfOk (v\<lparr>vFaulted := x_vFaulted\<rparr>) = selfOk v"
  "selfOk (v\<lparr>vEpoch := x_vEpoch\<rparr>) = selfOk v"
  "selfOk (v\<lparr>vSummarizing := x_vSummarizing\<rparr>) = selfOk v"
  "selfOk (v\<lparr>vPark := x_vPark\<rparr>) = selfOk v"
  "selfOk (v\<lparr>vBudget := x_vBudget\<rparr>) = selfOk v"
  "selfOk (v\<lparr>vFinishAfter := x_vFinishAfter\<rparr>) = selfOk v"
  "selfOk (v\<lparr>vQuiet := x_vQuiet\<rparr>) = selfOk v"
  "selfOk (v\<lparr>vClosed := x_vClosed\<rparr>) = selfOk v"
  "selfOk (v\<lparr>vDone := x_vDone\<rparr>) = selfOk v"
  "selfOk (v\<lparr>vRetry := x_vRetry\<rparr>) = selfOk v"
  "selfOk (v\<lparr>vStopIF := x_vStopIF\<rparr>) = selfOk v"
  "selfOk (v\<lparr>vProbeIF := x_vProbeIF\<rparr>) = selfOk v"
  "selfOk (v\<lparr>vOutcome := x_vOutcome\<rparr>) = selfOk v"
  "selfOk (v\<lparr>vTracked := x_vTracked\<rparr>) = selfOk v"
  "selfOk (v\<lparr>vDraining := x_vDraining\<rparr>) = selfOk v"
  "selfOk (v\<lparr>vPump := x_vPump\<rparr>) = selfOk v"
  "selfOk (v\<lparr>vTrace := x_vTrace\<rparr>) = selfOk v"
  "selfOk (v\<lparr>vNext := x_vNext\<rparr>) = selfOk v"
  by (simp_all add: selfOk_def doomedV_def exitingV_def orderedV_def busyV_def)

lemma handleOk_update [simp]:
  "handleOk (v\<lparr>vPend := x_vPend\<rparr>) = handleOk v"
  "handleOk (v\<lparr>vGone := x_vGone\<rparr>) = handleOk v"
  "handleOk (v\<lparr>vLost := x_vLost\<rparr>) = handleOk v"
  "handleOk (v\<lparr>vFinish := x_vFinish\<rparr>) = handleOk v"
  "handleOk (v\<lparr>vIssue := x_vIssue\<rparr>) = handleOk v"
  "handleOk (v\<lparr>vApprovedAt := x_vApprovedAt\<rparr>) = handleOk v"
  "handleOk (v\<lparr>vPath := x_vPath\<rparr>) = handleOk v"
  "handleOk (v\<lparr>vVerified := x_vVerified\<rparr>) = handleOk v"
  "handleOk (v\<lparr>vApprIF := x_vApprIF\<rparr>) = handleOk v"
  "handleOk (v\<lparr>vBaseIF := x_vBaseIF\<rparr>) = handleOk v"
  "handleOk (v\<lparr>vDispatch := x_vDispatch\<rparr>) = handleOk v"
  "handleOk (v\<lparr>vFaulted := x_vFaulted\<rparr>) = handleOk v"
  "handleOk (v\<lparr>vEpoch := x_vEpoch\<rparr>) = handleOk v"
  "handleOk (v\<lparr>vSummarizing := x_vSummarizing\<rparr>) = handleOk v"
  "handleOk (v\<lparr>vSummarized := x_vSummarized\<rparr>) = handleOk v"
  "handleOk (v\<lparr>vPark := x_vPark\<rparr>) = handleOk v"
  "handleOk (v\<lparr>vFinishAfter := x_vFinishAfter\<rparr>) = handleOk v"
  "handleOk (v\<lparr>vClosed := x_vClosed\<rparr>) = handleOk v"
  "handleOk (v\<lparr>vDone := x_vDone\<rparr>) = handleOk v"
  "handleOk (v\<lparr>vStopIF := x_vStopIF\<rparr>) = handleOk v"
  "handleOk (v\<lparr>vProbeIF := x_vProbeIF\<rparr>) = handleOk v"
  "handleOk (v\<lparr>vTracked := x_vTracked\<rparr>) = handleOk v"
  "handleOk (v\<lparr>vDraining := x_vDraining\<rparr>) = handleOk v"
  "handleOk (v\<lparr>vPump := x_vPump\<rparr>) = handleOk v"
  "handleOk (v\<lparr>vTrace := x_vTrace\<rparr>) = handleOk v"
  "handleOk (v\<lparr>vNext := x_vNext\<rparr>) = handleOk v"
  by (simp_all add: handleOk_def doomedV_def exitingV_def orderedV_def busyV_def)

lemma pumpOk_update [simp]:
  "pumpOk (v\<lparr>vPend := x_vPend\<rparr>) = pumpOk v"
  "pumpOk (v\<lparr>vStopping := x_vStopping\<rparr>) = pumpOk v"
  "pumpOk (v\<lparr>vGone := x_vGone\<rparr>) = pumpOk v"
  "pumpOk (v\<lparr>vLost := x_vLost\<rparr>) = pumpOk v"
  "pumpOk (v\<lparr>vFinish := x_vFinish\<rparr>) = pumpOk v"
  "pumpOk (v\<lparr>vSusp := x_vSusp\<rparr>) = pumpOk v"
  "pumpOk (v\<lparr>vRel := x_vRel\<rparr>) = pumpOk v"
  "pumpOk (v\<lparr>vIssue := x_vIssue\<rparr>) = pumpOk v"
  "pumpOk (v\<lparr>vApprovedAt := x_vApprovedAt\<rparr>) = pumpOk v"
  "pumpOk (v\<lparr>vPath := x_vPath\<rparr>) = pumpOk v"
  "pumpOk (v\<lparr>vVerified := x_vVerified\<rparr>) = pumpOk v"
  "pumpOk (v\<lparr>vApprIF := x_vApprIF\<rparr>) = pumpOk v"
  "pumpOk (v\<lparr>vBaseIF := x_vBaseIF\<rparr>) = pumpOk v"
  "pumpOk (v\<lparr>vDispatch := x_vDispatch\<rparr>) = pumpOk v"
  "pumpOk (v\<lparr>vFaulted := x_vFaulted\<rparr>) = pumpOk v"
  "pumpOk (v\<lparr>vEpoch := x_vEpoch\<rparr>) = pumpOk v"
  "pumpOk (v\<lparr>vSummarizing := x_vSummarizing\<rparr>) = pumpOk v"
  "pumpOk (v\<lparr>vSummarized := x_vSummarized\<rparr>) = pumpOk v"
  "pumpOk (v\<lparr>vPark := x_vPark\<rparr>) = pumpOk v"
  "pumpOk (v\<lparr>vBudget := x_vBudget\<rparr>) = pumpOk v"
  "pumpOk (v\<lparr>vFinishAfter := x_vFinishAfter\<rparr>) = pumpOk v"
  "pumpOk (v\<lparr>vQuiet := x_vQuiet\<rparr>) = pumpOk v"
  "pumpOk (v\<lparr>vDone := x_vDone\<rparr>) = pumpOk v"
  "pumpOk (v\<lparr>vRetry := x_vRetry\<rparr>) = pumpOk v"
  "pumpOk (v\<lparr>vStopIF := x_vStopIF\<rparr>) = pumpOk v"
  "pumpOk (v\<lparr>vProbeIF := x_vProbeIF\<rparr>) = pumpOk v"
  "pumpOk (v\<lparr>vOutcome := x_vOutcome\<rparr>) = pumpOk v"
  "pumpOk (v\<lparr>vHandle := x_vHandle\<rparr>) = pumpOk v"
  "pumpOk (v\<lparr>vTracked := x_vTracked\<rparr>) = pumpOk v"
  "pumpOk (v\<lparr>vDraining := x_vDraining\<rparr>) = pumpOk v"
  "pumpOk (v\<lparr>vOut := x_vOut\<rparr>) = pumpOk v"
  "pumpOk (v\<lparr>vTrace := x_vTrace\<rparr>) = pumpOk v"
  "pumpOk (v\<lparr>vNext := x_vNext\<rparr>) = pumpOk v"
  by (simp_all add: pumpOk_def doomedV_def exitingV_def orderedV_def busyV_def)

lemma stateOk_update [simp]:
  "stateOk (v\<lparr>vPend := x_vPend\<rparr>) = stateOk v"
  "stateOk (v\<lparr>vStopping := x_vStopping\<rparr>) = stateOk v"
  "stateOk (v\<lparr>vGone := x_vGone\<rparr>) = stateOk v"
  "stateOk (v\<lparr>vLost := x_vLost\<rparr>) = stateOk v"
  "stateOk (v\<lparr>vFinish := x_vFinish\<rparr>) = stateOk v"
  "stateOk (v\<lparr>vSusp := x_vSusp\<rparr>) = stateOk v"
  "stateOk (v\<lparr>vRel := x_vRel\<rparr>) = stateOk v"
  "stateOk (v\<lparr>vIssue := x_vIssue\<rparr>) = stateOk v"
  "stateOk (v\<lparr>vApprovedAt := x_vApprovedAt\<rparr>) = stateOk v"
  "stateOk (v\<lparr>vPath := x_vPath\<rparr>) = stateOk v"
  "stateOk (v\<lparr>vVerified := x_vVerified\<rparr>) = stateOk v"
  "stateOk (v\<lparr>vApprIF := x_vApprIF\<rparr>) = stateOk v"
  "stateOk (v\<lparr>vBaseIF := x_vBaseIF\<rparr>) = stateOk v"
  "stateOk (v\<lparr>vSummarizing := x_vSummarizing\<rparr>) = stateOk v"
  "stateOk (v\<lparr>vSummarized := x_vSummarized\<rparr>) = stateOk v"
  "stateOk (v\<lparr>vPark := x_vPark\<rparr>) = stateOk v"
  "stateOk (v\<lparr>vBudget := x_vBudget\<rparr>) = stateOk v"
  "stateOk (v\<lparr>vFinishAfter := x_vFinishAfter\<rparr>) = stateOk v"
  "stateOk (v\<lparr>vQuiet := x_vQuiet\<rparr>) = stateOk v"
  "stateOk (v\<lparr>vClosed := x_vClosed\<rparr>) = stateOk v"
  "stateOk (v\<lparr>vDone := x_vDone\<rparr>) = stateOk v"
  "stateOk (v\<lparr>vStopIF := x_vStopIF\<rparr>) = stateOk v"
  "stateOk (v\<lparr>vProbeIF := x_vProbeIF\<rparr>) = stateOk v"
  "stateOk (v\<lparr>vHandle := x_vHandle\<rparr>) = stateOk v"
  "stateOk (v\<lparr>vTracked := x_vTracked\<rparr>) = stateOk v"
  "stateOk (v\<lparr>vDraining := x_vDraining\<rparr>) = stateOk v"
  "stateOk (v\<lparr>vPump := x_vPump\<rparr>) = stateOk v"
  "stateOk (v\<lparr>vTrace := x_vTrace\<rparr>) = stateOk v"
  "stateOk (v\<lparr>vNext := x_vNext\<rparr>) = stateOk v"
  by (simp_all add: stateOk_def doomedV_def exitingV_def orderedV_def busyV_def)

lemma traceOk_update [simp]:
  "traceOk u (v\<lparr>vSt := x_vSt\<rparr>) = traceOk u v"
  "traceOk u (v\<lparr>vGen := x_vGen\<rparr>) = traceOk u v"
  "traceOk u (v\<lparr>vPend := x_vPend\<rparr>) = traceOk u v"
  "traceOk u (v\<lparr>vStopping := x_vStopping\<rparr>) = traceOk u v"
  "traceOk u (v\<lparr>vGone := x_vGone\<rparr>) = traceOk u v"
  "traceOk u (v\<lparr>vLost := x_vLost\<rparr>) = traceOk u v"
  "traceOk u (v\<lparr>vFinish := x_vFinish\<rparr>) = traceOk u v"
  "traceOk u (v\<lparr>vSusp := x_vSusp\<rparr>) = traceOk u v"
  "traceOk u (v\<lparr>vRel := x_vRel\<rparr>) = traceOk u v"
  "traceOk u (v\<lparr>vPath := x_vPath\<rparr>) = traceOk u v"
  "traceOk u (v\<lparr>vVerified := x_vVerified\<rparr>) = traceOk u v"
  "traceOk u (v\<lparr>vApprIF := x_vApprIF\<rparr>) = traceOk u v"
  "traceOk u (v\<lparr>vBaseIF := x_vBaseIF\<rparr>) = traceOk u v"
  "traceOk u (v\<lparr>vDispatch := x_vDispatch\<rparr>) = traceOk u v"
  "traceOk u (v\<lparr>vFaulted := x_vFaulted\<rparr>) = traceOk u v"
  "traceOk u (v\<lparr>vSummarizing := x_vSummarizing\<rparr>) = traceOk u v"
  "traceOk u (v\<lparr>vSummarized := x_vSummarized\<rparr>) = traceOk u v"
  "traceOk u (v\<lparr>vPark := x_vPark\<rparr>) = traceOk u v"
  "traceOk u (v\<lparr>vBudget := x_vBudget\<rparr>) = traceOk u v"
  "traceOk u (v\<lparr>vFinishAfter := x_vFinishAfter\<rparr>) = traceOk u v"
  "traceOk u (v\<lparr>vClosed := x_vClosed\<rparr>) = traceOk u v"
  "traceOk u (v\<lparr>vDone := x_vDone\<rparr>) = traceOk u v"
  "traceOk u (v\<lparr>vRetry := x_vRetry\<rparr>) = traceOk u v"
  "traceOk u (v\<lparr>vStopIF := x_vStopIF\<rparr>) = traceOk u v"
  "traceOk u (v\<lparr>vProbeIF := x_vProbeIF\<rparr>) = traceOk u v"
  "traceOk u (v\<lparr>vOutcome := x_vOutcome\<rparr>) = traceOk u v"
  "traceOk u (v\<lparr>vTracked := x_vTracked\<rparr>) = traceOk u v"
  "traceOk u (v\<lparr>vDraining := x_vDraining\<rparr>) = traceOk u v"
  "traceOk u (v\<lparr>vOut := x_vOut\<rparr>) = traceOk u v"
  "traceOk u (v\<lparr>vPump := x_vPump\<rparr>) = traceOk u v"
  "traceOk u (v\<lparr>vNext := x_vNext\<rparr>) = traceOk u v"
  by (simp_all add: traceOk_def doomedV_def exitingV_def orderedV_def busyV_def)

lemma inv_irrelevant [simp]:
  "invV u (v\<lparr>vPark := x_vPark\<rparr>) = invV u v"
  "invV u (v\<lparr>vFinishAfter := x_vFinishAfter\<rparr>) = invV u v"
  "invV u (v\<lparr>vPath := x_vPath\<rparr>) = invV u v"
  "invV u (v\<lparr>vDone := x_vDone\<rparr>) = invV u v"
  "invV u (v\<lparr>vTracked := x_vTracked\<rparr>) = invV u v"
  "invV u (v\<lparr>vDraining := x_vDraining\<rparr>) = invV u v"
  "invV u (v\<lparr>vNext := x_vNext\<rparr>) = invV u v"
  by (simp_all add: invV_def)

text \<open>Flags that only make the record more careful.\<close>

lemma probeOk_raise:
  assumes "probeOk v"
  shows "probeOk (v\<lparr>vGone := True\<rparr>)" "probeOk (v\<lparr>vLost := True\<rparr>)" "probeOk (v\<lparr>vSusp := True\<rparr>)"
    "probeOk (v\<lparr>vFinish := Some x\<rparr>)" "probeOk (v\<lparr>vProbeIF := True\<rparr>)"
  using assms by (auto simp: probeOk_def doomedV_def)

lemma haltOk_raise:
  assumes "haltOk v"
  shows "haltOk (v\<lparr>vGone := True\<rparr>)" "haltOk (v\<lparr>vLost := True\<rparr>)" "haltOk (v\<lparr>vSusp := True\<rparr>)"
    "haltOk (v\<lparr>vFinish := Some x\<rparr>)" "haltOk (v\<lparr>vStopIF := True\<rparr>)" "haltOk (v\<lparr>vStopping := True\<rparr>)"
  using assms by (auto simp: haltOk_def exitingV_def orderedV_def)

lemma handleOk_raise:
  assumes "handleOk v"
  shows "handleOk (v\<lparr>vSusp := True\<rparr>)" "handleOk (v\<lparr>vStopping := True\<rparr>)"
  using assms by (auto simp: handleOk_def busyV_def)

lemma inv_raise:
  assumes "invV u v"
  shows "invV u (v\<lparr>vGone := True\<rparr>)" "invV u (v\<lparr>vLost := True\<rparr>)" "invV u (v\<lparr>vSusp := True\<rparr>)"
    "invV u (v\<lparr>vFinish := Some x\<rparr>)" "invV u (v\<lparr>vStopping := True\<rparr>)" "invV u (v\<lparr>vFaulted := True\<rparr>)"
    "invV u (v\<lparr>vStopIF := True\<rparr>)" "invV u (v\<lparr>vProbeIF := True\<rparr>)"
  using assms unfolding invV_def
  by (simp_all add: probeOk_raise haltOk_raise handleOk_raise) (auto simp: selfOk_def stateOk_def busyV_def)

lemma traceOk_emit:
  assumes "traceOk u v" "safeNext u (vTrace v) e" "\<forall>h. e \<noteq> AgentStarted h"
  shows "traceOk u (v\<lparr>vTrace := vTrace v @ [e]\<rparr>)"
  using assms by (auto simp: traceOk_def liveIn_snoc safeTrace_snoc admitted_snoc split: pipeEvent.splits)

lemma inv_emit:
  assumes "invV u v" "safeNext u (vTrace v) e" "\<forall>h. e \<noteq> AgentStarted h"
  shows "invV u (emitV e v)"
  using assms traceOk_emit [of u v e] by (simp add: invV_def emitV_def)

text \<open>A request of a form the invariant has no condition on.\<close>

lemma askV_components:
  "\<not> isProbe q \<Longrightarrow> probeOk v \<Longrightarrow> probeOk (askV q v)"
  "\<not> isProbe q \<Longrightarrow> \<not> isHalt q \<Longrightarrow> haltOk v \<Longrightarrow> haltOk (askV q v)"
  "\<not> isSelf q \<Longrightarrow> \<not> isHalt q \<Longrightarrow> selfOk v \<Longrightarrow> selfOk (askV q v)"
  "\<not> isWork q \<Longrightarrow> \<not> isTimer q \<Longrightarrow> handleOk v \<Longrightarrow> handleOk (askV q v)"
  "\<not> isWork q \<Longrightarrow> \<not> isTimer q \<Longrightarrow> stateOk v \<Longrightarrow> stateOk (askV q v)"
  "pumpOk v \<Longrightarrow> pumpOk (askV q v)"
  "traceOk u v \<Longrightarrow> safeNext u (vTrace v) (Asked q) \<Longrightarrow> traceOk u (askV q v)"
  by (simp_all add: probeOk_def haltOk_def selfOk_def handleOk_def stateOk_def pumpOk_def doomedV_def exitingV_def orderedV_def
      busyV_def)
    (auto simp: traceOk_def liveIn_snoc safeTrace_snoc admitted_snoc)

lemma okFor_ask [simp]: "\<not> isProbe q' \<Longrightarrow> \<not> isHalt q' \<Longrightarrow> \<not> isSelf q' \<Longrightarrow> okFor q (askV q' v) = okFor q v"
  by (cases q) (simp_all add: freshV_def)

lemma ready_work:
  assumes "readyV u v" "isWork q" "okFor q v" "\<not> vRetry v" "safeNext u (vTrace v) (Asked q)"
  shows "invV u (workV q v)"
proof -
  have k: "\<not> isProbe q" "\<not> isHalt q" "\<not> isSelf q" "\<not> isTimer q" using assms(2) by (cases q; simp)+
  have v: "controlOk v" "probeOk v" "haltOk v" "selfOk v" "handleOk v" "pumpOk v" "stateOk v" "traceOk u v"
    "worksV v = []" "curV isTimer v = []" "vHandle v = None"
    using assms(1) by (simp_all add: readyV_def invV_def)
  have "controlOk (workV q v)" using v assms k by (simp add: controlOk_def workV_def busyV_def)
  moreover have "handleOk (workV q v)" using v by (simp add: handleOk_def workV_def)
  moreover have "stateOk (workV q v)" using v(7) assms(4) by (simp add: stateOk_def workV_def)
  ultimately show ?thesis using v k assms(5) by (simp add: invV_def workV_def askV_components)
qed

lemma ready_timer:
  assumes "readyV u v" "isTimer q" "okFor q v" "\<not> vRetry v"
  shows "invV u (askV q v)"
proof -
  have k: "\<not> isProbe q" "\<not> isHalt q" "\<not> isSelf q" "\<not> isWork q" using assms(2) by (cases q; simp)+
  have s: "safeNext u (vTrace v) (Asked q)" using assms(2) by (cases q; simp add: safeNext_def)
  have v: "controlOk v" "probeOk v" "haltOk v" "selfOk v" "handleOk v" "pumpOk v" "stateOk v" "traceOk u v"
    "worksV v = []" "curV isTimer v = []" "vHandle v = None"
    using assms(1) by (simp_all add: readyV_def invV_def)
  have "controlOk (askV q v)" using v assms k by (simp add: controlOk_def busyV_def)
  moreover have "handleOk (askV q v)" using v by (simp add: handleOk_def)
  moreover have "stateOk (askV q v)" using v(7) assms(4) by (simp add: stateOk_def)
  ultimately show ?thesis using v k s by (simp add: invV_def askV_components)
qed

lemma inv_ask_read:
  assumes "invV u v" "\<not> isWork q" "\<not> isTimer q" "\<not> isProbe q" "\<not> isHalt q" "\<not> isSelf q"
  shows "invV u (askV q v)"
proof -
  have s: "safeNext u (vTrace v) (Asked q)" using assms by (cases q; simp add: safeNext_def)
  have "controlOk (askV q v)" using assms by (simp add: invV_def controlOk_def busyV_def)
  then show ?thesis using assms s by (simp add: invV_def askV_components)
qed

section \<open>Stops and exits\<close>

lemma inv_parts:
  assumes "invV u v"
  shows "controlOk v" "probeOk v" "haltOk v" "selfOk v" "handleOk v" "pumpOk v" "stateOk v" "traceOk u v"
  using assms by (simp_all add: invV_def)

lemma inv_handle:
  assumes "invV u v" "vHandle v = Some h"
  shows "busyV v = []" "worksV v = []" "curV isTimer v = []" "curV isSelf v = []" "\<not> vRel v" "\<not> vRetry v" "vPend v = 0"
  using assms by (auto simp: invV_def controlOk_def handleOk_def selfOk_def busyV_def)

lemma inv_noHandle: "invV u v \<Longrightarrow> vHandle v = None \<Longrightarrow> liveIn (vTrace v) = {}"
  by (auto simp: invV_def traceOk_def)

lemma inv_stop:
  assumes v: "invV u v" and h: "vHandle v = Some h" and p: "curV isProbe v = [] \<or> exitingV v"
  shows "invV u (beginStopV mode v)"
proof (cases "vStopIF v")
  case True
  then show ?thesis using v by (simp add: beginStopV_def)
next
  case False
  let ?q = "AskStop (Some h) mode" and ?v = "v\<lparr>vStopIF := True\<rparr>"
  have "curV isHalt v = []" using inv_parts(3) [OF v] False by (auto simp: haltOk_def)
  then have "haltOk (askV ?q ?v)" using inv_parts(3,5) [OF v] h p
    by (auto simp: haltOk_def handleOk_def exitingV_def orderedV_def)
  moreover have "controlOk (askV ?q ?v)" using inv_parts(1) [OF v] inv_handle [OF v h] by (simp add: controlOk_def busyV_def)
  moreover have "selfOk (askV ?q ?v)" using inv_handle(4) [OF v h] by (simp add: selfOk_def)
  ultimately have "invV u (askV ?q ?v)" using inv_parts [OF v]
    by (simp add: invV_def askV_components safeNext_def)
  then show ?thesis using False h by (simp add: beginStopV_def)
qed

lemma inv_budget:
  assumes v: "invV u v" and s: "vSt v = StateRunning" "\<not> vStopping v" "vPump v (vGen v) = Some Pumping" "\<not> vSusp v"
  shows "invV u (beginStopV mode (v\<lparr>vBudget := True, vStopping := True\<rparr>))"
proof -
  let ?v = "v\<lparr>vBudget := True, vStopping := True\<rparr>"
  have pr: "curV isProbe v = []" using inv_parts(2) [OF v] s by (auto simp: probeOk_def)
  have "controlOk ?v"
  proof -
    have "okFor q ?v = okFor q v" for q using s by (cases q) (simp_all add: freshV_def)
    then show ?thesis using inv_parts(1) [OF v] by (simp add: controlOk_def busyV_def)
  qed
  moreover have "handleOk ?v" using inv_parts(5) [OF v] s by (simp add: handleOk_def busyV_def)
  moreover have "selfOk ?v" using inv_parts(4) [OF v] s by (auto simp: selfOk_def)
  moreover have "haltOk ?v" using inv_parts(3) [OF v] by (simp add: haltOk_raise)
  ultimately have w: "invV u ?v" using inv_parts [OF v] pr by (simp add: invV_def probeOk_def)
  show ?thesis
  proof (cases "vHandle v")
    case (Some h)
    then show ?thesis using inv_stop [OF w, of h mode] pr by simp
  next
    case None
    have se: "curV isSelf v = []" using inv_parts(4) [OF v] s by (auto simp: selfOk_def)
    have c: "controlOk (askV (AskStop None mode) ?v)"
    proof -
      have "okFor q (askV (AskStop None mode) ?v) = okFor q ?v" for q
        using s by (cases q) (simp_all add: freshV_def)
      then show ?thesis using inv_parts(1) [OF w] by (simp add: controlOk_def busyV_def)
    qed
    have "curV isHalt v = []" using inv_parts(3) [OF v] None s by (auto simp: haltOk_def)
    then have "selfOk (askV (AskStop None mode) ?v)" using se None s by (simp add: selfOk_def)
    then have "invV u (askV (AskStop None mode) ?v)" using c inv_parts [OF w]
      by (simp add: invV_def askV_components safeNext_def)
    then show ?thesis using None w by (simp add: beginStopV_def)
  qed
qed

lemma inv_finishNow:
  assumes v: "invV u v" and h: "vHandle v = None" and w: "worksV v = []"
  shows "invV u (finishNowV v)" "invV u (finishNowV (v\<lparr>vFinish := f\<rparr>))"
proof -
  have ok: "okFor q (v\<lparr>vFinish := f, vPark := False, vRel := b\<rparr>) = okFor q v" if "isTimer q" for q b f
    using that by (cases q) (simp_all add: freshV_def)
  have "controlOk (v\<lparr>vFinish := f, vPark := False, vRel := b\<rparr>)" for b f
  proof -
    have "isTimer (snd x)" if "x \<in> set (curV isTimer v)" for x using that by (simp add: curV_def)
    then have "\<forall>q. curV isTimer v = [(vGen v, q)] \<longrightarrow> isTimer q" by (metis list.set_intros(1) snd_conv)
    then show ?thesis using inv_parts(1) [OF v] w ok by (simp add: controlOk_def busyV_def) blast
  qed
  note c = this
  have "probeOk (finishNowV (v\<lparr>vFinish := f\<rparr>))" for f
    using inv_parts(2) [OF v] h by (auto simp: probeOk_def finishNowV_def doomedV_def)
  moreover have "haltOk (finishNowV (v\<lparr>vFinish := f\<rparr>))" for f
    using inv_parts(3) [OF v] h by (auto simp: haltOk_def finishNowV_def exitingV_def orderedV_def)
  moreover have "handleOk (finishNowV (v\<lparr>vFinish := f\<rparr>))" for f
    using inv_parts(5) [OF v] h by (simp add: handleOk_def finishNowV_def)
  ultimately have "invV u (finishNowV (v\<lparr>vFinish := f\<rparr>))" for f
    using inv_parts [OF v] c by (simp add: invV_def) (simp add: finishNowV_def)
  from this [of f] this [of "vFinish v"]
  show "invV u (finishNowV v)" "invV u (finishNowV (v\<lparr>vFinish := f\<rparr>))" by simp_all
qed

lemma inv_unfinish:
  assumes v: "invV u v" and h: "vHandle v = Some h"
  shows "invV u (v\<lparr>vFinish := None, vStopping := True\<rparr>)"
proof -
  have "probeOk (v\<lparr>vFinish := None, vStopping := True\<rparr>)" using inv_parts(2) [OF v] h by (auto simp: probeOk_def)
  moreover have "haltOk (v\<lparr>vFinish := None, vStopping := True\<rparr>)" using inv_parts(3) [OF v] h
    by (auto simp: haltOk_def exitingV_def orderedV_def)
  moreover have "handleOk (v\<lparr>vFinish := None, vStopping := True\<rparr>)" using inv_parts(5) [OF v]
    by (auto simp: handleOk_def busyV_def)
  moreover have "selfOk (v\<lparr>vFinish := None, vStopping := True\<rparr>)" using inv_parts(4) [OF v] by (auto simp: selfOk_def)
  ultimately show ?thesis using inv_parts [OF v] by (simp add: invV_def)
qed

lemma inv_finishIfRequested:
  assumes v: "invV u v" and p: "vPend v \<le> 0"
  shows "invV u (finishIfRequestedV v)"
proof (cases "vHandle v")
  case None
  moreover have "worksV v = []" using inv_parts(1) [OF v] p by (simp add: controlOk_def)
  ultimately show ?thesis using inv_finishNow [OF v] by (simp add: finishIfRequestedV_def)
next
  case (Some h)
  have "invV u (beginStopV StopDiscard (v\<lparr>vFinish := None, vStopping := True\<rparr>))"
    by (rule inv_stop [OF inv_unfinish [OF v Some], of h]) (simp_all add: Some exitingV_def orderedV_def)
  then show ?thesis using Some by (simp add: finishIfRequestedV_def)
qed

lemma inv_stopAndFinish:
  assumes v: "invV u v"
  shows "invV u (stopAndFinishV keep why v)"
proof (cases "vHandle v")
  case None
  have "worksV v = []" if "\<not> vPend v > 0" using inv_parts(1) [OF v] that by (simp add: controlOk_def)
  then show ?thesis using None v inv_finishNow(1) [of u "v\<lparr>vFinishAfter := True\<rparr>"] inv_raise(4) [of u "v\<lparr>vFinishAfter := True\<rparr>"]
    by (auto simp: stopAndFinishV_def)
next
  case (Some h)
  have "invV u (v\<lparr>vFinishAfter := True, vStopping := True\<rparr>)" using inv_raise(5) [of u "v\<lparr>vFinishAfter := True\<rparr>"] v by simp
  then have "invV u (beginStopV StopDiscard (v\<lparr>vFinishAfter := True, vStopping := True\<rparr>))"
    by (rule inv_stop [of _ _ h]) (simp_all add: Some exitingV_def orderedV_def)
  then show ?thesis using Some by (simp add: stopAndFinishV_def)
qed

section \<open>Changes of state\<close>

lemma ready_parts:
  assumes "readyV u v"
  shows "controlOk v" "probeOk v" "haltOk v" "selfOk v" "handleOk v" "pumpOk v" "stateOk v" "traceOk u v"
    "worksV v = []" "curV isTimer v = []" "vHandle v = None" "vPend v = 0" "invV u v" "busyV v = []" "liveIn (vTrace v) = {}"
  using assms by (auto simp: readyV_def invV_def controlOk_def busyV_def traceOk_def)

lemma ready_bump:
  assumes v: "readyV u v" and s: "\<not> vRetry v"
  shows "readyV u (v\<lparr>vStopping := b, vGen := vGen v + 1\<rparr>)" "freshV (v\<lparr>vStopping := b, vGen := vGen v + 1\<rparr>)"
proof -
  let ?v = "v\<lparr>vStopping := b, vGen := vGen v + 1\<rparr>"
  have le: "\<forall>x\<in>set (vOut v). fst x \<le> vGen v" using ready_parts(1) [OF v] by (simp add: controlOk_def)
  have cur: "curV P ?v = []" for P
    using curV_fresh [of "v\<lparr>vStopping := b\<rparr>" P] le by simp
  have pm: "vPump v (vGen v + 1) = None" using ready_parts(6) [OF v] unfolding pumpOk_def by force
  show "freshV ?v" using cur pm by (simp add: freshV_def)
  have "pumpOk ?v" using ready_parts(6) [OF v] pm by (force simp: pumpOk_def)
  moreover have "controlOk ?v" using ready_parts(1,9) [OF v] le cur by (force simp: controlOk_def busyV_def)
  moreover have "handleOk ?v" using ready_parts(5,9,11) [OF v] cur by (simp add: handleOk_def busyV_def)
  moreover have "stateOk ?v" using ready_parts(7) [OF v] s by (simp add: stateOk_def)
  ultimately show "readyV u ?v" using ready_parts [OF v] cur
    by (simp add: readyV_def invV_def probeOk_def haltOk_def selfOk_def)
qed

text \<open>A record with nothing outstanding may change its state; stops of its own look at the state.\<close>

lemma ready_state:
  assumes v: "readyV u v" and s: "\<not> vRetry v" and o: "curV isSelf v = [] \<or> to = StateFailed \<and> vSummarized v"
    and d: "vDispatch v \<longrightarrow> to = StateBackoff \<or> vFaulted v \<and> to = StateNeedsReview"
    and f: "to \<in> {StateClaimed, StateBackoff} \<longrightarrow> freshV v"
    and e: "to \<in> {StateClaimed, StatePreparing} \<longrightarrow> vEpoch v > 0" and n: "to \<notin> {StateQueued, StateRunning, StateVerifying}"
  shows "readyV u (v\<lparr>vSt := to\<rparr>)"
proof -
  let ?v = "v\<lparr>vSt := to\<rparr>"
  have "probeOk ?v" using ready_parts(2) [OF v] f n by (auto simp: probeOk_def doomedV_def freshV_def)
  moreover have "haltOk ?v" using ready_parts(3) [OF v] f n by (auto simp: haltOk_def exitingV_def orderedV_def freshV_def)
  moreover have "selfOk ?v" using ready_parts(4) [OF v] o by (auto simp: selfOk_def)
  moreover have "handleOk ?v" using ready_parts(5,11) [OF v] n by (auto simp: handleOk_def)
  moreover have "pumpOk ?v" using ready_parts(6) [OF v] f n by (auto simp: pumpOk_def freshV_def)
  moreover have "stateOk ?v" using ready_parts(7) [OF v] s d e n by (auto simp: stateOk_def)
  moreover have "controlOk ?v" using ready_parts(1,14) [OF v] by (simp add: controlOk_def busyV_def)
  ultimately show ?thesis using ready_parts [OF v] by (simp add: readyV_def invV_def)
qed

lemma inv_enterBackoff:
  assumes v: "readyV u v" and s: "\<not> vRetry v" "\<not> vDispatch v"
  shows "invV u (enterBackoffV v)"
proof (cases "Allowed (vSt v) StateBackoff")
  case True
  let ?w = "v\<lparr>vStopping := False, vGen := vGen v + 1\<rparr>"
  have w: "readyV u ?w" "freshV ?w" using ready_bump [OF v s(1), of False] by simp_all
  have "readyV u (?w\<lparr>vSt := StateBackoff\<rparr>)" by (rule ready_state [OF w(1)]) (use s w(2) in \<open>simp_all add: freshV_def\<close>)
  moreover have "?w\<lparr>vSt := StateBackoff\<rparr> = v\<lparr>vSt := StateBackoff, vStopping := False, vGen := vGen v + 1\<rparr>" by simp
  moreover have "freshV (v\<lparr>vSt := StateBackoff, vStopping := False, vGen := vGen v + 1\<rparr>)"
    using w(2) by (simp add: freshV_def curV_def)
  ultimately show ?thesis using True s by (simp add: enterBackoffV_def ready_timer)
next
  case False
  then show ?thesis using v unfolding enterBackoffV_def by (simp add: readyV_def)
qed

lemma inv_enterFailed:
  assumes v: "readyV u v" and s: "\<not> vRetry v" "curV isSelf v = [] \<or> vSummarized v" "\<not> vDispatch v"
  shows "invV u (enterFailedV v)"
proof -
  have w: "readyV u (v\<lparr>vSt := StateFailed\<rparr>)" by (rule ready_state [OF v s(1)]) (use s(2,3) in simp_all)
  have "invV u (v\<lparr>vSt := StateFailed, vRel := True\<rparr>)"
  proof -
    let ?w = "v\<lparr>vSt := StateFailed\<rparr>"
    have "probeOk (?w\<lparr>vRel := True\<rparr>)" using ready_parts(2) [OF w] by (auto simp: probeOk_def doomedV_def)
    moreover have "haltOk (?w\<lparr>vRel := True\<rparr>)" using ready_parts(3) [OF w] by (auto simp: haltOk_def exitingV_def orderedV_def)
    moreover have "handleOk (?w\<lparr>vRel := True\<rparr>)" using ready_parts(5,11) [OF w] by (simp add: handleOk_def)
    moreover have "controlOk (?w\<lparr>vRel := True\<rparr>)" using ready_parts(1,14) [OF w] by (simp add: controlOk_def busyV_def)
    ultimately show ?thesis using ready_parts [OF w] by (simp add: invV_def)
  qed
  then show ?thesis using v by (simp add: enterFailedV_def readyV_def)
qed

lemma inv_enterReview:
  assumes v: "readyV u v" and s: "\<not> vRetry v" "vDispatch v \<longrightarrow> vFaulted v"
  shows "invV u (enterReviewV v)"
proof (cases "orderedV v")
  case True
  then show ?thesis using v by (simp add: enterReviewV_def readyV_def)
next
  case False
  then have "curV isSelf v = []" using ready_parts(4) [OF v] by (auto simp: selfOk_def orderedV_def)
  then have "readyV u (v\<lparr>vSt := StateNeedsReview\<rparr>)" by (intro ready_state [OF v s(1)]) (use s(2) in simp_all)
  then show ?thesis using v by (simp add: enterReviewV_def readyV_def)
qed

section \<open>Replies\<close>

lemma curV_in: "(g, q) \<in> set (curV P v) \<longleftrightarrow> (g, q) \<in> set (vOut v) \<and> g = vGen v \<and> P q"
  by (auto simp: curV_def)

lemma worksV_in: "(g, q) \<in> set (worksV v) \<longleftrightarrow> (g, q) \<in> set (vOut v) \<and> isWork q"
  by (auto simp: worksV_def)

text \<open>A request that is taken off the list, which its form or its generation makes none of the others.\<close>

definition dropV :: "int \<Rightarrow> pipeRequest \<Rightarrow> view \<Rightarrow> view" where
  "dropV g q v = v\<lparr>vOut := remove1 (g, q) (vOut v)\<rparr>"

lemma dropV_fields [simp]:
  "vSt (dropV g q v) = vSt v"
  "vGen (dropV g q v) = vGen v"
  "vPend (dropV g q v) = vPend v"
  "vStopping (dropV g q v) = vStopping v"
  "vGone (dropV g q v) = vGone v"
  "vLost (dropV g q v) = vLost v"
  "vFinish (dropV g q v) = vFinish v"
  "vSusp (dropV g q v) = vSusp v"
  "vRel (dropV g q v) = vRel v"
  "vIssue (dropV g q v) = vIssue v"
  "vApprovedAt (dropV g q v) = vApprovedAt v"
  "vPath (dropV g q v) = vPath v"
  "vVerified (dropV g q v) = vVerified v"
  "vApprIF (dropV g q v) = vApprIF v"
  "vBaseIF (dropV g q v) = vBaseIF v"
  "vDispatch (dropV g q v) = vDispatch v"
  "vFaulted (dropV g q v) = vFaulted v"
  "vEpoch (dropV g q v) = vEpoch v"
  "vSummarizing (dropV g q v) = vSummarizing v"
  "vSummarized (dropV g q v) = vSummarized v"
  "vPark (dropV g q v) = vPark v"
  "vBudget (dropV g q v) = vBudget v"
  "vFinishAfter (dropV g q v) = vFinishAfter v"
  "vQuiet (dropV g q v) = vQuiet v"
  "vClosed (dropV g q v) = vClosed v"
  "vDone (dropV g q v) = vDone v"
  "vRetry (dropV g q v) = vRetry v"
  "vStopIF (dropV g q v) = vStopIF v"
  "vProbeIF (dropV g q v) = vProbeIF v"
  "vOutcome (dropV g q v) = vOutcome v"
  "vHandle (dropV g q v) = vHandle v"
  "vTracked (dropV g q v) = vTracked v"
  "vDraining (dropV g q v) = vDraining v"
  "vPump (dropV g q v) = vPump v"
  "vTrace (dropV g q v) = vTrace v"
  "vNext (dropV g q v) = vNext v"
  by (simp_all add: dropV_def)

lemma dropV_sub: "set (vOut (dropV g q v)) \<subseteq> set (vOut v)"
  by (simp add: dropV_def set_remove1_subset)

lemma curV_drop: "g \<noteq> vGen v \<or> \<not> P q \<Longrightarrow> curV P (dropV g q v) = curV P v"
  using curV_in [of g q P v] by (simp add: dropV_def remove1_idem)

lemma worksV_drop: "\<not> isWork q \<Longrightarrow> worksV (dropV g q v) = worksV v"
  using worksV_in [of g q v] by (simp add: dropV_def remove1_idem)

lemma drop_components:
  "g \<noteq> vGen v \<or> \<not> isProbe q \<Longrightarrow> probeOk v \<Longrightarrow> probeOk (dropV g q v)"
  "g \<noteq> vGen v \<or> \<not> isProbe q \<and> \<not> isHalt q \<Longrightarrow> haltOk v \<Longrightarrow> haltOk (dropV g q v)"
  "pumpOk v \<Longrightarrow> pumpOk (dropV g q v)"
  "traceOk u v \<Longrightarrow> traceOk u (dropV g q v)"
  by (simp_all only: probeOk_def haltOk_def selfOk_def pumpOk_def traceOk_def doomedV_def exitingV_def orderedV_def curV_drop
      dropV_fields) (simp_all add: curV_drop)

lemma selfOk_drop: "g \<noteq> vGen v \<or> \<not> isSelf q \<Longrightarrow> selfOk v \<Longrightarrow> selfOk (dropV g q v)"
proof -
  assume "g \<noteq> vGen v \<or> \<not> isSelf q" "selfOk v"
  moreover have "curV isHalt v = [] \<Longrightarrow> curV isHalt (dropV g q v) = []" by (simp add: dropV_def)
  ultimately show ?thesis by (auto simp: selfOk_def curV_drop)
qed

lemma freshV_drop: "\<not> isProbe q \<Longrightarrow> \<not> isHalt q \<Longrightarrow> \<not> isSelf q \<Longrightarrow> freshV (dropV g q v) = freshV v"
  by (simp add: freshV_def curV_drop)

lemma okFor_drop: "\<not> isProbe q \<Longrightarrow> \<not> isHalt q \<Longrightarrow> \<not> isSelf q \<Longrightarrow> okFor q' (dropV g q v) = okFor q' v"
  using freshV_drop [of q g v] by (cases q') simp_all

lemma reply_busy:
  assumes v: "invV u v" and q: "(g, q) \<in> set (busyV v)"
  shows "g = vGen v" "okFor q (dropV g q v)" "\<not> vRetry v"
    "readyV u ((dropV g q v)\<lparr>vPend := (if isWork q then vPend v - 1 else vPend v)\<rparr>)"
proof -
  have "isWork q \<or> isTimer q" using q by (auto simp: busyV_def worksV_in curV_in)
  then have k: "\<not> isProbe q" "\<not> isHalt q" "\<not> isSelf q" "isWork q \<longleftrightarrow> \<not> isTimer q" by (cases q; simp)+
  have b: "busyV v = [(vGen v, q)]" "g = vGen v" "okFor q v" "vHandle v = None" "\<not> vRetry v"
    using q inv_parts(1) [OF v] by (auto simp: controlOk_def)
  show "g = vGen v" "\<not> vRetry v" "okFor q (dropV g q v)" using b k by (simp_all add: okFor_drop)
  have w: "worksV v = (if isWork q then [(g, q)] else [])" "curV isTimer v = (if isWork q then [] else [(g, q)])"
    using b(1,2) q k worksV_in [of g q v] curV_in [of g q isTimer v] by (auto simp: busyV_def append_eq_Cons_conv)
  have wk: "worksV (dropV g q v) = []" "curV isTimer (dropV g q v) = []" using w by (simp_all add: dropV_def)
  let ?v = "(dropV g q v)\<lparr>vPend := (if isWork q then vPend v - 1 else vPend v)\<rparr>"
  have f: "vHandle ?v = None" "\<not> vRetry ?v" "set (vOut ?v) \<subseteq> set (vOut v)"
    using b dropV_sub [of g q v] by simp_all
  have "\<forall>x\<in>set (vOut ?v). fst x \<le> vGen ?v"
    using inv_parts(1) [OF v] f(3) by (auto simp: controlOk_def dropV_def)
  moreover have "vPend ?v = 0" using inv_parts(1) [OF v] w by (simp add: controlOk_def)
  ultimately have "controlOk ?v" using wk by (simp add: controlOk_def busyV_def)
  moreover have "handleOk ?v" using inv_parts(5) [OF v] f b(4) by (simp add: handleOk_def)
  moreover have "stateOk ?v" using inv_parts(7) [OF v] f b(5) by (simp add: stateOk_def)
  ultimately show "readyV u ?v" using inv_parts [OF v] wk f(1) k
    by (simp add: readyV_def invV_def drop_components selfOk_drop)
qed

lemma reply_work:
  assumes v: "invV u v" and q: "(g, q) \<in> set (vOut v)" "isWork q"
  shows "g = vGen v" "okFor q (dropV g q v)" "\<not> vRetry v" "readyV u ((dropV g q v)\<lparr>vPend := vPend v - 1\<rparr>)"
  using reply_busy [OF v, of g q] q by (simp_all add: busyV_def worksV_in)

lemma reply_timer:
  assumes v: "invV u v" and q: "(vGen v, q) \<in> set (vOut v)" "isTimer q"
  shows "okFor q (dropV (vGen v) q v)" "\<not> vRetry v" "readyV u (dropV (vGen v) q v)"
proof -
  have k: "\<not> isWork q" and b: "(vGen v, q) \<in> set (busyV v)" using q by (cases q; simp add: busyV_def curV_in)+
  have e: "(dropV (vGen v) q v)\<lparr>vPend := vPend v\<rparr> = dropV (vGen v) q v" by (simp add: dropV_def)
  show "okFor q (dropV (vGen v) q v)" "\<not> vRetry v" using reply_busy(2,3) [OF v b] by simp_all
  show "readyV u (dropV (vGen v) q v)" using reply_busy(4) [OF v b] k e by metis
qed

text \<open>A request that is answered late, or that nothing depends on.\<close>

lemma reply_other:
  assumes v: "invV u v" and q: "\<not> isWork q" "g \<noteq> vGen v \<or> \<not> isTimer q \<and> \<not> isProbe q \<and> \<not> isHalt q \<and> \<not> isSelf q"
  shows "invV u (dropV g q v)"
proof -
  have e: "worksV (dropV g q v) = worksV v" "curV isTimer (dropV g q v) = curV isTimer v"
    "curV isProbe (dropV g q v) = curV isProbe v" "curV isHalt (dropV g q v) = curV isHalt v"
    "curV isSelf (dropV g q v) = curV isSelf v"
    using q by (auto simp: worksV_drop curV_drop)
  have "freshV (dropV g q v) = freshV v" using e by (simp add: freshV_def)
  then have "okFor q' (dropV g q v) = okFor q' v" for q' by (cases q') simp_all
  then have "controlOk (dropV g q v)" using inv_parts(1) [OF v] e dropV_sub [of g q v]
    unfolding controlOk_def busyV_def by (simp add: subset_eq)
  moreover have "handleOk (dropV g q v)" using inv_parts(5) [OF v] e by (simp add: handleOk_def busyV_def)
  moreover have "stateOk (dropV g q v)" using inv_parts(7) [OF v] e by (simp add: stateOk_def busyV_def)
  ultimately show ?thesis using inv_parts [OF v] q by (auto simp: invV_def drop_components selfOk_drop)
qed

end
