(* ===== verification/OrchPipeKeep.thy ===== *)
theory OrchPipeKeep
  imports OrchPipeInv
begin

text \<open>
  Every handler of the dispatch pipeline keeps the invariant of \<open>OrchPipeInv\<close>.
\<close>

section \<open>Ends of an attempt\<close>

lemma controlOk_keep:
  assumes "controlOk v" "vOut v' = vOut v" "vGen v' = vGen v" "vPend v' = vPend v" "vRetry v' = vRetry v"
    "vHandle v' = vHandle v \<or> vHandle v' = None" "\<And>q. busyV v = [(vGen v, q)] \<Longrightarrow> okFor q v \<Longrightarrow> okFor q v'"
  shows "controlOk v'"
proof -
  have "worksV v' = worksV v" "busyV v' = busyV v" using assms(2,3) by (simp_all add: worksV_def curV_def busyV_def)
  then show ?thesis using assms unfolding controlOk_def by auto
qed

lemma ready_emit:
  assumes "readyV u v" "\<forall>h. e \<noteq> AgentStarted h" "case e of Asked q \<Rightarrow> False | _ \<Rightarrow> True"
  shows "readyV u (emitV e v)"
proof -
  have "safeNext u (vTrace v) e" using assms ready_parts(15) [OF assms(1)] by (auto simp: safeNext_def split: pipeEvent.splits)
  then have "invV u (emitV e v)" using assms inv_emit [of u v e] by (simp add: readyV_def)
  then show ?thesis using assms(1) by (simp add: readyV_def emitV_def)
qed

lemma ready_flags:
  assumes v: "readyV u v"
  shows "readyV u (v\<lparr>vSummarized := True\<rparr>)" "readyV u (v\<lparr>vSummarizing := b\<rparr>)" "readyV u (v\<lparr>vOutcome := None\<rparr>)"
    "readyV u (v\<lparr>vPark := b\<rparr>)" "readyV u (v\<lparr>vFaulted := True\<rparr>)" "readyV u (v\<lparr>vRetry := False\<rparr>)"
    "readyV u (v\<lparr>vGone := True\<rparr>)" "readyV u (v\<lparr>vSusp := True\<rparr>)"
proof -
  have c: "controlOk (v\<lparr>vSummarized := True\<rparr>)" "controlOk (v\<lparr>vSummarizing := b\<rparr>)" "controlOk (v\<lparr>vOutcome := None\<rparr>)"
    "controlOk (v\<lparr>vRetry := False\<rparr>)"
    using ready_parts(1,14) [OF v] by (simp_all add: controlOk_def busyV_def)
  have s: "stateOk (v\<lparr>vOutcome := None\<rparr>)" "stateOk (v\<lparr>vRetry := False\<rparr>)"
    using ready_parts(7) [OF v] by (auto simp: stateOk_def busyV_def)
  have h: "handleOk (v\<lparr>vOutcome := None\<rparr>)" "handleOk (v\<lparr>vRetry := False\<rparr>)"
    using ready_parts(5,11) [OF v] by (simp_all add: handleOk_def)
  have "selfOk (v\<lparr>vSummarized := True\<rparr>)" using ready_parts(4) [OF v] by (auto simp: selfOk_def)
  then show "readyV u (v\<lparr>vSummarized := True\<rparr>)" using c(1) v by (simp add: readyV_def invV_def)
  show "readyV u (v\<lparr>vSummarizing := b\<rparr>)" "readyV u (v\<lparr>vOutcome := None\<rparr>)" "readyV u (v\<lparr>vRetry := False\<rparr>)"
    "readyV u (v\<lparr>vPark := b\<rparr>)"
    using c(2-) s h v by (simp_all add: readyV_def invV_def)
  show "readyV u (v\<lparr>vFaulted := True\<rparr>)" "readyV u (v\<lparr>vGone := True\<rparr>)" "readyV u (v\<lparr>vSusp := True\<rparr>)"
    using v by (simp_all add: readyV_def inv_raise)
qed

lemma failAttempt_view:
  "view (failAttempt env reason retryable detail w) = enterBackoffV (view w)
   \<or> view (failAttempt env reason retryable detail w) = enterFailedV (view w)"
  by (simp add: failAttempt_def Let_def view_simps)

lemma failLaunch_view:
  "view (failLaunch env err what retryable w) \<in> {enterBackoffV (view w), enterFailedV (view w), enterReviewV (view w)}"
  using failAttempt_view by (simp add: failLaunch_def parkCredential_def Let_def view_simps) blast

lemma inv_failAttempt:
  assumes "readyV u (view w)" "\<not> vRetry (view w)" "\<not> vDispatch (view w)" "curV isSelf (view w) = [] \<or> vSummarized (view w)"
  shows "invV u (view (failAttempt env reason retryable detail w))" "invV u (view (failLaunch env err what retryable w))"
  using assms inv_enterBackoff inv_enterFailed inv_enterReview failAttempt_view [of env reason retryable detail w]
    failLaunch_view [of env err what retryable w] by auto

lemma ready_atRun:
  assumes "readyV u v" "vSt v = StateRunning \<or> vSt v = StateVerifying"
  shows "\<not> vDispatch v" using ready_parts(7) [OF assms(1)] assms(2) by (auto simp: stateOk_def)

lemma inv_route:
  assumes v: "readyV u (view w)" and s: "\<not> vRetry (view w)" "vSummarized (view w)"
    and o: "vOutcome (view w) \<noteq> None \<longrightarrow> vSt (view w) = StateRunning \<or> vSt (view w) = StateVerifying"
  shows "invV u (view (routeOutcome env w))"
proof (cases "plOutcome (pwRec w)")
  case None
  then show ?thesis using v by (simp add: routeOutcome_def readyV_def)
next
  case (Some x)
  obtain ev detail where x: "x = (ev, detail)" by (cases x)
  let ?w = "onPipe (\<lambda>p. p\<lparr>plOutcome := None\<rparr>) w"
  have out: "vOutcome (view w) = Some (ev, detail)" using Some x by (simp add: view_simps)
  have w: "readyV u (view ?w)" using ready_flags(3) [OF v] by (simp add: view_simps)
  have "invV u (view (beginVerify ?w))" if "evType ev = EventSucceeded"
  proof -
    have "vSt (view w) = StateVerifying" using o out ready_parts(7) [OF v] that by (auto simp: stateOk_def)
    then show ?thesis using ready_work [OF w] s(1) ready_parts(15) [OF w] by (simp add: view_simps safeNext_def)
  qed
  moreover have "invV u (view (failAttempt env (evReason ev) (Retryable (evReason ev)) detail ?w))"
    by (rule inv_failAttempt [OF w]) (use s ready_atRun [OF v] o out in \<open>auto simp: view_simps\<close>)
  ultimately show ?thesis using Some x by (simp add: routeOutcome_def Let_def)
qed

lemma inv_parkNow: "readyV u (view w) \<Longrightarrow> \<not> vRetry (view w) \<Longrightarrow> \<not> vDispatch (view w) \<Longrightarrow> invV u (view (parkNow env w))"
  using inv_enterReview by (simp add: parkNow_def view_simps)

lemma inv_beginSummary:
  assumes v: "readyV u (view w)" and s: "\<not> vRetry (view w)" "\<not> vSummarized (view w)"
    and o: "vSt (view w) = StateRunning \<or> vSt (view w) = StateVerifying"
  shows "invV u (view (beginSummary env w))"
proof -
  have d: "\<not> vDispatch (view w)" using ready_atRun [OF v o] .
  let ?w = "onPipe (\<lambda>p. p\<lparr>plSummarized := True\<rparr>) w"
  have w: "readyV u (view ?w)" using ready_flags(1) [OF v] by (simp add: view_simps)
  have "invV u (view (routeOutcome env ?w))" by (rule inv_route [OF w]) (use s o in \<open>auto simp: view_simps\<close>)
  moreover have "invV u (view (parkNow env (onPipe (\<lambda>p. p\<lparr>plParkOnBudgetPending := False\<rparr>) ?w)))"
    by (rule inv_parkNow) (use ready_flags(4) [OF w] s d in \<open>auto simp: view_simps\<close>)
  ultimately have "invV u (view (resumeSummarized env ?w))" using w by (simp add: resumeSummarized_def readyV_def)
  moreover have "invV u (view (askPending (AskSummary ws) (onPipe (\<lambda>p. p\<lparr>plSummarizing := True\<rparr>) w)))" for ws
    using ready_work [OF ready_flags(2) [OF v], of "AskSummary ws" True] s o by (simp add: view_simps safeNext_def)
  ultimately show ?thesis using v by (simp add: beginSummary_def readyV_def)
qed

lemma inv_applyOutcome:
  assumes v: "readyV u (view w)" and s: "\<not> vRetry (view w)"
    and o: "vOutcome (view w) \<noteq> None \<longrightarrow> vSt (view w) = StateRunning \<or> vSt (view w) = StateVerifying"
  shows "invV u (view (applyOutcome env w))"
  using inv_beginSummary [OF v s] inv_route [OF v s _ o] v o
  by (auto simp: applyOutcome_def outcomeReady_def view_simps readyV_def)

lemma inv_parkOnBudget:
  assumes v: "readyV u (view w)" and s: "\<not> vRetry (view w)" "\<not> vDispatch (view w)"
    and o: "\<not> vSummarized (view w) \<longrightarrow> vSt (view w) = StateRunning \<or> vSt (view w) = StateVerifying"
  shows "invV u (view (parkOnBudget env w))"
proof -
  let ?w = "onPipe (\<lambda>p. p\<lparr>plParkOnBudgetPending := True\<rparr>) w"
  have w: "readyV u (view ?w)" using ready_flags(4) [OF v] by (simp add: view_simps)
  have "invV u (view (beginSummary env ?w))" if "\<not> vSummarized (view w)"
    by (rule inv_beginSummary [OF w]) (use s o that in \<open>auto simp: view_simps\<close>)
  then show ?thesis using inv_parkNow [OF v s] by (simp add: parkOnBudget_def view_simps)
qed

lemma inv_resume:
  assumes v: "readyV u (view w)" and s: "\<not> vRetry (view w)" and o: "vSt (view w) = StateRunning \<or> vSt (view w) = StateVerifying"
  shows "invV u (view (resumeAfterAccount env w))"
proof -
  have "invV u (view (parkOnBudget env (onPipe (\<lambda>p. p\<lparr>plParkOnBudgetPending := False\<rparr>) w)))"
    by (rule inv_parkOnBudget) (use ready_flags(4) [OF v] s o ready_atRun [OF v o] in \<open>auto simp: view_simps\<close>)
  then show ?thesis using inv_applyOutcome [OF v s] o by (simp add: resumeAfterAccount_def)
qed

section \<open>Agents that end\<close>

text \<open>A stop or a probe that is answered is no longer outstanding.\<close>

lemma reply_stop:
  assumes v: "invV u v" and q: "\<not> isWork q" "\<not> isTimer q"
    and c: "probeOk (dropV (vGen v) q v)" "haltOk (dropV (vGen v) q v)" "selfOk (dropV (vGen v) q v)"
  shows "invV u (dropV (vGen v) q v)"
proof -
  let ?v = "dropV (vGen v) q v"
  have e: "worksV ?v = worksV v" "curV isTimer ?v = curV isTimer v" using q by (simp_all add: worksV_drop curV_drop)
  have "curV P v = [] \<longrightarrow> curV P ?v = []" for P by (simp add: dropV_def)
  then have "freshV v \<longrightarrow> freshV ?v" by (simp add: freshV_def)
  then have "okFor q' v \<longrightarrow> okFor q' ?v" for q' by (cases q') simp_all
  then have "controlOk ?v" using inv_parts(1) [OF v] e dropV_sub [of "vGen v" q v]
    unfolding controlOk_def busyV_def by (auto simp: subset_eq)
  moreover have "handleOk ?v" using inv_parts(5) [OF v] e by (simp add: handleOk_def busyV_def)
  moreover have "stateOk ?v" using inv_parts(7) [OF v] e by (simp add: stateOk_def busyV_def)
  ultimately show ?thesis using inv_parts [OF v] c by (simp add: invV_def drop_components)
qed

lemma reply_probe:
  assumes v: "invV u v" and q: "(vGen v, AskProbe h) \<in> set (vOut v)"
  defines "v' \<equiv> dropV (vGen v) (AskProbe h) v"
  shows "invV u v'" "curV isProbe v' = []" "vHandle v = Some h \<or> vHandle v = None \<and> doomedV v"
proof -
  have "(vGen v, AskProbe h) \<in> set (curV isProbe v)" using q by (simp add: curV_in)
  then have b: "curV isProbe v = [(vGen v, AskProbe h)]" "vHandle v = Some h \<or> vHandle v = None \<and> doomedV v"
    using inv_parts(2) [OF v] by (auto simp: probeOk_def)
  then show "vHandle v = Some h \<or> vHandle v = None \<and> doomedV v" by simp
  show n: "curV isProbe v' = []" using b by (simp add: v'_def dropV_def)
  have e: "curV isHalt v' = curV isHalt v" by (simp add: v'_def curV_drop)
  show "invV u v'" unfolding v'_def
  proof (rule reply_stop [OF v])
    show "probeOk (dropV (vGen v) (AskProbe h) v)" using n by (simp add: probeOk_def v'_def)
    show "haltOk (dropV (vGen v) (AskProbe h) v)" using n e inv_parts(3) [OF v] by (simp add: haltOk_def v'_def)
    show "selfOk (dropV (vGen v) (AskProbe h) v)" using inv_parts(4) [OF v] by (simp add: drop_components selfOk_drop)
  qed simp_all
qed

lemma reply_halt:
  assumes v: "invV u v" and q: "(vGen v, AskStop (Some h) mode) \<in> set (vOut v)"
  defines "v' \<equiv> dropV (vGen v) (AskStop (Some h) mode) v"
  shows "invV u v'" "curV isHalt v' = []" "vHandle v = Some h \<or> vHandle v = None \<and> vSusp v"
    "curV isProbe v' = [] \<or> exitingV v" "curV isSelf v' = []" "\<forall>x\<in>set (busyV v'). \<not> isLaunch (snd x)"
proof -
  have "(vGen v, AskStop (Some h) mode) \<in> set (curV isHalt v)" using q by (simp add: curV_in)
  then have b: "curV isHalt v = [(vGen v, AskStop (Some h) mode)]" "vHandle v = Some h \<or> vHandle v = None \<and> vSusp v"
    "curV isProbe v \<noteq> [] \<longrightarrow> exitingV v"
    using inv_parts(3) [OF v] by (auto simp: haltOk_def)
  then show "vHandle v = Some h \<or> vHandle v = None \<and> vSusp v" by simp
  show n: "curV isHalt v' = []" using b by (simp add: v'_def dropV_def)
  show "curV isProbe v' = [] \<or> exitingV v" using b(3) by (auto simp: v'_def dropV_def)
  show "curV isSelf v' = []" using b(1) inv_parts(4) [OF v] by (auto simp: selfOk_def v'_def dropV_def)
  have "busyV v' = busyV v" by (simp add: busyV_def v'_def worksV_drop curV_drop)
  moreover have "\<not> isLaunch (snd x)" if "x \<in> set (busyV v)" for x
    using inv_parts(1) [OF v] that b(1) by (cases "snd x") (auto simp: controlOk_def freshV_def)
  ultimately show "\<forall>x\<in>set (busyV v'). \<not> isLaunch (snd x)" by simp
  show "invV u v'" unfolding v'_def
  proof (rule reply_stop [OF v])
    show "haltOk (dropV (vGen v) (AskStop (Some h) mode) v)" using n by (simp add: haltOk_def v'_def)
    show "probeOk (dropV (vGen v) (AskStop (Some h) mode) v)" using inv_parts(2) [OF v] by (simp add: drop_components selfOk_drop)
    show "selfOk (dropV (vGen v) (AskStop (Some h) mode) v)" using inv_parts(4) [OF v] by (simp add: drop_components selfOk_drop)
  qed simp_all
qed

lemma reply_self:
  assumes v: "invV u v" and q: "(vGen v, AskStop None mode) \<in> set (vOut v)"
  defines "v' \<equiv> dropV (vGen v) (AskStop None mode) v"
  shows "invV u v'" "curV isSelf v' = []" "vHandle v = None" "vStopping v"
    "vSt v = StateRunning \<or> vSt v = StateFailed \<and> vSummarized v" "curV isHalt v' = []"
proof -
  have "(vGen v, AskStop None mode) \<in> set (curV isSelf v)" using q by (simp add: curV_in)
  then have b: "curV isSelf v = [(vGen v, AskStop None mode)]" "vHandle v = None" "vStopping v"
    "vSt v = StateRunning \<or> vSt v = StateFailed \<and> vSummarized v" "curV isHalt v = []"
    using inv_parts(4) [OF v] by (auto simp: selfOk_def)
  then show "vHandle v = None" "vStopping v" "vSt v = StateRunning \<or> vSt v = StateFailed \<and> vSummarized v" by simp_all
  show n: "curV isSelf v' = []" "curV isHalt v' = []" using b by (simp_all add: v'_def dropV_def)
  show "invV u v'" unfolding v'_def
  proof (rule reply_stop [OF v])
    show "haltOk (dropV (vGen v) (AskStop None mode) v)" using inv_parts(3) [OF v] by (simp add: drop_components selfOk_drop)
    show "probeOk (dropV (vGen v) (AskStop None mode) v)" using inv_parts(2) [OF v] by (simp add: drop_components selfOk_drop)
    show "selfOk (dropV (vGen v) (AskStop None mode) v)" using n by (simp add: selfOk_def v'_def)
  qed simp_all
qed

text \<open>The handle is given up once the agent is quiet.\<close>

lemma ready_unhandle:
  assumes v: "invV u v" and h: "vHandle v = Some h" and l: "liveIn (vTrace v) = {}"
    and p: "curV isProbe v = [] \<or> doomedV v" and t: "curV isHalt v = [] \<or> vSusp v"
  shows "readyV u (v\<lparr>vQuiet := True, vHandle := None\<rparr>)"
proof -
  let ?v = "v\<lparr>vQuiet := True, vHandle := None\<rparr>"
  have "controlOk ?v" using inv_parts(1) [OF v] inv_handle(1-3) [OF v h] by (simp add: controlOk_def busyV_def)
  moreover have "probeOk ?v" using inv_parts(2) [OF v] p by (auto simp: probeOk_def doomedV_def)
  moreover have "haltOk ?v" using inv_parts(3) [OF v] t by (auto simp: haltOk_def exitingV_def orderedV_def)
  moreover have "selfOk ?v" using inv_handle(4) [OF v h] by (simp add: selfOk_def)
  moreover have "handleOk ?v" by (simp add: handleOk_def)
  moreover have "traceOk u ?v" using inv_parts(8) [OF v] l by (simp add: traceOk_def)
  ultimately show ?thesis using inv_parts [OF v] inv_handle(2,3) [OF v h] by (simp add: readyV_def invV_def)
qed

lemma inv_quiet:
  assumes v: "invV u (view w)" and h: "vHandle (view w) = Some h" and l: "liveIn (vTrace (view w)) = {}"
    and p: "curV isProbe (view w) = []" and t: "curV isHalt (view w) = []" and e: "\<not> exitingV (view w)"
  shows "invV u (view (quiet env w))"
proof -
  let ?w = "freeWorkspaceMarker (onPipe (\<lambda>p. p\<lparr>plDomainQuiet := True, plHandle := None\<rparr>) w)"
  have "readyV u ((view w)\<lparr>vQuiet := True, vHandle := None\<rparr>)" using ready_unhandle [OF v h l] p t by simp
  then have w: "readyV u (view ?w)" using ready_emit [of u _ MarkerFreed] by (simp add: view_simps)
  have s: "vSt (view w) = StateRunning \<or> vSt (view w) = StateVerifying"
    using inv_parts(5) [OF v] h e by (auto simp: handleOk_def exitingV_def orderedV_def)
  show ?thesis unfolding quiet_def
    by (rule inv_applyOutcome [OF w]) (use s inv_handle(6) [OF v h] in \<open>auto simp: view_simps emitV_def\<close>)
qed

lemma inv_lower:
  assumes "invV u v"
  shows "curV isHalt v = [] \<Longrightarrow> invV u (v\<lparr>vStopIF := False\<rparr>)" "curV isProbe v = [] \<Longrightarrow> invV u (v\<lparr>vProbeIF := False\<rparr>)"
  using assms by (simp_all add: invV_def) (simp_all add: haltOk_def probeOk_def)

lemma inv_probe:
  assumes v: "invV u v" and h: "vHandle v = Some h" and p: "\<not> vProbeIF v" "\<not> vStopIF v" "\<not> exitingV v" "vClosed v"
  shows "invV u (askV (AskProbe h) (v\<lparr>vProbeIF := True\<rparr>))"
proof -
  let ?v = "v\<lparr>vProbeIF := True\<rparr>"
  have n: "curV isProbe v = []" "curV isHalt v = []" using inv_parts(2,3) [OF v] p by (auto simp: probeOk_def haltOk_def)
  have "probeOk (askV (AskProbe h) ?v)"
    using n h p inv_parts(5,6) [OF v] by (auto simp: probeOk_def handleOk_def pumpOk_def exitingV_def orderedV_def)
  moreover have "haltOk (askV (AskProbe h) ?v)" using n by (simp add: haltOk_def)
  moreover have "controlOk (askV (AskProbe h) ?v)" using inv_parts(1) [OF v] inv_handle [OF v h] by (simp add: controlOk_def busyV_def)
  ultimately show ?thesis using inv_parts [OF v] by (simp add: invV_def askV_components safeNext_def)
qed

lemma inv_confirmQuiet:
  assumes v: "invV u (view w)"
  shows "invV u (view (confirmQuiet env w))"
proof (cases "vOutcome (view w) = None \<or> \<not> vClosed (view w) \<or> vQuiet (view w) \<or> vProbeIF (view w) \<or> vStopIF (view w)
    \<or> exitingV (view w)")
  case True
  then show ?thesis using v by (simp add: confirmQuiet_def Let_def view_simps)
next
  case False
  then obtain h where h: "vHandle (view w) = Some h" using inv_parts(5) [OF v] by (auto simp: handleOk_def)
  have "curV isProbe (view w) = []" using inv_parts(2) [OF v] False by (auto simp: probeOk_def)
  then have "invV u (beginStopV StopInterrupt (view w))" using inv_stop [OF v h] by simp
  then show ?thesis using False h inv_probe [OF v h] by (auto simp: confirmQuiet_def beginProbe_def Let_def view_simps)
qed

lemma inv_onProbed:
  assumes v: "invV u (view w)" and q: "curV isProbe (view w) = []"
    and h: "vHandle (view w) = Some h \<or> vHandle (view w) = None \<and> doomedV (view w)"
    and c: "confirmed \<longrightarrow> AgentQuiet h \<in> set (vTrace (view w))"
  shows "invV u (view (onProbed env confirmed w))"
proof -
  let ?w = "onPipe (\<lambda>p. p\<lparr>plProbeInFlight := False\<rparr>) w"
  have w: "invV u (view ?w)" using inv_lower(2) [OF v q] by (simp add: view_simps)
  have "invV u (view (quiet env ?w))" if e: "\<not> exitingV (view w)" "\<not> vStopIF (view w)" "confirmed"
  proof -
    have h': "vHandle (view w) = Some h" using h e by (auto simp: doomedV_def exitingV_def orderedV_def)
    moreover have "liveIn (vTrace (view w)) = {}"
      using inv_parts(8) [OF v] h' c e(3) by (auto simp: traceOk_def liveIn_def)
    moreover have "curV isHalt (view w) = []" using inv_parts(3) [OF v] e by (auto simp: haltOk_def)
    ultimately show ?thesis using inv_quiet [OF w, of h] e q by (simp add: view_simps exitingV_def orderedV_def)
  qed
  then show ?thesis using w inv_confirmQuiet [OF w]
    by (auto simp: onProbed_def Let_def) (auto simp: view_simps exitingV_def orderedV_def)
qed

lemma inv_finishSuspended:
  assumes v: "invV u (view w)" and s: "vSusp (view w)"
  shows "invV u (view (finishSuspended env w))"
proof (cases "\<not> vQuiet (view w) \<or> vHandle (view w) \<noteq> None \<and> \<not> vDone (view w)")
  case True
  then show ?thesis using v by (auto simp: finishSuspended_def view_simps)
next
  case False
  then have l: "liveIn (vTrace (view w)) = {}" using inv_parts(8) [OF v] by (simp add: traceOk_def)
  have "invV u ((view w)\<lparr>vHandle := None, vOutcome := None\<rparr>)"
  proof (cases "vHandle (view w)")
    case None
    then have "(view w)\<lparr>vHandle := None, vOutcome := None\<rparr> = (view w)\<lparr>vOutcome := None\<rparr>" by simp
    moreover have "invV u ((view w)\<lparr>vOutcome := None\<rparr>)"
    proof -
      have "okFor q (view w) \<longrightarrow> okFor q ((view w)\<lparr>vOutcome := None\<rparr>)" for q by (cases q) simp_all
      then have "controlOk ((view w)\<lparr>vOutcome := None\<rparr>)" using inv_parts(1) [OF v]
        unfolding controlOk_def busyV_def by auto
      moreover have "handleOk ((view w)\<lparr>vOutcome := None\<rparr>)" using inv_parts(5) [OF v] None by (simp add: handleOk_def)
      moreover have "stateOk ((view w)\<lparr>vOutcome := None\<rparr>)" using inv_parts(7) [OF v] by (simp add: stateOk_def busyV_def)
      ultimately show ?thesis using inv_parts [OF v] by (simp add: invV_def)
    qed
    ultimately show ?thesis by simp
  next
    case (Some h)
    have "readyV u ((view w)\<lparr>vQuiet := True, vHandle := None\<rparr>)"
      using ready_unhandle [OF v Some l] s by (simp add: doomedV_def)
    moreover have "(view w)\<lparr>vQuiet := True, vHandle := None\<rparr> = (view w)\<lparr>vHandle := None\<rparr>" using False by simp
    ultimately show ?thesis using ready_flags(3) [of u "(view w)\<lparr>vHandle := None\<rparr>"] by (simp add: readyV_def)
  qed
  then show ?thesis using False by (auto simp: finishSuspended_def view_simps)
qed

lemma inv_onHandleDone:
  assumes v: "invV u (view w)"
  shows "invV u (view (onHandleDone env w))"
proof -
  let ?w = "onPipe (\<lambda>p. p\<lparr>plHandleDone := True\<rparr>) w"
  have w: "invV u (view ?w)" using v by (simp add: view_simps)
  show ?thesis using inv_confirmQuiet [OF w] inv_finishSuspended [OF w]
    by (auto simp: onHandleDone_def Let_def) (simp_all add: view_simps)
qed

lemma inv_emitMarker: "invV u v \<Longrightarrow> liveIn (vTrace v) = {} \<Longrightarrow> invV u (emitV MarkerFreed v)"
  by (simp add: inv_emit safeNext_def)

lemma inv_setQuiet:
  assumes v: "invV u v" and l: "liveIn (vTrace v) = {}" and n: "\<forall>x\<in>set (busyV v). \<not> isLaunch (snd x)"
  shows "invV u (v\<lparr>vQuiet := True\<rparr>)"
proof -
  have "okFor q v \<and> \<not> isLaunch q \<longrightarrow> okFor q (v\<lparr>vQuiet := True\<rparr>)" for q by (cases q) simp_all
  then have "controlOk (v\<lparr>vQuiet := True\<rparr>)" using n by (intro controlOk_keep [OF inv_parts(1) [OF v]]) simp_all
  moreover have "handleOk (v\<lparr>vQuiet := True\<rparr>)" using inv_parts(5) [OF v] by (simp add: handleOk_def busyV_def)
  moreover have "traceOk u (v\<lparr>vQuiet := True\<rparr>)" using inv_parts(8) [OF v] l by (simp add: traceOk_def)
  ultimately show ?thesis using inv_parts [OF v] by (simp add: invV_def)
qed

text \<open>A stop is over: nothing of it is outstanding.\<close>

definition stoppedV :: "view \<Rightarrow> view" where
  "stoppedV v = v\<lparr>vQuiet := True, vHandle := None, vOutcome := None, vBudget := False, vFinishAfter := False, vStopping := False\<rparr>"

lemma inv_stopped:
  assumes v: "invV u v" and l: "liveIn (vTrace v) = {}" and n: "\<forall>x\<in>set (busyV v). \<not> isLaunch (snd x)"
    and c: "curV isHalt v = []" "curV isSelf v = []" and p: "curV isProbe v = [] \<or> doomedV v"
  shows "invV u (stoppedV v)"
proof -
  have "okFor q v \<and> \<not> isLaunch q \<longrightarrow> okFor q (stoppedV v)" for q by (cases q) (simp_all add: stoppedV_def)
  then have "controlOk (stoppedV v)" using n by (intro controlOk_keep [OF inv_parts(1) [OF v]]) (simp_all add: stoppedV_def)
  moreover have "probeOk (stoppedV v)" using inv_parts(2) [OF v] p by (auto simp: probeOk_def doomedV_def stoppedV_def)
  moreover have "haltOk (stoppedV v)" "selfOk (stoppedV v)" using c by (simp_all add: haltOk_def selfOk_def stoppedV_def)
  moreover have "handleOk (stoppedV v)" by (simp add: handleOk_def stoppedV_def)
  moreover have "stateOk (stoppedV v)" using inv_parts(7) [OF v] by (simp add: stateOk_def busyV_def stoppedV_def)
  moreover have "traceOk u (stoppedV v)" using inv_parts(8) [OF v] l by (simp add: traceOk_def stoppedV_def)
  ultimately show ?thesis using inv_parts [OF v] by (simp add: invV_def) (simp add: stoppedV_def)
qed

text \<open>The state of a record whose stop was answered.\<close>

definition answeredV :: "view \<Rightarrow> bool" where
  "answeredV v \<longleftrightarrow> curV isHalt v = [] \<and> curV isSelf v = [] \<and> (curV isProbe v = [] \<or> exitingV v)
     \<and> (\<forall>x\<in>set (busyV v). \<not> isLaunch (snd x))
     \<and> (vHandle v = None \<longrightarrow> vSusp v \<or> vStopping v \<and> (vSt v = StateRunning \<or> vSt v = StateFailed \<and> vSummarized v))"

lemma inv_stoppedFinish:
  assumes v: "invV u v" and a: "answeredV v" and l: "liveIn (vTrace v) = {}"
  shows "invV u ((stoppedV v)\<lparr>vFinish := Some x\<rparr>)"
proof -
  have "invV u (stoppedV (v\<lparr>vFinish := Some x\<rparr>))"
    by (rule inv_stopped) (use inv_raise(4) [OF v] l a in \<open>auto simp: answeredV_def doomedV_def busyV_def\<close>)
  moreover have "stoppedV (v\<lparr>vFinish := Some x\<rparr>) = (stoppedV v)\<lparr>vFinish := Some x\<rparr>" by (simp add: stoppedV_def)
  ultimately show ?thesis by metis
qed

lemma inv_stoppedExit:
  assumes v: "invV u v" and a: "answeredV v" and l: "liveIn (vTrace v) = {}" and w: "\<not> vPend v > 0"
  shows "invV u (finishNowV (stoppedV v))"
proof -
  have "invV u ((stoppedV v)\<lparr>vFinish := Some x\<rparr>)" by (rule inv_stoppedFinish [OF v a l])
  moreover have "worksV v = []" using inv_parts(1) [OF v] w by (simp add: controlOk_def)
  ultimately have "invV u (finishNowV (((stoppedV v)\<lparr>vFinish := Some x\<rparr>)\<lparr>vFinish := vFinish v\<rparr>))"
    by (intro inv_finishNow(2)) (simp_all add: stoppedV_def)
  then show ?thesis by (simp add: stoppedV_def)
qed

lemma inv_stoppedPark:
  assumes v: "invV u v" and a: "answeredV v" and l: "liveIn (vTrace v) = {}" and b: "vBudget v" and s: "\<not> vSusp v"
    and w: "view w = stoppedV v"
  shows "invV u (view (parkOnBudget env w))"
proof -
  have "curV isProbe v = []" using inv_parts(2) [OF v] b by (auto simp: probeOk_def)
  then have i: "invV u (view w)" using inv_stopped [OF v l] a w by (simp add: answeredV_def)
  have st: "vSt v = StateRunning \<or> vSt v = StateFailed \<and> vSummarized v"
    using a s b inv_parts(5) [OF v] by (auto simp: answeredV_def handleOk_def)
  have d: "\<not> vRetry (view w)" "\<not> vDispatch (view w)"
    using inv_parts(7) [OF v] st w by (auto simp: stateOk_def stoppedV_def)
  show ?thesis
  proof (cases "busyV v = []")
    case True
    then have "readyV u (view w)" using i w by (simp add: readyV_def busyV_def stoppedV_def)
    then show ?thesis by (rule inv_parkOnBudget) (use d st w in \<open>auto simp: stoppedV_def\<close>)
  next
    case False
    then obtain q where q: "okFor q v" using inv_parts(1) [OF v] by (auto simp: controlOk_def)
    then have "vSummarizing v" "\<not> vSummarized v" using st False a inv_parts(1) [OF v]
      by (cases q; auto simp: answeredV_def controlOk_def)+
    then show ?thesis using i w by (simp add: parkOnBudget_def beginSummary_def view_simps stoppedV_def)
  qed
qed

lemma inv_onStopped:
  assumes v: "invV u (view w)" and a: "answeredV (view w)" and l: "confirmed \<longrightarrow> liveIn (vTrace (view w)) = {}"
  shows "invV u (view (onStopped env confirmed w))"
proof -
  let ?w = "onPipe (\<lambda>p. p\<lparr>plStopInFlight := False\<rparr>) w" and ?v = "(view w)\<lparr>vStopIF := False\<rparr>"
  have vw: "view ?w = ?v" by (simp add: view_simps)
  have w: "invV u ?v" using inv_lower(1) [OF v] a by (simp add: answeredV_def)
  have a': "answeredV ?v" using a by (simp add: answeredV_def exitingV_def orderedV_def busyV_def)
  let ?m = "emitV MarkerFreed ?v"
  have m: "invV u ?m" "answeredV ?m" "liveIn (vTrace ?m) = {}" if confirmed
    using inv_emitMarker [OF w] l a' that
    by (simp_all add: answeredV_def exitingV_def orderedV_def busyV_def emitV_def liveIn_snoc)
  consider (no) "\<not> confirmed" | (susp) "confirmed" "vSusp (view w)"
    | (stay) "confirmed" "\<not> exitingV (view w)" | (leave) "confirmed" "\<not> vSusp (view w)" "exitingV (view w)" by blast
  then show ?thesis
  proof cases
    case no
    then show ?thesis using w vw by (simp add: onStopped_def Let_def)
  next
    case susp
    let ?x = "freeWorkspaceMarker (onPipe (\<lambda>p. p\<lparr>plDomainQuiet := True\<rparr>) ?w)"
    have "invV u (?v\<lparr>vQuiet := True\<rparr>)" using inv_setQuiet [OF w] susp l a' by (simp add: answeredV_def)
    then have "invV u (view ?x)" using inv_emitMarker susp l by (simp add: view_simps)
    then have "invV u (view (finishSuspended env ?x))" by (rule inv_finishSuspended) (simp add: view_simps emitV_def susp)
    then show ?thesis using susp by (simp add: onStopped_def Let_def view_simps)
  next
    case stay
    then obtain h where h: "vHandle (view w) = Some h" using a by (auto simp: answeredV_def exitingV_def orderedV_def)
    have "invV u (view (quiet env ?w))"
      by (rule inv_quiet [of _ _ h]) (use w vw h stay l a' in \<open>auto simp: answeredV_def exitingV_def orderedV_def\<close>)
    then show ?thesis using stay by (simp add: onStopped_def Let_def view_simps exitingV_def orderedV_def)
  next
    case leave
    let ?x = "onRecord (\<lambda>r. r\<lparr>rStopping := False\<rparr>)
      (onPipe (\<lambda>p. p\<lparr>plDomainQuiet := True, plHandle := None, plOutcome := None, plBudgetStop := False,
         plFinishAfterStop := False\<rparr>) (freeWorkspaceMarker ?w))"
    have vx: "view ?x = stoppedV ?m" by (simp add: view_simps stoppedV_def emitV_def)
    have "invV u (view (parkOnBudget env ?x))" if "vBudget (view w)"
      by (rule inv_stoppedPark [OF _ _ _ _ _ vx]) (use m leave that in \<open>simp_all add: emitV_def\<close>)
    moreover have "invV u (finishNowV (stoppedV ?m))" if "\<not> vPend (view w) > 0"
      by (rule inv_stoppedExit) (use m leave that in \<open>simp_all add: emitV_def\<close>)
    moreover have "invV u ((stoppedV ?m)\<lparr>vFinish := Some x\<rparr>)" for x
      using inv_stoppedFinish [of u ?m x] m leave by blast
    moreover have "exitingV ?v" using leave by (simp add: exitingV_def orderedV_def)
    ultimately show ?thesis using leave
      by (simp add: onStopped_def Let_def view_simps vx vw split: if_split) (simp add: view_simps emitV_def stoppedV_def)
  qed
qed

section \<open>The run\<close>

lemma inv_outcome:
  assumes v: "invV u v" and s: "vSt v = StateRunning" and e: "evType (fst x) \<noteq> EventSucceeded"
  shows "invV u (v\<lparr>vOutcome := Some x\<rparr>)"
proof -
  have "okFor q v \<Longrightarrow> okFor q (v\<lparr>vOutcome := Some x\<rparr>)" for q using s by (cases q) simp_all
  then have "controlOk (v\<lparr>vOutcome := Some x\<rparr>)" by (intro controlOk_keep [OF inv_parts(1) [OF v]]) simp_all
  moreover have "handleOk (v\<lparr>vOutcome := Some x\<rparr>)" using inv_parts(5) [OF v] s by (simp add: handleOk_def busyV_def)
  moreover have "stateOk (v\<lparr>vOutcome := Some x\<rparr>)" using inv_parts(7) [OF v] s e
    by (cases x) (simp add: stateOk_def busyV_def)
  ultimately show ?thesis using inv_parts [OF v] by (simp add: invV_def)
qed

lemma inv_succeeded:
  assumes v: "invV u v" and s: "vSt v = StateRunning" "\<not> vStopping v"
  shows "invV u (v\<lparr>vSt := StateVerifying, vOutcome := Some x\<rparr>)"
proof -
  let ?v = "v\<lparr>vSt := StateVerifying, vOutcome := Some x\<rparr>"
  have "okFor q v \<Longrightarrow> okFor q ?v" for q using s by (cases q) simp_all
  then have "controlOk ?v" by (intro controlOk_keep [OF inv_parts(1) [OF v]]) simp_all
  moreover have "probeOk ?v" using inv_parts(2) [OF v] s by (auto simp: probeOk_def doomedV_def)
  moreover have "haltOk ?v" using inv_parts(3) [OF v] s by (auto simp: haltOk_def exitingV_def orderedV_def)
  moreover have "selfOk ?v" using inv_parts(4) [OF v] s by (auto simp: selfOk_def)
  moreover have "handleOk ?v" using inv_parts(5) [OF v] s by (auto simp: handleOk_def busyV_def)
  moreover have "pumpOk ?v" using inv_parts(6) [OF v] s by (simp add: pumpOk_def)
  moreover have "stateOk ?v" using inv_parts(7) [OF v] s by (auto simp: stateOk_def busyV_def)
  ultimately show ?thesis using inv_parts [OF v] by (simp add: invV_def)
qed

lemma view_accountUsage [view_simps]: "view (accountUsage ev w) = view w"
  by (auto simp: accountUsage_def view_simps split: option.split)

lemma inv_onRunEvent:
  assumes v: "invV u (view w)" and p: "vPump (view w) (vGen (view w)) = Some Pumping"
  shows "invV u (view (onRunEvent env ev w))"
proof (cases "vSt (view w) = StateRunning")
  case False
  then show ?thesis using v by (simp add: onRunEvent_def Let_def view_simps)
next
  case run: True
  have t: "view (case transitionTo env StateVerifying r c w' of None \<Rightarrow> w'
      | Some w1 \<Rightarrow> onPipe (\<lambda>p. p\<lparr>plLastOutcome := ''succeeded'', plOutcome := Some x\<rparr>) w1)
     = (if Allowed (vSt (view w')) StateVerifying then (view w')\<lparr>vSt := StateVerifying, vOutcome := Some x\<rparr> else view w')" for r c w' x
    by (rule view_transition [where F = "\<lambda>v. v\<lparr>vOutcome := Some x\<rparr>"]) (simp add: view_simps)
  show ?thesis using v p run inv_budget [OF v run] inv_succeeded [OF v run] inv_outcome [OF v run]
    by (cases "evType ev") (auto simp: onRunEvent_def Let_def view_simps t)
qed

lemma inv_onEventsClosed:
  assumes v: "invV u (view w)" and p: "vPump (view w) (vGen (view w)) = Some StreamClosed"
  shows "invV u (view (onEventsClosed env sawTerminal w))"
proof -
  let ?w = "onPipe (\<lambda>p. p\<lparr>plEventsClosed := True\<rparr>) w"
  have "okFor q (view w) \<Longrightarrow> okFor q ((view w)\<lparr>vClosed := True\<rparr>)" for q using p by (cases q) (simp_all add: freshV_def)
  then have "controlOk ((view w)\<lparr>vClosed := True\<rparr>)" by (intro controlOk_keep [OF inv_parts(1) [OF v]]) simp_all
  moreover have "pumpOk ((view w)\<lparr>vClosed := True\<rparr>)" using inv_parts(6) [OF v] p by (simp add: pumpOk_def)
  ultimately have w: "invV u (view ?w)" using inv_parts [OF v] by (simp add: invV_def view_simps)
  have "invV u (view (confirmQuiet env (onPipe (\<lambda>p. p\<lparr>plOutcome := Some (crashEvent, why)\<rparr>) ?w)))"
    if "vSt (view w) = StateRunning" for why
    by (rule inv_confirmQuiet) (use inv_outcome [OF w, of "(crashEvent, why)"] that in \<open>simp add: view_simps crashEvent_def\<close>)
  then show ?thesis using w inv_confirmQuiet [OF w]
    by (auto simp: onEventsClosed_def Let_def) (auto simp: view_simps)
qed

lemma inv_onSummarized:
  assumes v: "readyV u ((view w)\<lparr>vPend := vPend (view w) - 1\<rparr>)" and r: "\<not> vRetry (view w)"
    and o: "vSt (view w) = StateRunning \<or> vSt (view w) = StateVerifying"
  shows "invV u (view (onSummarized env facts w))"
proof -
  define w1 where "w1 = onPipe (\<lambda>p. p\<lparr>plSummarizing := False, plSummarized := True\<rparr>) (arrived w)"
  define w2 where "w2 = (case facts of Inl _ \<Rightarrow> w1
    | Inr f \<Rightarrow> onPipe (\<lambda>p. p\<lparr>plAttemptFacts := f, plAttemptFactsRead := True\<rparr>) w1)"
  have e: "view w2 = (view w)\<lparr>vPend := vPend (view w) - 1, vSummarizing := False, vSummarized := True\<rparr>"
    by (cases facts) (simp_all add: w2_def w1_def view_simps)
  have w: "readyV u (view w2)" using ready_flags(1,2) [of u] v by (simp add: e)
  have f: "invV u (view w')" if "finishIfRequested env w2 = Some w'" for w'
    using inv_finishIfRequested [OF ready_parts(13) [OF w]] finishIfRequested_Some [OF that] by simp
  have "invV u (view (endAttemptSuspended env w2))" using ready_flags(4) [OF w] 
    by (simp add: endAttemptSuspended_def Let_def view_simps readyV_def)
  moreover have "invV u (view (resumeAfterAccount env w2))" by (rule inv_resume [OF w]) (use r o in \<open>auto simp: e\<close>)
  moreover have "onSummarized env facts w = (case finishIfRequested env w2 of Some w' \<Rightarrow> w'
      | None \<Rightarrow> if rSuspended (baseOf w2) then endAttemptSuspended env w2 else resumeAfterAccount env w2)"
    unfolding onSummarized_def w2_def w1_def Let_def by (rule refl)
  ultimately show ?thesis using f by (simp split: option.split)
qed

end
