(* ===== verification/OrchPipeSafe.thy ===== *)
theory OrchPipeSafe
  imports OrchPipeKeep
begin

text \<open>
  The launches, claims, verdicts and re-dispatches of the pipeline keep its invariant too; with it, what the
  pipeline guarantees over every sequence of signals: one agent at a time, verification and a free
  workspace only when every agent is confirmed quiet, and runs only on approved content.
\<close>

section \<open>Launches\<close>

lemma exiting_view: "exiting (baseOf w) = exitingV (view w)"
  by (simp add: view_simps)

lemma inv_finishCases:
  assumes "\<And>w'. finishIfRequested env w = Some w' \<Longrightarrow> invV u (view w')" "finishIfRequested env w = None \<Longrightarrow> invV u (view x)"
  shows "invV u (view (case finishIfRequested env w of Some w' \<Rightarrow> w' | None \<Rightarrow> x))"
  using assms by (cases "finishIfRequested env w") simp_all

lemma inv_unlessFinish:
  assumes "readyV u (view w)" "vFinish (view w) = None \<Longrightarrow> invV u (view x)"
  shows "invV u (view (case finishIfRequested env w of Some w' \<Rightarrow> w' | None \<Rightarrow> x))"
proof (rule inv_finishCases)
  show "invV u (view w')" if "finishIfRequested env w = Some w'" for w'
    using inv_finishIfRequested [OF ready_parts(13) [OF assms(1)]] finishIfRequested_Some [OF that] by simp
  show "invV u (view x)" if "finishIfRequested env w = None"
    using that assms(2) ready_parts(12) [OF assms(1)] finishIfRequested_None [of env w] by simp
qed

definition resetV :: "view \<Rightarrow> view" where
  "resetV v = v\<lparr>vClosed := False, vDone := False, vQuiet := False, vOutcome := None, vBudget := False, vFinishAfter := False,
     vSummarizing := False, vSummarized := False, vPark := False\<rparr>"

lemma resetV_launch:
  assumes v: "readyV u v" and s: "vSt v = StatePreparing" "\<not> vRel v" and f: "freshV v"
  shows "readyV u (resetV v)" "okFor (AskPrepare i n t) (resetV v)"
proof -
  have "controlOk (resetV v)" using ready_parts(1,14) [OF v] by (simp add: controlOk_def busyV_def resetV_def)
  moreover have "probeOk (resetV v)" "haltOk (resetV v)" "selfOk (resetV v)"
    using f by (simp_all add: probeOk_def haltOk_def selfOk_def freshV_def resetV_def)
  moreover have "handleOk (resetV v)" using ready_parts(11) [OF v] s by (simp add: handleOk_def resetV_def)
  moreover have "pumpOk (resetV v)" using ready_parts(6) [OF v] by (simp add: pumpOk_def resetV_def)
  moreover have "stateOk (resetV v)" using ready_parts(7) [OF v] s by (auto simp: stateOk_def busyV_def resetV_def)
  moreover have "traceOk u (resetV v)" using ready_parts(8) [OF v] by (simp add: traceOk_def resetV_def)
  ultimately show "readyV u (resetV v)" using ready_parts [OF v] by (simp add: readyV_def invV_def) (simp add: resetV_def)
  show "okFor (AskPrepare i n t) (resetV v)" using s f by (simp add: resetV_def)
qed

lemma inv_beginPrepare:
  assumes v: "readyV u (view w)" and s: "vSt (view w) = StatePreparing" "\<not> vRel (view w)" "\<not> vRetry (view w)" and f: "freshV (view w)"
  shows "invV u (view (beginPrepare env w))"
proof -
  have "invV u (workV (AskPrepare i n t) (resetV (view w)))" for i n t
    by (rule ready_work) (use resetV_launch [OF v s(1,2) f] s(3) in \<open>simp_all add: safeNext_def\<close>, simp add: resetV_def)
  then show ?thesis using v by (simp add: beginPrepare_def Let_def view_simps readyV_def) (simp add: resetV_def)
qed

lemma inv_toPrepare:
  assumes v: "readyV u (view w)" and s: "\<not> vRel (view w)" "\<not> vRetry (view w)" "\<not> vDispatch (view w)" "vEpoch (view w) > 0"
    and f: "freshV (view w)" and z: "invV u (view z)"
  shows "invV u (view (case transitionTo env StatePreparing reason cause w of None \<Rightarrow> z | Some w1 \<Rightarrow> beginPrepare env w1))"
proof (cases "transitionTo env StatePreparing reason cause w")
  case None
  then show ?thesis using z by simp
next
  case (Some w1)
  then have e: "view w1 = (view w)\<lparr>vSt := StatePreparing\<rparr>" using transitionTo_Some by blast
  have "readyV u (view w1)" unfolding e
    by (rule ready_state [OF v s(2)]) (use s f in \<open>simp_all add: freshV_def\<close>)
  then have "invV u (view (beginPrepare env w1))" by (rule inv_beginPrepare) (use s f in \<open>simp_all add: e\<close>)
  then show ?thesis using Some by simp
qed

lemma inv_beginStart:
  assumes v: "readyV u (view w)" and s: "\<not> vRetry (view w)" and o: "okFor (AskStart i t) (view w)"
  shows "invV u (view (beginStart env w))"
proof -
  let ?w = "onPipe (\<lambda>p. p\<lparr>plDefinition := peConfig env, plAttemptAgent := pgAgent (peConfig env)\<rparr>) w"
  have e: "view ?w = view w" by (simp add: view_simps)
  have p: "vEpoch (view w) > 0" "\<not> vDispatch (view w)" using o ready_parts(7) [OF v] by (auto simp: stateOk_def)
  have a: "admitted u (vTrace (view w)) (vIssue (view w))" using ready_parts(8) [OF v] p by (simp add: traceOk_def)
  have st: "invV u (view (askPending (AskStart (rIssue (plRec (pwRec ?w))) ls) ?w))" for ls
    using ready_work [OF v, of "AskStart (vIssue (view w)) ls"] s o ready_parts(15) [OF v] a
    by (simp add: view_simps safeNext_def)
  have fa: "invV u (view (failAttempt env FailureLaunchError False why ?w))" for why
    by (rule inv_failAttempt) (use v s p o in \<open>simp_all add: e freshV_def\<close>)
  show ?thesis using st fa v by (simp add: beginStart_def Let_def readyV_def split: sum.split)
qed

lemma inv_onPrepared:
  assumes v: "readyV u ((view w)\<lparr>vPend := vPend (view w) - 1\<rparr>)" and r: "\<not> vRetry (view w)"
    and o: "okFor (AskStart i t) ((view w)\<lparr>vPend := vPend (view w) - 1\<rparr>)"
  shows "invV u (view (onPrepared env err ws facts base baseErr w))"
proof -
  define w1 where "w1 = (if wsPath ws \<noteq> [] then setWorkspace ws (arrived w) else arrived w)"
  obtain p where e: "view w1 = (view w)\<lparr>vPend := vPend (view w) - 1, vPath := p\<rparr>"
  proof (cases "wsPath ws = []")
    case True
    then show ?thesis using that [of "vPath (view w)"] by (simp add: w1_def view_simps)
  next
    case False
    then show ?thesis using that [of "wsPath ws"] by (simp add: w1_def setWorkspace_def view_simps)
  qed
  have w: "readyV u (view w1)" "\<not> vRetry (view w1)" "okFor (AskStart i t) (view w1)"
    using v r o by (simp_all add: e readyV_def)
  have d: "\<not> vDispatch (view w1)" "curV isSelf (view w1) = []"
    using w ready_parts(7) [OF w(1)] by (auto simp: stateOk_def freshV_def)
  have fault: "invV u (view (enterEpochFault env why w1))" for why
    using inv_enterReview [OF ready_flags(5) [OF w(1)]] w d by (simp add: view_simps)
  have fail: "invV u (view (failLaunch env e what b w1))" for e what b
    by (rule inv_failAttempt(2)) (use w d in simp_all)
  have start: "invV u (view (beginStart env w'))" if "view w' = view w1" for w'
    by (rule inv_beginStart) (use w that in simp_all)
  have susp: "invV u (view (onRecord (\<lambda>r. r\<lparr>rSuspended := True\<rparr>) w1))"
    using ready_flags(8) [OF w(1)] by (simp add: view_simps readyV_def)
  show ?thesis unfolding onPrepared_def Let_def w1_def [symmetric]
    by (rule inv_unlessFinish [OF w(1)]) (use fault fail start susp in \<open>simp add: view_simps split: option.split\<close>)
qed

text \<open>A handle that was adopted: the record is running, suspended, or on its way out.\<close>

lemma inv_adopted:
  assumes v: "readyV u v" and r: "\<not> vRetry v" and o: "okFor (AskStart i t) v"
    and s: "st = StateRunning \<or> st = StatePreparing \<and> (su \<or> sp)" and p: "p = vPump v \<or> p = (vPump v)(vGen v \<mapsto> Pumping)"
  shows "invV u (v\<lparr>vHandle := Some h, vTrace := vTrace v @ [AgentStarted h], vSt := st, vSusp := su, vStopping := sp,
    vFinish := f, vPump := p\<rparr>)"
proof -
  let ?v = "v\<lparr>vHandle := Some h, vTrace := vTrace v @ [AgentStarted h], vSt := st, vSusp := su, vStopping := sp,
    vFinish := f, vPump := p\<rparr>"
  have fr: "curV isProbe v = []" "curV isHalt v = []" "curV isSelf v = []" using o by (simp_all add: freshV_def)
  have "controlOk ?v" using ready_parts(1,14) [OF v] by (simp add: controlOk_def busyV_def)
  moreover have "probeOk ?v" "haltOk ?v" "selfOk ?v" using fr by (simp_all add: probeOk_def haltOk_def selfOk_def)
  moreover have "handleOk ?v" using ready_parts(14) [OF v] s o r by (auto simp: handleOk_def busyV_def)
  moreover have "pumpOk ?v" using ready_parts(6) [OF v] s p o by (auto simp: pumpOk_def split: if_splits)
  moreover have "stateOk ?v" using ready_parts(7,14) [OF v] s o r by (auto simp: stateOk_def busyV_def)
  moreover have "traceOk u ?v" using ready_parts(8,15) [OF v] o
    by (auto simp: traceOk_def liveIn_snoc safeTrace_snoc safeNext_def intro: admitted_snoc split: if_splits)
  ultimately show ?thesis by (simp add: invV_def)
qed

lemma inv_onStarted:
  assumes v: "readyV u ((view w)\<lparr>vPend := vPend (view w) - 1\<rparr>)" and r: "\<not> vRetry (view w)"
    and o: "okFor (AskStart i t) ((view w)\<lparr>vPend := vPend (view w) - 1\<rparr>)" and c: "got \<longleftrightarrow> err = None"
  shows "invV u (view (onStarted env err got w))"
proof (cases got)
  case False
  let ?w = "freeWorkspaceMarker (arrived w)"
  obtain e where e: "err = Some e" using False c by auto
  have w: "readyV u (view ?w)" using ready_emit [OF v, of MarkerFreed] by (simp add: view_simps)
  have f: "vRetry (view ?w) = vRetry (view w)" "vDispatch (view ?w) = vDispatch (view w)" "curV isSelf (view ?w) = curV isSelf (view w)"
    by (simp_all add: view_simps emitV_def)
  have d: "\<not> vDispatch (view w)" "curV isSelf (view w) = []" using o ready_parts(7) [OF v] by (auto simp: stateOk_def freshV_def)
  have fail: "invV u (view (failLaunch env e what b ?w))" for what b
    by (rule inv_failAttempt(2) [OF w]) (use d r f in simp_all)
  have susp: "invV u (view (onRecord (\<lambda>r. r\<lparr>rSuspended := True\<rparr>) ?w))"
    using ready_flags(8) [OF w] by (simp add: view_simps readyV_def)
  have m: "(if err \<noteq> None \<and> \<not> got then freeWorkspaceMarker (adoptHandle got (arrived w)) else adoptHandle got (arrived w)) = ?w"
    using False e by (simp add: adoptHandle_def)
  show ?thesis unfolding onStarted_def Let_def m
    by (rule inv_unlessFinish [OF w]) (use fail susp e False in simp)
next
  case True
  define w1 where "w1 = adoptHandle got (arrived w)"
  let ?v = "(view w)\<lparr>vPend := vPend (view w) - 1\<rparr>"
  define h where "h = vNext (view w)"
  have e: "view w1 = ?v\<lparr>vNext := h + 1, vHandle := Some h, vTrace := vTrace ?v @ [AgentStarted h]\<rparr>"
    using True by (simp add: w1_def adoptHandle_def view_simps emitV_def h_def)
  have ad: "invV u y" if "invV u x" "y = x\<lparr>vNext := h + 1\<rparr>" for x y using that by simp
  note ad' = inv_adopted [OF v _ o]
  have fin: "invV u (finishIfRequestedV (view w1))"
  proof -
    have "invV u ((view w1)\<lparr>vFinish := None, vStopping := True\<rparr>)"
      by (rule ad [OF ad' [of StatePreparing "vSusp (view w)" True "vPump (view w)" None h]]) (use r o in \<open>simp_all add: e\<close>)
    from inv_stop [OF this, of h] show ?thesis by (simp add: finishIfRequestedV_def e exitingV_def orderedV_def)
  qed
  have m: "(if err \<noteq> None \<and> \<not> got then freeWorkspaceMarker (adoptHandle got (arrived w)) else adoptHandle got (arrived w)) = w1"
    using True by (simp add: w1_def)
  have pre: "vSt (view w) = StatePreparing" using o by simp
  have susp: "invV u ((view w1)\<lparr>vSusp := True, vPump := (vPump (view w))(vGen (view w) \<mapsto> Pumping)\<rparr>)"
    by (rule ad [OF ad' [of StatePreparing True "vStopping (view w)" "(vPump (view w))(vGen (view w) \<mapsto> Pumping)" "vFinish (view w)" h]])
      (use r pre in \<open>simp_all add: e\<close>)
  have run: "invV u ((view w1)\<lparr>vSt := StateRunning, vPump := (vPump (view w))(vGen (view w) \<mapsto> Pumping)\<rparr>)"
    by (rule ad [OF ad' [of StateRunning "vSusp (view w)" "vStopping (view w)" "(vPump (view w))(vGen (view w) \<mapsto> Pumping)"
      "vFinish (view w)" h]]) (use r pre in \<open>simp_all add: e\<close>)
  have al: "vSt (view w1) = StatePreparing" "vPump (view w1) = vPump (view w)" "vGen (view w1) = vGen (view w)"
    using pre by (simp_all add: e)
  have ran: "view (case transitionTo env StateRunning reason cause w1 of None \<Rightarrow> w1 | Some w2 \<Rightarrow> markRan w2)
     = (view w1)\<lparr>vSt := StateRunning, vPump := (vPump (view w))(vGen (view w) \<mapsto> Pumping)\<rparr>" for reason cause
    using view_transition [where F = "\<lambda>v. v\<lparr>vPump := (vPump v)(vGen v \<mapsto> Pumping)\<rparr>" and f = markRan and w = w1 and to = StateRunning
      and env = env and reason = reason and cause = cause and z = w1] al
    by (simp add: markRan_def pumpRun_def view_simps)
  show ?thesis unfolding onStarted_def Let_def m
  proof (rule inv_finishCases)
    show "invV u (view w')" if "finishIfRequested env w1 = Some w'" for w' using fin finishIfRequested_Some [OF that] by simp
  qed (use True c run susp al in \<open>simp add: ran\<close>, simp add: markRan_def pumpRun_def view_simps)
qed

section \<open>Claims\<close>

lemma inv_fresh:
  assumes "invV u v" "vSt v = StateQueued \<or> vSt v = StateClaimed \<or> vSt v = StateBackoff"
  shows "freshV v" "vHandle v = None" "\<not> vRetry v"
proof -
  have "curV isProbe v = []" "curV isHalt v = []" using inv_parts(2,3) [OF assms(1)] assms(2) by (auto simp: probeOk_def haltOk_def)
  moreover have "curV isSelf v = []" "vPump v (vGen v) = None"
    using inv_parts(4,6) [OF assms(1)] assms(2) by (auto simp: selfOk_def pumpOk_def)
  ultimately show "freshV v" by (simp add: freshV_def)
  show "vHandle v = None" using inv_parts(5) [OF assms(1)] assms(2) by (cases "vHandle v") (auto simp: handleOk_def)
  show "\<not> vRetry v" using inv_parts(7) [OF assms(1)] assms(2) by (auto simp: stateOk_def)
qed

lemma ready_marks:
  assumes v: "readyV u v"
  shows "readyV u (v\<lparr>vBaseIF := b\<rparr>)" "readyV u (v\<lparr>vApprIF := b\<rparr>)" "readyV u (v\<lparr>vVerified := b\<rparr>)" "readyV u (v\<lparr>vDispatch := False\<rparr>)"
    "invV u (v\<lparr>vRel := True\<rparr>)"
proof -
  have c: "controlOk (v\<lparr>vBaseIF := b\<rparr>)" "controlOk (v\<lparr>vApprIF := b\<rparr>)" "controlOk (v\<lparr>vVerified := b\<rparr>)"
    "controlOk (v\<lparr>vDispatch := False\<rparr>)" "controlOk (v\<lparr>vRel := True\<rparr>)"
    using ready_parts(1,14) [OF v] by (simp_all add: controlOk_def busyV_def)
  have "stateOk (v\<lparr>vDispatch := False\<rparr>)" using ready_parts(7) [OF v] by (simp add: stateOk_def busyV_def)
  then show "readyV u (v\<lparr>vBaseIF := b\<rparr>)" "readyV u (v\<lparr>vApprIF := b\<rparr>)" "readyV u (v\<lparr>vVerified := b\<rparr>)" "readyV u (v\<lparr>vDispatch := False\<rparr>)"
    using c v by (simp_all add: readyV_def invV_def)
  have "probeOk (v\<lparr>vRel := True\<rparr>)" using ready_parts(2) [OF v] by (auto simp: probeOk_def doomedV_def)
  moreover have "haltOk (v\<lparr>vRel := True\<rparr>)" using ready_parts(3) [OF v] by (auto simp: haltOk_def exitingV_def orderedV_def)
  moreover have "handleOk (v\<lparr>vRel := True\<rparr>)" using ready_parts(5,11) [OF v] by (simp add: handleOk_def)
  ultimately show "invV u (v\<lparr>vRel := True\<rparr>)" using ready_parts [OF v] c by (simp add: invV_def)
qed

lemma inv_beginClaimBase:
  assumes v: "invV u (view w)"
  shows "invV u (view (beginClaimBase env w))"
proof (cases "vBaseIF (view w) \<or> exitingV (view w) \<or> vDraining (view w)
    \<or> \<not> (vSt (view w) = StateQueued \<or> vSt (view w) = StateBackoff \<and> vDispatch (view w)) \<or> vEpoch (view w) \<le> 0")
  case True
  then show ?thesis using v by (auto simp: beginClaimBase_def Let_def view_simps)
next
  case False
  then have s: "vSt (view w) = StateQueued \<or> vSt (view w) = StateBackoff \<and> vDispatch (view w)" "vEpoch (view w) > 0" by auto
  have h: "vHandle (view w) = None" "\<not> vRetry (view w)" using inv_fresh [OF v] s by blast+
  have "busyV (view w) = []"
  proof (rule ccontr)
    assume "busyV (view w) \<noteq> []"
    then obtain q where "okFor q (view w)" using inv_parts(1) [OF v] by (auto simp: controlOk_def)
    then show False using s False by (cases q) auto
  qed
  then have "readyV u (view w)" using v h by (simp add: readyV_def busyV_def)
  then have "readyV u ((view w)\<lparr>vBaseIF := True\<rparr>)" by (rule ready_marks)
  then have "invV u (workV (AskClaimBase i t) ((view w)\<lparr>vBaseIF := True\<rparr>))" for i t
    by (rule ready_work) (use s h in \<open>auto simp: safeNext_def\<close>)
  then show ?thesis using False by (auto simp: beginClaimBase_def Let_def view_simps)
qed

lemma inv_beginApproval:
  assumes v: "invV u (view w)" and s: "vSt (view w) = StateQueued" "vEpoch (view w) \<le> 0" "vVerified (view w)"
  shows "invV u (view (beginApproval env w))"
proof (cases "vApprIF (view w)")
  case True
  then show ?thesis using v by (auto simp: beginApproval_def Let_def view_simps)
next
  case False
  have h: "vHandle (view w) = None" "\<not> vRetry (view w)" using inv_fresh [OF v] s by blast+
  have "busyV (view w) = []"
  proof (rule ccontr)
    assume "busyV (view w) \<noteq> []"
    then obtain q where "okFor q (view w)" using inv_parts(1) [OF v] by (auto simp: controlOk_def)
    then show False using s False by (cases q) auto
  qed
  then have "readyV u (view w)" using v h by (simp add: readyV_def busyV_def)
  then have "readyV u ((view w)\<lparr>vApprIF := True\<rparr>)" by (rule ready_marks)
  then have "invV u (workV (AskApproval i t n) ((view w)\<lparr>vApprIF := True\<rparr>))" for i t n
    by (rule ready_work) (use s h in \<open>auto simp: safeNext_def\<close>)
  then show ?thesis using False v by (auto simp: beginApproval_def Let_def view_simps)
qed

lemma inv_onClaimed:
  assumes v: "readyV u ((view w)\<lparr>vPend := vPend (view w) - 1\<rparr>)" and s: "vSt (view w) = StateQueued" "vEpoch (view w) \<le> 0"
  shows "invV u (view (onClaimed env err verified w))"
proof -
  have w: "readyV u (view (arrived w))" using v by (simp add: view_simps)
  have "invV u (view (beginApproval env (onPipe (\<lambda>p. p\<lparr>plClaimVerified := True\<rparr>) (arrived w))))"
    by (rule inv_beginApproval) (use ready_marks(3) [OF w, of True] s in \<open>simp_all add: view_simps readyV_def\<close>)
  moreover have "invV u (view (forgetRecord (arrived w)))" using w by (simp add: view_simps readyV_def)
  moreover have "invV u (view (onRecord (\<lambda>r. release (peLoop env) r why) (arrived w)))" for why
    using ready_marks(5) [OF w] by (simp add: view_simps)
  ultimately show ?thesis unfolding onClaimed_def Let_def
    by (intro inv_unlessFinish [OF w]) (simp split: option.split)
qed

text \<open>The content a record carries changes only where an approval was checked.\<close>

lemma view_pin [view_simps]:
  "viewR (pin r a) w = (viewR r w)\<lparr>vIssue := (rIssue r)\<lparr>ciTitle := icTitle (acContent a), ciBody := icBody (acContent a)\<rparr>,
     vApprovedAt := acAt a\<rparr>"
  by (simp add: pin_def view_simps)

lemma inv_issue:
  assumes "invV u v" "ciTitle i = ciTitle (vIssue v)" "ciBody i = ciBody (vIssue v)"
  shows "invV u (v\<lparr>vIssue := i\<rparr>)"
proof -
  have "traceOk u (v\<lparr>vIssue := i\<rparr>)" using inv_parts(8) [OF assms(1)] assms(2,3) by (simp add: traceOk_def admitted_def)
  then show ?thesis using assms(1) by (simp add: invV_def)
qed

lemma inv_adoptRouting: "invV u (view w) \<Longrightarrow> invV u (view (onRecord (\<lambda>r. adoptRouting r fresh) w))"
  using inv_issue by (simp add: adoptRouting_def view_simps)

lemma ready_adoptRouting: "readyV u (view w) \<Longrightarrow> readyV u (view (onRecord (\<lambda>r. adoptRouting r fresh) w))"
  using inv_adoptRouting [of u w fresh] by (simp add: readyV_def) (simp add: adoptRouting_def view_simps)

lemma admitted_read:
  assumes "ApprovalRead history required read \<in> set trace" "checkApproval u history required read = Inr a"
    "ciTitle i = icTitle (acContent a)" "ciBody i = icBody (acContent a)"
  shows "admitted u trace i"
  using assms unfolding admitted_def by blast

lemma ready_pin:
  assumes v: "readyV u v" and a: "admitted u (vTrace v) i"
  shows "readyV u (v\<lparr>vIssue := i, vApprovedAt := t\<rparr>)"
proof -
  have "traceOk u (v\<lparr>vIssue := i, vApprovedAt := t\<rparr>)" using ready_parts(8) [OF v] a by (simp add: traceOk_def)
  then show ?thesis using v by (simp add: readyV_def invV_def)
qed

lemma ready_epoch:
  assumes v: "readyV u v" and a: "admitted u (vTrace v) (vIssue v)" and p: "t > 0"
  shows "readyV u (v\<lparr>vEpoch := t\<rparr>)"
proof -
  have "controlOk (v\<lparr>vEpoch := t\<rparr>)" using ready_parts(1,14) [OF v] by (simp add: controlOk_def busyV_def)
  moreover have "stateOk (v\<lparr>vEpoch := t\<rparr>)" using ready_parts(7) [OF v] p by (simp add: stateOk_def busyV_def)
  moreover have "traceOk u (v\<lparr>vEpoch := t\<rparr>)" using ready_parts(8) [OF v] a by (simp add: traceOk_def)
  ultimately show ?thesis using v by (simp add: readyV_def invV_def)
qed

lemma inv_onApproved:
  assumes v: "readyV u ((view w)\<lparr>vPend := vPend (view w) - 1\<rparr>)" and s: "vSt (view w) = StateQueued"
  shows "invV u (view (onApproved u env required who ans w))"
proof -
  define w1 where "w1 = onPipe (\<lambda>p. p\<lparr>plApprovalInFlight := False\<rparr>) (arrived w)"
  have w: "readyV u (view w1)" using ready_marks(2) [OF v, of False] by (simp add: w1_def view_simps)
  have f: "vSt (view w1) = StateQueued" using s by (simp add: w1_def view_simps)
  have r: "\<not> vRetry (view w1)" "\<not> vDispatch (view w1)" using ready_parts(7) [OF w] f by (auto simp: stateOk_def)
  have gone: "invV u (view (finishNow env False goneWhy (onRecord markGone w1)))"
    using inv_finishNow(1) [of u "view (onRecord markGone w1)"] ready_flags(7) [OF w] by (simp add: view_simps readyV_def)
  have e: "readyV u (view (emit (ApprovalRead h required a) w1))" for h a
    using ready_emit [OF w, of "ApprovalRead h required a"] by (simp add: view_simps)
  have re: "\<not> vRetry (view (emit x w1))" "\<not> vDispatch (view (emit x w1))" for x using r by (simp_all add: view_simps emitV_def)
  have review: "invV u (view (enterNeedsReview env why [] (emit (ApprovalRead h required a) w1)))" for why h a
    using inv_enterReview [OF e] re by (simp add: view_simps)
  have x: "readyV u (view (onRecord (\<lambda>r. pin r c) (emit (ApprovalRead h required a) w1)))"
      "admitted u (vTrace (view (onRecord (\<lambda>r. pin r c) (emit (ApprovalRead h required a) w1))))
         (vIssue (view (onRecord (\<lambda>r. pin r c) (emit (ApprovalRead h required a) w1))))"
    if c: "checkApproval u h required a = Inr c" for h a c
  proof -
    have ad: "admitted u (vTrace (view (emit (ApprovalRead h required a) w1))) i"
      if "ciTitle i = icTitle (acContent c)" "ciBody i = icBody (acContent c)" for i
      by (rule admitted_read [OF _ c that]) (simp add: view_simps emitV_def)
    show "readyV u (view (onRecord (\<lambda>r. pin r c) (emit (ApprovalRead h required a) w1)))"
      using ready_pin [OF e ad] by (simp add: view_simps)
    show "admitted u (vTrace (view (onRecord (\<lambda>r. pin r c) (emit (ApprovalRead h required a) w1))))
         (vIssue (view (onRecord (\<lambda>r. pin r c) (emit (ApprovalRead h required a) w1))))"
      using ad by (simp add: view_simps emitV_def)
  qed
  have fault: "invV u (view (enterEpochFault env why (onRecord (\<lambda>r. pin r c) (emit (ApprovalRead h required a) w1))))"
    if "checkApproval u h required a = Inr c" for why h a c
    using inv_enterReview [OF ready_flags(5) [OF x(1) [OF that]]] re by (simp add: view_simps)
  have base: "invV u (view (beginClaimBase env (onPipe (\<lambda>p. p\<lparr>plClaimEpoch := epoch\<rparr>)
      (onRecord (\<lambda>r. pin r c) (emit (ApprovalRead h required a) w1)))))"
    if "checkApproval u h required a = Inr c" "\<not> epoch \<le> 0" for epoch h a c
    by (rule inv_beginClaimBase) (use ready_epoch [OF x [OF that(1)], of epoch] that(2) in \<open>simp add: view_simps readyV_def\<close>)
  have i: "invV u (view w1)" using w by (simp add: readyV_def)
  show ?thesis unfolding onApproved_def Let_def w1_def [symmetric]
    by (rule inv_unlessFinish [OF w]) (auto simp: i gone review fault base split: sum.split)
qed

lemma inv_claimBaseReady:
  assumes v: "readyV u (view w)" and s: "vSt (view w) = StateQueued \<or> vSt (view w) = StateBackoff" "vEpoch (view w) > 0"
    and e: "\<not> exitingV (view w)"
  shows "invV u (view (claimBaseReady env w))"
proof -
  have f: "freshV (view w)" "\<not> vRetry (view w)" using inv_fresh [OF ready_parts(13) [OF v]] s by blast+
  let ?w = "onRecord (\<lambda>r. r\<lparr>rAttempt := rAttempt r + 1\<rparr>) (onPipe (\<lambda>p. p\<lparr>plClaimBaseDispatch := False\<rparr>) w)"
  have d: "readyV u (view ?w)" using ready_marks(4) [OF v] by (simp add: view_simps)
  have "invV u (view (case transitionTo env StatePreparing reason cause ?w of None \<Rightarrow> ?w | Some w1 \<Rightarrow> beginPrepare env w1))" for reason cause
    by (rule inv_toPrepare [OF d]) (use f s e ready_parts(13) [OF d] in \<open>simp_all add: view_simps exitingV_def orderedV_def\<close>)
  moreover have "invV u (view (case transitionTo env StateClaimed reason cause w of None \<Rightarrow> forgetRecord w
      | Some w1 \<Rightarrow> commentOn env MilestoneClaimed w1))" if "vSt (view w) = StateQueued" for reason cause
  proof -
    have "\<not> vDispatch (view w)" using ready_parts(7) [OF v] that by (auto simp: stateOk_def)
    then have "readyV u ((view w)\<lparr>vSt := StateClaimed\<rparr>)"
      by (intro ready_state [OF v f(2)]) (use f s in \<open>simp_all add: freshV_def\<close>)
    then show ?thesis using view_transition [where f = "commentOn env MilestoneClaimed" and F = "\<lambda>v. v" and w = w and z = "forgetRecord w"] that
      by (simp add: view_simps readyV_def)
  qed
  ultimately show ?thesis using s by (auto simp: claimBaseReady_def) (simp_all add: view_simps)
qed

lemma inv_onClaimBaseBegun:
  assumes v: "readyV u ((view w)\<lparr>vPend := vPend (view w) - 1\<rparr>)" and s: "vEpoch (view w) > 0"
  shows "invV u (view (onClaimBaseBegun env err base baseErr blocked w))"
proof -
  define w1 where "w1 = onPipe (\<lambda>p. p\<lparr>plClaimBaseInFlight := False\<rparr>) (arrived w)"
  have w: "readyV u (view w1)" using ready_marks(1) [OF v, of False] by (simp add: w1_def view_simps)
  have f: "vEpoch (view w1) > 0" using s by (simp add: w1_def view_simps)
  have i: "invV u (view w1)" using w by (simp add: readyV_def)
  have q: "vSt (view w1) = StateQueued \<or> vSt (view w1) = StateBackoff"
    if "\<not> (rState (baseOf w1) \<noteq> StateQueued \<and> (rState (baseOf w1) \<noteq> StateBackoff \<or> \<not> plClaimBaseDispatch (pwRec w1)))"
    using that by (auto simp: view_simps)
  have ready: "invV u (view (claimBaseReady env w1))"
    if "vSt (view w1) = StateQueued \<or> vSt (view w1) = StateBackoff" "\<not> exitingV (view w1)"
    by (rule inv_claimBaseReady [OF w that(1) f that(2)])
  have fault: "invV u (view (enterEpochFault env why w1))" if "vSt (view w1) = StateQueued \<or> vSt (view w1) = StateBackoff" for why
    using inv_enterReview [OF ready_flags(5) [OF w]] inv_fresh(3) [OF i] that by (auto simp: view_simps)
  show ?thesis unfolding onClaimBaseBegun_def Let_def w1_def [symmetric]
  proof (rule inv_unlessFinish [OF w])
    show "invV u (view (if exiting (baseOf w1) \<or> pwDraining w1 then w1 else if blocked then w1
       else if rState (baseOf w1) \<noteq> StateQueued \<and> (rState (baseOf w1) \<noteq> StateBackoff \<or> \<not> plClaimBaseDispatch (pwRec w1)) then w1
       else case err of None \<Rightarrow> claimBaseReady env w1
       | Some _ \<Rightarrow>
           if (case baseErr of None \<Rightarrow> False | Some e \<Rightarrow> erTargetUnrecorded e) \<and> legacyClaimBaseCanUpgrade base (plClaimEpoch (pwRec w1)) then w1
           else if baseErr \<noteq> None then
             enterEpochFault env ''claim epoch: pending intent is unreadable after initialization failed'' w1
           else if claimBasePinsEpoch base (plClaimEpoch (pwRec w1)) then claimBaseReady env w1
           else if cbState base = ClaimBaseAbsent \<or> cbState base = ClaimBasePending \<and> cbEpoch base = plClaimEpoch (pwRec w1)
               \<or> claimBasePinsEpoch base (cbEpoch base) \<and> cbEpoch base \<noteq> plClaimEpoch (pwRec w1) then w1
           else enterEpochFault env (''claim epoch: initialization found contradictory provider state '' @ peShow env base) w1))"
      using i ready fault q by (auto split: option.splits simp: exiting_view)
  qed
qed

lemma inv_idle:
  assumes v: "invV u v" and s: "vSt v = StateClaimed \<or> vSt v = StateNeedsReview"
  shows "readyV u v" "\<not> vRetry v"
proof -
  have "busyV v = []"
  proof (rule ccontr)
    assume "busyV v \<noteq> []"
    then obtain q where "okFor q v" using inv_parts(1) [OF v] by (auto simp: controlOk_def)
    then show False using s by (cases q) auto
  qed
  moreover have "vHandle v = None" using inv_parts(5) [OF v] s by (cases "vHandle v") (auto simp: handleOk_def)
  ultimately show "readyV u v" using v by (simp add: readyV_def busyV_def)
  show "\<not> vRetry v" using inv_parts(7) [OF v] s by (auto simp: stateOk_def)
qed

lemma inv_onClaimProjected:
  assumes v: "invV u (view w)"
  shows "invV u (view (onClaimProjected env w))"
proof (cases "vSt (view w) = StateClaimed \<and> \<not> exitingV (view w)")
  case True
  then have "invV u (view (case transitionTo env StatePreparing reason cause w of None \<Rightarrow> w | Some w1 \<Rightarrow> beginPrepare env w1))" for reason cause
    using inv_idle [OF v] inv_fresh(1) [OF v] inv_parts(7) [OF v] v
    by (intro inv_toPrepare) (auto simp: exitingV_def orderedV_def stateOk_def)
  then show ?thesis using v by (simp add: onClaimProjected_def)
next
  case False
  then show ?thesis using v by (auto simp: onClaimProjected_def view_simps)
qed

section \<open>Verdicts\<close>

lemma inv_onVerdict:
  assumes v: "readyV u (view w)" and s: "vSt (view w) = StateVerifying" "\<not> vRetry (view w)"
  shows "invV u (view (onVerdict env res w))"
proof -
  have d: "\<not> vDispatch (view w)" using ready_parts(7) [OF v] s by (auto simp: stateOk_def)
  have sf: "curV isSelf (view w) = []" using ready_parts(4) [OF v] s by (auto simp: selfOk_def)
  have review: "invV u (view (enterNeedsReview env why cause w))" for why cause
    using inv_enterReview [OF v s(2)] d by (simp add: view_simps)
  have "readyV u ((view w)\<lparr>vSt := StateDone\<rparr>)" by (rule ready_state [OF v s(2)]) (use d sf in simp_all)
  then have done': "invV u (view (case transitionTo env StateDone reason cause w of None \<Rightarrow> w
      | Some w1 \<Rightarrow> disposePublished env (commentOn env MilestonePublished (onPipe (\<lambda>p. p\<lparr>plPRURL := url\<rparr>) w1))))" for reason cause url
    using view_transition [where f = "\<lambda>w1. disposePublished env (commentOn env MilestonePublished (onPipe (\<lambda>p. p\<lparr>plPRURL := url\<rparr>) w1))"
      and F = "\<lambda>v. v" and w = w and z = w] s by (simp add: view_simps readyV_def)
  have "readyV u ((view w)\<lparr>vGen := vGen (view w) + 1\<rparr>)" "freshV ((view w)\<lparr>vGen := vGen (view w) + 1\<rparr>)"
    using ready_bump [OF v s(2), of "vStopping (view w)"] by simp_all
  then have "invV u (askV (AskTimer timerContinuation) ((view w)\<lparr>vGen := vGen (view w) + 1\<rparr>))"
    by (intro ready_timer) (use s in simp_all)
  then have more: "invV u (view (armTimer timerContinuation (onRecord (\<lambda>r. r\<lparr>rGeneration := rGeneration r + 1\<rparr>)
      (onPipe (\<lambda>p. forgetAccount (p\<lparr>plSessionID := [], plFailureReason := []\<rparr>)) w))))" by (simp add: view_simps)
  show ?thesis by (cases "resVerdict res") (simp_all add: onVerdict_def review done' more)
qed

lemma inv_onVerified:
  assumes v: "readyV u ((view w)\<lparr>vPend := vPend (view w) - 1\<rparr>)" and r: "\<not> vRetry (view w)"
    and s: "vSt (view w) = StateVerifying" "vOutcome (view w) = None"
  shows "invV u (view (onVerified env ans w))"
proof -
  define w1 where "w1 = arrived w"
  have w: "readyV u (view w1)" using v by (simp add: w1_def view_simps)
  have f: "vSt (view w1) = StateVerifying" "vOutcome (view w1) = None" "\<not> vRetry (view w1)" using s r by (simp_all add: w1_def view_simps)
  have d: "\<not> vDispatch (view w1)" using ready_parts(7) [OF w] f by (auto simp: stateOk_def)
  have i: "invV u (view w1)" using w by (simp add: readyV_def)
  have fault: "invV u (view (enterEpochFault env why (recordAttempt env a b (endAttempt env w1))))" for why a b
    using inv_enterReview [OF ready_flags(5) [OF w]] f d by (simp add: view_simps)
  have review: "invV u (view (enterNeedsReview env why cause (recordAttempt env a b (onPipe (\<lambda>p. recordAccount (plLastOutcome p) p) (endAttempt env w1)))))"
    for why cause a b
    using inv_enterReview [OF w f(3)] d by (simp add: view_simps)
  have gone: "invV u (view (finishNow env False why (onRecord markGone w1)))" for why
    using inv_finishNow(1) [of u "view (onRecord markGone w1)"] ready_flags(7) [OF w] by (simp add: view_simps readyV_def)
  have retry: "invV u (view (retryVerify w1))"
  proof -
    have "controlOk ((view w1)\<lparr>vRetry := True\<rparr>)" using ready_parts(1,14) [OF w] by (simp add: controlOk_def busyV_def)
    moreover have "stateOk ((view w1)\<lparr>vRetry := True\<rparr>)" using ready_parts(7,14) [OF w] f by (simp add: stateOk_def busyV_def)
    moreover have "handleOk ((view w1)\<lparr>vRetry := True\<rparr>)" using ready_parts(5,11) [OF w] by (simp add: handleOk_def)
    ultimately show ?thesis using ready_parts [OF w] by (simp add: invV_def retryVerify_def view_simps)
  qed
  have verdict: "invV u (view (onVerdict env res (recordAttempt env a b (onPipe (\<lambda>p. recordAccount (plLastOutcome p) p) (endAttempt env w1)))))"
    for res a b by (rule inv_onVerdict) (use w f in \<open>simp_all add: view_simps\<close>)
  show ?thesis unfolding onVerified_def Let_def w1_def [symmetric]
    by (rule inv_unlessFinish [OF w]) (auto simp: i fault review gone retry verdict split: verifyAnswer.split sum.split)
qed

lemma inv_driveVerifyRetry:
  assumes v: "invV u (view w)"
  shows "invV u (view (driveVerifyRetry w))"
proof (cases "vRetry (view w)")
  case True
  then have s: "vSt (view w) = StateVerifying" "vOutcome (view w) = None" "busyV (view w) = []" using inv_parts(7) [OF v]
    by (auto simp: stateOk_def)
  have "vHandle (view w) = None" using inv_handle(6) [OF v] True by (cases "vHandle (view w)") auto
  then have "readyV u (view w)" using v s by (simp add: readyV_def busyV_def)
  then have w: "readyV u ((view w)\<lparr>vRetry := False\<rparr>)" by (rule ready_flags)
  have "invV u (workV (AskVerify i ws) ((view w)\<lparr>vRetry := False\<rparr>))" for i ws
    by (rule ready_work [OF w]) (use s ready_parts(15) [OF w] in \<open>simp_all add: safeNext_def\<close>)
  then show ?thesis using v by (simp add: driveVerifyRetry_def view_simps)
next
  case False
  then show ?thesis using v by (simp add: driveVerifyRetry_def view_simps)
qed

section \<open>Re-dispatch\<close>

lemma inv_rearm:
  assumes "readyV u (view w)" "okFor (AskTimer timerBackoff) (view w)" "\<not> vRetry (view w)"
  shows "invV u (view (rearm kind w))"
  using ready_timer [OF assms(1), of "AskTimer kind"] assms by (simp add: view_simps)

lemma inv_redispatch:
  assumes v: "readyV u (view w)" and o: "okFor (AskTimer timerBackoff) (view w)" and r: "\<not> vRetry (view w)" "\<not> exitingV (view w)"
    and a: "admitted u (vTrace (view w)) (vIssue (view w))"
  shows "invV u (view (redispatch u env kind a' w))"
proof -
  have d: "\<not> vDispatch (view w)" using o ready_parts(7) [OF v] by (auto simp: stateOk_def)
  have fault: "invV u (view (enterEpochFault env why w))" for why
    using inv_enterReview [OF ready_flags(5) [OF v]] r d by (simp add: view_simps)
  have base: "invV u (view (beginClaimBase env (onPipe (\<lambda>p. p\<lparr>plClaimEpoch := t, plClaimBaseDispatch := True, plDefinition := c\<rparr>) w)))"
    if t: "\<not> t \<le> 0" and z: "plClaimEpoch (pwRec w) = 0" for t c
  proof (rule inv_beginClaimBase)
    have w: "readyV u ((view w)\<lparr>vEpoch := t\<rparr>)" using ready_epoch [OF v a] t by simp
    have b: "vSt (view w) = StateBackoff" using o z ready_parts(7) [OF v] by (auto simp: stateOk_def view_simps)
    have "controlOk ((view w)\<lparr>vEpoch := t, vDispatch := True\<rparr>)" using ready_parts(1,14) [OF w] by (simp add: controlOk_def busyV_def)
    moreover have "stateOk ((view w)\<lparr>vEpoch := t, vDispatch := True\<rparr>)" using ready_parts(7) [OF w] b by (simp add: stateOk_def busyV_def)
    ultimately show "invV u (view (onPipe (\<lambda>p. p\<lparr>plClaimEpoch := t, plClaimBaseDispatch := True, plDefinition := c\<rparr>) w))"
      using ready_parts [OF w] by (simp add: invV_def view_simps)
  qed
  have go: "invV u (view (case transitionTo env StatePreparing reason cause w1 of None \<Rightarrow> z | Some w2 \<Rightarrow> beginPrepare env w2))"
    if "view w1 = view w" "view z = view w" "plClaimEpoch (pwRec w) > 0" for reason cause w1 z
    by (rule inv_toPrepare) (use v o r d that in \<open>auto simp: view_simps exitingV_def orderedV_def readyV_def\<close>)
  show ?thesis
    by (auto simp: redispatch_def Let_def fault base inv_rearm [OF v o r(1)] split: baseGate.split intro!: go) (simp_all add: view_simps)
qed

lemma inv_onTimerFetched:
  assumes v: "readyV u (view w)" and o: "okFor (AskTimer timerBackoff) (view w)" and r: "\<not> vRetry (view w)"
    and c: "\<And>p. checkApproval u (rfHistory a) (rfRequired a) (rfApproval a) = Inr p \<Longrightarrow> acAt p > zeroTime"
  shows "invV u (view (onTimerFetched u env kind revision a w))"
proof -
  have d: "\<not> vDispatch (view w)" using o ready_parts(7) [OF v] by (auto simp: stateOk_def)
  have i: "invV u (view w)" using v by (simp add: readyV_def)
  have fin: "invV u (view (finishNow env keep why w))" for keep why
    using inv_finishNow(1) [OF i] v by (simp add: view_simps readyV_def)
  have gone: "invV u (view (finishNow env keep why (onRecord markGone w)))" for keep why
    using inv_finishNow(1) [of u "view (onRecord markGone w)"] ready_flags(7) [OF v] by (simp add: view_simps readyV_def)
  define w1 where "w1 = emit (ApprovalRead (rfHistory a) (rfRequired a) (rfApproval a)) w"
  have e1: "view w1 = emitV (ApprovalRead (rfHistory a) (rfRequired a) (rfApproval a)) (view w)" by (simp add: w1_def view_simps)
  have w1: "readyV u (view w1)" unfolding e1 by (rule ready_emit [OF v]) simp_all
  have review: "invV u (view (enterNeedsReview env why cause w1))" for why cause
    using inv_enterReview [OF w1] r d by (simp add: view_simps e1 emitV_def)
  define f where "f fresh p r = (let r1 = adoptRouting r fresh in if acAt p > rApprovedAt r1 then pin r1 p else r1)" for fresh p r
  have w2: "readyV u (view (onRecord (f fresh p) w1))" "okFor (AskTimer timerBackoff) (view (onRecord (f fresh p) w1))"
      "\<not> vRetry (view (onRecord (f fresh p) w1))" "exitingV (view (onRecord (f fresh p) w1)) = exitingV (view w)"
      "admitted u (vTrace (view (onRecord (f fresh p) w1))) (vIssue (view (onRecord (f fresh p) w1)))"
    if p: "checkApproval u (rfHistory a) (rfRequired a) (rfApproval a) = Inr p" for fresh p
  proof -
    let ?w = "onRecord (\<lambda>r. adoptRouting r fresh) w1"
    have w: "readyV u (view ?w)" by (rule ready_adoptRouting [OF w1])
    have ad: "admitted u (vTrace (view ?w)) j"
      if "ciTitle j = icTitle (acContent p)" "ciBody j = icBody (acContent p)" for j
      by (rule admitted_read [OF _ p that]) (simp add: view_simps e1 emitV_def adoptRouting_def)
    have eq: "view (onRecord (f fresh p) w1) = (if acAt p > vApprovedAt (view ?w)
       then (view ?w)\<lparr>vIssue := (vIssue (view ?w))\<lparr>ciTitle := icTitle (acContent p), ciBody := icBody (acContent p)\<rparr>, vApprovedAt := acAt p\<rparr>
       else view ?w)"
      by (simp add: f_def Let_def view_simps adoptRouting_def)
    have at: "admitted u (vTrace (view ?w)) (vIssue (view ?w))" if "\<not> acAt p > vApprovedAt (view ?w)"
      using that c [OF p] ready_parts(8) [OF w] by (auto simp: traceOk_def)
    show "readyV u (view (onRecord (f fresh p) w1))" unfolding eq using w ready_pin [OF w ad] by simp
    show "admitted u (vTrace (view (onRecord (f fresh p) w1))) (vIssue (view (onRecord (f fresh p) w1)))"
      unfolding eq using ad at by simp
    show "okFor (AskTimer timerBackoff) (view (onRecord (f fresh p) w1))" "\<not> vRetry (view (onRecord (f fresh p) w1))"
      "exitingV (view (onRecord (f fresh p) w1)) = exitingV (view w)"
      unfolding eq using o r by (simp_all add: view_simps e1 emitV_def adoptRouting_def exitingV_def orderedV_def)
  qed
  have again: "invV u (view (case transitionTo env StateBackoff reason cause w' of None \<Rightarrow> w' | Some w3 \<Rightarrow> rearm kind w3))"
    if w': "readyV u (view w')" "okFor (AskTimer timerBackoff) (view w')" "\<not> vRetry (view w')" "rState (baseOf w') = StateBackoff"
    for reason cause w'
  proof -
    have e: "(view w')\<lparr>vSt := StateBackoff\<rparr> = view w'" using w'(4) by (simp add: view_simps)
    show ?thesis using view_transition [where f = "rearm kind" and F = "askV (AskTimer kind)" and w = w' and z = w']
        ready_timer [OF w'(1), of "AskTimer kind"] w' by (simp add: view_simps e)
  qed
  show ?thesis unfolding onTimerFetched_def Let_def w1_def [symmetric] f_def [unfolded Let_def, symmetric]
    using inv_rearm [OF w2(1-3)] again [OF w2(1-3)] inv_redispatch [OF w2(1-3)] w2(4,5)
    by (auto simp: i fin gone review inv_rearm [OF v o r] exiting_view split: option.split sum.split)
qed

section \<open>Ticks\<close>

lemma inv_stopGone: "invV u (view w) \<Longrightarrow> invV u (view (stopAndFinish env keep why (onRecord markGone w)))"
  "invV u (view w) \<Longrightarrow> invV u (view (stopAndFinish env keep why (onRecord markClaimLost w)))"
  "invV u (view w) \<Longrightarrow> invV u (view (stopAndFinish env keep why w))"
  using inv_stopAndFinish inv_raise(1,2) by (simp_all add: view_simps)

lemma inv_reconcile: "invV u (view w) \<Longrightarrow> invV u (view (reconcile u' env res w))"
  by (auto simp: reconcile_def Let_def inv_stopGone inv_adoptRouting split: option.split)

lemma inv_applyParked:
  assumes v: "invV u (view w)" and s: "vSt (view w) = StateNeedsReview"
  shows "invV u (view (applyParked u' env fresh usable w))"
proof -
  let ?w = "onRecord restoreBudgets (onRecord (\<lambda>r. adoptRouting r fresh) w)"
  have w: "invV u (view ?w)" using inv_adoptRouting [OF v] by (simp add: view_simps)
  have st: "vSt (view ?w) = StateNeedsReview" using s by (simp add: adoptRouting_def view_simps)
  have "invV u (view (enterBackoff env why cause ?w))" if "\<not> plEpochFaulted (pwRec ?w)" for why cause
  proof -
    have "\<not> vFaulted (view ?w)" using that by (simp add: view_simps)
    then have "\<not> vDispatch (view ?w)" using inv_parts(7) [OF w] st by (auto simp: stateOk_def)
    then have "invV u (enterBackoffV (view ?w))" using inv_enterBackoff [of u "view ?w"] inv_idle [OF w] st by blast
    then show ?thesis by (simp add: view_simps)
  qed
  moreover have "invV u (view (commentOn env MilestoneNeedsReview
      (onRecord (\<lambda>r. oweProjection (peLoop env) (r\<lparr>rUpdatedAt := peNow env\<rparr>) what label) ?w)))" for what label
    using w by (simp add: view_simps)
  ultimately show ?thesis using inv_stopGone(3) [OF v] inv_adoptRouting [OF v] by (simp add: applyParked_def Let_def)
qed

lemma inv_absence: "invV u (view w) \<Longrightarrow> invV u (view (confirmParkedAbsence w))" "invV u (view w) \<Longrightarrow> invV u (view (confirmOwedAbsence w))"
  by (simp_all add: confirmParkedAbsence_def confirmOwedAbsence_def view_simps inv_ask_read)

lemma inv_sweepParked:
  assumes "invV u (view w)"
  shows "invV u (view (sweepParked u' env settled seen picked w))"
  using assms inv_absence(1) [OF assms] inv_applyParked [OF assms]
  by (simp add: sweepParked_def split: option.split) (simp add: view_simps)

lemma inv_onParkedConfirmed:
  assumes v: "invV u (view w)"
  shows "invV u (view (onParkedConfirmed u' env settled res w))"
proof -
  let ?w = "onPipe (\<lambda>p. p\<lparr>plAbsenceInFlight := False\<rparr>) w"
  have w: "invV u (view ?w)" using v by (simp add: view_simps)
  have "invV u (view (applyParked u' env fresh usable ?w))" if "rState (baseOf ?w) = StateNeedsReview" for fresh usable
    by (rule inv_applyParked [OF w]) (use that in \<open>simp add: view_simps\<close>)
  then show ?thesis using w inv_stopGone [OF w] by (simp add: onParkedConfirmed_def Let_def split: option.split)
qed

lemma inv_driveOwed: "invV u (view w) \<Longrightarrow> invV u (view (onRecord (driveOwed e) w))"
  by (simp add: view_simps)

lemma inv_onOwedConfirmed:
  assumes v: "invV u (view w)"
  shows "invV u (view (onOwedConfirmed env res w))"
proof -
  let ?w = "onPipe (\<lambda>p. p\<lparr>plAbsenceInFlight := False\<rparr>) w"
  have w: "invV u (view ?w)" using v by (simp add: view_simps)
  then show ?thesis using inv_driveOwed [OF inv_stopGone(1) [OF w]] by (simp add: onOwedConfirmed_def Let_def)
qed

lemma inv_stopAgain: "invV u (view w) \<Longrightarrow> exitingV (view w) \<Longrightarrow> plHandle (pwRec w) \<noteq> None \<Longrightarrow> invV u (view (beginStop mode w))"
  using inv_stop [of u "view w"] by (auto simp: view_simps)

lemma inv_retryPendingExits:
  assumes v: "invV u (view w)"
  shows "invV u (view (retryPendingExits env w))"
proof -
  define w1 where "w1 = onRecord (driveOwed (peLoop env)) w"
  define w2 where "w2 = (if rStopping (baseOf w1) \<and> plHandle (pwRec w1) \<noteq> None then beginStop StopDiscard w1 else w1)"
  define w3 where "w3 = (if rState (baseOf w2) = StateQueued \<and> plClaimVerified (pwRec w2) then
    (if plClaimEpoch (pwRec w2) > 0 then beginClaimBase env w2 else beginApproval env w2) else w2)"
  define w4 where "w4 = (if rState (baseOf w3) = StateBackoff \<and> plClaimBaseDispatch (pwRec w3) \<and> plClaimEpoch (pwRec w3) > 0
    then beginClaimBase env w3 else w3)"
  have i1: "invV u (view w1)" using inv_driveOwed [OF v] by (simp add: w1_def)
  have i2: "invV u (view w2)" using i1 inv_stopAgain [OF i1] by (auto simp: w2_def view_simps exitingV_def orderedV_def)
  have i3: "invV u (view w3)" using i2 inv_beginClaimBase [OF i2] inv_beginApproval [OF i2] by (auto simp: w3_def view_simps)
  have "invV u (view w4)" using i3 inv_beginClaimBase [OF i3] by (simp add: w4_def)
  then have "invV u (view (confirmQuiet env w4))" by (rule inv_confirmQuiet)
  then show ?thesis unfolding retryPendingExits_def Let_def w1_def [symmetric] w2_def [symmetric] w3_def [symmetric] w4_def [symmetric] .
qed

lemma inv_driveShutdown:
  assumes v: "invV u (view w)"
  shows "invV u (view (driveShutdown env w))"
proof -
  define w1 where "w1 = onRecord (\<lambda>r. r\<lparr>rSuspended := True\<rparr>) w"
  define w2 where "w2 = (if plHandle (pwRec w1) = None \<and> rPending (baseOf w1) = 0
    then completeShutdown env (recordAttempt env FailureKilled VerdictUnknown w1) else w1)"
  define w3 where "w3 = onRecord (driveOwed (peLoop env)) w2"
  have e: "view w3 = (view w)\<lparr>vSusp := True\<rparr>" by (simp add: w3_def w2_def w1_def view_simps)
  have i: "invV u (view w3)" unfolding e by (rule inv_raise(3) [OF v])
  have s: "invV u (view (beginStop StopInterrupt w3))" if "plHandle (pwRec w3) \<noteq> None"
    by (rule inv_stopAgain [OF i _ that]) (simp add: e exitingV_def)
  show ?thesis unfolding driveShutdown_def Let_def w1_def [symmetric] w2_def [symmetric] w3_def [symmetric]
    using v i s inv_driveOwed [OF v] by simp
qed

lemma view_onEffectDone: "viewR (fst (onEffectDone e r what failed)) w = viewR r w"
  by (simp add: onEffectDone_def Let_def view_simps)

lemma inv_onEffect:
  assumes v: "invV u (view w)"
  shows "invV u (view (onEffect env failed w))"
proof -
  obtain r call where rc: "onEffectDone (peLoop env) (baseOf w) (oeWhat (hd (rOwed (baseOf w)))) failed = (r, call)" by fastforce
  then have "viewR r w = view w" using view_onEffectDone [of "peLoop env" "baseOf w" "oeWhat (hd (rOwed (baseOf w)))" failed w]
    by (simp add: view_simps)
  then have "invV u (view (onRecord (\<lambda>_. r) w))" using v by (simp add: view_simps)
  then show ?thesis using rc inv_onClaimProjected [of u "onRecord (\<lambda>_. r) w"]
    by (simp add: onEffect_def Let_def view_simps split: afterCall.split)
qed

section \<open>Every step\<close>

text \<open>
  What the steps rely on: a runner returns a handle exactly when it returns no error (a launch that failed
  has none, and one that did not is pumped), and the events of an issue's history carry their instants.
\<close>

fun contractOk :: "pipeSignal \<Rightarrow> bool" where
  "contractOk (Reply _ _ (AnsStarted err got)) = (got \<longleftrightarrow> err = None)"
| "contractOk (Reply _ _ (AnsRefetched a)) = list_all (\<lambda>e. ceAt e > zeroTime) (rfHistory a)"
| "contractOk _ = True"

lemma checkApproval_after:
  assumes "list_all (\<lambda>e. ceAt e > zeroTime) history" "checkApproval u history req read = Inr a"
  shows "acAt a > zeroTime"
proof -
  let ?t = "\<lambda>l. ceAt (fst (standingLabeledEvent u history l))"
  have r: "req \<noteq> []" "\<forall>l\<in>set req. snd (standingLabeledEvent u history l)" "acAt a = Max (insert zeroTime (?t ` set req))"
    using assms(2) by (auto simp: checkApproval_Inr approvingInstant_iff)
  then obtain l where l: "l \<in> set req" by (cases req) auto
  have "fst (standingLabeledEvent u history l) \<in> set history" using r(2) l standsBy_fst standsBy_mem by blast
  then have "?t l > zeroTime" using assms(1) by (simp add: list_all_iff)
  then show ?thesis using r(3) l by (auto simp: Max_gr_iff)
qed

lemma view_drop: "view (w\<lparr>pwOut := remove1 (g, q) (pwOut w)\<rparr>) = dropV g q (view w)"
  by (simp add: view_simps dropV_def)

lemma inv_emitQuiet:
  assumes "invV u v"
  shows "invV u (emitV (AgentQuiet h) v)"
  using inv_emit [OF assms, of "AgentQuiet h"] by (simp add: safeNext_def)

text \<open>A reply to work: by the form of the request.\<close>

lemma inv_replyWork:
  assumes v: "invV u (view w)" and q: "(g, q) \<in> set (vOut (view w))" "isWork q" "answers q ans" and c: "contractOk (Reply g q ans)"
    and x: "view x = dropV g q (view w)"
  shows "invV u (view (handleRecord u env q ans x))"
proof -
  have e: "(view x)\<lparr>vPend := vPend (view x) - 1\<rparr> = (dropV g q (view w))\<lparr>vPend := vPend (view w) - 1\<rparr>" by (simp add: x)
  have r: "readyV u ((view x)\<lparr>vPend := vPend (view x) - 1\<rparr>)" "okFor q (view x)" "\<not> vRetry (view x)"
    using reply_work [OF v q(1,2)] unfolding e by (simp_all add: x)
  show ?thesis
  proof (cases q)
    case (AskClaim i)
    then show ?thesis using q r inv_onClaimed [OF r(1)] by (cases ans) (auto simp: answers_def handleRecord_def)
  next
    case (AskApproval i req who)
    then show ?thesis using q r inv_onApproved [OF r(1)] by (cases ans) (auto simp: answers_def handleRecord_def)
  next
    case (AskClaimBase i n)
    then show ?thesis using q r inv_onClaimBaseBegun [OF r(1)] by (cases ans) (auto simp: answers_def handleRecord_def)
  next
    case (AskPrepare i n n')
    then have "okFor (AskStart i s) ((view x)\<lparr>vPend := vPend (view x) - 1\<rparr>)" for s using r(2) by simp
    then show ?thesis using q r inv_onPrepared [OF r(1,3)] AskPrepare by (cases ans) (auto simp: answers_def handleRecord_def)
  next
    case (AskStart i s)
    then have "okFor (AskStart i s) ((view x)\<lparr>vPend := vPend (view x) - 1\<rparr>)" using r(2) by simp
    then show ?thesis using q c r inv_onStarted [OF r(1,3)] AskStart by (cases ans) (auto simp: answers_def handleRecord_def)
  next
    case (AskSummary ws)
    then show ?thesis using q r inv_onSummarized [OF r(1,3)] by (cases ans) (auto simp: answers_def handleRecord_def)
  next
    case (AskVerify i ws)
    then show ?thesis using q r inv_onVerified [OF r(1,3)] by (cases ans) (auto simp: answers_def handleRecord_def)
  qed (use q in simp_all)
qed

lemma inv_replyTimer:
  assumes v: "invV u (view w)" and q: "(vGen (view w), q) \<in> set (vOut (view w))" "isTimer q" "answers q ans"
    and c: "contractOk (Reply g q ans)" and x: "view x = dropV (vGen (view w)) q (view w)"
  shows "invV u (view (handleRecord u env q ans x))"
proof -
  have r: "readyV u (view x)" "okFor q (view x)" "\<not> vRetry (view x)" using reply_timer [OF v q(1,2)] by (simp_all add: x)
  show ?thesis
  proof (cases q)
    case (AskTimer kind)
    then have "invV u (view (onTimer env kind x))" using ready_timer [OF r(1)] r by (simp add: onTimer_def view_simps)
    then show ?thesis using q AskTimer by (simp add: answers_def handleRecord_def)
  next
    case (AskRefetch kind n revision)
    then have o: "okFor (AskTimer timerBackoff) (view x)" using r(2) by simp
    obtain a where a: "ans = AnsRefetched a" using q(3) AskRefetch by (cases ans) (auto simp: answers_def)
    have "invV u (view (onTimerFetched u env kind revision a x))"
      by (rule inv_onTimerFetched [OF r(1) o r(3)]) (use c a checkApproval_after in auto)
    then show ?thesis using AskRefetch a by (simp add: handleRecord_def)
  qed (use q in simp_all)
qed

lemma answered_halt:
  assumes "invV u v" "(vGen v, AskStop (Some h) mode) \<in> set (vOut v)"
  shows "answeredV (dropV (vGen v) (AskStop (Some h) mode) v)"
  using reply_halt [OF assms] by (auto simp: answeredV_def exitingV_def orderedV_def)

lemma answered_self:
  assumes v: "invV u v" and q: "(vGen v, AskStop None mode) \<in> set (vOut v)"
  shows "answeredV (dropV (vGen v) (AskStop None mode) v)"
proof -
  let ?v = "dropV (vGen v) (AskStop None mode) v"
  have "\<not> isLaunch (snd x)" if "x \<in> set (busyV ?v)" for x
    using inv_parts(1) [OF reply_self(1) [OF v q]] that reply_self(5) [OF v q] by (cases "snd x") (auto simp: controlOk_def)
  then show ?thesis using reply_self [OF v q] by (auto simp: answeredV_def exitingV_def orderedV_def)
qed

lemma answeredV_emit: "answeredV (emitV e v) = answeredV v"
  by (simp add: answeredV_def emitV_def busyV_def exitingV_def orderedV_def)

lemma inv_replyStop:
  assumes v: "invV u (view w)" and q: "(vGen (view w), q) \<in> set (vOut (view w))" "isProbe q \<or> isHalt q \<or> isSelf q" "answers q ans"
    and x: "view x = dropV (vGen (view w)) q (view w)"
  shows "invV u (view (handleRecord u env q ans (confirmedQuiet q ans x)))"
proof -
  obtain b where b: "ans = AnsTermination b" using q(2,3) by (cases q; cases ans) (auto simp: answers_def)
  consider (probe) h where "q = AskProbe h" | (halt) h mode where "q = AskStop (Some h) mode" | (self) mode where "q = AskStop None mode"
    using q(2) by (cases q rule: isHalt.cases) auto
  then show ?thesis
  proof cases
    case probe
    let ?x = "if b then emit (AgentQuiet h) x else x"
    have c: "confirmedQuiet q ans x = ?x" using probe b by (simp add: confirmedQuiet_def)
    have p: "invV u (view x)" "curV isProbe (view x) = []" "vHandle (view x) = Some h \<or> vHandle (view x) = None \<and> doomedV (view x)"
      using reply_probe [OF v] q(1) probe by (simp_all add: x doomedV_def)
    have "invV u (view (onProbed env b ?x))"
      by (rule inv_onProbed [where h = h]) (use p inv_emitQuiet in \<open>auto simp: view_simps emitV_def doomedV_def\<close>)
    then show ?thesis unfolding c using probe b by (simp add: handleRecord_def)
  next
    case halt
    let ?x = "if b then emit (AgentQuiet h) x else x"
    have c: "confirmedQuiet q ans x = ?x" using halt b by (simp add: confirmedQuiet_def)
    have p: "invV u (view x)" "answeredV (view x)" "vHandle (view x) = Some h \<or> vHandle (view x) = None"
      using reply_halt [OF v] answered_halt [OF v] q(1) halt by (auto simp: x)
    have "liveIn (vTrace (view x) @ [AgentQuiet h]) = {}" using inv_parts(8) [OF p(1)] p(3) by (auto simp: traceOk_def liveIn_snoc)
    then have "invV u (view (onStopped env b ?x))"
      by (intro inv_onStopped) (use p inv_emitQuiet in \<open>auto simp: view_simps answeredV_emit [unfolded emitV_def] emitV_def\<close>)
    then show ?thesis unfolding c using halt b by (simp add: handleRecord_def)
  next
    case self
    have c: "confirmedQuiet q ans x = x" using self b by (simp add: confirmedQuiet_def)
    have p: "invV u (view x)" "answeredV (view x)" "vHandle (view x) = None"
      using reply_self [OF v] answered_self [OF v] q(1) self by (auto simp: x)
    have "invV u (view (onStopped env True x))" by (rule inv_onStopped [OF p(1,2)]) (simp add: inv_noHandle [OF p(1,3)])
    then show ?thesis unfolding c using self b by (simp add: handleRecord_def)
  qed
qed

lemma inv_reply:
  assumes v: "invV u (view w)" and c: "contractOk (Reply g q ans)"
  shows "invV u (view (pipeHandle u env (Reply g q ans) w))"
proof (cases "(g, q) \<in> set (pwOut w) \<and> answers q ans")
  case False
  then show ?thesis using v by (auto simp: pipeHandle_def)
next
  case True
  let ?x = "w\<lparr>pwOut := remove1 (g, q) (pwOut w)\<rparr>"
  have x: "view ?x = dropV g q (view w)" by (rule view_drop)
  have m: "(g, q) \<in> set (vOut (view w))" using True by (simp add: view_simps)
  have gen: "deliverable g q ?x \<longleftrightarrow> outlivesGeneration q \<or> g = vGen (view w)" by (simp add: deliverable_def view_simps)
  have cq: "confirmedQuiet q ans ?x = ?x" if "\<not> (isProbe q \<or> isHalt q \<or> isSelf q)"
    using that by (cases q) (auto simp: confirmedQuiet_def split: option.splits)
  consider (work) "isWork q" | (timer) "isTimer q" | (stop) "isProbe q \<or> isHalt q \<or> isSelf q" | (read) "outlivesGeneration q"
    by (cases q rule: isHalt.cases) auto
  then have "invV u (view (if deliverable g q ?x then handleRecord u env q ans (confirmedQuiet q ans ?x) else ?x))"
  proof cases
    case work
    then have "\<not> (isProbe q \<or> isHalt q \<or> isSelf q)" by (cases q) auto
    then show ?thesis using inv_replyWork [OF v m work _ c x] True cq gen reply_work(1) [OF v m work] by simp
  next
    case timer
    then have k: "\<not> isWork q" "\<not> (isProbe q \<or> isHalt q \<or> isSelf q)" "\<not> outlivesGeneration q" by (cases q; auto)+
    show ?thesis
    proof (cases "g = vGen (view w)")
      case True
      then show ?thesis using inv_replyTimer [OF v _ timer _ c] m x k cq gen \<open>(g, q) \<in> set (pwOut w) \<and> answers q ans\<close> by simp
    next
      case False
      then show ?thesis using reply_other [OF v k(1)] x k gen by simp
    qed
  next
    case stop
    then have k: "\<not> isWork q" "\<not> outlivesGeneration q" by (cases q; auto)+
    show ?thesis
    proof (cases "g = vGen (view w)")
      case True
      then show ?thesis using inv_replyStop [OF v _ stop] m x k gen \<open>(g, q) \<in> set (pwOut w) \<and> answers q ans\<close> by simp
    next
      case False
      then show ?thesis using reply_other [OF v k(1)] x k gen by simp
    qed
  next
    case read
    then have k: "\<not> isWork q" "\<not> isTimer q" "\<not> (isProbe q \<or> isHalt q \<or> isSelf q)" by (cases q; auto)+
    have r: "invV u (view ?x)" unfolding x by (rule reply_other [OF v k(1)]) (use k in simp)
    have "invV u (view (handleRecord u env q ans ?x))" using read True r inv_onParkedConfirmed [OF r] inv_onOwedConfirmed [OF r]
      by (cases q; cases ans) (auto simp: answers_def handleRecord_def)
    then show ?thesis using r k cq by simp
  qed
  then show ?thesis using True by (simp add: pipeHandle_def Let_def)
qed

lemma inv_pump:
  assumes v: "invV u v" and p: "vPump v g \<noteq> None" and ph: "ph \<noteq> Pumping"
  shows "invV u (v\<lparr>vPump := (vPump v)(g \<mapsto> ph)\<rparr>)"
proof -
  let ?v = "v\<lparr>vPump := (vPump v)(g \<mapsto> ph)\<rparr>"
  have "okFor q v \<Longrightarrow> okFor q ?v" for q using p by (cases q) (auto simp: freshV_def)
  then have "controlOk ?v" by (intro controlOk_keep [OF inv_parts(1) [OF v]]) simp_all
  moreover have "probeOk ?v" using inv_parts(2) [OF v] ph by (auto simp: probeOk_def doomedV_def)
  moreover have "pumpOk ?v" using inv_parts(6) [OF v] p ph by (auto simp: pumpOk_def split: if_splits)
  ultimately show ?thesis using inv_parts [OF v] by (simp add: invV_def)
qed

lemma inv_handle_signal:
  assumes v: "invV u (view w)" and c: "contractOk sig"
  shows "invV u (view (pipeHandle u env sig w))"
proof (cases sig)
  case (Reply g q ans)
  then show ?thesis using inv_reply [OF v] c by simp
next
  case (RunEvent g ev)
  then show ?thesis using v inv_onRunEvent [OF v] by (auto simp: pipeHandle_def) (auto simp: view_simps)
next
  case (EventsClosed g saw)
  let ?w = "w\<lparr>pwPump := (pwPump w)(g \<mapsto> StreamClosed)\<rparr>"
  have w: "invV u (view ?w)" if "vPump (view w) g = Some Pumping" using inv_pump [OF v, of g StreamClosed] that by (simp add: view_simps)
  have "invV u (view (onEventsClosed env saw ?w))" if "vPump (view w) g = Some Pumping" "g = vGen (view w)"
    by (rule inv_onEventsClosed [OF w [OF that(1)]]) (use that in \<open>simp add: view_simps\<close>)
  then show ?thesis using EventsClosed v w by (simp add: pipeHandle_def Let_def) (simp add: view_simps)
next
  case (HandleClosed g)
  let ?w = "w\<lparr>pwPump := (pwPump w)(g \<mapsto> HandleDone)\<rparr>"
  have w: "invV u (view ?w)" if "vPump (view w) g = Some StreamClosed" using inv_pump [OF v, of g HandleDone] that by (simp add: view_simps)
  have "invV u (view (onHandleDone env ?w))" if "vPump (view w) g = Some StreamClosed" by (rule inv_onHandleDone [OF w [OF that]])
  then show ?thesis using HandleClosed v w by (auto simp: pipeHandle_def Let_def) (auto simp: view_simps)
next
  case (EffectDone failed)
  then show ?thesis using v inv_onEffect [OF v] by (simp add: pipeHandle_def)
next
  case Tick
  then show ?thesis using inv_driveVerifyRetry [OF v] by (simp add: pipeHandle_def)
next
  case (Reconciled refreshed parked picked)
  define w1 where "w1 = (case refreshed of None \<Rightarrow> w | Some res \<Rightarrow> reconcile u env res w)"
  define w2 where "w2 = (case parked of None \<Rightarrow> w1 | Some (settled, seen, picked) \<Rightarrow> sweepParked u env settled seen picked w1)"
  have i1: "invV u (view w1)" using v inv_reconcile [OF v] by (simp add: w1_def split: option.split)
  have i2: "invV u (view w2)" using i1 inv_sweepParked [OF i1] by (simp add: w2_def split: option.split)
  have "invV u (view (retryPendingExits env w2))" by (rule inv_retryPendingExits [OF i2])
  then show ?thesis using Reconciled inv_absence(2) unfolding pipeHandle_def
    by (simp add: Let_def w1_def [symmetric] w2_def [symmetric])
next
  case ShutdownOrder
  then show ?thesis using v by (simp add: pipeHandle_def view_simps)
qed

lemma inv_pipeStep: "invV u (view w) \<Longrightarrow> contractOk sig \<Longrightarrow> invV u (view (pipeStep u env sig w))"
  using inv_handle_signal inv_driveShutdown by (simp add: pipeStep_def)

lemma inv_beginClaim: "invV u (view (beginClaim cfg now issue token inst))"
proof -
  let ?v = "view (beginClaim cfg now issue token inst)"
  have f: "vOut ?v = [(0, AskClaim issue)]" "vTrace ?v = [Asked (AskClaim issue)]" "vPend ?v = 1" "vGen ?v = 0" "vSt ?v = StateQueued"
    "vHandle ?v = None" "\<not> vRetry ?v" "vEpoch ?v = 0" "\<not> vVerified ?v" "vOutcome ?v = None" "vPump ?v = Map.empty" "\<not> vClosed ?v"
    "\<not> vDispatch ?v" "\<not> vQuiet ?v" "vApprovedAt ?v = zeroTime"
    by (simp_all add: beginClaim_def askPending_def ask_def emit_def onRecord_def onPipe_def baseOf_def newRecord_def view_def viewOf_def)
  have "worksV ?v = [(0, AskClaim issue)]" "curV isTimer ?v = []" "curV isProbe ?v = []" "curV isHalt ?v = []" "curV isSelf ?v = []"
    by (simp_all add: worksV_def curV_def f)
  moreover have "safeTrace u (vTrace ?v)"
    using safeTrace_snoc [of u "[]" "Asked (AskClaim issue)"] by (simp add: f safeNext_def) (simp add: safeTrace_def)
  ultimately show ?thesis by (simp add: inv_defs f liveIn_def)
qed

lemma inv_pipeRun:
  assumes "invV u (view w)" "list_all (\<lambda>(_, sig). contractOk sig) steps"
  shows "invV u (view (pipeRun u steps w))"
  using assms by (induction steps arbitrary: w) (auto simp: pipeRun_def inv_pipeStep)

end
