(* ===== verification/OrchPipeRun.thy ===== *)
theory OrchPipeRun
  imports OrchPipeSafe
begin

text \<open>
  What the dispatch pipeline guarantees over every sequence of signals, from the claim of an issue on: the
  invariant of \<open>OrchPipeInv\<close>, read as properties of the run record and of the trace, and a run of the
  pipeline from the claim to the verification.
\<close>

section \<open>A run\<close>

definition runConfig :: pipeConfig where
  "runConfig = \<lparr>pgHeld = \<lparr>hfPrincipal = ''bot'', hfRequired = [''ben''], hfActiveStates = [''open''],
       hfWorkspaces = \<lparr>pvName = ''git'', pvCompletes = False\<rparr>\<rparr>, pgMaxTurns = 3, pgMaxAttempts = 3, pgMaxCostUSD = None,
     pgStallTimeoutMS = 1, pgAttemptTimeoutMS = 2, pgBlocked = False, pgRevision = 1, pgAgent = ''agent'', pgAfterRunner = False,
     pgEndedCycleSource = False\<rparr>"

definition demoEnv :: pipeEnv where
  "demoEnv = \<lparr>peLoop = demoLoop, peNow = 9, peDaemon = ''daemon'', peConfig = runConfig, peFreeSlots = 1,
     peRemoteRevocation = False, peRender = (\<lambda>p. Inr ''prompt''), pePrepRetryable = (\<lambda>e. False), peExplain = (\<lambda>e. ''no''),
     peShow = (\<lambda>b. ''base'')\<rparr>"

definition runBase :: ClaimBase where
  "runBase = \<lparr>cbState = ClaimBasePinned, cbEpoch = 12, cbBaseSHA = ''s'', cbTargetBranch = ''main'', cbOutgoingEpoch = 0,
     cbOutgoingBaseSHA = [], cbOutgoingTargetBranch = []\<rparr>"

definition demoWorkspace :: Workspace where
  "demoWorkspace = zeroWorkspace\<lparr>wsPath := ''/w'', wsKey := ''k'', wsBranch := ''b'', wsClaimEpoch := 12, wsBaseSHA := ''s'',
     wsTargetBranch := ''main''\<rparr>"

definition demoSpec :: launchSpec where
  "demoSpec = \<lparr>lsWorkspace = workspacePaths demoWorkspace, lsPrompt = ''prompt'', lsContinuation = [],
     lsEnv = [(''BEN_ISSUE'', ''41''), (''BEN_ATTEMPT'', ''1''), (''BEN_RUN_ID'', ''41-x-1.0''), (''BEN_WORKSPACE'', ''/w''),
       (''BEN_BRANCH'', ''b'')],
     lsStallTimeoutMS = 1, lsAttemptTimeoutMS = 2, lsMaxTurns = 3, lsMaxCostUSD = 0\<rparr>"

definition demoRefusal :: goError where
  "demoRefusal = \<lparr>erText = ''refused'', erNotFound = False, erNotAttempted = False, erTargetUnrecorded = False,
     erApprovalPending = False, erCredential = None\<rparr>"

definition demoDispatch :: "pipeSignal list" where
  "demoDispatch =
     [Reply 0 (AskClaim demoIssue) (AnsClaim None True),
      Reply 0 (AskApproval demoIssue [''ben''] ''bot'') (AnsApproval (Inr (demoLog, demoRead))),
      Reply 0 (AskClaimBase demoIssue 12) (AnsClaimBase None runBase None False),
      EffectDone False,
      Reply 0 (AskPrepare demoIssue 1 12)
        (AnsPrepared None demoWorkspace \<lparr>lbBaseSHA = ''s'', lbHead = ''s'', lbDescendsBase = True\<rparr> runBase None)]"

definition demoFinish :: "pipeSignal list" where
  "demoFinish =
     [Reply 0 (AskStart demoIssue demoSpec) (AnsStarted None True),
      RunEvent 0 (crashEvent\<lparr>evType := EventSucceeded\<rparr>),
      EventsClosed 0 True,
      Reply 0 (AskProbe 0) (AnsTermination True),
      Reply 0 (AskSummary demoWorkspace) (AnsSummary (Inl demoRefusal))]"

definition demoWorld :: "pipeSignal list \<Rightarrow> pipeWorld" where
  "demoWorld signals = pipeRun logRuntime (map (Pair demoEnv) signals) (beginClaim runConfig 0 demoIssue 1 ''x'')"

section \<open>Guarantees\<close>

lemma pipeline_invariant:
  assumes "list_all (\<lambda>(_, sig). contractOk sig) steps"
  shows "invV u (view (pipeRun u steps (beginClaim cfg now issue token inst)))"
  by (rule inv_pipeRun [OF inv_beginClaim assms])

lemma safeTrace_nth: "safeTrace u trace \<Longrightarrow> n < length trace \<Longrightarrow> safeNext u (take n trace) (trace ! n)"
  unfolding safeTrace_def by (metis id_take_nth_drop)

text \<open>
  C3. Whatever signals arrive in whatever order, the pipeline asks for the start of an agent or for a
  verification, and frees the workspace's run marker, only when every agent that was
  started before is confirmed quiet.
\<close>

theorem pipeline_waits_for_quiet:
  assumes "list_all (\<lambda>(_, sig). contractOk sig) steps"
    and "w = pipeRun u steps (beginClaim cfg now issue token inst)"
    and "n < length (pwTrace w)" "needsQuiet (pwTrace w ! n)"
  shows "liveIn (take n (pwTrace w)) = {}"
proof -
  have "safeTrace u (pwTrace w)" using pipeline_invariant [OF assms(1)] assms(2) by (simp add: invV_def traceOk_def view_simps)
  from safeTrace_nth [OF this assms(3)] assms(4) show ?thesis by (simp add: safeNext_def)
qed

theorem pipeline_waits_for_quiet_witness:
  "pwTrace (demoWorld (demoDispatch @ demoFinish)) ! 11 = Asked (AskVerify demoIssue demoWorkspace)
   \<and> liveIn (take 11 (pwTrace (demoWorld (demoDispatch @ demoFinish)))) = {}"
proof -
  have e: "pwTrace (demoWorld (demoDispatch @ demoFinish)) ! 11 = Asked (AskVerify demoIssue demoWorkspace)" by code_simp
  have "liveIn (take 11 (pwTrace (demoWorld (demoDispatch @ demoFinish)))) = {}"
    by (rule pipeline_waits_for_quiet [OF _ demoWorld_def]) (use e in simp_all, code_simp+)
  then show ?thesis using e by blast
qed

text \<open>
  C12. Every agent is started on a title and a body that a check of the approval admitted
  before: the issue a start names carries the content of an approval read on the history and the labels
  of that check.
\<close>

theorem pipeline_runs_approved_content:
  assumes "list_all (\<lambda>(_, sig). contractOk sig) steps"
    and "w = pipeRun u steps (beginClaim cfg now issue token inst)"
    and "n < length (pwTrace w)" "pwTrace w ! n = Asked (AskStart i spec)"
  shows "\<exists>history required read a. ApprovalRead history required read \<in> set (take n (pwTrace w))
     \<and> checkApproval u history required read = Inr a
     \<and> ciTitle i = icTitle (acContent a) \<and> ciBody i = icBody (acContent a)"
proof -
  have "safeTrace u (pwTrace w)" using pipeline_invariant [OF assms(1)] assms(2) by (simp add: invV_def traceOk_def view_simps)
  from safeTrace_nth [OF this assms(3)] assms(4) show ?thesis by (simp add: safeNext_def admitted_def)
qed

theorem pipeline_runs_approved_content_witness:
  "\<exists>history required read a. ApprovalRead history required read \<in> set (take 5 (pwTrace (demoWorld demoDispatch)))
     \<and> checkApproval logRuntime history required read = Inr a
     \<and> ciTitle demoIssue = icTitle (acContent a) \<and> ciBody demoIssue = icBody (acContent a)"
proof (rule pipeline_runs_approved_content [OF _ demoWorld_def])
  show "list_all (\<lambda>(_, sig). contractOk sig) (map (Pair demoEnv) demoDispatch)" by code_simp
  show "5 < length (pwTrace (demoWorld demoDispatch))" by code_simp
  show "pwTrace (demoWorld demoDispatch) ! 5 = Asked (AskStart demoIssue demoSpec)" by code_simp
qed

text \<open>
  C13. A record that is releasing its claim has no agent that may still run, and no preparation or
  start of one is outstanding: a run never outlives the claim it works under.
\<close>

theorem release_outlives_no_agent:
  assumes "list_all (\<lambda>(_, sig). contractOk sig) steps"
    and "w = pipeRun u steps (beginClaim cfg now issue token inst)"
    and "rReleasing (baseOf w)"
  shows "liveIn (pwTrace w) = {} \<and> filter (\<lambda>x. isLaunch (snd x)) (pwOut w) = []"
proof -
  have v: "invV u (view w)" using pipeline_invariant [OF assms(1)] assms(2) by simp
  have r: "vRel (view w)" using assms(3) by (simp add: view_simps)
  then have h: "vHandle (view w) = None" using inv_handle(5) [OF v] by (cases "vHandle (view w)") auto
  have "\<not> isLaunch q" if "(g, q) \<in> set (vOut (view w))" for g q
  proof
    assume l: "isLaunch q"
    then have "isWork q" by (cases q) auto
    then have "okFor q (dropV g q (view w))" using reply_work(2) [OF v that] by blast
    then show False using l r by (cases q) auto
  qed
  then show ?thesis using inv_noHandle [OF v h] by (auto simp: view_simps filter_empty_conv)
qed

theorem release_outlives_no_agent_witness:
  "rReleasing (baseOf (demoWorld [Reply 0 (AskClaim demoIssue) (AnsClaim (Some demoRefusal) False)]))
   \<and> liveIn (pwTrace (demoWorld [Reply 0 (AskClaim demoIssue) (AnsClaim (Some demoRefusal) False)])) = {}"
proof -
  let ?s = "[Reply 0 (AskClaim demoIssue) (AnsClaim (Some demoRefusal) False)]"
  have r: "rReleasing (baseOf (demoWorld ?s))" by code_simp
  have "list_all (\<lambda>(_, sig). contractOk sig) (map (Pair demoEnv) ?s)" by simp
  from release_outlives_no_agent [OF this demoWorld_def r] r show ?thesis by blast
qed

text \<open>
  At most one worker runs for a record, the record's count of pending work is the
  number of workers, and while one runs the record holds no agent.
\<close>

theorem pipeline_one_worker:
  assumes "list_all (\<lambda>(_, sig). contractOk sig) steps"
    and "w = pipeRun u steps (beginClaim cfg now issue token inst)"
  shows "rPending (baseOf w) = int (length (filter (\<lambda>x. isWork (snd x)) (pwOut w)))
     \<and> rPending (baseOf w) \<le> 1 \<and> (rPending (baseOf w) = 0 \<or> liveIn (pwTrace w) = {})"
proof -
  have v: "invV u (view w)" using pipeline_invariant [OF assms(1)] assms(2) by simp
  have "busyV (view w) = [] \<or> (\<exists>x. busyV (view w) = [x]) \<and> vHandle (view w) = None"
    using inv_parts(1) [OF v] by (auto simp: controlOk_def)
  then have "worksV (view w) = [] \<or> length (worksV (view w)) \<le> 1 \<and> vHandle (view w) = None"
    by (auto simp: busyV_def append_eq_Cons_conv)
  then show ?thesis using inv_parts(1) [OF v] inv_noHandle [OF v] by (auto simp: controlOk_def worksV_def view_simps)
qed

theorem pipeline_one_worker_witness:
  "rPending (baseOf (demoWorld demoDispatch)) = int (length (filter (\<lambda>x. isWork (snd x)) (pwOut (demoWorld demoDispatch))))
   \<and> rPending (baseOf (demoWorld demoDispatch)) \<le> 1
   \<and> (rPending (baseOf (demoWorld demoDispatch)) = 0 \<or> liveIn (pwTrace (demoWorld demoDispatch)) = {})"
proof (rule pipeline_one_worker [OF _ demoWorld_def])
  show "list_all (\<lambda>(_, sig). contractOk sig) (map (Pair demoEnv) demoDispatch)" by code_simp
qed

end
