(* ===== verification/Spec2Isabelle.thy ===== *)
theory Spec2Isabelle
  imports RcGate RcSafety OrchRecoverFacts Verify StateDir RemoteStream TrackerTransport
    TrackerFetch TrackerCache OrchHeldFacts OrchPipeRun
begin

text \<open>
  BEN is a daemon that hands issues of a tracker to coding agents, and a review controller that
  reads what the daemon published and decides what happens next. This is a verification
  library for the code that takes those decisions and for the code that makes them durable.

  \<^bold>\<open>The parts of the program and how they interact.\<close>

  \<^item> The \<^emph>\<open>orchestrator\<close> (\<open>src/internal/orchestrator\<close>) is a loop that owns one record per claimed
    issue. A record moves along a closed map of states; each move appends to the transition log
    and may owe the tracker a label, a comment or a release, which a serial queue per record
    drives. Its \<^emph>\<open>pipeline\<close> takes a record from the claim over the approval check, the workspace and the
    agent's run to the verdict, the retry or the exit; every wait is a worker that answers with a signal.
    What a record may run on is the content that the required labels approve. A finished
    record becomes a held claim, kept until its pull request's issue closes; a claim is given
    up only after the workspace cycle behind it is disposed of.
  \<^item> The \<^emph>\<open>tracker adapter\<close> (\<open>src/internal/tracker/github\<close>) is the orchestrator's hand on GitHub: it reads
    the queue and the change log, claims and releases issues, projects the state label and posts
    milestones, over a conditional cache and under a request budget shared by all callers.
  \<^item> \<^emph>\<open>Verification\<close> (\<open>src/internal/verify\<close>) decides from the evidence of the workspace, the remote
    runner and the tracker whether a finished run is published.
  \<^item> \<^emph>\<open>Recovery\<close> (\<open>recover_classify.go\<close>) decides, after a restart, what to do with each claim the
    daemon still holds, from the tracker's change log and the evidence on disk.
  \<^item> The \<^emph>\<open>state directory\<close> (\<open>src/internal/state\<close>, \<open>durable.go\<close>, \<open>cmd/ben/statedir.go\<close>) keeps the
    transition log across restarts: a retrying queue writes to an append-only file that the next
    daemon repairs and reads.
  \<^item> \<^emph>\<open>Remote runs\<close> (\<open>src/internal/remote\<close>) start an attempt on a remote runner through a journal that
    outlives the daemon, admit the runner's numbered events, and reconcile what was retained after a
    restart.
  \<^item> \<^emph>\<open>Transcript redaction\<close> (\<open>src/internal/agent/harness/redact.go\<close>) stands between an agent's output
    and the transcript file and takes the credentials out.
  \<^item> The \<^emph>\<open>review policy\<close> (\<open>src/internal/review\<close>) is a pure reducer: one observation of an issue, its
    comments, change log and pull request in; one step out. Its only memory is the markers it
    leaves in the comments it posts.
  \<^item> The \<^emph>\<open>review controller\<close> (\<open>src/internal/reviewctl\<close>) runs the reducer in a loop against the
    forge, one write per observation, under a rate gate, and sweeps over the candidate issues.

  The orchestrator and the review controller share no memory. They meet on the tracker: the
  controller reads the milestones and labels the orchestrator projects, and the orchestrator
  reads the assignments and labels the controller removes. The theories meet there too:
  \<open>OrchApproval\<close> ends with the theorem that both compute the same approval from one change log.

  \<^bold>\<open>The theories.\<close>

  \<^item> \<open>Prelude\<close>, \<open>GoStrings\<close>, \<open>GoStringFacts\<close>: shared lemmas on lists, folds and words, and Go's string
    operations on bytes with their laws.
  \<^item> \<open>RevConfig\<close> (\<open>review.go\<close>), \<open>RevEpoch\<close> (\<open>epoch.go\<close>), \<open>RevMarker\<close> (\<open>marker.go\<close>, \<open>blocked.go\<close>,
    \<open>verdict.go\<close>), \<open>RevMilestone\<close> (\<open>milestone.go\<close>), \<open>RevReduce\<close> (\<open>reduce.go\<close>): the review policy, every
    type and function of these files except the JSON report. \<open>RevReduceFacts\<close>, \<open>RevTerminal\<close>
    and \<open>RevSafety\<close> analyse the reducer.
  \<^item> \<open>RcGate\<close> (\<open>gate.go\<close>), \<open>RcDriver\<close> (\<open>driver.go\<close>, the diff bound of \<open>reviewer.go\<close>), \<open>RcController\<close>
    (\<open>controller.go\<close>): the review controller over an abstract forge and reviewer. \<open>RcSafety\<close> composes
    it with the reducer.
  \<^item> \<open>CoreTypes\<close> (\<open>core.go\<close>, \<open>remote.go\<close>): the values the orchestrator exchanges with its providers.
  \<^item> \<open>OrchState\<close> (\<open>state.go\<close>), \<open>OrchRecord\<close> (\<open>record.go\<close>, \<open>owed.go\<close>, parts of \<open>orchestrator.go\<close> and
    \<open>retry.go\<close>), \<open>OrchLog\<close> (\<open>translog.go\<close>): one record's life. \<open>recordStep\<close> is one operation of the loop
    on it, \<open>recordLife\<close> any sequence of them.
  \<^item> \<open>LogReplay\<close>, \<open>OrchApproval\<close> (\<open>approval.go\<close>, the readers of \<open>held.go\<close>): approval of content and
    claim cycles.
  \<^item> \<open>OrchRecover\<close>, \<open>OrchRecoverFacts\<close> (\<open>recover_classify.go\<close>, the claim-base predicates of
    \<open>pipeline.go\<close>): the classification of a recovered claim.
  \<^item> \<open>OrchRotate\<close> (the rotation of \<open>absence.go\<close>), \<open>OrchHeld\<close> and \<open>OrchHeldFacts\<close> (\<open>held.go\<close>, \<open>cycle.go\<close>, their part
    of a tick in \<open>signals.go\<close>): held claims and ended workspace cycles. \<open>heldStep\<close> is one signal of the
    loop, \<open>heldRun\<close> any sequence of them; what the loop asked for and has no answer to yet is part of
    the state.
  \<^item> \<open>OrchSummary\<close> (the rendering of \<open>summary.go\<close>), \<open>OrchPipeline\<close> (\<open>pipeline.go\<close>, \<open>parked.go\<close>, and what \<open>summary.go\<close>,
    \<open>signals.go\<close>, \<open>absence.go\<close>, \<open>credential.go\<close>, \<open>shutdown.go\<close> and \<open>attempt.go\<close> do to one record): the dispatch
    pipeline. \<open>pipeStep\<close> is one signal of the loop, \<open>pipeRun\<close> any sequence of them, in any order; the requests
    that have no answer yet are part of the state, and the starts, stops and approvals are recorded in a trace. \<open>OrchPipeView\<close>
    and \<open>OrchPipeFacts\<close> give the handlers as operations on the part of the state that decides, \<open>OrchPipeInv\<close> the invariant,
    \<open>OrchPipeKeep\<close> and \<open>OrchPipeSafe\<close> that every handler keeps it, \<open>OrchPipeRun\<close> what follows.
  \<^item> \<open>TrackerBudget\<close>, \<open>TrackerRate\<close> (\<open>budget.go\<close>): the request budget and what it guarantees.
    \<open>TrackerTransport\<close> (\<open>ratelimit.go\<close>, the leases and transport of \<open>budget.go\<close>): the rate gate and a
    metered round trip. \<open>TrackerIssue\<close> (\<open>issue.go\<close>, \<open>comment.go\<close>, the readers of \<open>adapter.go\<close>), \<open>TrackerClaim\<close>
    and \<open>TrackerFetch\<close> (\<open>adapter.go\<close>): issues, the change log, milestones, claims, labels and the queue.
    \<open>TrackerCache\<close> (\<open>etag.go\<close>): the conditional cache.
  \<^item> \<open>Verify\<close> (\<open>verify.go\<close>, \<open>remote.go\<close>, \<open>select.go\<close>): the publish verdict.
  \<^item> \<open>DurableQueue\<close> (\<open>durable.go\<close>), \<open>StateJsonl\<close> (\<open>jsonl.go\<close>), \<open>StateDir\<close> (\<open>transitions.go\<close>, the
    transition sink of \<open>statedir.go\<close>): the durable transition log.
  \<^item> \<open>Redact\<close> (\<open>redact.go\<close>): the needles of a credential, the redactor and its writer.
  \<^item> \<open>RemoteJournal\<close> (\<open>journal.go\<close>, \<open>record.go\<close>, \<open>store.go\<close>, the start of \<open>runner.go\<close>): the journal of remote
    starts over a provider and a store. \<open>RemoteStream\<close> (\<open>cursor.go\<close>, \<open>retention.go\<close>, \<open>reconnect.go\<close>, the
    framing and recovery of \<open>attempt.go\<close>): the event stream.

  \<^bold>\<open>How state and operations correspond.\<close> A Go struct is a record with prefixed fields, a Go string
  a sequence of bytes, a string-typed enum a string with one constant per name, an integer
  enum a datatype with a further constructor for other values. A method that changes its
  receiver returns the new one. An error is a value of a datatype with one constructor per
  \<open>return\<close>. An instant is a number of nanoseconds; where the code's integers can overflow
  (\<open>gate.go\<close>) they are 64-bit words. A loop is a recursion whose accumulators are the loop's
  variables. A mutex makes a method one atomic step, and what other goroutines do meanwhile
  is an argument of the step.

  \<^bold>\<open>Parameters.\<close> The Unicode tables and the host reading of \<open>net/url\<close> are the argument \<open>u\<close>;
  \<open>http.ParseTime\<close>, the rendering of explanations, the forge, the reviewer, the git and tracker seams,
  the outcome of every system call, the remote provider, the digest of an event and \<open>encoding/json\<close> are
  arguments, as are GitHub's answers, the server's pages, the hash behind a revision, the workspace provider and the
  answers of the loop's workers (only the escaping of a string by \<open>encoding/json\<close>, which redaction relies on, is written out). Where a theorem relies on what
  such code documents (\<open>jsonReads\<close>, the order of a change log, \<open>servesPages\<close> and \<open>servesLog\<close> for a paginated listing,
  \<open>keepsLabels\<close> for the label requests, \<open>etagsName\<close> and \<open>honest\<close> for an origin and its tags, \<open>observes\<close> for
  what a claim sees of the log, \<open>contractOk\<close> for what a runner and a change log return to the pipeline, \<open>namedBy\<close> for workspaces that are named after one issue), it is a
  hypothesis with a name.

  \<^bold>\<open>What the groups of lemmas show.\<close>

  \<^item> The reducer writes only what the observed snapshot authorizes, reviews only a published,
    approved, claimed, unreviewed head, never drives a routed occurrence again, respects the
    round cap, and makes progress on a recorded intent; the driver's writes are the
    reducer's (\<open>RevSafety\<close>, \<open>RcSafety\<close>).
  \<^item> Markers and bodies print and parse back, and text a model wrote cannot forge one (\<open>RevMarker\<close>,
    through the locale \<open>marker_codec\<close>).
  \<^item> The replays of the change log compute what their comments say, ignore later events, and the
    daemon's and the controller's agree (\<open>RevEpoch\<close>, \<open>OrchApproval\<close>, through the locales
    \<open>occurrence_reader\<close> and \<open>last_writer\<close>).
  \<^item> The gate closes after a limited response, paces any window, and keeps a sweep in its budget;
    a sweep loses no candidate (\<open>RcGate\<close>, \<open>RcController\<close>).
  \<^item> Over any life of a record the tracker's label follows the state, no owed effect is lost, the
    log is a legal path, and \<open>done\<close> follows a verified attempt (\<open>OrchState\<close>, \<open>OrchRecord\<close>, \<open>OrchLog\<close>).
  \<^item> A run is published exactly when every leg of the evidence holds (\<open>Verify\<close>). Recovery acts only with
    authority, two daemons never both keep a claim, and a projected label is read back
    (\<open>OrchRecover\<close>, \<open>OrchRecoverFacts\<close>).
  \<^item> An append is all or nothing, a torn tail is repaired, a hole is reported; the queue keeps its
    order, and what a restart reads is a prefix of what was logged that contains everything
    acknowledged (\<open>StateJsonl\<close>, \<open>DurableQueue\<close>, \<open>StateDir\<close>, through the locale \<open>durable_sink\<close>).
  \<^item> A redactable credential never reaches the transcript (\<open>Redact\<close>). One claim cycle sends one
    request to the remote runner, whatever crashes (\<open>RemoteJournal\<close>); its events are delivered once,
    in order, and a restart resumes where the stream stopped; framing does not depend on how the
    bytes are cut, and a recovered attempt reports one outcome (\<open>RemoteStream\<close>).

  \<^item> Over any interleaving of ticks, answers and failures a held claim is released only after its
    workspace is disposed of, has one operation at a time, and leaves on evidence only; the
    rotation that shares the one confirmation per tick is fair (\<open>OrchHeldFacts\<close>, \<open>OrchRotate\<close>).
  \<^item> Over any order of answers, run events, ticks and shutdown orders the pipeline starts no agent and verifies
    nothing while another agent of the record may run, runs agents on approved content only, holds at
    most one worker, and releases no claim an agent works under (\<open>OrchPipeRun\<close>). The account of an attempt
    keeps its budget (\<open>OrchSummary\<close>).
  \<^item> The request budget keeps GitHub's limits over every window, through the locale \<open>rolling_allowance\<close>, tells
    a request to wait long enough, and every round trip ends its reservation (\<open>TrackerRate\<close>,
    \<open>TrackerTransport\<close>). Two claims are never both won and a lost one is unwound; the state label is
    replaced without a gap; the queue and the change log are read whole; a milestone is posted once
    and reaches the review controller (\<open>TrackerIssue\<close>, \<open>TrackerClaim\<close>, \<open>TrackerFetch\<close>). The cache is bounded
    and transparent (\<open>TrackerCache\<close>).

  \<^bold>\<open>Bounds and fuel.\<close> Every definition terminates by itself except the replacement loop of \<open>Redact\<close>, an
  option-valued partial function proved to return; the page walks of the tracker, which are such
  functions because a server could name pages for ever, proved to return on a server that
  serves a finite listing; and the three loops of the durable
  writer: entries that keep arriving can keep \<open>drain\<close> running, and \<open>persist\<close> runs until the daemon
  stops. They take fuel and return no result when it is spent. \<open>drain_returns\<close> and \<open>flush_returns\<close>
  give fuel that is enough once nothing arrives; the other theorems about them hold for every
  fuel and are about the states a run passes through. Sizes, limits and intervals are the
  constants of the code.

  \<^bold>\<open>Not modelled.\<close> The goroutines and channels of the loop, which the signals of a run stand for, the delays of
  its timers and the files behind a run marker; the recovery driver around the classifier; the forge client's
  pagination and JSON; prompt composition; the tracker adapter's construction, settings, GraphQL and
  authentication; workspaces, git and mirrors; the processes,
  hooks and workspaces of remote runners; agents beyond redaction; configuration and templates; the run
  records, the attempt log's file and credentials; the commands. These are mostly input and output. Of them the
  parts with logic of their own that remain are the retry delay (\<open>retry.go\<close>), the attempt log's summary
  (\<open>attempts.go\<close>), the forge client's candidate scan (\<open>forge.go\<close>) and the template scanner.
\<close>

end
